(* ===== verification/Prelude.thy ===== *)
theory Prelude
  imports Main "HOL-Library.Word" "HOL-Library.Char_ord" "HOL-Library.List_Lexorder"
begin

text \<open>
  Shared vocabulary of the development: the machine types the Rust sources use, the result
  type of fallible operations, and the interfaces (locales) that several components implement:
  \<^item> \<open>prefix_code\<close>: an encoder whose output can be read off the front of any byte string, so that
    encoders composed one after the other stay injective (audit rows, checkpoints, tool
    arguments, vault associated data);
  \<^item> \<open>guarded_machine\<close>: a partial step function with an invariant, and what follows for whole runs
    (agent reducer, run, thread, sessions, accounts, control, login attempts);
  \<^item> \<open>saturating_counter\<close>: a generation or fencing counter that never goes back
    (authorization generations, fencing tokens).
\<close>

section \<open>Types\<close>

type_synonym u8 = "8 word"
type_synonym u16 = "16 word"
type_synonym u32 = "32 word"
type_synonym u64 = "64 word"
type_synonym i64 = "64 word" \<comment> \<open>read with \<open>sint\<close>\<close>
type_synonym i128 = "128 word"
type_synonym bytes = "8 word list"

text \<open>
  A Rust \<open>String\<close> is its UTF-8 bytes, so a HOL \<open>string\<close> (a list of 8-bit characters) holds
  exactly its bytes, and \<open>length\<close> is Rust's \<open>len()\<close>. The derived \<open>Ord\<close> of \<open>String\<close>
  compares bytes lexicographically, which is the order of \<open>List_Lexorder\<close> over \<open>Char_ord\<close>.
\<close>

text \<open>
  A 32-byte array \<open>[u8; 32]\<close> is one 256-bit word, read big-endian; every such word is exactly one
  array. An \<open>OffsetDateTime\<close> is an instant, its nanoseconds since the Unix epoch as \<open>int\<close>, and a
  \<open>Duration\<close> a signed number of nanoseconds.
\<close>

type_synonym digest = "256 word"
type_synonym instant = int
type_synonym duration = int

type_synonym ('e, 'a) result = "'e + 'a"

abbreviation Ok :: "'a \<Rightarrow> ('e, 'a) result" where "Ok \<equiv> Inr"
abbreviation Err :: "'e \<Rightarrow> ('e, 'a) result" where "Err \<equiv> Inl"

fun is_ok :: "('e, 'a) result \<Rightarrow> bool" where
  "is_ok (Inr _) = True"
| "is_ok (Inl _) = False"

lemma is_ok_iff: "is_ok r \<longleftrightarrow> (\<exists>a. r = Ok a)"
  by (cases r) auto

text \<open>\<open>ok_or\<close>, and the first error of a sequence of checks that each end with \<open>?\<close>.\<close>

fun ok_or :: "'e \<Rightarrow> 'a option \<Rightarrow> ('e, 'a) result" where
  "ok_or e None = Err e"
| "ok_or e (Some a) = Ok a"

lemma ok_or_ok: "ok_or e opt = Ok a \<longleftrightarrow> opt = Some a"
  by (cases opt) auto

fun checks :: "('e, unit) result list \<Rightarrow> ('e, unit) result" where
  "checks [] = Ok ()"
| "checks (r # rs) = (case r of Inl e \<Rightarrow> Err e | Inr _ \<Rightarrow> checks rs)"

lemma checks_ok: "checks rs = Ok u \<longleftrightarrow> (\<forall>r\<in>set rs. r = Ok ())"
  by (induction rs) (auto split: sum.splits)

declare checks.simps(2) [simp del]

text \<open>A guard that returns early.\<close>

lemma if_err_ok: "(if c then Err e else r) = Ok a \<longleftrightarrow> \<not> c \<and> r = Ok a"
  by simp

text \<open>\<open>f(x)?\<close> followed by the rest of the function.\<close>

fun and_then :: "('e, 'a) result \<Rightarrow> ('a \<Rightarrow> ('e, 'b) result) \<Rightarrow> ('e, 'b) result" where
  "and_then (Inl e) f = Err e"
| "and_then (Inr a) f = f a"

lemma and_then_ok: "and_then r f = Ok b \<longleftrightarrow> (\<exists>a. r = Ok a \<and> f a = Ok b)"
  by (cases r) auto

named_theorems codec_simps \<open>one-step cancellation rules of the encoders\<close>
named_theorems model_defs \<open>definitions of small operations, unfolded together\<close>

section \<open>Bytes of a string and big-endian words\<close>

definition char_byte :: "char \<Rightarrow> u8" where
  "char_byte c = word_of_nat (of_char c)"

definition str_bytes :: "string \<Rightarrow> bytes" where
  "str_bytes s = map char_byte s"

lemma char_byte_eq_iff [simp]: "char_byte c = char_byte d \<longleftrightarrow> c = d"
proof
  assume "char_byte c = char_byte d"
  then have "unat (char_byte c) = unat (char_byte d)" by simp
  moreover have "unat (char_byte e) = of_char e" for e
  proof -
    have "(of_char e :: nat) < 2 ^ 8" by simp
    then show ?thesis
      unfolding char_byte_def by (simp add: unat_of_nat take_bit_nat_eq_self)
  qed
  ultimately have "(of_char c :: nat) = of_char d" by simp
  then show "c = d" by simp
qed simp

lemma length_str_bytes [simp]: "length (str_bytes s) = length s"
  by (simp add: str_bytes_def)

lemma str_bytes_eq_iff [simp]: "str_bytes s = str_bytes t \<longleftrightarrow> s = t"
proof -
  have "inj char_byte" by (rule injI) simp
  then show ?thesis by (simp add: str_bytes_def inj_map_eq_map)
qed

text \<open>\<open>be_bytes n w\<close>: the \<open>n\<close> bytes of \<open>to_be_bytes\<close>, most significant first.\<close>

definition be_bytes :: "nat \<Rightarrow> 'a::len word \<Rightarrow> bytes" where
  "be_bytes n w = map (\<lambda>i. ucast (drop_bit (8 * i) w)) (rev [0..<n])"

lemma length_be_bytes [simp]: "length (be_bytes n w) = n"
  by (simp add: be_bytes_def)

lemma be_bytes_inject:
  fixes v w :: "'a::len word"
  assumes "LENGTH('a) \<le> 8 * n"
  shows "be_bytes n v = be_bytes n w \<longleftrightarrow> v = w"
proof
  assume eq: "be_bytes n v = be_bytes n w"
  show "v = w"
  proof (rule bit_word_eqI)
    fix k assume k: "k < LENGTH('a)"
    let ?i = "k div 8"
    have "?i < n" using k assms by linarith
    then have "(ucast (drop_bit (8 * ?i) v) :: u8) = ucast (drop_bit (8 * ?i) w)"
      using eq by (simp add: be_bytes_def)
    then have "bit (ucast (drop_bit (8 * ?i) v) :: u8) (k mod 8)
        = bit (ucast (drop_bit (8 * ?i) w) :: u8) (k mod 8)"
      by simp
    then show "bit v k = bit w k"
      by (simp add: bit_unsigned_iff bit_drop_bit_eq)
  qed
qed simp

section \<open>Interface: prefix codes\<close>

text \<open>
  \<open>enc\<close> is a prefix code on the values \<open>wf\<close> accepts: of two encodings followed by anything, equal
  byte strings come from equal values and equal rests.
\<close>

locale prefix_code =
  fixes enc :: "'a \<Rightarrow> bytes" and wf :: "'a \<Rightarrow> bool"
  assumes prefix_free: "wf x \<Longrightarrow> wf y \<Longrightarrow> enc x @ r = enc y @ s \<Longrightarrow> x = y \<and> r = s"
begin

lemma append_eq_iff: "wf x \<Longrightarrow> wf y \<Longrightarrow> enc x @ r = enc y @ s \<longleftrightarrow> x = y \<and> r = s"
  by (blast dest: prefix_free)

lemma enc_inject: "wf x \<Longrightarrow> wf y \<Longrightarrow> enc x = enc y \<longleftrightarrow> x = y"
  using append_eq_iff [of x y "[]" "[]"] by simp

lemma concat_append_eq_iff:
  "length xs = length ys \<Longrightarrow> \<forall>x\<in>set xs. wf x \<Longrightarrow> \<forall>y\<in>set ys. wf y \<Longrightarrow>
   concat (map enc xs) @ r = concat (map enc ys) @ s \<longleftrightarrow> xs = ys \<and> r = s"
proof (induction xs ys rule: list_induct2)
  case Nil
  then show ?case by simp
next
  case (Cons x xs y ys)
  then show ?case by (simp add: append_eq_iff)
qed

end

text \<open>An encoder of constant width that is injective is a prefix code.\<close>

locale fixed_code =
  fixes enc :: "'a \<Rightarrow> bytes" and width :: nat
  assumes width: "length (enc x) = width"
    and inject: "enc x = enc y \<Longrightarrow> x = y"
begin

lemma fixed_prefix_free: "enc x @ r = enc y @ s \<Longrightarrow> x = y \<and> r = s"
  using width [of x] width [of y] inject [of x y] by (auto dest: append_eq_append_conv [THEN iffD1, rotated])

end

sublocale fixed_code \<subseteq> prefix_code enc "\<lambda>_. True"
  by unfold_locales (rule fixed_prefix_free)

section \<open>Interface: guarded step machines\<close>

text \<open>
  A component whose operations may refuse: \<open>step s e\<close> is the successor, or an error that leaves the
  caller with the old state. \<open>inv\<close> is kept by every accepted step.
\<close>

locale guarded_machine =
  fixes step :: "'s \<Rightarrow> 'e \<Rightarrow> ('r, 's) result" and inv :: "'s \<Rightarrow> bool"
  assumes step_inv: "inv s \<Longrightarrow> step s e = Ok t \<Longrightarrow> inv t"
begin

text \<open>A run keeps the state where a step is refused, as a caller that reports the error does.\<close>

primrec run_events :: "'s \<Rightarrow> 'e list \<Rightarrow> 's" where
  "run_events s [] = s"
| "run_events s (e # es) = run_events (case step s e of Inr t \<Rightarrow> t | Inl _ \<Rightarrow> s) es"

lemma run_events_inv: "inv s \<Longrightarrow> inv (run_events s es)"
  by (induction es arbitrary: s) (auto split: sum.splits dest: step_inv)

lemma run_events_append: "run_events s (xs @ ys) = run_events (run_events s xs) ys"
  by (induction xs arbitrary: s) auto

lemma run_events_preserves:
  assumes "\<And>s e t. P s \<Longrightarrow> step s e = Ok t \<Longrightarrow> P t" and "P s"
  shows "P (run_events s es)"
  using assms(2) by (induction es arbitrary: s) (auto split: sum.splits dest: assms(1))

lemma run_events_stuck:
  assumes "\<And>e. \<exists>r. step s e = Err r"
  shows "run_events s es = s"
proof (induction es)
  case (Cons e es)
  obtain r where "step s e = Err r" using assms by blast
  with Cons show ?case by simp
qed simp

end

text \<open>Steps where the first refusal ends everything, as with \<open>?\<close> or a consumed receiver.\<close>

primrec try_fold :: "('s \<Rightarrow> 'e \<Rightarrow> ('r, 's) result) \<Rightarrow> 's \<Rightarrow> 'e list \<Rightarrow> ('r, 's) result" where
  "try_fold step s [] = Ok s"
| "try_fold step s (e # es) = (case step s e of Inl r \<Rightarrow> Err r | Inr t \<Rightarrow> try_fold step t es)"

lemma try_fold_Cons_ok:
  "try_fold step s (e # es) = Ok t \<longleftrightarrow> (\<exists>u. step s e = Ok u \<and> try_fold step u es = Ok t)"
  by (auto split: sum.splits)

text \<open>A loop whose state is a function of the elements it has accepted.\<close>

lemma try_fold_tracks:
  assumes step: "\<And>pre e t. fits pre \<Longrightarrow> step (state pre) e = Ok t \<longleftrightarrow> fits (pre @ [e]) \<and> t = state (pre @ [e])"
    and closed: "\<And>pre es. fits (pre @ es) \<Longrightarrow> fits pre"
  shows "fits pre \<Longrightarrow> try_fold step (state pre) es = Ok s \<longleftrightarrow> fits (pre @ es) \<and> s = state (pre @ es)"
proof (induction es arbitrary: pre)
  case (Cons e es)
  show ?case
  proof (cases "fits (pre @ [e])")
    case True
    then have "step (state pre) e = Ok (state (pre @ [e]))" using step Cons.prems by blast
    with Cons.IH [OF True] show ?thesis by simp
  next
    case False
    then have "\<not> fits (pre @ e # es)" using closed [of "pre @ [e]" es] by auto
    moreover have "step (state pre) e \<noteq> Ok t" for t using step [OF Cons.prems] False by blast
    ultimately show ?thesis unfolding try_fold_Cons_ok by blast
  qed
qed auto

lemma find_of_map: "find P (map f xs) = map_option f (find (P \<circ> f) xs)"
  by (induction xs) simp_all

section \<open>Interface: machines with a measure\<close>

text \<open>A machine with a measure: every accepted step lowers it, so accepted traces are bounded.\<close>

locale bounded_machine = guarded_machine step inv
    for step :: "'s \<Rightarrow> 'e \<Rightarrow> ('r, 's) result" and inv :: "'s \<Rightarrow> bool" +
  fixes rank :: "'s \<Rightarrow> nat"
  assumes step_rank: "inv s \<Longrightarrow> step s e = Ok t \<Longrightarrow> rank t < rank s"
begin

primrec accepted :: "'s \<Rightarrow> 'e list \<Rightarrow> bool" where
  "accepted s [] \<longleftrightarrow> True"
| "accepted s (e # es) \<longleftrightarrow> (case step s e of Inr t \<Rightarrow> accepted t es | Inl _ \<Rightarrow> False)"

lemma accepted_bound: "inv s \<Longrightarrow> accepted s es \<Longrightarrow> length es \<le> rank s"
proof (induction es arbitrary: s)
  case (Cons e es)
  then obtain t where t: "step s e = Ok t" and acc: "accepted t es"
    by (auto split: sum.splits)
  from Cons.prems(1) t have "inv t" and "rank t < rank s"
    by (auto intro: step_inv step_rank)
  with Cons.IH acc have "length es \<le> rank t" by blast
  with \<open>rank t < rank s\<close> show ?case by simp
qed simp

end

section \<open>Saturating increments\<close>

text \<open>\<open>u64::saturating_add(1)\<close>.\<close>

definition u64_saturating_inc :: "u64 \<Rightarrow> u64" where
  "u64_saturating_inc w = (if w = - 1 then - 1 else w + 1)"

lemma uint_u64_bound: "uint (w :: u64) \<le> 2 ^ 64 - 1"
  using uint_range_size [of w] by (simp add: word_size)

lemma uint_u64_max: "uint (- 1 :: u64) = 2 ^ 64 - 1"
  by (simp add: unsigned_minus_1_eq_mask mask_eq_exp_minus_1)

lemma u64_saturating_inc: "uint (u64_saturating_inc w) = min (2 ^ 64 - 1) (uint w + 1)"
proof (cases "w = - 1")
  case True
  then show ?thesis using uint_u64_max by (simp add: u64_saturating_inc_def)
next
  case False
  then have "uint w \<noteq> uint (- 1 :: u64)" by (metis word_uint_eqI)
  then have "uint w + 1 < 2 ^ 64"
    using uint_u64_bound [of w] unfolding uint_u64_max by linarith
  moreover from this have "uint (w + 1) = uint w + 1"
    by (simp add: uint_word_ariths(1) take_bit_int_eq_self)
  ultimately show ?thesis using False by (simp add: u64_saturating_inc_def)
qed

text \<open>\<open>checked_add\<close> of an unsigned integer type.\<close>

definition checked_add :: "'a::len word \<Rightarrow> 'a word \<Rightarrow> 'a word option" where
  "checked_add a b = (if unat a + unat b < 2 ^ LENGTH('a) then Some (a + b) else None)"

lemma checked_add_some: "checked_add a b = Some c \<longleftrightarrow> unat c = unat a + unat (b :: 'a::len word)"
proof (cases "unat a + unat b < 2 ^ LENGTH('a)")
  case True
  then have "unat (a + b) = unat a + unat b" by (simp add: unat_word_ariths)
  with True show ?thesis by (auto simp: checked_add_def intro: word_unat_eq_iff [THEN iffD2])
next
  case False
  moreover have "unat c < 2 ^ LENGTH('a)" by (rule unsigned_less)
  ultimately have "unat c \<noteq> unat a + unat b" by linarith
  with False show ?thesis by (simp add: checked_add_def)
qed

text \<open>A running total that is compared with its limit after every addition.\<close>

lemma checked_add_within:
  fixes m :: "'a::len word"
  assumes "n \<le> unat m"
  shows "checked_add (of_nat n) b = Some c \<and> c \<le> m \<longleftrightarrow> n + unat b \<le> unat m \<and> c = of_nat (n + unat b)"
proof -
  have m: "unat m < 2 ^ LENGTH('a)" by (rule unsigned_less)
  have read: "unat (of_nat k :: 'a word) = k" if "k \<le> unat m" for k
  proof -
    have "k < 2 ^ LENGTH('a)" using that m by linarith
    then show ?thesis by (simp add: unat_of_nat)
  qed
  show ?thesis
  proof
    assume l: "checked_add (of_nat n) b = Some c \<and> c \<le> m"
    then have "unat c = n + unat b" by (simp add: checked_add_some read [OF assms])
    moreover from this have "c = of_nat (n + unat b)" by (metis of_nat_unat ucast_id)
    ultimately show "n + unat b \<le> unat m \<and> c = of_nat (n + unat b)" using l by (simp add: word_le_nat_alt)
  next
    assume r: "n + unat b \<le> unat m \<and> c = of_nat (n + unat b)"
    then have "unat c = n + unat b" using read by blast
    then show "checked_add (of_nat n) b = Some c \<and> c \<le> m"
      using r by (simp add: checked_add_some read [OF assms] word_le_nat_alt)
  qed
qed

lemma checked_add_none: "checked_add a b = None \<longleftrightarrow> 2 ^ LENGTH('a) \<le> unat a + unat (b :: 'a::len word)"
  by (auto simp: checked_add_def)

section \<open>Interface: saturating counters\<close>

locale saturating_counter =
  fixes value_of :: "'c \<Rightarrow> int" and next_of :: "'c \<Rightarrow> 'c" and top :: int
  assumes bounded: "value_of c \<le> top"
    and next_value: "value_of (next_of c) = min top (value_of c + 1)"
begin

lemma next_ge: "value_of c \<le> value_of (next_of c)"
  using bounded [of c] by (simp add: next_value)

lemma next_gt: "value_of c < top \<Longrightarrow> value_of c < value_of (next_of c)"
  by (simp add: next_value)

lemma next_never_wraps: "value_of (next_of c) = value_of c \<longleftrightarrow> value_of c = top"
  using bounded [of c] by (auto simp: next_value)

lemma iterate_ge: "value_of c \<le> value_of ((next_of ^^ n) c)"
proof (induction n)
  case (Suc n)
  then show ?case using next_ge [of "(next_of ^^ n) c"] by simp
qed simp

lemma iterate_value: "value_of ((next_of ^^ n) c) = min top (value_of c + int n)"
proof (induction n)
  case 0
  then show ?case using bounded [of c] by simp
next
  case (Suc n)
  then show ?case by (simp add: next_value)
qed

end

end
