(* ===== verification/Canonical.thy ===== *)
theory Canonical
  imports Prelude
begin

text \<open>
  The two building blocks of the audit chain, \<open>crates/openbot-domain/src/audit/hash.rs\<close>: the
  hexadecimal form of a SHA-256 digest and the \<open>CanonicalWriter\<close>, whose length-prefixed frames are
  what makes a digest of a row speak about that row only.

  \<open>Sha256\<close> itself is a crate the program uses; every definition that hashes takes the digest function
  \<open>H :: bytes \<Rightarrow> digest\<close> as an argument and no law about it is assumed. Statements about digests are
  therefore of the form ``the values agree, or here are two different byte strings with the same
  digest'' (\<open>collision\<close> below).
\<close>

unbundle bit_operations_syntax

definition collision :: "(bytes \<Rightarrow> digest) \<Rightarrow> bytes \<Rightarrow> bytes \<Rightarrow> bool" where
  "collision H x y \<longleftrightarrow> x \<noteq> y \<and> H x = H y"

section \<open>Digests in hexadecimal\<close>

definition sha256_digest_bytes :: nat where
  "sha256_digest_bytes = 32"

datatype digest_parse_error = WrongLength nat | NotHexadecimal

definition hex_digits :: string where
  "hex_digits = ''0123456789abcdef''"

definition to_hex :: "digest \<Rightarrow> string" where
  "to_hex d = concat (map (\<lambda>byte. [hex_digits ! unat (drop_bit 4 byte), hex_digits ! unat (byte AND 15)])
     (be_bytes sha256_digest_bytes d))"

definition hex_nibble :: "u8 \<Rightarrow> u8 option" where
  "hex_nibble byte =
     (if 48 \<le> byte \<and> byte \<le> 57 then Some (byte - 48)
      else if 97 \<le> byte \<and> byte \<le> 102 then Some (byte - 97 + 10)
      else if 65 \<le> byte \<and> byte \<le> 70 then Some (byte - 65 + 10)
      else None)"

fun parse_pairs :: "bytes \<Rightarrow> (digest_parse_error, bytes) result" where
  "parse_pairs (p0 # p1 # rest) =
     (case hex_nibble p0 of
        None \<Rightarrow> Err NotHexadecimal
      | Some high \<Rightarrow> (case hex_nibble p1 of
          None \<Rightarrow> Err NotHexadecimal
        | Some low \<Rightarrow> (case parse_pairs rest of
            Inl e \<Rightarrow> Err e
          | Inr out \<Rightarrow> Ok ((push_bit 4 high OR low) # out))))"
| "parse_pairs _ = Ok []"

text \<open>\<open>from_bytes\<close>: the array as one word, the inverse of \<open>be_bytes\<close>.\<close>

definition be_word :: "bytes \<Rightarrow> 'a::len word" where
  "be_word bs = foldl (\<lambda>acc b. push_bit 8 acc OR ucast b) 0 bs"

definition parse_hex :: "string \<Rightarrow> (digest_parse_error, digest) result" where
  "parse_hex text =
     (let raw = str_bytes text in
      if length raw \<noteq> sha256_digest_bytes * 2 then Err (WrongLength (length raw))
      else case parse_pairs raw of Inl e \<Rightarrow> Err e | Inr out \<Rightarrow> Ok (be_word out))"

lemma be_bytes_Suc: "be_bytes (Suc n) w = ucast (drop_bit (8 * n) w) # be_bytes n w"
  by (simp add: be_bytes_def)

lemma be_word_fold:
  "foldl (\<lambda>acc b. push_bit 8 acc OR ucast b) a (be_bytes n w)
     = push_bit (8 * n) a OR take_bit (8 * n) (w :: 'a::len word)"
proof (induction n arbitrary: a)
  case 0
  then show ?case by (simp add: be_bytes_def)
next
  case (Suc n)
  have "push_bit (8 * n) (push_bit 8 a OR ucast (ucast (drop_bit (8 * n) w) :: u8))
          OR take_bit (8 * n) w
        = push_bit (8 * Suc n) a OR take_bit (8 * Suc n) w"
    by (rule bit_word_eqI)
       (auto simp: bit_simps not_less less_diff_conv2 algebra_simps)
  then show ?case
    by (simp add: be_bytes_Suc Suc.IH)
qed

lemma be_word_be_bytes: "LENGTH('a) \<le> 8 * n \<Longrightarrow> be_word (be_bytes n w) = (w :: 'a::len word)"
  by (simp add: be_word_def be_word_fold take_bit_word_eq_self)

lemma hex_nibble_digit:
  assumes "n < 16"
  shows "hex_nibble (char_byte (hex_digits ! n)) = Some (of_nat n)"
proof -
  have "n \<in> set [0..<16]" using assms by simp
  then show ?thesis
    by (simp add: upt_rec) (elim disjE; simp add: hex_digits_def hex_nibble_def char_byte_def)
qed

lemma nibbles_join: "push_bit 4 (drop_bit 4 b) OR (b AND 15) = (b :: u8)"
proof -
  have "b AND 15 = take_bit 4 b"
    by (simp add: take_bit_eq_mask mask_eq_exp_minus_1)
  then show ?thesis
    by (auto intro!: bit_word_eqI simp: bit_simps)
qed

lemma nibble_bounds: "unat (drop_bit 4 (b :: u8)) < 16" "unat (b AND 15) < 16"
proof -
  have "unat b < 256" using unsigned_less [of b, where 'a = nat] by simp
  moreover have "unat (drop_bit 4 b) = unat b div 2 ^ 4"
    by (subst unat_drop_bit_eq) (rule drop_bit_eq_div)
  ultimately show "unat (drop_bit 4 b) < 16" by simp
  have "b AND 15 \<le> 15" by (rule word_and_le1)
  then show "unat (b AND 15) < 16"
    by (simp add: word_le_nat_alt)
qed

lemma parse_pairs_hex:
  "parse_pairs (str_bytes (concat (map (\<lambda>byte.
     [hex_digits ! unat (drop_bit 4 byte), hex_digits ! unat (byte AND 15)]) bs))) = Ok bs"
  by (induction bs)
     (simp_all add: str_bytes_def hex_nibble_digit nibble_bounds nibbles_join)

lemma length_hex_pairs:
  "length (concat (map (\<lambda>byte. [f byte, g byte]) bs)) = 2 * length bs"
  by (induction bs) simp_all

text \<open>A digest survives being written as 64 hexadecimal characters and read back: the text
  \<open>to_hex\<close> writes is always 64 characters long and \<open>parse_hex\<close> returns exactly the digest it came from.\<close>

theorem to_hex_parse_hex: "length (to_hex d) = 64 \<and> parse_hex (to_hex d) = Ok d"
proof
  show len: "length (to_hex d) = 64"
    by (simp add: to_hex_def length_hex_pairs sha256_digest_bytes_def)
  show "parse_hex (to_hex d) = Ok d"
    using len
    by (simp add: parse_hex_def sha256_digest_bytes_def Let_def)
       (simp add: to_hex_def parse_pairs_hex be_word_be_bytes sha256_digest_bytes_def)
qed

section \<open>The canonical writer\<close>

record canonical_writer =
  buffer :: bytes

text \<open>The writer's methods, each the state it leaves behind.\<close>

definition writer_tag :: "u8 \<Rightarrow> canonical_writer \<Rightarrow> canonical_writer" where
  "writer_tag t w = w\<lparr>buffer := buffer w @ [t]\<rparr>"

definition writer_bytes :: "bytes \<Rightarrow> canonical_writer \<Rightarrow> canonical_writer" where
  "writer_bytes v w =
     (let len = (of_nat (length v) :: u64);
          w1 = w\<lparr>buffer := buffer w @ be_bytes 8 len\<rparr>
      in w1\<lparr>buffer := buffer w1 @ v\<rparr>)"

definition writer_new :: "string \<Rightarrow> canonical_writer" where
  "writer_new domain = writer_bytes (str_bytes domain) \<lparr>buffer = []\<rparr>"

definition writer_str :: "string \<Rightarrow> canonical_writer \<Rightarrow> canonical_writer" where
  "writer_str v w = writer_bytes (str_bytes v) w"

definition writer_option_str :: "string option \<Rightarrow> canonical_writer \<Rightarrow> canonical_writer" where
  "writer_option_str v w =
     (case v of None \<Rightarrow> writer_tag 0 w | Some text \<Rightarrow> writer_str text (writer_tag 1 w))"

definition writer_bool :: "bool \<Rightarrow> canonical_writer \<Rightarrow> canonical_writer" where
  "writer_bool v w = writer_tag (of_bool v) w"

definition writer_u32 :: "u32 \<Rightarrow> canonical_writer \<Rightarrow> canonical_writer" where
  "writer_u32 v w = w\<lparr>buffer := buffer w @ be_bytes 4 v\<rparr>"

definition writer_u64 :: "u64 \<Rightarrow> canonical_writer \<Rightarrow> canonical_writer" where
  "writer_u64 v w = w\<lparr>buffer := buffer w @ be_bytes 8 v\<rparr>"

definition writer_i128 :: "i128 \<Rightarrow> canonical_writer \<Rightarrow> canonical_writer" where
  "writer_i128 v w = w\<lparr>buffer := buffer w @ be_bytes 16 v\<rparr>"

definition writer_digest :: "digest \<Rightarrow> canonical_writer \<Rightarrow> canonical_writer" where
  "writer_digest v w = w\<lparr>buffer := buffer w @ be_bytes 32 v\<rparr>"

definition writer_option_digest :: "digest option \<Rightarrow> canonical_writer \<Rightarrow> canonical_writer" where
  "writer_option_digest v w =
     (case v of None \<Rightarrow> writer_tag 0 w | Some d \<Rightarrow> writer_digest d (writer_tag 1 w))"

definition writer_finish :: "canonical_writer \<Rightarrow> bytes" where
  "writer_finish w = buffer w"

definition digest_of_written :: "(bytes \<Rightarrow> digest) \<Rightarrow> canonical_writer \<Rightarrow> digest" where
  "digest_of_written H w = H (buffer w)"

section \<open>What each method appends\<close>

definition enc_bytes :: "bytes \<Rightarrow> bytes" where
  "enc_bytes v = be_bytes 8 (of_nat (length v) :: u64) @ v"

definition enc_str :: "string \<Rightarrow> bytes" where
  "enc_str v = enc_bytes (str_bytes v)"

definition enc_option :: "('a \<Rightarrow> bytes) \<Rightarrow> 'a option \<Rightarrow> bytes" where
  "enc_option enc v = (case v of None \<Rightarrow> [0] | Some x \<Rightarrow> 1 # enc x)"

definition enc_tag :: "u8 \<Rightarrow> bytes" where "enc_tag t = [t]"
definition enc_bool :: "bool \<Rightarrow> bytes" where "enc_bool v = [of_bool v]"
definition enc_u32 :: "u32 \<Rightarrow> bytes" where "enc_u32 v = be_bytes 4 v"
definition enc_u64 :: "u64 \<Rightarrow> bytes" where "enc_u64 v = be_bytes 8 v"
definition enc_i128 :: "i128 \<Rightarrow> bytes" where "enc_i128 v = be_bytes 16 v"
definition enc_digest :: "digest \<Rightarrow> bytes" where "enc_digest v = be_bytes 32 v"

text \<open>A length fits the \<open>u64\<close> written before it; on a 64-bit target every Rust string does.\<close>

definition fits_u64 :: "nat \<Rightarrow> bool" where
  "fits_u64 n \<longleftrightarrow> n < 2 ^ 64"

abbreviation str_ok :: "string \<Rightarrow> bool" where
  "str_ok s \<equiv> fits_u64 (length s)"

lemma writer_appends [codec_simps]:
  "buffer (writer_tag t w) = buffer w @ enc_tag t"
  "buffer (writer_bytes v w) = buffer w @ enc_bytes v"
  "buffer (writer_str s w) = buffer w @ enc_str s"
  "buffer (writer_option_str so w) = buffer w @ enc_option enc_str so"
  "buffer (writer_bool b w) = buffer w @ enc_bool b"
  "buffer (writer_u32 v32 w) = buffer w @ enc_u32 v32"
  "buffer (writer_u64 v64 w) = buffer w @ enc_u64 v64"
  "buffer (writer_i128 v128 w) = buffer w @ enc_i128 v128"
  "buffer (writer_digest d w) = buffer w @ enc_digest d"
  "buffer (writer_option_digest d' w) = buffer w @ enc_option enc_digest d'"
  by (simp_all add: writer_tag_def writer_bytes_def writer_str_def writer_option_str_def
      writer_bool_def writer_u32_def writer_u64_def writer_i128_def writer_digest_def
      writer_option_digest_def enc_tag_def enc_bytes_def enc_str_def enc_option_def enc_bool_def
      enc_u32_def enc_u64_def enc_i128_def enc_digest_def Let_def split: option.splits)

lemma writer_new_buffer [codec_simps]: "buffer (writer_new domain) = enc_str domain"
  by (simp add: writer_new_def enc_str_def codec_simps)

section \<open>The encoders are prefix codes\<close>

interpretation tag_code: fixed_code enc_tag 1
  by unfold_locales (simp_all add: enc_tag_def)

interpretation bool_code: fixed_code enc_bool 1
  by unfold_locales (auto simp: enc_bool_def)

interpretation u32_code: fixed_code enc_u32 4
  by unfold_locales (simp_all add: enc_u32_def be_bytes_inject)

interpretation u64_code: fixed_code enc_u64 8
  by unfold_locales (simp_all add: enc_u64_def be_bytes_inject)

interpretation i128_code: fixed_code enc_i128 16
  by unfold_locales (simp_all add: enc_i128_def be_bytes_inject)

interpretation digest_code: fixed_code enc_digest 32
  by unfold_locales (simp_all add: enc_digest_def be_bytes_inject)

lemma length_word_inject:
  "fits_u64 m \<Longrightarrow> fits_u64 n \<Longrightarrow> (of_nat m :: u64) = of_nat n \<longleftrightarrow> m = n"
  by (simp add: fits_u64_def word_of_nat_eq_iff take_bit_nat_eq_self)

lemma enc_bytes_prefix_free:
  assumes "fits_u64 (length v)" "fits_u64 (length v')" "enc_bytes v @ r = enc_bytes v' @ s"
  shows "v = v' \<and> r = s"
proof -
  have "be_bytes 8 (of_nat (length v) :: u64) @ (v @ r)
      = be_bytes 8 (of_nat (length v') :: u64) @ (v' @ s)"
    using assms(3) by (simp add: enc_bytes_def)
  then have "be_bytes 8 (of_nat (length v) :: u64) = be_bytes 8 (of_nat (length v') :: u64)"
    and rest: "v @ r = v' @ s"
    by (simp_all add: append_eq_append_conv)
  then have "(of_nat (length v) :: u64) = of_nat (length v')"
    by (simp add: be_bytes_inject)
  then have "length v = length v'"
    using assms(1,2) by (simp add: length_word_inject)
  with rest show ?thesis by simp
qed

interpretation bytes_code: prefix_code enc_bytes "\<lambda>v. fits_u64 (length v)"
  by unfold_locales (rule enc_bytes_prefix_free)

interpretation str_code: prefix_code enc_str str_ok
proof
  fix x y r s
  assume "str_ok x" "str_ok y" and eq: "enc_str x @ r = enc_str y @ s"
  with eq show "x = y \<and> r = s"
    by (simp add: enc_str_def bytes_code.append_eq_iff)
qed

text \<open>An option is a prefix code whenever its content is.\<close>

context prefix_code
begin

lemma option_prefix_free:
  "pred_option wf x \<Longrightarrow> pred_option wf y \<Longrightarrow> enc_option enc x @ r = enc_option enc y @ s \<Longrightarrow>
   x = y \<and> r = s"
  by (auto simp: enc_option_def append_eq_iff split: option.splits)

end

interpretation opt_str_code: prefix_code "enc_option enc_str" "pred_option str_ok"
  by unfold_locales (rule str_code.option_prefix_free)

interpretation opt_digest_code: prefix_code "enc_option enc_digest" "pred_option (\<lambda>_. True)"
  by unfold_locales (rule digest_code.option_prefix_free)

lemmas codec_cancel =
  tag_code.append_eq_iff bool_code.append_eq_iff u32_code.append_eq_iff u64_code.append_eq_iff
  i128_code.append_eq_iff digest_code.append_eq_iff bytes_code.append_eq_iff
  str_code.append_eq_iff opt_str_code.append_eq_iff opt_digest_code.append_eq_iff

lemmas codec_inject =
  tag_code.enc_inject bool_code.enc_inject u32_code.enc_inject u64_code.enc_inject
  i128_code.enc_inject digest_code.enc_inject bytes_code.enc_inject str_code.enc_inject
  opt_str_code.enc_inject opt_digest_code.enc_inject

end
