(* ===== verification/StdModel.thy ===== *)
theory StdModel
  imports Prelude
begin

text \<open>
  What the sources use of Rust's standard library and of \<open>serde_json\<close>'s value type: the scalar values
  of a UTF-8 string and the character classes \<open>is_control\<close>, \<open>is_whitespace\<close> and
  \<open>is_ecmascript_whitespace\<close> (the last from \<open>crates/openbot-contracts/src/text.rs\<close>), trimming,
  \<open>BTreeMap\<close> as its sorted entry list, and JSON values.
\<close>

section \<open>UTF-8 strings as scalar values\<close>

text \<open>
  \<open>scalars s\<close> decodes the bytes of a string into pairs of a scalar value and the bytes it came from.
  A Rust \<open>str\<close> is always valid UTF-8; on other byte lists the decoder takes bytes one at a time.
\<close>

definition cont :: "char \<Rightarrow> nat" where
  "cont c = of_char c mod 64"

fun scalars :: "string \<Rightarrow> (nat \<times> string) list" where
  "scalars [] = []"
| "scalars (a # rest) =
     (let n = of_char a in
      if n < 192 then (n, [a]) # scalars rest
      else if n < 224 then
        (case rest of b # rest1 \<Rightarrow> ((n mod 32) * 64 + cont b, [a, b]) # scalars rest1
         | _ \<Rightarrow> (n, [a]) # scalars rest)
      else if n < 240 then
        (case rest of b # c # rest1 \<Rightarrow> ((n mod 16) * 4096 + cont b * 64 + cont c, [a, b, c]) # scalars rest1
         | _ \<Rightarrow> (n, [a]) # scalars rest)
      else
        (case rest of b # c # d # rest1 \<Rightarrow>
           ((n mod 8) * 262144 + cont b * 4096 + cont c * 64 + cont d, [a, b, c, d]) # scalars rest1
         | _ \<Rightarrow> (n, [a]) # scalars rest))"

definition chars :: "string \<Rightarrow> nat list" where
  "chars s = map fst (scalars s)"

lemma scalars_concat: "concat (map snd (scalars s)) = s"
  by (induction s rule: scalars.induct) (auto simp: Let_def split: list.splits)

definition is_control :: "nat \<Rightarrow> bool" where
  "is_control c \<longleftrightarrow> c < 32 \<or> (127 \<le> c \<and> c < 160)"

definition is_whitespace :: "nat \<Rightarrow> bool" where
  "is_whitespace c \<longleftrightarrow> (9 \<le> c \<and> c \<le> 13) \<or> c \<in> {32, 133, 160, 5760} \<or> (8192 \<le> c \<and> c \<le> 8202)
     \<or> c \<in> {8232, 8233, 8239, 8287, 12288}"

definition is_ecmascript_whitespace :: "nat \<Rightarrow> bool" where
  "is_ecmascript_whitespace c \<longleftrightarrow> (9 \<le> c \<and> c \<le> 13) \<or> c \<in> {32, 160, 5760} \<or> (8192 \<le> c \<and> c \<le> 8202)
     \<or> c \<in> {8232, 8233, 8239, 8287, 12288, 65279}"

definition trim_matches :: "(nat \<Rightarrow> bool) \<Rightarrow> string \<Rightarrow> string" where
  "trim_matches p s =
     concat (map snd (rev (dropWhile (p \<circ> fst) (rev (dropWhile (p \<circ> fst) (scalars s))))))"

definition trim :: "string \<Rightarrow> string" where
  "trim s = trim_matches is_whitespace s"

definition trim_ecmascript :: "string \<Rightarrow> string" where
  "trim_ecmascript value = trim_matches is_ecmascript_whitespace value"

definition is_ascii_digit :: "char \<Rightarrow> bool" where
  "is_ascii_digit c \<longleftrightarrow> 48 \<le> (of_char c :: nat) \<and> (of_char c :: nat) \<le> 57"

definition is_ascii_lowercase :: "char \<Rightarrow> bool" where
  "is_ascii_lowercase c \<longleftrightarrow> 97 \<le> (of_char c :: nat) \<and> (of_char c :: nat) \<le> 122"

definition is_ascii_uppercase :: "char \<Rightarrow> bool" where
  "is_ascii_uppercase c \<longleftrightarrow> 65 \<le> (of_char c :: nat) \<and> (of_char c :: nat) \<le> 90"

definition is_ascii_alphanumeric :: "char \<Rightarrow> bool" where
  "is_ascii_alphanumeric c \<longleftrightarrow> is_ascii_digit c \<or> is_ascii_lowercase c \<or> is_ascii_uppercase c"

definition strip_prefix :: "string \<Rightarrow> string \<Rightarrow> string option" where
  "strip_prefix p s = (if take (length p) s = p then Some (drop (length p) s) else None)"

section \<open>BTreeMap\<close>

text \<open>
  A \<open>BTreeMap<String, V>\<close> is observed through its iterator, which yields the entries in ascending key
  order; it is modelled as that list. \<open>bt_insert\<close> overwrites an equal key and returns the old value,
  as \<open>insert\<close> does.
\<close>

fun bt_insert :: "string \<Rightarrow> 'v \<Rightarrow> (string \<times> 'v) list \<Rightarrow> (string \<times> 'v) list \<times> 'v option" where
  "bt_insert k v [] = ([(k, v)], None)"
| "bt_insert k v ((k', v') # m) =
     (if k < k' then ((k, v) # (k', v') # m, None)
      else if k = k' then ((k, v) # m, Some v')
      else (let (m', old) = bt_insert k v m in ((k', v') # m', old)))"

definition bt_ok :: "(string \<times> 'v) list \<Rightarrow> bool" where
  "bt_ok m \<longleftrightarrow> sorted_wrt (<) (map fst m)"

lemma bt_insert_keys: "set (map fst (fst (bt_insert k v m))) = insert k (set (map fst m))"
  by (induction k v m rule: bt_insert.induct) (simp_all add: insert_commute prod.case_eq_if)

lemma bt_insert_ok: "bt_ok m \<Longrightarrow> bt_ok (fst (bt_insert k v m))"
proof (induction k v m rule: bt_insert.induct)
  case (2 k v k' v' m)
  show ?case
  proof (cases "k' < k")
    case True
    then have ne: "\<not> k < k'" "k \<noteq> k'" by auto
    from 2 ne have "bt_ok (fst (bt_insert k v m))" by (auto simp: bt_ok_def)
    moreover have "\<forall>x\<in>set (map fst (fst (bt_insert k v m))). k' < x"
      unfolding bt_insert_keys using 2(2) True by (auto simp: bt_ok_def)
    ultimately show ?thesis using ne by (auto simp: bt_ok_def split: prod.splits)
  next
    case False
    then show ?thesis using 2(2) by (auto simp: bt_ok_def)
  qed
qed (simp add: bt_ok_def)

lemma bt_insert_old: "bt_ok m \<Longrightarrow> snd (bt_insert k v m) = map_of m k"
proof (induction k v m rule: bt_insert.induct)
  case (2 k v k' v' m)
  have "k < k' \<Longrightarrow> k \<notin> fst ` set m" using 2(2) by (auto simp: bt_ok_def)
  then have none: "k < k' \<Longrightarrow> map_of m k = None" by (simp add: map_of_eq_None_iff)
  show ?case using 2 none by (auto simp: bt_ok_def split: prod.splits)
qed simp

lemma bt_insert_lookup: "bt_ok m \<Longrightarrow> map_of (fst (bt_insert k v m)) = (map_of m)(k \<mapsto> v)"
proof (induction k v m rule: bt_insert.induct)
  case (2 k v k' v' m)
  then show ?case by (auto simp: bt_ok_def fun_eq_iff split: prod.splits)
qed (simp add: fun_eq_iff)

lemma bt_ok_distinct: "bt_ok m \<Longrightarrow> distinct (map fst m)"
  by (simp add: bt_ok_def strict_sorted_iff)

lemma entries_of_map_of:
  "distinct (map fst m) \<Longrightarrow> map (\<lambda>k. (k, the (map_of m k))) (map fst m) = m"
  by (simp add: comp_def) (rule map_idI, auto simp: map_of_is_SomeI)

lemma bt_ok_ext:
  assumes "bt_ok m" "bt_ok n" "map_of m = map_of n"
  shows "m = n"
proof -
  have "set (map fst m) = set (map fst n)"
    using arg_cong [OF assms(3), of dom] by (simp add: dom_map_of_conv_image_fst)
  with assms(1,2) have "map fst m = map fst n"
    by (intro sorted_distinct_set_unique) (auto simp: bt_ok_def strict_sorted_iff)
  with assms show ?thesis
    by (metis entries_of_map_of bt_ok_distinct)
qed

section \<open>JSON values\<close>

text \<open>
  \<open>serde_json::Value\<close> with its three number representations; a float is its IEEE bit pattern. An object
  is its entry list, one entry per key; the order of the entries carries no meaning.
\<close>

datatype json_number = PosInt u64 | NegInt i64 | Float u64

datatype json =
    JNull
  | JBool bool
  | JNumber json_number
  | JString string
  | JArray "json list"
  | JObject "(string \<times> json) list"

fun as_object :: "json \<Rightarrow> (string \<times> json) list option" where
  "as_object (JObject m) = Some m"
| "as_object _ = None"

fun json_str :: "json \<Rightarrow> string option" where
  "json_str (JString s) = Some s"
| "json_str _ = None"

fun is_object :: "json \<Rightarrow> bool" where
  "is_object (JObject _) = True"
| "is_object _ = False"

fun as_u64 :: "json_number \<Rightarrow> u64 option" where
  "as_u64 (PosInt n) = Some n"
| "as_u64 (NegInt n) = None"
| "as_u64 (Float _) = None"

fun as_i64 :: "json_number \<Rightarrow> i64 option" where
  "as_i64 (PosInt n) = (if uint n < 2 ^ 63 then Some n else None)"
| "as_i64 (NegInt n) = Some n"
| "as_i64 (Float _) = None"

section \<open>Decimal integers\<close>

text \<open>
  \<open>str::parse\<close> to an unsigned integer type of \<open>limit\<close> values, on a string of ASCII digits: the loop
  multiplies and adds with a check at every step.
\<close>

definition digit_value :: "char \<Rightarrow> nat" where
  "digit_value c = of_char c - 48"

fun parse_digits :: "nat \<Rightarrow> nat \<Rightarrow> string \<Rightarrow> nat option" where
  "parse_digits limit acc [] = Some acc"
| "parse_digits limit acc (c # cs) =
     (let next = acc * 10 + digit_value c in
      if next < limit then parse_digits limit next cs else None)"

fun digits_value :: "nat \<Rightarrow> string \<Rightarrow> nat" where
  "digits_value acc [] = acc"
| "digits_value acc (c # cs) = digits_value (acc * 10 + digit_value c) cs"

lemma digits_value_ge: "acc \<le> digits_value acc cs"
proof (induction cs arbitrary: acc)
  case (Cons c cs)
  have "acc \<le> acc * 10 + digit_value c" by simp
  also have "\<dots> \<le> digits_value (acc * 10 + digit_value c) cs" by (rule Cons.IH)
  finally show ?case by simp
qed simp

lemma parse_digits_eq:
  "acc < limit \<Longrightarrow> parse_digits limit acc cs = (if digits_value acc cs < limit then Some (digits_value acc cs) else None)"
proof (induction cs arbitrary: acc)
  case (Cons c cs)
  show ?case
    using Cons.IH [of "acc * 10 + digit_value c"] digits_value_ge [of "acc * 10 + digit_value c" cs]
    by (auto simp: Let_def)
qed simp

text \<open>The decimal rendering of an unsigned integer.\<close>

fun show_nat :: "nat \<Rightarrow> string" where
  "show_nat n = (if n < 10 then [char_of (48 + n)] else show_nat (n div 10) @ [char_of (48 + n mod 10)])"

declare show_nat.simps [simp del]

lemma show_nat_digits: "c \<in> set (show_nat n) \<Longrightarrow> is_ascii_digit c"
proof (induction n rule: show_nat.induct)
  case (1 n)
  show ?case
    using 1 by (subst (asm) show_nat.simps) (auto simp: is_ascii_digit_def split: if_splits)
qed

lemma digits_value_append: "digits_value acc (xs @ ys) = digits_value (digits_value acc xs) ys"
  by (induction xs arbitrary: acc) simp_all

lemma digits_value_show_nat: "digits_value 0 (show_nat n) = n"
proof (induction n rule: show_nat.induct)
  case (1 n)
  show ?case
  proof (cases "n < 10")
    case True
    then show ?thesis by (subst show_nat.simps) (simp add: digit_value_def)
  next
    case False
    then have "digits_value 0 (show_nat n) = digits_value 0 (show_nat (n div 10)) * 10 + n mod 10"
      by (subst show_nat.simps) (simp add: digits_value_append digit_value_def)
    also have "\<dots> = n" using 1 False by simp
    finally show ?thesis .
  qed
qed

lemma show_nat_inject: "show_nat m = show_nat n \<longleftrightarrow> m = n"
  by (metis digits_value_show_nat)

text \<open>\<open>str::split\<close> at a character.\<close>

fun split_char :: "char \<Rightarrow> string \<Rightarrow> string list" where
  "split_char sep [] = [[]]"
| "split_char sep (c # s) =
     (if c = sep then [] # split_char sep s
      else (case split_char sep s of [] \<Rightarrow> [[c]] | w # ws \<Rightarrow> (c # w) # ws))"

lemma split_char_not_empty: "split_char sep s \<noteq> []"
  by (induction s) (auto split: list.splits)

lemma split_char_append:
  "sep \<notin> set w \<Longrightarrow> split_char sep (w @ sep # s) = w # split_char sep s"
  by (induction w) auto

lemma split_char_word: "sep \<notin> set w \<Longrightarrow> split_char sep w = [w]"
  by (induction w) auto

section \<open>ASCII case, splitting and searching\<close>

definition to_ascii_lower :: "char \<Rightarrow> char" where
  "to_ascii_lower c = (if is_ascii_uppercase c then char_of (of_char c + (32::nat)) else c)"

definition to_ascii_lowercase :: "string \<Rightarrow> string" where
  "to_ascii_lowercase s = map to_ascii_lower s"

definition eq_ignore_ascii_case :: "string \<Rightarrow> string \<Rightarrow> bool" where
  "eq_ignore_ascii_case a b \<longleftrightarrow> to_ascii_lowercase a = to_ascii_lowercase b"

text \<open>\<open>str::split_once\<close>: split at the first occurrence of the pattern.\<close>

fun split_once :: "string \<Rightarrow> string \<Rightarrow> (string \<times> string) option" where
  "split_once pat [] = (if pat = [] then Some ([], []) else None)"
| "split_once pat (c # s) =
     (case strip_prefix pat (c # s) of
        Some rest \<Rightarrow> Some ([], rest)
      | None \<Rightarrow> (case split_once pat s of None \<Rightarrow> None | Some (a, b) \<Rightarrow> Some (c # a, b)))"

lemma to_ascii_lower_other:
  assumes "\<not> is_ascii_lowercase d"
  shows "to_ascii_lower c = d \<longleftrightarrow> c = d \<and> \<not> is_ascii_uppercase c"
proof (cases "is_ascii_uppercase c")
  case True
  then have "(of_char (char_of (of_char c + (32::nat))) :: nat) = of_char c + 32"
    by (simp add: is_ascii_uppercase_def)
  with True have "is_ascii_lowercase (to_ascii_lower c)"
    by (simp add: to_ascii_lower_def is_ascii_lowercase_def is_ascii_uppercase_def)
  with True assms show ?thesis by auto
qed (auto simp: to_ascii_lower_def)

lemma in_lowercase:
  assumes "\<not> is_ascii_lowercase d" "\<not> is_ascii_uppercase d"
  shows "d \<in> set (to_ascii_lowercase s) \<longleftrightarrow> d \<in> set s"
proof
  assume "d \<in> set (to_ascii_lowercase s)"
  then obtain c where "c \<in> set s" "to_ascii_lower c = d" unfolding to_ascii_lowercase_def set_map by blast
  then show "d \<in> set s" using to_ascii_lower_other [OF assms(1), of c] by simp
next
  assume "d \<in> set s"
  moreover have "to_ascii_lower d = d" using assms(2) by (simp add: to_ascii_lower_def)
  ultimately show "d \<in> set (to_ascii_lowercase s)"
    unfolding to_ascii_lowercase_def set_map by (metis image_eqI)
qed

lemma split_once_before:
  "split_once [c] s = Some (a, b) \<Longrightarrow> s = a @ c # b \<and> c \<notin> set a"
proof (induction s arbitrary: a)
  case (Cons d s)
  then show ?case by (auto simp: strip_prefix_def split: if_splits option.splits)
qed simp

lemma split_once_none: "split_once [c] s = None \<Longrightarrow> c \<notin> set s"
  by (induction s) (auto simp: strip_prefix_def split: if_splits option.splits)

text \<open>\<open>str::contains\<close> and \<open>str::starts_with\<close> of a string pattern.\<close>

definition starts_with :: "string \<Rightarrow> string \<Rightarrow> bool" where
  "starts_with s pat \<longleftrightarrow> take (length pat) s = pat"

fun contains_str :: "string \<Rightarrow> string \<Rightarrow> bool" where
  "contains_str [] pat \<longleftrightarrow> pat = []"
| "contains_str (c # s) pat \<longleftrightarrow> starts_with (c # s) pat \<or> contains_str s pat"

lemma starts_with_iff: "starts_with s pat \<longleftrightarrow> (\<exists>rest. s = pat @ rest)"
  unfolding starts_with_def by (metis append_eq_conv_conj append_take_drop_id)

lemma contains_str_iff: "contains_str s pat \<longleftrightarrow> (\<exists>before after. s = before @ pat @ after)"
proof (induction s)
  case (Cons c s)
  have "(\<exists>before after. c # s = before @ pat @ after)
      \<longleftrightarrow> (\<exists>after. c # s = pat @ after) \<or> (\<exists>before after. s = before @ pat @ after)"
    by (metis append_Cons append_Nil list.exhaust list.inject)
  with Cons show ?case by (simp add: starts_with_iff)
qed simp

lemma split_char_not_in: "w \<in> set (split_char sep s) \<Longrightarrow> sep \<notin> set w"
  by (induction s arbitrary: w) (auto split: list.splits if_splits)

text \<open>\<open>join\<close> puts the separator back.\<close>

fun join_char :: "char \<Rightarrow> string list \<Rightarrow> string" where
  "join_char sep [] = []"
| "join_char sep [w] = w"
| "join_char sep (w # v # ws) = w @ sep # join_char sep (v # ws)"

lemma join_split_char: "join_char sep (split_char sep s) = s"
proof (induction s)
  case (Cons c s)
  then show ?case using split_char_not_empty [of sep s]
    by (cases "split_char sep s"; cases "tl (split_char sep s)") auto
qed simp

lemma split_join_char: "ws \<noteq> [] \<Longrightarrow> \<forall>w\<in>set ws. sep \<notin> set w \<Longrightarrow> split_char sep (join_char sep ws) = ws"
  by (induction sep ws rule: join_char.induct) (simp_all add: split_char_word split_char_append)

lemma split_char_inject: "split_char sep s = split_char sep t \<longleftrightarrow> s = t"
  by (metis join_split_char)

lemma split_char_append_iff:
  "split_char sep (s @ sep # t) = split_char sep s @ split_char sep t"
proof (induction s)
  case (Cons c s)
  then show ?case using split_char_not_empty [of sep s] by (cases "split_char sep s") auto
qed simp

text \<open>\<open>str::rfind\<close> of a character: the index of its last occurrence.\<close>

fun rfind_char :: "char \<Rightarrow> string \<Rightarrow> nat option" where
  "rfind_char c [] = None"
| "rfind_char c (d # s) =
     (case rfind_char c s of
        Some i \<Rightarrow> Some (Suc i)
      | None \<Rightarrow> if d = c then Some 0 else None)"

lemma rfind_char_last: "c \<notin> set b \<Longrightarrow> rfind_char c (a @ c # b) = Some (length a)"
proof (induction a)
  case Nil
  then have "rfind_char c b = None" by (induction b) auto
  then show ?case by simp
qed auto

text \<open>\<open>join\<close> of a list of strings.\<close>

fun join_with :: "string \<Rightarrow> string list \<Rightarrow> string" where
  "join_with sep [] = []"
| "join_with sep [w] = w"
| "join_with sep (w # v # ws) = w @ sep @ join_with sep (v # ws)"

definition quoted :: "string \<Rightarrow> string" where
  "quoted s = CHR 0x22 # s @ [CHR 0x22]"

end
