(* ===== verification/AuditPayload.thy ===== *)
theory AuditPayload
  imports Canonical StdModel "HOL-Library.Multiset"
begin

text \<open>
  The audit payload allowlist, \<open>crates/openbot-domain/src/audit/payload.rs\<close>: the validated field types,
  the closed fact enumeration with its JSON and canonical projections, and the \<open>AuditPayload\<close> map. The
  lemmas show that a payload does not depend on the order its facts arrive in, that it never holds
  two facts of one field, and that its canonical bytes determine it.
\<close>

section \<open>Field types and their constructors\<close>

datatype audit_field_error =
    EmptyField
  | TooLong nat
  | ControlCharacter
  | EmptyList
  | TooManyItems nat
  | InvalidOrigin
  | InvalidGatewayAuthorizationAttemptId
  | InvalidThreadHistoryClearCount
  | InvalidThreadHistoryClearOperationId

datatype audit_identifier = AuditIdentifier (identifier_str: string)
datatype audit_endpoint_origin = AuditEndpointOrigin (origin_str: string)
datatype audit_identifier_list = AuditIdentifierList (identifiers: "audit_identifier list")
datatype audit_label = AuditLabel (label_str: string)

definition identifier_new :: "string \<Rightarrow> (audit_field_error, audit_identifier) result" where
  "identifier_new value =
     (if value = [] then Err EmptyField
      else if length value > 256 then Err (TooLong (length value))
      else if \<exists>c\<in>set (chars value). is_control c then Err ControlCharacter
      else Ok (AuditIdentifier value))"

definition endpoint_origin_new :: "string \<Rightarrow> (audit_field_error, audit_endpoint_origin) result" where
  "endpoint_origin_new value =
     (if value = [] then Err EmptyField
      else if length value > 320 then Err (TooLong (length value))
      else if (\<exists>c\<in>set (chars value). is_whitespace c) \<or> (\<exists>c\<in>set (chars value). is_control c)
        then Err ControlCharacter
      else case (case strip_prefix ''https://'' value of
                   Some a \<Rightarrow> Some a | None \<Rightarrow> strip_prefix ''http://'' value) of
          None \<Rightarrow> Err InvalidOrigin
        | Some authority \<Rightarrow>
            if authority = [] \<or> (\<exists>c\<in>set authority. c \<in> set ''/?#@'') then Err InvalidOrigin
            else Ok (AuditEndpointOrigin value))"

definition identifier_list_new :: "audit_identifier list \<Rightarrow> (audit_field_error, audit_identifier_list) result" where
  "identifier_list_new values =
     (if values = [] then Err EmptyList
      else if length values > 256 then Err (TooManyItems (length values))
      else Ok (AuditIdentifierList values))"

datatype history_clear_source = StopClear | Maintenance

fun history_clear_source_str :: "history_clear_source \<Rightarrow> string" where
  "history_clear_source_str StopClear = ''stop_clear''"
| "history_clear_source_str Maintenance = ''maintenance''"

datatype history_clear_count = HistoryClearCount (clear_count: u64)

definition clear_count_new :: "u64 \<Rightarrow> (audit_field_error, history_clear_count) result" where
  "clear_count_new value =
     (if value > 0x7FFFFFFFFFFFFFFF then Err InvalidThreadHistoryClearCount
      else Ok (HistoryClearCount value))"

text \<open>The canonical lower-case UUIDv7 text both identifiers require.\<close>

definition is_canonical_uuid7 :: "string \<Rightarrow> bool" where
  "is_canonical_uuid7 raw \<longleftrightarrow>
     length raw = 36
     \<and> \<not> (\<exists>(index, byte)\<in>set (enumerate 0 raw).
          if index \<in> {8, 13, 18, 23} then byte \<noteq> CHR ''-''
          else byte \<notin> set ''0123456789abcdef'')
     \<and> raw ! 14 = CHR ''7'' \<and> raw ! 19 \<in> set ''89ab''"

datatype history_clear_operation_id = HistoryClearOperationId (operation_id_str: string)
datatype gateway_attempt_id = GatewayAttemptId (attempt_id_str: string)

definition operation_id_new :: "string \<Rightarrow> (audit_field_error, history_clear_operation_id) result" where
  "operation_id_new value =
     (if \<not> is_canonical_uuid7 value then Err InvalidThreadHistoryClearOperationId
      else Ok (HistoryClearOperationId value))"

definition attempt_id_new :: "string \<Rightarrow> (audit_field_error, gateway_attempt_id) result" where
  "attempt_id_new value =
     (if \<not> is_canonical_uuid7 value then Err InvalidGatewayAuthorizationAttemptId
      else Ok (GatewayAttemptId value))"

datatype gateway_phase = Created | RegistrationAdmitted | Closed | Registered | CodeAdmitted

fun gateway_phase_str :: "gateway_phase \<Rightarrow> string" where
  "gateway_phase_str Created = ''created''"
| "gateway_phase_str RegistrationAdmitted = ''registration_admitted''"
| "gateway_phase_str Closed = ''closed''"
| "gateway_phase_str Registered = ''registered''"
| "gateway_phase_str CodeAdmitted = ''code_admitted''"

datatype gateway_outcome = Refused | DependencyUnknown

fun gateway_outcome_str :: "gateway_outcome \<Rightarrow> string" where
  "gateway_outcome_str Refused = ''refused''"
| "gateway_outcome_str DependencyUnknown = ''dependency_unknown''"

datatype takeover_phase = Requested | Taken | Released

fun takeover_phase_str :: "takeover_phase \<Rightarrow> string" where
  "takeover_phase_str Requested = ''requested''"
| "takeover_phase_str Taken = ''taken''"
| "takeover_phase_str Released = ''released''"

text \<open>
  \<open>RememberPreferenceRevision\<close> of \<open>crates/openbot-contracts/src/approval_preferences.rs\<close>: a positive
  \<open>i64\<close>, so that writing it as a \<open>u64\<close> keeps its 64 bits.
\<close>

datatype remember_preference_revision = RememberPreferenceRevision (revision_get: i64)

definition revision_new :: "i64 \<Rightarrow> remember_preference_revision option" where
  "revision_new value = (if 0 < sint value then Some (RememberPreferenceRevision value) else None)"

definition json_of_i64 :: "i64 \<Rightarrow> json_number" where
  "json_of_i64 v = (if 0 \<le> sint v then PosInt v else NegInt v)"

section \<open>Facts\<close>

datatype (plugins only: size) audit_fact =
    FactGatewayAuthorizationJournalSchema
  | FactGatewayAuthorizationAttemptId gateway_attempt_id
  | FactGatewayAuthorizationPhase gateway_phase
  | FactGatewayAuthorizationOutcome "gateway_outcome option"
  | FactToolName audit_identifier
  | FactComponentFunction audit_identifier
  | FactComponentReads audit_label
  | FactComponentKind audit_label
  | FactComponentRevision u64
  | FactComponentEditingRevision u64
  | FactSkillRevision u64
  | FactUiPreferencesRevision u64
  | FactApprovalPreferenceRevision remember_preference_revision
  | FactBot audit_identifier
  | FactAgentEndpointOrigin audit_endpoint_origin
  | FactEffectClass audit_label
  | FactEffectDowngraded bool
  | FactCanonicalArgsHash digest
  | FactSchemaHash digest
  | FactTargetKind audit_label
  | FactTargetId audit_identifier
  | FactRoutingChosen audit_identifier
  | FactRoutingReason audit_label
  | FactRoutingFallback bool
  | FactRoutingViaMention bool
  | FactRoutingCandidates audit_identifier_list
  | FactDecisionId audit_identifier
  | FactToolAttemptId audit_identifier
  | FactArtifactId audit_identifier
  | FactArtifactOperationId audit_identifier
  | FactMemoryEventSequence u64
  | FactPolicyVersion audit_identifier
  | FactRefusedByRule audit_identifier
  | FactErrorCode audit_label
  | FactCommitState audit_label
  | FactPreviousRole audit_label
  | FactNewRole audit_label
  | FactAccessRevoked bool
  | FactConfigurationChange audit_label
  | FactCredentialOwner audit_identifier
  | FactCredentialKind audit_label
  | FactCredentialProvider audit_identifier
  | FactCredentialKeyReference audit_identifier
  | FactCredentialKeyReferenceHash digest
  | FactCredentialKeyReferenceBytes u64
  | FactPreviousCredential audit_identifier
  | FactRevocationReason audit_label
  | FactVendorRevoked bool
  | FactComputerGeneration u64
  | FactCatalogGeneration u64
  | FactDocumentGeneration u64
  | FactIdempotency audit_label
  | FactApprovalClass audit_label
  | FactApprovalId audit_identifier
  | FactSandboxRequirement audit_label
  | FactParallelSafe bool
  | FactAttemptNumber u32
  | FactDurationMs u64
  | FactInputBytes u64
  | FactOutputBytes u64
  | FactOutputTruncated bool
  | FactHumanTakeover takeover_phase
  | FactSecretInput audit_identifier audit_label audit_identifier u32
  | FactThreadHistoryClearOperationId history_clear_operation_id
  | FactThreadHistoryClearSource history_clear_source
  | FactThreadHistoryClearThreads history_clear_count
  | FactThreadHistoryClearMessages history_clear_count
  | FactThreadHistoryClearRunEvents history_clear_count
  | FactThreadHistoryClearToolApprovals history_clear_count
  | FactThreadHistoryClearComponentDecisions history_clear_count
  | FactThreadHistoryClearRemoteInterrupts history_clear_count
  | FactThreadHistoryClearChannelSources history_clear_count
  | FactThreadHistoryClearChannels history_clear_count
  | FactThreadHistoryClearMemories history_clear_count
  | FactThreadHistoryClearBatches history_clear_count
  | FactThreadHistoryClearRunOutputExpired

primrec fact_field :: "audit_fact \<Rightarrow> string" where
  "fact_field FactGatewayAuthorizationJournalSchema = ''journal_schema''"
| "fact_field (FactGatewayAuthorizationAttemptId _) = ''attempt_id''"
| "fact_field (FactGatewayAuthorizationPhase _) = ''phase''"
| "fact_field (FactGatewayAuthorizationOutcome _) = ''outcome_code''"
| "fact_field (FactToolName _) = ''tool_name''"
| "fact_field (FactComponentFunction _) = ''function''"
| "fact_field (FactComponentReads _) = ''reads''"
| "fact_field (FactComponentKind _) = ''component_kind''"
| "fact_field (FactComponentRevision _) = ''component_revision''"
| "fact_field (FactComponentEditingRevision _) = ''component_editing_revision''"
| "fact_field (FactSkillRevision _) = ''skill_revision''"
| "fact_field (FactUiPreferencesRevision _) = ''ui_preferences_revision''"
| "fact_field (FactApprovalPreferenceRevision _) = ''approval_preference_revision''"
| "fact_field (FactBot _) = ''bot''"
| "fact_field (FactAgentEndpointOrigin _) = ''agent_endpoint_origin''"
| "fact_field (FactEffectClass _) = ''effect_class''"
| "fact_field (FactEffectDowngraded _) = ''effect_downgraded''"
| "fact_field (FactCanonicalArgsHash _) = ''canonical_args_hash''"
| "fact_field (FactSchemaHash _) = ''schema_hash''"
| "fact_field (FactTargetKind _) = ''target_kind''"
| "fact_field (FactTargetId _) = ''target_id''"
| "fact_field (FactRoutingChosen _) = ''chosen''"
| "fact_field (FactRoutingReason _) = ''reason''"
| "fact_field (FactRoutingFallback _) = ''fallback''"
| "fact_field (FactRoutingViaMention _) = ''via_mention''"
| "fact_field (FactRoutingCandidates _) = ''candidates''"
| "fact_field (FactDecisionId _) = ''decision_id''"
| "fact_field (FactToolAttemptId _) = ''tool_attempt_id''"
| "fact_field (FactArtifactId _) = ''artifact_id''"
| "fact_field (FactArtifactOperationId _) = ''artifact_operation_id''"
| "fact_field (FactMemoryEventSequence _) = ''memory_event_sequence''"
| "fact_field (FactPolicyVersion _) = ''policy_version''"
| "fact_field (FactRefusedByRule _) = ''refused_by_rule''"
| "fact_field (FactErrorCode _) = ''error_code''"
| "fact_field (FactCommitState _) = ''commit_state''"
| "fact_field (FactPreviousRole _) = ''previous_role''"
| "fact_field (FactNewRole _) = ''new_role''"
| "fact_field (FactAccessRevoked _) = ''access_revoked''"
| "fact_field (FactConfigurationChange _) = ''change''"
| "fact_field (FactCredentialOwner _) = ''credential_owner''"
| "fact_field (FactCredentialKind _) = ''kind''"
| "fact_field (FactCredentialProvider _) = ''provider''"
| "fact_field (FactCredentialKeyReference _) = ''keyId''"
| "fact_field (FactCredentialKeyReferenceHash _) = ''key_id_hash''"
| "fact_field (FactCredentialKeyReferenceBytes _) = ''key_id_bytes''"
| "fact_field (FactPreviousCredential _) = ''previousCredentialId''"
| "fact_field (FactRevocationReason _) = ''revocation_reason''"
| "fact_field (FactVendorRevoked _) = ''vendor_revoked''"
| "fact_field (FactComputerGeneration _) = ''computer_generation''"
| "fact_field (FactCatalogGeneration _) = ''catalog_generation''"
| "fact_field (FactDocumentGeneration _) = ''document_generation''"
| "fact_field (FactIdempotency _) = ''idempotency''"
| "fact_field (FactApprovalClass _) = ''approval_class''"
| "fact_field (FactApprovalId _) = ''approval_id''"
| "fact_field (FactSandboxRequirement _) = ''sandbox_requirement''"
| "fact_field (FactParallelSafe _) = ''parallel_safe''"
| "fact_field (FactAttemptNumber _) = ''attempt_number''"
| "fact_field (FactDurationMs _) = ''duration_ms''"
| "fact_field (FactInputBytes _) = ''input_bytes''"
| "fact_field (FactOutputBytes _) = ''output_bytes''"
| "fact_field (FactOutputTruncated _) = ''output_truncated''"
| "fact_field (FactHumanTakeover _) = ''human_takeover''"
| "fact_field (FactSecretInput _ _ _ _) = ''secret_input''"
| "fact_field (FactThreadHistoryClearOperationId _) = ''operation_id''"
| "fact_field (FactThreadHistoryClearSource _) = ''source''"
| "fact_field (FactThreadHistoryClearThreads _) = ''threads_cleared''"
| "fact_field (FactThreadHistoryClearMessages _) = ''messages_cleared''"
| "fact_field (FactThreadHistoryClearRunEvents _) = ''run_events_cleared''"
| "fact_field (FactThreadHistoryClearToolApprovals _) = ''tool_approvals_cleared''"
| "fact_field (FactThreadHistoryClearComponentDecisions _) = ''component_decisions_cleared''"
| "fact_field (FactThreadHistoryClearRemoteInterrupts _) = ''remote_interrupts_cleared''"
| "fact_field (FactThreadHistoryClearChannelSources _) = ''channel_sources_cleared''"
| "fact_field (FactThreadHistoryClearChannels _) = ''channels_cleared''"
| "fact_field (FactThreadHistoryClearMemories _) = ''memories_cleared''"
| "fact_field (FactThreadHistoryClearBatches _) = ''batches''"
| "fact_field FactThreadHistoryClearRunOutputExpired = ''run_output_expired''"

primrec fact_to_json :: "audit_fact \<Rightarrow> json" where
  "fact_to_json FactGatewayAuthorizationJournalSchema = JNumber (PosInt 1)"
| "fact_to_json (FactGatewayAuthorizationAttemptId v) = JString (attempt_id_str v)"
| "fact_to_json (FactGatewayAuthorizationPhase v) = JString (gateway_phase_str v)"
| "fact_to_json (FactGatewayAuthorizationOutcome v) = (case v of None \<Rightarrow> JNull | Some outcome \<Rightarrow> JString (gateway_outcome_str outcome))"
| "fact_to_json (FactToolName v) = JString (identifier_str v)"
| "fact_to_json (FactComponentFunction v) = JString (identifier_str v)"
| "fact_to_json (FactComponentReads v) = JString (label_str v)"
| "fact_to_json (FactComponentKind v) = JString (label_str v)"
| "fact_to_json (FactComponentRevision v) = JNumber (PosInt v)"
| "fact_to_json (FactComponentEditingRevision v) = JNumber (PosInt v)"
| "fact_to_json (FactSkillRevision v) = JNumber (PosInt v)"
| "fact_to_json (FactUiPreferencesRevision v) = JNumber (PosInt v)"
| "fact_to_json (FactApprovalPreferenceRevision v) = JNumber (json_of_i64 (revision_get v))"
| "fact_to_json (FactBot v) = JString (identifier_str v)"
| "fact_to_json (FactAgentEndpointOrigin v) = JString (origin_str v)"
| "fact_to_json (FactEffectClass v) = JString (label_str v)"
| "fact_to_json (FactEffectDowngraded v) = JBool v"
| "fact_to_json (FactCanonicalArgsHash v) = JString (to_hex v)"
| "fact_to_json (FactSchemaHash v) = JString (to_hex v)"
| "fact_to_json (FactTargetKind v) = JString (label_str v)"
| "fact_to_json (FactTargetId v) = JString (identifier_str v)"
| "fact_to_json (FactRoutingChosen v) = JString (identifier_str v)"
| "fact_to_json (FactRoutingReason v) = JString (label_str v)"
| "fact_to_json (FactRoutingFallback v) = JBool v"
| "fact_to_json (FactRoutingViaMention v) = JBool v"
| "fact_to_json (FactRoutingCandidates v) = JArray (map (\<lambda>i. JString (identifier_str i)) (identifiers v))"
| "fact_to_json (FactDecisionId v) = JString (identifier_str v)"
| "fact_to_json (FactToolAttemptId v) = JString (identifier_str v)"
| "fact_to_json (FactArtifactId v) = JString (identifier_str v)"
| "fact_to_json (FactArtifactOperationId v) = JString (identifier_str v)"
| "fact_to_json (FactMemoryEventSequence v) = JNumber (PosInt v)"
| "fact_to_json (FactPolicyVersion v) = JString (identifier_str v)"
| "fact_to_json (FactRefusedByRule v) = JString (identifier_str v)"
| "fact_to_json (FactErrorCode v) = JString (label_str v)"
| "fact_to_json (FactCommitState v) = JString (label_str v)"
| "fact_to_json (FactPreviousRole v) = JString (label_str v)"
| "fact_to_json (FactNewRole v) = JString (label_str v)"
| "fact_to_json (FactAccessRevoked v) = JBool v"
| "fact_to_json (FactConfigurationChange v) = JString (label_str v)"
| "fact_to_json (FactCredentialOwner v) = JString (identifier_str v)"
| "fact_to_json (FactCredentialKind v) = JString (label_str v)"
| "fact_to_json (FactCredentialProvider v) = JString (identifier_str v)"
| "fact_to_json (FactCredentialKeyReference v) = JString (identifier_str v)"
| "fact_to_json (FactCredentialKeyReferenceHash v) = JString (to_hex v)"
| "fact_to_json (FactCredentialKeyReferenceBytes v) = JNumber (PosInt v)"
| "fact_to_json (FactPreviousCredential v) = JString (identifier_str v)"
| "fact_to_json (FactRevocationReason v) = JString (label_str v)"
| "fact_to_json (FactVendorRevoked v) = JBool v"
| "fact_to_json (FactComputerGeneration v) = JNumber (PosInt v)"
| "fact_to_json (FactCatalogGeneration v) = JNumber (PosInt v)"
| "fact_to_json (FactDocumentGeneration v) = JNumber (PosInt v)"
| "fact_to_json (FactIdempotency v) = JString (label_str v)"
| "fact_to_json (FactApprovalClass v) = JString (label_str v)"
| "fact_to_json (FactApprovalId v) = JString (identifier_str v)"
| "fact_to_json (FactSandboxRequirement v) = JString (label_str v)"
| "fact_to_json (FactParallelSafe v) = JBool v"
| "fact_to_json (FactAttemptNumber v) = JNumber (PosInt (ucast v))"
| "fact_to_json (FactDurationMs v) = JNumber (PosInt v)"
| "fact_to_json (FactInputBytes v) = JNumber (PosInt v)"
| "fact_to_json (FactOutputBytes v) = JNumber (PosInt v)"
| "fact_to_json (FactOutputTruncated v) = JBool v"
| "fact_to_json (FactHumanTakeover v) = JString (takeover_phase_str v)"
| "fact_to_json (FactSecretInput secret_id purpose target_field value_len) = JObject [(''secret_id'', JString (identifier_str secret_id)), (''purpose'', JString (label_str purpose)),
     (''target_field'', JString (identifier_str target_field)), (''value_len'', JNumber (PosInt (ucast value_len)))]"
| "fact_to_json (FactThreadHistoryClearOperationId v) = JString (operation_id_str v)"
| "fact_to_json (FactThreadHistoryClearSource v) = JString (history_clear_source_str v)"
| "fact_to_json (FactThreadHistoryClearThreads v) = JNumber (PosInt (clear_count v))"
| "fact_to_json (FactThreadHistoryClearMessages v) = JNumber (PosInt (clear_count v))"
| "fact_to_json (FactThreadHistoryClearRunEvents v) = JNumber (PosInt (clear_count v))"
| "fact_to_json (FactThreadHistoryClearToolApprovals v) = JNumber (PosInt (clear_count v))"
| "fact_to_json (FactThreadHistoryClearComponentDecisions v) = JNumber (PosInt (clear_count v))"
| "fact_to_json (FactThreadHistoryClearRemoteInterrupts v) = JNumber (PosInt (clear_count v))"
| "fact_to_json (FactThreadHistoryClearChannelSources v) = JNumber (PosInt (clear_count v))"
| "fact_to_json (FactThreadHistoryClearChannels v) = JNumber (PosInt (clear_count v))"
| "fact_to_json (FactThreadHistoryClearMemories v) = JNumber (PosInt (clear_count v))"
| "fact_to_json (FactThreadHistoryClearBatches v) = JNumber (PosInt (clear_count v))"
| "fact_to_json FactThreadHistoryClearRunOutputExpired = JNumber (PosInt 0)"

primrec fact_write_value :: "audit_fact \<Rightarrow> canonical_writer \<Rightarrow> canonical_writer" where
  "fact_write_value FactGatewayAuthorizationJournalSchema w = writer_u64 1 w"
| "fact_write_value (FactGatewayAuthorizationAttemptId v) w = writer_str (attempt_id_str v) w"
| "fact_write_value (FactGatewayAuthorizationPhase v) w = writer_str (gateway_phase_str v) w"
| "fact_write_value (FactGatewayAuthorizationOutcome v) w = writer_option_str (map_option gateway_outcome_str v) w"
| "fact_write_value (FactToolName v) w = writer_str (identifier_str v) w"
| "fact_write_value (FactComponentFunction v) w = writer_str (identifier_str v) w"
| "fact_write_value (FactComponentReads v) w = writer_str (label_str v) w"
| "fact_write_value (FactComponentKind v) w = writer_str (label_str v) w"
| "fact_write_value (FactComponentRevision v) w = writer_u64 v w"
| "fact_write_value (FactComponentEditingRevision v) w = writer_u64 v w"
| "fact_write_value (FactSkillRevision v) w = writer_u64 v w"
| "fact_write_value (FactUiPreferencesRevision v) w = writer_u64 v w"
| "fact_write_value (FactApprovalPreferenceRevision v) w = writer_u64 (revision_get v) w"
| "fact_write_value (FactBot v) w = writer_str (identifier_str v) w"
| "fact_write_value (FactAgentEndpointOrigin v) w = writer_str (origin_str v) w"
| "fact_write_value (FactEffectClass v) w = writer_str (label_str v) w"
| "fact_write_value (FactEffectDowngraded v) w = writer_bool v w"
| "fact_write_value (FactCanonicalArgsHash v) w = writer_digest v w"
| "fact_write_value (FactSchemaHash v) w = writer_digest v w"
| "fact_write_value (FactTargetKind v) w = writer_str (label_str v) w"
| "fact_write_value (FactTargetId v) w = writer_str (identifier_str v) w"
| "fact_write_value (FactRoutingChosen v) w = writer_str (identifier_str v) w"
| "fact_write_value (FactRoutingReason v) w = writer_str (label_str v) w"
| "fact_write_value (FactRoutingFallback v) w = writer_bool v w"
| "fact_write_value (FactRoutingViaMention v) w = writer_bool v w"
| "fact_write_value (FactRoutingCandidates v) w = fold (\<lambda>i. writer_str (identifier_str i)) (identifiers v) (writer_u64 (of_nat (length (identifiers v))) w)"
| "fact_write_value (FactDecisionId v) w = writer_str (identifier_str v) w"
| "fact_write_value (FactToolAttemptId v) w = writer_str (identifier_str v) w"
| "fact_write_value (FactArtifactId v) w = writer_str (identifier_str v) w"
| "fact_write_value (FactArtifactOperationId v) w = writer_str (identifier_str v) w"
| "fact_write_value (FactMemoryEventSequence v) w = writer_u64 v w"
| "fact_write_value (FactPolicyVersion v) w = writer_str (identifier_str v) w"
| "fact_write_value (FactRefusedByRule v) w = writer_str (identifier_str v) w"
| "fact_write_value (FactErrorCode v) w = writer_str (label_str v) w"
| "fact_write_value (FactCommitState v) w = writer_str (label_str v) w"
| "fact_write_value (FactPreviousRole v) w = writer_str (label_str v) w"
| "fact_write_value (FactNewRole v) w = writer_str (label_str v) w"
| "fact_write_value (FactAccessRevoked v) w = writer_bool v w"
| "fact_write_value (FactConfigurationChange v) w = writer_str (label_str v) w"
| "fact_write_value (FactCredentialOwner v) w = writer_str (identifier_str v) w"
| "fact_write_value (FactCredentialKind v) w = writer_str (label_str v) w"
| "fact_write_value (FactCredentialProvider v) w = writer_str (identifier_str v) w"
| "fact_write_value (FactCredentialKeyReference v) w = writer_str (identifier_str v) w"
| "fact_write_value (FactCredentialKeyReferenceHash v) w = writer_digest v w"
| "fact_write_value (FactCredentialKeyReferenceBytes v) w = writer_u64 v w"
| "fact_write_value (FactPreviousCredential v) w = writer_str (identifier_str v) w"
| "fact_write_value (FactRevocationReason v) w = writer_str (label_str v) w"
| "fact_write_value (FactVendorRevoked v) w = writer_bool v w"
| "fact_write_value (FactComputerGeneration v) w = writer_u64 v w"
| "fact_write_value (FactCatalogGeneration v) w = writer_u64 v w"
| "fact_write_value (FactDocumentGeneration v) w = writer_u64 v w"
| "fact_write_value (FactIdempotency v) w = writer_str (label_str v) w"
| "fact_write_value (FactApprovalClass v) w = writer_str (label_str v) w"
| "fact_write_value (FactApprovalId v) w = writer_str (identifier_str v) w"
| "fact_write_value (FactSandboxRequirement v) w = writer_str (label_str v) w"
| "fact_write_value (FactParallelSafe v) w = writer_bool v w"
| "fact_write_value (FactAttemptNumber v) w = writer_u32 v w"
| "fact_write_value (FactDurationMs v) w = writer_u64 v w"
| "fact_write_value (FactInputBytes v) w = writer_u64 v w"
| "fact_write_value (FactOutputBytes v) w = writer_u64 v w"
| "fact_write_value (FactOutputTruncated v) w = writer_bool v w"
| "fact_write_value (FactHumanTakeover v) w = writer_str (takeover_phase_str v) w"
| "fact_write_value (FactSecretInput secret_id purpose target_field value_len) w = writer_u32 value_len (writer_str (identifier_str target_field) (writer_str (label_str purpose)
     (writer_str (identifier_str secret_id) w)))"
| "fact_write_value (FactThreadHistoryClearOperationId v) w = writer_str (operation_id_str v) w"
| "fact_write_value (FactThreadHistoryClearSource v) w = writer_str (history_clear_source_str v) w"
| "fact_write_value (FactThreadHistoryClearThreads v) w = writer_u64 (clear_count v) w"
| "fact_write_value (FactThreadHistoryClearMessages v) w = writer_u64 (clear_count v) w"
| "fact_write_value (FactThreadHistoryClearRunEvents v) w = writer_u64 (clear_count v) w"
| "fact_write_value (FactThreadHistoryClearToolApprovals v) w = writer_u64 (clear_count v) w"
| "fact_write_value (FactThreadHistoryClearComponentDecisions v) w = writer_u64 (clear_count v) w"
| "fact_write_value (FactThreadHistoryClearRemoteInterrupts v) w = writer_u64 (clear_count v) w"
| "fact_write_value (FactThreadHistoryClearChannelSources v) w = writer_u64 (clear_count v) w"
| "fact_write_value (FactThreadHistoryClearChannels v) w = writer_u64 (clear_count v) w"
| "fact_write_value (FactThreadHistoryClearMemories v) w = writer_u64 (clear_count v) w"
| "fact_write_value (FactThreadHistoryClearBatches v) w = writer_u64 (clear_count v) w"
| "fact_write_value FactThreadHistoryClearRunOutputExpired w = writer_u64 0 w"

definition fact_write :: "audit_fact \<Rightarrow> canonical_writer \<Rightarrow> canonical_writer" where
  "fact_write f w = fact_write_value f (writer_str (fact_field f) w)"

section \<open>The payload map\<close>

datatype audit_payload_error = DuplicateField string

record audit_payload =
  facts :: "(string \<times> audit_fact) list"

definition payload_empty :: audit_payload where
  "payload_empty = \<lparr>facts = []\<rparr>"

fun insert_facts :: "(string \<times> audit_fact) list \<Rightarrow> audit_fact list
    \<Rightarrow> (audit_payload_error, (string \<times> audit_fact) list) result" where
  "insert_facts m [] = Ok m"
| "insert_facts m (f # fs) =
     (let field = fact_field f; (m', old) = bt_insert field f m in
      if old \<noteq> None then Err (DuplicateField field) else insert_facts m' fs)"

definition from_facts :: "audit_fact list \<Rightarrow> (audit_payload_error, audit_payload) result" where
  "from_facts fs = (case insert_facts [] fs of Inl e \<Rightarrow> Err e | Inr m \<Rightarrow> Ok \<lparr>facts = m\<rparr>)"

definition payload_get :: "audit_payload \<Rightarrow> string \<Rightarrow> audit_fact option" where
  "payload_get p field = map_of (facts p) field"

definition payload_len :: "audit_payload \<Rightarrow> nat" where
  "payload_len p = length (facts p)"

definition payload_to_json :: "audit_payload \<Rightarrow> json" where
  "payload_to_json p =
     JObject (fold (\<lambda>f object. fst (bt_insert (fact_field f) (fact_to_json f) object)) (map snd (facts p)) [])"

definition payload_write :: "audit_payload \<Rightarrow> canonical_writer \<Rightarrow> canonical_writer" where
  "payload_write p w =
     fold fact_write (map snd (facts p)) (writer_u64 (of_nat (length (facts p))) w)"

section \<open>The bytes of a fact\<close>

text \<open>What a fact writes after its field name, independent of which fact it is.\<close>

datatype fact_content =
    VText string
  | VU64 u64
  | VU32 u32
  | VBool bool
  | VDigest digest
  | VOptText "string option"
  | VTexts "string list"
  | VSecret string string string u32

primrec fact_value :: "audit_fact \<Rightarrow> fact_content" where
  "fact_value FactGatewayAuthorizationJournalSchema = VU64 1"
| "fact_value (FactGatewayAuthorizationAttemptId v) = VText (attempt_id_str v)"
| "fact_value (FactGatewayAuthorizationPhase v) = VText (gateway_phase_str v)"
| "fact_value (FactGatewayAuthorizationOutcome v) = VOptText (map_option gateway_outcome_str v)"
| "fact_value (FactToolName v) = VText (identifier_str v)"
| "fact_value (FactComponentFunction v) = VText (identifier_str v)"
| "fact_value (FactComponentReads v) = VText (label_str v)"
| "fact_value (FactComponentKind v) = VText (label_str v)"
| "fact_value (FactComponentRevision v) = VU64 v"
| "fact_value (FactComponentEditingRevision v) = VU64 v"
| "fact_value (FactSkillRevision v) = VU64 v"
| "fact_value (FactUiPreferencesRevision v) = VU64 v"
| "fact_value (FactApprovalPreferenceRevision v) = VU64 (revision_get v)"
| "fact_value (FactBot v) = VText (identifier_str v)"
| "fact_value (FactAgentEndpointOrigin v) = VText (origin_str v)"
| "fact_value (FactEffectClass v) = VText (label_str v)"
| "fact_value (FactEffectDowngraded v) = VBool v"
| "fact_value (FactCanonicalArgsHash v) = VDigest v"
| "fact_value (FactSchemaHash v) = VDigest v"
| "fact_value (FactTargetKind v) = VText (label_str v)"
| "fact_value (FactTargetId v) = VText (identifier_str v)"
| "fact_value (FactRoutingChosen v) = VText (identifier_str v)"
| "fact_value (FactRoutingReason v) = VText (label_str v)"
| "fact_value (FactRoutingFallback v) = VBool v"
| "fact_value (FactRoutingViaMention v) = VBool v"
| "fact_value (FactRoutingCandidates v) = VTexts (map identifier_str (identifiers v))"
| "fact_value (FactDecisionId v) = VText (identifier_str v)"
| "fact_value (FactToolAttemptId v) = VText (identifier_str v)"
| "fact_value (FactArtifactId v) = VText (identifier_str v)"
| "fact_value (FactArtifactOperationId v) = VText (identifier_str v)"
| "fact_value (FactMemoryEventSequence v) = VU64 v"
| "fact_value (FactPolicyVersion v) = VText (identifier_str v)"
| "fact_value (FactRefusedByRule v) = VText (identifier_str v)"
| "fact_value (FactErrorCode v) = VText (label_str v)"
| "fact_value (FactCommitState v) = VText (label_str v)"
| "fact_value (FactPreviousRole v) = VText (label_str v)"
| "fact_value (FactNewRole v) = VText (label_str v)"
| "fact_value (FactAccessRevoked v) = VBool v"
| "fact_value (FactConfigurationChange v) = VText (label_str v)"
| "fact_value (FactCredentialOwner v) = VText (identifier_str v)"
| "fact_value (FactCredentialKind v) = VText (label_str v)"
| "fact_value (FactCredentialProvider v) = VText (identifier_str v)"
| "fact_value (FactCredentialKeyReference v) = VText (identifier_str v)"
| "fact_value (FactCredentialKeyReferenceHash v) = VDigest v"
| "fact_value (FactCredentialKeyReferenceBytes v) = VU64 v"
| "fact_value (FactPreviousCredential v) = VText (identifier_str v)"
| "fact_value (FactRevocationReason v) = VText (label_str v)"
| "fact_value (FactVendorRevoked v) = VBool v"
| "fact_value (FactComputerGeneration v) = VU64 v"
| "fact_value (FactCatalogGeneration v) = VU64 v"
| "fact_value (FactDocumentGeneration v) = VU64 v"
| "fact_value (FactIdempotency v) = VText (label_str v)"
| "fact_value (FactApprovalClass v) = VText (label_str v)"
| "fact_value (FactApprovalId v) = VText (identifier_str v)"
| "fact_value (FactSandboxRequirement v) = VText (label_str v)"
| "fact_value (FactParallelSafe v) = VBool v"
| "fact_value (FactAttemptNumber v) = VU32 v"
| "fact_value (FactDurationMs v) = VU64 v"
| "fact_value (FactInputBytes v) = VU64 v"
| "fact_value (FactOutputBytes v) = VU64 v"
| "fact_value (FactOutputTruncated v) = VBool v"
| "fact_value (FactHumanTakeover v) = VText (takeover_phase_str v)"
| "fact_value (FactSecretInput secret_id purpose target_field value_len) = VSecret (identifier_str secret_id) (label_str purpose) (identifier_str target_field) value_len"
| "fact_value (FactThreadHistoryClearOperationId v) = VText (operation_id_str v)"
| "fact_value (FactThreadHistoryClearSource v) = VText (history_clear_source_str v)"
| "fact_value (FactThreadHistoryClearThreads v) = VU64 (clear_count v)"
| "fact_value (FactThreadHistoryClearMessages v) = VU64 (clear_count v)"
| "fact_value (FactThreadHistoryClearRunEvents v) = VU64 (clear_count v)"
| "fact_value (FactThreadHistoryClearToolApprovals v) = VU64 (clear_count v)"
| "fact_value (FactThreadHistoryClearComponentDecisions v) = VU64 (clear_count v)"
| "fact_value (FactThreadHistoryClearRemoteInterrupts v) = VU64 (clear_count v)"
| "fact_value (FactThreadHistoryClearChannelSources v) = VU64 (clear_count v)"
| "fact_value (FactThreadHistoryClearChannels v) = VU64 (clear_count v)"
| "fact_value (FactThreadHistoryClearMemories v) = VU64 (clear_count v)"
| "fact_value (FactThreadHistoryClearBatches v) = VU64 (clear_count v)"
| "fact_value FactThreadHistoryClearRunOutputExpired = VU64 0"

fun enc_value :: "fact_content \<Rightarrow> bytes" where
  "enc_value (VText s) = enc_str s"
| "enc_value (VU64 v) = enc_u64 v"
| "enc_value (VU32 v) = enc_u32 v"
| "enc_value (VBool v) = enc_bool v"
| "enc_value (VDigest v) = enc_digest v"
| "enc_value (VOptText v) = enc_option enc_str v"
| "enc_value (VTexts vs) = enc_u64 (of_nat (length vs)) @ concat (map enc_str vs)"
| "enc_value (VSecret a b c n) = enc_str a @ enc_str b @ enc_str c @ enc_u32 n"

fun value_shape :: "fact_content \<Rightarrow> nat" where
  "value_shape (VText _) = 0"
| "value_shape (VU64 _) = 1"
| "value_shape (VU32 _) = 2"
| "value_shape (VBool _) = 3"
| "value_shape (VDigest _) = 4"
| "value_shape (VOptText _) = 5"
| "value_shape (VTexts _) = 6"
| "value_shape (VSecret _ _ _ _) = 7"

fun value_ok :: "fact_content \<Rightarrow> bool" where
  "value_ok (VText s) = str_ok s"
| "value_ok (VOptText s) = pred_option str_ok s"
| "value_ok (VTexts vs) = (fits_u64 (length vs) \<and> (\<forall>v\<in>set vs. str_ok v))"
| "value_ok (VSecret a b c n) = (str_ok a \<and> str_ok b \<and> str_ok c)"
| "value_ok _ = True"

lemma enc_value_prefix_free:
  "value_shape v = value_shape v' \<Longrightarrow> value_ok v \<Longrightarrow> value_ok v' \<Longrightarrow>
   enc_value v @ r = enc_value v' @ s \<Longrightarrow> v = v' \<and> r = s"
proof (cases v)
  case (VTexts vs)
  assume "value_shape v = value_shape v'" and ok: "value_ok v" "value_ok v'"
    and eq: "enc_value v @ r = enc_value v' @ s"
  with VTexts obtain vs' where v': "v' = VTexts vs'"
    by (cases v') auto
  with VTexts eq have "(of_nat (length vs) :: u64) = of_nat (length vs')"
    and rest: "concat (map enc_str vs) @ r = concat (map enc_str vs') @ s"
    by (simp_all add: codec_cancel)
  then have "length vs = length vs'"
    using VTexts v' ok by (simp add: length_word_inject)
  with rest VTexts v' ok show ?thesis
    by (simp add: str_code.concat_append_eq_iff)
qed (cases v'; simp add: codec_cancel)+

lemma fold_writer_str:
  "buffer (fold (\<lambda>i. writer_str (g i)) is w) = buffer w @ concat (map (enc_str \<circ> g) is)"
  by (induction "is" arbitrary: w) (simp_all add: codec_simps)

lemma fact_write_value_appends:
  "buffer (fact_write_value f w) = buffer w @ enc_value (fact_value f)"
  by (cases f) (simp_all add: codec_simps fold_writer_str comp_def option.map_comp split: option.splits)

definition enc_fact :: "audit_fact \<Rightarrow> bytes" where
  "enc_fact f = enc_str (fact_field f) @ enc_value (fact_value f)"

lemma fact_write_appends: "buffer (fact_write f w) = buffer w @ enc_fact f"
  by (simp add: fact_write_def enc_fact_def fact_write_value_appends codec_simps)


text \<open>
  The field name fixes the fact's constructor, hence the shape of its content: a reader that gets a fact
  back from its field name and content.
\<close>

primrec text_of :: "fact_content \<Rightarrow> string" where
  "text_of (VText s) = s" | "text_of (VU64 _) = []" | "text_of (VU32 _) = []" | "text_of (VBool _) = []"
| "text_of (VDigest _) = []" | "text_of (VOptText _) = []" | "text_of (VTexts _) = []"
| "text_of (VSecret _ _ _ _) = []"

definition u64_of :: "fact_content \<Rightarrow> u64" where
  "u64_of v = (case v of VU64 n \<Rightarrow> n | _ \<Rightarrow> 0)"
definition u32_of :: "fact_content \<Rightarrow> u32" where
  "u32_of v = (case v of VU32 n \<Rightarrow> n | _ \<Rightarrow> 0)"
definition bool_of :: "fact_content \<Rightarrow> bool" where
  "bool_of v = (case v of VBool b \<Rightarrow> b | _ \<Rightarrow> False)"
definition digest_of :: "fact_content \<Rightarrow> digest" where
  "digest_of v = (case v of VDigest d \<Rightarrow> d | _ \<Rightarrow> 0)"
definition opt_text_of :: "fact_content \<Rightarrow> string option" where
  "opt_text_of v = (case v of VOptText s \<Rightarrow> s | _ \<Rightarrow> None)"
definition texts_of :: "fact_content \<Rightarrow> string list" where
  "texts_of v = (case v of VTexts s \<Rightarrow> s | _ \<Rightarrow> [])"
definition takeover_of :: "string \<Rightarrow> takeover_phase" where
  "takeover_of s = (if s = ''requested'' then Requested else if s = ''taken'' then Taken else Released)"
definition clear_source_of :: "string \<Rightarrow> history_clear_source" where
  "clear_source_of s = (if s = ''stop_clear'' then StopClear else Maintenance)"
definition phase_of :: "string \<Rightarrow> gateway_phase" where
  "phase_of s = (if s = ''created'' then Created else if s = ''registration_admitted'' then RegistrationAdmitted
     else if s = ''closed'' then Closed else if s = ''registered'' then Registered else CodeAdmitted)"
definition outcome_of :: "string \<Rightarrow> gateway_outcome" where
  "outcome_of s = (if s = ''refused'' then Refused else DependencyUnknown)"

lemma takeover_of_str: "takeover_of (takeover_phase_str p) = p"
  by (cases p) (simp_all add: takeover_of_def)
lemma clear_source_of_str: "clear_source_of (history_clear_source_str p) = p"
  by (cases p) (simp_all add: clear_source_of_def)
lemma phase_of_str: "phase_of (gateway_phase_str p) = p"
  by (cases p) (simp_all add: phase_of_def)
lemma outcome_of_str: "outcome_of (gateway_outcome_str p) = p"
  by (cases p) (simp_all add: outcome_of_def)

lemmas content_reads =
  u64_of_def u32_of_def bool_of_def digest_of_def opt_text_of_def texts_of_def
  takeover_of_str clear_source_of_str phase_of_str outcome_of_str

definition fact_reader :: "string \<Rightarrow> nat \<times> (fact_content \<Rightarrow> audit_fact)" where
  "fact_reader s =
     (if s = ''journal_schema'' then (1, \<lambda>v. FactGatewayAuthorizationJournalSchema)
      else if s = ''attempt_id'' then (0, \<lambda>v. FactGatewayAuthorizationAttemptId (GatewayAttemptId (text_of v)))
      else if s = ''phase'' then (0, \<lambda>v. FactGatewayAuthorizationPhase (phase_of (text_of v)))
      else if s = ''outcome_code'' then (5, \<lambda>v. FactGatewayAuthorizationOutcome (map_option outcome_of (opt_text_of v)))
      else if s = ''tool_name'' then (0, \<lambda>v. FactToolName (AuditIdentifier (text_of v)))
      else if s = ''function'' then (0, \<lambda>v. FactComponentFunction (AuditIdentifier (text_of v)))
      else if s = ''reads'' then (0, \<lambda>v. FactComponentReads (AuditLabel (text_of v)))
      else if s = ''component_kind'' then (0, \<lambda>v. FactComponentKind (AuditLabel (text_of v)))
      else if s = ''component_revision'' then (1, \<lambda>v. FactComponentRevision (u64_of v))
      else if s = ''component_editing_revision'' then (1, \<lambda>v. FactComponentEditingRevision (u64_of v))
      else if s = ''skill_revision'' then (1, \<lambda>v. FactSkillRevision (u64_of v))
      else if s = ''ui_preferences_revision'' then (1, \<lambda>v. FactUiPreferencesRevision (u64_of v))
      else if s = ''approval_preference_revision'' then (1, \<lambda>v. FactApprovalPreferenceRevision (RememberPreferenceRevision (u64_of v)))
      else if s = ''bot'' then (0, \<lambda>v. FactBot (AuditIdentifier (text_of v)))
      else if s = ''agent_endpoint_origin'' then (0, \<lambda>v. FactAgentEndpointOrigin (AuditEndpointOrigin (text_of v)))
      else if s = ''effect_class'' then (0, \<lambda>v. FactEffectClass (AuditLabel (text_of v)))
      else if s = ''effect_downgraded'' then (3, \<lambda>v. FactEffectDowngraded (bool_of v))
      else if s = ''canonical_args_hash'' then (4, \<lambda>v. FactCanonicalArgsHash (digest_of v))
      else if s = ''schema_hash'' then (4, \<lambda>v. FactSchemaHash (digest_of v))
      else if s = ''target_kind'' then (0, \<lambda>v. FactTargetKind (AuditLabel (text_of v)))
      else if s = ''target_id'' then (0, \<lambda>v. FactTargetId (AuditIdentifier (text_of v)))
      else if s = ''chosen'' then (0, \<lambda>v. FactRoutingChosen (AuditIdentifier (text_of v)))
      else if s = ''reason'' then (0, \<lambda>v. FactRoutingReason (AuditLabel (text_of v)))
      else if s = ''fallback'' then (3, \<lambda>v. FactRoutingFallback (bool_of v))
      else if s = ''via_mention'' then (3, \<lambda>v. FactRoutingViaMention (bool_of v))
      else if s = ''candidates'' then (6, \<lambda>v. FactRoutingCandidates (AuditIdentifierList (map AuditIdentifier (texts_of v))))
      else if s = ''decision_id'' then (0, \<lambda>v. FactDecisionId (AuditIdentifier (text_of v)))
      else if s = ''tool_attempt_id'' then (0, \<lambda>v. FactToolAttemptId (AuditIdentifier (text_of v)))
      else if s = ''artifact_id'' then (0, \<lambda>v. FactArtifactId (AuditIdentifier (text_of v)))
      else if s = ''artifact_operation_id'' then (0, \<lambda>v. FactArtifactOperationId (AuditIdentifier (text_of v)))
      else if s = ''memory_event_sequence'' then (1, \<lambda>v. FactMemoryEventSequence (u64_of v))
      else if s = ''policy_version'' then (0, \<lambda>v. FactPolicyVersion (AuditIdentifier (text_of v)))
      else if s = ''refused_by_rule'' then (0, \<lambda>v. FactRefusedByRule (AuditIdentifier (text_of v)))
      else if s = ''error_code'' then (0, \<lambda>v. FactErrorCode (AuditLabel (text_of v)))
      else if s = ''commit_state'' then (0, \<lambda>v. FactCommitState (AuditLabel (text_of v)))
      else if s = ''previous_role'' then (0, \<lambda>v. FactPreviousRole (AuditLabel (text_of v)))
      else if s = ''new_role'' then (0, \<lambda>v. FactNewRole (AuditLabel (text_of v)))
      else if s = ''access_revoked'' then (3, \<lambda>v. FactAccessRevoked (bool_of v))
      else if s = ''change'' then (0, \<lambda>v. FactConfigurationChange (AuditLabel (text_of v)))
      else if s = ''credential_owner'' then (0, \<lambda>v. FactCredentialOwner (AuditIdentifier (text_of v)))
      else if s = ''kind'' then (0, \<lambda>v. FactCredentialKind (AuditLabel (text_of v)))
      else if s = ''provider'' then (0, \<lambda>v. FactCredentialProvider (AuditIdentifier (text_of v)))
      else if s = ''keyId'' then (0, \<lambda>v. FactCredentialKeyReference (AuditIdentifier (text_of v)))
      else if s = ''key_id_hash'' then (4, \<lambda>v. FactCredentialKeyReferenceHash (digest_of v))
      else if s = ''key_id_bytes'' then (1, \<lambda>v. FactCredentialKeyReferenceBytes (u64_of v))
      else if s = ''previousCredentialId'' then (0, \<lambda>v. FactPreviousCredential (AuditIdentifier (text_of v)))
      else if s = ''revocation_reason'' then (0, \<lambda>v. FactRevocationReason (AuditLabel (text_of v)))
      else if s = ''vendor_revoked'' then (3, \<lambda>v. FactVendorRevoked (bool_of v))
      else if s = ''computer_generation'' then (1, \<lambda>v. FactComputerGeneration (u64_of v))
      else if s = ''catalog_generation'' then (1, \<lambda>v. FactCatalogGeneration (u64_of v))
      else if s = ''document_generation'' then (1, \<lambda>v. FactDocumentGeneration (u64_of v))
      else if s = ''idempotency'' then (0, \<lambda>v. FactIdempotency (AuditLabel (text_of v)))
      else if s = ''approval_class'' then (0, \<lambda>v. FactApprovalClass (AuditLabel (text_of v)))
      else if s = ''approval_id'' then (0, \<lambda>v. FactApprovalId (AuditIdentifier (text_of v)))
      else if s = ''sandbox_requirement'' then (0, \<lambda>v. FactSandboxRequirement (AuditLabel (text_of v)))
      else if s = ''parallel_safe'' then (3, \<lambda>v. FactParallelSafe (bool_of v))
      else if s = ''attempt_number'' then (2, \<lambda>v. FactAttemptNumber (u32_of v))
      else if s = ''duration_ms'' then (1, \<lambda>v. FactDurationMs (u64_of v))
      else if s = ''input_bytes'' then (1, \<lambda>v. FactInputBytes (u64_of v))
      else if s = ''output_bytes'' then (1, \<lambda>v. FactOutputBytes (u64_of v))
      else if s = ''output_truncated'' then (3, \<lambda>v. FactOutputTruncated (bool_of v))
      else if s = ''human_takeover'' then (0, \<lambda>v. FactHumanTakeover (takeover_of (text_of v)))
      else if s = ''secret_input'' then (7, \<lambda>v. case v of VSecret a b c n \<Rightarrow> FactSecretInput (AuditIdentifier a) (AuditLabel b) (AuditIdentifier c) n
      | _ \<Rightarrow> FactGatewayAuthorizationJournalSchema)
      else if s = ''operation_id'' then (0, \<lambda>v. FactThreadHistoryClearOperationId (HistoryClearOperationId (text_of v)))
      else if s = ''source'' then (0, \<lambda>v. FactThreadHistoryClearSource (clear_source_of (text_of v)))
      else if s = ''threads_cleared'' then (1, \<lambda>v. FactThreadHistoryClearThreads (HistoryClearCount (u64_of v)))
      else if s = ''messages_cleared'' then (1, \<lambda>v. FactThreadHistoryClearMessages (HistoryClearCount (u64_of v)))
      else if s = ''run_events_cleared'' then (1, \<lambda>v. FactThreadHistoryClearRunEvents (HistoryClearCount (u64_of v)))
      else if s = ''tool_approvals_cleared'' then (1, \<lambda>v. FactThreadHistoryClearToolApprovals (HistoryClearCount (u64_of v)))
      else if s = ''component_decisions_cleared'' then (1, \<lambda>v. FactThreadHistoryClearComponentDecisions (HistoryClearCount (u64_of v)))
      else if s = ''remote_interrupts_cleared'' then (1, \<lambda>v. FactThreadHistoryClearRemoteInterrupts (HistoryClearCount (u64_of v)))
      else if s = ''channel_sources_cleared'' then (1, \<lambda>v. FactThreadHistoryClearChannelSources (HistoryClearCount (u64_of v)))
      else if s = ''channels_cleared'' then (1, \<lambda>v. FactThreadHistoryClearChannels (HistoryClearCount (u64_of v)))
      else if s = ''memories_cleared'' then (1, \<lambda>v. FactThreadHistoryClearMemories (HistoryClearCount (u64_of v)))
      else if s = ''batches'' then (1, \<lambda>v. FactThreadHistoryClearBatches (HistoryClearCount (u64_of v)))
      else if s = ''run_output_expired'' then (1, \<lambda>v. FactThreadHistoryClearRunOutputExpired)
      else (8, \<lambda>v. FactThreadHistoryClearRunOutputExpired))"

lemma fact_reader_reads:
  "fst (fact_reader (fact_field f)) = value_shape (fact_value f)
     \<and> snd (fact_reader (fact_field f)) (fact_value f) = f"
  by (cases f; simp add: fact_reader_def content_reads comp_def option.map_comp option.map_ident)

lemma fact_eq_by_field:
  assumes "fact_field f = fact_field g"
  shows "value_shape (fact_value f) = value_shape (fact_value g)"
    and "fact_value f = fact_value g \<Longrightarrow> f = g"
  using fact_reader_reads [of f] fact_reader_reads [of g] assms by metis+


definition fact_ok :: "audit_fact \<Rightarrow> bool" where
  "fact_ok f \<longleftrightarrow> str_ok (fact_field f) \<and> value_ok (fact_value f)"

interpretation fact_code: prefix_code enc_fact fact_ok
proof
  fix f g r s
  assume "fact_ok f" "fact_ok g" and eq: "enc_fact f @ r = enc_fact g @ s"
  then have field: "fact_field f = fact_field g"
    and rest: "enc_value (fact_value f) @ r = enc_value (fact_value g) @ s"
    by (simp_all add: enc_fact_def fact_ok_def codec_cancel)
  from enc_value_prefix_free [OF fact_eq_by_field(1) [OF field] _ _ rest]
  show "f = g \<and> r = s"
    using \<open>fact_ok f\<close> \<open>fact_ok g\<close> fact_eq_by_field(2) [OF field] by (simp add: fact_ok_def)
qed

section \<open>Payloads\<close>

definition payload_ok :: "audit_payload \<Rightarrow> bool" where
  "payload_ok p \<longleftrightarrow> bt_ok (facts p) \<and> fits_u64 (length (facts p))
     \<and> (\<forall>(k, f)\<in>set (facts p). k = fact_field f \<and> fact_ok f)"

definition enc_payload :: "audit_payload \<Rightarrow> bytes" where
  "enc_payload p = enc_u64 (of_nat (length (facts p))) @ concat (map enc_fact (map snd (facts p)))"

lemma payload_write_appends: "buffer (payload_write p w) = buffer w @ enc_payload p"
proof -
  have "buffer (fold fact_write fs w) = buffer w @ concat (map enc_fact fs)" for fs w
    by (induction fs arbitrary: w) (simp_all add: fact_write_appends)
  then show ?thesis
    by (simp add: payload_write_def enc_payload_def codec_simps)
qed

lemma payload_ok_facts:
  assumes "payload_ok p"
  shows "\<forall>f\<in>set (map snd (facts p)). fact_ok f"
    and "facts p = map (\<lambda>f. (fact_field f, f)) (map snd (facts p))"
  using assms by (auto simp: payload_ok_def comp_def intro!: map_idI [symmetric])

interpretation payload_code: prefix_code enc_payload payload_ok
proof
  fix p q :: audit_payload and r s
  assume ok: "payload_ok p" "payload_ok q" and eq: "enc_payload p @ r = enc_payload q @ s"
  then have "(of_nat (length (facts p)) :: u64) = of_nat (length (facts q))"
    and rest: "concat (map enc_fact (map snd (facts p))) @ r
      = concat (map enc_fact (map snd (facts q))) @ s"
    by (simp_all add: enc_payload_def codec_cancel)
  with ok have "length (facts p) = length (facts q)"
    by (simp add: payload_ok_def length_word_inject)
  then have "map snd (facts p) = map snd (facts q) \<and> r = s"
    using rest payload_ok_facts(1) [OF ok(1)] payload_ok_facts(1) [OF ok(2)]
    by (intro fact_code.concat_append_eq_iff [THEN iffD1]) simp_all
  moreover from this have "facts p = facts q"
    using payload_ok_facts(2) [OF ok(1)] payload_ok_facts(2) [OF ok(2)] by metis
  ultimately show "p = q \<and> r = s" by simp
qed

lemmas payload_cancel = fact_code.append_eq_iff payload_code.append_eq_iff

text \<open>What a run of insertions leaves behind.\<close>

lemma insert_facts_result:
  assumes "bt_ok m"
  shows "insert_facts m fs = Ok n \<Longrightarrow>
      bt_ok n \<and> map_of n = map_of m ++ map_of (map (\<lambda>f. (fact_field f, f)) fs)
      \<and> distinct (map fact_field fs) \<and> fst ` set m \<inter> fact_field ` set fs = {}"
  using assms
proof (induction fs arbitrary: m)
  case (Cons f fs)
  let ?m' = "fst (bt_insert (fact_field f) f m)"
  from Cons.prems have none: "map_of m (fact_field f) = None"
    and rec: "insert_facts ?m' fs = Ok n"
    using bt_insert_old [of m "fact_field f" f]
    by (auto simp: Let_def split: prod.splits if_splits)
  from Cons.prems(2) have ok': "bt_ok ?m'" by (rule bt_insert_ok)
  note IH = Cons.IH [OF rec ok']
  have fresh: "fact_field f \<notin> fact_field ` set fs"
    using IH bt_insert_keys [of "fact_field f" f m] by auto
  then have none': "map_of (map (\<lambda>f. (fact_field f, f)) fs) (fact_field f) = None"
    by (auto simp: map_of_eq_None_iff)
  have n: "map_of n = (map_of m)(fact_field f \<mapsto> f) ++ map_of (map (\<lambda>f. (fact_field f, f)) fs)"
    using IH unfolding bt_insert_lookup [OF Cons.prems(2), of "fact_field f" f, symmetric] by blast
  have "map_of n k = (map_of m ++ map_of (map (\<lambda>f. (fact_field f, f)) (f # fs))) k" for k
    using none' unfolding n by (cases "k = fact_field f") (simp_all add: map_add_def split: option.splits)
  then have "map_of n = map_of m ++ map_of (map (\<lambda>f. (fact_field f, f)) (f # fs))"
    by (rule ext)
  moreover have "fst ` set m \<inter> fact_field ` set (f # fs) = {}"
    using IH none bt_insert_keys [of "fact_field f" f m] by (auto simp: map_of_eq_None_iff)
  moreover have "distinct (map fact_field (f # fs))" and "bt_ok n"
    using IH fresh by auto
  ultimately show ?case by blast
qed (auto simp: map_add_def)

lemma insert_facts_accepts:
  assumes "bt_ok m" "distinct (map fact_field fs)" "fst ` set m \<inter> fact_field ` set fs = {}"
  shows "\<exists>n. insert_facts m fs = Ok n"
  using assms
proof (induction fs arbitrary: m)
  case (Cons f fs)
  let ?m' = "fst (bt_insert (fact_field f) f m)"
  have "map_of m (fact_field f) = None"
    using Cons.prems(3) by (auto simp: map_of_eq_None_iff)
  then have old: "snd (bt_insert (fact_field f) f m) = None"
    using bt_insert_old [OF Cons.prems(1)] by simp
  have "fst ` set ?m' \<inter> fact_field ` set fs = {}"
    using Cons.prems(2,3) bt_insert_keys [of "fact_field f" f m] by auto
  then obtain n where "insert_facts ?m' fs = Ok n"
    using Cons.IH [OF bt_insert_ok [OF Cons.prems(1)], of "fact_field f" f] Cons.prems(2) by auto
  with old show ?case by (auto simp: Let_def split: prod.splits)
qed simp

lemma from_facts_spec:
  "from_facts fs = Ok p \<longleftrightarrow> distinct (map fact_field fs) \<and> bt_ok (facts p)
     \<and> map_of (facts p) = map_of (map (\<lambda>f. (fact_field f, f)) fs)"
proof
  assume "from_facts fs = Ok p"
  then have "insert_facts [] fs = Ok (facts p)"
    by (auto simp: from_facts_def split: sum.splits)
  then show "distinct (map fact_field fs) \<and> bt_ok (facts p)
     \<and> map_of (facts p) = map_of (map (\<lambda>f. (fact_field f, f)) fs)"
    using insert_facts_result [of "[]" fs "facts p"] by (simp add: bt_ok_def)
next
  assume R: "distinct (map fact_field fs) \<and> bt_ok (facts p)
     \<and> map_of (facts p) = map_of (map (\<lambda>f. (fact_field f, f)) fs)"
  then obtain n where n: "insert_facts [] fs = Ok n"
    using insert_facts_accepts [of "[]" fs] by (auto simp: bt_ok_def)
  then have "bt_ok n" "map_of n = map_of (map (\<lambda>f. (fact_field f, f)) fs)"
    using insert_facts_result [of "[]" fs n] by (simp_all add: bt_ok_def)
  then have "n = facts p" using R by (intro bt_ok_ext) simp_all
  then show "from_facts fs = Ok p" using n by (simp add: from_facts_def)
qed

text \<open>The order in which facts reach a payload never matters: any rearrangement of the facts is
  refused exactly when the original is, and an accepted payload is the same map, hence the same
  canonical bytes. Facts are refused exactly when two of them name the same field.\<close>

theorem from_facts_order_independent:
  assumes "mset fs = mset gs"
  shows "is_ok (from_facts fs) = is_ok (from_facts gs)
    \<and> (\<forall>p. from_facts fs = Ok p \<longleftrightarrow> from_facts gs = Ok p)
    \<and> (is_ok (from_facts fs) \<longleftrightarrow> distinct (map fact_field fs))"
proof -
  have dist: "distinct (map fact_field fs) = distinct (map fact_field gs)"
    using assms by (metis mset_eq_imp_distinct_iff mset_map)
  have same: "map_of (map (\<lambda>f. (fact_field f, f)) fs) = map_of (map (\<lambda>f. (fact_field f, f)) gs)"
    if "distinct (map fact_field fs)"
  proof (rule map_of_inject_set [THEN iffD2])
    show "set (map (\<lambda>f. (fact_field f, f)) fs) = set (map (\<lambda>f. (fact_field f, f)) gs)"
      using mset_eq_setD [OF assms] by simp
  qed (use that dist in \<open>simp_all add: comp_def\<close>)
  have ok: "is_ok (from_facts hs) \<longleftrightarrow> distinct (map fact_field hs)" for hs
  proof
    assume "distinct (map fact_field hs)"
    then obtain n where "insert_facts [] hs = Ok n"
      using insert_facts_accepts [of "[]" hs] by (auto simp: bt_ok_def)
    then show "is_ok (from_facts hs)" by (simp add: from_facts_def)
  qed (auto simp: is_ok_iff from_facts_spec)
  show ?thesis
    using dist same ok [of fs] ok [of gs]
    by (cases "distinct (map fact_field fs)") (simp_all add: from_facts_spec)
qed

theorem from_facts_order_independent_witness:
  "from_facts [FactParallelSafe True, FactDurationMs 7] = from_facts [FactDurationMs 7, FactParallelSafe True]"
  using from_facts_order_independent
    [of "[FactParallelSafe True, FactDurationMs 7]" "[FactDurationMs 7, FactParallelSafe True]"]
  by (auto simp: is_ok_iff)

end
