(* ===== verification/AuditEvent.thy ===== *)
theory AuditEvent
  imports AuditPayload
begin

text \<open>
  Audit events, \<open>crates/openbot-domain/src/audit/event.rs\<close>: the closed catalogue of event types and
  the seven-column event with its canonical encoding. The lemmas show that the catalogue is parsed
  exactly and that an event is determined by its bytes.
\<close>

datatype audit_event_type = AuditEventType (event_type_str: string)

definition audit_event_types :: "audit_event_type list" where
  "audit_event_types =
    [AuditEventType ''configuration.changed'',
     AuditEventType ''credential.created'',
     AuditEventType ''credential.rotated'',
     AuditEventType ''credential.revoked'',
     AuditEventType ''connector.sync_succeeded'',
     AuditEventType ''connector.sync_failed'',
     AuditEventType ''knowledge.searched'',
     AuditEventType ''channel.routed'',
     AuditEventType ''agent.invoked'',
     AuditEventType ''agent.stream_stalled'',
     AuditEventType ''agent.run_deadline_exceeded'',
     AuditEventType ''agent.run_cost_budget_refused'',
     AuditEventType ''agent.remote_interrupt_requested'',
     AuditEventType ''agent.remote_interrupt_resolved'',
     AuditEventType ''agent.remote_interrupt_cancelled'',
     AuditEventType ''agent.remote_interrupt_expired'',
     AuditEventType ''memory.remember_refused'',
     AuditEventType ''memory.remember_succeeded'',
     AuditEventType ''memory.effect_committed'',
     AuditEventType ''artifact.saved'',
     AuditEventType ''artifact.cleanup_armed'',
     AuditEventType ''artifact.cleanup_completed'',
     AuditEventType ''memory.remember_failed'',
     AuditEventType ''tool.approval_requested'',
     AuditEventType ''tool.approval_granted'',
     AuditEventType ''tool.approval_denied'',
     AuditEventType ''tool.approval_expired'',
     AuditEventType ''tool.approval_cancelled'',
     AuditEventType ''mcp.call_succeeded'',
     AuditEventType ''mcp.call_rejected'',
     AuditEventType ''mcp.call_failed'',
     AuditEventType ''mcp.callback_refused'',
     AuditEventType ''mcp.oauth_client_registered'',
     AuditEventType ''mcp.account_connected'',
     AuditEventType ''mcp.token_refreshed'',
     AuditEventType ''mcp.account_disconnected'',
     AuditEventType ''mcp.tool_suspended_missing'',
     AuditEventType ''computer.action_allowed'',
     AuditEventType ''computer.action_refused'',
     AuditEventType ''computer.action_failed'',
     AuditEventType ''computer.help_requested'',
     AuditEventType ''computer.control_taken'',
     AuditEventType ''computer.control_released'',
     AuditEventType ''computer.secret_requested'',
     AuditEventType ''computer.secret_supplied'',
     AuditEventType ''computer.stopped'',
     AuditEventType ''computer.reset'',
     AuditEventType ''computer.policy_loaded'',
     AuditEventType ''computer.isolation_loaded'',
     AuditEventType ''bot.declined'',
     AuditEventType ''component.granted'',
     AuditEventType ''component.revoked'',
     AuditEventType ''component.published'',
     AuditEventType ''component.unpublished'',
     AuditEventType ''component.draft_saved'',
     AuditEventType ''component.refused'',
     AuditEventType ''component.function_granted'',
     AuditEventType ''component.function_revoked'',
     AuditEventType ''component.function_called'',
     AuditEventType ''component.function_refused'',
     AuditEventType ''component.function_failed'',
     AuditEventType ''component.human_requested'',
     AuditEventType ''component.human_answered'',
     AuditEventType ''component.human_expired'',
     AuditEventType ''component.human_cancelled'',
     AuditEventType ''person.role_changed'',
     AuditEventType ''person.access_revoked'',
     AuditEventType ''person.access_restored'',
     AuditEventType ''session.signed_in'',
     AuditEventType ''session.refused'',
     AuditEventType ''person.admin_by_configuration'',
     AuditEventType ''identity_provider.registered'',
     AuditEventType ''identity_provider.removed'',
     AuditEventType ''bot.created'',
     AuditEventType ''bot.updated'',
     AuditEventType ''bot.duplicated'',
     AuditEventType ''bot.hidden'',
     AuditEventType ''bot.unhidden'',
     AuditEventType ''bot.deleted'',
     AuditEventType ''bot.callback_token_issued'',
     AuditEventType ''bot.callback_token_revoked'',
     AuditEventType ''gateway_authorization_attempt_created'',
     AuditEventType ''gateway_authorization_registration_admitted'',
     AuditEventType ''gateway_authorization_attempt_closed'',
     AuditEventType ''gateway_authorization_registered'',
     AuditEventType ''gateway_authorization_code_admitted'',
     AuditEventType ''thread_history.clear_completed'']"

definition event_type_parse :: "string \<Rightarrow> audit_event_type option" where
  "event_type_parse value = find (\<lambda>candidate. event_type_str candidate = value) audit_event_types"

record audit_event =
  event_id :: string
  actor :: "string option"
  event_type :: audit_event_type
  target_kind :: audit_label
  target_id :: "audit_identifier option"
  payload :: audit_payload
  created_at :: instant

definition event_write :: "audit_event \<Rightarrow> canonical_writer \<Rightarrow> canonical_writer" where
  "event_write e w =
     (let w = writer_str (event_id e) w;
          w = writer_option_str (actor e) w;
          w = writer_str (event_type_str (event_type e)) w;
          w = writer_str (label_str (target_kind e)) w;
          w = writer_option_str (map_option identifier_str (target_id e)) w;
          w = payload_write (payload e) w
      in writer_i128 (word_of_int (created_at e)) w)"

text \<open>Parsing an event type accepts exactly the literals of the catalogue, and what it returns
  renders back to the text it was given, so no misspelt type is ever recorded.\<close>

theorem event_type_parse_exact:
  "event_type_parse value = Some t \<longleftrightarrow> t \<in> set audit_event_types \<and> event_type_str t = value"
proof -
  have "find (\<lambda>c. event_type_str c = value) ts = Some t \<longleftrightarrow> t \<in> set ts \<and> event_type_str t = value" for ts
    by (induction ts) (auto simp: audit_event_type.expand)
  then show ?thesis by (simp add: event_type_parse_def)
qed

section \<open>The bytes of an event\<close>

definition enc_event :: "audit_event \<Rightarrow> bytes" where
  "enc_event e =
     enc_str (event_id e) @ enc_option enc_str (actor e) @ enc_str (event_type_str (event_type e))
     @ enc_str (label_str (target_kind e)) @ enc_option enc_str (map_option identifier_str (target_id e))
     @ enc_payload (payload e) @ enc_i128 (word_of_int (created_at e))"

lemma event_write_appends: "buffer (event_write e w) = buffer w @ enc_event e"
  by (simp add: event_write_def enc_event_def codec_simps payload_write_appends Let_def)

text \<open>
  What every event of the program satisfies: lengths below \<open>2\<^sup>6\<^sup>4\<close>, a payload built by
  \<open>from_facts\<close>, and a timestamp inside \<open>i128\<close> (the whole range of \<open>OffsetDateTime\<close> is).
\<close>

definition i128_ok :: "int \<Rightarrow> bool" where
  "i128_ok t \<longleftrightarrow> - (2 ^ 127) \<le> t \<and> t < 2 ^ 127"

lemma word_of_int_i128_inject:
  assumes "i128_ok s" "i128_ok t"
  shows "(word_of_int s :: i128) = word_of_int t \<longleftrightarrow> s = t"
proof
  assume "(word_of_int s :: i128) = word_of_int t"
  then have "sint (word_of_int s :: i128) = sint (word_of_int t :: i128)" by simp
  with assms show "s = t"
    by (simp add: signed_of_int signed_take_bit_int_eq_self i128_ok_def)
qed simp

definition event_ok :: "audit_event \<Rightarrow> bool" where
  "event_ok e \<longleftrightarrow> str_ok (event_id e) \<and> pred_option str_ok (actor e)
     \<and> str_ok (event_type_str (event_type e)) \<and> str_ok (label_str (target_kind e))
     \<and> pred_option str_ok (map_option identifier_str (target_id e)) \<and> payload_ok (payload e)
     \<and> i128_ok (created_at e)"

interpretation event_code: prefix_code enc_event event_ok
proof
  fix d e :: audit_event and r s
  assume ok: "event_ok d" "event_ok e" and eq: "enc_event d @ r = enc_event e @ s"
  then have "event_id d = event_id e \<and> actor d = actor e \<and> event_type_str (event_type d) = event_type_str (event_type e)
      \<and> label_str (target_kind d) = label_str (target_kind e)
      \<and> map_option identifier_str (target_id d) = map_option identifier_str (target_id e)
      \<and> payload d = payload e \<and> created_at d = created_at e \<and> r = s"
    by (simp add: enc_event_def event_ok_def codec_cancel payload_cancel word_of_int_i128_inject)
  then show "d = e \<and> r = s"
    by (auto simp: audit_event_type.expand audit_label.expand audit_identifier.expand
        intro!: audit_event.equality option.inj_map_strong [of "target_id d" "target_id e" identifier_str identifier_str])
qed

text \<open>An event for the examples of the theories above this one.\<close>

definition example_event :: audit_event where
  "example_event = \<lparr>event_id = ''e1'', actor = Some ''alice'', event_type = AuditEventType ''secret.read'',
     target_kind = AuditLabel ''secret'', target_id = None, payload = payload_empty, created_at = 1000\<rparr>"

lemma example_event_ok: "event_ok example_event"
  by (simp add: event_ok_def example_event_def payload_ok_def payload_empty_def fits_u64_def
      i128_ok_def bt_ok_def)

end
