(* ===== verification/AuditChain.thy ===== *)
theory AuditChain
  imports AuditEvent
begin

text \<open>
  The audit hash chain, \<open>crates/openbot-domain/src/audit/chain.rs\<close>: a row's digest, linking a row to its
  predecessor, and \<open>verify_chain\<close>, which reports where and how a segment breaks. The lemmas give the
  declarative meaning of an intact segment, that verification can be paged, that rows linked by the
  writer always verify, and that two intact segments with one head hold the same rows unless the
  digest function has a collision.
\<close>

definition audit_row_domain :: string where
  "audit_row_domain = ''openbot.audit.row.v1''"

datatype prev_row_hash = Genesis | Linked digest

fun as_option :: "prev_row_hash \<Rightarrow> digest option" where
  "as_option Genesis = None"
| "as_option (Linked d) = Some d"

fun from_option :: "digest option \<Rightarrow> prev_row_hash" where
  "from_option None = Genesis"
| "from_option (Some d) = Linked d"

lemma as_option_from_option [simp]: "as_option (from_option x) = x"
  by (cases x) simp_all

definition row_hash :: "(bytes \<Rightarrow> digest) \<Rightarrow> audit_event \<Rightarrow> prev_row_hash \<Rightarrow> digest" where
  "row_hash H e prev =
     (let w = writer_new audit_row_domain;
          w = event_write e w;
          w = writer_option_digest (as_option prev) w
      in digest_of_written H w)"

record stored_audit_row =
  event :: audit_event
  prev_hash_col :: "digest option"
  row_hash_col :: "digest option"

definition link :: "(bytes \<Rightarrow> digest) \<Rightarrow> audit_event \<Rightarrow> prev_row_hash \<Rightarrow> stored_audit_row" where
  "link H e prev = \<lparr>event = e, prev_hash_col = as_option prev, row_hash_col = Some (row_hash H e prev)\<rparr>"

definition unlinked :: "audit_event \<Rightarrow> stored_audit_row" where
  "unlinked e = \<lparr>event = e, prev_hash_col = None, row_hash_col = None\<rparr>"

datatype chain_anchor = ChainStart | ContinuingFrom digest

datatype chain_break_kind =
    RowHashMismatch digest digest \<comment> \<open>recorded, recomputed\<close>
  | PrevHashMismatch "digest option" "digest option" \<comment> \<open>expected, recorded\<close>
  | UnlinkedRowAfterChainStart
  | PrevHashWithoutRowHash

record chain_break =
  index :: nat
  break_event_id :: string
  break_kind :: chain_break_kind

datatype chain_verification =
    Intact (unlinked_prefix: nat) (linked_rows: nat) (head: "digest option")
  | Broken chain_break

text \<open>The loop of \<open>verify_chain\<close> with its local variables, over the rows not yet seen.\<close>

fun verify_loop :: "(bytes \<Rightarrow> digest) \<Rightarrow> nat \<Rightarrow> stored_audit_row list \<Rightarrow> digest option \<Rightarrow> bool
    \<Rightarrow> nat \<Rightarrow> nat \<Rightarrow> digest option \<Rightarrow> chain_verification" where
  "verify_loop H i [] expected_prev unlinked_still_allowed unlinked_n linked_n tip =
     Intact unlinked_n linked_n tip"
| "verify_loop H i (row # rows) expected_prev unlinked_still_allowed unlinked_n linked_n tip =
     (let break_at = (\<lambda>k. Broken \<lparr>index = i, break_event_id = event_id (event row), break_kind = k\<rparr>) in
      case (row_hash_col row, prev_hash_col row) of
        (None, None) \<Rightarrow>
          if unlinked_still_allowed
          then verify_loop H (i + 1) rows expected_prev unlinked_still_allowed (unlinked_n + 1) linked_n tip
          else break_at UnlinkedRowAfterChainStart
      | (None, Some _) \<Rightarrow> break_at PrevHashWithoutRowHash
      | (Some recorded, prev) \<Rightarrow>
          if prev \<noteq> expected_prev then break_at (PrevHashMismatch expected_prev prev)
          else (let recomputed = row_hash H (event row) (from_option prev) in
            if recomputed \<noteq> recorded then break_at (RowHashMismatch recorded recomputed)
            else verify_loop H (i + 1) rows (Some recorded) False unlinked_n (linked_n + 1) (Some recorded)))"

definition verify_chain :: "(bytes \<Rightarrow> digest) \<Rightarrow> stored_audit_row list \<Rightarrow> chain_anchor \<Rightarrow> chain_verification" where
  "verify_chain H rows anchor =
     (let expected_prev = (case anchor of ChainStart \<Rightarrow> None | ContinuingFrom tip \<Rightarrow> Some tip);
          unlinked_still_allowed = (anchor = ChainStart)
      in verify_loop H 0 rows expected_prev unlinked_still_allowed 0 0 None)"

section \<open>The meaning of an intact segment\<close>

definition row_unlinked :: "stored_audit_row \<Rightarrow> bool" where
  "row_unlinked row \<longleftrightarrow> row_hash_col row = None \<and> prev_hash_col row = None"

text \<open>Rows that chain from a given predecessor digest, and the digest they end in.\<close>

fun linked_from :: "(bytes \<Rightarrow> digest) \<Rightarrow> digest option \<Rightarrow> stored_audit_row list \<Rightarrow> bool" where
  "linked_from H p [] \<longleftrightarrow> True"
| "linked_from H p (row # rows) \<longleftrightarrow>
     prev_hash_col row = p \<and> row_hash_col row = Some (row_hash H (event row) (from_option p))
     \<and> linked_from H (row_hash_col row) rows"

definition end_hash :: "digest option \<Rightarrow> stored_audit_row list \<Rightarrow> digest option" where
  "end_hash p rows = (if rows = [] then p else row_hash_col (last rows))"

lemma linked_from_append:
  "linked_from H p (xs @ ys) \<longleftrightarrow> linked_from H p xs \<and> linked_from H (end_hash p xs) ys"
  by (induction xs arbitrary: p) (auto simp: end_hash_def)

lemma linked_from_hash_col: "linked_from H p rows \<Longrightarrow> row \<in> set rows \<Longrightarrow> row_hash_col row \<noteq> None"
  by (induction rows arbitrary: p) auto

lemma end_hash_Cons: "end_hash p (row # rows) = end_hash (row_hash_col row) rows"
  by (simp add: end_hash_def)

lemma verify_loop_linked:
  "verify_loop H i rows p False u n tip = Intact u' n' tip' \<longleftrightarrow>
     linked_from H p rows \<and> u' = u \<and> n' = n + length rows
     \<and> tip' = (if rows = [] then tip else row_hash_col (last rows))"
proof (induction rows arbitrary: i p n tip)
  case (Cons row rows)
  show ?case
    by (cases "row_hash_col row"; cases "prev_hash_col row")
       (auto simp: Let_def Cons.IH)
qed auto

text \<open>The rows a segment may begin with, and how the loop passes them.\<close>

lemma verify_loop_unlinked:
  "\<forall>r\<in>set old. row_unlinked r \<Longrightarrow>
   verify_loop H i (old @ rows) p True u n tip = verify_loop H (i + length old) rows p True (u + length old) n tip"
  by (induction old arbitrary: i u) (simp_all add: row_unlinked_def)

lemma verify_loop_after_unlinked:
  assumes "rows = [] \<or> \<not> row_unlinked (hd rows)"
  shows "verify_loop H i rows p True u n tip = verify_loop H i rows p False u n tip"
proof (cases rows)
  case (Cons row rest)
  with assms have "row_hash_col row \<noteq> None \<or> prev_hash_col row \<noteq> None"
    by (simp add: row_unlinked_def)
  with Cons show ?thesis
    by (cases "row_hash_col row"; cases "prev_hash_col row") (simp_all add: Let_def)
qed simp

lemma dropWhile_hd: "dropWhile P xs = [] \<or> \<not> P (hd (dropWhile P xs))"
  by (cases "dropWhile P xs = []") (simp_all add: hd_dropWhile)

text \<open>\<open>verify_chain\<close> from the start skips the unlinked prefix and then runs as from a known head.\<close>

lemma verify_chain_start_eq:
  "verify_chain H rows ChainStart =
     verify_loop H (length (takeWhile row_unlinked rows)) (dropWhile row_unlinked rows) None False
       (length (takeWhile row_unlinked rows)) 0 None"
proof -
  let ?old = "takeWhile row_unlinked rows" and ?new = "dropWhile row_unlinked rows"
  have "verify_loop H 0 (?old @ ?new) None True 0 0 None
      = verify_loop H (length ?old) ?new None True (length ?old) 0 None"
    by (subst verify_loop_unlinked) (auto dest: set_takeWhileD)
  then show ?thesis
    by (simp add: verify_chain_def verify_loop_after_unlinked [OF dropWhile_hd])
qed

definition anchor_prev :: "chain_anchor \<Rightarrow> digest option" where
  "anchor_prev anchor = (case anchor of ChainStart \<Rightarrow> None | ContinuingFrom d \<Rightarrow> Some d)"

definition unlinked_rows :: "chain_anchor \<Rightarrow> stored_audit_row list \<Rightarrow> stored_audit_row list" where
  "unlinked_rows anchor rows = (if anchor = ChainStart then takeWhile row_unlinked rows else [])"

definition chained_rows :: "chain_anchor \<Rightarrow> stored_audit_row list \<Rightarrow> stored_audit_row list" where
  "chained_rows anchor rows = (if anchor = ChainStart then dropWhile row_unlinked rows else rows)"

lemma verify_chain_intact_iff:
  "verify_chain H rows anchor = Intact u n tip \<longleftrightarrow>
     linked_from H (anchor_prev anchor) (chained_rows anchor rows)
     \<and> u = length (unlinked_rows anchor rows) \<and> n = length (chained_rows anchor rows)
     \<and> tip = end_hash None (chained_rows anchor rows)"
proof (cases anchor)
  case ChainStart
  then show ?thesis
    by (simp add: verify_chain_start_eq verify_loop_linked anchor_prev_def chained_rows_def
        unlinked_rows_def end_hash_def)
next
  case (ContinuingFrom d)
  then show ?thesis
    by (simp add: verify_chain_def verify_loop_linked anchor_prev_def chained_rows_def
        unlinked_rows_def end_hash_def)
qed

section \<open>Paging\<close>

lemma verify_loop_append:
  "verify_loop H i xs p False u n tip = Intact u' m tip' \<Longrightarrow>
   verify_loop H i (xs @ ys) p False u n tip =
     verify_loop H (i + length xs) ys (end_hash p xs) False u' m tip'"
proof (induction xs arbitrary: i p n tip)
  case Nil
  then show ?case by (simp add: end_hash_def)
next
  case (Cons row xs)
  from Cons.prems obtain d where row: "row_hash_col row = Some d" "prev_hash_col row = p"
      "row_hash H (event row) (from_option p) = d"
    by (auto simp: verify_loop_linked simp del: verify_loop.simps)
  with Cons.prems have "verify_loop H (i + 1) xs (Some d) False u (n + 1) (Some d) = Intact u' m tip'"
    by (simp add: Let_def)
  from Cons.IH [OF this] row show ?case
    by (simp add: Let_def end_hash_Cons)
qed

lemma linked_from_end_hash: "linked_from H p xs \<Longrightarrow> xs \<noteq> [] \<Longrightarrow> \<exists>d. end_hash q xs = Some d"
  using linked_from_hash_col [of H p xs "last xs"] by (auto simp: end_hash_def)


lemma verify_loop_shift:
  "verify_loop H (k + i) rows p False (u0 + u) (n0 + n) (if n = 0 then tip0 else tip) =
     (case verify_loop H i rows p False u n tip of
        Intact u' n' tip' \<Rightarrow> Intact (u0 + u') (n0 + n') (if n' = 0 then tip0 else tip')
      | Broken b \<Rightarrow> Broken (b\<lparr>index := k + index b\<rparr>))"
proof (induction rows arbitrary: i p u n tip)
  case (Cons row rows)
  show ?case
    using Cons.IH [of "Suc i" "row_hash_col row" u "Suc n" "row_hash_col row"]
    by (cases "row_hash_col row"; cases "prev_hash_col row")
       (simp_all add: Let_def)
qed simp

section \<open>What the writer produces\<close>

text \<open>The rows an appending writer stores for a sequence of events.\<close>

fun link_all :: "(bytes \<Rightarrow> digest) \<Rightarrow> prev_row_hash \<Rightarrow> audit_event list \<Rightarrow> stored_audit_row list" where
  "link_all H prev [] = []"
| "link_all H prev (e # es) = link H e prev # link_all H (from_option (row_hash_col (link H e prev))) es"

lemma length_link_all [simp]: "length (link_all H prev es) = length es"
  by (induction es arbitrary: prev) simp_all

lemma from_option_as_option [simp]: "from_option (as_option prev) = prev"
  by (cases prev) simp_all

lemma linked_from_link_all: "linked_from H (as_option prev) (link_all H prev es)"
proof (induction es arbitrary: prev)
  case (Cons e es)
  then show ?case
    using Cons.IH [of "from_option (row_hash_col (link H e prev))"] by (simp add: link_def)
qed simp

lemma chained_rows_link_all: "dropWhile row_unlinked (link_all H prev es) = link_all H prev es"
  by (cases es) (simp_all add: link_def row_unlinked_def)

section \<open>One head, one history\<close>

definition enc_row :: "audit_event \<Rightarrow> digest option \<Rightarrow> bytes" where
  "enc_row e p = enc_str audit_row_domain @ enc_event e @ enc_option enc_digest p"

lemma row_hash_eq: "row_hash H e prev = H (enc_row e (as_option prev))"
  by (simp add: row_hash_def enc_row_def digest_of_written_def codec_simps event_write_appends Let_def)

lemma enc_row_inject:
  "event_ok d \<Longrightarrow> event_ok e \<Longrightarrow> enc_row d p = enc_row e q \<longleftrightarrow> d = e \<and> p = q"
  using opt_digest_code.enc_inject [of p q]
  by (simp add: enc_row_def event_code.append_eq_iff option.pred_True)

text \<open>The bytes a stored row's hash covers.\<close>

definition row_preimage :: "stored_audit_row \<Rightarrow> bytes" where
  "row_preimage r = enc_row (event r) (prev_hash_col r)"

definition rows_collide :: "(bytes \<Rightarrow> digest) \<Rightarrow> stored_audit_row list \<Rightarrow> stored_audit_row list \<Rightarrow> bool" where
  "rows_collide H xs ys \<longleftrightarrow> (\<exists>r\<in>set xs. \<exists>r'\<in>set ys. collision H (row_preimage r) (row_preimage r'))"

lemma row_hash_inject:
  assumes "event_ok d" "event_ok e" "row_hash H d p = row_hash H e q"
  shows "d = e \<and> p = q \<or> collision H (enc_row d (as_option p)) (enc_row e (as_option q))"
proof (cases "enc_row d (as_option p) = enc_row e (as_option q)")
  case True
  with assms have "d = e" "as_option p = as_option q" by (simp_all add: enc_row_inject)
  then show ?thesis by (metis from_option_as_option)
next
  case False
  with assms(3) show ?thesis
    by (auto simp: row_hash_eq collision_def)
qed

lemma link_from_same_end:
  assumes "linked_from H None xs" "linked_from H None ys"
    and "end_hash None xs = end_hash None ys"
    and "\<forall>r\<in>set xs. event_ok (event r)" "\<forall>r\<in>set ys. event_ok (event r)"
  shows "xs = ys \<or> rows_collide H xs ys"
  using assms
proof (induction xs arbitrary: ys rule: rev_induct)
  case Nil
  show ?case
  proof (cases ys rule: rev_cases)
    case (snoc ys' r)
    with Nil.prems show ?thesis
      using linked_from_end_hash [of H None ys] by (auto simp: end_hash_def)
  qed simp
next
  case (snoc r xs)
  show ?case
  proof (cases ys rule: rev_cases)
    case Nil
    with snoc.prems show ?thesis
      using linked_from_end_hash [of H None "xs @ [r]"] by (auto simp: end_hash_def)
  next
    case outer: (snoc ys' r')
    let ?p = "end_hash None xs" and ?q = "end_hash None ys'"
    have rows: "linked_from H None xs" "linked_from H ?p [r]" "linked_from H None ys'" "linked_from H ?q [r']"
      using snoc.prems(1,2) by (simp_all add: linked_from_append outer)
    have "row_hash H (event r) (from_option ?p) = row_hash H (event r') (from_option ?q)"
      using snoc.prems(3) rows by (simp add: outer end_hash_def)
    with snoc.prems(4,5) have "event r = event r' \<and> from_option ?p = from_option ?q
        \<or> collision H (row_preimage r) (row_preimage r')"
      using row_hash_inject [of "event r" "event r'" H "from_option ?p" "from_option ?q"] rows
      by (simp add: outer row_preimage_def)
    then show ?thesis
    proof (elim disjE conjE)
      assume e: "event r = event r'" and p: "from_option ?p = from_option ?q"
      then have pq: "?p = ?q" by (metis as_option_from_option)
      with e rows have "r = r'" by (auto intro: stored_audit_row.equality)
      with snoc.IH [of ys'] rows pq snoc.prems(4,5) show ?thesis
        by (auto simp: outer rows_collide_def)
    qed (simp add: outer rows_collide_def)
  qed
qed

section \<open>Where a break is reported\<close>

lemma verify_loop_broken:
  "verify_loop H i rows p al u n tip = Broken b \<Longrightarrow>
   i \<le> index b \<and> index b - i < length rows
   \<and> break_event_id b = event_id (event (rows ! (index b - i)))
   \<and> (\<exists>u' n' tip'. verify_loop H i (take (index b - i) rows) p al u n tip = Intact u' n' tip')
   \<and> (\<forall>zs. verify_loop H i (take (Suc (index b - i)) rows @ zs) p al u n tip = Broken b)"
proof (induction rows arbitrary: i p al u n tip)
  case (Cons row rows)
  have later: ?case
    if step: "\<And>zs. verify_loop H i (row # zs) p al u n tip = verify_loop H (Suc i) zs p' al' u' n' tip'"
    for p' al' u' n' tip'
  proof -
    from Cons.prems step have loop: "verify_loop H (Suc i) rows p' al' u' n' tip' = Broken b" by simp
    note ih = Cons.IH [OF this]
    then have "index b - i = Suc (index b - Suc i)" by linarith
    with ih show ?thesis by (auto simp: step simp del: verify_loop.simps)
  qed
  show ?case
  proof (cases "row_hash_col row")
    case None
    note rn = this
    show ?thesis
    proof (cases "prev_hash_col row")
      case None
      show ?thesis
      proof (cases al)
        case True
        show ?thesis by (rule later [of p True "Suc u" n tip]) (use True None rn in simp)
      qed (use None rn Cons.prems in auto)
    qed (use rn Cons.prems in auto)
  next
    case (Some d)
    show ?thesis
    proof (cases "prev_hash_col row = p \<and> row_hash H (event row) (from_option p) = d")
      case True
      with Some show ?thesis by (intro later [of "Some d" False u "Suc n" "Some d"]) (simp add: Let_def)
    next
      case False
      with Some Cons.prems show ?thesis by (auto simp: Let_def split: if_splits)
    qed
  qed
qed simp

lemma verify_loop_tip:
  "verify_loop H i xs p False u n tip = Intact u' m (Some d) \<Longrightarrow> n = 0 \<Longrightarrow> tip = None \<Longrightarrow>
   end_hash p xs = Some d \<and> m = length xs \<and> xs \<noteq> [] \<and> u' = u"
  by (auto simp: verify_loop_linked end_hash_def split: if_splits)

lemma verify_chain_split:
  assumes "verify_chain H xs anchor = Intact u n (Some d)"
  shows "verify_chain H (xs @ ys) anchor = verify_loop H (length xs) ys (Some d) False u n (Some d)"
  proof (cases anchor)
    case ChainStart
    let ?old = "takeWhile row_unlinked xs" and ?new = "dropWhile row_unlinked xs"
    have loop: "verify_loop H (length ?old) ?new None False (length ?old) 0 None = Intact u n (Some d)"
      using assms by (simp add: ChainStart verify_chain_start_eq)
    note tip = verify_loop_tip [OF loop refl refl]
    have new: "?new \<noteq> []" "end_hash None ?new = Some d" using tip by simp_all
    then obtain r where r: "r \<in> set xs" "\<not> row_unlinked r"
      by (metis dropWhile_eq_Nil_conv)
    have lens: "length ?old + length ?new = length xs"
      by (metis length_append takeWhile_dropWhile_id)
    show ?thesis
      using verify_loop_append [OF loop, of ys] r new lens
      by (simp add: ChainStart verify_chain_start_eq takeWhile_append1 dropWhile_append1)
  next
    case (ContinuingFrom c)
    have loop: "verify_loop H 0 xs (Some c) False 0 0 None = Intact u n (Some d)"
      using assms by (simp add: ContinuingFrom verify_chain_def)
    from verify_loop_tip [OF loop refl refl] verify_loop_append [OF loop]
    show ?thesis by (simp add: ContinuingFrom verify_chain_def)
  qed

lemma linked_from_nth:
  "linked_from H p rows \<longleftrightarrow>
     (\<forall>i<length rows. prev_hash_col (rows ! i) = (if i = 0 then p else row_hash_col (rows ! (i - 1)))
        \<and> row_hash_col (rows ! i) = Some (row_hash H (event (rows ! i)) (from_option (prev_hash_col (rows ! i)))))"
proof (induction rows arbitrary: p)
  case (Cons row rows)
  show ?case
    by (auto simp: Cons.IH less_Suc_eq_0_disj nth_Cons' split: if_splits)
qed simp

lemma chained_rows_unique:
  assumes "rows = old @ new" "\<forall>r\<in>set old. anchor = ChainStart \<and> row_unlinked r"
    and "linked_from H p new"
  shows "unlinked_rows anchor rows = old \<and> chained_rows anchor rows = new"
proof -
  have "new = [] \<or> \<not> row_unlinked (hd new)"
    using assms(3) by (cases new) (auto simp: row_unlinked_def)
  then have "takeWhile row_unlinked new = []" "dropWhile row_unlinked new = new"
    by (cases new; simp)+
  moreover have "anchor \<noteq> ChainStart \<Longrightarrow> old = []"
    using assms(2) by (cases old) auto
  ultimately show ?thesis
    using assms(1,2) by (auto simp: unlinked_rows_def chained_rows_def)
qed

lemma rows_split: "rows = unlinked_rows anchor rows @ chained_rows anchor rows"
  by (simp add: unlinked_rows_def chained_rows_def)

lemma unlinked_rows_unlinked: "r \<in> set (unlinked_rows anchor rows) \<Longrightarrow> anchor = ChainStart \<and> row_unlinked r"
  by (auto simp: unlinked_rows_def dest: set_takeWhileD split: if_splits)

section \<open>Properties\<close>

text \<open>C12: An intact verdict means what it says: from the chain's start the rows are an unlinked prefix of
  the reported length followed by rows that each record their predecessor's digest and their own
  recomputed digest; from a known head there is no unlinked row. Conversely every such segment is
  reported intact, with the last row's digest as head.\<close>

theorem verify_chain_intact_exact:
  "verify_chain H rows anchor = Intact u n tip \<longleftrightarrow>
     (\<exists>old new. rows = old @ new \<and> length old = u \<and> length new = n
        \<and> (\<forall>r\<in>set old. anchor = ChainStart \<and> prev_hash_col r = None \<and> row_hash_col r = None)
        \<and> (\<forall>i<n. prev_hash_col (new ! i) = (if i = 0 then anchor_prev anchor else row_hash_col (new ! (i - 1)))
             \<and> row_hash_col (new ! i) = Some (row_hash H (event (new ! i)) (from_option (prev_hash_col (new ! i)))))
        \<and> tip = (if n = 0 then None else row_hash_col (new ! (n - 1))))"
  (is "?l \<longleftrightarrow> ?r")
proof
  assume ?l
  then have l: "linked_from H (anchor_prev anchor) (chained_rows anchor rows)"
      "u = length (unlinked_rows anchor rows)" "n = length (chained_rows anchor rows)"
      "tip = end_hash None (chained_rows anchor rows)"
    by (simp_all add: verify_chain_intact_iff)
  show ?r
  proof (intro exI conjI)
    show "rows = unlinked_rows anchor rows @ chained_rows anchor rows" by (rule rows_split)
    show "\<forall>r\<in>set (unlinked_rows anchor rows). anchor = ChainStart \<and> prev_hash_col r = None \<and> row_hash_col r = None"
      using unlinked_rows_unlinked by (auto simp: row_unlinked_def)
  qed (use l in \<open>simp_all add: linked_from_nth end_hash_def last_conv_nth\<close>)
next
  assume ?r
  then show ?l
  proof (elim exE conjE)
    fix old new
    assume "rows = old @ new" "length old = u" "length new = n"
      and old: "\<forall>r\<in>set old. anchor = ChainStart \<and> prev_hash_col r = None \<and> row_hash_col r = None"
      and new: "\<forall>i<n. prev_hash_col (new ! i) = (if i = 0 then anchor_prev anchor else row_hash_col (new ! (i - 1)))
        \<and> row_hash_col (new ! i) = Some (row_hash H (event (new ! i)) (from_option (prev_hash_col (new ! i))))"
      and tip: "tip = (if n = 0 then None else row_hash_col (new ! (n - 1)))"
    moreover from old have "\<forall>r\<in>set old. anchor = ChainStart \<and> row_unlinked r"
      by (simp add: row_unlinked_def)
    moreover from new \<open>length new = n\<close> have linked: "linked_from H (anchor_prev anchor) new"
      unfolding linked_from_nth by blast
    moreover from tip \<open>length new = n\<close> have "tip = end_hash None new"
      by (auto simp: end_hash_def last_conv_nth)
    ultimately show ?l
      using chained_rows_unique [of rows old new anchor H "anchor_prev anchor"]
      by (simp only: verify_chain_intact_iff)
  qed
qed

theorem verify_chain_intact_exact_witness:
  "verify_chain (\<lambda>_. 7) [unlinked example_event, link (\<lambda>_. 7) example_event Genesis] ChainStart = Intact 1 1 (Some 7)"
  unfolding verify_chain_intact_exact
  by (rule exI [of _ "[unlinked example_event]"], rule exI [of _ "[link (\<lambda>_. 7) example_event Genesis]"])
     (simp add: unlinked_def link_def anchor_prev_def row_hash_eq)

text \<open>C13: When \<open>verify_chain\<close> reports a break, it names the first bad row: the rows before the reported
  index verify as intact, the event id is that row's, and the verdict is the same however the
  segment continues after it.\<close>

theorem verify_chain_break_is_first:
  assumes "verify_chain H rows anchor = Broken b"
  shows "index b < length rows \<and> break_event_id b = event_id (event (rows ! index b))
    \<and> (\<exists>u n tip. verify_chain H (take (index b) rows) anchor = Intact u n tip)
    \<and> (\<forall>zs. verify_chain H (take (Suc (index b)) rows @ zs) anchor = Broken b)"
  using verify_loop_broken [of H 0 rows] assms by (fastforce simp: verify_chain_def)

theorem verify_chain_break_is_first_witness:
  "let rows = [link (\<lambda>_. 7) example_event Genesis, unlinked example_event] in
     verify_chain (\<lambda>_. 7) (take 1 rows) ChainStart = Intact 0 1 (Some 7)
     \<and> verify_chain (\<lambda>_. 7) (rows @ rows) ChainStart
         = Broken \<lparr>index = 1, break_event_id = ''e1'', break_kind = UnlinkedRowAfterChainStart\<rparr>"
proof -
  define rows where "rows = [link (\<lambda>_. 7) example_event Genesis, unlinked example_event]"
  have hash: "row_hash (\<lambda>_. 7) e p = 7" for e p
    by (simp add: row_hash_eq)
  have "verify_chain (\<lambda>_. 7) rows ChainStart
      = Broken \<lparr>index = 1, break_event_id = ''e1'', break_kind = UnlinkedRowAfterChainStart\<rparr>"
    by (simp add: rows_def verify_chain_def link_def unlinked_def hash example_event_def)
  from verify_chain_break_is_first [OF this]
  have "\<forall>zs. verify_chain (\<lambda>_. 7) (take (Suc 1) rows @ zs) ChainStart
      = Broken \<lparr>index = 1, break_event_id = ''e1'', break_kind = UnlinkedRowAfterChainStart\<rparr>"
    by simp
  moreover have "take (Suc 1) rows = rows" by (simp add: rows_def)
  moreover have "verify_chain (\<lambda>_. 7) (take 1 rows) ChainStart = Intact 0 1 (Some 7)"
    by (simp add: rows_def verify_chain_def link_def hash)
  ultimately show ?thesis
    by (simp add: rows_def [symmetric])
qed

text \<open>Verification can be paged: continuing from the head of an intact page gives the verdict
  \<open>verify_chain\<close> would give on both pages at once, with the row counts added and a break's index
  shifted.\<close>

theorem verify_chain_paging:
  assumes "verify_chain H xs anchor = Intact u n (Some d)"
  shows "verify_chain H (xs @ ys) anchor =
    (case verify_chain H ys (ContinuingFrom d) of
       Intact u' n' tip \<Rightarrow> Intact u (n + n') (if n' = 0 then Some d else tip)
     | Broken b \<Rightarrow> Broken (b\<lparr>index := length xs + index b\<rparr>))"
proof -
  have "verify_chain H (xs @ ys) anchor =
      (case verify_loop H 0 ys (Some d) False 0 0 None of
         Intact u' n' tip \<Rightarrow> Intact (u + u') (n + n') (if n' = 0 then Some d else tip)
       | Broken b \<Rightarrow> Broken (b\<lparr>index := length xs + index b\<rparr>))"
    using verify_loop_shift [of H "length xs" 0 ys "Some d" u 0 n 0 "Some d" None]
    by (simp add: verify_chain_split [OF assms])
  moreover have "verify_chain H ys (ContinuingFrom d) = verify_loop H 0 ys (Some d) False 0 0 None"
    by (simp add: verify_chain_def)
  moreover have "u' = 0" if "verify_loop H 0 ys (Some d) False 0 0 None = Intact u' n' tip" for u' n' tip
    using that by (simp add: verify_loop_linked)
  ultimately show ?thesis
    by (auto split: chain_verification.split)
qed

theorem verify_chain_paging_witness:
  "let page1 = link_all (\<lambda>_. 7) Genesis [example_event]; page2 = link_all (\<lambda>_. 7) (Linked 7) [example_event] in
     verify_chain (\<lambda>_. 7) (page1 @ page2) ChainStart = Intact 0 2 (Some 7)"
proof -
  let ?p1 = "link_all (\<lambda>_. 7) Genesis [example_event]" and ?p2 = "link_all (\<lambda>_. 7) (Linked 7) [example_event]"
  have "verify_chain (\<lambda>_. 7) ?p1 ChainStart = Intact 0 1 (Some 7)"
    by (simp add: verify_chain_def link_def row_hash_eq)
  note paging = verify_chain_paging [OF this, of ?p2]
  have "verify_chain (\<lambda>_. 7) ?p2 (ContinuingFrom 7) = Intact 0 1 (Some 7)"
    by (simp add: verify_chain_def link_def row_hash_eq)
  with paging show ?thesis by (simp del: link_all.simps)
qed

text \<open>Rows written by \<open>link\<close>, each to the digest of the row before it, always verify, after any
  prefix of rows from before the chain existed.\<close>

theorem linked_rows_verify:
  "verify_chain H (map unlinked old @ link_all H Genesis es) ChainStart =
     Intact (length old) (length es) (if es = [] then None else row_hash_col (last (link_all H Genesis es)))"
proof -
  have "\<forall>r\<in>set (map unlinked old). ChainStart = ChainStart \<and> row_unlinked r"
    by (auto simp: unlinked_def row_unlinked_def)
  from chained_rows_unique [OF refl this linked_from_link_all [of H Genesis es]] show ?thesis
    by (auto simp: verify_chain_intact_iff anchor_prev_def linked_from_link_all [of H Genesis es, simplified]
        end_hash_def simp flip: length_0_conv)
qed

text \<open>C1: Tamper evidence: two intact segments from the chain's start that report the same head hold
  exactly the same linked rows, or a row of one and a row of the other are hashed from different bytes to
  the same digest.\<close>

theorem same_head_same_history:
  assumes "verify_chain H xs ChainStart = Intact u n tip" "verify_chain H ys ChainStart = Intact v m tip"
    and "\<forall>r\<in>set (xs @ ys). event_ok (event r)"
  shows "drop u xs = drop v ys \<or> rows_collide H (drop u xs) (drop v ys)"
proof -
  have new: "drop u xs = chained_rows ChainStart xs" "drop v ys = chained_rows ChainStart ys"
    using assms(1,2) by (simp_all add: verify_chain_intact_iff unlinked_rows_def chained_rows_def dropWhile_eq_drop)
  have "\<forall>r\<in>set (drop u xs). event_ok (event r)" "\<forall>r\<in>set (drop v ys). event_ok (event r)"
    using assms(3) by (auto dest: in_set_dropD)
  with assms(1,2) show ?thesis
    unfolding new by (intro link_from_same_end) (simp_all add: verify_chain_intact_iff anchor_prev_def)
qed

theorem same_head_same_history_witness:
  "let rows = map unlinked [example_event] @ link_all (\<lambda>_. 7) Genesis [example_event] in
     drop 1 rows = drop 0 (link_all (\<lambda>_. 7) Genesis [example_event]) 
       \<or> rows_collide (\<lambda>_. 7) (drop 1 rows) (drop 0 (link_all (\<lambda>_. 7) Genesis [example_event]))"
proof -
  let ?new = "link_all (\<lambda>_. 7) Genesis [example_event]"
  let ?rows = "map unlinked [example_event] @ ?new"
  have "verify_chain (\<lambda>_. 7) ?rows ChainStart = Intact 1 1 (Some 7)"
       "verify_chain (\<lambda>_. 7) ?new ChainStart = Intact 0 1 (Some 7)"
    by (simp_all add: verify_chain_def link_def unlinked_def row_hash_eq)
  moreover have "\<forall>r\<in>set (?rows @ ?new). event_ok (event r)"
    by (simp add: link_def unlinked_def example_event_ok)
  ultimately show ?thesis
    unfolding Let_def by (rule same_head_same_history)
qed

end
