(* ===== verification/AuditCheckpoint.thy ===== *)
theory AuditCheckpoint
  imports AuditChain
begin

text \<open>
  Signed checkpoints over the audit chain, \<open>crates/openbot-domain/src/audit/checkpoint.rs\<close>. The HMAC of
  the \<open>hmac\<close> crate is the argument \<open>mac :: bytes \<Rightarrow> bytes \<Rightarrow> digest\<close> (key, message) and carries no law: the
  claims say that a signature accepted for a checkpoint it was not made for exhibits two messages
  with one MAC. \<open>RetentionDays\<close> of \<open>retention.rs\<close> stands here because the checkpoint holds one.
\<close>

datatype retention_days = RetentionDays (retention_days_get: u32)

definition retention_days_new :: "u32 \<Rightarrow> retention_days option" where
  "retention_days_new days = (if days = 0 then None else Some (RetentionDays days))"

definition audit_checkpoint_domain :: string where
  "audit_checkpoint_domain = ''openbot.audit.checkpoint.v1''"

datatype checkpoint_signature = CheckpointSignature (signature_bytes: digest)

definition verify_equals :: "checkpoint_signature \<Rightarrow> checkpoint_signature \<Rightarrow> bool" where
  "verify_equals a b \<longleftrightarrow> signature_bytes a = signature_bytes b"

record chain_segment =
  first_event :: string
  first_row_hash :: digest
  last_event :: string
  last_row_hash :: digest
  event_count :: u64

definition segment_write :: "chain_segment \<Rightarrow> canonical_writer \<Rightarrow> canonical_writer" where
  "segment_write s w =
     (let w = writer_str (first_event s) w;
          w = writer_digest (first_row_hash s) w;
          w = writer_str (last_event s) w;
          w = writer_digest (last_row_hash s) w
      in writer_u64 (event_count s) w)"

datatype audit_checkpoint_kind =
    GenesisCheckpoint (genesis_event: string) (genesis_row_hash: digest) (unlinked_rows_before: u64)
  | Periodic (segment: chain_segment)
  | Closure (segment: chain_segment) (closure_days: retention_days)

fun checkpoint_kind_str :: "audit_checkpoint_kind \<Rightarrow> string" where
  "checkpoint_kind_str (GenesisCheckpoint _ _ _) = ''genesis''"
| "checkpoint_kind_str (Periodic _) = ''periodic''"
| "checkpoint_kind_str (Closure _ _) = ''closure''"

definition checkpoint_kind_write :: "audit_checkpoint_kind \<Rightarrow> canonical_writer \<Rightarrow> canonical_writer" where
  "checkpoint_kind_write k w =
     (let w = writer_str (checkpoint_kind_str k) w in
      case k of
        GenesisCheckpoint e h n \<Rightarrow> writer_u64 n (writer_digest h (writer_str e w))
      | Periodic s \<Rightarrow> segment_write s w
      | Closure s days \<Rightarrow> writer_u32 (retention_days_get days) (segment_write s w))"

record audit_checkpoint =
  checkpoint_sequence :: u64
  checkpoint_created_at :: instant
  checkpoint_kind :: audit_checkpoint_kind

definition checkpoint_canonical_bytes :: "audit_checkpoint \<Rightarrow> bytes" where
  "checkpoint_canonical_bytes c =
     (let w = writer_new audit_checkpoint_domain;
          w = writer_u64 (checkpoint_sequence c) w;
          w = writer_i128 (word_of_int (checkpoint_created_at c)) w;
          w = checkpoint_kind_write (checkpoint_kind c) w
      in writer_finish w)"

datatype checkpoint_key_error = EmptyKey

text \<open>\<open>Hmac::new_from_slice\<close> accepts keys of every length, so its error branch is not reached.\<close>

definition checkpoint_sign :: "(bytes \<Rightarrow> bytes \<Rightarrow> digest) \<Rightarrow> audit_checkpoint \<Rightarrow> bytes
    \<Rightarrow> (checkpoint_key_error, checkpoint_signature) result" where
  "checkpoint_sign mac c key =
     (if key = [] then Err EmptyKey
      else Ok (CheckpointSignature (mac key (checkpoint_canonical_bytes c))))"

definition checkpoint_verify :: "(bytes \<Rightarrow> bytes \<Rightarrow> digest) \<Rightarrow> audit_checkpoint \<Rightarrow> bytes
    \<Rightarrow> checkpoint_signature \<Rightarrow> (checkpoint_key_error, bool) result" where
  "checkpoint_verify mac c key signature =
     (case checkpoint_sign mac c key of
        Inl e \<Rightarrow> Err e
      | Inr expected \<Rightarrow> Ok (verify_equals expected signature))"

section \<open>A checkpoint is determined by its bytes\<close>

definition enc_segment :: "chain_segment \<Rightarrow> bytes" where
  "enc_segment s = enc_str (first_event s) @ enc_digest (first_row_hash s) @ enc_str (last_event s)
     @ enc_digest (last_row_hash s) @ enc_u64 (event_count s)"

definition segment_ok :: "chain_segment \<Rightarrow> bool" where
  "segment_ok s \<longleftrightarrow> str_ok (first_event s) \<and> str_ok (last_event s)"

interpretation segment_code: prefix_code enc_segment segment_ok
proof
  fix s t r r' assume "segment_ok s" "segment_ok t" "enc_segment s @ r = enc_segment t @ r'"
  then show "s = t \<and> r = r'"
    by (auto simp: enc_segment_def segment_ok_def codec_cancel intro: chain_segment.equality)
qed

lemma segment_write_appends [codec_simps]: "buffer (segment_write s w) = buffer w @ enc_segment s"
  by (simp add: segment_write_def enc_segment_def codec_simps Let_def)

fun enc_kind_body :: "audit_checkpoint_kind \<Rightarrow> bytes" where
  "enc_kind_body (GenesisCheckpoint e h n) = enc_str e @ enc_digest h @ enc_u64 n"
| "enc_kind_body (Periodic s) = enc_segment s"
| "enc_kind_body (Closure s days) = enc_segment s @ enc_u32 (retention_days_get days)"

definition enc_kind :: "audit_checkpoint_kind \<Rightarrow> bytes" where
  "enc_kind k = enc_str (checkpoint_kind_str k) @ enc_kind_body k"

fun kind_ok :: "audit_checkpoint_kind \<Rightarrow> bool" where
  "kind_ok (GenesisCheckpoint e h n) \<longleftrightarrow> str_ok e"
| "kind_ok (Periodic s) \<longleftrightarrow> segment_ok s"
| "kind_ok (Closure s days) \<longleftrightarrow> segment_ok s"

lemma checkpoint_kind_str_ok: "str_ok (checkpoint_kind_str k)"
  by (cases k) (simp_all add: fits_u64_def)

interpretation kind_code: prefix_code enc_kind kind_ok
proof
  fix k l r s assume ok: "kind_ok k" "kind_ok l" and eq: "enc_kind k @ r = enc_kind l @ s"
  then have "checkpoint_kind_str k = checkpoint_kind_str l" "enc_kind_body k @ r = enc_kind_body l @ s"
    by (simp_all add: enc_kind_def str_code.append_eq_iff checkpoint_kind_str_ok)
  with ok show "k = l \<and> r = s"
    by (cases k; cases l)
       (auto simp: codec_cancel segment_code.append_eq_iff retention_days.expand)
qed

lemma checkpoint_kind_write_appends [codec_simps]:
  "buffer (checkpoint_kind_write k w) = buffer w @ enc_kind k"
  by (cases k) (simp_all add: checkpoint_kind_write_def enc_kind_def codec_simps Let_def)

definition checkpoint_ok :: "audit_checkpoint \<Rightarrow> bool" where
  "checkpoint_ok c \<longleftrightarrow> kind_ok (checkpoint_kind c) \<and> i128_ok (checkpoint_created_at c)"

lemma checkpoint_bytes_inject:
  assumes "checkpoint_ok c" "checkpoint_ok d"
  shows "checkpoint_canonical_bytes c = checkpoint_canonical_bytes d \<longleftrightarrow> c = d"
proof -
  have "checkpoint_canonical_bytes x = enc_str audit_checkpoint_domain @ enc_u64 (checkpoint_sequence x)
      @ enc_i128 (word_of_int (checkpoint_created_at x)) @ enc_kind (checkpoint_kind x)" for x
    by (simp add: checkpoint_canonical_bytes_def writer_finish_def codec_simps Let_def)
  with assms show ?thesis
    by (auto simp: checkpoint_ok_def codec_cancel kind_code.enc_inject word_of_int_i128_inject
        intro: audit_checkpoint.equality)
qed

section \<open>Properties\<close>

text \<open>C16: A signature made under a non-empty key is accepted for its checkpoint, an empty key is refused
  both for signing and for verifying, and a signature accepted for another checkpoint shows that the canonical
  bytes of the two have the same MAC under that key: changing any field of a checkpoint invalidates it.\<close>

theorem checkpoint_signature_binds:
  assumes "checkpoint_ok c" "checkpoint_ok d"
  shows "(checkpoint_sign mac c key = Err EmptyKey \<longleftrightarrow> key = [])
    \<and> (checkpoint_verify mac d key sig = Err EmptyKey \<longleftrightarrow> key = [])
    \<and> (checkpoint_sign mac c key = Ok sig \<longrightarrow>
         checkpoint_verify mac d key sig = Ok True \<longrightarrow>
           c = d \<or> collision (mac key) (checkpoint_canonical_bytes c) (checkpoint_canonical_bytes d))
    \<and> (checkpoint_sign mac c key = Ok sig \<longrightarrow> checkpoint_verify mac c key sig = Ok True)"
proof -
  have "c = d \<or> collision (mac key) (checkpoint_canonical_bytes c) (checkpoint_canonical_bytes d)"
    if "mac key (checkpoint_canonical_bytes d) = mac key (checkpoint_canonical_bytes c)"
    using that checkpoint_bytes_inject [OF assms] unfolding collision_def by metis
  moreover have "verify_equals (CheckpointSignature x) (CheckpointSignature y) \<longleftrightarrow> x = y" for x y
    by (simp add: verify_equals_def)
  ultimately show ?thesis
    by (cases sig; cases "key = []") (simp_all add: checkpoint_sign_def checkpoint_verify_def)
qed

theorem checkpoint_signature_binds_witness:
  "let c = \<lparr>checkpoint_sequence = 1, checkpoint_created_at = 5, checkpoint_kind = GenesisCheckpoint ''e'' 3 0\<rparr>
   in checkpoint_verify (\<lambda>k m. of_nat (length m)) c [1] (CheckpointSignature 0) \<noteq> Err EmptyKey"
proof -
  let ?c = "\<lparr>checkpoint_sequence = 1, checkpoint_created_at = 5, checkpoint_kind = GenesisCheckpoint ''e'' 3 0\<rparr>"
  have "checkpoint_ok ?c" by (simp add: checkpoint_ok_def i128_ok_def fits_u64_def)
  from checkpoint_signature_binds [OF this this, of _ "[1]"] show ?thesis by simp
qed

end
