(* ===== verification/AuditRetention.thy ===== *)
theory AuditRetention
  imports AuditCheckpoint
begin

text \<open>
  Audit retention, \<open>crates/openbot-domain/src/audit/retention.rs\<close>: the configured window, which rows fall
  outside it, and the closure checkpoint planned before they are deleted. \<open>checked_sub\<close> is
  \<open>OffsetDateTime::checked_sub\<close> of the \<open>time\<close> crate, an argument; where a claim needs it, its documented
  behaviour (the difference when it is representable, otherwise nothing) is the hypothesis
  \<open>checked_sub_law\<close>.
\<close>

datatype retention_policy = Forever | Days retention_days

datatype retention_config_error = NotAWholeNumber | BelowMinimum | TooLarge

definition parse_retention_days :: "string option \<Rightarrow> (retention_config_error, retention_policy) result" where
  "parse_retention_days raw =
     (case map_option trim_ecmascript raw of
        None \<Rightarrow> Ok Forever
      | Some text \<Rightarrow>
          if text = [] then Ok Forever
          else if \<not> list_all is_ascii_digit text then Err NotAWholeNumber
          else (case parse_digits (2 ^ 32) 0 text of
                  None \<Rightarrow> Err TooLarge
                | Some days \<Rightarrow>
                    (case retention_days_new (of_nat days) of
                       None \<Rightarrow> Err BelowMinimum
                     | Some d \<Rightarrow> Ok (Days d))))"

datatype retention_window = KeepEverything | DeleteBefore instant
datatype row_retention = Retained | OutsideWindow

definition nanos_per_day :: int where
  "nanos_per_day = 86400 * 1000000000"

definition duration_days :: "u32 \<Rightarrow> duration" where
  "duration_days days = uint days * nanos_per_day"

type_synonym time_sub = "instant \<Rightarrow> duration \<Rightarrow> instant option"

definition retention_window :: "time_sub \<Rightarrow> retention_policy \<Rightarrow> instant \<Rightarrow> retention_window" where
  "retention_window checked_sub policy now =
     (case policy of
        Forever \<Rightarrow> KeepEverything
      | Days days \<Rightarrow>
          (case checked_sub now (duration_days (retention_days_get days)) of
             None \<Rightarrow> KeepEverything
           | Some boundary \<Rightarrow> DeleteBefore boundary))"

definition classify :: "time_sub \<Rightarrow> retention_policy \<Rightarrow> instant \<Rightarrow> instant \<Rightarrow> row_retention" where
  "classify checked_sub policy created now =
     (case retention_window checked_sub policy now of
        KeepEverything \<Rightarrow> Retained
      | DeleteBefore boundary \<Rightarrow> if created < boundary then OutsideWindow else Retained)"

record retention_closure_plan =
  unlinked_rows_deleted :: u64
  plan_checkpoint :: "audit_checkpoint option"

datatype retention_closure_error =
    NoRetentionWindow
  | EmptySelection
  | RowInsideWindow nat
  | CorruptRow nat
  | UnlinkedRowAfterLinkedRow nat

text \<open>The local variables of the loop of \<open>plan_retention_closure\<close>, and the loop.\<close>

record closure_scan =
  scan_unlinked :: u64
  scan_linked :: u64
  first_linked :: "(stored_audit_row \<times> digest) option"
  last_linked :: "(stored_audit_row \<times> digest) option"

fun closure_loop :: "time_sub \<Rightarrow> retention_policy \<Rightarrow> instant \<Rightarrow> nat \<Rightarrow> stored_audit_row list
    \<Rightarrow> closure_scan \<Rightarrow> (retention_closure_error, closure_scan) result" where
  "closure_loop checked_sub policy now i [] s = Ok s"
| "closure_loop checked_sub policy now i (row # rows) s =
     (if classify checked_sub policy (created_at (event row)) now = Retained then Err (RowInsideWindow i)
      else case (row_hash_col row, prev_hash_col row) of
        (None, None) \<Rightarrow>
          if first_linked s \<noteq> None then Err (UnlinkedRowAfterLinkedRow i)
          else closure_loop checked_sub policy now (i + 1) rows (s\<lparr>scan_unlinked := scan_unlinked s + 1\<rparr>)
      | (None, Some _) \<Rightarrow> Err (CorruptRow i)
      | (Some recorded, _) \<Rightarrow>
          (let s = (if first_linked s = None then s\<lparr>first_linked := Some (row, recorded)\<rparr> else s)
           in closure_loop checked_sub policy now (i + 1) rows
                (s\<lparr>last_linked := Some (row, recorded), scan_linked := scan_linked s + 1\<rparr>)))"

definition plan_retention_closure :: "time_sub \<Rightarrow> stored_audit_row list \<Rightarrow> retention_policy \<Rightarrow> instant
    \<Rightarrow> u64 \<Rightarrow> instant \<Rightarrow> (retention_closure_error, retention_closure_plan) result" where
  "plan_retention_closure checked_sub rows policy now sequence checkpoint_created =
     (case policy of
        Forever \<Rightarrow> Err NoRetentionWindow
      | Days days \<Rightarrow>
          if rows = [] then Err EmptySelection
          else case closure_loop checked_sub policy now 0 rows
                 \<lparr>scan_unlinked = 0, scan_linked = 0, first_linked = None, last_linked = None\<rparr> of
            Inl e \<Rightarrow> Err e
          | Inr s \<Rightarrow>
              (let checkpoint = (case (first_linked s, last_linked s) of
                     (Some (first_row, first_hash), Some (last_row, last_hash)) \<Rightarrow>
                       Some \<lparr>checkpoint_sequence = sequence, checkpoint_created_at = checkpoint_created,
                         checkpoint_kind = Closure
                           \<lparr>first_event = event_id (event first_row), first_row_hash = first_hash,
                            last_event = event_id (event last_row), last_row_hash = last_hash,
                            event_count = scan_linked s\<rparr> days\<rparr>
                   | _ \<Rightarrow> None)
               in Ok \<lparr>unlinked_rows_deleted = scan_unlinked s, plan_checkpoint = checkpoint\<rparr>))"

section \<open>What the loop computes\<close>

definition outside :: "time_sub \<Rightarrow> retention_policy \<Rightarrow> instant \<Rightarrow> stored_audit_row \<Rightarrow> bool" where
  "outside checked_sub policy now row \<longleftrightarrow>
     classify checked_sub policy (created_at (event row)) now = OutsideWindow"

lemma not_retained: "classify cs p c now \<noteq> Retained \<longleftrightarrow> classify cs p c now = OutsideWindow"
  by (cases "classify cs p c now") simp_all

definition with_hash :: "stored_audit_row \<Rightarrow> stored_audit_row \<times> digest" where
  "with_hash row = (row, the (row_hash_col row))"

text \<open>After the first linked row only rows with a row hash are accepted.\<close>

lemma closure_loop_linked:
  "first_linked s \<noteq> None \<Longrightarrow>
   closure_loop cs p now i rows s = Ok t \<longleftrightarrow>
     (\<forall>r\<in>set rows. outside cs p now r \<and> row_hash_col r \<noteq> None)
     \<and> t = s\<lparr>scan_linked := scan_linked s + of_nat (length rows),
             last_linked := (if rows = [] then last_linked s else Some (with_hash (last rows)))\<rparr>"
proof (induction rows arbitrary: i s)
  case (Cons row rows)
  show ?case
    using Cons.prems
    by (cases "row_hash_col row"; cases "prev_hash_col row"; cases "rows = []")
       (auto simp: Let_def Cons.IH outside_def not_retained with_hash_def add.assoc add.commute)
qed auto

lemma closure_loop_start:
  "first_linked s = None \<Longrightarrow> last_linked s = None \<Longrightarrow>
   closure_loop cs p now i rows s = Ok t \<longleftrightarrow>
     (let old = takeWhile row_unlinked rows; new = dropWhile row_unlinked rows in
      (\<forall>r\<in>set rows. outside cs p now r) \<and> (\<forall>r\<in>set new. row_hash_col r \<noteq> None)
      \<and> t = s\<lparr>scan_unlinked := scan_unlinked s + of_nat (length old),
              scan_linked := scan_linked s + of_nat (length new),
              first_linked := (if new = [] then None else Some (with_hash (hd new))),
              last_linked := (if new = [] then None else Some (with_hash (last new)))\<rparr>)"
proof (induction rows arbitrary: i s)
  case (Cons row rows)
  show ?case
  proof (cases "row_hash_col row")
    case None
    with Cons.prems show ?thesis
      by (cases "prev_hash_col row")
         (auto simp: Let_def Cons.IH row_unlinked_def outside_def not_retained add.assoc add.commute)
  next
    case (Some d)
    with Cons.prems show ?thesis
      by (cases "rows = []")
         (auto simp: Let_def closure_loop_linked row_unlinked_def outside_def not_retained with_hash_def
           add.assoc add.commute)
  qed
next
  case (Nil i s)
  then show ?case by (cases s) auto
qed

definition closure_segment :: "stored_audit_row list \<Rightarrow> chain_segment" where
  "closure_segment new =
     \<lparr>first_event = event_id (event (hd new)), first_row_hash = the (row_hash_col (hd new)),
      last_event = event_id (event (last new)), last_row_hash = the (row_hash_col (last new)),
      event_count = of_nat (length new)\<rparr>"

lemma plan_retention_closure_spec:
  "plan_retention_closure cs rows policy now sq at = Ok plan \<longleftrightarrow>
     (\<exists>days. policy = Days days \<and> rows \<noteq> [] \<and> (\<forall>r\<in>set rows. outside cs policy now r)
      \<and> (\<forall>r\<in>set (dropWhile row_unlinked rows). row_hash_col r \<noteq> None)
      \<and> plan = \<lparr>unlinked_rows_deleted = of_nat (length (takeWhile row_unlinked rows)),
          plan_checkpoint = (if dropWhile row_unlinked rows = [] then None
            else Some \<lparr>checkpoint_sequence = sq, checkpoint_created_at = at,
                       checkpoint_kind = Closure (closure_segment (dropWhile row_unlinked rows)) days\<rparr>)\<rparr>)"
proof (cases policy)
  case (Days days)
  show ?thesis
  proof (cases "closure_loop cs policy now 0 rows
      \<lparr>scan_unlinked = 0, scan_linked = 0, first_linked = None, last_linked = None\<rparr>")
    case (Inl e)
    then have "\<not> ((\<forall>r\<in>set rows. outside cs policy now r)
        \<and> (\<forall>r\<in>set (dropWhile row_unlinked rows). row_hash_col r \<noteq> None))"
      using closure_loop_start [of "\<lparr>scan_unlinked = 0, scan_linked = 0, first_linked = None, last_linked = None\<rparr>"
          cs policy now 0 rows]
      by (auto simp: Let_def)
    with Inl Days show ?thesis by (auto simp: plan_retention_closure_def)
  next
    case (Inr t)
    note loop = Inr [unfolded closure_loop_start [of "\<lparr>scan_unlinked = 0, scan_linked = 0, first_linked = None,
      last_linked = None\<rparr>", simplified]]
    show ?thesis
      using loop Inr Days by (auto simp: plan_retention_closure_def Let_def with_hash_def closure_segment_def)
  qed
qed (simp add: plan_retention_closure_def)

section \<open>An example selection\<close>

definition example_rows :: "stored_audit_row list" where
  "example_rows = [unlinked example_event, link (\<lambda>_. 7) example_event Genesis]"

definition example_rest :: "stored_audit_row list" where
  "example_rest = [link (\<lambda>_. 7) example_event (Linked 7)]"

lemma example_plan:
  "plan_retention_closure (\<lambda>t d. Some (t - d)) example_rows (Days (RetentionDays 1)) (2000 + nanos_per_day) 3 5 =
     Ok \<lparr>unlinked_rows_deleted = 1, plan_checkpoint = Some \<lparr>checkpoint_sequence = 3, checkpoint_created_at = 5,
       checkpoint_kind = Closure (closure_segment [link (\<lambda>_. 7) example_event Genesis]) (RetentionDays 1)\<rparr>\<rparr>"
  by (simp add: plan_retention_closure_spec example_rows_def row_unlinked_def unlinked_def link_def outside_def
      classify_def retention_window_def duration_days_def example_event_def)

section \<open>Properties\<close>

text \<open>The configured number of days is accepted exactly when the trimmed text is a run of ASCII digits
  whose value is positive and fits 32 bits, and it is then that value; only an absent or blank
  setting keeps rows for ever. No malformed setting ever means ``keep for ever'' or another window.\<close>

theorem parse_retention_days_exact:
  "(parse_retention_days raw = Ok (Days d) \<longleftrightarrow>
      (\<exists>text. map_option trim_ecmascript raw = Some text \<and> text \<noteq> [] \<and> list_all is_ascii_digit text
        \<and> 0 < digits_value 0 text \<and> digits_value 0 text = unat (retention_days_get d)))
   \<and> (parse_retention_days raw = Ok Forever \<longleftrightarrow> raw = None \<or> map_option trim_ecmascript raw = Some [])"
proof -
  have days: "retention_days_new (of_nat n) = Some d \<longleftrightarrow> 0 < n \<and> n = unat (retention_days_get d)"
    if "n < 2 ^ 32" for n
  proof -
    have unat: "unat (of_nat n :: u32) = n"
      using that by (simp add: unat_of_nat take_bit_nat_eq_self)
    then have "(of_nat n :: u32) = 0 \<longleftrightarrow> n = 0" 
      by (simp only: unat_eq_0 [symmetric])
    with unat show ?thesis
      by (cases d) (auto simp: retention_days_new_def)
  qed

  show ?thesis
  proof (cases raw)
    case (Some s)
    let ?t = "trim_ecmascript s"
    let ?v = "digits_value 0 ?t"
    have parse: "parse_digits (2 ^ 32) 0 ?t = (if ?v < 2 ^ 32 then Some ?v else None)"
      by (rule parse_digits_eq) simp
    have bound: "?v = unat (retention_days_get d) \<Longrightarrow> ?v < 2 ^ 32"
      using unsigned_less [where ?'a = nat, of "retention_days_get d"] by simp
    have eq: "parse_retention_days raw =
       (if ?t = [] then Ok Forever else if \<not> list_all is_ascii_digit ?t then Err NotAWholeNumber
        else if ?v < 2 ^ 32 then (case retention_days_new (of_nat ?v) of None \<Rightarrow> Err BelowMinimum | Some d \<Rightarrow> Ok (Days d))
        else Err TooLarge)"
      unfolding parse_retention_days_def Some option.map option.case parse by (simp del: power_numeral)
    show ?thesis
    proof (cases "?v < 2 ^ 32")
      case True
      with eq days [OF True] show ?thesis by (auto simp: Some split: option.splits)
    next
      case False
      with bound have "?v \<noteq> unat (retention_days_get d)" by blast
      with False eq show ?thesis by (auto simp: Some)
    qed
  qed (simp add: parse_retention_days_def)
qed

text \<open>The documented behaviour of \<open>OffsetDateTime::checked_sub\<close>, for a smallest instant \<open>low\<close>.\<close>

definition checked_sub_law :: "instant \<Rightarrow> time_sub \<Rightarrow> bool" where
  "checked_sub_law low cs \<longleftrightarrow> (\<forall>t d. 0 \<le> d \<longrightarrow> cs t d = (if low \<le> t - d then Some (t - d) else None))"

text \<open>A row falls outside the window exactly when it is older than the configured number of days and
  the boundary is representable; a row at the boundary is kept, the policy ``for ever'' keeps
  everything, an overflowing boundary keeps everything, and a row once outside the window stays
  outside.\<close>

theorem classify_exact:
  assumes "checked_sub_law low cs"
  shows "(classify cs (Days d) c now = OutsideWindow \<longleftrightarrow>
            low \<le> now - duration_days (retention_days_get d) \<and> c < now - duration_days (retention_days_get d))
    \<and> classify cs Forever c now = Retained
    \<and> (now \<le> later \<longrightarrow> classify cs p c now = OutsideWindow \<longrightarrow> classify cs p c later = OutsideWindow)"
proof -
  have "0 \<le> duration_days n" for n by (simp add: duration_days_def nanos_per_day_def)
  then have "cs t (duration_days n) = (if low \<le> t - duration_days n then Some (t - duration_days n) else None)" for t n
    using assms by (simp add: checked_sub_law_def)
  then show ?thesis
    by (cases p) (auto simp: classify_def retention_window_def)
qed

theorem classify_exact_witness:
  "classify (\<lambda>t d. if -100 \<le> t - d then Some (t - d) else None) (Days (RetentionDays 1)) 5 (6 + nanos_per_day)
     = OutsideWindow"
  using classify_exact [of "-100" "\<lambda>t d. if -100 \<le> t - d then Some (t - d) else None" "RetentionDays 1" 5
      "6 + nanos_per_day"]
  by (simp add: checked_sub_law_def duration_days_def)

text \<open>A closure is planned exactly for a non-empty selection of rows that all lie outside a finite
  window, unlinked ones first and every later one with a row hash; its two counts add up to the
  number of rows, and it carries a checkpoint exactly when a linked row is deleted. No row inside the
  window is ever planned for deletion.\<close>

theorem plan_retention_closure_exact:
  assumes "fits_u64 (length rows)"
  shows "(is_ok (plan_retention_closure cs rows (Days days) now sq at) \<longleftrightarrow>
      rows \<noteq> [] \<and> (\<forall>r\<in>set rows. classify cs (Days days) (created_at (event r)) now = OutsideWindow)
      \<and> (\<exists>old new. rows = old @ new \<and> (\<forall>r\<in>set old. row_unlinked r) \<and> (\<forall>r\<in>set new. row_hash_col r \<noteq> None)))
    \<and> \<not> is_ok (plan_retention_closure cs rows Forever now sq at)
    \<and> (\<forall>plan. plan_retention_closure cs rows (Days days) now sq at = Ok plan \<longrightarrow>
        length rows = unat (unlinked_rows_deleted plan)
          + (case plan_checkpoint plan of None \<Rightarrow> 0 | Some c \<Rightarrow> unat (event_count (segment (checkpoint_kind c))))
        \<and> (plan_checkpoint plan = None \<longleftrightarrow> (\<forall>r\<in>set rows. row_unlinked r)))"
proof (intro conjI)
  let ?old = "takeWhile row_unlinked rows" and ?new = "dropWhile row_unlinked rows"
  have split: "(\<exists>old new. rows = old @ new \<and> (\<forall>r\<in>set old. row_unlinked r) \<and> (\<forall>r\<in>set new. row_hash_col r \<noteq> None))
      \<longleftrightarrow> (\<forall>r\<in>set ?new. row_hash_col r \<noteq> None)"
  proof
    assume "\<exists>old new. rows = old @ new \<and> (\<forall>r\<in>set old. row_unlinked r) \<and> (\<forall>r\<in>set new. row_hash_col r \<noteq> None)"
    then obtain old new where "rows = old @ new" "\<forall>r\<in>set old. row_unlinked r" "\<forall>r\<in>set new. row_hash_col r \<noteq> None"
      by blast
    then show "\<forall>r\<in>set ?new. row_hash_col r \<noteq> None"
      by (simp add: dropWhile_append2) (auto dest: set_dropWhileD)
  next
    assume "\<forall>r\<in>set ?new. row_hash_col r \<noteq> None"
    then show "\<exists>old new. rows = old @ new \<and> (\<forall>r\<in>set old. row_unlinked r) \<and> (\<forall>r\<in>set new. row_hash_col r \<noteq> None)"
      by (intro exI [of _ ?old] exI [of _ ?new]) (auto dest: set_takeWhileD)
  qed
  show "is_ok (plan_retention_closure cs rows (Days days) now sq at) \<longleftrightarrow>
      rows \<noteq> [] \<and> (\<forall>r\<in>set rows. classify cs (Days days) (created_at (event r)) now = OutsideWindow)
      \<and> (\<exists>old new. rows = old @ new \<and> (\<forall>r\<in>set old. row_unlinked r) \<and> (\<forall>r\<in>set new. row_hash_col r \<noteq> None))"
    unfolding split is_ok_iff plan_retention_closure_spec outside_def by simp
  show "\<not> is_ok (plan_retention_closure cs rows Forever now sq at)"
    by (simp add: plan_retention_closure_def)
  have len: "length ?old + length ?new = length rows"
    by (metis length_append takeWhile_dropWhile_id)
  have "unat (of_nat n :: u64) = n" if "n \<le> length rows" for n
    using assms that by (simp add: fits_u64_def unat_of_nat take_bit_nat_eq_self)
  with len show "\<forall>plan. plan_retention_closure cs rows (Days days) now sq at = Ok plan \<longrightarrow>
        length rows = unat (unlinked_rows_deleted plan)
          + (case plan_checkpoint plan of None \<Rightarrow> 0 | Some c \<Rightarrow> unat (event_count (segment (checkpoint_kind c))))
        \<and> (plan_checkpoint plan = None \<longleftrightarrow> (\<forall>r\<in>set rows. row_unlinked r))"
    by (auto simp: plan_retention_closure_spec closure_segment_def dropWhile_eq_Nil_conv takeWhile_eq_all_conv [THEN iffD2]
        split: if_splits)
qed

theorem plan_retention_closure_exact_witness:
  "is_ok (plan_retention_closure (\<lambda>t d. Some (t - d)) example_rows (Days (RetentionDays 1)) (2000 + nanos_per_day) 3 5)
   \<and> (\<exists>old new. example_rows = old @ new \<and> (\<forall>r\<in>set old. row_unlinked r) \<and> (\<forall>r\<in>set new. row_hash_col r \<noteq> None))"
  using plan_retention_closure_exact [of example_rows "\<lambda>t d. Some (t - d)" "RetentionDays 1" "2000 + nanos_per_day" 3 5]
    example_plan
  by (simp add: example_rows_def fits_u64_def)

text \<open>C3: Deleting what a closure was planned for leaves a verifiable chain: if the whole table verifies
  from its start, the rows that remain verify from the last digest the closure checkpoint records,
  with the deleted linked rows as the difference of the counts and the same head.\<close>

theorem closure_keeps_chain_verifiable:
  assumes "verify_chain H (rows @ rest) ChainStart = Intact u n tip"
    and "plan_retention_closure cs rows policy now sq at = Ok plan"
    and "plan_checkpoint plan = Some c"
    and "fits_u64 (length rows)"
  shows "verify_chain H rest (ContinuingFrom (last_row_hash (segment (checkpoint_kind c)))) =
      Intact 0 (n - unat (event_count (segment (checkpoint_kind c)))) (if rest = [] then None else tip)
    \<and> unat (unlinked_rows_deleted plan) = u"
proof -
  let ?old = "takeWhile row_unlinked rows" and ?new = "dropWhile row_unlinked rows"
  have new: "?new \<noteq> []" and seg: "segment (checkpoint_kind c) = closure_segment ?new"
    and hashes: "\<forall>r\<in>set ?new. row_hash_col r \<noteq> None"
    and deleted: "unlinked_rows_deleted plan = of_nat (length ?old)"
    using assms(2,3) by (auto simp: plan_retention_closure_spec split: if_splits)
  obtain r where r: "r \<in> set rows" "\<not> row_unlinked r"
    using new by (metis dropWhile_eq_Nil_conv)
  have rows: "takeWhile row_unlinked (rows @ rest) = ?old" "dropWhile row_unlinked (rows @ rest) = ?new @ rest"
    using r by (simp_all add: takeWhile_append1 dropWhile_append1)
  have last: "row_hash_col (last ?new) = Some (last_row_hash (closure_segment ?new))"
    using hashes new by (auto simp: closure_segment_def)
  have nat: "unat (of_nat m :: u64) = m" if "m \<le> length rows" for m
    using assms(4) that by (simp add: fits_u64_def unat_of_nat take_bit_nat_eq_self)
  have lens: "length ?old \<le> length rows" "length ?new \<le> length rows"
    by (simp_all add: length_takeWhile_le length_dropWhile_le)
  have "linked_from H (Some (last_row_hash (closure_segment ?new))) rest"
    using assms(1) r last
    by (auto simp: verify_chain_intact_iff chained_rows_def rows linked_from_append end_hash_def split: if_splits)
  then show ?thesis
    using assms(1) r lens
    by (auto simp: verify_chain_intact_iff chained_rows_def unlinked_rows_def anchor_prev_def rows seg deleted nat
        closure_segment_def end_hash_def)
qed

theorem closure_keeps_chain_verifiable_witness:
  "verify_chain (\<lambda>_. 7) (example_rows @ example_rest) ChainStart = Intact 1 2 (Some 7)
   \<and> verify_chain (\<lambda>_. 7) example_rest (ContinuingFrom 7) = Intact 0 1 (Some 7)"
proof
  show whole: "verify_chain (\<lambda>_. 7) (example_rows @ example_rest) ChainStart = Intact 1 2 (Some 7)"
    by (simp add: example_rows_def example_rest_def verify_chain_def link_def unlinked_def row_hash_eq)
  have "fits_u64 (length example_rows)" "example_rest \<noteq> []"
    by (simp_all add: fits_u64_def example_rows_def example_rest_def)
  with closure_keeps_chain_verifiable [OF whole example_plan]
  show "verify_chain (\<lambda>_. 7) example_rest (ContinuingFrom 7) = Intact 0 1 (Some 7)"
    by (simp add: closure_segment_def link_def row_hash_eq)
qed

end
