(* ===== verification/ToolArgs.thy ===== *)
theory ToolArgs
  imports StdModel Canonical
begin

text \<open>
  Tool arguments and their canonical bytes, \<open>crates/openbot-domain/src/tool/args.rs\<close>. The hash of the
  arguments is what an approval and an audit row refer to; the claims say that the bytes determine the
  JSON value up to the order of object keys, and nothing more or less. \<open>json_len\<close> is the length of
  \<open>serde_json\<close>'s rendering, an argument.
\<close>

definition tool_args_domain :: string where
  "tool_args_domain = ''openbot.tool.args.v1''"

definition tag_null :: u8 where "tag_null = 0"
definition tag_false :: u8 where "tag_false = 1"
definition tag_true :: u8 where "tag_true = 2"
definition tag_number_u64 :: u8 where "tag_number_u64 = 3"
definition tag_number_i64 :: u8 where "tag_number_i64 = 4"
definition tag_number_f64 :: u8 where "tag_number_f64 = 5"
definition tag_string :: u8 where "tag_string = 6"
definition tag_array :: u8 where "tag_array = 7"
definition tag_object :: u8 where "tag_object = 8"

lemmas tag_defs = tag_null_def tag_false_def tag_true_def tag_number_u64_def tag_number_i64_def
  tag_number_f64_def tag_string_def tag_array_def tag_object_def

text \<open>\<open>number.as_f64().unwrap_or(0.0).to_bits()\<close>; it is reached for the float representation only.\<close>

fun f64_bits :: "json_number \<Rightarrow> u64" where
  "f64_bits (Float bits) = bits"
| "f64_bits (PosInt _) = 0"
| "f64_bits (NegInt _) = 0"

definition write_number :: "json_number \<Rightarrow> canonical_writer \<Rightarrow> canonical_writer" where
  "write_number n w =
     (case as_u64 n of
        Some un \<Rightarrow> writer_u64 un (writer_tag tag_number_u64 w)
      | None \<Rightarrow>
          (case as_i64 n of
             Some sn \<Rightarrow> writer_i128 (scast sn) (writer_tag tag_number_i64 w)
           | None \<Rightarrow> writer_u64 (f64_bits n) (writer_tag tag_number_f64 w)))"

lemma map_of_size:
  assumes "k \<in> fst ` set m"
  shows "size (the (map_of m k)) \<le> size_list (size_prod (\<lambda>x. 0) size) m"
proof -
  from assms obtain v where v: "map_of m k = Some v" by (metis map_of_eq_None_iff not_None_eq)
  then have "(k, v) \<in> set m" by (rule map_of_SomeD)
  then have "size v \<le> size_list (size_prod (\<lambda>x. 0) size) m"
    by (rule size_list_estimation') simp
  with v show ?thesis by simp
qed

text \<open>\<open>write_value\<close>: the keys are sorted, each is written with the value the map holds for it.\<close>

function (sequential) write_value :: "json \<Rightarrow> canonical_writer \<Rightarrow> canonical_writer" where
  "write_value JNull w = writer_tag tag_null w"
| "write_value (JBool False) w = writer_tag tag_false w"
| "write_value (JBool True) w = writer_tag tag_true w"
| "write_value (JNumber n) w = write_number n w"
| "write_value (JString text) w = writer_str text (writer_tag tag_string w)"
| "write_value (JArray items) w =
     (let w = writer_u64 (of_nat (length items)) (writer_tag tag_array w) in
      fold (\<lambda>item w. write_value item w) items w)"
| "write_value (JObject m) w =
     (let w = writer_u64 (of_nat (length m)) (writer_tag tag_object w);
          keys = sort (map fst m) in
      fold (\<lambda>key w. write_value (the (map_of m key)) (writer_str key w)) keys w)"
  by pat_completeness auto
termination
  by (relation "measure (\<lambda>(v, w). size v)") (force simp: size_list_estimation' less_Suc_eq_le intro: map_of_size)+

record tool_arguments =
  args_value :: json
  args_byte_len :: nat

datatype tool_arguments_error = NotAnObject

definition tool_arguments_new :: "(json \<Rightarrow> nat) \<Rightarrow> json \<Rightarrow> (tool_arguments_error, tool_arguments) result" where
  "tool_arguments_new json_len v =
     (if \<not> is_object v then Err NotAnObject
      else Ok \<lparr>args_value = v, args_byte_len = json_len v\<rparr>)"

definition args_canonical_bytes :: "tool_arguments \<Rightarrow> bytes" where
  "args_canonical_bytes a = writer_finish (write_value (args_value a) (writer_new tool_args_domain))"

definition args_canonical_hash :: "(bytes \<Rightarrow> digest) \<Rightarrow> tool_arguments \<Rightarrow> digest" where
  "args_canonical_hash H a = digest_of_written H (write_value (args_value a) (writer_new tool_args_domain))"

section \<open>The encoding\<close>

definition enc_number :: "json_number \<Rightarrow> bytes" where
  "enc_number n =
     (case as_u64 n of
        Some un \<Rightarrow> enc_tag tag_number_u64 @ enc_u64 un
      | None \<Rightarrow>
          (case as_i64 n of
             Some sn \<Rightarrow> enc_tag tag_number_i64 @ enc_i128 (scast sn)
           | None \<Rightarrow> enc_tag tag_number_f64 @ enc_u64 (f64_bits n)))"

function (sequential) enc_json :: "json \<Rightarrow> bytes" where
  "enc_json JNull = enc_tag tag_null"
| "enc_json (JBool False) = enc_tag tag_false"
| "enc_json (JBool True) = enc_tag tag_true"
| "enc_json (JNumber n) = enc_number n"
| "enc_json (JString text) = enc_tag tag_string @ enc_str text"
| "enc_json (JArray items) =
     enc_tag tag_array @ enc_u64 (of_nat (length items)) @ concat (map (\<lambda>item. enc_json item) items)"
| "enc_json (JObject m) =
     enc_tag tag_object @ enc_u64 (of_nat (length m))
     @ concat (map (\<lambda>key. enc_str key @ enc_json (the (map_of m key))) (sort (map fst m)))"
  by pat_completeness auto
termination
  by (relation "measure size") (force simp: size_list_estimation' less_Suc_eq_le intro: map_of_size)+

lemma fold_appends:
  assumes "\<And>x w. x \<in> set xs \<Longrightarrow> buffer (f x w) = buffer w @ g x"
  shows "buffer (fold f xs w) = buffer w @ concat (map g xs)"
  using assms by (induction xs arbitrary: w) simp_all

lemma write_value_appends: "buffer (write_value v w) = buffer w @ enc_json v"
proof (induction v w rule: write_value.induct)
  case (4 n w)
  then show ?case
    by (simp add: write_number_def enc_number_def codec_simps split: option.splits)
next
  case (6 items w)
  then show ?case by (simp add: Let_def fold_appends codec_simps)
next
  case (7 m w)
  have "buffer (fold (\<lambda>key w. write_value (the (map_of m key)) (writer_str key w)) (sort (map fst m)) w')
      = buffer w' @ concat (map (\<lambda>key. enc_str key @ enc_json (the (map_of m key))) (sort (map fst m)))" for w'
    by (rule fold_appends) (use 7 in \<open>auto simp: codec_simps\<close>)
  then show ?case by (simp add: Let_def codec_simps)
qed (simp_all add: codec_simps)

section \<open>Equality up to the order of keys\<close>

inductive json_same :: "json \<Rightarrow> json \<Rightarrow> bool" where
  same_null: "json_same JNull JNull"
| same_bool: "json_same (JBool b) (JBool b)"
| same_number: "json_same (JNumber n) (JNumber n)"
| same_string: "json_same (JString s) (JString s)"
| same_array: "list_all2 json_same xs ys \<Longrightarrow> json_same (JArray xs) (JArray ys)"
| same_object: "(\<forall>k. rel_option json_same (map_of m k) (map_of n k)) \<Longrightarrow> json_same (JObject m) (JObject n)"
  monos option.rel_mono_strong

text \<open>What \<open>serde_json\<close> guarantees of a value: lengths below \<open>2\<^sup>6\<^sup>4\<close>, one entry per key, and the negative
  representation holds negative numbers only.\<close>

fun json_ok :: "json \<Rightarrow> bool" where
  "json_ok (JString s) \<longleftrightarrow> str_ok s"
| "json_ok (JArray xs) \<longleftrightarrow> fits_u64 (length xs) \<and> (\<forall>x\<in>set xs. json_ok x)"
| "json_ok (JObject m) \<longleftrightarrow> fits_u64 (length m) \<and> distinct (map fst m)
     \<and> (\<forall>(k, v)\<in>set m. str_ok k \<and> json_ok v)"
| "json_ok _ \<longleftrightarrow> True"

lemma scast_i128_inject: "(scast (v :: i64) :: i128) = scast w \<longleftrightarrow> v = w"
proof
  assume "(scast v :: i128) = scast w"
  then have "(scast (scast v :: i128) :: i64) = scast (scast w :: i128)" by simp
  then show "v = w" by (simp add: scast_up_scast_id is_up)
qed simp

lemma enc_number_prefix_free:
  "enc_number m @ r = enc_number n @ s \<Longrightarrow> m = n \<and> r = s"
  by (cases m; cases n) (auto simp: enc_number_def codec_cancel tag_defs scast_i128_inject split: if_splits)


lemma concat_map_prefix_free:
  assumes "length xs = length ys"
    and "\<And>x y r s. x \<in> set xs \<Longrightarrow> y \<in> set ys \<Longrightarrow> enc x @ r = enc' y @ s \<Longrightarrow> R x y \<and> r = s"
    and "concat (map enc xs) @ r = concat (map enc' ys) @ s"
  shows "list_all2 R xs ys \<and> r = s"
  using assms
proof (induction xs ys arbitrary: r s rule: list_induct2)
  case (Cons x xs y ys)
  have "R x y \<and> concat (map enc xs) @ r = concat (map enc' ys) @ s"
    using Cons.prems(2) by (intro Cons.prems(1)) simp_all
  then have head: "R x y" and rest: "concat (map enc xs) @ r = concat (map enc' ys) @ s" by simp_all
  have "list_all2 R xs ys \<and> r = s"
  proof (rule Cons.IH [OF _ rest])
    fix x' y' r s assume "x' \<in> set xs" "y' \<in> set ys" "enc x' @ r = enc' y' @ s"
    then show "R x' y' \<and> r = s" by (intro Cons.prems(1)) simp_all
  qed
  with head show ?case by simp
qed simp

lemma list_all2_diagonal:
  "list_all2 (\<lambda>k l. k = l \<and> R k l) xs ys \<Longrightarrow> xs = ys \<and> (\<forall>k\<in>set xs. R k k)"
  by (induction rule: list_all2_induct) auto

lemma json_ok_lookup:
  assumes "json_ok (JObject m)" "k \<in> set (sort (map fst m))"
  shows "str_ok k \<and> json_ok (the (map_of m k)) \<and> (k, the (map_of m k)) \<in> set m"
proof -
  from assms(2) obtain v where v: "map_of m k = Some v"
    by (metis map_of_eq_None_iff not_None_eq set_map set_sort)
  then have "(k, v) \<in> set m" by (rule map_of_SomeD)
  with assms(1) v show ?thesis by auto
qed

lemma object_same_iff:
  assumes "json_ok (JObject m)" "json_ok (JObject n)"
  shows "json_same (JObject m) (JObject n) \<longleftrightarrow>
    sort (map fst m) = sort (map fst n)
    \<and> (\<forall>k\<in>set (map fst m). json_same (the (map_of m k)) (the (map_of n k)))"
proof
  assume "json_same (JObject m) (JObject n)"
  then have rel: "\<forall>k. rel_option json_same (map_of m k) (map_of n k)" by (cases) auto
  then have none: "map_of m k = None \<longleftrightarrow> map_of n k = None" for k
    by (metis option.rel_distinct(1) option.rel_distinct(2) option.exhaust)
  then have "set (map fst m) = set (map fst n)"
    by (auto simp: map_of_eq_None_iff set_eq_iff)
  then have "sort (map fst m) = sort (map fst n)"
    using assms by (intro sorted_distinct_set_unique) simp_all
  moreover have "json_same (the (map_of m k)) (the (map_of n k))" if "k \<in> set (map fst m)" for k
    using rel [rule_format, of k] that by (cases "map_of m k"; cases "map_of n k") (auto simp: map_of_eq_None_iff)
  ultimately show "sort (map fst m) = sort (map fst n)
      \<and> (\<forall>k\<in>set (map fst m). json_same (the (map_of m k)) (the (map_of n k)))" by blast
next
  assume r: "sort (map fst m) = sort (map fst n)
      \<and> (\<forall>k\<in>set (map fst m). json_same (the (map_of m k)) (the (map_of n k)))"
  then have keys: "fst ` set m = fst ` set n" by (metis set_sort set_map)
  have "rel_option json_same (map_of m k) (map_of n k)" for k
  proof (cases "k \<in> fst ` set m")
    case True
    with keys have "map_of m k \<noteq> None" "map_of n k \<noteq> None" by (simp_all add: map_of_eq_None_iff)
    with r True show ?thesis by auto
  next
    case False
    with keys have "map_of m k = None" "map_of n k = None" by (simp_all add: map_of_eq_None_iff)
    then show ?thesis by simp
  qed
  then show "json_same (JObject m) (JObject n)" by (blast intro: same_object)
qed

lemma enc_json_prefix_free:
  assumes "json_ok a" "json_ok b" "enc_json a @ r = enc_json b @ s"
  shows "json_same a b \<and> r = s"
  using assms
proof (induction a arbitrary: b r s)
  case JNull
  then show ?case
    by (cases b rule: enc_json.cases) (auto simp: codec_cancel tag_defs enc_number_def intro: json_same.intros split: option.splits)
next
  case (JBool x)
  then show ?case
    by (cases x; cases b rule: enc_json.cases) (auto simp: codec_cancel tag_defs enc_number_def intro: json_same.intros split: option.splits)
next
  case (JNumber x)
  show ?case
  proof (cases b)
    case (JNumber y)
    with JNumber.prems enc_number_prefix_free [of x r y s] show ?thesis by (auto intro: json_same.intros)
  qed (use JNumber.prems in \<open>cases b rule: enc_json.cases;
      auto simp: codec_cancel tag_defs enc_number_def split: option.splits\<close>)+
next
  case (JString x)
  then show ?case
    by (cases b rule: enc_json.cases) (auto simp: codec_cancel tag_defs enc_number_def intro: json_same.intros split: option.splits)
next
  case (JArray xs)
  from JArray.prems obtain ys where b: "b = JArray ys"
    by (cases b rule: enc_json.cases) (auto simp: codec_cancel tag_defs enc_number_def split: option.splits)
  with JArray.prems have len: "length xs = length ys"
    and body: "concat (map enc_json xs) @ r = concat (map enc_json ys) @ s"
    by (auto simp: codec_cancel length_word_inject)
  have "list_all2 json_same xs ys \<and> r = s"
    by (rule concat_map_prefix_free [OF len _ body]) (use JArray b in auto)
  with b show ?case by (auto intro: json_same.intros)
next
  case (JObject m)
  from JObject.prems obtain n where b: "b = JObject n"
    by (cases b rule: enc_json.cases) (auto simp: codec_cancel tag_defs enc_number_def split: option.splits)
  let ?ms = "sort (map fst m)" and ?ns = "sort (map fst n)"
  let ?enc = "\<lambda>m key. enc_str key @ enc_json (the (map_of m key))"
  from JObject.prems b have len: "length ?ms = length ?ns"
    and body: "concat (map (?enc m) ?ms) @ r = concat (map (?enc n) ?ns) @ s"
    by (auto simp: codec_cancel length_word_inject)
  have "list_all2 (\<lambda>k l. k = l \<and> json_same (the (map_of m k)) (the (map_of n l))) ?ms ?ns \<and> r = s"
  proof (rule concat_map_prefix_free [OF len _ body])
    fix k l r s assume k: "k \<in> set ?ms" and l: "l \<in> set ?ns" and eq: "?enc m k @ r = ?enc n l @ s"
    note ok = json_ok_lookup [OF JObject.prems(1) k] json_ok_lookup [OF JObject.prems(2) [unfolded b] l]
    from eq ok have "k = l" "enc_json (the (map_of m k)) @ r = enc_json (the (map_of n l)) @ s"
      by (auto simp: codec_cancel)
    with ok JObject.IH [of "(k, the (map_of m k))" "the (map_of m k)"]
    show "(k = l \<and> json_same (the (map_of m k)) (the (map_of n l))) \<and> r = s" by auto
  qed
  then have "?ms = ?ns" "\<forall>k\<in>set ?ms. json_same (the (map_of m k)) (the (map_of n k))" "r = s"
    using list_all2_diagonal [of "\<lambda>k l. json_same (the (map_of m k)) (the (map_of n l))" ?ms ?ns] by blast+
  then have "json_same (JObject m) (JObject n)"
    using object_same_iff [OF JObject.prems(1) JObject.prems(2) [unfolded b]] set_sort [of "\<lambda>x. x" "map fst m"] by blast
  with b \<open>r = s\<close> show ?case by simp
qed

lemma enc_json_same:
  assumes "json_same a b" "json_ok a" "json_ok b"
  shows "enc_json a = enc_json b"
  using assms
proof (induction a arbitrary: b)
  case (JArray xs)
  from JArray.prems(1) obtain ys where b: "b = JArray ys" "list_all2 json_same xs ys" by cases auto
  then have "map enc_json xs = map enc_json ys"
    using JArray.prems(2,3) JArray.IH
    by (intro nth_equalityI) (auto simp: list_all2_conv_all_nth)
  with b show ?case by (simp add: list_all2_lengthD)
next
  case (JObject m)
  from JObject.prems(1) obtain n where b: "b = JObject n" by cases auto
  note same = object_same_iff [OF JObject.prems(2) JObject.prems(3) [unfolded b], THEN iffD1, OF JObject.prems(1) [unfolded b]]
  have "enc_json (the (map_of m k)) = enc_json (the (map_of n k))" if k: "k \<in> set (sort (map fst m))" for k
  proof -
    have "k \<in> set (sort (map fst n))" using k same by simp
    with json_ok_lookup [OF JObject.prems(2) k] json_ok_lookup [OF JObject.prems(3) [unfolded b]] same k
    show ?thesis
      using JObject.IH [of "(k, the (map_of m k))" "the (map_of m k)" "the (map_of n k)"] by auto
  qed
  moreover have "length m = length n" using same by (metis length_map length_sort)
  ultimately show ?case
    using same b by (auto intro!: arg_cong [of _ _ concat] map_cong)
qed (auto elim: json_same.cases)

section \<open>Properties\<close>

text \<open>C15: The canonical bytes of tool arguments determine the JSON value up to the order of object keys:
  two argument objects have the same bytes exactly when they are equal as JSON, at every depth, and
  then the same hash; two different ones with the same hash exhibit a collision. So an approval bound
  to the hash is bound to the value.\<close>

theorem args_canonical_exact:
  assumes "json_ok (args_value a)" "json_ok (args_value b)"
  shows "(args_canonical_bytes a = args_canonical_bytes b \<longleftrightarrow> json_same (args_value a) (args_value b))
    \<and> (json_same (args_value a) (args_value b) \<longrightarrow> args_canonical_hash H a = args_canonical_hash H b)
    \<and> (args_canonical_hash H a = args_canonical_hash H b \<longrightarrow>
         json_same (args_value a) (args_value b) \<or> collision H (args_canonical_bytes a) (args_canonical_bytes b))"
proof -
  have bytes: "args_canonical_bytes x = enc_str tool_args_domain @ enc_json (args_value x)" for x
    by (simp add: args_canonical_bytes_def writer_finish_def write_value_appends codec_simps)
  have hash: "args_canonical_hash H x = H (args_canonical_bytes x)" for x
    by (simp add: args_canonical_hash_def args_canonical_bytes_def digest_of_written_def writer_finish_def)
  have "args_canonical_bytes a = args_canonical_bytes b \<longleftrightarrow> json_same (args_value a) (args_value b)"
    using enc_json_prefix_free [OF assms, of "[]" "[]"] enc_json_same [OF _ assms] by (auto simp: bytes)
  then show ?thesis
    by (auto simp: hash collision_def)
qed

theorem args_canonical_exact_witness:
  "args_canonical_bytes \<lparr>args_value = JObject [(''a'', JNull), (''b'', JArray [JBool True])], args_byte_len = 9\<rparr>
     = args_canonical_bytes \<lparr>args_value = JObject [(''b'', JArray [JBool True]), (''a'', JNull)], args_byte_len = 9\<rparr>"
proof -
  let ?a = "\<lparr>args_value = JObject [(''a'', JNull), (''b'', JArray [JBool True])], args_byte_len = 9\<rparr>"
  let ?b = "\<lparr>args_value = JObject [(''b'', JArray [JBool True]), (''a'', JNull)], args_byte_len = 9\<rparr>"
  have "json_ok (args_value ?a)" "json_ok (args_value ?b)" by (simp_all add: fits_u64_def)
  from args_canonical_exact [OF this] show ?thesis
    by (auto intro!: json_same.intros)
qed

end
