(* ===== verification/ToolMetadata.thy ===== *)
theory ToolMetadata
  imports StdModel Canonical
begin

text \<open>
  Tool metadata and commit states, \<open>crates/openbot-domain/src/tool/metadata.rs\<close> and
  \<open>crates/openbot-domain/src/tool/commit.rs\<close>: effects and their fail-closed classification, the validated
  newtypes, \<open>ToolMetadata::validate\<close>, and whether an interrupted call may be replayed.
\<close>

section \<open>Effects\<close>

datatype effect = Read | Write | Execute | Network | Credential

fun effect_str :: "effect \<Rightarrow> string" where
  "effect_str Read = ''read''"
| "effect_str Write = ''write''"
| "effect_str Execute = ''execute''"
| "effect_str Network = ''network''"
| "effect_str Credential = ''credential''"

fun is_acting :: "effect \<Rightarrow> bool" where
  "is_acting Read = False"
| "is_acting Write = True"
| "is_acting Execute = True"
| "is_acting Network = True"
| "is_acting Credential = True"

definition all_effects :: "effect list" where
  "all_effects = [Read, Write, Execute, Network, Credential]"

definition unrecognized_effect_fallback :: effect where
  "unrecognized_effect_fallback = Execute"

datatype effect_source = Declared | DowngradedFromUnrecognized

record effect_classification =
  class_effect :: effect
  class_source :: effect_source

definition effect_classify :: "string \<Rightarrow> effect_classification" where
  "effect_classify declared =
     (case find (\<lambda>e. effect_str e = declared) all_effects of
        Some e \<Rightarrow> \<lparr>class_effect = e, class_source = Declared\<rparr>
      | None \<Rightarrow> \<lparr>class_effect = unrecognized_effect_fallback, class_source = DowngradedFromUnrecognized\<rparr>)"

definition effect_declared :: "effect \<Rightarrow> effect_classification" where
  "effect_declared e = \<lparr>class_effect = e, class_source = Declared\<rparr>"

definition was_downgraded :: "effect_classification \<Rightarrow> bool" where
  "was_downgraded c \<longleftrightarrow> class_source c = DowngradedFromUnrecognized"

section \<open>The other dimensions of a tool\<close>

datatype idempotency = Idempotent | Keyed | NonIdempotent
datatype approval_class = NotRequired | OncePerRun | EveryCall
datatype sandbox_requirement = SandboxNone | SandboxRequired | RequiredNoEgress

fun requires_human_approval :: "approval_class \<Rightarrow> bool" where
  "requires_human_approval NotRequired = False"
| "requires_human_approval OncePerRun = True"
| "requires_human_approval EveryCall = True"

record tool_limits =
  max_input_bytes :: u32
  max_output_bytes :: u32
  max_model_visible_bytes :: u32

datatype tool_metadata_error =
    EmptyToolName
  | ToolNameTooLong nat
  | ToolNameHasIllegalCharacter
  | EmptyResourceLockKey
  | ResourceLockKeyTooLong nat
  | ZeroTimeout
  | ZeroLimit
  | ModelVisibleLimitExceedsOutputLimit

datatype resource_lock_key = ResourceLockKey (lock_key_str: string)

definition resource_lock_key_new :: "string \<Rightarrow> (tool_metadata_error, resource_lock_key) result" where
  "resource_lock_key_new v =
     (if v = [] then Err EmptyResourceLockKey
      else if length v > 256 then Err (ResourceLockKeyTooLong (length v))
      else Ok (ResourceLockKey v))"

datatype tool_name = ToolName (tool_name_str: string)

definition tool_name_max_bytes :: nat where
  "tool_name_max_bytes = 128"

definition tool_name_byte :: "char \<Rightarrow> bool" where
  "tool_name_byte c \<longleftrightarrow> is_ascii_alphanumeric c \<or> c \<in> {CHR ''_'', CHR ''-'', CHR ''.''}"

definition tool_name_new :: "string \<Rightarrow> (tool_metadata_error, tool_name) result" where
  "tool_name_new v =
     (if v = [] then Err EmptyToolName
      else if length v > tool_name_max_bytes then Err (ToolNameTooLong (length v))
      else if \<not> list_all tool_name_byte v then Err ToolNameHasIllegalCharacter
      else Ok (ToolName v))"

record tool_metadata =
  meta_name :: tool_name
  schema_hash :: digest
  catalog_generation :: u64
  meta_effect :: effect_classification
  meta_idempotency :: idempotency
  parallel_safe :: bool
  tool_timeout :: nat \<comment> \<open>\<open>core::time::Duration\<close>, unsigned nanoseconds\<close>
  meta_approval_class :: approval_class
  sandbox :: sandbox_requirement
  limits :: tool_limits
  resource_locks :: "resource_lock_key list"

definition tool_metadata_validate :: "tool_metadata \<Rightarrow> (tool_metadata_error, unit) result" where
  "tool_metadata_validate m =
     (if tool_timeout m = 0 then Err ZeroTimeout
      else if max_input_bytes (limits m) = 0 \<or> max_output_bytes (limits m) = 0 then Err ZeroLimit
      else if max_model_visible_bytes (limits m) > max_output_bytes (limits m)
        then Err ModelVisibleLimitExceedsOutputLimit
      else Ok ())"

section \<open>Commit states and replay\<close>

datatype commit_state = Committed | NotCommitted | CommitUnknown

fun commit_state_str :: "commit_state \<Rightarrow> string" where
  "commit_state_str Committed = ''committed''"
| "commit_state_str NotCommitted = ''not_committed''"
| "commit_state_str CommitUnknown = ''unknown''"

definition requires_reconciliation :: "commit_state \<Rightarrow> bool" where
  "requires_reconciliation c \<longleftrightarrow> c = CommitUnknown"

datatype idempotency_key = IdempotencyKey (idempotency_key_str: string)

definition idempotency_key_new :: "string \<Rightarrow> idempotency_key option" where
  "idempotency_key_new v = (if v = [] then None else Some (IdempotencyKey v))"

record replay_request =
  replay_commit_state :: commit_state
  replay_idempotency :: idempotency
  replay_key :: "idempotency_key option"

datatype no_replay_reason = NonIdempotentUnknownCommit | KeyedWithoutIdempotencyKey
datatype replay_judgement = NoReplayNeeded | SafeToReplay | MustNotReplay no_replay_reason

definition judge_replay :: "replay_request \<Rightarrow> replay_judgement" where
  "judge_replay r =
     (case replay_commit_state r of
        Committed \<Rightarrow> NoReplayNeeded
      | NotCommitted \<Rightarrow> SafeToReplay
      | CommitUnknown \<Rightarrow>
          (case replay_idempotency r of
             Idempotent \<Rightarrow> SafeToReplay
           | Keyed \<Rightarrow> if replay_key r \<noteq> None then SafeToReplay else MustNotReplay KeyedWithoutIdempotencyKey
           | NonIdempotent \<Rightarrow> MustNotReplay NonIdempotentUnknownCommit))"

section \<open>Replaying a call\<close>

text \<open>
  What a replay does to the outside world, counted: a call that was committed took effect once; a replay
  takes effect again unless the tool is idempotent or it carries the key of the first attempt. The
  fate of an unknown commit is either.
\<close>

definition effects_after_replay :: "idempotency \<Rightarrow> idempotency_key option \<Rightarrow> bool \<Rightarrow> nat" where
  "effects_after_replay idem key took_effect =
     (if \<not> took_effect then 1
      else if idem = Idempotent \<or> idem = Keyed \<and> key \<noteq> None then 1 else 2)"

definition possible_fates :: "commit_state \<Rightarrow> bool set" where
  "possible_fates c = (case c of Committed \<Rightarrow> {True} | NotCommitted \<Rightarrow> {False} | CommitUnknown \<Rightarrow> {True, False})"

text \<open>A replay is judged safe exactly when the call has not certainly taken effect and, whatever the
  fate of the first attempt was, replaying takes effect exactly once; it is refused exactly when some
  possible fate would take effect twice.\<close>

theorem judge_replay_exactly_once:
  "(judge_replay r = SafeToReplay \<longleftrightarrow>
      replay_commit_state r \<noteq> Committed
      \<and> (\<forall>fate\<in>possible_fates (replay_commit_state r).
           effects_after_replay (replay_idempotency r) (replay_key r) fate = 1))
   \<and> ((\<exists>reason. judge_replay r = MustNotReplay reason) \<longleftrightarrow>
      replay_commit_state r \<noteq> Committed
      \<and> (\<exists>fate\<in>possible_fates (replay_commit_state r).
           effects_after_replay (replay_idempotency r) (replay_key r) fate = 2))"
  by (cases "replay_commit_state r"; cases "replay_idempotency r")
     (auto simp: judge_replay_def possible_fates_def effects_after_replay_def)

theorem judge_replay_exactly_once_witness:
  "judge_replay \<lparr>replay_commit_state = CommitUnknown, replay_idempotency = Keyed, replay_key = None\<rparr>
     \<noteq> SafeToReplay"
  using judge_replay_exactly_once
    [of "\<lparr>replay_commit_state = CommitUnknown, replay_idempotency = Keyed, replay_key = None\<rparr>"]
  by (simp add: possible_fates_def effects_after_replay_def)

text \<open>Effect classification fails closed: exactly the five declared names are taken at their word and
  every other text is classified as an acting effect and marked as downgraded; only the name
  \<open>read\<close> is ever treated as not acting.\<close>

theorem effect_classify_fails_closed:
  "(was_downgraded (effect_classify s) \<longleftrightarrow> s \<notin> effect_str ` set all_effects)
   \<and> (\<not> was_downgraded (effect_classify s) \<longrightarrow> effect_str (class_effect (effect_classify s)) = s)
   \<and> (is_acting (class_effect (effect_classify s)) \<longleftrightarrow> s \<noteq> ''read'')"
  by (auto simp: effect_classify_def all_effects_def was_downgraded_def unrecognized_effect_fallback_def)

theorem effect_classify_fails_closed_witness:
  "is_acting (class_effect (effect_classify ''Read''))
   \<and> effect_str (class_effect (effect_classify ''network'')) = ''network''"
  using effect_classify_fails_closed [of "''Read''"] effect_classify_fails_closed [of "''network''"]
  by (simp add: effect_classify_def all_effects_def was_downgraded_def)

end
