(* ===== verification/ToolApproval.thy ===== *)
theory ToolApproval
  imports ToolMetadata
begin

text \<open>
  What a human approval is bound to and when it stops being valid,
  \<open>crates/openbot-domain/src/tool/approval.rs\<close>.
\<close>

record approval_target =
  target_kind_label :: string
  target_ident :: string

datatype policy_version_tag = PolicyVersionTag (policy_version_str: string)

record approval_binding =
  bound_actor :: string
  bound_auth_generation :: u64
  bound_bot :: string
  bound_run :: string
  bound_tool :: tool_name
  bound_args_hash :: digest
  bound_target :: approval_target
  bound_computer_generation :: u64
  bound_catalog_generation :: u64
  bound_document_generation :: "u64 option"
  bound_policy_version :: policy_version_tag
  expires_at :: instant

record approval_observation =
  observed_actor :: string
  observed_auth_generation :: u64
  observed_bot :: string
  observed_run :: string
  observed_tool :: tool_name
  observed_args_hash :: digest
  observed_target :: approval_target
  observed_computer_generation :: u64
  observed_catalog_generation :: u64
  observed_document_generation :: "u64 option"
  observed_policy_version :: policy_version_tag
  actor_role_revoked :: bool
  observed_now :: instant

datatype approval_invalidation =
    ActorChanged
  | AuthGenerationChanged
  | BotChanged
  | RunChanged
  | ToolChanged
  | ArgumentsChanged
  | TargetChanged
  | ComputerGenerationChanged
  | CatalogGenerationChanged
  | DocumentGenerationChanged
  | PolicyVersionChanged
  | ActorRoleRevoked
  | Expired

datatype approval_validity = Valid | Invalid approval_invalidation

definition is_still_valid :: "approval_binding \<Rightarrow> approval_observation \<Rightarrow> approval_validity" where
  "is_still_valid b obs =
     (if actor_role_revoked obs then Invalid ActorRoleRevoked
      else if observed_now obs \<ge> expires_at b then Invalid Expired
      else
        (let mismatch =
           (if bound_actor b \<noteq> observed_actor obs then Some ActorChanged
            else if bound_auth_generation b \<noteq> observed_auth_generation obs then Some AuthGenerationChanged
            else if bound_bot b \<noteq> observed_bot obs then Some BotChanged
            else if bound_run b \<noteq> observed_run obs then Some RunChanged
            else if bound_tool b \<noteq> observed_tool obs then Some ToolChanged
            else if bound_args_hash b \<noteq> observed_args_hash obs then Some ArgumentsChanged
            else if bound_target b \<noteq> observed_target obs then Some TargetChanged
            else if bound_computer_generation b \<noteq> observed_computer_generation obs
              then Some ComputerGenerationChanged
            else if bound_catalog_generation b \<noteq> observed_catalog_generation obs
              then Some CatalogGenerationChanged
            else if bound_document_generation b \<noteq> observed_document_generation obs
              then Some DocumentGenerationChanged
            else if bound_policy_version b \<noteq> observed_policy_version obs then Some PolicyVersionChanged
            else None)
         in case mismatch of None \<Rightarrow> Valid | Some why \<Rightarrow> Invalid why))"

text \<open>The observation that matches a binding at a given time, field by field.\<close>

definition observation_of :: "approval_binding \<Rightarrow> instant \<Rightarrow> approval_observation" where
  "observation_of b now =
     \<lparr>observed_actor = bound_actor b, observed_auth_generation = bound_auth_generation b,
      observed_bot = bound_bot b, observed_run = bound_run b, observed_tool = bound_tool b,
      observed_args_hash = bound_args_hash b, observed_target = bound_target b,
      observed_computer_generation = bound_computer_generation b,
      observed_catalog_generation = bound_catalog_generation b,
      observed_document_generation = bound_document_generation b,
      observed_policy_version = bound_policy_version b,
      actor_role_revoked = False, observed_now = now\<rparr>"

text \<open>The fact each reason reports.\<close>

fun invalidation_holds :: "approval_binding \<Rightarrow> approval_observation \<Rightarrow> approval_invalidation \<Rightarrow> bool" where
  "invalidation_holds b obs ActorChanged \<longleftrightarrow> bound_actor b \<noteq> observed_actor obs"
| "invalidation_holds b obs AuthGenerationChanged \<longleftrightarrow> bound_auth_generation b \<noteq> observed_auth_generation obs"
| "invalidation_holds b obs BotChanged \<longleftrightarrow> bound_bot b \<noteq> observed_bot obs"
| "invalidation_holds b obs RunChanged \<longleftrightarrow> bound_run b \<noteq> observed_run obs"
| "invalidation_holds b obs ToolChanged \<longleftrightarrow> bound_tool b \<noteq> observed_tool obs"
| "invalidation_holds b obs ArgumentsChanged \<longleftrightarrow> bound_args_hash b \<noteq> observed_args_hash obs"
| "invalidation_holds b obs TargetChanged \<longleftrightarrow> bound_target b \<noteq> observed_target obs"
| "invalidation_holds b obs ComputerGenerationChanged \<longleftrightarrow>
     bound_computer_generation b \<noteq> observed_computer_generation obs"
| "invalidation_holds b obs CatalogGenerationChanged \<longleftrightarrow>
     bound_catalog_generation b \<noteq> observed_catalog_generation obs"
| "invalidation_holds b obs DocumentGenerationChanged \<longleftrightarrow>
     bound_document_generation b \<noteq> observed_document_generation obs"
| "invalidation_holds b obs PolicyVersionChanged \<longleftrightarrow> bound_policy_version b \<noteq> observed_policy_version obs"
| "invalidation_holds b obs ActorRoleRevoked \<longleftrightarrow> actor_role_revoked obs"
| "invalidation_holds b obs Expired \<longleftrightarrow> expires_at b \<le> observed_now obs"

lemma is_still_valid_valid:
  "is_still_valid b obs = Valid \<longleftrightarrow> obs = observation_of b (observed_now obs) \<and> observed_now obs < expires_at b"
proof -
  have "obs = observation_of b (observed_now obs) \<longleftrightarrow>
      \<not> actor_role_revoked obs \<and> bound_actor b = observed_actor obs
      \<and> bound_auth_generation b = observed_auth_generation obs \<and> bound_bot b = observed_bot obs
      \<and> bound_run b = observed_run obs \<and> bound_tool b = observed_tool obs
      \<and> bound_args_hash b = observed_args_hash obs \<and> bound_target b = observed_target obs
      \<and> bound_computer_generation b = observed_computer_generation obs
      \<and> bound_catalog_generation b = observed_catalog_generation obs
      \<and> bound_document_generation b = observed_document_generation obs
      \<and> bound_policy_version b = observed_policy_version obs"
    by (cases obs) (auto simp: observation_of_def)
  then show ?thesis
    by (simp add: is_still_valid_def)
qed

text \<open>An approval is valid exactly while nothing it was given for has changed: the observation equals
  the binding in every field, the actor's role is not revoked, and the expiry instant has not been
  reached. When it is invalid, the reason reported is a fact about the two; a revoked role is always
  reported as such, and expiry is reported for every expired approval of an unrevoked actor.\<close>

theorem is_still_valid_exact:
  "(is_still_valid b obs = Valid \<longleftrightarrow>
      obs = observation_of b (observed_now obs) \<and> observed_now obs < expires_at b)
   \<and> (\<forall>why. is_still_valid b obs = Invalid why \<longrightarrow> invalidation_holds b obs why)
   \<and> (\<forall>why. invalidation_holds b obs why \<longrightarrow> is_still_valid b obs \<noteq> Valid)
   \<and> (actor_role_revoked obs \<longrightarrow> is_still_valid b obs = Invalid ActorRoleRevoked)
   \<and> (\<not> actor_role_revoked obs \<longrightarrow> expires_at b \<le> observed_now obs \<longrightarrow> is_still_valid b obs = Invalid Expired)"
proof (intro conjI allI impI)
  fix why assume "is_still_valid b obs = Invalid why"
  then show "invalidation_holds b obs why"
    by (simp add: is_still_valid_def Let_def split: if_splits)
next
  fix why assume "invalidation_holds b obs why"
  then show "is_still_valid b obs \<noteq> Valid"
    by (cases why) (simp_all add: is_still_valid_def)
qed (rule is_still_valid_valid | simp add: is_still_valid_def)+

definition example_binding :: approval_binding where
  "example_binding =
     \<lparr>bound_actor = ''alice'', bound_auth_generation = 1, bound_bot = ''bot'', bound_run = ''run'',
      bound_tool = ToolName ''fs.write'', bound_args_hash = 9,
      bound_target = \<lparr>target_kind_label = ''file'', target_ident = ''/a''\<rparr>, bound_computer_generation = 1,
      bound_catalog_generation = 1, bound_document_generation = None,
      bound_policy_version = PolicyVersionTag ''v1'', expires_at = 100\<rparr>"

theorem is_still_valid_exact_witness:
  "is_still_valid example_binding (observation_of example_binding 5) = Valid
   \<and> is_still_valid example_binding ((observation_of example_binding 5)\<lparr>observed_args_hash := 8\<rparr>) \<noteq> Valid
   \<and> is_still_valid example_binding (observation_of example_binding 100) = Invalid Expired"
  using is_still_valid_exact [of example_binding "observation_of example_binding 5"]
    is_still_valid_exact [of example_binding "(observation_of example_binding 5)\<lparr>observed_args_hash := 8\<rparr>"]
    is_still_valid_exact [of example_binding "observation_of example_binding 100"]
  by (simp add: observation_of_def example_binding_def)

end
