(* ===== verification/ToolPipeline.thy ===== *)
theory ToolPipeline
  imports ToolArgs ToolApproval AuditPayload
begin

text \<open>
  The tool-call pipeline, \<open>crates/openbot-domain/src/tool/pipeline.rs\<close>: one record per stage, extended as
  the stages extend one another in the source, one definition per transition, and the terminals with
  what the loop and the model see of them. The transitions consume their stage (\<open>self\<close> by value), so a
  stage value is used once; in the model each transition is a function of the stage.
\<close>

section \<open>Inputs of the pipeline\<close>

datatype policy_rule_id = PolicyRuleId (policy_rule_str: string)

record requested_tool_call =
  req_call_id :: string
  req_run :: string
  req_tool :: tool_name
  req_arguments :: tool_arguments

record authoritative_actor =
  auth_actor :: string
  auth_bot :: string

datatype validation_rejection =
    ToolNameMismatch
  | InputTooLarge u32 nat
  | MetadataInvalid tool_metadata_error

datatype policy_verdict =
    Allow policy_version_tag
  | Deny policy_version_tag policy_rule_id

record approval_evidence =
  approval_id :: string
  binding :: approval_binding
  observed :: approval_observation

datatype approval_outcome = ApprovalNotRequired | Granted approval_evidence | ApprovalDenied

datatype refusal_reason =
    PolicyDenied policy_rule_id
  | HumanDenied
  | ApprovalMissing
  | ApprovalInvalid approval_invalidation

datatype abort_reason = DecisionNotDurable string | CapabilityMismatch

datatype decision_write_failed = DecisionWriteFailed string
datatype outcome_write_failed = OutcomeWriteFailed string

record durable_decision_receipt =
  receipt_decision :: string
  receipt_attempt :: string

record tool_outcome =
  out_commit_state :: commit_state
  output_bytes :: u32
  out_duration :: nat \<comment> \<open>\<open>core::time::Duration\<close>, unsigned nanoseconds\<close>
  out_error_code :: "string option"

section \<open>Terminals\<close>

record tool_call_refused =
  refused_call_id :: string
  refused_run :: string
  refused_tool :: tool_name
  refused_policy_version :: policy_version_tag
  refused_reason :: refusal_reason

record aborted_tool_call =
  aborted_call_id :: string
  aborted_run :: string
  aborted_tool :: tool_name
  aborted_reason :: abort_reason

record completed_tool_call =
  completed_call_id :: string
  completed_run :: string
  completed_metadata :: tool_metadata
  completed_args_hash :: digest
  completed_actor :: authoritative_actor
  completed_target :: approval_target
  completed_effect :: effect
  completed_effect_downgraded :: bool
  completed_policy_version :: policy_version_tag
  completed_receipt :: durable_decision_receipt
  completed_outcome :: tool_outcome

record reconciliation_required =
  reconcile_call_id :: string
  reconcile_run :: string
  reconcile_tool :: tool_name
  reconcile_decision :: string
  reconcile_attempt :: string
  reconcile_dependency :: string

datatype tool_call_terminal =
    Refused tool_call_refused
  | Aborted aborted_tool_call
  | Completed completed_tool_call
  | ReconciliationRequired reconciliation_required

section \<open>Stages\<close>

record call_context =
  ctx_call_id :: string
  ctx_run :: string
  ctx_metadata :: tool_metadata
  ctx_arguments :: tool_arguments
  ctx_args_hash :: digest

record requested =
  request :: requested_tool_call

record validated =
  context_of :: call_context

record resolved = validated +
  call_actor :: authoritative_actor
  call_target :: approval_target

record classified = resolved +
  call_effect :: effect
  effect_downgraded :: bool

record policy_passed = classified +
  policy_version :: policy_version_tag

record approval_settled = policy_passed +
  approval :: "approval_evidence option"

record decision_recorded = approval_settled +
  receipt :: durable_decision_receipt

record single_use_capability =
  cap_id :: string
  cap_call_id :: string
  cap_decision :: string
  cap_attempt :: string

record redeemed_capability =
  redeemed_id :: string
  redeemed_call_id :: string

record ready_to_execute = decision_recorded +
  capability :: single_use_capability

record executing = decision_recorded +
  capability_id :: string

definition requested_validate :: "(bytes \<Rightarrow> digest) \<Rightarrow> requested \<Rightarrow> tool_metadata
    \<Rightarrow> (validation_rejection, validated) result" where
  "requested_validate H s m =
     (case tool_metadata_validate m of
        Inl e \<Rightarrow> Err (MetadataInvalid e)
      | Inr _ \<Rightarrow>
          if req_tool (request s) \<noteq> meta_name m then Err ToolNameMismatch
          else (let found = args_byte_len (req_arguments (request s)) in
            if found > unat (max_input_bytes (limits m))
            then Err (InputTooLarge (max_input_bytes (limits m)) found)
            else Ok \<lparr>context_of =
              \<lparr>ctx_call_id = req_call_id (request s), ctx_run = req_run (request s), ctx_metadata = m,
               ctx_arguments = req_arguments (request s),
               ctx_args_hash = args_canonical_hash H (req_arguments (request s))\<rparr>\<rparr>))"

definition resolve :: "validated \<Rightarrow> authoritative_actor \<Rightarrow> approval_target \<Rightarrow> resolved" where
  "resolve s a target = \<lparr>context_of = context_of s, call_actor = a, call_target = target\<rparr>"

definition classify_effect :: "resolved \<Rightarrow> classified" where
  "classify_effect s =
     (let e = meta_effect (ctx_metadata (context_of s)) in
      \<lparr>context_of = context_of s, call_actor = call_actor s, call_target = call_target s,
       call_effect = class_effect e, effect_downgraded = was_downgraded e\<rparr>)"

definition apply_policy :: "classified \<Rightarrow> policy_verdict \<Rightarrow> (tool_call_refused, policy_passed) result" where
  "apply_policy s verdict =
     (case verdict of
        Allow version \<Rightarrow>
          Ok \<lparr>context_of = context_of s, call_actor = call_actor s, call_target = call_target s,
              call_effect = call_effect s, effect_downgraded = effect_downgraded s, policy_version = version\<rparr>
      | Deny version rule \<Rightarrow>
          Err \<lparr>refused_call_id = ctx_call_id (context_of s), refused_run = ctx_run (context_of s),
               refused_tool = meta_name (ctx_metadata (context_of s)), refused_policy_version = version,
               refused_reason = PolicyDenied rule\<rparr>)"

definition settle_approval :: "policy_passed \<Rightarrow> approval_outcome \<Rightarrow> (tool_call_refused, approval_settled) result" where
  "settle_approval s outcome =
     (let refuse = (\<lambda>reason. \<lparr>refused_call_id = ctx_call_id (context_of s), refused_run = ctx_run (context_of s),
            refused_tool = meta_name (ctx_metadata (context_of s)),
            refused_policy_version = policy_version s, refused_reason = reason\<rparr>);
          settled = (\<lambda>evidence.
            \<lparr>context_of = context_of s, call_actor = call_actor s, call_target = call_target s,
             call_effect = call_effect s, effect_downgraded = effect_downgraded s,
             policy_version = policy_version s, approval = evidence\<rparr>)
      in case outcome of
           ApprovalDenied \<Rightarrow> Err (refuse HumanDenied)
         | ApprovalNotRequired \<Rightarrow>
             if requires_human_approval (meta_approval_class (ctx_metadata (context_of s)))
             then Err (refuse ApprovalMissing) else Ok (settled None)
         | Granted evidence \<Rightarrow>
             (case is_still_valid (binding evidence) (observed evidence) of
                Valid \<Rightarrow> Ok (settled (Some evidence))
              | Invalid why \<Rightarrow> Err (refuse (ApprovalInvalid why))))"

definition record_decision :: "approval_settled \<Rightarrow> (decision_write_failed, durable_decision_receipt) result
    \<Rightarrow> (tool_call_terminal, decision_recorded) result" where
  "record_decision s written =
     (case written of
        Inr r \<Rightarrow>
          Ok \<lparr>context_of = context_of s, call_actor = call_actor s, call_target = call_target s,
              call_effect = call_effect s, effect_downgraded = effect_downgraded s,
              policy_version = policy_version s, approval = approval s, receipt = r\<rparr>
      | Inl (DecisionWriteFailed dependency) \<Rightarrow>
          Err (Aborted \<lparr>aborted_call_id = ctx_call_id (context_of s), aborted_run = ctx_run (context_of s),
                aborted_tool = meta_name (ctx_metadata (context_of s)),
                aborted_reason = DecisionNotDurable dependency\<rparr>))"

definition mint_capability :: "decision_recorded \<Rightarrow> ready_to_execute" where
  "mint_capability s =
     \<lparr>context_of = context_of s, call_actor = call_actor s, call_target = call_target s,
      call_effect = call_effect s, effect_downgraded = effect_downgraded s,
      policy_version = policy_version s, approval = approval s, receipt = receipt s,
      capability = \<lparr>cap_id = ''cap-'' @ receipt_decision (receipt s) @ ''-'' @ receipt_attempt (receipt s),
                    cap_call_id = ctx_call_id (context_of s),
                    cap_decision = receipt_decision (receipt s), cap_attempt = receipt_attempt (receipt s)\<rparr>\<rparr>"

definition redeem :: "single_use_capability \<Rightarrow> redeemed_capability" where
  "redeem c = \<lparr>redeemed_id = cap_id c, redeemed_call_id = cap_call_id c\<rparr>"

definition start :: "ready_to_execute \<Rightarrow> executing \<times> single_use_capability" where
  "start s =
     (\<lparr>context_of = context_of s, call_actor = call_actor s, call_target = call_target s,
       call_effect = call_effect s, effect_downgraded = effect_downgraded s,
       policy_version = policy_version s, approval = approval s, receipt = receipt s,
       capability_id = cap_id (capability s)\<rparr>, capability s)"

definition record_outcome :: "executing \<Rightarrow> redeemed_capability \<Rightarrow> (outcome_write_failed, tool_outcome) result
    \<Rightarrow> tool_call_terminal" where
  "record_outcome s redeemed written =
     (let reconcile = (\<lambda>dependency. ReconciliationRequired
            \<lparr>reconcile_call_id = ctx_call_id (context_of s), reconcile_run = ctx_run (context_of s),
             reconcile_tool = meta_name (ctx_metadata (context_of s)),
             reconcile_decision = receipt_decision (receipt s),
             reconcile_attempt = receipt_attempt (receipt s), reconcile_dependency = dependency\<rparr>)
      in
      if redeemed_id redeemed \<noteq> capability_id s \<or> redeemed_call_id redeemed \<noteq> ctx_call_id (context_of s)
      then Aborted \<lparr>aborted_call_id = ctx_call_id (context_of s), aborted_run = ctx_run (context_of s),
                    aborted_tool = meta_name (ctx_metadata (context_of s)),
                    aborted_reason = CapabilityMismatch\<rparr>
      else case written of
        Inr outcome \<Rightarrow>
          if requires_reconciliation (out_commit_state outcome) then reconcile ''commit_state''
          else Completed \<lparr>completed_call_id = ctx_call_id (context_of s), completed_run = ctx_run (context_of s),
                 completed_metadata = ctx_metadata (context_of s),
                 completed_args_hash = ctx_args_hash (context_of s), completed_actor = call_actor s,
                 completed_target = call_target s, completed_effect = call_effect s,
                 completed_effect_downgraded = effect_downgraded s,
                 completed_policy_version = policy_version s, completed_receipt = receipt s,
                 completed_outcome = outcome\<rparr>
      | Inl (OutcomeWriteFailed dependency) \<Rightarrow> reconcile dependency)"

section \<open>What the loop and the model see\<close>

datatype halt_reason = UnknownCommit | HaltDecisionNotDurable | HaltCapabilityMismatch
datatype tool_loop_directive = Continue | Halt halt_reason

fun loop_directive :: "tool_call_terminal \<Rightarrow> tool_loop_directive" where
  "loop_directive (Refused _) = Continue"
| "loop_directive (Completed _) = Continue"
| "loop_directive (ReconciliationRequired _) = Halt UnknownCommit"
| "loop_directive (Aborted a) =
     (case aborted_reason a of
        DecisionNotDurable _ \<Rightarrow> Halt HaltDecisionNotDurable
      | CapabilityMismatch \<Rightarrow> Halt HaltCapabilityMismatch)"

fun execution_happened :: "tool_call_terminal \<Rightarrow> bool" where
  "execution_happened (Refused _) = False"
| "execution_happened (Aborted _) = False"
| "execution_happened (Completed _) = True"
| "execution_happened (ReconciliationRequired _) = True"

record projected_tool_call =
  completed :: completed_tool_call

definition project :: "completed_tool_call \<Rightarrow> projected_tool_call" where
  "project c = \<lparr>completed = c\<rparr>"

datatype model_visible_status = StatusOk | StatusFailed

record model_visible_result =
  visible_status :: model_visible_status
  visible_error_code :: "string option"
  visible_bytes :: u32
  truncated :: bool

definition model_visible :: "projected_tool_call \<Rightarrow> model_visible_result" where
  "model_visible p =
     (let limit = max_model_visible_bytes (limits (completed_metadata (completed p)));
          outcome = completed_outcome (completed p);
          produced = output_bytes outcome
      in \<lparr>visible_status = (if out_error_code outcome \<noteq> None then StatusFailed else StatusOk),
          visible_error_code = out_error_code outcome,
          visible_bytes = min produced limit, truncated = (produced > limit)\<rparr>)"

fun idempotency_str :: "idempotency \<Rightarrow> string" where
  "idempotency_str Idempotent = ''idempotent''"
| "idempotency_str Keyed = ''keyed''"
| "idempotency_str NonIdempotent = ''non_idempotent''"

fun approval_class_str :: "approval_class \<Rightarrow> string" where
  "approval_class_str NotRequired = ''not_required''"
| "approval_class_str OncePerRun = ''once_per_run''"
| "approval_class_str EveryCall = ''every_call''"

fun sandbox_str :: "sandbox_requirement \<Rightarrow> string" where
  "sandbox_str SandboxNone = ''none''"
| "sandbox_str SandboxRequired = ''required''"
| "sandbox_str RequiredNoEgress = ''required_no_egress''"

datatype audit_projection_error = ProjectionField audit_field_error | ProjectionPayload audit_payload_error

text \<open>\<open>u64::try_from(duration.as_millis()).unwrap_or(u64::MAX)\<close>.\<close>

definition duration_ms :: "nat \<Rightarrow> u64" where
  "duration_ms nanos = (let ms = nanos div 1000000 in if ms < 2 ^ 64 then of_nat ms else - 1)"

text \<open>The vector of facts \<open>audit_payload\<close> builds from the completed call and the four validated identifiers.\<close>

definition completed_facts :: "completed_tool_call \<Rightarrow> audit_identifier \<Rightarrow> audit_identifier \<Rightarrow> audit_identifier
    \<Rightarrow> audit_identifier \<Rightarrow> audit_fact list" where
  "completed_facts c name target decision version =
     (let m = completed_metadata c; outcome = completed_outcome c; visible = model_visible (project c) in
           [FactToolName name,
            FactEffectClass (AuditLabel (effect_str (completed_effect c))),
            FactEffectDowngraded (completed_effect_downgraded c),
            FactCanonicalArgsHash (completed_args_hash c),
            FactSchemaHash (schema_hash m),
            FactTargetKind (AuditLabel (target_kind_label (completed_target c))),
            FactTargetId target,
            FactDecisionId decision,
            FactPolicyVersion version,
            FactCommitState (AuditLabel (commit_state_str (out_commit_state outcome))),
            FactCatalogGeneration (catalog_generation m),
            FactIdempotency (AuditLabel (idempotency_str (meta_idempotency m))),
            FactApprovalClass (AuditLabel (approval_class_str (meta_approval_class m))),
            FactSandboxRequirement (AuditLabel (sandbox_str (sandbox m))),
            FactParallelSafe (parallel_safe m),
            FactOutputBytes (ucast (output_bytes outcome)),
            FactOutputTruncated (truncated visible),
            FactDurationMs (duration_ms (out_duration outcome))]
           @ (case out_error_code outcome of None \<Rightarrow> [] | Some code \<Rightarrow> [FactErrorCode (AuditLabel code)]))"

definition completed_audit_payload :: "projected_tool_call \<Rightarrow> (audit_projection_error, audit_payload) result" where
  "completed_audit_payload p =
     (let c = completed p; m = completed_metadata c in
      case identifier_new (tool_name_str (meta_name m)) of Inl e \<Rightarrow> Err (ProjectionField e) | Inr name \<Rightarrow>
      case identifier_new (target_ident (completed_target c)) of Inl e \<Rightarrow> Err (ProjectionField e) | Inr target \<Rightarrow>
      case identifier_new (receipt_decision (completed_receipt c)) of Inl e \<Rightarrow> Err (ProjectionField e) | Inr decision \<Rightarrow>
      case identifier_new (policy_version_str (completed_policy_version c)) of Inl e \<Rightarrow> Err (ProjectionField e)
      | Inr version \<Rightarrow>
        (case from_facts (completed_facts c name target decision version) of
           Inl e \<Rightarrow> Err (ProjectionPayload e)
         | Inr payload \<Rightarrow> Ok payload))"

section \<open>A whole call\<close>

text \<open>
  The transitions in the order \<open>openbot-application\<close> runs them: each refusal, rejection or abort ends the
  call. The inputs are what the ports answer; \<open>returned\<close> is the capability that comes back with the
  outcome, which need not be the one handed out.
\<close>

record call_inputs =
  in_metadata :: tool_metadata
  in_actor :: authoritative_actor
  in_target :: approval_target
  in_verdict :: policy_verdict
  in_approval :: approval_outcome
  in_decision :: "(decision_write_failed, durable_decision_receipt) result"
  in_returned :: "single_use_capability \<Rightarrow> redeemed_capability"
  in_outcome :: "(outcome_write_failed, tool_outcome) result"

datatype call_end = Rejected validation_rejection | Ended tool_call_terminal

text \<open>The part of the call before the tool is started, and the part after.\<close>

definition prepare_call :: "(bytes \<Rightarrow> digest) \<Rightarrow> requested_tool_call \<Rightarrow> call_inputs
    \<Rightarrow> (call_end, executing \<times> single_use_capability) result" where
  "prepare_call H r i =
     (case requested_validate H \<lparr>request = r\<rparr> (in_metadata i) of Inl e \<Rightarrow> Err (Rejected e) | Inr v \<Rightarrow>
      case apply_policy (classify_effect (resolve v (in_actor i) (in_target i))) (in_verdict i) of
        Inl e \<Rightarrow> Err (Ended (Refused e)) | Inr p \<Rightarrow>
      case settle_approval p (in_approval i) of Inl e \<Rightarrow> Err (Ended (Refused e)) | Inr s \<Rightarrow>
      case record_decision s (in_decision i) of Inl t \<Rightarrow> Err (Ended t) | Inr d \<Rightarrow>
      Ok (start (mint_capability d)))"

definition run_call :: "(bytes \<Rightarrow> digest) \<Rightarrow> requested_tool_call \<Rightarrow> call_inputs \<Rightarrow> call_end" where
  "run_call H r i =
     (case prepare_call H r i of
        Inl e \<Rightarrow> e
      | Inr (x, c) \<Rightarrow> Ended (record_outcome x (in_returned i c) (in_outcome i)))"

lemma requested_validate_ok:
  "requested_validate H s m = Ok v \<longleftrightarrow>
     tool_metadata_validate m = Ok () \<and> req_tool (request s) = meta_name m
     \<and> args_byte_len (req_arguments (request s)) \<le> unat (max_input_bytes (limits m))
     \<and> v = \<lparr>context_of = \<lparr>ctx_call_id = req_call_id (request s), ctx_run = req_run (request s), ctx_metadata = m,
               ctx_arguments = req_arguments (request s),
               ctx_args_hash = args_canonical_hash H (req_arguments (request s))\<rparr>\<rparr>"
  by (cases "tool_metadata_validate m") (auto simp: requested_validate_def Let_def)

definition approval_satisfied :: "tool_metadata \<Rightarrow> approval_outcome \<Rightarrow> bool" where
  "approval_satisfied m outcome \<longleftrightarrow>
     (case outcome of
        ApprovalDenied \<Rightarrow> False
      | ApprovalNotRequired \<Rightarrow> \<not> requires_human_approval (meta_approval_class m)
      | Granted e \<Rightarrow> is_still_valid (binding e) (observed e) = Valid)"

definition evidence_of :: "approval_outcome \<Rightarrow> approval_evidence option" where
  "evidence_of outcome = (case outcome of Granted e \<Rightarrow> Some e | _ \<Rightarrow> None)"

lemma settle_approval_ok:
  "is_ok (settle_approval s outcome) \<longleftrightarrow> approval_satisfied (ctx_metadata (context_of s)) outcome"
  by (auto simp: settle_approval_def approval_satisfied_def Let_def
      split: approval_outcome.splits approval_validity.splits)

text \<open>The conditions under which a call is started, as one predicate over the request and the answers.\<close>

definition call_authorised :: "requested_tool_call \<Rightarrow> call_inputs \<Rightarrow> bool" where
  "call_authorised r i \<longleftrightarrow>
     tool_metadata_validate (in_metadata i) = Ok () \<and> req_tool r = meta_name (in_metadata i)
     \<and> args_byte_len (req_arguments r) \<le> unat (max_input_bytes (limits (in_metadata i)))
     \<and> (\<exists>version. in_verdict i = Allow version)
     \<and> approval_satisfied (in_metadata i) (in_approval i)
     \<and> is_ok (in_decision i)"

definition call_context_of :: "(bytes \<Rightarrow> digest) \<Rightarrow> requested_tool_call \<Rightarrow> call_inputs \<Rightarrow> call_context" where
  "call_context_of H r i =
     \<lparr>ctx_call_id = req_call_id r, ctx_run = req_run r, ctx_metadata = in_metadata i,
      ctx_arguments = req_arguments r, ctx_args_hash = args_canonical_hash H (req_arguments r)\<rparr>"

lemma prepare_call_ok:
  "prepare_call H r i = Ok (x, c) \<longleftrightarrow>
     (\<exists>version rec. tool_metadata_validate (in_metadata i) = Ok () \<and> req_tool r = meta_name (in_metadata i)
       \<and> args_byte_len (req_arguments r) \<le> unat (max_input_bytes (limits (in_metadata i)))
       \<and> in_verdict i = Allow version \<and> approval_satisfied (in_metadata i) (in_approval i)
       \<and> in_decision i = Ok rec
       \<and> (x, c) = start (mint_capability
           \<lparr>context_of = call_context_of H r i, call_actor = in_actor i, call_target = in_target i,
            call_effect = class_effect (meta_effect (in_metadata i)),
            effect_downgraded = was_downgraded (meta_effect (in_metadata i)),
            policy_version = version, approval = evidence_of (in_approval i), receipt = rec\<rparr>))"
  (is "_ \<longleftrightarrow> (\<exists>version rec. ?R version rec)")
proof (cases "requested_validate H \<lparr>request = r\<rparr> (in_metadata i)")
  case (Inl e)
  then have "\<not> ?R version rec" for version rec
    using requested_validate_ok [of H "\<lparr>request = r\<rparr>" "in_metadata i"] by auto
  with Inl show ?thesis by (auto simp: prepare_call_def)
next
  case (Inr v)
  then have v: "tool_metadata_validate (in_metadata i) = Ok ()" "req_tool r = meta_name (in_metadata i)"
      "args_byte_len (req_arguments r) \<le> unat (max_input_bytes (limits (in_metadata i)))"
      "v = \<lparr>context_of = call_context_of H r i\<rparr>"
    by (simp_all add: requested_validate_ok call_context_of_def)
  show ?thesis
  proof (cases "in_verdict i")
    case (Deny version rule)
    with Inr show ?thesis by (simp add: prepare_call_def apply_policy_def)
  next
    case (Allow version)
    show ?thesis
    proof (cases "in_decision i")
      case (Inl e)
      with Inr Allow v show ?thesis
        by (cases e) (auto simp: prepare_call_def apply_policy_def record_decision_def split: sum.splits)
    next
      case dec: (Inr rec)
      show ?thesis
        using Inr Allow v dec
        by (cases "in_approval i")
           (auto simp: prepare_call_def apply_policy_def record_decision_def settle_approval_def resolve_def
             classify_effect_def approval_satisfied_def evidence_of_def Let_def call_context_of_def
             split: approval_validity.splits)
    qed
  qed
qed

lemma is_ok_prepare_call: "is_ok (prepare_call H r i) \<longleftrightarrow> call_authorised r i"
proof -
  have "is_ok (prepare_call H r i) \<longleftrightarrow> (\<exists>x c. prepare_call H r i = Ok (x, c))"
    by (auto simp: is_ok_iff)
  also have "\<dots> \<longleftrightarrow> call_authorised r i"
    by (auto simp: prepare_call_ok call_authorised_def start_def is_ok_iff)
  finally show ?thesis .
qed

text \<open>The identity a terminal carries.\<close>

fun terminal_identity :: "tool_call_terminal \<Rightarrow> string \<times> string \<times> tool_name" where
  "terminal_identity (Refused t) = (refused_call_id t, refused_run t, refused_tool t)"
| "terminal_identity (Aborted t) = (aborted_call_id t, aborted_run t, aborted_tool t)"
| "terminal_identity (Completed t) = (completed_call_id t, completed_run t, meta_name (completed_metadata t))"
| "terminal_identity (ReconciliationRequired t) = (reconcile_call_id t, reconcile_run t, reconcile_tool t)"

lemma record_outcome_identity:
  "terminal_identity (record_outcome x redeemed written) =
     (ctx_call_id (context_of x), ctx_run (context_of x), meta_name (ctx_metadata (context_of x)))"
  by (simp add: record_outcome_def Let_def split: sum.split outcome_write_failed.split)

lemma from_facts_get:
  assumes "from_facts fs = Ok p"
  shows "payload_get p = map_of (map (\<lambda>f. (fact_field f, f)) fs)" and "payload_len p = length fs"
proof -
  have spec: "distinct (map fact_field fs)" "bt_ok (facts p)" "map_of (facts p) = map_of (map (\<lambda>f. (fact_field f, f)) fs)"
    using assms by (simp_all add: from_facts_spec)
  then show "payload_get p = map_of (map (\<lambda>f. (fact_field f, f)) fs)"
    by (simp add: payload_get_def fun_eq_iff)
  have "fst ` set (facts p) = fst ` set (map (\<lambda>f. (fact_field f, f)) fs)"
    using arg_cong [OF spec(3), of dom] by (simp add: dom_map_of_conv_image_fst)
  then have "set (map fst (facts p)) = set (map fact_field fs)"
    by (simp add: image_image)
  with spec(1) bt_ok_distinct [OF spec(2)] have "length (map fst (facts p)) = length (map fact_field fs)"
    by (metis distinct_card)
  then show "payload_len p = length fs" by (simp add: payload_len_def)
qed

lemma from_facts_ok: "is_ok (from_facts fs) \<longleftrightarrow> distinct (map fact_field fs)"
proof
  assume "distinct (map fact_field fs)"
  then obtain n where "insert_facts [] fs = Ok n"
    using insert_facts_accepts [of "[]" fs] by (auto simp: bt_ok_def)
  then show "is_ok (from_facts fs)" by (simp add: from_facts_def)
qed (auto simp: is_ok_iff from_facts_spec)

section \<open>An example call\<close>

definition example_metadata :: tool_metadata where
  "example_metadata =
     \<lparr>meta_name = ToolName ''fs.write'', schema_hash = 3, catalog_generation = 1,
      meta_effect = effect_declared Write, meta_idempotency = NonIdempotent, parallel_safe = False,
      tool_timeout = 1000000000, meta_approval_class = EveryCall, sandbox = SandboxRequired,
      limits = \<lparr>max_input_bytes = 100, max_output_bytes = 50, max_model_visible_bytes = 20\<rparr>, resource_locks = []\<rparr>"

definition example_request :: requested_tool_call where
  "example_request =
     \<lparr>req_call_id = ''call'', req_run = ''run'', req_tool = ToolName ''fs.write'',
      req_arguments = \<lparr>args_value = JObject [], args_byte_len = 2\<rparr>\<rparr>"

definition example_inputs :: call_inputs where
  "example_inputs =
     \<lparr>in_metadata = example_metadata, in_actor = \<lparr>auth_actor = ''alice'', auth_bot = ''bot''\<rparr>,
      in_target = \<lparr>target_kind_label = ''file'', target_ident = ''/a''\<rparr>,
      in_verdict = Allow (PolicyVersionTag ''v1''),
      in_approval = Granted \<lparr>approval_id = ''ap'', binding = example_binding, observed = observation_of example_binding 5\<rparr>,
      in_decision = Ok \<lparr>receipt_decision = ''d1'', receipt_attempt = ''a1''\<rparr>, in_returned = redeem,
      in_outcome = Ok \<lparr>out_commit_state = Committed, output_bytes = 30, out_duration = 5000000, out_error_code = None\<rparr>\<rparr>"

lemma example_authorised: "call_authorised example_request example_inputs"
  by (simp add: call_authorised_def example_request_def example_inputs_def example_metadata_def
      tool_metadata_validate_def approval_satisfied_def is_still_valid_valid observation_of_def example_binding_def)

lemma example_prepared: "\<exists>x c. prepare_call H example_request example_inputs = Ok (x, c)"
proof -
  have "is_ok (prepare_call H example_request example_inputs)"
    by (simp add: is_ok_prepare_call example_authorised)
  then show ?thesis by (auto simp: is_ok_iff)
qed

definition example_completed :: completed_tool_call where
  "example_completed =
     \<lparr>completed_call_id = ''call'', completed_run = ''run'', completed_metadata = example_metadata,
      completed_args_hash = 9, completed_actor = in_actor example_inputs, completed_target = in_target example_inputs,
      completed_effect = Write, completed_effect_downgraded = False, completed_policy_version = PolicyVersionTag ''v1'',
      completed_receipt = \<lparr>receipt_decision = ''d1'', receipt_attempt = ''a1''\<rparr>,
      completed_outcome =
        \<lparr>out_commit_state = Committed, output_bytes = 30, out_duration = 5000000, out_error_code = None\<rparr>\<rparr>"

section \<open>Properties\<close>

text \<open>C2: A tool is started exactly when its catalog entry is valid and is the one requested, the arguments
  fit its limit, policy allows the call, an approval is present and still valid wherever the entry
  requires one, and the decision is durable; what is then started carries the digest of the requested
  arguments, the decided policy version and evidence, and the capability minted from that decision
  and for that call.\<close>

theorem call_started_iff_authorised:
  "(is_ok (prepare_call H r i) \<longleftrightarrow> call_authorised r i)
   \<and> (\<forall>x c. prepare_call H r i = Ok (x, c) \<longrightarrow>
        ctx_args_hash (context_of x) = args_canonical_hash H (req_arguments r)
        \<and> ctx_metadata (context_of x) = in_metadata i \<and> in_verdict i = Allow (policy_version x)
        \<and> approval x = evidence_of (in_approval i) \<and> in_decision i = Ok (receipt x)
        \<and> call_effect x = class_effect (meta_effect (in_metadata i))
        \<and> capability_id x = cap_id c \<and> cap_call_id c = req_call_id r
        \<and> cap_decision c = receipt_decision (receipt x) \<and> cap_attempt c = receipt_attempt (receipt x))"
  unfolding is_ok_prepare_call
  by (auto simp: prepare_call_ok start_def mint_capability_def call_context_of_def)

theorem call_started_iff_authorised_witness:
  "\<exists>x c. prepare_call (\<lambda>_. 9) example_request example_inputs = Ok (x, c) \<and> cap_call_id c = ''call''
     \<and> ctx_args_hash (context_of x) = 9"
proof -
  obtain x c where "prepare_call (\<lambda>_. 9) example_request example_inputs = Ok (x, c)"
    using example_prepared by blast
  moreover have "args_canonical_hash (\<lambda>_. 9) a = 9" for a
    by (simp add: args_canonical_hash_def digest_of_written_def)
  ultimately show ?thesis
    using call_started_iff_authorised [of "\<lambda>_. 9" example_request example_inputs]
    by (auto simp: example_request_def)
qed

text \<open>Whether the capability that was handed out for the call is the one that came back.\<close>

definition capability_came_back :: "(bytes \<Rightarrow> digest) \<Rightarrow> requested_tool_call \<Rightarrow> call_inputs \<Rightarrow> bool" where
  "capability_came_back H r i \<longleftrightarrow>
     (case prepare_call H r i of Inl _ \<Rightarrow> False | Inr (x, c) \<Rightarrow> in_returned i c = redeem c)"

definition commit_known :: "call_inputs \<Rightarrow> bool" where
  "commit_known i \<longleftrightarrow> (case in_outcome i of Inl _ \<Rightarrow> False | Inr out \<Rightarrow> out_commit_state out \<noteq> CommitUnknown)"

lemma prepared_fields:
  assumes "prepare_call H r i = Ok (x, c)"
  shows "ctx_call_id (context_of x) = req_call_id r" "ctx_run (context_of x) = req_run r"
    "ctx_metadata (context_of x) = in_metadata i"
    "redeemed_id (redeem c) = capability_id x" "redeemed_call_id (redeem c) = req_call_id r"
  using assms by (auto simp: prepare_call_ok start_def mint_capability_def redeem_def call_context_of_def)

lemma run_prepared_call:
  assumes "prepare_call H r i = Ok (x, c)"
  shows "run_call H r i =
    Ended (if in_returned i c \<noteq> redeem c
       then Aborted \<lparr>aborted_call_id = req_call_id r, aborted_run = req_run r, aborted_tool = meta_name (in_metadata i),
         aborted_reason = CapabilityMismatch\<rparr>
       else record_outcome x (redeem c) (in_outcome i))"
proof -
  have run: "run_call H r i = Ended (record_outcome x (in_returned i c) (in_outcome i))"
    using assms by (simp add: run_call_def)
  have same: "in_returned i c = redeem c \<longleftrightarrow>
      redeemed_id (in_returned i c) = capability_id x \<and> redeemed_call_id (in_returned i c) = req_call_id r"
    using prepared_fields [OF assms] by (cases "in_returned i c"; cases "redeem c") auto
  show ?thesis
  proof (cases "in_returned i c = redeem c")
    case False
    with same show ?thesis unfolding run record_outcome_def by (auto simp: prepared_fields [OF assms])
  qed (simp add: run)
qed

lemma record_redeemed:
  assumes "prepare_call H r i = Ok (x, c)"
  shows "(\<exists>t. record_outcome x (redeem c) written = Completed t \<and> completed_outcome t = outcome)
      \<longleftrightarrow> written = Ok outcome \<and> out_commit_state outcome \<noteq> CommitUnknown"
    and "(\<exists>t. record_outcome x (redeem c) written = ReconciliationRequired t)
      \<longleftrightarrow> (case written of Inl _ \<Rightarrow> True | Inr out \<Rightarrow> out_commit_state out = CommitUnknown)"
    and "record_outcome x (redeem c) written \<noteq> Aborted a" "record_outcome x (redeem c) written \<noteq> Refused b"
  by (cases written;
      auto simp: prepared_fields [OF assms] record_outcome_def Let_def requires_reconciliation_def
        split: outcome_write_failed.splits)+

lemma prepare_refused:
  "prepare_call H r i = Err e \<Longrightarrow>
   (\<exists>why. e = Rejected why) \<or> (\<exists>t. e = Ended (Refused t))
   \<or> (\<exists>t d. e = Ended (Aborted t) \<and> aborted_reason t = DecisionNotDurable d)"
  by (auto simp: prepare_call_def record_decision_def split: sum.splits decision_write_failed.splits)

text \<open>C14: Each end of a call has exactly one cause. It completes with an outcome exactly when the call was
  authorised, the capability handed out for it came back, and that outcome was written with a known commit
  state. It asks for reconciliation exactly when the call was authorised, the capability came back, and the
  outcome could not be written or its commit is unknown. It is aborted for the capability exactly when the call
  was authorised, so that its tool was started, and another capability came back. It ends before any tool is
  started, rejected, refused or aborted because the decision is not durable, exactly when it was not authorised.\<close>

theorem run_call_ends:
  "((\<exists>t. run_call H r i = Ended (Completed t) \<and> completed_outcome t = outcome) \<longleftrightarrow>
      call_authorised r i \<and> capability_came_back H r i \<and> commit_known i \<and> in_outcome i = Ok outcome)
   \<and> ((\<exists>t. run_call H r i = Ended (ReconciliationRequired t)) \<longleftrightarrow>
      call_authorised r i \<and> capability_came_back H r i \<and> \<not> commit_known i)
   \<and> ((\<exists>t. run_call H r i = Ended (Aborted t) \<and> aborted_reason t = CapabilityMismatch) \<longleftrightarrow>
      call_authorised r i \<and> \<not> capability_came_back H r i)
   \<and> ((\<exists>e. run_call H r i = Rejected e) \<or> (\<exists>t. run_call H r i = Ended (Refused t))
        \<or> (\<exists>t d. run_call H r i = Ended (Aborted t) \<and> aborted_reason t = DecisionNotDurable d)
      \<longleftrightarrow> \<not> call_authorised r i)"
proof (cases "prepare_call H r i")
  case (Inl e)
  then have "\<not> call_authorised r i" "run_call H r i = e"
    using is_ok_prepare_call [of H r i] by (simp_all add: run_call_def)
  with prepare_refused [OF Inl] Inl show ?thesis by (auto simp: capability_came_back_def)
next
  case (Inr xc)
  obtain x c where "xc = (x, c)" by (cases xc)
  with Inr have p: "prepare_call H r i = Ok (x, c)" by simp
  then have "call_authorised r i" "capability_came_back H r i \<longleftrightarrow> in_returned i c = redeem c"
    using is_ok_prepare_call [of H r i] by (simp_all add: capability_came_back_def)
  then show ?thesis
    using record_redeemed [OF p, of "in_outcome i"]
    by (auto simp: run_prepared_call [OF p] commit_known_def split: sum.splits)
qed

text \<open>An unauthorised call ends without any execution: it is rejected, refused or aborted before a
  capability exists, the model may continue after a refusal, and the loop halts when the decision
  could not be made durable.\<close>

theorem unauthorised_call_never_executes:
  assumes "\<not> call_authorised r i"
  shows "(\<exists>e. run_call H r i = Rejected e)
    \<or> (\<exists>t. run_call H r i = Ended (Refused t) \<and> loop_directive (Refused t) = Continue)
    \<or> (\<exists>t. run_call H r i = Ended (Aborted t) \<and> loop_directive (Aborted t) = Halt HaltDecisionNotDurable)"
proof -
  have "\<not> is_ok (prepare_call H r i)"
    using assms by (simp add: is_ok_prepare_call)
  then show ?thesis
    by (auto simp: run_call_def prepare_call_def record_decision_def
        split: sum.splits decision_write_failed.splits)
qed

theorem unauthorised_call_never_executes_witness:
  "\<not> (\<exists>t. run_call (\<lambda>_. 9) example_request (example_inputs\<lparr>in_approval := ApprovalNotRequired\<rparr>) = Ended (Completed t))"
proof -
  have "\<not> call_authorised example_request (example_inputs\<lparr>in_approval := ApprovalNotRequired\<rparr>)"
    by (simp add: call_authorised_def approval_satisfied_def example_inputs_def example_metadata_def)
  from unauthorised_call_never_executes [OF this, of "\<lambda>_. 9"] show ?thesis by auto
qed

text \<open>Whatever happens, a terminal speaks of the call it ends: it carries the requested call id, run
  and tool.\<close>

theorem terminal_identity_preserved:
  assumes "run_call H r i = Ended t"
  shows "terminal_identity t = (req_call_id r, req_run r, req_tool r)"
proof (cases "prepare_call H r i")
  case (Inr xc)
  obtain x c where xc: "xc = (x, c)" by (cases xc)
  with assms Inr have "t = record_outcome x (in_returned i c) (in_outcome i)" by (simp add: run_call_def)
  with Inr xc show ?thesis
    by (auto simp: record_outcome_identity prepare_call_ok start_def mint_capability_def call_context_of_def)
next
  case (Inl e)
  with assms show ?thesis
    by (auto simp: run_call_def prepare_call_def record_decision_def requested_validate_ok apply_policy_def
        settle_approval_def resolve_def classify_effect_def Let_def
        split: sum.splits decision_write_failed.splits policy_verdict.splits approval_outcome.splits
          approval_validity.splits if_splits)
qed

theorem terminal_identity_preserved_witness:
  "\<exists>t. run_call (\<lambda>_. 9) example_request example_inputs = Ended t
     \<and> terminal_identity t = (''call'', ''run'', ToolName ''fs.write'')"
proof -
  obtain x c where p: "prepare_call (\<lambda>_. 9) example_request example_inputs = Ok (x, c)"
    using example_prepared by blast
  then have "run_call (\<lambda>_. 9) example_request example_inputs
      = Ended (record_outcome x (in_returned example_inputs c) (in_outcome example_inputs))"
    by (simp add: run_call_def)
  from terminal_identity_preserved [OF this] this show ?thesis
    by (simp add: example_request_def)
qed

text \<open>The model never sees more of a tool's output than the catalog entry allows, and truncation is
  reported exactly when something was cut off.\<close>

theorem model_visible_bounded:
  assumes "tool_metadata_validate (completed_metadata c) = Ok ()"
  shows "visible_bytes (model_visible (project c)) \<le> max_model_visible_bytes (limits (completed_metadata c))
    \<and> visible_bytes (model_visible (project c)) \<le> max_output_bytes (limits (completed_metadata c))
    \<and> visible_bytes (model_visible (project c)) \<le> output_bytes (completed_outcome c)
    \<and> (truncated (model_visible (project c)) \<longleftrightarrow>
        visible_bytes (model_visible (project c)) < output_bytes (completed_outcome c))
    \<and> (visible_status (model_visible (project c)) = StatusOk \<longleftrightarrow> out_error_code (completed_outcome c) = None)"
  using assms
  by (auto simp: model_visible_def project_def tool_metadata_validate_def Let_def min_def split: if_splits)

theorem model_visible_bounded_witness:
  "visible_bytes (model_visible (project example_completed)) \<le> 20
   \<and> truncated (model_visible (project example_completed))"
proof -
  have valid: "tool_metadata_validate (completed_metadata example_completed) = Ok ()"
    by (simp add: example_completed_def example_metadata_def tool_metadata_validate_def)
  have "visible_bytes (model_visible (project example_completed)) = 20"
    by (simp add: model_visible_def project_def example_completed_def example_metadata_def Let_def)
  with model_visible_bounded [OF valid] show ?thesis
    by (simp add: example_completed_def)
qed

text \<open>The audit payload of a completed call is refused only for an identifier that is empty, too long
  or holds a control character, never for a duplicate field; when it is built it holds eighteen facts,
  and a nineteenth exactly when the outcome has an error code, among them the digest of the
  arguments, the decision, the effect and the commit state of that call.\<close>

theorem completed_audit_payload_exact:
  "(is_ok (completed_audit_payload (project c)) \<longleftrightarrow>
      is_ok (identifier_new (tool_name_str (meta_name (completed_metadata c))))
      \<and> is_ok (identifier_new (target_ident (completed_target c)))
      \<and> is_ok (identifier_new (receipt_decision (completed_receipt c)))
      \<and> is_ok (identifier_new (policy_version_str (completed_policy_version c))))
   \<and> (\<forall>payload. completed_audit_payload (project c) = Ok payload \<longrightarrow>
        payload_len payload = (if out_error_code (completed_outcome c) = None then 18 else 19)
        \<and> payload_get payload ''canonical_args_hash'' = Some (FactCanonicalArgsHash (completed_args_hash c))
        \<and> payload_get payload ''decision_id''
            = Some (FactDecisionId (AuditIdentifier (receipt_decision (completed_receipt c))))
        \<and> payload_get payload ''effect_class'' = Some (FactEffectClass (AuditLabel (effect_str (completed_effect c))))
        \<and> payload_get payload ''commit_state''
            = Some (FactCommitState (AuditLabel (commit_state_str (out_commit_state (completed_outcome c))))))"
proof -
  have dist: "distinct (map fact_field (completed_facts c name target decision version))" for name target decision version
    by (cases "out_error_code (completed_outcome c)") (simp_all add: completed_facts_def Let_def)
  have ident: "identifier_new s = Ok x \<longleftrightarrow> is_ok (identifier_new s) \<and> x = AuditIdentifier s" for s x
    by (auto simp: identifier_new_def)
  have facts: "payload_get p = map_of (map (\<lambda>f. (fact_field f, f)) (completed_facts c name target decision version))
      \<and> payload_len p = length (completed_facts c name target decision version)"
    if "from_facts (completed_facts c name target decision version) = Ok p" for p name target decision version
    using from_facts_get [OF that] by simp
  let ?built = "completed_audit_payload (project c)"
  show ?thesis
  proof (cases "is_ok (identifier_new (tool_name_str (meta_name (completed_metadata c))))
      \<and> is_ok (identifier_new (target_ident (completed_target c)))
      \<and> is_ok (identifier_new (receipt_decision (completed_receipt c)))
      \<and> is_ok (identifier_new (policy_version_str (completed_policy_version c)))")
    case True
    let ?fs = "completed_facts c (AuditIdentifier (tool_name_str (meta_name (completed_metadata c))))
        (AuditIdentifier (target_ident (completed_target c)))
        (AuditIdentifier (receipt_decision (completed_receipt c)))
        (AuditIdentifier (policy_version_str (completed_policy_version c)))"
    obtain p where p: "from_facts ?fs = Ok p"
      using from_facts_ok [of ?fs] dist by (auto simp: is_ok_iff)
    have "identifier_new (tool_name_str (meta_name (completed_metadata c)))
          = Ok (AuditIdentifier (tool_name_str (meta_name (completed_metadata c))))"
      "identifier_new (target_ident (completed_target c)) = Ok (AuditIdentifier (target_ident (completed_target c)))"
      "identifier_new (receipt_decision (completed_receipt c))
          = Ok (AuditIdentifier (receipt_decision (completed_receipt c)))"
      "identifier_new (policy_version_str (completed_policy_version c))
          = Ok (AuditIdentifier (policy_version_str (completed_policy_version c)))"
      using True ident by blast+
    then have "?built = Ok p"
      by (simp add: completed_audit_payload_def project_def p)
    with True facts [OF p] show ?thesis
      by (cases "out_error_code (completed_outcome c)") (simp_all add: completed_facts_def Let_def)
  next
    case False
    then have "\<not> is_ok ?built"
      by (auto simp: completed_audit_payload_def project_def Let_def is_ok_iff split: sum.splits)
    with False show ?thesis by (auto simp: is_ok_iff)
  qed
qed

theorem completed_audit_payload_exact_witness:
  "\<exists>payload. completed_audit_payload (project example_completed) = Ok payload \<and> payload_len payload = 18"
proof -
  have "is_ok (identifier_new ''fs.write'')" "is_ok (identifier_new ''/a'')" "is_ok (identifier_new ''d1'')"
    "is_ok (identifier_new ''v1'')"
    by (simp_all add: identifier_new_def chars_def is_control_def)
  then show ?thesis
    using completed_audit_payload_exact [of example_completed]
    by (auto simp: example_completed_def example_metadata_def example_inputs_def is_ok_iff)
qed

end
