(* ===== verification/AgentReducer.thy ===== *)
theory AgentReducer
  imports StdModel Prelude
begin

text \<open>
  The agent core, \<open>crates/openbot-domain/src/agent.rs\<close>: the profile policy and the reducer that turns
  an event into the next state and the effects to perform. The lemmas follow whole runs: the tool-step
  budget, the single terminal commit, and that every unfinished run can be brought to an end.
\<close>

section \<open>Profile policy\<close>

datatype agent_visibility = Public | Private

record agent_actor =
  agent_actor_id :: string
  agent_actor_admin :: bool

record agent_profile_facts =
  owner_user_id :: "string option"
  visibility :: agent_visibility
  system_owned :: bool
  deleted :: bool

definition can_access_agent :: "agent_actor \<Rightarrow> agent_profile_facts \<Rightarrow> bool" where
  "can_access_agent a p \<longleftrightarrow>
     \<not> deleted p \<and> (visibility p = Public \<or> owner_user_id p = Some (agent_actor_id a) \<or> agent_actor_admin a)"

definition can_manage_agent :: "agent_actor \<Rightarrow> agent_profile_facts \<Rightarrow> bool" where
  "can_manage_agent a p \<longleftrightarrow>
     \<not> deleted p \<and> \<not> system_owned p \<and> (owner_user_id p = Some (agent_actor_id a) \<or> agent_actor_admin a)"

definition can_run_agent :: "agent_actor \<Rightarrow> agent_profile_facts \<Rightarrow> bool" where
  "can_run_agent = can_access_agent"

section \<open>States, events, effects\<close>

datatype agent_phase =
    Queued | Preparing | Sampling | AwaitingApproval | AwaitingHuman | ExecutingTools
  | CommittingResults | Cancelling | Succeeded | Failed | Cancelled | NeedsReconciliation

fun is_terminal :: "agent_phase \<Rightarrow> bool" where
  "is_terminal p \<longleftrightarrow> p = Succeeded \<or> p = Failed \<or> p = Cancelled \<or> p = NeedsReconciliation"

datatype agent_failure =
    ProviderAuthentication | ProviderRateLimited | ProviderUnavailable | ProviderCommitUnknown
  | ProviderInvalidResponse | ProviderStreamStalled | ProviderGenerationFailed
  | ProviderTokenBudgetExceeded | RunTokenBudgetExceeded | RunCostBudgetUnpriced
  | RunCostBudgetCurrencyMismatch | RunCostBudgetExceeded | ToolStepLimit | ToolLoopUnavailable
  | ToolDenied | RuntimeLeaseLost | JournalCommitUnknownFailure

datatype agent_terminal =
    EndSucceeded | EndFailed agent_failure | EndCancelled | EndReconciliation agent_failure

record agent_tool_call =
  tool_call_id :: string
  tool_call_name :: string
  tool_call_arguments :: json

record agent_state =
  run_id :: string
  phase :: agent_phase
  tool_steps :: u8
  pending_terminal :: "agent_terminal option"

definition queued :: "string \<Rightarrow> agent_state" where
  "queued r = \<lparr>run_id = r, phase = Queued, tool_steps = 0, pending_terminal = None\<rparr>"

datatype agent_event =
    DispatchActivated
  | ContextPrepared
  | ContextFailed agent_failure
  | ProviderTextDelta string
  | ProviderReasoningDelta string
  | ProviderToolCalls "agent_tool_call list"
  | ProviderCompleted
  | ProviderFailed agent_failure
  | ToolResultCommitted
  | ToolRuntimeUnavailable
  | ApprovalRequired
  | ApprovalGranted
  | ApprovalDenied
  | HumanRequired
  | HumanReleased
  | RemoteResumeReady
  | RemoteResumeFailed agent_failure
  | CancelRequested
  | ChildrenStopped
  | TerminalCommitted
  | LeaseLost
  | JournalCommitUnknown

datatype agent_effect =
    LoadContext
  | StartProvider
  | PersistText string
  | PersistReasoning string
  | InvokeTools "agent_tool_call list"
  | AwaitApproval
  | AwaitHuman
  | CancelChildren
  | CommitTerminal agent_terminal

datatype agent_invariant_violation = AgentInvariantViolation

section \<open>The reducer\<close>

definition begin_terminal :: "agent_state \<Rightarrow> agent_terminal \<Rightarrow> agent_state \<times> agent_effect list" where
  "begin_terminal s t =
     (s\<lparr>phase := CommittingResults, pending_terminal := Some t\<rparr>, [CommitTerminal t])"

definition failure_terminal :: "agent_failure \<Rightarrow> agent_terminal" where
  "failure_terminal f =
     (if f \<in> {ProviderCommitUnknown, RuntimeLeaseLost, JournalCommitUnknownFailure}
      then EndReconciliation f else EndFailed f)"

fun terminal_phase :: "agent_terminal \<Rightarrow> agent_phase" where
  "terminal_phase EndSucceeded = Succeeded"
| "terminal_phase (EndFailed _) = Failed"
| "terminal_phase EndCancelled = Cancelled"
| "terminal_phase (EndReconciliation _) = NeedsReconciliation"

text \<open>The guard of the tool-call branch: well-formed calls with pairwise different ids.\<close>

definition well_formed_calls :: "agent_tool_call list \<Rightarrow> bool" where
  "well_formed_calls calls \<longleftrightarrow>
     calls \<noteq> []
     \<and> (\<forall>c\<in>set calls. tool_call_id c \<noteq> [] \<and> tool_call_name c \<noteq> [] \<and> is_object (tool_call_arguments c))
     \<and> (\<forall>index<length calls. \<forall>prior\<in>set (take index calls). tool_call_id prior \<noteq> tool_call_id (calls ! index))"

definition u8_try_from :: "nat \<Rightarrow> u8 option" where
  "u8_try_from n = (if n < 256 then Some (of_nat n) else None)"

definition u8_checked_add :: "u8 \<Rightarrow> u8 \<Rightarrow> u8 option" where
  "u8_checked_add a b = (if unat a + unat b < 256 then Some (a + b) else None)"

text \<open>
  \<open>reduce\<close>, its match on phase and event written by event: every event is accepted in the phases its
  arms list, and refused in all others.
\<close>

type_synonym reduction = "(agent_invariant_violation, agent_state \<times> agent_effect list) result"

definition reduce_tool_calls :: "agent_state \<Rightarrow> agent_tool_call list \<Rightarrow> reduction" where
  "reduce_tool_calls s calls =
     (if well_formed_calls calls then
        (case u8_try_from (length calls) of
           None \<Rightarrow> Err AgentInvariantViolation
         | Some count \<Rightarrow>
             if (case u8_checked_add (tool_steps s) count of None \<Rightarrow> True | Some steps \<Rightarrow> steps > 8)
             then Ok (begin_terminal s (EndFailed ToolStepLimit))
             else Ok (s\<lparr>tool_steps := tool_steps s + count, phase := ExecutingTools\<rparr>, [InvokeTools calls]))
      else Err AgentInvariantViolation)"

definition reduce :: "agent_state \<Rightarrow> agent_event \<Rightarrow> reduction" where
  "reduce s e =
     (let accept = (\<lambda>phases r. if phase s \<in> set phases then Ok r else Err AgentInvariantViolation) in
      if is_terminal (phase s) then Err AgentInvariantViolation
      else case e of
        DispatchActivated \<Rightarrow> accept [Queued] (s\<lparr>phase := Preparing\<rparr>, [LoadContext])
      | ContextPrepared \<Rightarrow> accept [Preparing] (s\<lparr>phase := Sampling\<rparr>, [StartProvider])
      | ContextFailed f \<Rightarrow> accept [Preparing] (begin_terminal s (failure_terminal f))
      | ProviderTextDelta delta \<Rightarrow>
          if delta \<noteq> [] then accept [Sampling] (s, [PersistText delta]) else Err AgentInvariantViolation
      | ProviderReasoningDelta delta \<Rightarrow>
          if delta \<noteq> [] then accept [Sampling] (s, [PersistReasoning delta]) else Err AgentInvariantViolation
      | ProviderToolCalls calls \<Rightarrow>
          if phase s = Sampling then reduce_tool_calls s calls else Err AgentInvariantViolation
      | ApprovalRequired \<Rightarrow> accept [ExecutingTools] (s\<lparr>phase := AwaitingApproval\<rparr>, [AwaitApproval])
      | ApprovalGranted \<Rightarrow> accept [AwaitingApproval] (s\<lparr>phase := ExecutingTools\<rparr>, [])
      | ApprovalDenied \<Rightarrow> accept [AwaitingApproval] (begin_terminal s (EndFailed ToolDenied))
      | ToolResultCommitted \<Rightarrow> accept [ExecutingTools] (s\<lparr>phase := Preparing\<rparr>, [LoadContext])
      | ToolRuntimeUnavailable \<Rightarrow> accept [ExecutingTools] (begin_terminal s (EndFailed ToolLoopUnavailable))
      | ProviderCompleted \<Rightarrow> accept [Sampling] (begin_terminal s EndSucceeded)
      | ProviderFailed f \<Rightarrow> accept [Sampling] (begin_terminal s (failure_terminal f))
      | HumanRequired \<Rightarrow> accept [Sampling, ExecutingTools] (s\<lparr>phase := AwaitingHuman\<rparr>, [AwaitHuman])
      | HumanReleased \<Rightarrow> accept [AwaitingHuman] (s\<lparr>phase := ExecutingTools\<rparr>, [])
      | RemoteResumeReady \<Rightarrow> accept [AwaitingHuman] (s\<lparr>phase := Preparing\<rparr>, [LoadContext])
      | RemoteResumeFailed f \<Rightarrow> accept [AwaitingHuman] (begin_terminal s (failure_terminal f))
      | CancelRequested \<Rightarrow>
          accept [Queued, Preparing, Sampling, AwaitingApproval, AwaitingHuman, ExecutingTools]
            (s\<lparr>phase := Cancelling\<rparr>, [CancelChildren])
      | ChildrenStopped \<Rightarrow> accept [Cancelling] (begin_terminal s EndCancelled)
      | LeaseLost \<Rightarrow>
          accept [Preparing, Sampling, AwaitingApproval, AwaitingHuman, ExecutingTools, Cancelling]
            (begin_terminal s (EndReconciliation RuntimeLeaseLost))
      | JournalCommitUnknown \<Rightarrow>
          accept [Preparing, Sampling, AwaitingApproval, AwaitingHuman, ExecutingTools, Cancelling]
            (begin_terminal s (EndReconciliation JournalCommitUnknownFailure))
      | TerminalCommitted \<Rightarrow>
          if phase s = CommittingResults then
            (case pending_terminal s of
               None \<Rightarrow> Err AgentInvariantViolation
             | Some t \<Rightarrow> Ok (s\<lparr>phase := terminal_phase t, pending_terminal := None\<rparr>, []))
          else Err AgentInvariantViolation)"

section \<open>Whole runs\<close>

text \<open>A run with the log of the effects it performed; a refused event changes nothing.\<close>

definition logged_step :: "agent_state \<times> agent_effect list \<Rightarrow> agent_event
    \<Rightarrow> (agent_invariant_violation, agent_state \<times> agent_effect list) result" where
  "logged_step = (\<lambda>(s, log) e. case reduce s e of Inl v \<Rightarrow> Err v | Inr (t, effects) \<Rightarrow> Ok (t, log @ effects))"

primrec run_agent :: "agent_state \<times> agent_effect list \<Rightarrow> agent_event list \<Rightarrow> agent_state \<times> agent_effect list" where
  "run_agent s [] = s"
| "run_agent s (e # es) = run_agent (case logged_step s e of Inr t \<Rightarrow> t | Inl _ \<Rightarrow> s) es"

fun effect_commits :: "agent_effect \<Rightarrow> agent_terminal list" where
  "effect_commits (CommitTerminal t) = [t]"
| "effect_commits _ = []"

fun effect_calls :: "agent_effect \<Rightarrow> agent_tool_call list" where
  "effect_calls (InvokeTools calls) = calls"
| "effect_calls _ = []"

definition commits :: "agent_effect list \<Rightarrow> agent_terminal list" where
  "commits log = concat (map effect_commits log)"

definition invoked :: "agent_effect list \<Rightarrow> agent_tool_call list" where
  "invoked log = concat (map effect_calls log)"

lemma commits_simps [simp]:
  "commits [] = []" "commits (e # log) = effect_commits e @ commits log" "commits (xs @ ys) = commits xs @ commits ys"
  by (simp_all add: commits_def)

lemma invoked_simps [simp]:
  "invoked [] = []" "invoked (e # log) = effect_calls e @ invoked log" "invoked (xs @ ys) = invoked xs @ invoked ys"
  by (simp_all add: invoked_def)

definition agent_inv :: "agent_state \<times> agent_effect list \<Rightarrow> bool" where
  "agent_inv = (\<lambda>(s, log).
     unat (tool_steps s) \<le> 8 \<and> length (invoked log) = unat (tool_steps s)
     \<and> (\<forall>calls. InvokeTools calls \<in> set log \<longrightarrow> well_formed_calls calls)
     \<and> (if phase s = CommittingResults then \<exists>t. pending_terminal s = Some t \<and> commits log = [t]
        else pending_terminal s = None
          \<and> (if is_terminal (phase s) then \<exists>t. commits log = [t] \<and> phase s = terminal_phase t
             else commits log = [])))"

lemma begin_terminal_inv:
  "agent_inv (s, log) \<Longrightarrow> \<not> is_terminal (phase s) \<Longrightarrow> phase s \<noteq> CommittingResults \<Longrightarrow>
   agent_inv (fst (begin_terminal s t), log @ snd (begin_terminal s t))"
  by (auto simp: agent_inv_def begin_terminal_def)

lemma reduce_tool_calls_inv:
  assumes "agent_inv (s, log)" "phase s = Sampling" "reduce_tool_calls s calls = Ok (t, effects)"
  shows "agent_inv (t, log @ effects)"
proof (cases "u8_try_from (length calls)")
  case None
  with assms(3) show ?thesis by (simp add: reduce_tool_calls_def split: if_splits)
next
  case (Some count)
  then have count: "unat count = length calls" and wf: "well_formed_calls calls"
    using assms(3)
    by (auto simp: u8_try_from_def unat_of_nat take_bit_nat_eq_self reduce_tool_calls_def split: if_splits)
  show ?thesis
  proof (cases "case u8_checked_add (tool_steps s) count of None \<Rightarrow> True | Some steps \<Rightarrow> steps > 8")
    case True
    with assms Some wf have "(t, effects) = begin_terminal s (EndFailed ToolStepLimit)"
      by (simp add: reduce_tool_calls_def)
    moreover have "\<not> is_terminal (phase s)" "phase s \<noteq> CommittingResults" using assms(2) by simp_all
    ultimately show ?thesis
      using begin_terminal_inv [OF assms(1), of "EndFailed ToolStepLimit"] by (metis fst_conv snd_conv)
  next
    case False
    then have sum: "unat (tool_steps s + count) = unat (tool_steps s) + unat count" "unat (tool_steps s + count) \<le> 8"
      by (auto simp: u8_checked_add_def unat_add_lem [symmetric] word_le_nat_alt not_less split: if_splits)
    with assms Some False wf count show ?thesis
      by (auto simp: reduce_tool_calls_def agent_inv_def)
  qed
qed

text \<open>Every accepted event is of one of four kinds.\<close>

definition active :: "agent_phase \<Rightarrow> bool" where
  "active p \<longleftrightarrow> \<not> is_terminal p \<and> p \<noteq> CommittingResults"

lemma active_simps [simp]:
  "active Queued" "active Preparing" "active Sampling" "active AwaitingApproval" "active AwaitingHuman"
  "active ExecutingTools" "active Cancelling" "\<not> active CommittingResults" "\<not> active Succeeded"
  "\<not> active Failed" "\<not> active Cancelled" "\<not> active NeedsReconciliation"
  by (simp_all add: active_def)

definition quiet :: "agent_effect list \<Rightarrow> bool" where
  "quiet effects \<longleftrightarrow> commits effects = [] \<and> (\<forall>x\<in>set effects. \<forall>calls. x \<noteq> InvokeTools calls)"

lemma quiet_simps [simp]:
  "quiet []" "quiet [LoadContext]" "quiet [StartProvider]" "quiet [PersistText d]" "quiet [PersistReasoning d]"
  "quiet [AwaitApproval]" "quiet [AwaitHuman]" "quiet [CancelChildren]"
  by (simp_all add: quiet_def)

lemma quiet_invoked: "quiet effects \<Longrightarrow> invoked effects = []"
proof -
  assume q: "quiet effects"
  have "effect_calls x = []" if "x \<in> set effects" for x
    using q that by (cases x) (auto simp: quiet_def)
  then show ?thesis by (simp add: invoked_def)
qed

definition moves :: "agent_state \<Rightarrow> agent_state \<times> agent_effect list \<Rightarrow> bool" where
  "moves s r \<longleftrightarrow> (\<exists>p. active p \<and> fst r = s\<lparr>phase := p\<rparr> \<and> quiet (snd r))"

definition ends :: "agent_state \<Rightarrow> agent_state \<times> agent_effect list \<Rightarrow> bool" where
  "ends s r \<longleftrightarrow> (\<exists>x. r = begin_terminal s x)"

lemma moves_intros:
  "active p \<Longrightarrow> quiet effects \<Longrightarrow> moves s (s\<lparr>phase := p\<rparr>, effects)"
  "active (phase s) \<Longrightarrow> quiet effects \<Longrightarrow> moves s (s, effects)"
  "ends s (begin_terminal s x)"
proof -
  assume "active (phase s)" "quiet effects"
  then show "moves s (s, effects)" unfolding moves_def by (intro exI [of _ "phase s"]) simp
qed (auto simp: moves_def ends_def)

lemma reduce_kinds:
  assumes "reduce s e = Ok r"
  shows "active (phase s) \<and> (moves s r \<or> ends s r)
    \<or> phase s = Sampling \<and> (\<exists>calls. e = ProviderToolCalls calls \<and> reduce_tool_calls s calls = Ok r)
    \<or> (\<exists>x. e = TerminalCommitted \<and> phase s = CommittingResults \<and> pending_terminal s = Some x
          \<and> r = (s\<lparr>phase := terminal_phase x, pending_terminal := None\<rparr>, []))"
proof -
  have deltas: "phase s = Sampling \<Longrightarrow> moves s (s, [PersistText d])" "phase s = Sampling \<Longrightarrow> moves s (s, [PersistReasoning d])" for d
    by (simp_all add: moves_intros)
  show ?thesis
    using assms
    by (cases e)
       (simp_all add: reduce_def Let_def moves_intros deltas split: if_splits option.splits,
        auto simp: moves_intros deltas)
qed

lemma moves_inv:
  assumes "agent_inv (s, log)" "active (phase s)" "moves s (t, effects)"
  shows "agent_inv (t, log @ effects)"
  using assms quiet_invoked [of effects]
  by (auto simp: agent_inv_def moves_def quiet_def active_def)

lemma reduce_inv:
  assumes inv: "agent_inv (s, log)" and step: "reduce s e = Ok (t, effects)"
  shows "agent_inv (t, log @ effects)"
  using reduce_kinds [OF step]
proof (elim disjE conjE exE)
  assume "active (phase s)" "moves s (t, effects)"
  with inv show ?thesis by (rule moves_inv)
next
  assume "active (phase s)" "ends s (t, effects)"
  with begin_terminal_inv [OF inv] show ?thesis
    by (auto simp: ends_def active_def) (metis fst_conv snd_conv)
next
  fix calls assume "phase s = Sampling" "reduce_tool_calls s calls = Ok (t, effects)"
  with inv show ?thesis by (rule reduce_tool_calls_inv)
next
  fix x assume "phase s = CommittingResults" "pending_terminal s = Some x"
    "(t, effects) = (s\<lparr>phase := terminal_phase x, pending_terminal := None\<rparr>, [])"
  with inv show ?thesis by (cases x) (auto simp: agent_inv_def)
qed

interpretation agent: guarded_machine logged_step agent_inv
proof
  fix s t :: "agent_state \<times> agent_effect list" and e
  assume "agent_inv s" "logged_step s e = Ok t"
  then show "agent_inv t"
    by (cases s) (auto simp: logged_step_def reduce_inv split: sum.splits)
qed

lemma run_agent_eq: "run_agent s es = agent.run_events s es"
  by (induction es arbitrary: s) simp_all

lemma run_agent_append: "run_agent s (xs @ ys) = run_agent (run_agent s xs) ys"
  by (simp add: run_agent_eq agent.run_events_append)

lemma agent_inv_queued: "agent_inv (queued r, [])"
  by (simp add: agent_inv_def queued_def)

lemma run_agent_inv: "run_agent (queued r, []) es = (s, log) \<Longrightarrow> agent_inv (s, log)"
  using agent.run_events_inv [OF agent_inv_queued, of r es] by (simp add: run_agent_eq)

lemma logged_step_terminal: "is_terminal (phase s) \<Longrightarrow> logged_step (s, log) e = Err AgentInvariantViolation"
  by (auto simp: logged_step_def reduce_def)

lemma run_agent_terminal: "is_terminal (phase s) \<Longrightarrow> run_agent (s, log) es = (s, log)"
  unfolding run_agent_eq by (rule agent.run_events_stuck) (auto simp: logged_step_terminal)

lemma terminal_phase_terminal: "is_terminal (terminal_phase x)" "terminal_phase x \<noteq> CommittingResults"
  by (cases x; simp)+

text \<open>What is true of a run once its terminal has been handed to the journal.\<close>

definition closing :: "agent_effect list \<Rightarrow> agent_terminal \<Rightarrow> agent_state \<times> agent_effect list \<Rightarrow> bool" where
  "closing log x = (\<lambda>(s, log'). log' = log
     \<and> (phase s = CommittingResults \<and> pending_terminal s = Some x \<or> phase s = terminal_phase x))"

lemma closing_step:
  assumes "closing log x (s, log')" "logged_step (s, log') e = Ok t"
  shows "closing log x t"
proof -
  obtain r where r: "reduce s e = Ok r" "t = (fst r, log' @ snd r)"
    using assms(2) by (auto simp: logged_step_def split: sum.splits)
  from assms logged_step_terminal [of s log' e] terminal_phase_terminal
  have "phase s = CommittingResults" "pending_terminal s = Some x"
    by (auto simp: closing_def)
  with reduce_kinds [OF r(1)] assms(1) r(2) show ?thesis
    by (auto simp: closing_def)
qed

text \<open>What is true of a run once cancelling has begun.\<close>

definition cancelled_run :: "agent_tool_call list \<Rightarrow> agent_state \<times> agent_effect list \<Rightarrow> bool" where
  "cancelled_run calls = (\<lambda>(s, log). invoked log = calls
     \<and> (phase s = Cancelling
        \<or> phase s = CommittingResults
            \<and> (pending_terminal s = Some EndCancelled \<or> (\<exists>f. pending_terminal s = Some (EndReconciliation f)))
        \<or> phase s = Cancelled \<or> phase s = NeedsReconciliation))"

lemma cancelled_run_step:
  assumes "cancelled_run calls (s, log)" "logged_step (s, log) e = Ok t"
  shows "cancelled_run calls t"
proof -
  obtain r where r: "reduce s e = Ok r" "t = (fst r, log @ snd r)"
    using assms(2) by (auto simp: logged_step_def split: sum.splits)
  have "\<not> is_terminal (phase s)" using r(1) by (auto simp: reduce_def)
  with assms(1) have "phase s = Cancelling \<or> phase s = CommittingResults"
    by (auto simp: cancelled_run_def)
  then show ?thesis
  proof
    assume "phase s = Cancelling"
    with r assms(1) show ?thesis
      by (cases e) (auto simp: reduce_def cancelled_run_def begin_terminal_def Let_def split: if_splits)
  next
    assume "phase s = CommittingResults"
    with reduce_kinds [OF r(1)] assms(1) r(2) show ?thesis
      by (auto simp: cancelled_run_def)
  qed
qed

lemma closing_step': "closing log x r \<Longrightarrow> logged_step r e = Ok t \<Longrightarrow> closing log x t"
  using closing_step [of log x "fst r" "snd r"] by simp

lemma cancelled_run_step': "cancelled_run calls r \<Longrightarrow> logged_step r e = Ok t \<Longrightarrow> cancelled_run calls t"
  using cancelled_run_step [of calls "fst r" "snd r"] by simp

section \<open>Properties\<close>

text \<open>C17: Whatever events arrive, a run never invokes more than eight tools: the calls handed out are
  exactly the steps counted, the counter never passes eight, and every batch has well-formed calls
  with pairwise different ids.\<close>

theorem tool_budget:
  assumes "run_agent (queued r, []) es = (s, log)"
  shows "length (invoked log) = unat (tool_steps s) \<and> unat (tool_steps s) \<le> 8
    \<and> (\<forall>calls. InvokeTools calls \<in> set log \<longrightarrow> well_formed_calls calls)"
  using run_agent_inv [OF assms] by (simp add: agent_inv_def)

theorem tool_budget_witness:
  "let call = \<lparr>tool_call_id = ''c1'', tool_call_name = ''fs.read'', tool_call_arguments = JObject []\<rparr>;
       (s, log) = run_agent (queued ''r'', []) [DispatchActivated, ContextPrepared, ProviderToolCalls [call]]
   in invoked log = [call] \<and> unat (tool_steps s) = 1"
proof -
  let ?call = "\<lparr>tool_call_id = ''c1'', tool_call_name = ''fs.read'', tool_call_arguments = JObject []\<rparr>"
  let ?es = "[DispatchActivated, ContextPrepared, ProviderToolCalls [?call]]"
  obtain s log where run: "run_agent (queued ''r'', []) ?es = (s, log)" by (cases "run_agent (queued ''r'', []) ?es")
  then have "invoked log = [?call]"
    by (auto simp: logged_step_def reduce_def queued_def reduce_tool_calls_def well_formed_calls_def
        u8_try_from_def u8_checked_add_def)
  with tool_budget [OF run] run show ?thesis by simp
qed

text \<open>C18: A run commits its end exactly once: at most one terminal is ever handed to the journal, and a run
  that reached a terminal phase handed out exactly the terminal of that phase.\<close>

theorem terminal_committed_once:
  assumes "run_agent (queued r, []) es = (s, log)"
  shows "length (commits log) \<le> 1
    \<and> (is_terminal (phase s) \<longleftrightarrow> pending_terminal s = None \<and> (\<exists>t. commits log = [t] \<and> phase s = terminal_phase t))
    \<and> (phase s = CommittingResults \<longleftrightarrow> (\<exists>t. pending_terminal s = Some t \<and> commits log = [t]))"
  using run_agent_inv [OF assms] terminal_phase_terminal
  by (auto simp: agent_inv_def split: if_splits)

theorem terminal_committed_once_witness:
  "let (s, log) = run_agent (queued ''r'', []) [CancelRequested, ChildrenStopped, TerminalCommitted]
   in phase s = Cancelled \<and> commits log = [EndCancelled] \<and> length (commits log) \<le> 1"
proof -
  let ?es = "[CancelRequested, ChildrenStopped, TerminalCommitted]"
  obtain s log where run: "run_agent (queued ''r'', []) ?es = (s, log)" by (cases "run_agent (queued ''r'', []) ?es")
  then have "phase s = Cancelled \<and> commits log = [EndCancelled]"
    by (auto simp: logged_step_def reduce_def queued_def begin_terminal_def)
  with terminal_committed_once [OF run] run show ?thesis by simp
qed

text \<open>After a run has handed out its terminal nothing else happens: no later event causes an effect, no
  other terminal is ever reached, and a finished run refuses every event.\<close>

theorem terminal_is_final:
  assumes "run_agent (queued r, []) es = (s, log)" "commits log = [t]"
    and "run_agent (queued r, []) (es @ es') = (s', log')"
  shows "log' = log \<and> (phase s' = CommittingResults \<and> pending_terminal s' = Some t \<or> phase s' = terminal_phase t)
    \<and> (is_terminal (phase s) \<longrightarrow> s' = s \<and> (\<forall>e. reduce s e = Err AgentInvariantViolation))"
proof -
  have run: "run_agent (s, log) es' = (s', log')"
    using assms(1,3) by (simp add: run_agent_append)
  have "closing log t (s, log)"
    using run_agent_inv [OF assms(1)] assms(2) by (auto simp: closing_def agent_inv_def split: if_splits)
  then have "closing log t (run_agent (s, log) es')"
    unfolding run_agent_eq by (rule agent.run_events_preserves [rotated]) (rule closing_step', assumption+)
  with run have "closing log t (s', log')" by simp
  moreover have "is_terminal (phase s) \<longrightarrow> s' = s" using run run_agent_terminal [of s log es'] by auto
  moreover have "is_terminal (phase s) \<longrightarrow> (\<forall>e. reduce s e = Err AgentInvariantViolation)"
    by (simp add: reduce_def)
  ultimately show ?thesis by (simp add: closing_def)
qed

theorem terminal_is_final_witness:
  "let (s', log') = run_agent (queued ''r'', []) ([CancelRequested, ChildrenStopped] @ [DispatchActivated, LeaseLost])
   in log' = [CancelChildren, CommitTerminal EndCancelled] \<and> phase s' \<noteq> NeedsReconciliation"
proof -
  obtain s log where a: "run_agent (queued ''r'', []) [CancelRequested, ChildrenStopped] = (s, log)"
    by (cases "run_agent (queued ''r'', []) [CancelRequested, ChildrenStopped]")
  then have log: "log = [CancelChildren, CommitTerminal EndCancelled]"
    by (auto simp: logged_step_def reduce_def queued_def begin_terminal_def)
  obtain s' log' where b: "run_agent (queued ''r'', []) ([CancelRequested, ChildrenStopped] @ [DispatchActivated, LeaseLost]) = (s', log')"
    by (cases "run_agent (queued ''r'', []) ([CancelRequested, ChildrenStopped] @ [DispatchActivated, LeaseLost])")
  from terminal_is_final [OF a _ b, of EndCancelled] log have "log' = log" "phase s' \<noteq> NeedsReconciliation" by auto
  then show ?thesis unfolding b using log by simp
qed

text \<open>C19: No run can get stuck: from every state a run can be in, at most three further events bring it to
  a terminal phase.\<close>

theorem run_can_end:
  "\<exists>es'. length es' \<le> 3 \<and> is_terminal (phase (fst (run_agent (queued r, []) (es @ es'))))"
proof -
  obtain s log where run: "run_agent (queued r, []) es = (s, log)" by (cases "run_agent (queued r, []) es")
  have inv: "agent_inv (s, log)" by (rule run_agent_inv [OF run])
  have commit: "is_terminal (phase (fst (run_agent (t, l) [TerminalCommitted])))"
    if "phase t = CommittingResults" "pending_terminal t = Some x" for t l x
    using that terminal_phase_terminal [of x] by (simp add: logged_step_def reduce_def)
  have stop: "is_terminal (phase (fst (run_agent (t, l) [ChildrenStopped, TerminalCommitted])))"
    if "phase t = Cancelling" for t l
    using that by (simp add: logged_step_def reduce_def begin_terminal_def)
  have cancel: "is_terminal (phase (fst (run_agent (s, log) [CancelRequested, ChildrenStopped, TerminalCommitted])))"
    if "phase s \<in> {Queued, Preparing, Sampling, AwaitingApproval, AwaitingHuman, ExecutingTools}"
    using that by (auto simp: logged_step_def reduce_def begin_terminal_def)
  have "\<exists>es'. length es' \<le> 3 \<and> is_terminal (phase (fst (run_agent (s, log) es')))"
  proof (cases "is_terminal (phase s)")
    case True
    then show ?thesis by (intro exI [of _ "[]"]) simp
  next
    case False
    consider "phase s = CommittingResults" | "phase s = Cancelling"
      | "phase s \<in> {Queued, Preparing, Sampling, AwaitingApproval, AwaitingHuman, ExecutingTools}"
      using False by (cases "phase s") auto
    then show ?thesis
    proof cases
      case 1
      with inv obtain x where "pending_terminal s = Some x" by (auto simp: agent_inv_def)
      with 1 commit show ?thesis by (intro exI [of _ "[TerminalCommitted]"]) (simp del: run_agent.simps)
    next
      case 2
      with stop show ?thesis by (intro exI [of _ "[ChildrenStopped, TerminalCommitted]"]) (simp del: run_agent.simps)
    next
      case 3
      with cancel show ?thesis
        by (intro exI [of _ "[CancelRequested, ChildrenStopped, TerminalCommitted]"]) (simp del: run_agent.simps)
    qed
  qed
  with run show ?thesis by (simp add: run_agent_append)
qed

text \<open>Cancelling is irrevocable: once a run is cancelling, no further tool is invoked and the run can
  only end as cancelled or as needing reconciliation, never as succeeded or failed.\<close>

theorem cancelling_is_irrevocable:
  assumes "phase s = Cancelling" "run_agent (s, log) es = (s', log')"
  shows "invoked log' = invoked log \<and> phase s' \<noteq> Succeeded \<and> phase s' \<noteq> Failed
    \<and> (is_terminal (phase s') \<longrightarrow> phase s' = Cancelled \<or> phase s' = NeedsReconciliation)"
proof -
  have "cancelled_run (invoked log) (s, log)" using assms(1) by (simp add: cancelled_run_def)
  then have "cancelled_run (invoked log) (run_agent (s, log) es)"
    unfolding run_agent_eq by (rule agent.run_events_preserves [rotated]) (rule cancelled_run_step', assumption+)
  with assms(2) show ?thesis by (auto simp: cancelled_run_def)
qed

theorem cancelling_is_irrevocable_witness:
  "let (s, log) = run_agent ((queued ''r'')\<lparr>phase := Cancelling\<rparr>, []) [ProviderCompleted, LeaseLost, TerminalCommitted]
   in invoked log = [] \<and> phase s = NeedsReconciliation"
proof -
  let ?s = "(queued ''r'')\<lparr>phase := Cancelling\<rparr>" and ?es = "[ProviderCompleted, LeaseLost, TerminalCommitted]"
  obtain s log where run: "run_agent (?s, []) ?es = (s, log)" by (cases "run_agent (?s, []) ?es")
  then have "phase s = NeedsReconciliation"
    by (auto simp: logged_step_def reduce_def queued_def begin_terminal_def)
  moreover have "invoked log = []"
    using cancelling_is_irrevocable [OF _ run] by simp
  ultimately show ?thesis unfolding run by simp
qed

text \<open>Nobody touches a deleted profile; only the owner or an administrator manages a profile, never a
  system profile; whoever may manage may also access; and running an agent needs exactly the right to
  access it.\<close>

theorem profile_policy:
  "(deleted p \<longrightarrow> \<not> can_access_agent a p \<and> \<not> can_manage_agent a p)
   \<and> (can_manage_agent a p \<longrightarrow> can_access_agent a p \<and> \<not> system_owned p
        \<and> (owner_user_id p = Some (agent_actor_id a) \<or> agent_actor_admin a))
   \<and> (can_access_agent a p \<longrightarrow> visibility p = Public \<or> owner_user_id p = Some (agent_actor_id a) \<or> agent_actor_admin a)
   \<and> (can_run_agent a p \<longleftrightarrow> can_access_agent a p)"
  by (auto simp: can_access_agent_def can_manage_agent_def can_run_agent_def)

theorem profile_policy_witness:
  "can_access_agent \<lparr>agent_actor_id = ''u'', agent_actor_admin = False\<rparr>
     \<lparr>owner_user_id = Some ''u'', visibility = Private, system_owned = False, deleted = False\<rparr>"
proof -
  let ?a = "\<lparr>agent_actor_id = ''u'', agent_actor_admin = False\<rparr>"
  let ?p = "\<lparr>owner_user_id = Some ''u'', visibility = Private, system_owned = False, deleted = False\<rparr>"
  have "can_manage_agent ?a ?p" by (simp add: can_manage_agent_def)
  with profile_policy [of ?p ?a] show ?thesis by simp
qed

end
