(* ===== verification/RunThread.thy ===== *)
theory RunThread
  imports StdModel
begin

text \<open>
  Runs and threads, \<open>crates/openbot-domain/src/run.rs\<close> and \<open>crates/openbot-domain/src/thread.rs\<close>: the run
  row's state machine, the thread row's status, the fencing token and the lease that checks it. A
  method taking \<open>&mut self\<close> is a function to the state it leaves, or the error with which it leaves
  the row unchanged.
\<close>

section \<open>Fencing tokens\<close>

datatype fencing_token = FencingToken (fencing_get: i64)

datatype fencing_token_invalid = FencingTokenInvalid

definition fencing_new :: "i64 \<Rightarrow> (fencing_token_invalid, fencing_token) result" where
  "fencing_new value = (if value <s 0 then Err FencingTokenInvalid else Ok (FencingToken value))"

text \<open>\<open>i64::saturating_add(1)\<close>.\<close>

definition i64_max :: i64 where
  "i64_max = 0x7FFFFFFFFFFFFFFF"

definition fencing_next :: "fencing_token \<Rightarrow> fencing_token" where
  "fencing_next t =
     FencingToken (if fencing_get t = i64_max then i64_max else fencing_get t + 1)"

definition fencing_value :: "fencing_token \<Rightarrow> int" where
  "fencing_value t = sint (fencing_get t)"

lemma sint_i64_max: "sint i64_max = 2 ^ 63 - 1"
  by (simp add: i64_max_def)

lemma sint_i64_bound: "sint (w :: i64) \<le> 2 ^ 63 - 1" "- (2 ^ 63) \<le> sint (w :: i64)"
  using sint_range_size [of w] by (simp_all add: word_size)

lemma sint_eq_iff: "sint (v :: i64) = sint w \<longleftrightarrow> v = w"
  by (auto intro: signed_word_eqI)

lemma sint_i64_succ:
  assumes "(w :: i64) \<noteq> i64_max"
  shows "sint (w + 1) = sint w + 1"
proof -
  have "sint w \<noteq> sint i64_max" using assms by (simp add: sint_eq_iff)
  then have "sint w + 1 < 2 ^ 63" using sint_i64_bound [of w] unfolding sint_i64_max by linarith
  then show ?thesis
    using sint_i64_bound [of w]
    by (subst sint_word_ariths(1)) (simp add: signed_take_bit_int_eq_self)
qed

interpretation fencing: saturating_counter fencing_value fencing_next "2 ^ 63 - 1"
proof
  show "fencing_value c \<le> 2 ^ 63 - 1" for c
    using sint_i64_bound by (simp add: fencing_value_def)
  show "fencing_value (fencing_next c) = min (2 ^ 63 - 1) (fencing_value c + 1)" for c
  proof (cases "fencing_get c = i64_max")
    case True
    then show ?thesis by (simp add: fencing_value_def fencing_next_def sint_i64_max)
  next
    case False
    have "sint (fencing_get c + 1) \<le> 2 ^ 63 - 1" by (rule sint_i64_bound)
    with False sint_i64_succ [OF False] show ?thesis
      by (simp add: fencing_value_def fencing_next_def)
  qed
qed

lemma fencing_value_eq_iff: "fencing_value s = fencing_value t \<longleftrightarrow> s = t"
  by (cases s; cases t) (simp add: fencing_value_def sint_eq_iff)

section \<open>Leases\<close>

record thread_lease =
  lease_thread :: string
  lease_owner :: string
  lease_fencing :: fencing_token
  acquired_at :: instant
  lease_expires_at :: instant

datatype thread_lease_error = OwnerEmpty | ExpiryInvalid

definition thread_lease_new :: "string \<Rightarrow> string \<Rightarrow> fencing_token \<Rightarrow> instant \<Rightarrow> instant
    \<Rightarrow> (thread_lease_error, thread_lease) result" where
  "thread_lease_new thread lease_by token acquired expires =
     (if lease_by = [] then Err OwnerEmpty
      else if expires \<le> acquired then Err ExpiryInvalid
      else Ok \<lparr>lease_thread = thread, lease_owner = lease_by, lease_fencing = token, acquired_at = acquired,
               lease_expires_at = expires\<rparr>)"

definition admits :: "thread_lease \<Rightarrow> fencing_token \<Rightarrow> instant \<Rightarrow> bool" where
  "admits l token now \<longleftrightarrow> token = lease_fencing l \<and> now < lease_expires_at l"

section \<open>Threads\<close>

datatype thread_status = ThreadActive | ThreadArchived | ThreadDeleted
datatype thread_anchor = Channel string | DirectBot string

record thread =
  thread_id :: string
  thread_tenant :: string
  thread_deployment :: string
  created_by :: string
  thread_anchor_of :: thread_anchor
  thread_status_of :: thread_status
  thread_created_at :: instant
  thread_updated_at :: instant
  thread_deleted_at :: "instant option"

datatype thread_state_error = ThreadIsDeleted

definition thread_new :: "string \<Rightarrow> string \<Rightarrow> string \<Rightarrow> string \<Rightarrow> thread_anchor \<Rightarrow> instant \<Rightarrow> thread" where
  "thread_new i tenant deployment creator anchor now =
     \<lparr>thread_id = i, thread_tenant = tenant, thread_deployment = deployment, created_by = creator,
      thread_anchor_of = anchor, thread_status_of = ThreadActive, thread_created_at = now,
      thread_updated_at = now, thread_deleted_at = None\<rparr>"

definition thread_archive :: "thread \<Rightarrow> instant \<Rightarrow> (thread_state_error, thread) result" where
  "thread_archive t now =
     (case thread_status_of t of
        ThreadActive \<Rightarrow> Ok (t\<lparr>thread_status_of := ThreadArchived, thread_updated_at := now\<rparr>)
      | ThreadArchived \<Rightarrow> Ok t
      | ThreadDeleted \<Rightarrow> Err ThreadIsDeleted)"

definition thread_delete :: "thread \<Rightarrow> instant \<Rightarrow> thread" where
  "thread_delete t now =
     (if thread_status_of t \<noteq> ThreadDeleted
      then t\<lparr>thread_status_of := ThreadDeleted, thread_updated_at := now, thread_deleted_at := Some now\<rparr>
      else t)"

datatype thread_op = Archive instant | Delete instant

definition thread_step :: "thread \<Rightarrow> thread_op \<Rightarrow> (thread_state_error, thread) result" where
  "thread_step t x = (case x of Archive now \<Rightarrow> thread_archive t now | Delete now \<Rightarrow> Ok (thread_delete t now))"

definition thread_inv :: "thread \<Rightarrow> bool" where
  "thread_inv t \<longleftrightarrow> (thread_status_of t = ThreadDeleted \<longleftrightarrow> thread_deleted_at t \<noteq> None)
     \<and> (\<forall>d. thread_deleted_at t = Some d \<longrightarrow> thread_updated_at t = d)"

interpretation thread: guarded_machine thread_step thread_inv
  by unfold_locales
     (auto simp: thread_step_def thread_archive_def thread_delete_def thread_inv_def
       split: thread_op.splits thread_status.splits if_splits)

primrec run_thread :: "thread \<Rightarrow> thread_op list \<Rightarrow> thread" where
  "run_thread t [] = t"
| "run_thread t (x # xs) = run_thread (case thread_step t x of Inr u \<Rightarrow> u | Inl _ \<Rightarrow> t) xs"

lemma run_thread_eq: "run_thread t xs = thread.run_events t xs"
  by (induction xs arbitrary: t) simp_all

section \<open>Runs\<close>

datatype run_status = RunQueued | RunRunning | RunCompleted | RunFailed | RunCancelled | RunReconciliation

definition blocks_foreground_slot :: "run_status \<Rightarrow> bool" where
  "blocks_foreground_slot s \<longleftrightarrow> s \<in> {RunQueued, RunRunning, RunReconciliation}"

definition run_is_terminal :: "run_status \<Rightarrow> bool" where
  "run_is_terminal s \<longleftrightarrow> s \<in> {RunCompleted, RunFailed, RunCancelled, RunReconciliation}"

record run =
  run_ident :: string
  run_thread_id :: string
  run_bot :: string
  run_actor :: string
  foreground :: bool
  run_fencing :: fencing_token
  run_status_of :: run_status
  run_created_at :: instant
  started_at :: "instant option"
  finished_at :: "instant option"
  terminal_event_sequence :: "u64 option"
  run_error_code :: "string option"

datatype run_transition_error = InvalidTransition | ErrorCodeRequired

definition run_queued :: "string \<Rightarrow> string \<Rightarrow> string \<Rightarrow> string \<Rightarrow> bool \<Rightarrow> fencing_token \<Rightarrow> instant \<Rightarrow> run" where
  "run_queued i t b a fg token now =
     \<lparr>run_ident = i, run_thread_id = t, run_bot = b, run_actor = a, foreground = fg, run_fencing = token,
      run_status_of = RunQueued, run_created_at = now, started_at = None, finished_at = None,
      terminal_event_sequence = None, run_error_code = None\<rparr>"

definition run_start :: "run \<Rightarrow> instant \<Rightarrow> (run_transition_error, run) result" where
  "run_start r now =
     (if run_status_of r \<noteq> RunQueued then Err InvalidTransition
      else Ok (r\<lparr>run_status_of := RunRunning, started_at := Some now\<rparr>))"

definition run_finish :: "run \<Rightarrow> run_status \<Rightarrow> u64 \<Rightarrow> string option \<Rightarrow> instant \<Rightarrow> (run_transition_error, run) result" where
  "run_finish r status event_sequence code now =
     (if \<not> run_is_terminal status \<or> run_is_terminal (run_status_of r)
         \<or> run_status_of r \<notin> {RunQueued, RunRunning}
      then Err InvalidTransition
      else if status \<in> {RunFailed, RunReconciliation} \<and> code = None then Err ErrorCodeRequired
      else Ok (r\<lparr>run_status_of := status, finished_at := Some now,
                 terminal_event_sequence := Some event_sequence, run_error_code := code\<rparr>))"

datatype run_op = Start instant | Finish run_status u64 "string option" instant

definition run_step :: "run \<Rightarrow> run_op \<Rightarrow> (run_transition_error, run) result" where
  "run_step r x = (case x of Start now \<Rightarrow> run_start r now | Finish status sq code now \<Rightarrow> run_finish r status sq code now)"

definition run_inv :: "run \<Rightarrow> bool" where
  "run_inv r \<longleftrightarrow>
     (run_is_terminal (run_status_of r) \<longleftrightarrow> finished_at r \<noteq> None)
     \<and> (finished_at r = None \<longleftrightarrow> terminal_event_sequence r = None)
     \<and> (run_status_of r = RunRunning \<longrightarrow> started_at r \<noteq> None)
     \<and> (run_status_of r = RunQueued \<longrightarrow> started_at r = None)
     \<and> (\<not> run_is_terminal (run_status_of r) \<longrightarrow> run_error_code r = None)
     \<and> (run_status_of r \<in> {RunFailed, RunReconciliation} \<longrightarrow> run_error_code r \<noteq> None)"

definition run_rank :: "run \<Rightarrow> nat" where
  "run_rank r = (case run_status_of r of RunQueued \<Rightarrow> 2 | RunRunning \<Rightarrow> 1 | _ \<Rightarrow> 0)"

interpretation run: bounded_machine run_step run_inv run_rank
  by unfold_locales
     (auto simp: run_step_def run_start_def run_finish_def run_inv_def run_rank_def run_is_terminal_def
       split: run_op.splits if_splits)

primrec run_run :: "run \<Rightarrow> run_op list \<Rightarrow> run" where
  "run_run r [] = r"
| "run_run r (x # xs) = run_run (case run_step r x of Inr q \<Rightarrow> q | Inl _ \<Rightarrow> r) xs"

lemma run_run_eq: "run_run r xs = run.run_events r xs"
  by (induction xs arbitrary: r) simp_all

lemma run_inv_queued: "run_inv (run_queued i t b a fg token now)"
  by (simp add: run_inv_def run_queued_def run_is_terminal_def)

lemma run_step_terminal: "run_is_terminal (run_status_of r) \<Longrightarrow> \<exists>e. run_step r x = Err e"
  by (auto simp: run_step_def run_start_def run_finish_def run_is_terminal_def split: run_op.splits)

section \<open>Properties\<close>

text \<open>C20: Fencing works: after any number of takeovers a lease carrying the newer token admits no holder of
  the older one, at any time, as long as the counter has not reached its top; a token admitted is the
  lease's own and the lease has not expired; and minting never makes a token negative.\<close>

theorem stale_token_never_admitted:
  "(0 < k \<longrightarrow> fencing_value old < 2 ^ 63 - 1 \<longrightarrow> lease_fencing l = (fencing_next ^^ k) old \<longrightarrow> \<not> admits l old now)
   \<and> (admits l token now \<longrightarrow> token = lease_fencing l \<and> now < lease_expires_at l)
   \<and> (fencing_new v = Ok token \<longrightarrow> 0 \<le> fencing_value ((fencing_next ^^ k) token))"
proof (intro conjI impI)
  assume "0 < k" "fencing_value old < 2 ^ 63 - 1" "lease_fencing l = (fencing_next ^^ k) old"
  moreover from this have "fencing_value ((fencing_next ^^ k) old) \<noteq> fencing_value old"
    by (simp add: fencing.iterate_value)
  ultimately show "\<not> admits l old now" by (auto simp: admits_def)
next
  assume "fencing_new v = Ok token"
  then have "0 \<le> fencing_value token"
    by (auto simp: fencing_new_def fencing_value_def word_sless_alt split: if_splits)
  with fencing.iterate_ge [of token k] show "0 \<le> fencing_value ((fencing_next ^^ k) token)" by simp
qed (simp_all add: admits_def)

theorem stale_token_never_admitted_witness:
  "\<not> admits \<lparr>lease_thread = ''t'', lease_owner = ''w'', lease_fencing = FencingToken 5, acquired_at = 0, lease_expires_at = 9\<rparr>
     (FencingToken 3) 1"
proof -
  let ?l = "\<lparr>lease_thread = ''t'', lease_owner = ''w'', lease_fencing = FencingToken 5, acquired_at = 0, lease_expires_at = 9\<rparr>"
  have "fencing_next (FencingToken 3) = FencingToken 4" "fencing_next (FencingToken 4) = FencingToken 5"
    by (simp_all add: fencing_next_def i64_max_def)
  then have "lease_fencing ?l = (fencing_next ^^ Suc (Suc 0)) (FencingToken 3)" by simp
  with stale_token_never_admitted [of "Suc (Suc 0)" "FencingToken 3" ?l 1] show ?thesis
    by (simp add: fencing_value_def)
qed

text \<open>C21: A run row changes at most twice after it is queued, it is finished exactly when its status is
  terminal, with the finishing time and the sequence of its terminal event recorded together, a
  failure or a reconciliation always carries an error code, and a finished row never changes again.\<close>

theorem run_row_lifecycle:
  assumes "run_run (run_queued i t b a fg token now) xs = r"
  shows "run_inv r
    \<and> (run_is_terminal (run_status_of r) \<longrightarrow> run_run r ys = r)
    \<and> (run.accepted (run_queued i t b a fg token now) zs \<longrightarrow> length zs \<le> 2)
    \<and> run_fencing r = token \<and> run_ident r = i \<and> run_created_at r = now"
proof (intro conjI impI)
  show "run_inv r"
    unfolding assms [symmetric] run_run_eq by (rule run.run_events_inv [OF run_inv_queued])
  show "run_run r ys = r" if "run_is_terminal (run_status_of r)"
    unfolding run_run_eq by (rule run.run_events_stuck) (rule run_step_terminal [OF that])
  show "length zs \<le> 2" if "run.accepted (run_queued i t b a fg token now) zs"
    using run.accepted_bound [OF run_inv_queued that] by (simp add: run_rank_def run_queued_def)
  have "run_fencing r = token \<and> run_ident r = i \<and> run_created_at r = now"
    unfolding assms [symmetric] run_run_eq
    by (rule run.run_events_preserves)
       (auto simp: run_step_def run_start_def run_finish_def run_queued_def split: run_op.splits if_splits)
  then show "run_fencing r = token" "run_ident r = i" "run_created_at r = now" by simp_all
qed

theorem run_row_lifecycle_witness:
  "let r = run_run (run_queued ''r'' ''t'' ''b'' ''a'' True (FencingToken 1) 0)
             [Start 1, Finish RunFailed 4 None 2, Finish RunCompleted 4 None 3]
   in run_status_of r = RunCompleted \<and> finished_at r = Some 3 \<and> run_run r [Start 9] = r"
proof -
  let ?r = "run_run (run_queued ''r'' ''t'' ''b'' ''a'' True (FencingToken 1) 0)
             [Start 1, Finish RunFailed 4 None 2, Finish RunCompleted 4 None 3]"
  have "run_status_of ?r = RunCompleted \<and> finished_at ?r = Some 3"
    by (simp add: run_step_def run_start_def run_finish_def run_queued_def run_is_terminal_def)
  with run_row_lifecycle [OF refl, of "''r''" "''t''" "''b''" "''a''" True "FencingToken 1" 0
      "[Start 1, Finish RunFailed 4 None 2, Finish RunCompleted 4 None 3]" "[Start 9]"]
  show ?thesis by (simp add: run_is_terminal_def)
qed

text \<open>Deleting a thread is final and idempotent: the row records the time of the first deletion, and
  no later archive or delete changes it; a thread has a deletion time exactly when it is deleted.\<close>

theorem thread_deletion_final:
  assumes "run_thread (thread_new i tenant deployment creator anchor now) xs = t"
  shows "(thread_status_of t = ThreadDeleted \<longleftrightarrow> thread_deleted_at t \<noteq> None)
    \<and> (thread_status_of t = ThreadDeleted \<longrightarrow> run_thread t ys = t)
    \<and> (thread_status_of t \<noteq> ThreadDeleted \<longrightarrow> thread_deleted_at (thread_delete t d) = Some d)
    \<and> thread_status_of (thread_delete t d) = ThreadDeleted \<and> thread_created_at t = now"
proof -
  have "thread_inv (thread_new i tenant deployment creator anchor now)"
    by (simp add: thread_inv_def thread_new_def)
  then have inv: "thread_inv t"
    using thread.run_events_inv assms by (auto simp: run_thread_eq)
  have deleted: "run_thread t ys = t" if "thread_status_of t = ThreadDeleted"
  proof (induction ys)
    case (Cons y ys)
    then show ?case
      using that by (cases y) (simp_all add: thread_step_def thread_archive_def thread_delete_def)
  qed simp
  have "thread_created_at t = now"
    unfolding assms [symmetric] run_thread_eq
    by (rule thread.run_events_preserves)
       (auto simp: thread_step_def thread_archive_def thread_delete_def thread_new_def
         split: thread_op.splits thread_status.splits if_splits)
  with inv deleted show ?thesis
    by (auto simp: thread_inv_def thread_delete_def)
qed

theorem thread_deletion_final_witness:
  "let t = run_thread (thread_new ''t'' ''te'' ''d'' ''alice'' (Channel ''c'') 0) [Archive 1, Delete 2]
   in thread_deleted_at t = Some 2 \<and> run_thread t [Delete 5, Archive 6] = t"
proof -
  let ?t = "run_thread (thread_new ''t'' ''te'' ''d'' ''alice'' (Channel ''c'') 0) [Archive 1, Delete 2]"
  have "thread_status_of ?t = ThreadDeleted \<and> thread_deleted_at ?t = Some 2"
    by (simp add: thread_step_def thread_archive_def thread_delete_def thread_new_def)
  with thread_deletion_final [OF refl, of "''t''" "''te''" "''d''" "''alice''" "Channel ''c''" 0
      "[Archive 1, Delete 2]" "[Delete 5, Archive 6]"]
  show ?thesis by (simp del: run_thread.simps)
qed

section \<open>Journal rows and transcript rows\<close>

text \<open>The stable column values; a stored value names one state, and only terminal kinds end a run.\<close>

fun run_status_str :: "run_status \<Rightarrow> string" where
  "run_status_str RunQueued = ''queued''"
| "run_status_str RunRunning = ''running''"
| "run_status_str RunCompleted = ''completed''"
| "run_status_str RunFailed = ''failed''"
| "run_status_str RunCancelled = ''cancelled''"
| "run_status_str RunReconciliation = ''reconciliation_required''"

fun thread_status_str :: "thread_status \<Rightarrow> string" where
  "thread_status_str ThreadActive = ''active''"
| "thread_status_str ThreadArchived = ''archived''"
| "thread_status_str ThreadDeleted = ''deleted''"

datatype run_event_kind =
    EvStarted | EvSemanticChunk | EvCheckpoint | EvCompleted | EvFailed | EvCancelled | EvReconciliationRequired

fun run_event_kind_str :: "run_event_kind \<Rightarrow> string" where
  "run_event_kind_str EvStarted = ''started''"
| "run_event_kind_str EvSemanticChunk = ''semantic_chunk''"
| "run_event_kind_str EvCheckpoint = ''checkpoint''"
| "run_event_kind_str EvCompleted = ''completed''"
| "run_event_kind_str EvFailed = ''failed''"
| "run_event_kind_str EvCancelled = ''cancelled''"
| "run_event_kind_str EvReconciliationRequired = ''reconciliation_required''"

definition event_kind_is_terminal :: "run_event_kind \<Rightarrow> bool" where
  "event_kind_is_terminal k \<longleftrightarrow> k \<in> {EvCompleted, EvFailed, EvCancelled, EvReconciliationRequired}"

record run_event =
  event_run :: string
  event_sequence :: u64
  event_thread :: string
  event_thread_sequence :: u64
  event_kind :: run_event_kind
  event_payload :: json
  event_created_at :: instant

datatype message_role = MessageUser | MessageAssistant | MessageSystem | MessageTool | MessageSummary

fun message_role_str :: "message_role \<Rightarrow> string" where
  "message_role_str MessageUser = ''user''"
| "message_role_str MessageAssistant = ''assistant''"
| "message_role_str MessageSystem = ''system''"
| "message_role_str MessageTool = ''tool''"
| "message_role_str MessageSummary = ''summary''"

record message =
  message_id :: string
  message_thread :: string
  message_sequence :: u64
  message_role_of :: message_role
  message_content :: json
  search_text :: string
  message_run :: "string option"
  message_actor :: "string option"
  message_created_at :: instant

lemma run_status_str_inject: "run_status_str s = run_status_str t \<longleftrightarrow> s = t"
  by (cases s; cases t) simp_all

lemma thread_status_str_inject: "thread_status_str s = thread_status_str t \<longleftrightarrow> s = t"
  by (cases s; cases t) simp_all

lemma message_role_str_inject: "message_role_str s = message_role_str t \<longleftrightarrow> s = t"
  by (cases s; cases t) simp_all

text \<open>A terminal event kind and a terminal status of the same stored value belong together.\<close>

lemma terminal_kind_matches_status:
  "run_status_str s = run_event_kind_str k \<Longrightarrow> run_is_terminal s \<and> event_kind_is_terminal k"
  by (cases s; cases k) (simp_all add: run_is_terminal_def event_kind_is_terminal_def)

end
