(* ===== verification/Identity.thy ===== *)
theory Identity
  imports StdModel
begin

text \<open>
  Identity: normalised addresses, authorization generations and roles,
  \<open>crates/openbot-domain/src/identity/email.rs\<close>, \<open>generation.rs\<close> and \<open>roles.rs\<close>, with
  \<open>AuthGeneration\<close> of \<open>crates/openbot-contracts/src/auth.rs\<close>. \<open>lower\<close> is \<open>str::to_lowercase\<close>, the full
  Unicode case mapping, an argument that carries no law.
\<close>

section \<open>Addresses\<close>

datatype normalized_email = NormalizedEmail (email_str: string)
datatype email_blank = EmailBlank

definition email_normalize :: "(string \<Rightarrow> string) \<Rightarrow> string \<Rightarrow> (email_blank, normalized_email) result" where
  "email_normalize lower raw =
     (let trimmed = trim_ecmascript raw in
      if trimmed = [] then Err EmailBlank else Ok (NormalizedEmail (lower trimmed)))"

section \<open>Authorization generations\<close>

datatype auth_generation = AuthGeneration (generation_get: u64)

definition generation_next :: "auth_generation \<Rightarrow> auth_generation" where
  "generation_next g = AuthGeneration (u64_saturating_inc (generation_get g))"

definition generation_value :: "auth_generation \<Rightarrow> int" where
  "generation_value g = uint (generation_get g)"

interpretation generation: saturating_counter generation_value generation_next "2 ^ 64 - 1"
  by unfold_locales (simp_all add: generation_value_def generation_next_def u64_saturating_inc uint_u64_bound [simplified])

datatype generation_mismatch = Stale | FromTheFuture

definition generation_check :: "auth_generation \<Rightarrow> auth_generation \<Rightarrow> (generation_mismatch, unit) result" where
  "generation_check bound current =
     (if generation_get bound = generation_get current then Ok ()
      else if generation_get bound < generation_get current then Err Stale
      else Err FromTheFuture)"

record 'a generation_bound =
  bound_generation :: auth_generation
  bound_value :: 'a

definition generation_issue :: "auth_generation \<Rightarrow> 'a \<Rightarrow> 'a generation_bound" where
  "generation_issue g v = \<lparr>bound_generation = g, bound_value = v\<rparr>"

definition into_current :: "'a generation_bound \<Rightarrow> auth_generation \<Rightarrow> (generation_mismatch, 'a) result" where
  "into_current b current =
     (case generation_check (bound_generation b) current of Inl e \<Rightarrow> Err e | Inr _ \<Rightarrow> Ok (bound_value b))"

section \<open>Roles\<close>

datatype role = Admin | User

definition all_roles :: "role list" where
  "all_roles = [Admin, User]"

fun index_in_all_roles :: "role \<Rightarrow> nat" where
  "index_in_all_roles Admin = 0"
| "index_in_all_roles User = 1"

text \<open>The floor's \<open>BTreeSet\<close>: a set of addresses.\<close>

record admin_floor =
  floor_emails :: "normalized_email set"

datatype admin_floor_empty = AdminFloorEmpty

definition ok_values :: "('e, 'a) result list \<Rightarrow> 'a list" where
  "ok_values rs = concat (map (\<lambda>r. case r of Inl _ \<Rightarrow> [] | Inr a \<Rightarrow> [a]) rs)"

definition floor_from_configured :: "(string \<Rightarrow> string) \<Rightarrow> string list \<Rightarrow> (admin_floor_empty, admin_floor) result" where
  "floor_from_configured lower entries =
     (let emails = set (ok_values (map (email_normalize lower) entries)) in
      if emails = {} then Err AdminFloorEmpty else Ok \<lparr>floor_emails = emails\<rparr>)"

definition floor_contains :: "admin_floor \<Rightarrow> normalized_email \<Rightarrow> bool" where
  "floor_contains f e \<longleftrightarrow> e \<in> floor_emails f"

datatype no_role = NoRole

fun resolve_loop :: "role list \<Rightarrow> bool \<Rightarrow> (no_role, role) result" where
  "resolve_loop [] seen_user = (if seen_user then Ok User else Err NoRole)"
| "resolve_loop (Admin # rows) seen_user = Ok Admin"
| "resolve_loop (User # rows) seen_user = resolve_loop rows True"

definition resolve_effective_role :: "role list \<Rightarrow> (no_role, role) result" where
  "resolve_effective_role rows = resolve_loop rows False"

datatype role_statement = DeleteAllRolesExcept role | UpsertRole role

record role_assignment_plan =
  plan_subject :: string
  plan_target :: role

definition plan_statements :: "role_assignment_plan \<Rightarrow> role_statement list" where
  "plan_statements p = [DeleteAllRolesExcept (plan_target p), UpsertRole (plan_target p)]"

definition plan_removes :: "role_assignment_plan \<Rightarrow> role list" where
  "plan_removes p =
     (let keep = index_in_all_roles (plan_target p) in
      map snd (filter (\<lambda>(i, r). i \<noteq> keep) (enumerate 0 all_roles)))"

definition plan_set_role :: "string \<Rightarrow> role \<Rightarrow> role_assignment_plan" where
  "plan_set_role subject target = \<lparr>plan_subject = subject, plan_target = target\<rparr>"

definition seed_role :: "admin_floor \<Rightarrow> normalized_email \<Rightarrow> role" where
  "seed_role f e = (if floor_contains f e then Admin else User)"

datatype admin_floor_decision =
    NotOnFloor
  | AlreadyAdmin role_assignment_plan
  | FloorGranted role_assignment_plan

definition apply_admin_floor :: "admin_floor option \<Rightarrow> string \<Rightarrow> normalized_email \<Rightarrow> (no_role, role) result
    \<Rightarrow> admin_floor_decision" where
  "apply_admin_floor floor subject e current =
     (case floor of
        None \<Rightarrow> NotOnFloor
      | Some f \<Rightarrow>
          if \<not> floor_contains f e then NotOnFloor
          else (let plan = plan_set_role subject Admin in
            if current = Ok Admin then AlreadyAdmin plan else FloorGranted plan))"

record role_change_request =
  rc_actor :: string
  rc_subject :: string
  rc_subject_email :: normalized_email
  rc_subject_role :: role
  rc_desired_role :: role
  rc_other_effective_admins :: nat

datatype role_change_rejection = RoleConfiguredAdmin | SelfDemotion | RoleLastAdmin

datatype role_change_effect = RoleUnchanged | RoleChange role_assignment_plan

definition authorize_role_change :: "admin_floor option \<Rightarrow> role_change_request
    \<Rightarrow> (role_change_rejection, role_change_effect) result" where
  "authorize_role_change floor q =
     (let demoting_from_admin = (rc_subject_role q = Admin \<and> rc_desired_role q \<noteq> Admin) in
      if demoting_from_admin \<and> (case floor of None \<Rightarrow> False | Some f \<Rightarrow> floor_contains f (rc_subject_email q))
      then Err RoleConfiguredAdmin
      else if demoting_from_admin \<and> rc_actor q = rc_subject q then Err SelfDemotion
      else if demoting_from_admin \<and> rc_other_effective_admins q = 0 then Err RoleLastAdmin
      else if rc_subject_role q = rc_desired_role q then Ok RoleUnchanged
      else Ok (RoleChange (plan_set_role (rc_subject q) (rc_desired_role q))))"

section \<open>What the roles mean\<close>

lemma resolve_effective_role_eq:
  "resolve_effective_role rows =
     (if Admin \<in> set rows then Ok Admin else if User \<in> set rows then Ok User else Err NoRole)"
proof -
  have "resolve_loop rows seen =
      (if Admin \<in> set rows then Ok Admin else if seen \<or> User \<in> set rows then Ok User else Err NoRole)" for seen
    by (induction rows seen rule: resolve_loop.induct) auto
  then show ?thesis by (simp add: resolve_effective_role_def)
qed

lemma resolve_admin_iff: "resolve_effective_role rows = Ok Admin \<longleftrightarrow> Admin \<in> set rows"
  by (simp add: resolve_effective_role_eq)

text \<open>The statements run on the role rows of the subject.\<close>

fun run_statement :: "role_statement \<Rightarrow> role list \<Rightarrow> role list" where
  "run_statement (DeleteAllRolesExcept keep) rows = filter (\<lambda>r. r = keep) rows"
| "run_statement (UpsertRole r) rows = (if r \<in> set rows then rows else rows @ [r])"

definition run_role_plan :: "role_assignment_plan \<Rightarrow> role list \<Rightarrow> role list" where
  "run_role_plan p rows = fold run_statement (plan_statements p) rows"

lemma run_role_plan_set: "set (run_role_plan p rows) = {plan_target p}"
  by (auto simp: run_role_plan_def plan_statements_def)

lemma plan_removes_set: "set (plan_removes (plan_set_role subject target)) = - {target}"
proof (cases target)
  case Admin
  have "- {Admin} = {User}" using role.exhaust by auto
  with Admin show ?thesis by (simp add: plan_removes_def plan_set_role_def all_roles_def)
next
  case User
  have "- {User} = {Admin}" using role.exhaust by auto
  with User show ?thesis by (simp add: plan_removes_def plan_set_role_def all_roles_def)
qed

lemma ok_values_set: "set (ok_values rs) = {a. Ok a \<in> set rs}"
  by (force simp: ok_values_def split: sum.splits)

section \<open>Properties\<close>

text \<open>The statements of a role assignment leave exactly the target role whatever rows were there, in
  whatever order, so the effective role is then the target; the roles it reports as removed are all
  the others; and resolving rows never depends on their order, with admin winning.\<close>

theorem role_plan_sets_target:
  "resolve_effective_role (run_role_plan (plan_set_role subject target) rows) = Ok target
   \<and> set (run_role_plan (plan_set_role subject target) rows) = {target}
   \<and> set (plan_removes (plan_set_role subject target)) = - {target}
   \<and> resolve_effective_role (rev rows) = resolve_effective_role rows
   \<and> (resolve_effective_role rows = Ok Admin \<longleftrightarrow> Admin \<in> set rows)
   \<and> (resolve_effective_role rows = Err NoRole \<longleftrightarrow> rows = [])"
proof (intro conjI)
  show target: "set (run_role_plan (plan_set_role subject target) rows) = {target}"
    by (simp add: run_role_plan_set plan_set_role_def)
  show "resolve_effective_role (run_role_plan (plan_set_role subject target) rows) = Ok target"
    unfolding resolve_effective_role_eq target by (cases target) simp_all
  show "set (plan_removes (plan_set_role subject target)) = - {target}"
    by (rule plan_removes_set)
  show "resolve_effective_role (rev rows) = resolve_effective_role rows"
    by (simp add: resolve_effective_role_eq)
  show "resolve_effective_role rows = Ok Admin \<longleftrightarrow> Admin \<in> set rows"
    by (simp add: resolve_effective_role_eq)
  show "resolve_effective_role rows = Err NoRole \<longleftrightarrow> rows = []"
  proof (cases rows)
    case (Cons r rs)
    then show ?thesis by (cases r) (simp_all add: resolve_effective_role_eq)
  qed (simp add: resolve_effective_role_eq)
qed

text \<open>Configuration either yields a floor with at least one address or is refused, exactly when every
  entry is blank; an address is on the floor exactly when a configured entry normalises to it, and
  only such an address is seeded or granted admin.\<close>

theorem floor_from_configured_exact:
  "(floor_from_configured lower entries = Err AdminFloorEmpty \<longleftrightarrow> (\<forall>s\<in>set entries. trim_ecmascript s = []))
   \<and> (\<forall>f. floor_from_configured lower entries = Ok f \<longrightarrow>
        floor_emails f \<noteq> {}
        \<and> (floor_contains f e \<longleftrightarrow> (\<exists>s\<in>set entries. email_normalize lower s = Ok e))
        \<and> (seed_role f e = Admin \<longleftrightarrow> floor_contains f e)
        \<and> (apply_admin_floor (Some f) subject e current = NotOnFloor \<longleftrightarrow> \<not> floor_contains f e))"
  by (auto simp: floor_from_configured_def floor_contains_def ok_values_set email_normalize_def Let_def
      seed_role_def apply_admin_floor_def image_iff split: if_splits)

theorem floor_from_configured_exact_witness:
  "\<exists>f. floor_from_configured id ['' a@x '', '' ''] = Ok f \<and> seed_role f (NormalizedEmail ''a@x'') = Admin"
proof -
  let ?es = "['' a@x '', '' '']"
  have t: "trim_ecmascript '' a@x '' = ''a@x''"
    by (simp add: trim_ecmascript_def trim_matches_def is_ecmascript_whitespace_def cont_def)
  have n: "email_normalize id '' a@x '' = Ok (NormalizedEmail ''a@x'')"
    unfolding email_normalize_def t by simp
  have mem: "'' a@x '' \<in> set ?es" by (rule list.set_intros)
  note exact = floor_from_configured_exact [of id ?es "NormalizedEmail ''a@x''"]
  have "\<not> (\<forall>s\<in>set ?es. trim_ecmascript s = [])"
    using bspec [OF _ mem, of "\<lambda>s. trim_ecmascript s = []"] unfolding t by blast
  then have "floor_from_configured id ?es \<noteq> Err AdminFloorEmpty"
    unfolding exact [THEN conjunct1] .
  then obtain f where f: "floor_from_configured id ?es = Ok f"
    by (cases "floor_from_configured id ?es") (simp, rule admin_floor_empty.exhaust, blast+)
  have "floor_contains f (NormalizedEmail ''a@x'')" "seed_role f (NormalizedEmail ''a@x'') = Admin
      \<longleftrightarrow> floor_contains f (NormalizedEmail ''a@x'')"
    using exact [THEN conjunct2, rule_format, OF f] bexI [of "\<lambda>s. email_normalize id s = Ok (NormalizedEmail ''a@x'')", OF n mem]
    by blast+
  with f show ?thesis by blast
qed

text \<open>A value bound to a generation is handed out exactly when that generation is still current; once
  the generation has advanced by any number of steps below its top, the value is refused as stale
  for good.\<close>

theorem stale_binding_refused:
  "(into_current (generation_issue g v) current = Ok w \<longleftrightarrow> g = current \<and> w = v)
   \<and> (0 < k \<longrightarrow> generation_value g < 2 ^ 64 - 1 \<longrightarrow>
        into_current (generation_issue g v) ((generation_next ^^ k) g) = Err Stale)"
proof (intro conjI impI)
  show "into_current (generation_issue g v) current = Ok w \<longleftrightarrow> g = current \<and> w = v"
    by (auto simp: into_current_def generation_issue_def generation_check_def auth_generation.expand)
next
  assume k: "0 < k" "generation_value g < 2 ^ 64 - 1"
  then have "generation_value g < generation_value ((generation_next ^^ k) g)"
    by (simp add: generation.iterate_value)
  then have "generation_get g < generation_get ((generation_next ^^ k) g)"
    by (simp add: generation_value_def word_less_def)
  then show "into_current (generation_issue g v) ((generation_next ^^ k) g) = Err Stale"
    by (simp add: into_current_def generation_issue_def generation_check_def)
qed

theorem stale_binding_refused_witness:
  "into_current (generation_issue (AuthGeneration 3) ''session'') (AuthGeneration 4) = Err Stale"
proof -
  have "(generation_next ^^ Suc 0) (AuthGeneration 3) = AuthGeneration 4"
    by (simp add: generation_next_def u64_saturating_inc_def)
  with stale_binding_refused [of "AuthGeneration 3" "''session''" _ _ "Suc 0"] show ?thesis
    by (simp add: generation_value_def)
qed

end
