(* ===== verification/Revocation.thy ===== *)
theory Revocation
  imports Identity
begin

text \<open>
  Access revocation, \<open>crates/openbot-domain/src/identity/revocation.rs\<close>, and the directory in which role
  and access changes are carried out: a request is filled in from the rows, decided by
  \<open>authorize_role_change\<close> or \<open>authorize_access_change\<close>, and the plan's statements and steps are run on
  the rows. The claims follow any sequence of such requests.
\<close>

section \<open>Signing in\<close>

datatype sign_in_path = NewAccount | ReturningAccount

record deny_list_answer =
  queried :: normalized_email
  listed :: bool

definition answer_listed :: "normalized_email \<Rightarrow> deny_list_answer" where
  "answer_listed e = \<lparr>queried = e, listed = True\<rparr>"

definition answer_not_listed :: "normalized_email \<Rightarrow> deny_list_answer" where
  "answer_not_listed e = \<lparr>queried = e, listed = False\<rparr>"

datatype access_refused = AccessRefused (refused_path: sign_in_path)

record access_cleared =
  cleared_email :: normalized_email
  cleared_path :: sign_in_path

definition screen_sign_in :: "deny_list_answer \<Rightarrow> sign_in_path \<Rightarrow> (access_refused, access_cleared) result" where
  "screen_sign_in a path =
     (if listed a then Err (AccessRefused path)
      else Ok \<lparr>cleared_email = queried a, cleared_path = path\<rparr>)"

section \<open>Plans\<close>

datatype revocation_step =
    DenyAddress normalized_email string
  | TerminateSessions string
  | AdvanceAuthGeneration string auth_generation

record revocation_plan =
  rev_subject :: string
  rev_email :: normalized_email
  revoked_by :: string
  next_generation :: auth_generation

definition revocation_steps :: "revocation_plan \<Rightarrow> revocation_step list" where
  "revocation_steps p =
     [DenyAddress (rev_email p) (revoked_by p), TerminateSessions (rev_subject p),
      AdvanceAuthGeneration (rev_subject p) (next_generation p)]"

datatype restore_step = AllowAddress normalized_email

record restore_plan =
  restore_subject :: string
  restore_email :: normalized_email

definition restore_steps :: "restore_plan \<Rightarrow> restore_step list" where
  "restore_steps p = [AllowAddress (restore_email p)]"

record access_change_request =
  ac_actor :: string
  ac_subject :: string
  ac_subject_email :: normalized_email
  ac_subject_role :: role
  ac_subject_revoked :: bool
  ac_desired_revoked :: bool
  ac_other_effective_admins :: nat
  ac_current_generation :: auth_generation

datatype access_change_rejection = AccessConfiguredAdmin | SelfRevocation | AccessLastAdmin

datatype access_change_effect = AccessUnchanged | Revoke revocation_plan | Restore restore_plan

definition authorize_access_change :: "admin_floor option \<Rightarrow> access_change_request
    \<Rightarrow> (access_change_rejection, access_change_effect) result" where
  "authorize_access_change floor q =
     (if ac_desired_revoked q \<and> (case floor of None \<Rightarrow> False | Some f \<Rightarrow> floor_contains f (ac_subject_email q))
      then Err AccessConfiguredAdmin
      else if ac_desired_revoked q \<and> ac_actor q = ac_subject q then Err SelfRevocation
      else if ac_desired_revoked q \<and> ac_subject_role q = Admin \<and> ac_other_effective_admins q = 0
      then Err AccessLastAdmin
      else if ac_subject_revoked q = ac_desired_revoked q then Ok AccessUnchanged
      else if ac_desired_revoked q then
        Ok (Revoke \<lparr>rev_subject = ac_subject q, rev_email = ac_subject_email q, revoked_by = ac_actor q,
                    next_generation = generation_next (ac_current_generation q)\<rparr>)
      else Ok (Restore \<lparr>restore_subject = ac_subject q, restore_email = ac_subject_email q\<rparr>))"

section \<open>The directory\<close>

text \<open>
  The rows the plans are run on: each account's address, role rows and generation, the deny list, and the
  open sessions, each with the generation it was issued under.
\<close>

record account =
  account_id :: string
  account_email :: normalized_email
  role_rows :: "role list"
  account_generation :: auth_generation

record directory =
  accounts :: "account list"
  denied :: "normalized_email set"
  sessions :: "(string \<times> auth_generation) list"

definition account_revoked :: "directory \<Rightarrow> account \<Rightarrow> bool" where
  "account_revoked d a \<longleftrightarrow> account_email a \<in> denied d"

text \<open>An effective administrator holds the admin role and is not revoked, as the request's field says.\<close>

definition effective_admin :: "directory \<Rightarrow> account \<Rightarrow> bool" where
  "effective_admin d a \<longleftrightarrow> resolve_effective_role (role_rows a) = Ok Admin \<and> \<not> account_revoked d a"

definition other_effective_admins :: "directory \<Rightarrow> string \<Rightarrow> nat" where
  "other_effective_admins d subject =
     length (filter (\<lambda>a. account_id a \<noteq> subject \<and> effective_admin d a) (accounts d))"

definition find_account :: "directory \<Rightarrow> string \<Rightarrow> account option" where
  "find_account d i = find (\<lambda>a. account_id a = i) (accounts d)"

definition update_account :: "string \<Rightarrow> (account \<Rightarrow> account) \<Rightarrow> directory \<Rightarrow> directory" where
  "update_account i f d = d\<lparr>accounts := map (\<lambda>a. if account_id a = i then f a else a) (accounts d)\<rparr>"

definition apply_role_plan :: "role_assignment_plan \<Rightarrow> directory \<Rightarrow> directory" where
  "apply_role_plan p = update_account (plan_subject p) (\<lambda>a. a\<lparr>role_rows := run_role_plan p (role_rows a)\<rparr>)"

fun run_revocation_step :: "revocation_step \<Rightarrow> directory \<Rightarrow> directory" where
  "run_revocation_step (DenyAddress e _) d = d\<lparr>denied := insert e (denied d)\<rparr>"
| "run_revocation_step (TerminateSessions i) d = d\<lparr>sessions := filter (\<lambda>s. fst s \<noteq> i) (sessions d)\<rparr>"
| "run_revocation_step (AdvanceAuthGeneration i g) d = update_account i (\<lambda>a. a\<lparr>account_generation := g\<rparr>) d"

fun run_restore_step :: "restore_step \<Rightarrow> directory \<Rightarrow> directory" where
  "run_restore_step (AllowAddress e) d = d\<lparr>denied := denied d - {e}\<rparr>"

datatype directory_request =
    ChangeRole string string role \<comment> \<open>actor, subject, desired role\<close>
  | ChangeAccess string string bool \<comment> \<open>actor, subject, desired revoked\<close>
  | SignIn string

datatype directory_error =
    NoSuchAccount
  | NoRoleRows
  | RoleRejected role_change_rejection
  | AccessRejected access_change_rejection
  | SignInRefused access_refused

definition directory_step :: "admin_floor option \<Rightarrow> directory \<Rightarrow> directory_request
    \<Rightarrow> (directory_error, directory) result" where
  "directory_step floor d r =
     (case r of
        ChangeRole who subject desired \<Rightarrow>
          (case find_account d subject of None \<Rightarrow> Err NoSuchAccount | Some a \<Rightarrow>
           case resolve_effective_role (role_rows a) of Inl _ \<Rightarrow> Err NoRoleRows | Inr current \<Rightarrow>
           case authorize_role_change floor
             \<lparr>rc_actor = who, rc_subject = subject, rc_subject_email = account_email a, rc_subject_role = current,
              rc_desired_role = desired, rc_other_effective_admins = other_effective_admins d subject\<rparr> of
             Inl e \<Rightarrow> Err (RoleRejected e)
           | Inr RoleUnchanged \<Rightarrow> Ok d
           | Inr (RoleChange plan) \<Rightarrow> Ok (apply_role_plan plan d))
      | ChangeAccess who subject desired \<Rightarrow>
          (case find_account d subject of None \<Rightarrow> Err NoSuchAccount | Some a \<Rightarrow>
           case resolve_effective_role (role_rows a) of Inl _ \<Rightarrow> Err NoRoleRows | Inr current \<Rightarrow>
           case authorize_access_change floor
             \<lparr>ac_actor = who, ac_subject = subject, ac_subject_email = account_email a, ac_subject_role = current,
              ac_subject_revoked = account_revoked d a, ac_desired_revoked = desired,
              ac_other_effective_admins = other_effective_admins d subject,
              ac_current_generation = account_generation a\<rparr> of
             Inl e \<Rightarrow> Err (AccessRejected e)
           | Inr AccessUnchanged \<Rightarrow> Ok d
           | Inr (Revoke plan) \<Rightarrow> Ok (fold run_revocation_step (revocation_steps plan) d)
           | Inr (Restore plan) \<Rightarrow> Ok (fold run_restore_step (restore_steps plan) d))
      | SignIn subject \<Rightarrow>
          (case find_account d subject of None \<Rightarrow> Err NoSuchAccount | Some a \<Rightarrow>
           case screen_sign_in \<lparr>queried = account_email a, listed = account_revoked d a\<rparr> ReturningAccount of
             Inl e \<Rightarrow> Err (SignInRefused e)
           | Inr cleared \<Rightarrow>
               (let d = (case apply_admin_floor floor subject (cleared_email cleared)
                           (resolve_effective_role (role_rows a)) of
                      NotOnFloor \<Rightarrow> d
                    | AlreadyAdmin plan \<Rightarrow> apply_role_plan plan d
                    | FloorGranted plan \<Rightarrow> apply_role_plan plan d)
                in Ok (d\<lparr>sessions := (subject, account_generation a) # sessions d\<rparr>))))"

primrec run_directory :: "admin_floor option \<Rightarrow> directory \<Rightarrow> directory_request list \<Rightarrow> directory" where
  "run_directory floor d [] = d"
| "run_directory floor d (r # rs) =
     run_directory floor (case directory_step floor d r of Inr d' \<Rightarrow> d' | Inl _ \<Rightarrow> d) rs"

text \<open>Account ids and addresses are keys of the table.\<close>

definition directory_ok :: "directory \<Rightarrow> bool" where
  "directory_ok d \<longleftrightarrow> distinct (map account_id (accounts d)) \<and> distinct (map account_email (accounts d))"

lemma find_account_some:
  "find_account d i = Some a \<Longrightarrow> a \<in> set (accounts d) \<and> account_id a = i"
  by (auto simp: find_account_def find_Some_iff)

lemma update_account_keys [simp]:
  assumes "\<And>a. account_id (f a) = account_id a" "\<And>a. account_email (f a) = account_email a"
  shows "map account_id (accounts (update_account i f d)) = map account_id (accounts d)"
    and "map account_email (accounts (update_account i f d)) = map account_email (accounts d)"
    and "denied (update_account i f d) = denied d" and "sessions (update_account i f d) = sessions d"
  using assms by (simp_all add: update_account_def)

definition some_admin :: "directory \<Rightarrow> bool" where
  "some_admin d \<longleftrightarrow> (\<exists>a\<in>set (accounts d). effective_admin d a)"

definition directory_inv :: "directory \<Rightarrow> bool" where
  "directory_inv d \<longleftrightarrow> directory_ok d \<and> some_admin d"

lemma other_admins_pos:
  "0 < other_effective_admins d i \<longleftrightarrow> (\<exists>a\<in>set (accounts d). account_id a \<noteq> i \<and> effective_admin d a)"
  by (auto simp: other_effective_admins_def filter_empty_conv)

lemma apply_role_plan_admin:
  assumes "a \<in> set (accounts d)" "effective_admin d a" "account_id a \<noteq> plan_subject p \<or> plan_target p = Admin"
  shows "some_admin (apply_role_plan p d)"
proof -
  let ?f = "\<lambda>a. if account_id a = plan_subject p then a\<lparr>role_rows := run_role_plan p (role_rows a)\<rparr> else a"
  have "?f a \<in> set (accounts (apply_role_plan p d))"
    using assms(1) by (auto simp: apply_role_plan_def update_account_def)
  moreover have "effective_admin (apply_role_plan p d) (?f a)"
    using assms(2,3)
    by (auto simp: effective_admin_def account_revoked_def apply_role_plan_def update_account_def
        resolve_admin_iff run_role_plan_set)
  ultimately show ?thesis by (auto simp: some_admin_def)
qed

lemma apply_role_plan_ok: "directory_ok d \<Longrightarrow> directory_ok (apply_role_plan p d)"
  by (simp add: directory_ok_def apply_role_plan_def)

text \<open>Revoking one account leaves every other account's row and standing alone.\<close>

lemma run_revocation:
  "fold run_revocation_step (revocation_steps p) d =
     (update_account (rev_subject p) (\<lambda>a. a\<lparr>account_generation := next_generation p\<rparr>) d)
       \<lparr>denied := insert (rev_email p) (denied d), sessions := filter (\<lambda>s. fst s \<noteq> rev_subject p) (sessions d)\<rparr>"
  by (simp add: revocation_steps_def update_account_def)

lemma run_restore:
  "fold run_restore_step (restore_steps p) d = d\<lparr>denied := denied d - {restore_email p}\<rparr>"
  by (simp add: restore_steps_def)

lemma revocation_admin:
  assumes "a \<in> set (accounts d)" "effective_admin d a" "account_id a \<noteq> rev_subject p" "account_email a \<noteq> rev_email p"
  shows "some_admin (fold run_revocation_step (revocation_steps p) d)"
proof -
  have "a \<in> set (accounts (fold run_revocation_step (revocation_steps p) d))"
    using assms(1,3) by (force simp: run_revocation update_account_def)
  moreover have "effective_admin (fold run_revocation_step (revocation_steps p) d) a"
    using assms(2,4) by (auto simp: run_revocation effective_admin_def account_revoked_def update_account_def)
  ultimately show ?thesis by (auto simp: some_admin_def)
qed

lemma restore_admin: "some_admin d \<Longrightarrow> some_admin (fold run_restore_step (restore_steps p) d)"
  by (auto simp: some_admin_def run_restore effective_admin_def account_revoked_def)

lemma same_email_same_account:
  assumes "directory_ok d" "a \<in> set (accounts d)" "b \<in> set (accounts d)" "account_email a = account_email b"
  shows "a = b"
  using assms by (auto simp: directory_ok_def distinct_map inj_on_def)

lemma same_id_same_account:
  assumes "directory_ok d" "a \<in> set (accounts d)" "b \<in> set (accounts d)" "account_id a = account_id b"
  shows "a = b"
  using assms by (auto simp: directory_ok_def distinct_map inj_on_def)

lemma sessions_irrelevant:
  "some_admin (d\<lparr>sessions := xs\<rparr>) \<longleftrightarrow> some_admin d" "directory_ok (d\<lparr>sessions := xs\<rparr>) \<longleftrightarrow> directory_ok d"
  by (simp_all add: some_admin_def effective_admin_def account_revoked_def directory_ok_def)

lemma change_role_inv:
  assumes inv: "directory_inv d" and step: "directory_step floor d (ChangeRole who subject desired) = Ok d'"
  shows "directory_inv d'"
proof -
  obtain a where a: "find_account d subject = Some a"
    using step by (auto simp: directory_step_def split: option.splits)
  obtain cur where cur: "resolve_effective_role (role_rows a) = Ok cur"
    using step a by (auto simp: directory_step_def split: sum.splits)
  show ?thesis
  proof (cases "d' = d")
    case False
    then have d': "d' = apply_role_plan (plan_set_role subject desired) d"
      and others: "cur = Admin \<longrightarrow> desired \<noteq> Admin \<longrightarrow> 0 < other_effective_admins d subject"
      using step a cur by (auto simp: directory_step_def authorize_role_change_def Let_def split: if_splits)
    obtain b where b: "b \<in> set (accounts d)" "effective_admin d b"
      using inv by (auto simp: directory_inv_def some_admin_def)
    have "\<exists>b\<in>set (accounts d). effective_admin d b \<and> (account_id b \<noteq> subject \<or> desired = Admin)"
    proof (cases "account_id b = subject \<and> desired \<noteq> Admin")
      case True
      then have "a = b"
        using inv find_account_some [OF a] b(1) by (auto simp: directory_inv_def intro: same_id_same_account)
      with b cur True others show ?thesis
        by (auto simp: effective_admin_def other_admins_pos)
    qed (use b in blast)
    then show ?thesis
      using inv apply_role_plan_admin [of _ d "plan_set_role subject desired"]
      by (auto simp: d' directory_inv_def plan_set_role_def apply_role_plan_ok)
  qed (use inv in simp)
qed

lemma change_access_inv:
  assumes inv: "directory_inv d" and step: "directory_step floor d (ChangeAccess who subject desired) = Ok d'"
  shows "directory_inv d'"
proof -
  obtain a where a: "find_account d subject = Some a"
    using step by (auto simp: directory_step_def split: option.splits)
  obtain cur where cur: "resolve_effective_role (role_rows a) = Ok cur"
    using step a by (auto simp: directory_step_def split: sum.splits)
  note acc = find_account_some [OF a]
  consider "d' = d"
    | p where "d' = fold run_restore_step (restore_steps p) d"
    | p where "d' = fold run_revocation_step (revocation_steps p) d" "rev_subject p = subject"
        "rev_email p = account_email a" "cur = Admin \<longrightarrow> 0 < other_effective_admins d subject"
    using step a cur by (fastforce simp: directory_step_def authorize_access_change_def Let_def split: if_splits)
  then show ?thesis
  proof cases
    case (2 p)
    with inv show ?thesis
      using restore_admin [of d p] by (auto simp: directory_inv_def directory_ok_def run_restore)
  next
    case (3 p)
    obtain b where b: "b \<in> set (accounts d)" "effective_admin d b" "account_id b \<noteq> subject"
    proof (cases "cur = Admin")
      case True
      with 3(4) that show ?thesis by (auto simp: other_admins_pos)
    next
      case False
      obtain b where b: "b \<in> set (accounts d)" "effective_admin d b"
        using inv by (auto simp: directory_inv_def some_admin_def)
      moreover have "account_id b \<noteq> subject"
      proof
        assume "account_id b = subject"
        then have "a = b" using inv acc b(1) by (auto simp: directory_inv_def intro: same_id_same_account)
        with b(2) cur False show False by (simp add: effective_admin_def)
      qed
      ultimately show ?thesis by (rule that)
    qed
    moreover have "account_email b \<noteq> account_email a"
    proof
      assume "account_email b = account_email a"
      then have "b = a" using inv acc b(1) by (auto simp: directory_inv_def intro: same_email_same_account)
      with b(3) acc show False by simp
    qed
    ultimately have "some_admin d'"
      unfolding 3(1) using 3(2,3) by (intro revocation_admin) simp_all
    moreover have "directory_ok d'"
      using inv unfolding 3(1) run_revocation by (simp add: directory_inv_def directory_ok_def)
    ultimately show ?thesis by (simp add: directory_inv_def)
  qed (use inv in simp)
qed

lemma sign_in_cases:
  assumes "directory_step floor d (SignIn subject) = Ok d'"
  obtains a p where "find_account d subject = Some a" "\<not> account_revoked d a" "plan_target p = Admin"
    "d' = d\<lparr>sessions := (subject, account_generation a) # sessions d\<rparr>
     \<or> d' = (apply_role_plan p d)\<lparr>sessions := (subject, account_generation a) # sessions (apply_role_plan p d)\<rparr>"
proof -
  obtain a where a: "find_account d subject = Some a"
    using assms by (auto simp: directory_step_def split: option.splits)
  have "\<not> account_revoked d a"
    using assms a by (auto simp: directory_step_def screen_sign_in_def)
  moreover have "d' = d\<lparr>sessions := (subject, account_generation a) # sessions d\<rparr>
     \<or> d' = (apply_role_plan (plan_set_role subject Admin) d)
         \<lparr>sessions := (subject, account_generation a) # sessions (apply_role_plan (plan_set_role subject Admin) d)\<rparr>"
    using assms a
    by (auto simp: directory_step_def screen_sign_in_def apply_admin_floor_def Let_def split: option.splits if_splits)
  ultimately show ?thesis
    using a by (intro that [of a "plan_set_role subject Admin"]) (simp_all add: plan_set_role_def)
qed

lemma sign_in_inv:
  assumes inv: "directory_inv d" and step: "directory_step floor d (SignIn subject) = Ok d'"
  shows "directory_inv d'"
proof -
  obtain a p where "find_account d subject = Some a" "\<not> account_revoked d a" and p: "plan_target p = Admin"
    "d' = d\<lparr>sessions := (subject, account_generation a) # sessions d\<rparr>
     \<or> d' = (apply_role_plan p d)\<lparr>sessions := (subject, account_generation a) # sessions (apply_role_plan p d)\<rparr>"
    by (rule sign_in_cases [OF step])
  have "some_admin (apply_role_plan p d)" "directory_ok (apply_role_plan p d)"
    using inv apply_role_plan_admin [of _ d p] p(1)
    by (auto simp: directory_inv_def some_admin_def [of d] apply_role_plan_ok)
  with inv p(2) show ?thesis by (auto simp: directory_inv_def sessions_irrelevant)
qed

interpretation directory: guarded_machine "directory_step floor" directory_inv for floor
proof
  fix d d' r assume "directory_inv d" "directory_step floor d r = Ok d'"
  then show "directory_inv d'"
    by (cases r) (auto intro: change_role_inv change_access_inv sign_in_inv)
qed

lemma run_directory_eq: "run_directory floor d rs = directory.run_events floor d rs"
  by (induction rs arbitrary: d) simp_all

text \<open>The four shapes an accepted request can have.\<close>

lemma directory_step_cases:
  assumes "directory_step floor d r = Ok d'"
  obtains "d' = d"
  | (role) who subject desired where "r = ChangeRole who subject desired"
      "d' = apply_role_plan (plan_set_role subject desired) d"
  | (revoke) who subject a p where "r = ChangeAccess who subject True" "find_account d subject = Some a"
      "\<not> account_revoked d a" "rev_subject p = subject" "rev_email p = account_email a"
      "next_generation p = generation_next (account_generation a)"
      "d' = fold run_revocation_step (revocation_steps p) d"
      "\<forall>f. floor = Some f \<longrightarrow> \<not> floor_contains f (account_email a)"
  | (restore) who subject p where "r = ChangeAccess who subject False" "d' = fold run_restore_step (restore_steps p) d"
  | (sign_in) subject a p where "r = SignIn subject" "find_account d subject = Some a" "\<not> account_revoked d a"
      "plan_target p = Admin"
      "d' = d\<lparr>sessions := (subject, account_generation a) # sessions d\<rparr>
       \<or> d' = (apply_role_plan p d)\<lparr>sessions := (subject, account_generation a) # sessions (apply_role_plan p d)\<rparr>"
proof (cases r)
  case (ChangeRole who subject desired)
  with assms have "d' = d \<or> d' = apply_role_plan (plan_set_role subject desired) d"
    by (auto simp: directory_step_def authorize_role_change_def Let_def split: option.splits sum.splits if_splits)
  with ChangeRole that(1,2) show ?thesis by blast
next
  case (SignIn subject)
  with assms have "directory_step floor d (SignIn subject) = Ok d'" by simp
  then show ?thesis by (rule sign_in_cases) (rule that(5) [OF SignIn])
next
  case (ChangeAccess who subject desired)
  obtain a where a: "find_account d subject = Some a"
    using assms ChangeAccess by (auto simp: directory_step_def split: option.splits)
  obtain cur where cur: "resolve_effective_role (role_rows a) = Ok cur"
    using assms ChangeAccess a by (auto simp: directory_step_def split: sum.splits)
  show ?thesis
  proof (cases desired)
    case True
    let ?p = "\<lparr>rev_subject = subject, rev_email = account_email a, revoked_by = who,
       next_generation = generation_next (account_generation a)\<rparr>"
    have "d' = d \<or> \<not> account_revoked d a \<and> (\<forall>f. floor = Some f \<longrightarrow> \<not> floor_contains f (account_email a))
        \<and> d' = fold run_revocation_step (revocation_steps ?p) d"
      using assms ChangeAccess a cur True
      by (auto simp: directory_step_def authorize_access_change_def split: if_splits option.splits)
    then show ?thesis
    proof (elim disjE conjE)
      assume "\<not> account_revoked d a" "\<forall>f. floor = Some f \<longrightarrow> \<not> floor_contains f (account_email a)"
        "d' = fold run_revocation_step (revocation_steps ?p) d"
      then show ?thesis using ChangeAccess True a by (intro that(3) [of who subject a ?p]) simp_all
    qed (rule that(1))
  next
    case False
    have "d' = d \<or> d' = fold run_restore_step (restore_steps \<lparr>restore_subject = subject, restore_email = account_email a\<rparr>) d"
      using assms ChangeAccess a cur False
      by (auto simp: directory_step_def authorize_access_change_def split: if_splits)
    with ChangeAccess False that(1,4) show ?thesis by blast
  qed
qed

lemma account_email_step:
  "directory_step floor d r = Ok d' \<Longrightarrow>
   map account_id (accounts d') = map account_id (accounts d) \<and> map account_email (accounts d') = map account_email (accounts d)"
  by (erule directory_step_cases)
     (auto simp: apply_role_plan_def run_revocation run_restore update_account_def)

text \<open>An account of the floor that is an effective administrator.\<close>

definition floor_admin :: "admin_floor \<Rightarrow> string \<Rightarrow> directory \<Rightarrow> bool" where
  "floor_admin f i d \<longleftrightarrow> directory_ok d
     \<and> (\<exists>a\<in>set (accounts d). account_id a = i \<and> floor_contains f (account_email a) \<and> effective_admin d a)"

lemma directory_ok_step: "directory_ok d \<Longrightarrow> directory_step floor d r = Ok d' \<Longrightarrow> directory_ok d'"
  using account_email_step [of floor d r d'] by (simp add: directory_ok_def)

lemma floor_admin_role:
  assumes "floor_admin f i d" "directory_step (Some f) d (ChangeRole who subject desired) = Ok d'"
  shows "floor_admin f i d'"
proof -
  obtain a where a: "find_account d subject = Some a"
    using assms(2) by (auto simp: directory_step_def split: option.splits)
  note acc = find_account_some [OF a]
  obtain cur where cur: "resolve_effective_role (role_rows a) = Ok cur"
    using assms(2) a by (auto simp: directory_step_def split: sum.splits)
  have d': "d' = d \<or> d' = apply_role_plan (plan_set_role subject desired) d
      \<and> \<not> (cur = Admin \<and> desired \<noteq> Admin \<and> floor_contains f (account_email a))"
    using assms(2) a cur by (auto simp: directory_step_def authorize_role_change_def Let_def split: if_splits)
  obtain b where b: "b \<in> set (accounts d)" "account_id b = i" "floor_contains f (account_email b)" "effective_admin d b"
    using assms(1) by (auto simp: floor_admin_def)
  have same: "subject = i \<Longrightarrow> a = b"
    using assms(1) acc b by (auto simp: floor_admin_def intro: same_id_same_account)
  let ?f = "\<lambda>x. if account_id x = subject then x\<lparr>role_rows := run_role_plan (plan_set_role subject desired) (role_rows x)\<rparr> else x"
  show ?thesis
  proof (cases "d' = d")
    case False
    with d' have new: "d' = apply_role_plan (plan_set_role subject desired) d"
      and keep: "subject = i \<Longrightarrow> desired = Admin"
      using same b cur by (auto simp: effective_admin_def)
    have "?f b \<in> set (accounts d')"
      using b(1) by (auto simp: new apply_role_plan_def update_account_def plan_set_role_def)
    moreover have "effective_admin d' (?f b)" "account_id (?f b) = i" "account_email (?f b) = account_email b"
      using b keep
      by (auto simp: new effective_admin_def account_revoked_def apply_role_plan_def update_account_def
          resolve_admin_iff run_role_plan_set plan_set_role_def)
    moreover have "directory_ok d'" using assms directory_ok_step by (auto simp: floor_admin_def)
    ultimately show ?thesis using b(3) by (auto simp: floor_admin_def)
  qed (use assms in simp)
qed

lemma floor_admin_sessions [simp]: "floor_admin f i (d\<lparr>sessions := x\<rparr>) \<longleftrightarrow> floor_admin f i d"
  by (simp add: floor_admin_def effective_admin_def account_revoked_def directory_ok_def)

lemma floor_admin_grant:
  assumes "floor_admin f i d" "plan_target p = Admin"
  shows "floor_admin f i (apply_role_plan p d)"
proof -
  let ?f = "\<lambda>x. if account_id x = plan_subject p then x\<lparr>role_rows := run_role_plan p (role_rows x)\<rparr> else x"
  obtain b where b: "b \<in> set (accounts d)" "account_id b = i" "floor_contains f (account_email b)" "effective_admin d b"
    using assms(1) by (auto simp: floor_admin_def)
  have "?f b \<in> set (accounts (apply_role_plan p d))"
    using b(1) by (auto simp: apply_role_plan_def update_account_def)
  moreover have "effective_admin (apply_role_plan p d) (?f b)" "account_id (?f b) = i"
      "account_email (?f b) = account_email b"
    using b assms(2)
    by (auto simp: effective_admin_def account_revoked_def apply_role_plan_def update_account_def
        resolve_admin_iff run_role_plan_set)
  moreover have "directory_ok (apply_role_plan p d)"
    using assms(1) by (simp add: floor_admin_def apply_role_plan_ok)
  ultimately show ?thesis
    unfolding floor_admin_def using b(3) by (intro conjI bexI [of _ "?f b"]) simp_all
qed

lemma floor_admin_revocation:
  assumes "floor_admin f i d" "find_account d (rev_subject p) = Some a" "rev_email p = account_email a"
    and "\<not> floor_contains f (account_email a)"
  shows "floor_admin f i (fold run_revocation_step (revocation_steps p) d)"
proof -
  obtain b where b: "b \<in> set (accounts d)" "account_id b = i" "floor_contains f (account_email b)" "effective_admin d b"
    using assms(1) by (auto simp: floor_admin_def)
  have ne: "account_email b \<noteq> rev_email p" using assms(3,4) b(3) by auto
  have "account_id b \<noteq> rev_subject p"
    using ne assms(1,3) b find_account_some [OF assms(2)] same_id_same_account [of d a b]
    by (auto simp: floor_admin_def)
  then have "b \<in> set (accounts (fold run_revocation_step (revocation_steps p) d))"
    using b(1) by (force simp: run_revocation update_account_def)
  moreover have "effective_admin (fold run_revocation_step (revocation_steps p) d) b"
    using b(4) ne by (simp add: run_revocation effective_admin_def account_revoked_def update_account_def)
  moreover have "directory_ok (fold run_revocation_step (revocation_steps p) d)"
    using assms(1) by (simp add: run_revocation directory_ok_def floor_admin_def)
  ultimately show ?thesis
    unfolding floor_admin_def using b(2,3) by (intro conjI bexI [of _ b]) simp_all
qed

lemma floor_admin_restore:
  "floor_admin f i d \<Longrightarrow> floor_admin f i (fold run_restore_step (restore_steps p) d)"
  by (auto simp: floor_admin_def run_restore effective_admin_def account_revoked_def directory_ok_def)

lemma floor_admin_step:
  assumes "floor_admin f i d" "directory_step (Some f) d r = Ok d'"
  shows "floor_admin f i d'"
  using assms(2)
proof (cases rule: directory_step_cases)
  case (role who subject desired)
  with floor_admin_role assms show ?thesis by blast
next
  case (revoke who subject a p)
  then show ?thesis using floor_admin_revocation [OF assms(1), of p a] by simp
next
  case (restore who subject p)
  then show ?thesis using floor_admin_restore [OF assms(1)] by simp
next
  case (sign_in subject a p)
  then show ?thesis using assms(1) floor_admin_grant [OF assms(1) sign_in(4)] by auto
qed (use assms in simp)

text \<open>Generations never go back.\<close>

definition generation_of :: "directory \<Rightarrow> string \<Rightarrow> auth_generation option" where
  "generation_of d i = map_option account_generation (find_account d i)"

lemma find_map_same_id:
  assumes "\<And>a. account_id (f a) = account_id a"
  shows "find (\<lambda>a. account_id a = i) (map f xs) = map_option f (find (\<lambda>a. account_id a = i) xs)"
  by (induction xs) (simp_all add: assms)

lemma find_update_account:
  assumes "\<And>a. account_id (f a) = account_id a"
  shows "find_account (update_account j f d) i = map_option (\<lambda>a. if account_id a = j then f a else a) (find_account d i)"
  unfolding find_account_def update_account_def by (simp add: find_map_same_id assms)

lemma find_account_simps [simp]:
  "find_account (d\<lparr>denied := x\<rparr>) i = find_account d i" "find_account (d\<lparr>sessions := y\<rparr>) i = find_account d i"
  by (simp_all add: find_account_def)

definition generation_at_least :: "string \<Rightarrow> int \<Rightarrow> directory \<Rightarrow> bool" where
  "generation_at_least i n d \<longleftrightarrow> (\<exists>g. generation_of d i = Some g \<and> n \<le> generation_value g)"

lemma generation_at_least_step:
  assumes "generation_at_least i n d" "directory_step floor d r = Ok d'"
  shows "generation_at_least i n d'"
proof -
  obtain x where x: "find_account d i = Some x" "n \<le> generation_value (account_generation x)"
    using assms(1) by (auto simp: generation_at_least_def generation_of_def)
  have role: "generation_at_least i n (apply_role_plan p d)" for p
    using x by (auto simp: generation_at_least_def generation_of_def apply_role_plan_def find_update_account)
  from assms(2) show ?thesis
  proof (cases rule: directory_step_cases)
    case (revoke who subject a p)
    have "n \<le> generation_value (next_generation p)" if "subject = i"
      using x revoke(2,6) that generation.next_ge [of "account_generation a"] by auto
    with x revoke(4) find_account_some [OF x(1)] show ?thesis
      by (auto simp: generation_at_least_def generation_of_def revoke(7) run_revocation find_update_account)
  qed (use assms(1) x role in \<open>auto simp: generation_at_least_def generation_of_def run_restore\<close>)
qed

section \<open>An example directory\<close>

definition example_directory :: directory where
  "example_directory =
     \<lparr>accounts =
        [\<lparr>account_id = ''a'', account_email = NormalizedEmail ''a@x'', role_rows = [Admin], account_generation = AuthGeneration 1\<rparr>,
         \<lparr>account_id = ''b'', account_email = NormalizedEmail ''b@x'', role_rows = [User], account_generation = AuthGeneration 1\<rparr>],
      denied = {}, sessions = [(''b'', AuthGeneration 1)]\<rparr>"

lemma example_directory_inv: "directory_inv example_directory"
  by (simp add: directory_inv_def directory_ok_def some_admin_def effective_admin_def account_revoked_def
      resolve_admin_iff example_directory_def)

lemma example_revocation:
  "directory_step None example_directory (ChangeAccess ''a'' ''b'' True) =
     Ok (fold run_revocation_step (revocation_steps \<lparr>rev_subject = ''b'', rev_email = NormalizedEmail ''b@x'',
          revoked_by = ''a'', next_generation = AuthGeneration 2\<rparr>) example_directory)"
  by (simp add: directory_step_def example_directory_def find_account_def resolve_effective_role_eq
      authorize_access_change_def account_revoked_def generation_next_def u64_saturating_inc_def)

section \<open>Properties\<close>

text \<open>C22: Whatever role changes, revocations, restorations and sign-ins arrive, in whatever order, the
  deployment never loses its last effective administrator: a directory that has one still has one
  after any sequence of requests, with or without a configured floor.\<close>

theorem never_without_administrator:
  assumes "directory_inv d"
  shows "\<exists>a\<in>set (accounts (run_directory floor d rs)).
    resolve_effective_role (role_rows a) = Ok Admin \<and> account_email a \<notin> denied (run_directory floor d rs)"
proof -
  have "directory_inv (run_directory floor d rs)"
    unfolding run_directory_eq by (rule directory.run_events_inv [OF assms])
  then show ?thesis
    by (auto simp: directory_inv_def some_admin_def effective_admin_def account_revoked_def)
qed

theorem never_without_administrator_witness:
  "\<exists>x\<in>set (accounts (run_directory None example_directory [ChangeRole ''b'' ''a'' User, ChangeAccess ''b'' ''a'' True])).
     resolve_effective_role (role_rows x) = Ok Admin"
  using never_without_administrator [OF example_directory_inv, of None
      "[ChangeRole ''b'' ''a'' User, ChangeAccess ''b'' ''a'' True]"] by blast

text \<open>An administrator whose address is on the configured floor stays one: no sequence of requests can
  demote or revoke that account.\<close>

theorem configured_admin_is_pinned:
  assumes "directory_ok d" "a \<in> set (accounts d)" "floor_contains f (account_email a)"
    and "resolve_effective_role (role_rows a) = Ok Admin" "account_email a \<notin> denied d"
  shows "\<exists>b\<in>set (accounts (run_directory (Some f) d rs)). account_id b = account_id a
    \<and> resolve_effective_role (role_rows b) = Ok Admin \<and> account_email b \<notin> denied (run_directory (Some f) d rs)"
proof -
  have "floor_admin f (account_id a) d"
    using assms by (auto simp: floor_admin_def effective_admin_def account_revoked_def)
  then have "floor_admin f (account_id a) (run_directory (Some f) d rs)"
    unfolding run_directory_eq by (rule directory.run_events_preserves [rotated]) (rule floor_admin_step)
  then show ?thesis
    by (auto simp: floor_admin_def effective_admin_def account_revoked_def)
qed

theorem configured_admin_is_pinned_witness:
  "\<exists>x\<in>set (accounts (run_directory (Some \<lparr>floor_emails = {NormalizedEmail ''a@x''}\<rparr>) example_directory
       [ChangeRole ''a'' ''b'' Admin, ChangeAccess ''b'' ''a'' True])).
     account_id x = ''a'' \<and> resolve_effective_role (role_rows x) = Ok Admin"
proof -
  let ?a = "\<lparr>account_id = ''a'', account_email = NormalizedEmail ''a@x'', role_rows = [Admin], account_generation = AuthGeneration 1\<rparr>"
  have "directory_ok example_directory" "?a \<in> set (accounts example_directory)"
    "floor_contains \<lparr>floor_emails = {NormalizedEmail ''a@x''}\<rparr> (account_email ?a)"
    "resolve_effective_role (role_rows ?a) = Ok Admin" "account_email ?a \<notin> denied example_directory"
    by (simp_all add: directory_ok_def example_directory_def floor_contains_def resolve_effective_role_eq)
  from configured_admin_is_pinned [OF this, of "[ChangeRole ''a'' ''b'' Admin, ChangeAccess ''b'' ''a'' True]"]
  show ?thesis by auto
qed

text \<open>C23: Revocation bites at once and for good: when a revocation is carried out, the address is denied and
  cannot sign in on either path, the account has no session left, and every value bound to a
  generation it had is refused from then on, after any further requests and even after access is
  restored (as long as the generation counter is below its top).\<close>

theorem revocation_is_immediate_and_lasting:
  assumes "directory_ok d" "find_account d i = Some a" "account_email a \<notin> denied d"
    and "directory_step floor d (ChangeAccess who i True) = Ok d'"
    and "generation_value (account_generation a) < 2 ^ 64 - 1"
  shows "account_email a \<in> denied d'
    \<and> screen_sign_in (answer_listed (account_email a)) path = Err (AccessRefused path)
    \<and> directory_step floor d' (SignIn i) = Err (SignInRefused (AccessRefused ReturningAccount))
    \<and> i \<notin> fst ` set (sessions d')
    \<and> (\<exists>b. find_account (run_directory floor d' rs) i = Some b
         \<and> into_current (generation_issue (account_generation a) v) (account_generation b) = Err Stale)"
proof -
  have acc: "account_id a = i" using find_account_some [OF assms(2)] by simp
  let ?p = "\<lparr>rev_subject = i, rev_email = account_email a, revoked_by = who,
       next_generation = generation_next (account_generation a)\<rparr>"
  have d': "d' = fold run_revocation_step (revocation_steps ?p) d"
    using assms(2-4)
    by (auto simp: directory_step_def authorize_access_change_def account_revoked_def split: if_splits sum.splits)
  have found: "find_account d' i = Some (a\<lparr>account_generation := generation_next (account_generation a)\<rparr>)"
    using assms(2) acc by (simp add: d' run_revocation find_update_account)
  have "generation_at_least i (generation_value (generation_next (account_generation a))) d'"
    using found by (auto simp: generation_at_least_def generation_of_def)
  then have "generation_at_least i (generation_value (generation_next (account_generation a))) (run_directory floor d' rs)"
    unfolding run_directory_eq by (rule directory.run_events_preserves [rotated]) (rule generation_at_least_step)
  then obtain b where b: "find_account (run_directory floor d' rs) i = Some b"
      "generation_value (generation_next (account_generation a)) \<le> generation_value (account_generation b)"
    by (auto simp: generation_at_least_def generation_of_def)
  have "generation_value (account_generation a) < generation_value (account_generation b)"
    using b(2) generation.next_gt [OF assms(5)] by simp
  then have "into_current (generation_issue (account_generation a) v) (account_generation b) = Err Stale"
    by (auto simp: into_current_def generation_issue_def generation_check_def generation_value_def word_less_def)
  moreover have "account_email a \<in> denied d'" "i \<notin> fst ` set (sessions d')"
    by (auto simp: d' run_revocation)
  moreover from this have "directory_step floor d' (SignIn i) = Err (SignInRefused (AccessRefused ReturningAccount))"
    using found by (simp add: directory_step_def account_revoked_def screen_sign_in_def)
  ultimately show ?thesis
    using b(1) by (auto simp: screen_sign_in_def answer_listed_def)
qed

theorem revocation_is_immediate_and_lasting_witness:
  "let d' = fold run_revocation_step (revocation_steps \<lparr>rev_subject = ''b'', rev_email = NormalizedEmail ''b@x'',
          revoked_by = ''a'', next_generation = AuthGeneration 2\<rparr>) example_directory
   in directory_step None d' (SignIn ''b'') = Err (SignInRefused (AccessRefused ReturningAccount))
      \<and> ''b'' \<notin> fst ` set (sessions d')"
proof -
  let ?b = "\<lparr>account_id = ''b'', account_email = NormalizedEmail ''b@x'', role_rows = [User], account_generation = AuthGeneration 1\<rparr>"
  have "directory_ok example_directory" "find_account example_directory ''b'' = Some ?b"
    "account_email ?b \<notin> denied example_directory"
    by (simp_all add: directory_ok_def example_directory_def find_account_def)
  note fired = revocation_is_immediate_and_lasting [OF this example_revocation, of ReturningAccount "[]" "()"]
  have "generation_value (account_generation ?b) < 2 ^ 64 - 1" by (simp add: generation_value_def)
  from fired [OF this] show ?thesis
    unfolding Let_def by blast
qed

end
