(* ===== verification/Origin.thy ===== *)
theory Origin
  imports StdModel
begin

text \<open>
  Trusted origins, the second half of \<open>crates/openbot-domain/src/identity/session.rs\<close>: an \<open>Origin\<close>
  header is brought into a canonical form and compared with the configured ones. The lemmas show that
  the canonical form is exactly the triple of scheme, host and effective port, so two origins share a
  form only when they are the same origin.
\<close>

section \<open>String operations of the standard library\<close>

definition strip_suffix_char :: "char \<Rightarrow> string \<Rightarrow> string option" where
  "strip_suffix_char c s = (if s \<noteq> [] \<and> last s = c then Some (butlast s) else None)"

text \<open>\<open>str::parse::<u16>\<close>: one leading plus is accepted, an empty text and a lone plus are not.\<close>

definition parse_u16 :: "string \<Rightarrow> nat option" where
  "parse_u16 s =
     (let digits = (case s of c # rest \<Rightarrow> if c = CHR ''+'' then rest else s | [] \<Rightarrow> []) in
      if digits = [] \<or> \<not> list_all is_ascii_digit digits then None else parse_digits 65536 0 digits)"

section \<open>Canonical origins\<close>

datatype origin_malformed = OriginMalformed

definition origin_scheme :: "string \<Rightarrow> string option" where
  "origin_scheme scheme_raw =
     (let scheme = to_ascii_lowercase scheme_raw in
      if scheme = []
         \<or> \<not> list_all (\<lambda>c. is_ascii_lowercase c \<or> is_ascii_digit c \<or> c \<in> {CHR ''+'', CHR ''-'', CHR ''.''}) scheme
         \<or> \<not> is_ascii_lowercase (hd scheme)
      then None else Some scheme)"

definition origin_host_port :: "string \<Rightarrow> (string \<times> string option) option" where
  "origin_host_port rest =
     (case strip_prefix ''['' rest of
        Some closing \<Rightarrow>
          (case split_once '']'' closing of
             None \<Rightarrow> None
           | Some (inside, after) \<Rightarrow>
               if inside = [] then None
               else if after = [] then Some (''['' @ to_ascii_lowercase inside @ '']'', None)
               else (case strip_prefix '':'' after of
                       None \<Rightarrow> None
                     | Some port \<Rightarrow> Some (''['' @ to_ascii_lowercase inside @ '']'', Some port)))
      | None \<Rightarrow>
          (case split_once '':'' rest of
             Some (host, port) \<Rightarrow> Some (to_ascii_lowercase host, Some port)
           | None \<Rightarrow> Some (to_ascii_lowercase rest, None)))"

definition default_port :: "string \<Rightarrow> nat option" where
  "default_port scheme =
     (if scheme = ''http'' \<or> scheme = ''ws'' then Some 80
      else if scheme = ''https'' \<or> scheme = ''wss'' then Some 443
      else None)"

definition origin_port :: "string \<Rightarrow> string option \<Rightarrow> nat option option" where
  "origin_port scheme port_raw =
     (case port_raw of
        None \<Rightarrow> Some None
      | Some text \<Rightarrow>
          (case parse_u16 text of
             None \<Rightarrow> None
           | Some parsed \<Rightarrow> Some (if Some parsed = default_port scheme then None else Some parsed)))"

text \<open>The parts \<open>canonical_origin\<close> computes before it formats them.\<close>

definition origin_parts :: "string \<Rightarrow> (string \<times> string \<times> nat option) option" where
  "origin_parts raw =
     (let trimmed = trim raw in
      if trimmed = [] \<or> eq_ignore_ascii_case trimmed ''null'' then None
      else case split_once ''://'' trimmed of None \<Rightarrow> None | Some (scheme_raw, rest_raw) \<Rightarrow>
      case origin_scheme scheme_raw of None \<Rightarrow> None | Some scheme \<Rightarrow>
      (let rest = (case strip_suffix_char (CHR ''/'') rest_raw of Some r \<Rightarrow> r | None \<Rightarrow> rest_raw) in
       if rest = [] \<or> (\<exists>c\<in>set rest. c \<in> set ''/?#@ '') then None
       else case origin_host_port rest of None \<Rightarrow> None | Some (host, port_raw) \<Rightarrow>
       if host = [] \<or> host = ''[]'' then None
       else case origin_port scheme port_raw of None \<Rightarrow> None | Some port \<Rightarrow> Some (scheme, host, port)))"

fun render_origin :: "string \<times> string \<times> nat option \<Rightarrow> string" where
  "render_origin (scheme, host, Some port) = scheme @ ''://'' @ host @ '':'' @ show_nat port"
| "render_origin (scheme, host, None) = scheme @ ''://'' @ host"

definition canonical_origin :: "string \<Rightarrow> (origin_malformed, string) result" where
  "canonical_origin raw =
     (case origin_parts raw of None \<Rightarrow> Err OriginMalformed | Some parts \<Rightarrow> Ok (render_origin parts))"

record trusted_origins =
  origins :: "string set"

fun insert_origins :: "string set \<Rightarrow> string list \<Rightarrow> (origin_malformed, string set) result" where
  "insert_origins acc [] = Ok acc"
| "insert_origins acc (entry # entries) =
     (case canonical_origin entry of Inl e \<Rightarrow> Err e | Inr s \<Rightarrow> insert_origins (insert s acc) entries)"

definition trusted_from_configured :: "string list \<Rightarrow> (origin_malformed, trusted_origins) result" where
  "trusted_from_configured entries =
     (case insert_origins {} entries of Inl e \<Rightarrow> Err e | Inr s \<Rightarrow> Ok \<lparr>origins = s\<rparr>)"

definition trusts :: "trusted_origins \<Rightarrow> string \<Rightarrow> bool" where
  "trusts t origin \<longleftrightarrow> (case canonical_origin origin of Inl _ \<Rightarrow> False | Inr s \<Rightarrow> s \<in> origins t)"

section \<open>The canonical form determines the origin\<close>

lemma split_at_char:
  assumes "c \<notin> set a" "c \<notin> set b" "r = [] \<or> hd r = c" "s = [] \<or> hd s = c" "a @ r = b @ s"
  shows "a = b \<and> r = s"
proof -
  have read: "takeWhile (\<lambda>x. x \<noteq> c) (x @ y) = x" if "c \<notin> set x" "y = [] \<or> hd y = c" for x y
  proof -
    have "takeWhile (\<lambda>x. x \<noteq> c) y = []" using that(2) by (cases y) simp_all
    moreover have "takeWhile (\<lambda>x. x \<noteq> c) (x @ y) = x @ takeWhile (\<lambda>x. x \<noteq> c) y"
      using that(1) by (intro takeWhile_append2) blast
    ultimately show ?thesis by simp
  qed
  have "a = b" using read [OF assms(1,3)] read [OF assms(2,4)] assms(5) by simp
  then show ?thesis using assms(5) by simp
qed

text \<open>The shape of a host: in brackets without a closing one inside, or without a colon.\<close>

definition host_ok :: "string \<Rightarrow> bool" where
  "host_ok host \<longleftrightarrow> host \<noteq> []
     \<and> ((\<exists>ins. host = CHR ''['' # ins @ [CHR '']''] \<and> CHR '']'' \<notin> set ins)
        \<or> hd host \<noteq> CHR ''['' \<and> CHR '':'' \<notin> set host)"

lemma special_chars:
  "\<not> is_ascii_lowercase (CHR '':'')" "\<not> is_ascii_uppercase (CHR '':'')"
  "\<not> is_ascii_lowercase (CHR ''['')" "\<not> is_ascii_uppercase (CHR ''['')"
  "\<not> is_ascii_lowercase (CHR '']'')" "\<not> is_ascii_uppercase (CHR '']'')"
  "\<not> is_ascii_digit (CHR '':'')"
  by (simp_all add: is_ascii_lowercase_def is_ascii_uppercase_def is_ascii_digit_def)

lemma origin_host_port_ok:
  assumes "origin_host_port rest = Some (host, port)" "host \<noteq> []"
  shows "host_ok host"
proof (cases "strip_prefix ''['' rest")
  case None
  then have hd: "rest \<noteq> [] \<Longrightarrow> hd rest \<noteq> CHR ''[''"
    by (cases rest) (auto simp: strip_prefix_def)
  define raw where "raw = (case split_once '':'' rest of None \<Rightarrow> rest | Some (a, b) \<Rightarrow> a)"
  have host: "host = to_ascii_lowercase raw"
    using assms(1) None by (simp add: origin_host_port_def raw_def split: option.splits prod.splits)
  have colon: "CHR '':'' \<notin> set raw"
    using split_once_none [of "CHR '':''" rest] split_once_before [of "CHR '':''" rest]
    by (simp add: raw_def split: option.split prod.split)
  have raw_ne: "raw \<noteq> []" using assms(2) host by (simp add: to_ascii_lowercase_def)
  have "\<exists>suffix. rest = raw @ suffix"
    using split_once_before [of "CHR '':''" rest]
    by (cases "split_once '':'' rest") (auto simp: raw_def)
  then have "rest \<noteq> []" "hd raw = hd rest" using raw_ne by auto
  then have "hd raw \<noteq> CHR ''[''" using hd by simp
  moreover have "hd host = to_ascii_lower (hd raw)"
    using host raw_ne by (simp add: to_ascii_lowercase_def hd_map)
  ultimately have "hd host \<noteq> CHR ''[''"
    using to_ascii_lower_other [OF special_chars(3), of "hd raw"] by simp
  moreover have "CHR '':'' \<notin> set host"
    using colon in_lowercase [OF special_chars(1,2), of raw] host by simp
  ultimately show ?thesis using assms(2) by (simp add: host_ok_def)
next
  case (Some closing)
  obtain inside after where ia: "split_once '']'' closing = Some (inside, after)"
    using assms(1) Some by (auto simp: origin_host_port_def split: option.splits)
  then have "CHR '']'' \<notin> set (to_ascii_lowercase inside)"
    using split_once_before [of "CHR '']''" closing inside after] in_lowercase [OF special_chars(5,6)] by simp
  moreover have "host = CHR ''['' # to_ascii_lowercase inside @ [CHR '']'']"
    using assms(1) Some ia by (auto simp: origin_host_port_def split: if_splits option.splits)
  ultimately show ?thesis by (auto simp: host_ok_def)
qed

lemma origin_scheme_no_colon: "origin_scheme raw = Some scheme \<Longrightarrow> CHR '':'' \<notin> set scheme"
  using special_chars by (auto simp: origin_scheme_def Let_def list_all_iff split: if_splits)

lemma origin_parts_shape:
  "origin_parts raw = Some (scheme, host, port) \<Longrightarrow> CHR '':'' \<notin> set scheme \<and> host_ok host"
  by (auto simp: origin_parts_def Let_def origin_scheme_no_colon origin_host_port_ok
      split: option.splits if_splits)

lemma host_ok_split:
  assumes "host_ok g" "host_ok h" "g @ r = h @ s" "r = [] \<or> hd r = CHR '':''" "s = [] \<or> hd s = CHR '':''"
  shows "g = h \<and> r = s"
proof -
  have heads: "hd g = hd h" using assms(1-3) by (cases g; cases h) (auto simp: host_ok_def)
  show ?thesis
  proof (cases "hd g = CHR ''[''")
    case True
    with assms(1) obtain x where x: "g = CHR ''['' # x @ [CHR '']'']" "CHR '']'' \<notin> set x" by (auto simp: host_ok_def)
    from True heads assms(2) obtain y where y: "h = CHR ''['' # y @ [CHR '']'']" "CHR '']'' \<notin> set y"
      by (auto simp: host_ok_def)
    from assms(3) x y have "x @ (CHR '']'' # r) = y @ (CHR '']'' # s)" by simp
    then have "x = y \<and> CHR '']'' # r = CHR '']'' # s"
      using x y by (intro split_at_char [of "CHR '']''"]) simp_all
    with x y show ?thesis by simp
  next
    case False
    have colon: "CHR '':'' \<notin> set x" if "host_ok x" "hd x \<noteq> CHR ''[''" for x
      using that by (auto simp: host_ok_def)
    show ?thesis
      using split_at_char [OF colon [OF assms(1) False] colon [OF assms(2)] assms(4,5,3)] False heads by simp
  qed
qed

lemma render_origin_inject:
  assumes "CHR '':'' \<notin> set scheme" "CHR '':'' \<notin> set scheme'" "host_ok host" "host_ok host'"
    and "render_origin (scheme, host, port) = render_origin (scheme', host', port')"
  shows "(scheme, host, port) = (scheme', host', port')"
proof -
  let ?tail = "\<lambda>port. case port of None \<Rightarrow> [] | Some p \<Rightarrow> CHR '':'' # show_nat p"
  have render: "render_origin (c, h, p) = c @ ''://'' @ h @ ?tail p" for c h p
    by (cases p) simp_all
  have "scheme = scheme' \<and> ''://'' @ host @ ?tail port = ''://'' @ host' @ ?tail port'"
    using assms(1,2,5) unfolding render by (intro split_at_char [of "CHR '':''"]) simp_all
  then have eq: "scheme = scheme'" "host @ ?tail port = host' @ ?tail port'" by simp_all
  have "host = host' \<and> ?tail port = ?tail port'"
    using assms(3,4) eq(2) by (intro host_ok_split) (auto split: option.split)
  with eq(1) show ?thesis
    by (auto simp: show_nat_inject split: option.splits)
qed

lemma canonical_origin_inject:
  assumes "origin_parts raw = Some parts" "origin_parts raw' = Some parts'"
  shows "render_origin parts = render_origin parts' \<longleftrightarrow> parts = parts'"
proof
  obtain c h p c' h' p' where parts: "parts = (c, h, p)" "parts' = (c', h', p')"
    by (metis prod_cases3)
  assume "render_origin parts = render_origin parts'"
  then show "parts = parts'"
    using render_origin_inject [of c c' h h' p p'] assms
      origin_parts_shape [of raw c h p] origin_parts_shape [of raw' c' h' p']
    unfolding parts by blast
qed simp

lemma insert_origins_ok:
  "insert_origins acc entries = Ok s \<Longrightarrow>
   list_all (\<lambda>e. origin_parts e \<noteq> None) entries
   \<and> s = acc \<union> {render_origin parts | parts. \<exists>e\<in>set entries. origin_parts e = Some parts}"
proof (induction entries arbitrary: acc)
  case (Cons e entries)
  then obtain parts where parts: "origin_parts e = Some parts"
    by (auto simp: canonical_origin_def split: option.splits)
  with Cons.prems have "insert_origins (insert (render_origin parts) acc) entries = Ok s"
    by (simp add: canonical_origin_def)
  from Cons.IH [OF this] parts show ?case
    by (auto simp del: split_paired_Ex split_paired_All)
qed simp

lemma insert_origins_refuses:
  "(\<exists>e\<in>set entries. origin_parts e = None) \<Longrightarrow> insert_origins acc entries = Err OriginMalformed"
  by (induction entries arbitrary: acc) (auto simp: canonical_origin_def split: option.splits)

lemma trusted_from_configured_origins:
  assumes "trusted_from_configured entries = Ok t"
  shows "origins t = {render_origin parts | parts. \<exists>e\<in>set entries. origin_parts e = Some parts}"
proof -
  obtain s where s: "insert_origins {} entries = Ok s" "t = \<lparr>origins = s\<rparr>"
    using assms by (cases "insert_origins {} entries") (simp_all add: trusted_from_configured_def)
  show ?thesis
    using insert_origins_ok [OF s(1)] unfolding s(2) trusted_origins.select_convs by blast
qed

lemma insert_origins_accepts:
  "\<not> (\<exists>e\<in>set entries. origin_parts e = None) \<Longrightarrow> \<exists>s. insert_origins acc entries = Ok s"
  by (induction entries arbitrary: acc) (auto simp: canonical_origin_def split: option.splits)

lemma trusted_from_configured_complete:
  assumes "trusted_from_configured entries = Ok t"
  shows "list_all (\<lambda>e. origin_parts e \<noteq> None) entries"
  using assms insert_origins_ok [of "{}" entries]
  by (cases "insert_origins {} entries") (simp_all add: trusted_from_configured_def)

text \<open>The header names, part by part, an origin of the configuration.\<close>

definition configured_origin :: "string list \<Rightarrow> string \<Rightarrow> bool" where
  "configured_origin entries header \<longleftrightarrow>
     (\<exists>entry\<in>set entries. \<exists>parts. origin_parts entry = Some parts \<and> origin_parts header = Some parts)"

lemmas origin_eval = origin_parts_def trim_def trim_matches_def is_whitespace_def cont_def Let_def
  eq_ignore_ascii_case_def to_ascii_lowercase_def to_ascii_lower_def is_ascii_uppercase_def char_of_def bit_0
  strip_prefix_def origin_scheme_def is_ascii_lowercase_def is_ascii_digit_def strip_suffix_char_def
  origin_host_port_def origin_port_def parse_u16_def digit_value_def default_port_def



end
