(* ===== verification/Session.thy ===== *)
theory Session
  imports Revocation Origin
begin

text \<open>
  Sessions, \<open>crates/openbot-domain/src/identity/session.rs\<close>: the stored keyed hash of a session token,
  the lifetime policy, the judgement of a session at an instant, and the two gates for sensitive
  writes. HMAC-SHA256 (\<open>mac\<close>) and the unpadded URL-safe Base64 codec (\<open>encode\<close>, \<open>decode\<close>) are
  third-party crates and parameters here. The last section runs a session through a sequence of
  requests, each of which is judged and, when it is accepted, recorded as activity.
\<close>

section \<open>Token hashes\<close>

datatype session_token = SessionToken (token_bytes: bytes)
datatype session_hash_key = SessionHashKey (key_material: bytes)
datatype session_token_hash = SessionTokenHash (hash_bytes: bytes)

datatype session_token_hash_malformed = SessionTokenHashMalformed

definition column_prefix :: string where
  "column_prefix = ''sh1_''"

definition hash_compute :: "(bytes \<Rightarrow> bytes \<Rightarrow> bytes) \<Rightarrow> session_token \<Rightarrow> session_hash_key \<Rightarrow> session_token_hash" where
  "hash_compute mac token key = SessionTokenHash (mac (key_material key) (token_bytes token))"

definition hash_matches ::
  "(bytes \<Rightarrow> bytes \<Rightarrow> bytes) \<Rightarrow> session_token_hash \<Rightarrow> session_token \<Rightarrow> session_hash_key \<Rightarrow> bool" where
  "hash_matches mac h token key \<longleftrightarrow> h = hash_compute mac token key"

definition to_column_value :: "(bytes \<Rightarrow> string) \<Rightarrow> session_token_hash \<Rightarrow> string" where
  "to_column_value encode h = column_prefix @ encode (hash_bytes h)"

definition from_column_value ::
  "(string \<Rightarrow> bytes option) \<Rightarrow> string \<Rightarrow> (session_token_hash_malformed, session_token_hash) result" where
  "from_column_value decode v =
     (case strip_prefix column_prefix v of
        None \<Rightarrow> Err SessionTokenHashMalformed
      | Some encoded \<Rightarrow>
          (case decode encoded of
             None \<Rightarrow> Err SessionTokenHashMalformed
           | Some decoded \<Rightarrow>
               if length decoded = 32 then Ok (SessionTokenHash decoded)
               else Err SessionTokenHashMalformed))"

text \<open>The Rust type holds \<open>[u8; 32]\<close>.\<close>

definition hash_ok :: "session_token_hash \<Rightarrow> bool" where
  "hash_ok h \<longleftrightarrow> length (hash_bytes h) = 32"

section \<open>Lifetime policy\<close>

record session_lifetime_policy =
  policy_idle :: duration
  policy_absolute :: duration
  policy_fresh :: duration

datatype session_policy_invalid = NonPositive | FreshNotShorterThanIdle | IdleExceedsAbsolute

definition policy_new ::
  "duration \<Rightarrow> duration \<Rightarrow> duration \<Rightarrow> (session_policy_invalid, session_lifetime_policy) result" where
  "policy_new idle absolute fresh =
     (if idle \<le> 0 \<or> absolute \<le> 0 \<or> fresh \<le> 0 then Err NonPositive
      else if fresh \<ge> idle then Err FreshNotShorterThanIdle
      else if idle > absolute then Err IdleExceedsAbsolute
      else Ok \<lparr>policy_idle = idle, policy_absolute = absolute, policy_fresh = fresh\<rparr>)"

section \<open>Session states and their judgement\<close>

record session_state =
  established_at :: instant
  last_seen_at :: instant
  session_generation :: auth_generation

definition session_rehydrate :: "instant \<Rightarrow> instant \<Rightarrow> auth_generation \<Rightarrow> session_state" where
  "session_rehydrate established last_seen g =
     \<lparr>established_at = established, last_seen_at = last_seen, session_generation = g\<rparr>"

record minted_session =
  minted_state :: session_state
  minted_path :: sign_in_path

definition authenticate :: "access_cleared \<Rightarrow> auth_generation \<Rightarrow> instant \<Rightarrow> minted_session" where
  "authenticate cleared g now =
     \<lparr>minted_state = \<lparr>established_at = now, last_seen_at = now, session_generation = g\<rparr>,
      minted_path = cleared_path cleared\<rparr>"

datatype session_rejection =
    GenerationSuperseded | GenerationFromTheFuture | AbsoluteExpired | IdleExpired | TimelineIncoherent

fun from_generation_mismatch :: "generation_mismatch \<Rightarrow> session_rejection" where
  "from_generation_mismatch Stale = GenerationSuperseded"
| "from_generation_mismatch FromTheFuture = GenerationFromTheFuture"

record live_session =
  live_state :: session_state
  evaluated_at :: instant

definition session_touch :: "live_session \<Rightarrow> session_state" where
  "session_touch live =
     \<lparr>established_at = established_at (live_state live),
      last_seen_at = evaluated_at live,
      session_generation = session_generation (live_state live)\<rparr>"

definition evaluate_session ::
  "session_lifetime_policy \<Rightarrow> session_state \<Rightarrow> auth_generation \<Rightarrow> instant \<Rightarrow> (session_rejection, live_session) result" where
  "evaluate_session policy state current now =
     (if established_at state > last_seen_at state \<or> last_seen_at state > now then Err TimelineIncoherent
      else case generation_check (session_generation state) current of
        Inl mismatch \<Rightarrow> Err (from_generation_mismatch mismatch)
      | Inr _ \<Rightarrow>
          if now - established_at state > policy_absolute policy then Err AbsoluteExpired
          else if now - last_seen_at state > policy_idle policy then Err IdleExpired
          else Ok \<lparr>live_state = state, evaluated_at = now\<rparr>)"

section \<open>Gates for sensitive writes\<close>

record sensitive_write_request =
  request_session :: live_session
  request_role :: role
  request_origin :: "string option"

datatype sensitive_write_rejection =
    RoleInsufficient | OriginMissing | OriginUntrusted | SessionNotFresh

datatype sensitive_write_approved = SensitiveWriteApproved (sensitive_approved_at: instant)
datatype fresh_origin_write_approved = FreshOriginWriteApproved (fresh_approved_at: instant)

definition authorize_fresh_origin_write ::
  "session_lifetime_policy \<Rightarrow> trusted_origins \<Rightarrow> live_session \<Rightarrow> string option
     \<Rightarrow> (sensitive_write_rejection, fresh_origin_write_approved) result" where
  "authorize_fresh_origin_write policy trusted session origin =
     (case origin of
        None \<Rightarrow> Err OriginMissing
      | Some o' \<Rightarrow>
          if \<not> trusts trusted o' then Err OriginUntrusted
          else if evaluated_at session - established_at (live_state session) > policy_fresh policy
          then Err SessionNotFresh
          else Ok (FreshOriginWriteApproved (evaluated_at session)))"

definition authorize_sensitive_write ::
  "session_lifetime_policy \<Rightarrow> trusted_origins \<Rightarrow> sensitive_write_request
     \<Rightarrow> (sensitive_write_rejection, sensitive_write_approved) result" where
  "authorize_sensitive_write policy trusted request =
     (if request_role request \<noteq> Admin then Err RoleInsufficient
      else case request_origin request of
        None \<Rightarrow> Err OriginMissing
      | Some o' \<Rightarrow>
          if \<not> trusts trusted o' then Err OriginUntrusted
          else (let session = request_session request in
                if evaluated_at session - established_at (live_state session) > policy_fresh policy
                then Err SessionNotFresh
                else Ok (SensitiveWriteApproved (evaluated_at session))))"

section \<open>Token hashes survive the database\<close>

lemma from_column_value_ok:
  "from_column_value decode v = Ok h \<longleftrightarrow>
   (\<exists>encoded. v = column_prefix @ encoded \<and> decode encoded = Some (hash_bytes h) \<and> hash_ok h)"
proof
  assume "from_column_value decode v = Ok h"
  then obtain encoded decoded
    where "strip_prefix column_prefix v = Some encoded" "decode encoded = Some decoded"
      "length decoded = 32" "h = SessionTokenHash decoded"
    unfolding from_column_value_def by (auto split: option.splits if_splits)
  moreover from this have "v = column_prefix @ encoded"
    unfolding strip_prefix_def by (metis append_take_drop_id option.distinct(1) option.inject)
  ultimately show "\<exists>encoded. v = column_prefix @ encoded \<and> decode encoded = Some (hash_bytes h) \<and> hash_ok h"
    by (simp add: hash_ok_def)
next
  assume "\<exists>encoded. v = column_prefix @ encoded \<and> decode encoded = Some (hash_bytes h) \<and> hash_ok h"
  then show "from_column_value decode v = Ok h"
    by (auto simp: from_column_value_def strip_prefix_def hash_ok_def)
qed

text \<open>A session row keeps only the keyed hash of its token, and the column loses nothing of it: a
  32-byte hash written to the column is read back as itself, everything read back is a 32-byte hash
  behind the version prefix, and the hash read back accepts a presented token exactly when its MAC
  under the presented key is the MAC of the token the session was created with.\<close>

theorem token_hash_column_roundtrip:
  assumes "\<And>bs. decode (encode bs) = Some bs" and "\<And>k m. length (mac k m) = 32"
  shows "from_column_value decode (to_column_value encode (hash_compute mac token key))
           = Ok (hash_compute mac token key)
     \<and> (\<exists>h. from_column_value decode (to_column_value encode (hash_compute mac token key)) = Ok h
            \<and> (hash_matches mac h token' key' \<longleftrightarrow>
               mac (key_material key) (token_bytes token) = mac (key_material key') (token_bytes token')))
     \<and> (from_column_value decode v = Ok h \<longrightarrow> hash_ok h \<and> take 4 v = ''sh1_'')"
proof -
  have ok: "from_column_value decode (to_column_value encode (hash_compute mac token key))
      = Ok (hash_compute mac token key)"
    unfolding from_column_value_ok to_column_value_def using assms
    by (simp add: hash_ok_def hash_compute_def)
  moreover have "take 4 v = ''sh1_'' \<and> hash_ok h" if "from_column_value decode v = Ok h"
    using that unfolding from_column_value_ok by (auto simp: column_prefix_def)
  ultimately show ?thesis
    by (auto simp: hash_matches_def hash_compute_def)
qed

theorem token_hash_column_roundtrip_witness:
  "from_column_value (\<lambda>s. Some (map char_byte s))
     (to_column_value (map (\<lambda>b. char_of (unat b)))
        (hash_compute (\<lambda>k m. replicate 32 (sum_list m)) (SessionToken [1, 2]) (SessionHashKey [])))
   = Ok (SessionTokenHash (replicate 32 3))"
proof -
  have "char_byte (char_of (unat b)) = b" for b :: u8
  proof -
    have "unat b < 256" using unsigned_less [of b, where ?'a = nat] by simp
    then show ?thesis by (simp add: char_byte_def)
  qed
  then have codec: "(\<lambda>s. Some (map char_byte s)) (map (\<lambda>b. char_of (unat b)) bs) = Some bs" for bs :: bytes
    by (simp add: comp_def map_idI)
  show ?thesis
    using token_hash_column_roundtrip
      [of "\<lambda>s. Some (map char_byte s)" "map (\<lambda>b. char_of (unat b))" "\<lambda>k m. replicate 32 (sum_list m)"
          "SessionToken [1, 2]" "SessionHashKey []", OF codec]
    by (simp add: hash_compute_def)
qed

section \<open>A session over time\<close>

text \<open>
  What the server does with a session on every request: judge it against the user's current
  generation at the request's instant and, if it is live, store the touched state. A refused request
  stores nothing.
\<close>

definition session_step ::
  "session_lifetime_policy \<Rightarrow> session_state \<Rightarrow> auth_generation \<times> instant \<Rightarrow> (session_rejection, session_state) result" where
  "session_step policy state req =
     (case evaluate_session policy state (fst req) (snd req) of
        Inl r \<Rightarrow> Err r
      | Inr live \<Rightarrow> Ok (session_touch live))"

primrec run_session :: "session_lifetime_policy \<Rightarrow> session_state \<Rightarrow> (auth_generation \<times> instant) list \<Rightarrow> session_state" where
  "run_session policy state [] = state"
| "run_session policy state (req # reqs) =
     run_session policy (case session_step policy state req of Inl _ \<Rightarrow> state | Inr t \<Rightarrow> t) reqs"

definition born_at :: "instant \<Rightarrow> auth_generation \<Rightarrow> session_state \<Rightarrow> bool" where
  "born_at t g state \<longleftrightarrow> established_at state = t \<and> session_generation state = g \<and> t \<le> last_seen_at state"

lemma policy_new_ok:
  "policy_new idle absolute fresh = Ok p \<longleftrightarrow>
   0 < fresh \<and> fresh < idle \<and> idle \<le> absolute
   \<and> p = \<lparr>policy_idle = idle, policy_absolute = absolute, policy_fresh = fresh\<rparr>"
  by (auto simp: policy_new_def)

lemma generation_check_ok: "generation_check b c = Ok u \<longleftrightarrow> b = c"
  by (cases b; cases c) (auto simp: generation_check_def)

lemma generation_check_same: "generation_check g g = Ok ()"
  by (simp add: generation_check_def)

lemma generation_check_stale: "generation_check b c = Err Stale \<longleftrightarrow> generation_value b < generation_value c"
  by (auto simp: generation_check_def generation_value_def word_less_def)

lemma evaluate_session_ok:
  "evaluate_session policy state current now = Ok live \<longleftrightarrow>
   established_at state \<le> last_seen_at state \<and> last_seen_at state \<le> now
   \<and> session_generation state = current
   \<and> now - established_at state \<le> policy_absolute policy \<and> now - last_seen_at state \<le> policy_idle policy
   \<and> live = \<lparr>live_state = state, evaluated_at = now\<rparr>"
  by (auto simp: evaluate_session_def generation_check_same generation_check_ok split: sum.splits)

lemma authorize_sensitive_write_ok:
  "authorize_sensitive_write policy trusted request = Ok a \<longleftrightarrow>
   request_role request = Admin
   \<and> (\<exists>origin. request_origin request = Some origin \<and> trusts trusted origin)
   \<and> evaluated_at (request_session request) - established_at (live_state (request_session request)) \<le> policy_fresh policy
   \<and> a = SensitiveWriteApproved (evaluated_at (request_session request))"
  by (auto simp: authorize_sensitive_write_def Let_def split: option.splits)

interpretation session: guarded_machine "session_step policy" "born_at t g" for policy t g
  by unfold_locales
    (auto simp: session_step_def born_at_def session_touch_def evaluate_session_ok split: sum.splits)

lemma run_session_eq: "run_session policy state reqs = session.run_events policy state reqs"
proof (induction reqs arbitrary: state)
  case (Cons req reqs)
  then show ?case by (cases "session_step policy state req") simp_all
qed simp

text \<open>C25: However a session is used after it was created, activity extends neither its absolute lifetime
  nor its freshness nor its authorization generation: when it is still accepted at some instant, the
  user's generation is the one it was created under and the absolute period since authentication has
  not passed; and when a sensitive write is approved through it, the caller is an administrator, the
  request came from a trusted origin, and the authentication is no older than the fresh period,
  which is shorter than the idle period.\<close>

theorem activity_extends_nothing:
  assumes "policy_new idle absolute fresh = Ok policy"
    and "evaluate_session policy (run_session policy (minted_state (authenticate cleared g born)) reqs) current now = Ok live"
  shows "current = g \<and> born \<le> now \<and> now \<le> born + absolute
    \<and> (authorize_sensitive_write policy trusted \<lparr>request_session = live, request_role = r, request_origin = origin\<rparr> = Ok approved
       \<longrightarrow> r = Admin \<and> (\<exists>o'. origin = Some o' \<and> trusts trusted o')
           \<and> now \<le> born + fresh \<and> fresh < idle \<and> sensitive_approved_at approved = now)"
proof -
  let ?s = "minted_state (authenticate cleared g born)"
  have "born_at born g ?s" by (simp add: born_at_def authenticate_def)
  then have inv: "born_at born g (run_session policy ?s reqs)"
    unfolding run_session_eq by (rule session.run_events_inv)
  with assms show ?thesis
    by (auto simp: evaluate_session_ok policy_new_ok authorize_sensitive_write_ok born_at_def)
qed

theorem activity_extends_nothing_witness:
  "let policy = \<lparr>policy_idle = 30, policy_absolute = 100, policy_fresh = 10\<rparr>;
       g = AuthGeneration 3;
       state = run_session policy (minted_state (authenticate \<lparr>cleared_email = NormalizedEmail ''a'', cleared_path = NewAccount\<rparr> g 0))
                 [(g, 20), (g, 45), (AuthGeneration 4, 46)]
   in evaluate_session policy state g 60 = Ok \<lparr>live_state = state, evaluated_at = 60\<rparr> \<and> (60 :: int) \<le> 0 + 100"
proof -
  let ?policy = "\<lparr>policy_idle = 30, policy_absolute = 100, policy_fresh = 10\<rparr>"
  let ?g = "AuthGeneration 3"
  let ?cleared = "\<lparr>cleared_email = NormalizedEmail ''a'', cleared_path = NewAccount\<rparr>"
  let ?state = "run_session ?policy (minted_state (authenticate ?cleared ?g 0)) [(?g, 20), (?g, 45), (AuthGeneration 4, 46)]"
  have policy: "policy_new 30 100 10 = Ok ?policy" by (simp add: policy_new_def)
  have live: "evaluate_session ?policy ?state ?g 60 = Ok \<lparr>live_state = ?state, evaluated_at = 60\<rparr>"
    by (simp add: session_step_def evaluate_session_def authenticate_def session_touch_def generation_check_def)
  from activity_extends_nothing [OF policy live] live show ?thesis
    unfolding Let_def by blast
qed

text \<open>A session that was once refused because its authority was superseded or because it expired,
  absolutely or by idleness, stays refused: no later request under the same or a later generation is
  accepted, none of them changes the stored session, and a superseded session keeps being reported as
  superseded rather than as expired.\<close>

theorem ended_session_stays_ended:
  assumes "evaluate_session policy state current now = Err r"
    and "r \<noteq> TimelineIncoherent" "r \<noteq> GenerationFromTheFuture"
    and "list_all (\<lambda>(g, t). generation_value current \<le> generation_value g \<and> now \<le> t) reqs"
  shows "run_session policy state reqs = state
    \<and> list_all (\<lambda>(g, t). \<exists>r'. evaluate_session policy state g t = Err r'
         \<and> (r = GenerationSuperseded \<longrightarrow> r' = GenerationSuperseded)) reqs"
proof -
  have later: "\<exists>r'. evaluate_session policy state g t = Err r' \<and> (r = GenerationSuperseded \<longrightarrow> r' = GenerationSuperseded)"
    if ge: "generation_value current \<le> generation_value g" "now \<le> t" for g t
  proof -
    have order: "established_at state \<le> last_seen_at state" "last_seen_at state \<le> now"
      using assms(1,2) by (auto simp: evaluate_session_def split: if_splits)
    have cause: "generation_value (session_generation state) < generation_value current \<and> r = GenerationSuperseded
        \<or> r \<noteq> GenerationSuperseded \<and> session_generation state = current
          \<and> (now - established_at state > policy_absolute policy \<or> now - last_seen_at state > policy_idle policy)"
    proof (cases "generation_check (session_generation state) current")
      case (Inl mismatch)
      with assms(1,3) order have "mismatch = Stale" "r = GenerationSuperseded"
        by (cases mismatch; auto simp: evaluate_session_def)+
      with Inl generation_check_stale show ?thesis by blast
    next
      case (Inr u)
      then have "session_generation state = current" by (simp add: generation_check_ok)
      with Inr assms(1) order show ?thesis by (auto simp: evaluate_session_def split: if_splits)
    qed
    show ?thesis
    proof (cases "generation_value (session_generation state) < generation_value g")
      case True
      then have "generation_check (session_generation state) g = Err Stale" by (simp add: generation_check_stale)
      then show ?thesis using order ge by (simp add: evaluate_session_def)
    next
      case False
      then have "r \<noteq> GenerationSuperseded"
        "now - established_at state > policy_absolute policy \<or> now - last_seen_at state > policy_idle policy"
        using cause ge(1) by auto
      then show ?thesis
        using ge(2) by (cases "evaluate_session policy state g t") (auto simp: evaluate_session_ok)
    qed
  qed
  have "run_session policy state reqs = state"
    using assms(4)
  proof (induction reqs)
    case (Cons req reqs)
    then have "\<exists>r'. session_step policy state req = Err r'"
      using later [of "fst req" "snd req"] by (auto simp: session_step_def split: prod.splits)
    with Cons show ?case by auto
  qed simp
  moreover have "list_all (\<lambda>(g, t). \<exists>r'. evaluate_session policy state g t = Err r'
      \<and> (r = GenerationSuperseded \<longrightarrow> r' = GenerationSuperseded)) reqs"
    using assms(4) later by (auto simp: list_all_iff)
  ultimately show ?thesis by blast
qed

theorem ended_session_stays_ended_witness:
  "run_session \<lparr>policy_idle = 30, policy_absolute = 100, policy_fresh = 10\<rparr>
     \<lparr>established_at = 0, last_seen_at = 5, session_generation = AuthGeneration 1\<rparr>
     [(AuthGeneration 2, 7), (AuthGeneration 3, 200)]
   = \<lparr>established_at = 0, last_seen_at = 5, session_generation = AuthGeneration 1\<rparr>"
  using ended_session_stays_ended
    [of "\<lparr>policy_idle = 30, policy_absolute = 100, policy_fresh = 10\<rparr>"
        "\<lparr>established_at = 0, last_seen_at = 5, session_generation = AuthGeneration 1\<rparr>" "AuthGeneration 2" 6
        GenerationSuperseded "[(AuthGeneration 2, 7), (AuthGeneration 3, 200)]"]
  by (simp add: evaluate_session_def generation_check_def generation_value_def)

end
