(* ===== verification/VaultBinding.thy ===== *)
theory VaultBinding
  imports Canonical
begin

text \<open>
  The bottom of the vault, \<open>crates/openbot-domain/src/vault/\<close>: errors (\<open>error.rs\<close>), key material and
  nonces (\<open>key.rs\<close>), and the associated data that ties a ciphertext to its record (\<open>binding.rs\<close>).
  The lemmas show that the associated data is injective and separated by domain: no two bindings, and
  no record and data-key use, ever share it. \<open>SecretBytes\<close> is its bytes; zeroization is not modelled.
\<close>

section \<open>Errors\<close>

datatype vault_error =
    EnvelopeInvalid
  | EnvelopeVersionUnsupported
  | LegacyIvLength
  | CiphertextTooShort
  | KeyLength
  | NonceLength
  | DataKeyLength
  | KeyVersionMismatch
  | DecryptFailed
  | PlaintextTooLarge
  | ReadBackMismatch
  | IllegalMigrationStep string string
  | RotationGenerationNotAdvanced
  | RotationPreviousAlreadyRevoked
  | RotationTargetsItself

fun vault_error_code :: "vault_error \<Rightarrow> string" where
  "vault_error_code EnvelopeInvalid = ''vault_envelope_invalid''"
| "vault_error_code EnvelopeVersionUnsupported = ''vault_envelope_version_unsupported''"
| "vault_error_code LegacyIvLength = ''vault_legacy_iv_length''"
| "vault_error_code CiphertextTooShort = ''vault_ciphertext_too_short''"
| "vault_error_code KeyLength = ''vault_key_length''"
| "vault_error_code NonceLength = ''vault_nonce_length''"
| "vault_error_code DataKeyLength = ''vault_data_key_length''"
| "vault_error_code KeyVersionMismatch = ''vault_key_version_mismatch''"
| "vault_error_code DecryptFailed = ''vault_decrypt_failed''"
| "vault_error_code PlaintextTooLarge = ''vault_plaintext_too_large''"
| "vault_error_code ReadBackMismatch = ''vault_read_back_mismatch''"
| "vault_error_code (IllegalMigrationStep _ _) = ''vault_illegal_migration_step''"
| "vault_error_code RotationGenerationNotAdvanced = ''vault_rotation_generation_not_advanced''"
| "vault_error_code RotationPreviousAlreadyRevoked = ''vault_rotation_previous_already_revoked''"
| "vault_error_code RotationTargetsItself = ''vault_rotation_targets_itself''"

section \<open>Keys and nonces\<close>

definition nonce_bytes :: nat where "nonce_bytes = 12"
definition tag_bytes :: nat where "tag_bytes = 16"
definition data_key_bytes :: nat where "data_key_bytes = 32"

datatype wrapping_key = WrappingKey (wrapping_material: bytes)

definition accepted_bytes :: "nat list" where
  "accepted_bytes = [16, 24, 32]"

definition wrapping_key_from_bytes :: "bytes \<Rightarrow> (vault_error, wrapping_key) result" where
  "wrapping_key_from_bytes bs =
     (if length bs \<notin> set accepted_bytes then Err KeyLength else Ok (WrappingKey bs))"

definition wrapping_key_bits :: "wrapping_key \<Rightarrow> nat" where
  "wrapping_key_bits k = length (wrapping_material k) * 8"

datatype data_key = DataKey (data_material: bytes)

definition data_key_from_bytes :: "bytes \<Rightarrow> (vault_error, data_key) result" where
  "data_key_from_bytes bs = (if length bs \<noteq> data_key_bytes then Err DataKeyLength else Ok (DataKey bs))"

datatype nonce = Nonce (nonce_get: bytes)

definition nonce_from_slice :: "bytes \<Rightarrow> (vault_error, nonce) result" where
  "nonce_from_slice bs = (if length bs = nonce_bytes then Ok (Nonce bs) else Err NonceLength)"

text \<open>The lengths the Rust types fix.\<close>

definition wrapping_key_ok :: "wrapping_key \<Rightarrow> bool" where
  "wrapping_key_ok k \<longleftrightarrow> length (wrapping_material k) \<in> set accepted_bytes"

definition data_key_ok :: "data_key \<Rightarrow> bool" where
  "data_key_ok k \<longleftrightarrow> length (data_material k) = data_key_bytes"

definition nonce_ok :: "nonce \<Rightarrow> bool" where
  "nonce_ok n \<longleftrightarrow> length (nonce_get n) = nonce_bytes"

section \<open>Bindings\<close>

datatype key_version = KeyVersion (key_version_get: u32)
datatype secret_id = SecretId (secret_id_str: string)
datatype service_id = ServiceId (service_id_str: string)

datatype secret_kind = SkModel | SkConnector | SkAgent | SkMcp | SkMcpOauthClient | SkMcpUserToken

fun secret_kind_str :: "secret_kind \<Rightarrow> string" where
  "secret_kind_str SkModel = ''model''"
| "secret_kind_str SkConnector = ''connector''"
| "secret_kind_str SkAgent = ''agent''"
| "secret_kind_str SkMcp = ''mcp''"
| "secret_kind_str SkMcpOauthClient = ''mcp_oauth_client''"
| "secret_kind_str SkMcpUserToken = ''mcp_user_token''"

datatype secret_principal =
    PrDeployment
  | PrActor string
  | PrBot string
  | PrService service_id

fun principal_tag :: "secret_principal \<Rightarrow> string" where
  "principal_tag PrDeployment = ''deployment''"
| "principal_tag (PrActor _) = ''actor''"
| "principal_tag (PrBot _) = ''bot''"
| "principal_tag (PrService _) = ''service''"

fun principal_subject :: "secret_principal \<Rightarrow> string" where
  "principal_subject PrDeployment = []"
| "principal_subject (PrActor i) = i"
| "principal_subject (PrBot i) = i"
| "principal_subject (PrService i) = service_id_str i"

definition push_framed :: "bytes \<Rightarrow> bytes \<Rightarrow> bytes" where
  "push_framed out bs = (out @ be_bytes 8 (of_nat (length bs) :: u64)) @ bs"

definition principal_encode :: "secret_principal \<Rightarrow> bytes" where
  "principal_encode p =
     push_framed (push_framed [] (str_bytes (principal_tag p))) (str_bytes (principal_subject p))"

record record_binding =
  bind_tenant :: string
  bind_secret_id :: secret_id
  bind_kind :: secret_kind
  bind_owner :: secret_principal
  bind_consumer :: secret_principal
  bind_key_version :: key_version

definition with_key_version :: "record_binding \<Rightarrow> key_version \<Rightarrow> record_binding" where
  "with_key_version b v = b\<lparr>bind_key_version := v\<rparr>"

definition aad_prefix_record :: bytes where
  "aad_prefix_record = str_bytes ''openbot.vault.aad.record.v1'' @ [0]"

definition aad_prefix_data_key :: bytes where
  "aad_prefix_data_key = str_bytes ''openbot.vault.aad.datakey.v1'' @ [0]"

definition aad_field_count :: u64 where
  "aad_field_count = 6"

definition binding_encode :: "record_binding \<Rightarrow> bytes \<Rightarrow> bytes" where
  "binding_encode b prefix =
     (let out = prefix @ be_bytes 8 aad_field_count;
          out = push_framed out (str_bytes (bind_tenant b));
          out = push_framed out (str_bytes (secret_id_str (bind_secret_id b)));
          out = push_framed out (str_bytes (secret_kind_str (bind_kind b)));
          out = push_framed out (principal_encode (bind_owner b));
          out = push_framed out (principal_encode (bind_consumer b))
      in push_framed out (be_bytes 4 (key_version_get (bind_key_version b))))"

definition record_aad :: "record_binding \<Rightarrow> bytes" where
  "record_aad b = binding_encode b aad_prefix_record"

definition data_key_aad :: "record_binding \<Rightarrow> bytes" where
  "data_key_aad b = binding_encode b aad_prefix_data_key"

section \<open>The encoding is injective\<close>

text \<open>The lengths a 64-bit machine can hold, also for the framed principals.\<close>

definition principal_ok :: "secret_principal \<Rightarrow> bool" where
  "principal_ok p \<longleftrightarrow> fits_u64 (length (principal_encode p))"

definition binding_ok :: "record_binding \<Rightarrow> bool" where
  "binding_ok b \<longleftrightarrow> str_ok (bind_tenant b) \<and> str_ok (secret_id_str (bind_secret_id b))
     \<and> principal_ok (bind_owner b) \<and> principal_ok (bind_consumer b)"

lemma push_framed_eq: "push_framed out bs = out @ enc_bytes bs"
  by (simp add: push_framed_def enc_bytes_def)

lemma secret_kind_str_inject: "secret_kind_str k = secret_kind_str l \<longleftrightarrow> k = l"
  by (cases k; cases l) simp_all

lemma secret_kind_str_short: "fits_u64 (length (secret_kind_str k))"
  by (cases k) (simp_all add: fits_u64_def)

lemma principal_tag_short: "fits_u64 (length (principal_tag p))"
  by (cases p) (simp_all add: fits_u64_def)

lemma principal_parts_inject:
  "principal_tag p = principal_tag q \<Longrightarrow> principal_subject p = principal_subject q \<Longrightarrow> p = q"
  by (cases p; cases q) (simp_all add: service_id.expand)

lemma principal_encode_inject:
  assumes "principal_ok p" "principal_ok q" "principal_encode p = principal_encode q"
  shows "p = q"
proof -
  have "fits_u64 (length (principal_subject x))" if "principal_ok x" for x
    using that by (simp add: principal_ok_def principal_encode_def push_framed_eq enc_bytes_def fits_u64_def)
  then have "str_bytes (principal_tag p) = str_bytes (principal_tag q)
      \<and> str_bytes (principal_subject p) = str_bytes (principal_subject q)"
    using assms principal_tag_short
    by (simp add: principal_encode_def push_framed_eq bytes_code.append_eq_iff bytes_code.enc_inject)
  then show ?thesis by (intro principal_parts_inject) simp_all
qed

definition enc_binding :: "record_binding \<Rightarrow> bytes" where
  "enc_binding b =
     enc_str (bind_tenant b) @ enc_str (secret_id_str (bind_secret_id b)) @ enc_str (secret_kind_str (bind_kind b))
     @ enc_bytes (principal_encode (bind_owner b)) @ enc_bytes (principal_encode (bind_consumer b))
     @ enc_bytes (be_bytes 4 (key_version_get (bind_key_version b)))"

lemma binding_encode_eq: "binding_encode b prefix = prefix @ be_bytes 8 aad_field_count @ enc_binding b"
  by (simp add: binding_encode_def Let_def push_framed_eq enc_binding_def enc_str_def)

interpretation binding_code: prefix_code enc_binding binding_ok
proof
  fix a b r s
  assume ok: "binding_ok a" "binding_ok b" and eq: "enc_binding a @ r = enc_binding b @ s"
  have short: "fits_u64 (length (be_bytes 4 w))" for w :: u32 by (simp add: fits_u64_def)
  have "bind_tenant a = bind_tenant b \<and> bind_secret_id a = bind_secret_id b \<and> bind_kind a = bind_kind b
      \<and> principal_encode (bind_owner a) = principal_encode (bind_owner b)
      \<and> principal_encode (bind_consumer a) = principal_encode (bind_consumer b)
      \<and> bind_key_version a = bind_key_version b \<and> r = s"
    using eq ok short secret_kind_str_short
    by (auto simp: enc_binding_def binding_ok_def principal_ok_def str_code.append_eq_iff bytes_code.append_eq_iff
        secret_kind_str_inject be_bytes_inject secret_id.expand key_version.expand)
  with ok show "a = b \<and> r = s"
    by (auto simp: binding_ok_def intro: record_binding.equality principal_encode_inject)
qed

lemma aad_prefixes_differ: "take 28 (aad_prefix_record @ r) \<noteq> take 28 (aad_prefix_data_key @ s)"
proof -
  have "length aad_prefix_record = 28" "length aad_prefix_data_key = 29"
    by (simp_all add: aad_prefix_record_def aad_prefix_data_key_def)
  moreover have "aad_prefix_record \<noteq> take 28 aad_prefix_data_key"
    by (simp add: aad_prefix_record_def aad_prefix_data_key_def str_bytes_def)
  ultimately show ?thesis by simp
qed

text \<open>The associated data of a vault record binds everything it names: two bindings with the same
  record data, or the same data-key data, are the same binding, so no ciphertext can be moved to
  another tenant, record, kind, owner, consumer or key generation by choosing the names cleverly; and
  the data of a wrapped key is never the data of a record, whatever the two bindings are.\<close>

lemma aad_binds:
  assumes "binding_ok a" "binding_ok b"
  shows "(record_aad a = record_aad b \<longleftrightarrow> a = b) \<and> (data_key_aad a = data_key_aad b \<longleftrightarrow> a = b)
    \<and> record_aad a \<noteq> data_key_aad b"
proof -
  have "record_aad a \<noteq> data_key_aad b"
    unfolding record_aad_def data_key_aad_def binding_encode_eq
    using aad_prefixes_differ by metis
  then show ?thesis
    using assms by (simp add: record_aad_def data_key_aad_def binding_encode_eq binding_code.enc_inject)
qed

definition example_binding :: record_binding where
  "example_binding = \<lparr>bind_tenant = ''t'', bind_secret_id = SecretId ''s'', bind_kind = SkModel,
     bind_owner = PrDeployment, bind_consumer = PrActor ''a'', bind_key_version = KeyVersion 1\<rparr>"

lemma example_binding_ok: "binding_ok example_binding"
  by (simp add: example_binding_def binding_ok_def principal_ok_def principal_encode_def push_framed_eq
      enc_bytes_def fits_u64_def)

end
