(* ===== verification/FlatJson.thy ===== *)
theory FlatJson
  imports StdModel
begin

text \<open>
  What the development relies on of \<open>serde_json::from_str\<close> where the code writes an object by hand and reads
  it back: an object whose values are texts that need no escape or unsigned integers is read to its members.
  A reader of such objects shows that the requirement can be met.
\<close>

definition plain_text :: "string \<Rightarrow> bool" where
  "plain_text s \<longleftrightarrow> list_all (\<lambda>c. of_char c \<ge> (0x20 :: nat) \<and> of_char c < (0x7F :: nat) \<and> c \<noteq> CHR 0x22 \<and> c \<noteq> CHR 0x5C) s"

text \<open>A member with its value as it stands in the text.\<close>

fun flat_value :: "json \<Rightarrow> bool" where
  "flat_value (JString s) \<longleftrightarrow> plain_text s"
| "flat_value (JNumber (PosInt n)) \<longleftrightarrow> True"
| "flat_value _ \<longleftrightarrow> False"

fun value_text :: "json \<Rightarrow> string" where
  "value_text (JString s) = quoted s"
| "value_text (JNumber (PosInt n)) = show_nat (unat n)"
| "value_text _ = []"

fun members_text :: "(string \<times> json) list \<Rightarrow> string" where
  "members_text [] = []"
| "members_text [(k, v)] = quoted k @ '':'' @ value_text v"
| "members_text ((k, v) # m # ms) = quoted k @ '':'' @ value_text v @ '','' @ members_text (m # ms)"

definition object_text :: "(string \<times> json) list \<Rightarrow> string" where
  "object_text members = ''{'' @ members_text members @ ''}''"

definition flat_members :: "(string \<times> json) list \<Rightarrow> bool" where
  "flat_members members \<longleftrightarrow> members \<noteq> [] \<and> distinct (map fst members)
     \<and> list_all (\<lambda>(k, v). plain_text k \<and> flat_value v) members"

definition reads_flat_objects :: "(string \<Rightarrow> json option) \<Rightarrow> bool" where
  "reads_flat_objects from_str \<longleftrightarrow>
     (\<forall>members. flat_members members \<longrightarrow>
        (\<exists>m. from_str (object_text members) = Some (JObject m) \<and> map_of m = map_of members))"

section \<open>A reader\<close>

definition read_quoted :: "string \<Rightarrow> string \<times> string" where
  "read_quoted s = (takeWhile (\<lambda>c. c \<noteq> CHR 0x22) s, drop 1 (dropWhile (\<lambda>c. c \<noteq> CHR 0x22) s))"

definition read_value :: "string \<Rightarrow> (json \<times> string) option" where
  "read_value s =
     (case s of
        [] \<Rightarrow> None
      | c # rest \<Rightarrow>
          if c = CHR 0x22 then (let (t, rest) = read_quoted rest in Some (JString t, rest))
          else (case parse_digits (2 ^ 64) 0 (takeWhile is_ascii_digit s) of
                  None \<Rightarrow> None
                | Some n \<Rightarrow> Some (JNumber (PosInt (of_nat n)), dropWhile is_ascii_digit s)))"

fun read_members :: "nat \<Rightarrow> string \<Rightarrow> (string \<times> json) list option" where
  "read_members 0 s = None"
| "read_members (Suc n) s =
     (let (k, rest) = read_quoted (drop 1 s) in
      case read_value (drop 1 rest) of
        None \<Rightarrow> None
      | Some (v, rest) \<Rightarrow>
          if starts_with rest '','' then map_option (Cons (k, v)) (read_members n (drop 1 rest)) else Some [(k, v)])"

definition flat_from_str :: "string \<Rightarrow> json option" where
  "flat_from_str s = map_option JObject (read_members (length s) (drop 1 s))"

lemma plain_no_quote: "plain_text s \<Longrightarrow> CHR 0x22 \<notin> set s"
  by (auto simp: plain_text_def list_all_iff)

lemma read_quoted_plain: "plain_text s \<Longrightarrow> read_quoted (s @ CHR 0x22 # rest) = (s, rest)"
  using plain_no_quote [of s] by (auto simp: read_quoted_def takeWhile_append dropWhile_append)

lemma show_nat_not_empty: "show_nat n \<noteq> []"
  by (subst show_nat.simps) simp

lemma read_value_flat:
  assumes "flat_value v" "rest = [] \<or> hd rest \<in> {CHR '','', CHR ''}''}"
  shows "read_value (value_text v @ rest) = Some (v, rest)"
  using assms(1)
proof (cases v rule: flat_value.cases)
  case (1 s)
  with assms(1) show ?thesis by (simp add: read_value_def quoted_def read_quoted_plain)
next
  case (2 n)
  have digits: "c \<in> set (show_nat (unat n)) \<Longrightarrow> is_ascii_digit c" for c by (rule show_nat_digits)
  have stop: "rest = [] \<or> \<not> is_ascii_digit (hd rest)" using assms(2) by (auto simp: is_ascii_digit_def)
  have "takeWhile is_ascii_digit (show_nat (unat n) @ rest) = show_nat (unat n)"
    "dropWhile is_ascii_digit (show_nat (unat n) @ rest) = rest"
    using digits stop by (cases rest; simp add: takeWhile_append dropWhile_append)+
  moreover obtain c cs where "show_nat (unat n) = c # cs" using show_nat_not_empty by (cases "show_nat (unat n)") auto
  moreover from this have "c \<noteq> CHR 0x22" using digits [of c] by (auto simp: is_ascii_digit_def)
  moreover have "parse_digits (2 ^ 64) 0 (show_nat (unat n)) = Some (unat n)"
    using unsigned_less [of n, where ?'a = nat] by (simp add: parse_digits_eq digits_value_show_nat)
  ultimately show ?thesis using 2 by (simp add: read_value_def)
qed simp_all

lemma read_members_flat:
  "members \<noteq> [] \<Longrightarrow> list_all (\<lambda>(k, v). plain_text k \<and> flat_value v) members \<Longrightarrow> length members \<le> n \<Longrightarrow>
   read_members n (members_text members @ ''}'') = Some members"
proof (induction members arbitrary: n rule: members_text.induct)
  case (2 k v)
  then obtain m where "n = Suc m" by (cases n) auto
  with 2 show ?case by (simp add: quoted_def read_quoted_plain read_value_flat starts_with_def)
next
  case (3 k v e es)
  then obtain m where "n = Suc m" by (cases n) auto
  with 3 show ?case by (simp add: quoted_def read_quoted_plain read_value_flat starts_with_def)
qed simp

lemma members_text_length: "length members \<le> length (members_text members)"
  by (induction members rule: members_text.induct) (simp_all add: quoted_def)

lemma flat_from_str_reads: "reads_flat_objects flat_from_str"
proof -
  have "flat_from_str (object_text members) = Some (JObject members)" if "flat_members members" for members
    using that read_members_flat [of members "Suc (Suc (length (members_text members)))"] members_text_length [of members]
    by (simp add: flat_from_str_def object_text_def flat_members_def)
  then show ?thesis by (auto simp: reads_flat_objects_def)
qed

section \<open>Bytes as plain text\<close>

text \<open>An engine with the properties of Base64 that the code relies on: two letters for each byte.\<close>

definition letters_of_byte :: "u8 \<Rightarrow> string" where
  "letters_of_byte b = [char_of (65 + unat b div 16), char_of (65 + unat b mod 16)]"

definition letters_of_bytes :: "bytes \<Rightarrow> string" where
  "letters_of_bytes bs = concat (map letters_of_byte bs)"

fun bytes_of_letters :: "string \<Rightarrow> bytes option" where
  "bytes_of_letters [] = Some []"
| "bytes_of_letters [c] = None"
| "bytes_of_letters (c # d # s) =
     map_option (Cons (of_nat ((of_char c - 65) * 16 + (of_char d - 65)))) (bytes_of_letters s)"

lemma unat_byte_less: "unat (b :: u8) < 256"
  using unsigned_less [of b, where ?'a = nat] by simp

lemma bytes_of_letters_of_bytes: "bytes_of_letters (letters_of_bytes bs) = Some bs"
proof (induction bs)
  case (Cons b bs)
  have "unat b div 16 < 16" using unat_byte_less [of b] by simp
  moreover have "unat b div 16 * 16 + unat b mod 16 = unat b" by simp
  ultimately show ?case using Cons by (simp add: letters_of_bytes_def letters_of_byte_def)
qed (simp add: letters_of_bytes_def)

lemma plain_letters: "plain_text (letters_of_bytes bs)"
proof (induction bs)
  case (Cons b bs)
  have "plain_text (letters_of_byte b)"
  proof -
    have d: "unat b div 16 < 16" using unat_byte_less [of b] by simp
    have m: "unat b mod 16 < 16" by simp
    have "of_char (char_of (65 + i) :: char) = 65 + i" if "i < 16" for i :: nat using that by simp
    moreover have "char_of (65 + i) \<noteq> (c :: char)" if "i < 16" "of_char c < (65 :: nat) \<or> of_char c > (81 :: nat)"
      for i :: nat and c
    proof
      assume "char_of (65 + i) = c"
      then have "of_char c = (65 + i :: nat)" using that(1) by auto
      with that show False by simp
    qed
    ultimately show ?thesis using d m by (simp add: plain_text_def letters_of_byte_def)
  qed
  with Cons show ?case by (simp add: letters_of_bytes_def plain_text_def)
qed (simp add: letters_of_bytes_def plain_text_def)

end
