(* ===== verification/VaultAead.thy ===== *)
theory VaultAead
  imports VaultBinding FlatJson
begin

text \<open>
  Envelopes and their ciphers, \<open>crates/openbot-domain/src/vault/envelope.rs\<close> and \<open>aead.rs\<close>: the legacy
  envelope that is only read, the record envelope with a wrapped data key, and sealing and opening.
  AES-GCM (\<open>enc\<close>, \<open>dec\<close>: key, nonce, associated data, text), the Base64 engine (\<open>b64\<close>, \<open>unb64\<close>)
  and the JSON parser (\<open>from_str\<close>) are third-party crates and parameters of the definitions.
\<close>

type_synonym cipher = "bytes \<Rightarrow> bytes \<Rightarrow> bytes \<Rightarrow> bytes \<Rightarrow> bytes option"

section \<open>Column values\<close>

text \<open>A text between double quotes.\<close>

definition v1_envelope_prefix :: string where
  "v1_envelope_prefix = ''{'' @ quoted ''version'' @ '':1''"

definition v2_envelope_prefix :: string where
  "v2_envelope_prefix = ''{'' @ quoted ''version'' @ '':2''"

datatype column_shape = LegacyEnvelope | RecordEnvelope | Plaintext


definition classify_column :: "string \<Rightarrow> column_shape" where
  "classify_column v =
     (if starts_with v v2_envelope_prefix then RecordEnvelope
      else if starts_with v v1_envelope_prefix then LegacyEnvelope
      else Plaintext)"

section \<open>Envelopes\<close>

fun json_u64 :: "json \<Rightarrow> u64 option" where
  "json_u64 (JNumber n) = as_u64 n"
| "json_u64 _ = None"

definition u32_try_from :: "u64 \<Rightarrow> u32 option" where
  "u32_try_from w = (if unat w < 2 ^ 32 then Some (ucast w) else None)"

definition decode_base64_field ::
  "(string \<Rightarrow> bytes option) \<Rightarrow> (string \<times> json) list \<Rightarrow> string \<Rightarrow> (vault_error, bytes) result" where
  "decode_base64_field unb64 m field =
     (case Option.bind (map_of m field) json_str of
        None \<Rightarrow> Err EnvelopeInvalid
      | Some raw \<Rightarrow> (case unb64 raw of None \<Rightarrow> Err EnvelopeInvalid | Some bs \<Rightarrow> Ok bs))"

record envelope_v1 =
  v1_iv :: nonce
  v1_ciphertext :: bytes

definition envelope_v1_parse ::
  "(string \<Rightarrow> json option) \<Rightarrow> (string \<Rightarrow> bytes option) \<Rightarrow> string \<Rightarrow> (vault_error, envelope_v1) result" where
  "envelope_v1_parse from_str unb64 v =
     (case Option.bind (from_str v) as_object of None \<Rightarrow> Err EnvelopeInvalid | Some m \<Rightarrow>
      case Option.bind (map_of m ''version'') json_u64 of None \<Rightarrow> Err EnvelopeInvalid | Some version \<Rightarrow>
      if version \<noteq> 1 then Err EnvelopeVersionUnsupported
      else case decode_base64_field unb64 m ''iv'' of Inl e \<Rightarrow> Err e | Inr iv \<Rightarrow>
      case decode_base64_field unb64 m ''ciphertext'' of Inl e \<Rightarrow> Err e | Inr ciphertext \<Rightarrow>
      case nonce_from_slice iv of Inl _ \<Rightarrow> Err LegacyIvLength | Inr iv \<Rightarrow>
      if length ciphertext < tag_bytes then Err CiphertextTooShort
      else Ok \<lparr>v1_iv = iv, v1_ciphertext = ciphertext\<rparr>)"

record envelope_v2 =
  v2_key_version :: key_version
  v2_dek_nonce :: nonce
  v2_wrapped_dek :: bytes
  v2_nonce :: nonce
  v2_ciphertext :: bytes

definition envelope_v2_parse ::
  "(string \<Rightarrow> json option) \<Rightarrow> (string \<Rightarrow> bytes option) \<Rightarrow> string \<Rightarrow> (vault_error, envelope_v2) result" where
  "envelope_v2_parse from_str unb64 v =
     and_then (ok_or EnvelopeInvalid (Option.bind (from_str v) as_object)) (\<lambda>m.
     and_then (ok_or EnvelopeInvalid (Option.bind (map_of m ''version'') json_u64)) (\<lambda>version.
     if version \<noteq> 2 then Err EnvelopeVersionUnsupported
     else
     and_then (ok_or EnvelopeInvalid (Option.bind (Option.bind (map_of m ''key_version'') json_u64) u32_try_from)) (\<lambda>key_version.
     and_then (decode_base64_field unb64 m ''dek_nonce'') (\<lambda>dek_nonce.
     and_then (decode_base64_field unb64 m ''wrapped_dek'') (\<lambda>wrapped_dek.
     and_then (decode_base64_field unb64 m ''nonce'') (\<lambda>nonce.
     and_then (decode_base64_field unb64 m ''ciphertext'') (\<lambda>ciphertext.
     and_then (nonce_from_slice dek_nonce) (\<lambda>dek_nonce.
     and_then (nonce_from_slice nonce) (\<lambda>nonce.
     if length wrapped_dek < tag_bytes \<or> length ciphertext < tag_bytes then Err CiphertextTooShort
     else Ok \<lparr>v2_key_version = KeyVersion key_version, v2_dek_nonce = dek_nonce, v2_wrapped_dek = wrapped_dek,
               v2_nonce = nonce, v2_ciphertext = ciphertext\<rparr>)))))))))"

definition envelope_v2_to_column_value :: "(bytes \<Rightarrow> string) \<Rightarrow> envelope_v2 \<Rightarrow> string" where
  "envelope_v2_to_column_value b64 e =
     ''{'' @ quoted ''version'' @ '':2,''
     @ quoted ''key_version'' @ '':'' @ show_nat (unat (key_version_get (v2_key_version e))) @ '',''
     @ quoted ''dek_nonce'' @ '':'' @ quoted (b64 (nonce_get (v2_dek_nonce e))) @ '',''
     @ quoted ''wrapped_dek'' @ '':'' @ quoted (b64 (v2_wrapped_dek e)) @ '',''
     @ quoted ''nonce'' @ '':'' @ quoted (b64 (nonce_get (v2_nonce e))) @ '',''
     @ quoted ''ciphertext'' @ '':'' @ quoted (b64 (v2_ciphertext e)) @ ''}''"

section \<open>AES-GCM by key length\<close>

definition aes_gcm_encrypt :: "cipher \<Rightarrow> bytes \<Rightarrow> nonce \<Rightarrow> bytes \<Rightarrow> bytes \<Rightarrow> (vault_error, bytes) result" where
  "aes_gcm_encrypt enc key n aad plaintext =
     (if length key \<in> {16, 24, 32} then
        (case enc key (nonce_get n) aad plaintext of None \<Rightarrow> Err PlaintextTooLarge | Some c \<Rightarrow> Ok c)
      else Err KeyLength)"

definition aes_gcm_decrypt :: "cipher \<Rightarrow> bytes \<Rightarrow> nonce \<Rightarrow> bytes \<Rightarrow> bytes \<Rightarrow> (vault_error, bytes) result" where
  "aes_gcm_decrypt dec key n aad ciphertext =
     (if length ciphertext < tag_bytes then Err CiphertextTooShort
      else if length key \<in> {16, 24, 32} then
        (case dec key (nonce_get n) aad ciphertext of None \<Rightarrow> Err DecryptFailed | Some m \<Rightarrow> Ok m)
      else Err KeyLength)"

definition decrypt_v1 :: "cipher \<Rightarrow> wrapping_key \<Rightarrow> envelope_v1 \<Rightarrow> (vault_error, bytes) result" where
  "decrypt_v1 dec key e = aes_gcm_decrypt dec (wrapping_material key) (v1_iv e) [] (v1_ciphertext e)"

definition wrap_data_key ::
  "cipher \<Rightarrow> wrapping_key \<Rightarrow> record_binding \<Rightarrow> nonce \<Rightarrow> data_key \<Rightarrow> (vault_error, bytes) result" where
  "wrap_data_key enc kek b dek_nonce dek =
     aes_gcm_encrypt enc (wrapping_material kek) dek_nonce (data_key_aad b) (data_material dek)"

definition unwrap_data_key ::
  "cipher \<Rightarrow> wrapping_key \<Rightarrow> record_binding \<Rightarrow> nonce \<Rightarrow> bytes \<Rightarrow> (vault_error, data_key) result" where
  "unwrap_data_key dec kek b dek_nonce wrapped =
     (case aes_gcm_decrypt dec (wrapping_material kek) dek_nonce (data_key_aad b) wrapped of
        Inl e \<Rightarrow> Err e
      | Inr material \<Rightarrow> data_key_from_bytes material)"

definition seal_v2 ::
  "cipher \<Rightarrow> wrapping_key \<Rightarrow> data_key \<Rightarrow> record_binding \<Rightarrow> nonce \<Rightarrow> nonce \<Rightarrow> bytes \<Rightarrow> (vault_error, envelope_v2) result" where
  "seal_v2 enc kek dek b dek_nonce record_nonce plaintext =
     (case wrap_data_key enc kek b dek_nonce dek of Inl e \<Rightarrow> Err e | Inr wrapped_dek \<Rightarrow>
      case aes_gcm_encrypt enc (data_material dek) record_nonce (record_aad b) plaintext of
        Inl e \<Rightarrow> Err e
      | Inr ciphertext \<Rightarrow>
          Ok \<lparr>v2_key_version = bind_key_version b, v2_dek_nonce = dek_nonce, v2_wrapped_dek = wrapped_dek,
              v2_nonce = record_nonce, v2_ciphertext = ciphertext\<rparr>)"

definition open_v2 :: "cipher \<Rightarrow> wrapping_key \<Rightarrow> record_binding \<Rightarrow> envelope_v2 \<Rightarrow> (vault_error, bytes) result" where
  "open_v2 dec kek b e =
     (if v2_key_version e \<noteq> bind_key_version b then Err KeyVersionMismatch
      else case unwrap_data_key dec kek b (v2_dek_nonce e) (v2_wrapped_dek e) of Inl err \<Rightarrow> Err err | Inr dek \<Rightarrow>
      aes_gcm_decrypt dec (data_material dek) (v2_nonce e) (record_aad b) (v2_ciphertext e))"

section \<open>Columns are read back\<close>

lemma columns_classified:
  "classify_column (envelope_v2_to_column_value b64 e) = RecordEnvelope"
  by (simp add: classify_column_def starts_with_def envelope_v2_to_column_value_def v2_envelope_prefix_def quoted_def)

lemma u32_try_from_ucast: "u32_try_from (ucast (w :: u32)) = Some w"
proof -
  have less: "unat w < 2 ^ 32" using unsigned_less [of w, where ?'a = nat] by simp
  then have "unat (ucast w :: u64) = unat w" by (simp add: unsigned_ucast_eq take_bit_nat_eq_self)
  moreover have "(ucast (ucast w :: u64) :: u32) = w" by (rule bit_word_eqI) (simp add: bit_unsigned_iff)
  ultimately show ?thesis using less by (simp add: u32_try_from_def)
qed

text \<open>The members that \<open>to_column_value\<close> writes.\<close>

definition column_members :: "(bytes \<Rightarrow> string) \<Rightarrow> envelope_v2 \<Rightarrow> (string \<times> json) list" where
  "column_members b64 e =
     [(''version'', JNumber (PosInt 2)),
      (''key_version'', JNumber (PosInt (ucast (key_version_get (v2_key_version e))))),
      (''dek_nonce'', JString (b64 (nonce_get (v2_dek_nonce e)))),
      (''wrapped_dek'', JString (b64 (v2_wrapped_dek e))),
      (''nonce'', JString (b64 (nonce_get (v2_nonce e)))),
      (''ciphertext'', JString (b64 (v2_ciphertext e)))]"

lemma unat_ucast_u32: "unat (ucast (w :: u32) :: u64) = unat w"
  using unsigned_less [of w, where ?'a = nat] by (simp add: unsigned_ucast_eq take_bit_nat_eq_self)

lemma column_text: "envelope_v2_to_column_value b64 e = object_text (column_members b64 e)"
proof -
  have "show_nat 2 = ''2''" by (simp add: show_nat.simps [of 2] char_of_def bit_0)
  then show ?thesis
    by (simp add: envelope_v2_to_column_value_def object_text_def column_members_def unat_ucast_u32)
qed

lemma column_flat: "(\<And>bs. plain_text (b64 bs)) \<Longrightarrow> flat_members (column_members b64 e)"
  by (simp add: flat_members_def column_members_def) (simp add: plain_text_def)

definition envelope_v2_ok :: "envelope_v2 \<Rightarrow> bool" where
  "envelope_v2_ok e \<longleftrightarrow> nonce_ok (v2_dek_nonce e) \<and> nonce_ok (v2_nonce e)
     \<and> tag_bytes \<le> length (v2_wrapped_dek e) \<and> tag_bytes \<le> length (v2_ciphertext e)"

lemma envelope_v2_parse_column:
  assumes "reads_flat_objects from_str" "\<And>bs. plain_text (b64 bs)" "\<And>bs. unb64 (b64 bs) = Some bs" "envelope_v2_ok e"
  shows "envelope_v2_parse from_str unb64 (envelope_v2_to_column_value b64 e) = Ok e"
proof -
  obtain m where m: "from_str (envelope_v2_to_column_value b64 e) = Some (JObject m)" "map_of m = map_of (column_members b64 e)"
    using assms(1) column_flat [of b64 e, OF assms(2)] unfolding column_text reads_flat_objects_def by blast
  then show ?thesis
    using assms(3,4)
    by (simp add: envelope_v2_parse_def column_members_def decode_base64_field_def u32_try_from_ucast
        envelope_v2_ok_def nonce_ok_def nonce_from_slice_def linorder_not_le [symmetric] linorder_not_less)
qed

lemma envelope_v2_parse_ok: "envelope_v2_parse from_str unb64 v = Ok e \<Longrightarrow> envelope_v2_ok e"
  by (auto simp: envelope_v2_parse_def and_then_ok envelope_v2_ok_def nonce_ok_def nonce_from_slice_def
      split: if_splits)

section \<open>Sealed records\<close>

lemma seal_v2_ok:
  "seal_v2 enc kek dek b dek_nonce record_nonce plaintext = Ok e \<longleftrightarrow>
   length (wrapping_material kek) \<in> {16, 24, 32} \<and> length (data_material dek) \<in> {16, 24, 32}
   \<and> enc (wrapping_material kek) (nonce_get dek_nonce) (data_key_aad b) (data_material dek) = Some (v2_wrapped_dek e)
   \<and> enc (data_material dek) (nonce_get record_nonce) (record_aad b) plaintext = Some (v2_ciphertext e)
   \<and> v2_key_version e = bind_key_version b \<and> v2_dek_nonce e = dek_nonce \<and> v2_nonce e = record_nonce"
  by (cases e) (auto simp: seal_v2_def wrap_data_key_def aes_gcm_encrypt_def split: option.splits)

lemma open_v2_sealed:
  assumes "seal_v2 enc kek dek b dek_nonce record_nonce plaintext = Ok e" "data_key_ok dek"
    and "\<And>k n a m c. enc k n a m = Some c \<Longrightarrow> dec k n a c = Some m \<and> tag_bytes \<le> length c"
  shows "open_v2 dec kek b e = Ok plaintext"
proof -
  have sealed: "enc (wrapping_material kek) (nonce_get dek_nonce) (data_key_aad b) (data_material dek) = Some (v2_wrapped_dek e)"
      "enc (data_material dek) (nonce_get record_nonce) (record_aad b) plaintext = Some (v2_ciphertext e)"
      "length (wrapping_material kek) \<in> {16, 24, 32}" "length (data_material dek) \<in> {16, 24, 32}"
      "v2_key_version e = bind_key_version b" "v2_dek_nonce e = dek_nonce" "v2_nonce e = record_nonce"
    using assms(1) by (simp_all only: seal_v2_ok)
  then show ?thesis
    using assms(3) [OF sealed(1)] assms(3) [OF sealed(2)] assms(2)
    by (simp add: open_v2_def unwrap_data_key_def aes_gcm_decrypt_def data_key_ok_def data_key_from_bytes_def
        linorder_not_less)
qed

text \<open>C26: A sealed record that was written to its column, read back and parsed opens to exactly the text
  that was sealed, and only under the binding it was sealed for: with any other tenant, record, kind,
  owner, consumer or key generation it is refused, as a wrong key generation when that differs and
  as a failed decryption otherwise. The hypotheses are the ones documented of the libraries: AES-GCM
  decrypts what it encrypted, appends its tag, and does not accept the wrapped key under other
  associated data; Base64 writes plain text and reads it back; the JSON parser reads an object of plain
  texts and unsigned integers to its members, whatever they are.\<close>

theorem sealed_record_opens_only_as_sealed:
  assumes "seal_v2 enc kek dek b dek_nonce record_nonce plaintext = Ok e"
    and "data_key_ok dek" "nonce_ok dek_nonce" "nonce_ok record_nonce" "binding_ok b" "binding_ok b'"
    and cipher: "\<And>k n a m c. enc k n a m = Some c \<Longrightarrow> dec k n a c = Some m \<and> tag_bytes \<le> length c"
    and authentic: "data_key_aad b' \<noteq> data_key_aad b \<Longrightarrow>
      dec (wrapping_material kek) (nonce_get dek_nonce) (data_key_aad b') (v2_wrapped_dek e) = None"
    and base64: "\<And>bs. plain_text (b64 bs)" "\<And>bs. unb64 (b64 bs) = Some bs"
    and parser: "reads_flat_objects from_str"
  shows "classify_column (envelope_v2_to_column_value b64 e) = RecordEnvelope
    \<and> (case envelope_v2_parse from_str unb64 (envelope_v2_to_column_value b64 e) of
         Inl err \<Rightarrow> False
       | Inr e' \<Rightarrow> open_v2 dec kek b' e' =
           (if b' = b then Ok plaintext
            else if bind_key_version b' \<noteq> bind_key_version b then Err KeyVersionMismatch
            else Err DecryptFailed))"
proof -
  have e: "v2_dek_nonce e = dek_nonce" "v2_nonce e = record_nonce" "v2_key_version e = bind_key_version b"
      "tag_bytes \<le> length (v2_wrapped_dek e)" "tag_bytes \<le> length (v2_ciphertext e)"
      "length (wrapping_material kek) \<in> {16, 24, 32}"
    using assms(1) cipher by (auto simp: seal_v2_ok)
  then have "envelope_v2_ok e" using assms(3,4) by (simp add: envelope_v2_ok_def)
  then have parse: "envelope_v2_parse from_str unb64 (envelope_v2_to_column_value b64 e) = Ok e"
    using envelope_v2_parse_column [of from_str b64 unb64 e] parser base64 by blast
  have "open_v2 dec kek b' e = Err DecryptFailed" if "b' \<noteq> b" "bind_key_version b' = bind_key_version b"
  proof -
    have "data_key_aad b' \<noteq> data_key_aad b" using that(1) aad_binds assms(5,6) by blast
    from authentic [OF this] that(2) e show ?thesis
      by (simp add: open_v2_def unwrap_data_key_def aes_gcm_decrypt_def)
  qed
  moreover have "open_v2 dec kek b' e = Err KeyVersionMismatch" if "bind_key_version b' \<noteq> bind_key_version b"
    using that e by (simp add: open_v2_def)
  moreover have "open_v2 dec kek b e = Ok plaintext"
    using open_v2_sealed [OF assms(1,2) cipher] .
  ultimately show ?thesis using parse by (simp add: columns_classified)
qed

text \<open>A cipher with the documented behaviour: the associated data's length stands for its tag.\<close>

definition toy_enc :: cipher where
  "toy_enc k n a m = Some (replicate 16 (of_nat (length a)) @ m)"

definition toy_dec :: cipher where
  "toy_dec k n a c =
     (if 16 \<le> length c \<and> take 16 c = replicate 16 (of_nat (length a)) then Some (drop 16 c) else None)"

lemma toy_cipher: "toy_enc k n a m = Some c \<Longrightarrow> toy_dec k n a c = Some m \<and> tag_bytes \<le> length c"
  by (auto simp: toy_enc_def toy_dec_def tag_bytes_def)

definition example_sealed :: envelope_v2 where
  "example_sealed = \<lparr>v2_key_version = KeyVersion 1, v2_dek_nonce = Nonce (replicate 12 1),
     v2_wrapped_dek = replicate 16 (of_nat (length (data_key_aad example_binding))) @ replicate 32 7,
     v2_nonce = Nonce (replicate 12 2),
     v2_ciphertext = replicate 16 (of_nat (length (record_aad example_binding))) @ [42]\<rparr>"

lemma example_seal:
  "seal_v2 toy_enc (WrappingKey (replicate 32 9)) (DataKey (replicate 32 7)) example_binding (Nonce (replicate 12 1))
     (Nonce (replicate 12 2)) [42] = Ok example_sealed"
  by (simp add: seal_v2_ok toy_enc_def example_sealed_def example_binding_def)

theorem sealed_record_opens_only_as_sealed_witness:
  "let other = example_binding\<lparr>bind_tenant := ''other''\<rparr>; kek = WrappingKey (replicate 32 9)
   in seal_v2 toy_enc kek (DataKey (replicate 32 7)) example_binding (Nonce (replicate 12 1)) (Nonce (replicate 12 2)) [42]
        = Ok example_sealed
      \<and> (case envelope_v2_parse flat_from_str bytes_of_letters (envelope_v2_to_column_value letters_of_bytes example_sealed) of
           Inl err \<Rightarrow> False
         | Inr e' \<Rightarrow> open_v2 toy_dec kek other e' = Err DecryptFailed)"
proof -
  let ?other = "example_binding\<lparr>bind_tenant := ''other''\<rparr>"
  let ?kek = "WrappingKey (replicate 32 9)"
  note sealed = example_seal
  have ok: "data_key_ok (DataKey (replicate 32 7))" "nonce_ok (Nonce (replicate 12 1))" "nonce_ok (Nonce (replicate 12 2))"
      "binding_ok example_binding" "binding_ok ?other"
    using example_binding_ok by (simp_all add: data_key_ok_def data_key_bytes_def nonce_ok_def nonce_bytes_def
        binding_ok_def fits_u64_def)
  have lengths: "length (data_key_aad example_binding) = 144" "length (data_key_aad ?other) = 148"
    by (simp_all add: data_key_aad_def binding_encode_def push_framed_def principal_encode_def example_binding_def
        aad_prefix_data_key_def)
  then have authentic: "toy_dec (wrapping_material ?kek) (nonce_get (Nonce (replicate 12 1))) (data_key_aad ?other)
      (v2_wrapped_dek example_sealed) = None"
    by (simp add: toy_dec_def example_sealed_def)
  have differ: "(?other = example_binding) = False"
      "(bind_key_version ?other \<noteq> bind_key_version example_binding) = False"
    by (simp_all add: example_binding_def)
  from sealed_record_opens_only_as_sealed [OF sealed ok, of toy_dec letters_of_bytes bytes_of_letters flat_from_str,
      OF toy_cipher authentic plain_letters bytes_of_letters_of_bytes flat_from_str_reads]
  have "case envelope_v2_parse flat_from_str bytes_of_letters (envelope_v2_to_column_value letters_of_bytes example_sealed) of
           Inl err \<Rightarrow> False
         | Inr e' \<Rightarrow> open_v2 toy_dec ?kek ?other e' = Err DecryptFailed"
    using differ by (simp only: if_False if_True simp_thms cong: sum.case_cong)
  with sealed show ?thesis by (simp only: Let_def simp_thms)
qed

end
