(* ===== verification/VaultRotation.thy ===== *)
theory VaultRotation
  imports VaultAead
begin

text \<open>
  Secrets over time, \<open>crates/openbot-domain/src/vault/metadata.rs\<close> and \<open>rotation.rs\<close>: the metadata of
  a secret and when it is usable, the migration of a legacy envelope as a chain of typed stages and
  as the runtime table \<open>advance\<close>, and rotations. The lemmas show that the typed chain refines a
  specification of the custody of the secret, staged by the table, where a legacy envelope is only retired
  after its text was read back from the new column, and that only the newest of a chain of rotated secrets can be used.
\<close>

section \<open>Metadata\<close>

datatype credential_generation = CredentialGeneration (credential_generation_get: u64)

definition credential_first :: credential_generation where
  "credential_first = CredentialGeneration 1"

definition credential_next :: "credential_generation \<Rightarrow> credential_generation" where
  "credential_next g = CredentialGeneration (u64_saturating_inc (credential_generation_get g))"

definition is_behind :: "credential_generation \<Rightarrow> credential_generation \<Rightarrow> bool" where
  "is_behind g required \<longleftrightarrow> credential_generation_get g < credential_generation_get required"

definition credential_value :: "credential_generation \<Rightarrow> int" where
  "credential_value g = uint (credential_generation_get g)"

interpretation credential: saturating_counter credential_value credential_next "2 ^ 64 - 1"
  by unfold_locales (simp_all add: credential_value_def credential_next_def u64_saturating_inc uint_u64_bound [simplified])

datatype secret_class =
    ScModelKey | ScMcpOAuthRefreshToken | ScSsoProviderSecret | ScComputerBootstrapSecret | ScRunSigningKey | ScUpdaterKey

datatype secret_resource = SecretResource string

text \<open>The granted scope's \<open>BTreeSet\<close>: a set of tokens.\<close>

datatype secret_scope = SecretScope (scope_tokens: "string set")

definition scope_granted :: "string \<Rightarrow> secret_scope" where
  "scope_granted raw = SecretScope (set (filter (\<lambda>token. token \<noteq> []) (split_char (CHR '' '') raw)))"

definition scope_from_tokens :: "string list \<Rightarrow> secret_scope" where
  "scope_from_tokens tokens = SecretScope (set (filter (\<lambda>token. token \<noteq> []) tokens))"

definition scope_covers :: "secret_scope \<Rightarrow> secret_scope \<Rightarrow> bool" where
  "scope_covers s required \<longleftrightarrow> scope_tokens required \<subseteq> scope_tokens s"

definition scope_to_canonical_string :: "secret_scope \<Rightarrow> string" where
  "scope_to_canonical_string s = join_with '' '' (sorted_list_of_set (scope_tokens s))"

datatype revocation_state = RevActive | RevRevoked instant

fun is_revoked :: "revocation_state \<Rightarrow> bool" where
  "is_revoked RevActive = False"
| "is_revoked (RevRevoked _) = True"

record secret_record =
  rec_id :: secret_id
  rec_kind :: secret_kind
  rec_class :: secret_class
  rec_resource :: secret_resource
  rec_scope :: secret_scope
  rec_owner :: secret_principal
  rec_consumer :: secret_principal
  rec_generation :: credential_generation
  rec_expires_at :: "instant option"
  rec_revocation :: revocation_state

definition record_binding_of :: "secret_record \<Rightarrow> string \<Rightarrow> key_version \<Rightarrow> record_binding" where
  "record_binding_of r tenant v =
     \<lparr>bind_tenant = tenant, bind_secret_id = rec_id r, bind_kind = rec_kind r, bind_owner = rec_owner r,
      bind_consumer = rec_consumer r, bind_key_version = v\<rparr>"

datatype secret_usability =
    SecretUsable
  | SecretRevoked
  | SecretExpired
  | SecretGenerationBehind credential_generation credential_generation

definition usability :: "secret_record \<Rightarrow> instant \<Rightarrow> credential_generation \<Rightarrow> secret_usability" where
  "usability r now required =
     (if is_revoked (rec_revocation r) then SecretRevoked
      else if (case rec_expires_at r of None \<Rightarrow> False | Some expiry \<Rightarrow> now \<ge> expiry) then SecretExpired
      else if is_behind (rec_generation r) required then SecretGenerationBehind (rec_generation r) required
      else SecretUsable)"

section \<open>The runtime table of a migration\<close>

datatype migration_stage = V1Located | PlaintextRecovered | V2Persisted | ReadBackVerified | LegacyRetired

fun stage_code :: "migration_stage \<Rightarrow> string" where
  "stage_code V1Located = ''v1_located''"
| "stage_code PlaintextRecovered = ''plaintext_recovered''"
| "stage_code V2Persisted = ''v2_persisted''"
| "stage_code ReadBackVerified = ''read_back_verified''"
| "stage_code LegacyRetired = ''legacy_retired''"

datatype migration_step = StepDecrypt | StepPersistV2 | StepVerifyReadBack | StepRetireLegacy

fun step_code :: "migration_step \<Rightarrow> string" where
  "step_code StepDecrypt = ''decrypt''"
| "step_code StepPersistV2 = ''persist_v2''"
| "step_code StepVerifyReadBack = ''verify_read_back''"
| "step_code StepRetireLegacy = ''retire_legacy''"

fun advance :: "migration_stage \<Rightarrow> migration_step \<Rightarrow> (vault_error, migration_stage) result" where
  "advance V1Located StepDecrypt = Ok PlaintextRecovered"
| "advance PlaintextRecovered StepPersistV2 = Ok V2Persisted"
| "advance V2Persisted StepVerifyReadBack = Ok ReadBackVerified"
| "advance ReadBackVerified StepRetireLegacy = Ok LegacyRetired"
| "advance stage step = Err (IllegalMigrationStep (stage_code stage) (step_code step))"

section \<open>The typed chain of a migration\<close>

record migration_plan =
  plan_binding :: record_binding
  plan_legacy :: envelope_v1

definition migration_begin :: "record_binding \<Rightarrow> envelope_v1 \<Rightarrow> migration_plan" where
  "migration_begin b legacy = \<lparr>plan_binding = b, plan_legacy = legacy\<rparr>"

record recovered_secret =
  recovered_binding :: record_binding
  recovered_plaintext :: bytes

definition recover :: "cipher \<Rightarrow> migration_plan \<Rightarrow> wrapping_key \<Rightarrow> (vault_error, recovered_secret) result" where
  "recover dec p legacy_key =
     (case decrypt_v1 dec legacy_key (plan_legacy p) of
        Inl e \<Rightarrow> Err e
      | Inr plaintext \<Rightarrow> Ok \<lparr>recovered_binding = plan_binding p, recovered_plaintext = plaintext\<rparr>)"

record pending_read_back =
  pending_binding :: record_binding
  pending_plaintext :: bytes
  pending_column_value :: string

definition seal ::
  "cipher \<Rightarrow> (bytes \<Rightarrow> string) \<Rightarrow> recovered_secret \<Rightarrow> wrapping_key \<Rightarrow> data_key \<Rightarrow> nonce \<Rightarrow> nonce
     \<Rightarrow> (vault_error, pending_read_back) result" where
  "seal enc b64 r kek dek dek_nonce record_nonce =
     (case seal_v2 enc kek dek (recovered_binding r) dek_nonce record_nonce (recovered_plaintext r) of
        Inl e \<Rightarrow> Err e
      | Inr envelope \<Rightarrow>
          Ok \<lparr>pending_binding = recovered_binding r, pending_plaintext = recovered_plaintext r,
              pending_column_value = envelope_v2_to_column_value b64 envelope\<rparr>)"

record verified_migration =
  verified_secret_id :: secret_id
  verified_key_version :: key_version

definition verify_read_back ::
  "cipher \<Rightarrow> (string \<Rightarrow> json option) \<Rightarrow> (string \<Rightarrow> bytes option) \<Rightarrow> pending_read_back \<Rightarrow> wrapping_key \<Rightarrow> string
     \<Rightarrow> (vault_error, verified_migration) result" where
  "verify_read_back dec from_str unb64 p kek persisted =
     (case envelope_v2_parse from_str unb64 persisted of Inl e \<Rightarrow> Err e | Inr envelope \<Rightarrow>
      case open_v2 dec kek (pending_binding p) envelope of Inl e \<Rightarrow> Err e | Inr recovered \<Rightarrow>
      if recovered \<noteq> pending_plaintext p then Err ReadBackMismatch
      else Ok \<lparr>verified_secret_id = bind_secret_id (pending_binding p),
               verified_key_version = bind_key_version (pending_binding p)\<rparr>)"

record retirement_order =
  retired_secret_id :: secret_id
  retired_key_version :: key_version

definition retire_legacy :: "verified_migration \<Rightarrow> retirement_order" where
  "retire_legacy v =
     \<lparr>retired_secret_id = verified_secret_id v, retired_key_version = verified_key_version v\<rparr>"

section \<open>Rotations\<close>

record revocation_order =
  order_secret_id :: secret_id
  order_at :: instant

record rotation_commit =
  commit_install :: secret_record
  commit_revoke :: revocation_order

definition into_parts :: "rotation_commit \<Rightarrow> secret_record \<times> revocation_order" where
  "into_parts c = (commit_install c, commit_revoke c)"

definition plan_rotation :: "secret_record \<Rightarrow> secret_record \<Rightarrow> instant \<Rightarrow> (vault_error, rotation_commit) result" where
  "plan_rotation previous replacement time =
     (if rec_id previous = rec_id replacement then Err RotationTargetsItself
      else if is_revoked (rec_revocation previous) then Err RotationPreviousAlreadyRevoked
      else if credential_generation_get (rec_generation replacement)
                \<le> credential_generation_get (rec_generation previous)
      then Err RotationGenerationNotAdvanced
      else Ok \<lparr>commit_install = replacement,
               commit_revoke = \<lparr>order_secret_id = rec_id previous, order_at = time\<rparr>\<rparr>)"

section \<open>Migrations run as a chain\<close>

text \<open>The crates a migration calls, and the chain's stages and operations as one machine.\<close>

record vault_crates =
  crate_enc :: cipher
  crate_dec :: cipher
  crate_b64 :: "bytes \<Rightarrow> string"
  crate_unb64 :: "string \<Rightarrow> bytes option"
  crate_from_str :: "string \<Rightarrow> json option"

datatype migration_state =
    MPlan migration_plan
  | MRecovered recovered_secret
  | MPending pending_read_back
  | MVerified verified_migration
  | MRetired retirement_order

datatype migration_op =
    OpRecover wrapping_key
  | OpSeal wrapping_key data_key nonce nonce
  | OpVerify wrapping_key string
  | OpRetire

fun stage_of :: "migration_state \<Rightarrow> migration_stage" where
  "stage_of (MPlan _) = V1Located"
| "stage_of (MRecovered _) = PlaintextRecovered"
| "stage_of (MPending _) = V2Persisted"
| "stage_of (MVerified _) = ReadBackVerified"
| "stage_of (MRetired _) = LegacyRetired"

fun step_of :: "migration_op \<Rightarrow> migration_step" where
  "step_of (OpRecover _) = StepDecrypt"
| "step_of (OpSeal _ _ _ _) = StepPersistV2"
| "step_of (OpVerify _ _) = StepVerifyReadBack"
| "step_of OpRetire = StepRetireLegacy"

text \<open>
  One operation of the chain: each stage's type has one method, so another operation is not a call at all
  (\<open>None\<close>); a call answers an error or the next stage.
\<close>

fun migration_apply ::
  "vault_crates \<Rightarrow> migration_state \<Rightarrow> migration_op \<Rightarrow> (vault_error, migration_state) result option" where
  "migration_apply L (MPlan p) (OpRecover k) = Some (map_sum id MRecovered (recover (crate_dec L) p k))"
| "migration_apply L (MRecovered r) (OpSeal kek dek n n') =
     Some (map_sum id MPending (seal (crate_enc L) (crate_b64 L) r kek dek n n'))"
| "migration_apply L (MPending p) (OpVerify kek persisted) =
     Some (map_sum id MVerified (verify_read_back (crate_dec L) (crate_from_str L) (crate_unb64 L) p kek persisted))"
| "migration_apply L (MVerified v) OpRetire = Some (Ok (MRetired (retire_legacy v)))"
| "migration_apply L st op = None"

definition migration_step :: "vault_crates \<Rightarrow> migration_state \<Rightarrow> migration_op \<Rightarrow> migration_state option" where
  "migration_step L st op = (case migration_apply L st op of Some (Inr st') \<Rightarrow> Some st' | _ \<Rightarrow> None)"

section \<open>What a migration promises\<close>

text \<open>
  The custody of one secret, as the specification: the stage in the runtime table, the text that must
  survive while the chain holds it, and the column that was written. A legacy envelope may be retired only
  after a column was read back, under the record's binding, as that text.
\<close>

type_synonym custody = "migration_stage \<times> bytes option \<times> string option"

definition column_holds :: "vault_crates \<Rightarrow> wrapping_key \<Rightarrow> record_binding \<Rightarrow> string \<Rightarrow> bytes option" where
  "column_holds L kek b column =
     (case envelope_v2_parse (crate_from_str L) (crate_unb64 L) column of
        Inl _ \<Rightarrow> None
      | Inr e \<Rightarrow> (case open_v2 (crate_dec L) kek b e of Inl _ \<Rightarrow> None | Inr plaintext \<Rightarrow> Some plaintext))"

fun custody_step :: "vault_crates \<Rightarrow> record_binding \<Rightarrow> envelope_v1 \<Rightarrow> custody \<Rightarrow> migration_op \<Rightarrow> custody option" where
  "custody_step L b legacy (stage, secret, column) op =
     (case advance stage (step_of op) of
        Inl _ \<Rightarrow> None
      | Inr stage' \<Rightarrow>
          (case op of
             OpRecover k \<Rightarrow>
               (case decrypt_v1 (crate_dec L) k legacy of Inl _ \<Rightarrow> None | Inr text' \<Rightarrow> Some (stage', Some text', None))
           | OpSeal kek dek n n' \<Rightarrow>
               (case seal_v2 (crate_enc L) kek dek b n n' (the secret) of
                  Inl _ \<Rightarrow> None
                | Inr e \<Rightarrow> Some (stage', secret, Some (envelope_v2_to_column_value (crate_b64 L) e)))
           | OpVerify kek persisted \<Rightarrow>
               if column_holds L kek b persisted = secret then Some (stage', None, None) else None
           | OpRetire \<Rightarrow> Some (stage', None, None)))"

text \<open>What a stage of the chain stands for, and that it still speaks of the record it began with.\<close>

fun custody_of :: "migration_state \<Rightarrow> custody" where
  "custody_of (MPlan _) = (V1Located, None, None)"
| "custody_of (MRecovered r) = (PlaintextRecovered, Some (recovered_plaintext r), None)"
| "custody_of (MPending p) = (V2Persisted, Some (pending_plaintext p), Some (pending_column_value p))"
| "custody_of (MVerified _) = (ReadBackVerified, None, None)"
| "custody_of (MRetired _) = (LegacyRetired, None, None)"

fun migrates :: "record_binding \<Rightarrow> envelope_v1 \<Rightarrow> migration_state \<Rightarrow> bool" where
  "migrates b legacy (MPlan p) \<longleftrightarrow> plan_binding p = b \<and> plan_legacy p = legacy"
| "migrates b legacy (MRecovered r) \<longleftrightarrow> recovered_binding r = b"
| "migrates b legacy (MPending p) \<longleftrightarrow> pending_binding p = b"
| "migrates b legacy (MVerified v) \<longleftrightarrow> verified_secret_id v = bind_secret_id b \<and> verified_key_version v = bind_key_version b"
| "migrates b legacy (MRetired o') \<longleftrightarrow> retired_secret_id o' = bind_secret_id b \<and> retired_key_version o' = bind_key_version b"

primrec run_steps :: "('s \<Rightarrow> 'e \<Rightarrow> 's option) \<Rightarrow> 's \<Rightarrow> 'e list \<Rightarrow> 's option" where
  "run_steps step s [] = Some s"
| "run_steps step s (e # es) = (case step s e of None \<Rightarrow> None | Some t \<Rightarrow> run_steps step t es)"

text \<open>A program whose steps are, state by state, those of its specification.\<close>

locale refinement =
  fixes cstep :: "'s \<Rightarrow> 'e \<Rightarrow> 's option" and astep :: "'t \<Rightarrow> 'e \<Rightarrow> 't option"
    and view :: "'s \<Rightarrow> 't" and inv :: "'s \<Rightarrow> bool"
  assumes agrees: "inv s \<Longrightarrow> map_option view (cstep s e) = astep (view s) e"
    and keeps: "inv s \<Longrightarrow> cstep s e = Some s' \<Longrightarrow> inv s'"
begin

lemma runs_agree: "inv s \<Longrightarrow> map_option view (run_steps cstep s es) = run_steps astep (view s) es"
proof (induction es arbitrary: s)
  case (Cons e es)
  show ?case
  proof (cases "cstep s e")
    case (Some t)
    moreover from this have "astep (view s) e = Some (view t)" using agrees [OF Cons.prems, of e] by simp
    ultimately show ?thesis using Cons.IH [OF keeps [OF Cons.prems]] by simp
  qed (use agrees [OF Cons.prems, of e] in simp)
qed simp

lemma runs_keep: "inv s \<Longrightarrow> run_steps cstep s es = Some s' \<Longrightarrow> inv s'"
  by (induction es arbitrary: s) (auto split: option.splits dest: keeps)

end

lemma map_sum_ok: "map_sum f g r = Ok y \<longleftrightarrow> (\<exists>x. r = Ok x \<and> y = g x)"
  by (cases r) auto

lemma migration_step_view: "migrates b legacy st \<Longrightarrow> map_option custody_of (migration_step L st op) = custody_step L b legacy (custody_of st) op"
  by (cases st; cases op)
    (auto simp: migration_step_def recover_def seal_def verify_read_back_def column_holds_def retire_legacy_def
      split: sum.splits)

lemma migration_step_migrates: "migrates b legacy st \<Longrightarrow> migration_step L st op = Some st' \<Longrightarrow> migrates b legacy st'"
  by (cases st; cases op)
    (auto simp: migration_step_def recover_def seal_def verify_read_back_def retire_legacy_def split: sum.splits if_splits)

interpretation migration: refinement "migration_step L" "custody_step L b legacy" custody_of "migrates b legacy" for L b legacy
  by unfold_locales (rule migration_step_view, assumption, rule migration_step_migrates)

text \<open>C27: The typed chain of a migration refines the custody of its secret. Which operations run, and what
  they answer, is the same in both: a stage offers a method exactly where the runtime table has the step; a
  migration recovers exactly what its legacy envelope decrypts to, writes a column that seals this text under
  the record's binding, and passes the read-back exactly when the persisted column opens, under that binding,
  to this text; and every stage, down to the order to retire the legacy envelope, names the record and the key
  generation the migration began with.\<close>

theorem migration_chain_refines_table:
  "map_option custody_of (run_steps (migration_step L) (MPlan (migration_begin b legacy)) ops)
     = run_steps (custody_step L b legacy) (V1Located, None, None) ops
   \<and> (case run_steps (migration_step L) (MPlan (migration_begin b legacy)) ops of
        None \<Rightarrow> True
      | Some st \<Rightarrow> migrates b legacy st \<and> (migration_apply L st op = None \<longleftrightarrow> \<not> is_ok (advance (stage_of st) (step_of op))))"
proof -
  have start: "migrates b legacy (MPlan (migration_begin b legacy))"
    "custody_of (MPlan (migration_begin b legacy)) = (V1Located, None, None)"
    by (simp_all add: migration_begin_def)
  have "migration_apply L st op = None \<longleftrightarrow> \<not> is_ok (advance (stage_of st) (step_of op))" for st
    by (cases st; cases op) simp_all
  then show ?thesis
    using migration.runs_agree [OF start(1), of L ops] migration.runs_keep [OF start(1), of L ops] start(2)
    by (auto split: option.splits)
qed

text \<open>A migration that goes through, over the example cipher.\<close>

definition example_crates :: vault_crates where
  "example_crates = \<lparr>crate_enc = toy_enc, crate_dec = toy_dec, crate_b64 = letters_of_bytes,
     crate_unb64 = bytes_of_letters, crate_from_str = flat_from_str\<rparr>"

definition example_legacy :: envelope_v1 where
  "example_legacy = \<lparr>v1_iv = Nonce (replicate 12 3), v1_ciphertext = replicate 16 0 @ [42]\<rparr>"

definition example_ops :: "migration_op list" where
  "example_ops =
     [OpRecover (WrappingKey (replicate 32 9)),
      OpSeal (WrappingKey (replicate 32 9)) (DataKey (replicate 32 7)) (Nonce (replicate 12 1)) (Nonce (replicate 12 2)),
      OpVerify (WrappingKey (replicate 32 9)) (envelope_v2_to_column_value letters_of_bytes example_sealed),
      OpRetire]"

lemma example_migration:
  "run_steps (migration_step example_crates) (MPlan (migration_begin example_binding example_legacy)) example_ops
   = Some (MRetired \<lparr>retired_secret_id = SecretId ''s'', retired_key_version = KeyVersion 1\<rparr>)"
proof -
  let ?kek = "WrappingKey (replicate 32 9)"
  have recovered: "recover toy_dec (migration_begin example_binding example_legacy) ?kek
      = Ok \<lparr>recovered_binding = example_binding, recovered_plaintext = [42]\<rparr>"
    by (simp add: recover_def decrypt_v1_def aes_gcm_decrypt_def toy_dec_def migration_begin_def example_legacy_def tag_bytes_def)
  have "envelope_v2_ok example_sealed"
    by (simp add: envelope_v2_ok_def example_sealed_def nonce_ok_def nonce_bytes_def tag_bytes_def)
  then have parsed: "envelope_v2_parse flat_from_str bytes_of_letters
      (envelope_v2_to_column_value letters_of_bytes example_sealed) = Ok example_sealed"
    by (intro envelope_v2_parse_column flat_from_str_reads plain_letters bytes_of_letters_of_bytes)
  have opened: "open_v2 toy_dec ?kek example_binding example_sealed = Ok [42]"
    by (rule open_v2_sealed [OF example_seal _ toy_cipher]) (simp add: data_key_ok_def data_key_bytes_def)
  show ?thesis
    by (simp add: example_ops_def example_crates_def migration_step_def recovered seal_def example_seal
        verify_read_back_def parsed opened retire_legacy_def) (simp add: example_binding_def)
qed

section \<open>Chains of rotations\<close>

text \<open>
  A credential and the ones it replaced, newest first: a rotation installs its new record and carries
  out its revocation order, which are the two halves of the commit.
\<close>

definition revoke_record :: "revocation_order \<Rightarrow> secret_record \<Rightarrow> secret_record" where
  "revoke_record ord r =
     (if rec_id r = order_secret_id ord then r\<lparr>rec_revocation := RevRevoked (order_at ord)\<rparr> else r)"

fun rotate :: "secret_record list \<Rightarrow> secret_record \<times> instant \<Rightarrow> (vault_error, secret_record list) result" where
  "rotate [] _ = Ok []"
| "rotate (current # older) (replacement, time) =
     (case plan_rotation current replacement time of
        Inl e \<Rightarrow> Err e
      | Inr commit \<Rightarrow> Ok (commit_install commit # revoke_record (commit_revoke commit) current # older))"

definition chain_ok :: "secret_record list \<Rightarrow> bool" where
  "chain_ok rs \<longleftrightarrow> sorted_wrt (\<lambda>r q. credential_value (rec_generation q) < credential_value (rec_generation r)) rs
     \<and> (\<forall>r\<in>set (tl rs). is_revoked (rec_revocation r))"

lemma plan_rotation_ok:
  "plan_rotation previous replacement time = Ok c \<longleftrightarrow>
   rec_id previous \<noteq> rec_id replacement \<and> \<not> is_revoked (rec_revocation previous)
   \<and> credential_value (rec_generation previous) < credential_value (rec_generation replacement)
   \<and> c = \<lparr>commit_install = replacement, commit_revoke = \<lparr>order_secret_id = rec_id previous, order_at = time\<rparr>\<rparr>"
  by (auto simp: plan_rotation_def credential_value_def word_less_def word_le_def)

lemma rotate_chain_ok: "chain_ok rs \<Longrightarrow> rotate rs op = Ok rs' \<Longrightarrow> chain_ok rs'"
  by (cases rs; cases op)
    (fastforce simp: chain_ok_def plan_rotation_ok revoke_record_def split: sum.splits)+

interpretation rotation: guarded_machine rotate chain_ok
  by unfold_locales (rule rotate_chain_ok)

primrec run_rotations :: "secret_record list \<Rightarrow> (secret_record \<times> instant) list \<Rightarrow> secret_record list" where
  "run_rotations rs [] = rs"
| "run_rotations rs (op # ops) = run_rotations (case rotate rs op of Inl _ \<Rightarrow> rs | Inr rs' \<Rightarrow> rs') ops"

lemma run_rotations_eq: "run_rotations rs ops = rotation.run_events rs ops"
proof (induction ops arbitrary: rs)
  case (Cons op ops)
  then show ?case by (cases "rotate rs op") simp_all
qed simp

text \<open>However often a credential is rotated, and whatever rotations are refused on the way, only the
  newest record can be used: every record it replaced is revoked for good, and its generation is
  strictly below that of every later one, so nothing that asks for the current generation is served
  by an older record.\<close>

theorem only_newest_credential_usable:
  assumes "run_rotations [first] ops = newest # older"
  shows "list_all (\<lambda>r. usability r now required = SecretRevoked \<and> is_behind (rec_generation r) (rec_generation newest)) older
    \<and> sorted_wrt (\<lambda>r q. is_behind (rec_generation q) (rec_generation r)) (newest # older)"
proof -
  have "chain_ok [first]" by (simp add: chain_ok_def)
  then have "chain_ok (newest # older)"
    unfolding assms [symmetric] run_rotations_eq by (rule rotation.run_events_inv)
  then show ?thesis
    by (auto simp: chain_ok_def list_all_iff usability_def is_behind_def credential_value_def word_less_def)
qed

definition example_record :: "string \<Rightarrow> u64 \<Rightarrow> secret_record" where
  "example_record i g = \<lparr>rec_id = SecretId i, rec_kind = SkModel, rec_class = ScModelKey,
     rec_resource = SecretResource ''r'', rec_scope = SecretScope {}, rec_owner = PrDeployment,
     rec_consumer = PrDeployment, rec_generation = CredentialGeneration g, rec_expires_at = None,
     rec_revocation = RevActive\<rparr>"

theorem only_newest_credential_usable_witness:
  "let rs = run_rotations [example_record ''a'' 1] [(example_record ''b'' 2, 10), (example_record ''b'' 3, 20), (example_record ''c'' 5, 30)]
   in map rec_id rs = [SecretId ''c'', SecretId ''b'', SecretId ''a'']
      \<and> list_all (\<lambda>r. usability r 40 (CredentialGeneration 0) = SecretRevoked) (tl rs)"
proof -
  let ?ops = "[(example_record ''b'' 2, 10), (example_record ''b'' 3, 20), (example_record ''c'' 5, 30)]"
  have rs: "run_rotations [example_record ''a'' 1] ?ops
      = example_record ''c'' 5
        # [(example_record ''b'' 2)\<lparr>rec_revocation := RevRevoked 30\<rparr>, (example_record ''a'' 1)\<lparr>rec_revocation := RevRevoked 10\<rparr>]"
    by (simp add: example_record_def plan_rotation_def revoke_record_def word_le_def)
  from only_newest_credential_usable [OF rs, of 40 "CredentialGeneration 0"] show ?thesis
    unfolding Let_def rs by (simp add: example_record_def)
qed

section \<open>Granted scopes\<close>

lemma split_join:
  "ws \<noteq> [] \<Longrightarrow> \<forall>w\<in>set ws. sep \<notin> set w \<Longrightarrow> split_char sep (join_with [sep] ws) = ws"
  by (induction "[sep]" ws rule: join_with.induct) (auto simp: split_char_word split_char_append)

text \<open>A scope written back in its canonical form is read as the same scope, if no token holds a space.\<close>

lemma scope_canonical_roundtrip:
  assumes "finite (scope_tokens s)" "\<forall>w\<in>scope_tokens s. w \<noteq> [] \<and> CHR '' '' \<notin> set w"
  shows "scope_granted (scope_to_canonical_string s) = s"
proof (cases "scope_tokens s = {}")
  case True
  then show ?thesis by (cases s) (simp add: scope_granted_def scope_to_canonical_string_def)
next
  case False
  let ?ws = "sorted_list_of_set (scope_tokens s)"
  have "?ws \<noteq> []" "set ?ws = scope_tokens s" using False assms(1) by simp_all
  then have "split_char (CHR '' '') (scope_to_canonical_string s) = ?ws"
    unfolding scope_to_canonical_string_def using assms(2) by (intro split_join) simp_all
  moreover have "filter (\<lambda>w. w \<noteq> []) ?ws = ?ws" using assms by (simp add: filter_id_conv)
  ultimately show ?thesis using assms(1) by (cases s) (simp add: scope_granted_def)
qed

text \<open>What is granted is what may be asked for.\<close>

lemma scope_covers_refl: "scope_covers s s"
  and scope_covers_trans: "scope_covers s t \<Longrightarrow> scope_covers t u \<Longrightarrow> scope_covers s u"
  and scope_covers_none: "scope_covers (SecretScope {}) s \<longleftrightarrow> scope_tokens s = {}"
  by (auto simp: scope_covers_def)

end
