(* ===== verification/VaultCanary.thy ===== *)
theory VaultCanary
  imports VaultAead
begin

text \<open>
  Keys derived from the master key and the canary sealed under one of them,
  \<open>crates/openbot-domain/src/vault/derivation.rs\<close> and \<open>canary.rs\<close>. HMAC-SHA256 (\<open>mac\<close>) and the strict
  deserializer of the wire envelope (\<open>from_wire\<close>) are parameters. The lemmas show that the canary's
  associated data names exactly one identity, that hexadecimal text is read back, and that the canary
  opens under the identity and master key it was sealed with and under no other identity.
\<close>

section \<open>Derived keys\<close>

datatype application_key_purpose = AuditCheckpointKey | McpOauthState | DesktopVaultCanary | BackupRecoveryWrap

fun purpose_label :: "application_key_purpose \<Rightarrow> string" where
  "purpose_label AuditCheckpointKey = ''openbot:audit-checkpoint:v1''"
| "purpose_label McpOauthState = ''openbot:mcp-oauth-state:v1''"
| "purpose_label DesktopVaultCanary = ''openbot:desktop-vault-canary:v1''"
| "purpose_label BackupRecoveryWrap = ''openbot:backup-recovery-wrap:v1''"

definition derive_application_key ::
  "(bytes \<Rightarrow> bytes \<Rightarrow> bytes) \<Rightarrow> bytes \<Rightarrow> application_key_purpose \<Rightarrow> (vault_error, bytes) result" where
  "derive_application_key mac master purpose =
     (if master = [] \<or> (purpose = DesktopVaultCanary \<or> purpose = BackupRecoveryWrap) \<and> length master \<noteq> 32
      then Err KeyLength
      else Ok (mac master (str_bytes (purpose_label purpose))))"

lemma purpose_label_inject: "purpose_label p = purpose_label q \<longleftrightarrow> p = q"
  by (cases p; cases q) simp_all

section \<open>The canary's identity\<close>

record canary_binding =
  canary_dataset_id :: string
  canary_deployment_id :: string
  canary_tenant_id :: string
  canary_key_id :: string
  canary_key_version :: key_version

definition lower_hex :: "char \<Rightarrow> bool" where
  "lower_hex c \<longleftrightarrow> is_ascii_digit c \<or> 97 \<le> (of_char c :: nat) \<and> (of_char c :: nat) \<le> 102"

definition valid_hex_id :: "string \<Rightarrow> bool" where
  "valid_hex_id v \<longleftrightarrow> length v = 32 \<and> list_all lower_hex v"

definition valid_identity :: "string \<Rightarrow> bool" where
  "valid_identity v \<longleftrightarrow> 1 \<le> length v \<and> length v \<le> 256 \<and> \<not> list_ex (\<lambda>c. c = 0 \<or> is_control c) (chars v)"

definition canary_binding_new ::
  "string \<Rightarrow> string \<Rightarrow> string \<Rightarrow> string \<Rightarrow> key_version \<Rightarrow> (vault_error, canary_binding) result" where
  "canary_binding_new dataset deployment tenant key_id version =
     (if \<not> valid_hex_id dataset \<or> \<not> valid_identity deployment \<or> \<not> valid_identity tenant \<or> \<not> valid_hex_id key_id
         \<or> key_version_get version \<noteq> 1
      then Err EnvelopeInvalid
      else Ok \<lparr>canary_dataset_id = dataset, canary_deployment_id = deployment, canary_tenant_id = tenant,
               canary_key_id = key_id, canary_key_version = version\<rparr>)"

definition canary_aad_prefix :: bytes where
  "canary_aad_prefix = str_bytes ''openbot.desktop.vault.canary.v1'' @ [0]"

definition canary_marker :: bytes where
  "canary_marker = str_bytes ''openbot.desktop.vault.canary.ok.v1''"

definition canary_field :: "bytes \<Rightarrow> string \<Rightarrow> bytes" where
  "canary_field aad v = (aad @ be_bytes 4 (of_nat (length v) :: u32)) @ str_bytes v"

definition canary_aad :: "canary_binding \<Rightarrow> bytes" where
  "canary_aad b =
     foldl canary_field canary_aad_prefix
       [canary_dataset_id b, canary_deployment_id b, canary_tenant_id b, canary_key_id b]
     @ be_bytes 4 (key_version_get (canary_key_version b))"

section \<open>The envelope\<close>

record wire_envelope =
  wire_schema :: string
  wire_schema_version :: u64
  wire_nonce :: string
  wire_ciphertext :: string

record canary_envelope =
  canary_nonce :: nonce
  canary_ciphertext :: bytes

definition envelope_schema :: string where "envelope_schema = ''openbot-desktop-vault-canary''"
definition envelope_schema_version :: u64 where "envelope_schema_version = 1"
definition envelope_max_bytes :: nat where "envelope_max_bytes = 4096"

definition hex_digit :: "u8 \<Rightarrow> char" where
  "hex_digit n = ''0123456789abcdef'' ! unat n"

definition encode_hex :: "bytes \<Rightarrow> string" where
  "encode_hex bs = concat (map (\<lambda>b. [hex_digit (drop_bit 4 b), hex_digit (b AND 15)]) bs)"

definition nibble :: "char \<Rightarrow> (vault_error, u8) result" where
  "nibble c =
     (let n = (of_char c :: nat) in
      if 48 \<le> n \<and> n \<le> 57 then Ok (of_nat (n - 48))
      else if 97 \<le> n \<and> n \<le> 102 then Ok (of_nat (n - 97 + 10))
      else Err EnvelopeInvalid)"

fun decode_pairs :: "string \<Rightarrow> (vault_error, bytes) result" where
  "decode_pairs (a # b # rest) =
     (case nibble a of Inl e \<Rightarrow> Err e | Inr hi \<Rightarrow>
      case nibble b of Inl e \<Rightarrow> Err e | Inr lo \<Rightarrow>
      case decode_pairs rest of Inl e \<Rightarrow> Err e | Inr bs \<Rightarrow> Ok ((push_bit 4 hi OR lo) # bs))"
| "decode_pairs _ = Ok []"

definition decode_hex :: "string \<Rightarrow> (vault_error, bytes) result" where
  "decode_hex v =
     (if length v mod 2 \<noteq> 0 \<or> \<not> list_all lower_hex v then Err EnvelopeInvalid else decode_pairs v)"

definition canary_envelope_parse ::
  "(string \<Rightarrow> wire_envelope option) \<Rightarrow> string \<Rightarrow> (vault_error, canary_envelope) result" where
  "canary_envelope_parse from_wire v =
     (if length v > envelope_max_bytes then Err EnvelopeInvalid
      else case from_wire v of None \<Rightarrow> Err EnvelopeInvalid | Some wire \<Rightarrow>
      if wire_schema wire \<noteq> envelope_schema \<or> wire_schema_version wire \<noteq> envelope_schema_version
      then Err EnvelopeInvalid
      else case decode_hex (wire_nonce wire) of Inl e \<Rightarrow> Err e | Inr n \<Rightarrow>
      case decode_hex (wire_ciphertext wire) of Inl e \<Rightarrow> Err e | Inr c \<Rightarrow>
      if length n \<noteq> nonce_bytes \<or> length c \<noteq> length canary_marker + tag_bytes then Err EnvelopeInvalid
      else case nonce_from_slice n of Inl e \<Rightarrow> Err e | Inr nonce \<Rightarrow>
      Ok \<lparr>canary_nonce = nonce, canary_ciphertext = c\<rparr>)"

definition canary_to_column_value :: "canary_envelope \<Rightarrow> string" where
  "canary_to_column_value e =
     ''{'' @ quoted ''schema'' @ '':'' @ quoted envelope_schema @ '',''
     @ quoted ''schemaVersion'' @ '':'' @ show_nat (unat envelope_schema_version) @ '',''
     @ quoted ''nonce'' @ '':'' @ quoted (encode_hex (nonce_get (canary_nonce e))) @ '',''
     @ quoted ''ciphertext'' @ '':'' @ quoted (encode_hex (canary_ciphertext e)) @ ''}''"

definition seal_canary ::
  "(bytes \<Rightarrow> bytes \<Rightarrow> bytes) \<Rightarrow> cipher \<Rightarrow> bytes \<Rightarrow> canary_binding \<Rightarrow> nonce \<Rightarrow> (vault_error, canary_envelope) result" where
  "seal_canary mac enc master b n =
     (case derive_application_key mac master DesktopVaultCanary of Inl e \<Rightarrow> Err e | Inr key \<Rightarrow>
      case aes_gcm_encrypt enc key n (canary_aad b) canary_marker of Inl e \<Rightarrow> Err e | Inr c \<Rightarrow>
      Ok \<lparr>canary_nonce = n, canary_ciphertext = c\<rparr>)"

definition open_canary ::
  "(bytes \<Rightarrow> bytes \<Rightarrow> bytes) \<Rightarrow> cipher \<Rightarrow> bytes \<Rightarrow> canary_binding \<Rightarrow> canary_envelope \<Rightarrow> (vault_error, unit) result" where
  "open_canary mac dec master b e =
     (case derive_application_key mac master DesktopVaultCanary of Inl err \<Rightarrow> Err err | Inr key \<Rightarrow>
      case aes_gcm_decrypt dec key (canary_nonce e) (canary_aad b) (canary_ciphertext e) of Inl err \<Rightarrow> Err err | Inr plaintext \<Rightarrow>
      if plaintext \<noteq> canary_marker then Err DecryptFailed else Ok ())"

section \<open>What the canary shows\<close>

lemma canary_binding_new_ok:
  "canary_binding_new d p t k v = Ok b \<Longrightarrow>
   length (canary_dataset_id b) = 32 \<and> length (canary_key_id b) = 32 \<and> length (canary_deployment_id b) \<le> 256
   \<and> length (canary_tenant_id b) \<le> 256 \<and> canary_key_version b = KeyVersion 1"
  by (auto simp: canary_binding_new_def valid_hex_id_def valid_identity_def key_version.expand split: if_splits)

lemma canary_field_cancel:
  assumes "length v < 2 ^ 32" "length w < 2 ^ 32"
    and "be_bytes 4 (of_nat (length v) :: u32) @ str_bytes v @ r = be_bytes 4 (of_nat (length w) :: u32) @ str_bytes w @ s"
  shows "v = w \<and> r = s"
proof -
  have "be_bytes 4 (of_nat (length v) :: u32) = be_bytes 4 (of_nat (length w) :: u32)"
    and rest: "str_bytes v @ r = str_bytes w @ s"
    using assms(3) by (simp_all add: append_eq_append_conv)
  then have "(of_nat (length v) :: u32) = of_nat (length w)" by (simp add: be_bytes_inject)
  then have "length v = length w"
    using assms(1,2) by (simp add: word_of_nat_eq_iff take_bit_nat_eq_self)
  with rest show ?thesis by (simp add: append_eq_append_conv)
qed

definition canary_ok :: "canary_binding \<Rightarrow> bool" where
  "canary_ok b \<longleftrightarrow> (\<exists>d p t k v. canary_binding_new d p t k v = Ok b)"

lemma canary_aad_inject:
  assumes "canary_ok a" "canary_ok b" "canary_aad a = canary_aad b"
  shows "a = b"
proof -
  have short: "length (canary_dataset_id x) < 2 ^ 32" "length (canary_deployment_id x) < 2 ^ 32"
      "length (canary_tenant_id x) < 2 ^ 32" "length (canary_key_id x) < 2 ^ 32" "canary_key_version x = KeyVersion 1"
    if "canary_ok x" for x
    using that by (auto simp: canary_ok_def dest: canary_binding_new_ok)
  from assms(3) have eq:
    "be_bytes 4 (of_nat (length (canary_dataset_id a)) :: u32) @ str_bytes (canary_dataset_id a)
       @ be_bytes 4 (of_nat (length (canary_deployment_id a)) :: u32) @ str_bytes (canary_deployment_id a)
       @ be_bytes 4 (of_nat (length (canary_tenant_id a)) :: u32) @ str_bytes (canary_tenant_id a)
       @ be_bytes 4 (of_nat (length (canary_key_id a)) :: u32) @ str_bytes (canary_key_id a)
       @ be_bytes 4 (key_version_get (canary_key_version a))
     = be_bytes 4 (of_nat (length (canary_dataset_id b)) :: u32) @ str_bytes (canary_dataset_id b)
       @ be_bytes 4 (of_nat (length (canary_deployment_id b)) :: u32) @ str_bytes (canary_deployment_id b)
       @ be_bytes 4 (of_nat (length (canary_tenant_id b)) :: u32) @ str_bytes (canary_tenant_id b)
       @ be_bytes 4 (of_nat (length (canary_key_id b)) :: u32) @ str_bytes (canary_key_id b)
       @ be_bytes 4 (key_version_get (canary_key_version b))"
    by (simp add: canary_aad_def canary_field_def)
  note one = canary_field_cancel [OF short(1) [OF assms(1)] short(1) [OF assms(2)] eq]
  note two = canary_field_cancel [OF short(2) [OF assms(1)] short(2) [OF assms(2)] one [THEN conjunct2]]
  note three = canary_field_cancel [OF short(3) [OF assms(1)] short(3) [OF assms(2)] two [THEN conjunct2]]
  note four = canary_field_cancel [OF short(4) [OF assms(1)] short(4) [OF assms(2)] three [THEN conjunct2]]
  show ?thesis
    using one two three four short(5) [OF assms(1)] short(5) [OF assms(2)]
    by (intro canary_binding.equality) simp_all
qed

lemma canary_opens_only_where_sealed:
  assumes "seal_canary mac enc master b n = Ok e" "canary_ok b" "canary_ok b'"
    and "\<And>k n a m c. enc k n a m = Some c \<Longrightarrow> dec k n a c = Some m \<and> tag_bytes \<le> length c"
    and "canary_aad b' \<noteq> canary_aad b \<Longrightarrow>
      dec (mac master (str_bytes (purpose_label DesktopVaultCanary))) (nonce_get n) (canary_aad b') (canary_ciphertext e) = None"
  shows "open_canary mac dec master b' e = (if b' = b then Ok () else Err DecryptFailed)"
proof -
  let ?key = "mac master (str_bytes (purpose_label DesktopVaultCanary))"
  have sealed: "derive_application_key mac master DesktopVaultCanary = Ok ?key" "length ?key \<in> {16, 24, 32}"
      "enc ?key (nonce_get n) (canary_aad b) canary_marker = Some (canary_ciphertext e)" "canary_nonce e = n"
    using assms(1)
    by (auto simp: seal_canary_def aes_gcm_encrypt_def derive_application_key_def split: if_splits option.splits)
  note c = assms(4) [OF sealed(3)]
  show ?thesis
  proof (cases "b' = b")
    case True
    with sealed c show ?thesis by (auto simp: open_canary_def aes_gcm_decrypt_def)
  next
    case False
    then have "canary_aad b' \<noteq> canary_aad b" using canary_aad_inject assms(2,3) by blast
    from assms(5) [OF this] False sealed c show ?thesis
      by (auto simp: open_canary_def aes_gcm_decrypt_def)
  qed
qed

lemma nibble_hex_digit:
  assumes "n < 16"
  shows "nibble (hex_digits ! n) = Ok (of_nat n) \<and> lower_hex (hex_digits ! n)"
proof -
  have "n \<in> set [0..<16]" using assms by simp
  then show ?thesis
    by (simp add: upt_rec) (elim disjE; simp add: hex_digits_def nibble_def lower_hex_def is_ascii_digit_def)
qed

lemma encode_hex_Cons:
  "encode_hex (b # bs) = hex_digits ! unat (drop_bit 4 b) # hex_digits ! unat (b AND 15) # encode_hex bs"
  by (simp add: encode_hex_def hex_digit_def hex_digits_def)

lemma decode_pairs_encode_hex: "decode_pairs (encode_hex bs) = Ok bs"
proof (induction bs)
  case Nil
  then show ?case by (simp add: encode_hex_def)
next
  case (Cons b bs)
  then show ?case by (simp add: encode_hex_Cons nibble_hex_digit nibble_bounds nibbles_join)
qed

lemma decode_hex_encode_hex: "decode_hex (encode_hex bs) = Ok bs"
proof -
  have "length (encode_hex bs) mod 2 = 0 \<and> list_all lower_hex (encode_hex bs)"
  proof (induction bs)
    case Nil
    then show ?case by (simp add: encode_hex_def)
  next
    case (Cons b bs)
    then show ?case by (simp add: encode_hex_Cons nibble_hex_digit nibble_bounds)
  qed
  then show ?thesis by (simp add: decode_hex_def decode_pairs_encode_hex)
qed

text \<open>A sealed canary survives its column, given that the deserializer reads the fields that were written.\<close>

lemma canary_envelope_roundtrip:
  assumes "from_wire (canary_to_column_value e) = Some \<lparr>wire_schema = envelope_schema,
      wire_schema_version = envelope_schema_version, wire_nonce = encode_hex (nonce_get (canary_nonce e)),
      wire_ciphertext = encode_hex (canary_ciphertext e)\<rparr>"
    and "nonce_ok (canary_nonce e)" "length (canary_ciphertext e) = length canary_marker + tag_bytes"
    and "length (canary_to_column_value e) \<le> envelope_max_bytes"
  shows "canary_envelope_parse from_wire (canary_to_column_value e) = Ok e"
  using assms by (simp add: canary_envelope_parse_def decode_hex_encode_hex nonce_from_slice_def nonce_ok_def)

end
