(* ===== verification/IdentityGroups.thy ===== *)
theory IdentityGroups
  imports Revocation VaultAead
begin

text \<open>
  Groups of the identity provider and channel membership,
  \<open>crates/openbot-domain/src/identity/groups.rs\<close>: group names and claims, channel audiences and their
  validation, and the projection of a principal onto the channels it is provisioned to. A \<open>BTreeSet\<close>
  is a set; the Unicode lower-casing of the standard library is the parameter \<open>lower\<close>. The last
  section synchronises a stored membership with a sequence of sign-ins.
\<close>

section \<open>Group names and claim mappings\<close>

definition reserved_audience_all :: string where
  "reserved_audience_all = ''all''"

datatype group_normalization = Exact | TrimLowercase

datatype group_name = GroupName (group_name_str: string)

definition group_fold :: "(string \<Rightarrow> string) \<Rightarrow> string \<Rightarrow> group_normalization \<Rightarrow> group_name option" where
  "group_fold lower raw rule =
     (let folded = (case rule of Exact \<Rightarrow> raw | TrimLowercase \<Rightarrow> lower (trim raw)) in
      if folded = [] then None else Some (GroupName folded))"

datatype identity_provider_id = IdentityProviderId (provider_str: string)

datatype group_claim_path = GroupClaimPath (path_segments: "string list")

datatype group_claim_path_invalid = GroupClaimPathInvalid

definition path_from_segments :: "string list \<Rightarrow> (group_claim_path_invalid, group_claim_path) result" where
  "path_from_segments segments =
     (if segments = [] \<or> list_ex (\<lambda>s. s = []) segments then Err GroupClaimPathInvalid
      else Ok (GroupClaimPath segments))"

definition path_from_dotted :: "string \<Rightarrow> (group_claim_path_invalid, group_claim_path) result" where
  "path_from_dotted path = path_from_segments (split_char (CHR ''.'') path)"

record idp_group_mapping =
  mapping_provider :: identity_provider_id
  mapping_path :: group_claim_path
  mapping_normalization :: group_normalization

datatype group_claim_shape_rejected = GroupClaimShapeRejected

record group_claims =
  claimed_groups :: "group_name set"
  claim_present :: bool

fun walk_path :: "json \<Rightarrow> string list \<Rightarrow> (group_claim_shape_rejected, json option) result" where
  "walk_path cursor [] = Ok (Some cursor)"
| "walk_path cursor (segment # segments) =
     (case as_object cursor of
        None \<Rightarrow> Err GroupClaimShapeRejected
      | Some m \<Rightarrow> (case map_of m segment of None \<Rightarrow> Ok None | Some next \<Rightarrow> walk_path next segments))"

fun fold_items ::
  "(string \<Rightarrow> string) \<Rightarrow> group_normalization \<Rightarrow> json list \<Rightarrow> group_name set
     \<Rightarrow> (group_claim_shape_rejected, group_name set) result" where
  "fold_items lower rule [] groups = Ok groups"
| "fold_items lower rule (item # items) groups =
     (case json_str item of
        None \<Rightarrow> Err GroupClaimShapeRejected
      | Some s \<Rightarrow>
          fold_items lower rule items
            (case group_fold lower s rule of None \<Rightarrow> groups | Some n \<Rightarrow> insert n groups))"

definition resolve_group_claims ::
  "(string \<Rightarrow> string) \<Rightarrow> json \<Rightarrow> idp_group_mapping \<Rightarrow> (group_claim_shape_rejected, group_claims) result" where
  "resolve_group_claims lower claims mapping =
     (case walk_path claims (path_segments (mapping_path mapping)) of
        Inl e \<Rightarrow> Err e
      | Inr None \<Rightarrow> Ok \<lparr>claimed_groups = {}, claim_present = False\<rparr>
      | Inr (Some cursor) \<Rightarrow>
          (case (case cursor of
                   JArray items \<Rightarrow> fold_items lower (mapping_normalization mapping) items {}
                 | JString s \<Rightarrow> fold_items lower (mapping_normalization mapping) [JString s] {}
                 | _ \<Rightarrow> Err GroupClaimShapeRejected) of
             Inl e \<Rightarrow> Err e
           | Inr groups \<Rightarrow> Ok \<lparr>claimed_groups = groups, claim_present = True\<rparr>))"

section \<open>Channel audiences\<close>

datatype audience_error = NoAudience | BlankGroupName

record channel_audience =
  everyone :: bool
  named :: "string set"

fun audience_loop :: "string list \<Rightarrow> channel_audience \<Rightarrow> (audience_error, channel_audience) result" where
  "audience_loop [] a = Ok a"
| "audience_loop (raw # entries) a =
     (if raw = reserved_audience_all then audience_loop entries (a\<lparr>everyone := True\<rparr>)
      else if trim raw = [] then Err BlankGroupName
      else audience_loop entries (a\<lparr>named := insert raw (named a)\<rparr>))"

definition audience_parse :: "string list \<Rightarrow> (audience_error, channel_audience) result" where
  "audience_parse entries =
     (case audience_loop entries \<lparr>everyone = False, named = {}\<rparr> of
        Inl e \<Rightarrow> Err e
      | Inr a \<Rightarrow> if entries = [] then Err NoAudience else Ok a)"

datatype deployment_mode = SingleUser | MultiUser

datatype audience_note = GroupsDecide | SingleUserGroupsIgnored

record audience_report =
  report_note :: audience_note
  providers_without_mapping :: "identity_provider_id list"

datatype audience_validation_error =
    NamedGroupsWithoutIdentityProvider
  | NamedGroupsWithoutGroupMapping "identity_provider_id list"

text \<open>\<open>sort_unstable\<close> and \<open>dedup\<close> of the provider ids, in the order of their text.\<close>

definition sorted_providers :: "identity_provider_id list \<Rightarrow> identity_provider_id list" where
  "sorted_providers ps = map IdentityProviderId (remdups_adj (sort (map provider_str ps)))"

definition validate_audience ::
  "channel_audience \<Rightarrow> deployment_mode \<Rightarrow> identity_provider_id list \<Rightarrow> idp_group_mapping list
     \<Rightarrow> (audience_validation_error, audience_report) result" where
  "validate_audience audience mode providers mappings =
     (if mode = SingleUser then Ok \<lparr>report_note = SingleUserGroupsIgnored, providers_without_mapping = []\<rparr>
      else (let mapped = set (map mapping_provider mappings);
                without = sorted_providers (filter (\<lambda>p. p \<notin> mapped) providers) in
            if named audience \<noteq> {} \<and> mappings = [] then
              (if providers = [] then Err NamedGroupsWithoutIdentityProvider
               else Err (NamedGroupsWithoutGroupMapping without))
            else Ok \<lparr>report_note = GroupsDecide, providers_without_mapping = without\<rparr>))"

section \<open>Membership\<close>

record effective_principal =
  principal_actor :: string
  principal_email :: normalized_email
  principal_groups :: "group_name set"
  principal_normalization :: group_normalization
  principal_mode :: deployment_mode

definition principal_from_cleared ::
  "access_cleared \<Rightarrow> string \<Rightarrow> deployment_mode \<Rightarrow> group_name set \<Rightarrow> group_normalization \<Rightarrow> effective_principal" where
  "principal_from_cleared cleared actor mode groups rule =
     \<lparr>principal_actor = actor, principal_email = cleared_email cleared, principal_groups = groups,
      principal_normalization = rule, principal_mode = mode\<rparr>"

record channel_audience_binding =
  bound_channel :: string
  bound_audience :: channel_audience

datatype membership_plan = MembershipPlan (plan_channels: "string set")

record membership_delta =
  delta_granted :: "string set"
  delta_revoked :: "string set"

definition plan_diff :: "membership_plan \<Rightarrow> membership_plan \<Rightarrow> membership_delta" where
  "plan_diff new previous =
     \<lparr>delta_granted = plan_channels new - plan_channels previous,
      delta_revoked = plan_channels previous - plan_channels new\<rparr>"

definition binding_included :: "(string \<Rightarrow> string) \<Rightarrow> effective_principal \<Rightarrow> channel_audience_binding \<Rightarrow> bool" where
  "binding_included lower p b =
     (case principal_mode p of
        SingleUser \<Rightarrow> True
      | MultiUser \<Rightarrow>
          everyone (bound_audience b)
          \<or> (\<exists>raw\<in>named (bound_audience b).
               case group_fold lower raw (principal_normalization p) of
                 None \<Rightarrow> False
               | Some n \<Rightarrow> n \<in> principal_groups p))"

fun select_channels ::
  "(string \<Rightarrow> string) \<Rightarrow> effective_principal \<Rightarrow> channel_audience_binding list \<Rightarrow> string set \<Rightarrow> string set" where
  "select_channels lower p [] selected = selected"
| "select_channels lower p (b # bs) selected =
     select_channels lower p bs (if binding_included lower p b then insert (bound_channel b) selected else selected)"

definition project_membership ::
  "(string \<Rightarrow> string) \<Rightarrow> effective_principal \<Rightarrow> channel_audience_binding list \<Rightarrow> membership_plan" where
  "project_membership lower p channels = MembershipPlan (select_channels lower p channels {})"

record membership_settlement =
  settled_granted :: "string set"
  settled_revoked :: "string set"
  settled_generation :: auth_generation

definition settle :: "membership_delta \<Rightarrow> auth_generation \<Rightarrow> membership_settlement" where
  "settle d current =
     \<lparr>settled_granted = delta_granted d, settled_revoked = delta_revoked d,
      settled_generation = (if delta_revoked d = {} then current else generation_next current)\<rparr>"

section \<open>Claims and audiences, exactly\<close>

lemma fold_items_ok:
  "fold_items lower rule items groups = Ok gs \<longleftrightarrow>
   list_all (\<lambda>item. json_str item \<noteq> None) items
   \<and> gs = groups \<union> {n. \<exists>s. JString s \<in> set items \<and> group_fold lower s rule = Some n}"
proof (induction items arbitrary: groups)
  case (Cons item items)
  show ?case
  proof (cases item)
    case (JString s)
    then show ?thesis by (auto simp: Cons.IH split: option.splits)
  qed simp_all
qed auto

lemma audience_loop_ok:
  "audience_loop entries a = Ok b \<longleftrightarrow>
   list_all (\<lambda>raw. raw = reserved_audience_all \<or> trim raw \<noteq> []) entries
   \<and> b = a\<lparr>everyone := everyone a \<or> reserved_audience_all \<in> set entries,
           named := named a \<union> (set entries - {reserved_audience_all})\<rparr>"
proof (induction entries arbitrary: a)
  case (Cons raw entries)
  have "insert raw (named a \<union> (set entries - {reserved_audience_all}))
      = named a \<union> (insert raw (set entries) - {reserved_audience_all})" if "raw \<noteq> reserved_audience_all"
    using that by blast
  then show ?case by (simp add: Cons.IH)
qed auto

text \<open>An audience lists everyone exactly by the reserved word, and the other entries are its groups.\<close>

lemma audience_parse_ok:
  "audience_parse entries = Ok b \<longleftrightarrow>
   entries \<noteq> [] \<and> list_all (\<lambda>raw. raw = reserved_audience_all \<or> trim raw \<noteq> []) entries
   \<and> b = \<lparr>everyone = reserved_audience_all \<in> set entries, named = set entries - {reserved_audience_all}\<rparr>"
proof -
  have "audience_parse entries = Ok b \<longleftrightarrow> entries \<noteq> [] \<and> audience_loop entries \<lparr>everyone = False, named = {}\<rparr> = Ok b"
    by (auto simp: audience_parse_def split: sum.splits)
  then show ?thesis by (simp add: audience_loop_ok)
qed

text \<open>A package with named groups is refused in a shared deployment unless some provider maps groups.\<close>

lemma validate_audience_ok:
  "(\<exists>r. validate_audience audience mode providers mappings = Ok r)
   \<longleftrightarrow> mode = SingleUser \<or> named audience = {} \<or> mappings \<noteq> []"
  by (auto simp: validate_audience_def Let_def)

lemma select_channels_eq:
  "select_channels lower p bs selected = selected \<union> bound_channel ` {b \<in> set bs. binding_included lower p b}"
  by (induction bs arbitrary: selected) auto

section \<open>Membership over time\<close>

text \<open>
  The stored rows of one person and their generation; a sign-in projects the groups it brought,
  settles the difference and writes the settlement.
\<close>

definition membership_sync ::
  "(string \<Rightarrow> string) \<Rightarrow> channel_audience_binding list \<Rightarrow> string set \<times> auth_generation \<Rightarrow> effective_principal
     \<Rightarrow> string set \<times> auth_generation" where
  "membership_sync lower channels state p =
     (let plan = project_membership lower p channels;
          settlement = settle (plan_diff plan (MembershipPlan (fst state))) (snd state)
      in ((fst state \<union> settled_granted settlement) - settled_revoked settlement, settled_generation settlement))"

lemma membership_sync_eq:
  "membership_sync lower channels (ms, g) p =
     (plan_channels (project_membership lower p channels),
      if ms \<subseteq> plan_channels (project_membership lower p channels) then g else generation_next g)"
  by (auto simp: membership_sync_def settle_def plan_diff_def Let_def)

lemma membership_sync_generation:
  "generation_value (snd state) \<le> generation_value (snd (membership_sync lower channels state p))"
  using generation.next_ge [of "snd state"] by (cases state) (simp add: membership_sync_eq)

lemma foldl_sync_generation:
  "generation_value (snd state) \<le> generation_value (snd (foldl (membership_sync lower channels) state ps))"
proof (induction ps arbitrary: state)
  case (Cons p ps)
  show ?case
    using membership_sync_generation [of state lower channels p] Cons.IH [of "membership_sync lower channels state p"]
    by simp
qed simp

text \<open>Groups decide membership, and nothing else does: after any sequence of sign-ins the stored
  channels are exactly those whose audience admits the groups of the last one, whatever was stored or
  synchronised before; and when that sign-in took a channel away, the authorization generation has
  moved past every earlier one, so that everything issued before it is refused as stale.\<close>

theorem membership_follows_last_sign_in:
  assumes "state = foldl (membership_sync lower channels) start ps"
    and "(members, g) = membership_sync lower channels state p"
  shows "members = bound_channel ` {b \<in> set channels. binding_included lower p b}
    \<and> generation_value (snd start) \<le> generation_value g
    \<and> (\<not> fst state \<subseteq> members \<and> generation_value (snd state) < 2 ^ 64 - 1 \<longrightarrow>
        generation_check (snd start) g = Err Stale \<and> generation_check (snd state) g = Err Stale)"
proof -
  obtain ms g0 where s: "state = (ms, g0)" by (cases state)
  have members: "members = bound_channel ` {b \<in> set channels. binding_included lower p b}"
    and g: "g = (if ms \<subseteq> members then g0 else generation_next g0)"
    using assms(2) by (simp_all add: s membership_sync_eq project_membership_def select_channels_eq)
  have mono: "generation_value (snd start) \<le> generation_value g0"
    using foldl_sync_generation [of start lower channels ps] unfolding assms(1) [symmetric] s by simp
  have "generation_value g0 \<le> generation_value g" using g generation.next_ge by simp
  moreover have "generation_value g0 < generation_value g" if "\<not> ms \<subseteq> members" "generation_value g0 < 2 ^ 64 - 1"
    using that g generation.next_gt [of g0] by simp
  moreover have "generation_check a b = Err Stale" if "generation_value a < generation_value b" for a b
    using that by (auto simp: generation_check_def generation_value_def word_less_def)
  ultimately have "\<not> ms \<subseteq> members \<and> generation_value g0 < 2 ^ 64 - 1 \<longrightarrow>
        generation_check (snd start) g = Err Stale \<and> generation_check g0 g = Err Stale"
      and "generation_value (snd start) \<le> generation_value g"
    using mono by (meson le_less_trans, meson order_trans)
  then show ?thesis using members unfolding s by simp
qed

theorem membership_follows_last_sign_in_witness:
  "let channels = [\<lparr>bound_channel = ''ops'', bound_audience = \<lparr>everyone = False, named = {''admins''}\<rparr>\<rparr>,
                   \<lparr>bound_channel = ''all'', bound_audience = \<lparr>everyone = True, named = {}\<rparr>\<rparr>];
       person = (\<lambda>groups. \<lparr>principal_actor = ''a'', principal_email = NormalizedEmail ''a@x'', principal_groups = groups,
                   principal_normalization = Exact, principal_mode = MultiUser\<rparr>);
       first = membership_sync id channels ({}, AuthGeneration 1) (person {GroupName ''admins''});
       second = membership_sync id channels first (person {})
   in fst first = {''ops'', ''all''} \<and> fst second = {''all''} \<and> generation_check (snd first) (snd second) = Err Stale"
proof -
  let ?channels = "[\<lparr>bound_channel = ''ops'', bound_audience = \<lparr>everyone = False, named = {''admins''}\<rparr>\<rparr>,
                   \<lparr>bound_channel = ''all'', bound_audience = \<lparr>everyone = True, named = {}\<rparr>\<rparr>]"
  let ?person = "\<lambda>groups. \<lparr>principal_actor = ''a'', principal_email = NormalizedEmail ''a@x'', principal_groups = groups,
                   principal_normalization = Exact, principal_mode = MultiUser\<rparr>"
  let ?first = "membership_sync id ?channels ({}, AuthGeneration 1) (?person {GroupName ''admins''})"
  have first: "?first = ({''ops'', ''all''}, AuthGeneration 1)"
    by (auto simp: membership_sync_eq project_membership_def binding_included_def group_fold_def)
  have second: "({''all''}, AuthGeneration 2) = membership_sync id ?channels ({''ops'', ''all''}, AuthGeneration 1) (?person {})"
    by (simp add: membership_sync_eq project_membership_def binding_included_def group_fold_def generation_next_def
        u64_saturating_inc_def)
  have "generation_check (AuthGeneration 1) (AuthGeneration 2) = Err Stale"
    using membership_follows_last_sign_in [OF _ second, of "({''ops'', ''all''}, AuthGeneration 1)" "[]"]
    by (simp add: generation_value_def)
  then show ?thesis
    unfolding Let_def first second [symmetric] by simp
qed

end
