(* ===== verification/PolicyGuard.thy ===== *)
theory PolicyGuard
  imports StdModel "HOL-Library.Sublist"
begin

text \<open>
  The guard in front of the policy-expression parser,
  \<open>crates/openbot-domain/src/policy/cel/guard.rs\<close>: a scanner over the bytes of an expression that
  measures the nesting of brackets outside string literals, and refuses an expression that is too
  long or nested too deeply. Its loops run over indices, so each needs an argument that it ends; the
  lemmas then show exactly which depth it computes.
\<close>

definition max_expression_bytes :: nat where
  "max_expression_bytes = 4096"

definition max_expression_depth :: nat where
  "max_expression_depth = 8"

section \<open>Skipping a string literal\<close>

function skip_loop :: "string \<Rightarrow> nat \<Rightarrow> char \<Rightarrow> bool \<Rightarrow> bool \<Rightarrow> nat \<Rightarrow> nat" where
  "skip_loop bs start quote triple raw index =
     (if index < length bs then
        if \<not> raw \<and> bs ! index = CHR 0x5C then skip_loop bs start quote triple raw (index + 2)
        else if bs ! index = quote then
          if \<not> triple then index + 1
          else if index + 3 \<le> length bs \<and> bs ! (index + 1) = quote \<and> bs ! (index + 2) = quote then index + 3
          else skip_loop bs start quote triple raw (index + 1)
        else skip_loop bs start quote triple raw (index + 1)
      else start + 1)"
  by pat_completeness auto
termination
  by (relation "measure (\<lambda>(bs, _, _, _, _, index). length bs - index)") auto

declare skip_loop.simps [simp del]

definition skip_string :: "string \<Rightarrow> nat \<Rightarrow> bool \<Rightarrow> nat" where
  "skip_string bs start raw =
     (let quote = bs ! start;
          triple = (start + 3 \<le> length bs \<and> bs ! (start + 1) = quote \<and> bs ! (start + 2) = quote);
          delimiter_len = (if triple then 3 else 1)
      in skip_loop bs start quote triple raw (start + delimiter_len))"

lemma skip_loop_bounds:
  "start < index \<Longrightarrow> start < length bs \<Longrightarrow>
   start < skip_loop bs start quote triple raw index \<and> skip_loop bs start quote triple raw index \<le> length bs"
proof (induction bs start quote triple raw index rule: skip_loop.induct)
  case (1 bs start quote triple raw index)
  note IH = 1
  show ?case
  proof (cases "index < length bs")
    case False
    then show ?thesis using IH by (simp add: skip_loop.simps [of bs start quote triple raw index])
  next
    case True
    let ?escape = "\<not> raw \<and> bs ! index = CHR 0x5C"
    let ?triple_end = "index + 3 \<le> length bs \<and> bs ! (index + 1) = quote \<and> bs ! (index + 2) = quote"
    from True IH show ?thesis
      by (cases ?escape; cases "bs ! index = quote"; cases triple; cases ?triple_end)
        (simp_all add: skip_loop.simps [of bs start _ _ _ index])
  qed
qed

lemma skip_string_bounds:
  "start < length bs \<Longrightarrow> start < skip_string bs start raw \<and> skip_string bs start raw \<le> length bs"
  unfolding skip_string_def Let_def by (rule skip_loop_bounds) auto

section \<open>The scanner\<close>

definition is_quote :: "char \<Rightarrow> bool" where
  "is_quote c \<longleftrightarrow> c = CHR 0x22 \<or> c = CHR 0x27"

definition is_literal_prefix :: "char \<Rightarrow> bool" where
  "is_literal_prefix c \<longleftrightarrow> c \<in> {CHR ''r'', CHR ''R'', CHR ''b'', CHR ''B''}"

definition is_opening :: "char \<Rightarrow> bool" where
  "is_opening c \<longleftrightarrow> c \<in> {CHR ''('', CHR ''['', CHR ''{''}"

definition is_closing :: "char \<Rightarrow> bool" where
  "is_closing c \<longleftrightarrow> c \<in> {CHR '')'', CHR '']'', CHR ''}''}"

function lookahead_loop :: "string \<Rightarrow> nat \<Rightarrow> nat \<Rightarrow> nat" where
  "lookahead_loop bs index lookahead =
     (if lookahead < length bs \<and> is_literal_prefix (bs ! lookahead) \<and> lookahead - index < 2
      then lookahead_loop bs index (lookahead + 1)
      else lookahead)"
  by pat_completeness auto
termination
  by (relation "measure (\<lambda>(bs, _, lookahead). length bs - lookahead)") auto

declare lookahead_loop.simps [simp del]

lemma lookahead_loop_ge: "lookahead \<le> lookahead_loop bs index lookahead"
proof (induction bs index lookahead rule: lookahead_loop.induct)
  case (1 bs index lookahead)
  then show ?case by (subst lookahead_loop.simps) auto
qed

text \<open>Where the literal that starts at \<open>index\<close> ends, if one starts there.\<close>

definition literal_end :: "string \<Rightarrow> nat \<Rightarrow> nat option" where
  "literal_end bs index =
     (let lookahead = lookahead_loop bs index index in
      if is_literal_prefix (bs ! index) \<and> lookahead < length bs \<and> is_quote (bs ! lookahead)
      then Some (skip_string bs lookahead
             (list_ex (\<lambda>b. b \<in> {CHR ''r'', CHR ''R''}) (take (lookahead - index) (drop index bs))))
      else if is_quote (bs ! index) then Some (skip_string bs index False)
      else None)"

lemma literal_end_bounds:
  assumes "index < length bs" "literal_end bs index = Some e"
  shows "index < e \<and> e \<le> length bs"
proof -
  have "index \<le> lookahead_loop bs index index" by (rule lookahead_loop_ge)
  then show ?thesis
    using assms skip_string_bounds [of "lookahead_loop bs index index" bs] skip_string_bounds [of index bs False]
    by (auto simp: literal_end_def Let_def split: if_splits intro: le_less_trans)
qed

definition next_depth :: "char \<Rightarrow> nat \<Rightarrow> nat" where
  "next_depth byte depth =
     (if is_opening byte then depth + 1 else if is_closing byte then depth - 1 else depth)"

function depth_loop :: "string \<Rightarrow> nat \<Rightarrow> nat \<Rightarrow> nat \<Rightarrow> nat" where
  "depth_loop bs index depth max_depth =
     (if index < length bs then
        (case literal_end bs index of
           Some e \<Rightarrow> depth_loop bs e depth max_depth
         | None \<Rightarrow>
             (let byte = bs ! index; depth' = next_depth byte depth in
              depth_loop bs (index + 1) depth'
                (if is_opening byte then max max_depth depth' else max_depth)))
      else max_depth)"
  by pat_completeness auto
termination
proof (relation "measure (\<lambda>(bs, index, _, _). length bs - index)")
  fix bs :: string and index depth max_depth e :: nat
  assume "index < length bs" "literal_end bs index = Some e"
  then show "((bs, e, depth, max_depth), (bs, index, depth, max_depth)) \<in> measure (\<lambda>(bs, index, _, _). length bs - index)"
    using literal_end_bounds [of index bs e] by (simp add: diff_less_mono2)
qed auto

declare depth_loop.simps [simp del]

definition max_bracket_depth :: "string \<Rightarrow> nat" where
  "max_bracket_depth expression = depth_loop expression 0 0 0"

datatype guard_failure = TooLong | TooDeep

definition guard_check :: "string \<Rightarrow> (guard_failure, nat) result" where
  "guard_check expression =
     (if length expression > max_expression_bytes then Err TooLong
      else (let depth = max_bracket_depth expression in
            if depth > max_expression_depth then Err TooDeep else Ok depth))"

section \<open>The depth it computes\<close>

text \<open>The bytes outside the literals the scanner skips.\<close>

function outside :: "string \<Rightarrow> nat \<Rightarrow> string" where
  "outside bs index =
     (if index < length bs then
        (case literal_end bs index of
           Some e \<Rightarrow> outside bs e
         | None \<Rightarrow> bs ! index # outside bs (index + 1))
      else [])"
  by pat_completeness auto
termination
proof (relation "measure (\<lambda>(bs, index). length bs - index)")
  fix bs :: string and index e :: nat
  assume "index < length bs" "literal_end bs index = Some e"
  then show "((bs, e), (bs, index)) \<in> measure (\<lambda>(bs, index). length bs - index)"
    using literal_end_bounds [of index bs e] by (simp add: diff_less_mono2)
qed auto

declare outside.simps [simp del]

fun plain_depth :: "string \<Rightarrow> nat \<Rightarrow> nat \<Rightarrow> nat" where
  "plain_depth [] depth max_depth = max_depth"
| "plain_depth (c # cs) depth max_depth =
     plain_depth cs (next_depth c depth) (if is_opening c then max max_depth (next_depth c depth) else max_depth)"

lemma depth_loop_outside: "depth_loop bs index depth max_depth = plain_depth (outside bs index) depth max_depth"
proof (induction bs index depth max_depth rule: depth_loop.induct)
  case (1 bs index depth max_depth)
  then show ?case
    by (subst depth_loop.simps, subst outside.simps) (auto simp: Let_def split: option.splits)
qed

definition opens :: "string \<Rightarrow> nat" where "opens u = length (filter is_opening u)"
definition closes :: "string \<Rightarrow> nat" where "closes u = length (filter is_closing u)"

lemma opening_not_closing: "is_opening c \<Longrightarrow> \<not> is_closing c"
  by (auto simp: is_opening_def is_closing_def)

text \<open>
  The running depth is the largest excess of opening over closing brackets of a text that ends here;
  the maximum is the largest excess of any text inside.
\<close>

lemma plain_depth_ge: "max_depth \<le> plain_depth cs depth max_depth"
proof (induction cs arbitrary: depth max_depth)
  case (Cons c cs)
  have "max_depth \<le> (if is_opening c then max max_depth (next_depth c depth) else max_depth)" by simp
  also have "\<dots> \<le> plain_depth (c # cs) depth max_depth" using Cons.IH by simp
  finally show ?case .
qed simp

lemma plain_depth_prefix:
  "depth \<le> max_depth \<Longrightarrow> prefix u cs \<Longrightarrow> depth + opens u \<le> closes u + plain_depth cs depth max_depth"
proof (induction cs arbitrary: depth max_depth u)
  case Nil
  then show ?case by (simp add: opens_def closes_def)
next
  case (Cons c cs)
  show ?case
  proof (cases u)
    case Nil
    then show ?thesis
      using Cons.prems(1) plain_depth_ge [of max_depth "c # cs" depth] by (simp add: opens_def closes_def)
  next
    case (Cons d v)
    with Cons.prems have v: "d = c" "prefix v cs" by simp_all
    let ?max = "if is_opening c then max max_depth (next_depth c depth) else max_depth"
    have "next_depth c depth \<le> ?max" using Cons.prems(1) by (auto simp: next_depth_def)
    from Cons.IH [OF this v(2)]
    have "next_depth c depth + opens v \<le> closes v + plain_depth (c # cs) depth max_depth" by simp
    then show ?thesis
      using Cons v opening_not_closing [of c]
      by (auto simp: opens_def closes_def next_depth_def split: if_splits)
  qed
qed

lemma plain_depth_sublist:
  "depth \<le> max_depth \<Longrightarrow> sublist u cs \<Longrightarrow> opens u \<le> closes u + plain_depth cs depth max_depth"
proof (induction cs arbitrary: depth max_depth)
  case Nil
  then show ?case by (simp add: opens_def)
next
  case (Cons c cs)
  let ?max = "if is_opening c then max max_depth (next_depth c depth) else max_depth"
  have le: "next_depth c depth \<le> ?max" using Cons.prems(1) by (auto simp: next_depth_def)
  consider "prefix u (c # cs)" | "sublist u cs" using Cons.prems(2) by (auto simp: sublist_Cons_right)
  then show ?case
  proof cases
    case 1
    from plain_depth_prefix [OF Cons.prems(1) this] show ?thesis by simp
  next
    case 2
    from Cons.IH [OF le this] show ?thesis by simp
  qed
qed

lemma plain_depth_attained:
  "plain_depth cs depth max_depth = max_depth
   \<or> (\<exists>u. prefix u cs \<and> depth + opens u = closes u + plain_depth cs depth max_depth)
   \<or> (\<exists>u. sublist u cs \<and> opens u = closes u + plain_depth cs depth max_depth)"
proof (induction cs arbitrary: depth max_depth)
  case (Cons c cs)
  let ?max = "if is_opening c then max max_depth (next_depth c depth) else max_depth"
  let ?d = "plain_depth cs (next_depth c depth) ?max"
  consider "?d = ?max" | u where "prefix u cs" "next_depth c depth + opens u = closes u + ?d"
    | u where "sublist u cs" "opens u = closes u + ?d"
    using Cons.IH [of "next_depth c depth" ?max] by blast
  then show ?case
  proof cases
    case 1
    show ?thesis
    proof (cases "?max = max_depth")
      case False
      then have "is_opening c" "?max = depth + 1" by (auto simp: next_depth_def split: if_splits)
      with 1 have "prefix [c] (c # cs)" "depth + opens [c] = closes [c] + plain_depth (c # cs) depth max_depth"
        using opening_not_closing [of c] by (simp_all add: opens_def closes_def)
      then show ?thesis by blast
    qed (use 1 in simp)
  next
    case 2
    show ?thesis
    proof (cases "is_closing c \<and> depth = 0")
      case True
      then have "next_depth c depth = 0" using opening_not_closing by (auto simp: next_depth_def)
      with 2 have "sublist u (c # cs)" "opens u = closes u + plain_depth (c # cs) depth max_depth"
        by (auto simp: sublist_Cons_right)
      then show ?thesis by blast
    next
      case False
      with 2 have "prefix (c # u) (c # cs)"
          "depth + opens (c # u) = closes (c # u) + plain_depth (c # cs) depth max_depth"
        using opening_not_closing [of c] by (auto simp: opens_def closes_def next_depth_def split: if_splits)
      then show ?thesis by blast
    qed
  next
    case 3
    then have "sublist u (c # cs)" "opens u = closes u + plain_depth (c # cs) depth max_depth"
      by (auto simp: sublist_Cons_right)
    then show ?thesis by blast
  qed
qed simp

lemma literal_end_none: "index < length bs \<Longrightarrow> \<not> list_ex is_quote bs \<Longrightarrow> literal_end bs index = None"
  by (auto simp: literal_end_def Let_def list_ex_iff)

lemma outside_no_quotes:
  assumes "\<not> list_ex is_quote bs"
  shows "outside bs index = drop index bs"
  using assms
proof (induction bs index rule: outside.induct)
  case (1 bs index)
  then show ?case
    by (subst outside.simps) (auto simp: literal_end_none Cons_nth_drop_Suc)
qed

lemma guard_check_plain:
  "\<not> list_ex is_quote e \<Longrightarrow> length e \<le> max_expression_bytes \<Longrightarrow> plain_depth e 0 0 \<le> max_expression_depth \<Longrightarrow>
   guard_check e = Ok (plain_depth e 0 0)"
  by (simp add: guard_check_def max_bracket_depth_def depth_loop_outside outside_no_quotes Let_def)

text \<open>The guard always answers, and what it answers is the nesting depth: an expression passes
  exactly when it has at most 4096 bytes and nests at most eight deep, where the depth reported is
  the largest excess of opening over closing brackets in any stretch of the text outside the string
  literals it skips; with no quotes in the expression that text is the whole expression.\<close>

theorem guard_measures_nesting:
  "(guard_check e = Ok d \<longleftrightarrow> length e \<le> 4096 \<and> d \<le> 8 \<and> d = max_bracket_depth e)
   \<and> (\<nexists>u. sublist u (outside e 0) \<and> opens u > closes u + max_bracket_depth e)
   \<and> (\<exists>u. sublist u (outside e 0) \<and> opens u = closes u + max_bracket_depth e)
   \<and> (list_ex is_quote e \<or> outside e 0 = e)"
proof -
  have depth: "max_bracket_depth e = plain_depth (outside e 0) 0 0"
    by (simp add: max_bracket_depth_def depth_loop_outside)
  have "guard_check e = Ok d \<longleftrightarrow> length e \<le> 4096 \<and> d \<le> 8 \<and> d = max_bracket_depth e"
    by (auto simp: guard_check_def max_expression_bytes_def max_expression_depth_def Let_def)
  moreover have "\<nexists>u. sublist u (outside e 0) \<and> opens u > closes u + max_bracket_depth e"
    using plain_depth_sublist [of 0 0 _ "outside e 0"] unfolding depth by (auto simp: not_less)
  moreover have "\<exists>u. sublist u (outside e 0) \<and> opens u = closes u + max_bracket_depth e"
  proof -
    consider "plain_depth (outside e 0) 0 0 = 0"
      | u where "sublist u (outside e 0)" "opens u = closes u + plain_depth (outside e 0) 0 0"
      using plain_depth_attained [of "outside e 0" 0 0] by auto
    then show ?thesis
    proof cases
      case 1
      then have "sublist [] (outside e 0) \<and> opens [] = closes [] + max_bracket_depth e"
        unfolding depth by (simp add: opens_def closes_def)
      then show ?thesis by blast
    next
      case 2
      then show ?thesis unfolding depth by blast
    qed
  qed
  moreover have "list_ex is_quote e \<or> outside e 0 = e"
    using outside_no_quotes [of e 0] by auto
  ultimately show ?thesis by blast
qed

text \<open>
  The scanner looks for the closing quote across line breaks, so brackets between a quote and a quote
  on a later line are not counted.
\<close>

lemma guard_skips_across_lines:
  "guard_check (CHR 0x27 # CHR 0x0A # replicate 9 (CHR ''('') @ [CHR 0x27]) = Ok 0"
proof -
  let ?e = "CHR 0x27 # CHR 0x0A # replicate 9 (CHR ''('') @ [CHR 0x27]"
  have "skip_string ?e 0 False = 12"
    by (simp add: skip_string_def skip_loop.simps numeral_eq_Suc)
  then have "literal_end ?e 0 = Some 12"
    by (simp add: literal_end_def Let_def is_quote_def is_literal_prefix_def)
  then have "outside ?e 0 = []"
    by (simp add: outside.simps [of ?e 0] outside.simps [of ?e 12])
  then have "max_bracket_depth ?e = 0"
    by (simp add: max_bracket_depth_def depth_loop_outside)
  then show ?thesis by (simp add: guard_check_def max_expression_bytes_def)
qed

end
