(* ===== verification/Policy.thy ===== *)
theory Policy
  imports PolicyGuard Canonical
begin

text \<open>
  Action policies, \<open>crates/openbot-domain/src/policy/\<close>: the policy and its version (\<open>mod.rs\<close>), the
  context of an action (\<open>context.rs\<close>), compiling and evaluating a rule (\<open>cel/\<close>), the decision
  (\<open>evaluate.rs\<close>) and the migration preflight (\<open>preflight.rs\<close>). The CEL engine is a third-party
  crate: its compiler \<open>cel_compile\<close> and its interpreter with the two registered functions
  \<open>cel_execute\<close> are parameters, as is SHA-256 (\<open>H\<close>). The lemmas show that a decision fails
  closed on both lists, that the version names the policy, and that a preflight without a loosening
  divergence is sound.
\<close>

section \<open>Policies and contexts\<close>

datatype policy_mode = Enforce | DryRun

fun policy_mode_str :: "policy_mode \<Rightarrow> string" where
  "policy_mode_str Enforce = ''enforce''"
| "policy_mode_str DryRun = ''dry-run''"

definition policy_mode_from_str :: "string \<Rightarrow> policy_mode option" where
  "policy_mode_from_str v =
     (if v = ''enforce'' then Some Enforce else if v = ''dry-run'' then Some DryRun else None)"

record action_policy =
  policy_mode_of :: policy_mode
  policy_deny :: "string list"
  policy_allow :: "string list"

record page_ref =
  page_url :: string
  page_host :: string

record element_ref =
  element_reference :: string
  element_role :: string
  element_name :: string
  element_kind :: "string option"

record file_ref =
  file_path :: string
  file_name :: string
  file_extension :: string

datatype mcp_effect = McpRead | McpWrite

fun mcp_effect_str :: "mcp_effect \<Rightarrow> string" where
  "mcp_effect_str McpRead = ''read''"
| "mcp_effect_str McpWrite = ''write''"

record mcp_ref =
  mcp_server :: string
  mcp_tool :: string
  mcp_effect_of :: mcp_effect

datatype intent =
    Activate | TypeText | Navigate | ReadPage | ReadFile | WriteFile | ListFiles | ReadTool | WriteTool | RunCommand

fun intent_str :: "intent \<Rightarrow> string" where
  "intent_str Activate = ''activate''"
| "intent_str TypeText = ''type''"
| "intent_str Navigate = ''navigate''"
| "intent_str ReadPage = ''read''"
| "intent_str ReadFile = ''read_file''"
| "intent_str WriteFile = ''write_file''"
| "intent_str ListFiles = ''list_files''"
| "intent_str ReadTool = ''read_tool''"
| "intent_str WriteTool = ''write_tool''"
| "intent_str RunCommand = ''run_command''"

record policy_context =
  ctx_tool_name :: string
  ctx_bot_id :: string
  ctx_page :: page_ref
  ctx_actor_id :: string
  ctx_element :: "element_ref option"
  ctx_key :: "string option"
  ctx_intent :: "intent option"
  ctx_file :: "file_ref option"
  ctx_mcp :: "mcp_ref option"
  ctx_command :: "string option"

section \<open>Versions\<close>

definition le_bytes :: "u64 \<Rightarrow> bytes" where
  "le_bytes w = rev (be_bytes 8 w)"

definition absorb :: "bytes \<Rightarrow> bytes \<Rightarrow> bytes" where
  "absorb hasher frame = (hasher @ le_bytes (of_nat (length frame))) @ frame"

definition absorb_list :: "bytes \<Rightarrow> string list \<Rightarrow> bytes" where
  "absorb_list hasher items =
     foldl (\<lambda>h item. absorb h (str_bytes item)) (hasher @ le_bytes (of_nat (length items))) items"

definition configured_version_domain :: string where
  "configured_version_domain = ''openbot.action-policy.v1''"

definition unconfigured_version_domain :: string where
  "unconfigured_version_domain = ''openbot.action-policy.unconfigured.v1''"

definition policy_preimage :: "action_policy \<Rightarrow> bytes" where
  "policy_preimage p =
     (let h = absorb [] (str_bytes configured_version_domain);
          h = absorb h (str_bytes (policy_mode_str (policy_mode_of p)));
          h = absorb_list h (policy_deny p)
      in absorb_list h (policy_allow p))"

definition version_of :: "(bytes \<Rightarrow> digest) \<Rightarrow> action_policy \<Rightarrow> digest" where
  "version_of H p = H (policy_preimage p)"

definition version_unconfigured :: "(bytes \<Rightarrow> digest) \<Rightarrow> digest" where
  "version_unconfigured H = H (absorb [] (str_bytes unconfigured_version_domain))"

section \<open>Rules\<close>

datatype cel_type_name = CelList | CelMap | CelInt | CelUint | CelDouble | CelString | CelBytes | CelNull | CelOther

datatype cel_failure =
    FailTooLong | FailTooDeep | FailParse | FailUnknownReference | FailMissingField
  | FailNonBoolean cel_type_name | FailInvalidPattern | FailArity | FailRuntime

fun cel_failure_code :: "cel_failure \<Rightarrow> string" where
  "cel_failure_code FailTooLong = ''policy_expression_too_long''"
| "cel_failure_code FailTooDeep = ''policy_expression_too_deep''"
| "cel_failure_code FailParse = ''policy_expression_parse_error''"
| "cel_failure_code FailUnknownReference = ''policy_expression_unknown_reference''"
| "cel_failure_code FailMissingField = ''policy_expression_missing_field''"
| "cel_failure_code (FailNonBoolean _) = ''policy_expression_non_boolean''"
| "cel_failure_code FailInvalidPattern = ''policy_expression_invalid_pattern''"
| "cel_failure_code FailArity = ''policy_expression_arity''"
| "cel_failure_code FailRuntime = ''policy_expression_runtime_error''"

text \<open>What the engine returns, as far as the code looks at it.\<close>

datatype cel_value =
    VBool bool | VList | VMap | VInt | VUInt | VFloat | VString | VBytes | VNull | VOther

datatype execution_error =
    UndeclaredReference | NoSuchKey | InvalidArgumentCount | FunctionError string | OtherExecutionError

fun type_name_of :: "cel_value \<Rightarrow> cel_type_name" where
  "type_name_of VList = CelList"
| "type_name_of VMap = CelMap"
| "type_name_of VInt = CelInt"
| "type_name_of VUInt = CelUint"
| "type_name_of VFloat = CelDouble"
| "type_name_of VString = CelString"
| "type_name_of VBytes = CelBytes"
| "type_name_of VNull = CelNull"
| "type_name_of _ = CelOther"

fun classify_error :: "execution_error \<Rightarrow> cel_failure" where
  "classify_error UndeclaredReference = FailUnknownReference"
| "classify_error NoSuchKey = FailMissingField"
| "classify_error InvalidArgumentCount = FailArity"
| "classify_error (FunctionError function_name) =
     (if function_name = ''matches'' then FailInvalidPattern else FailRuntime)"
| "classify_error OtherExecutionError = FailRuntime"

datatype result_class = ClassTrue | ClassFalse | ClassError cel_failure
datatype result_kind = KindTrue | KindFalse | KindError

fun class_kind :: "result_class \<Rightarrow> result_kind" where
  "class_kind ClassTrue = KindTrue"
| "class_kind ClassFalse = KindFalse"
| "class_kind (ClassError _) = KindError"

text \<open>
  The engine: compiling yields a program, running it on a context a value or an error. The parser's
  thread, and the binding of the context as the interpreter's variables, belong to it.
\<close>

record 'p cel_engine =
  cel_compile :: "string \<Rightarrow> 'p option"
  cel_execute :: "'p \<Rightarrow> policy_context \<Rightarrow> (execution_error, cel_value) result"

definition compile :: "'p cel_engine \<Rightarrow> string \<Rightarrow> (cel_failure, 'p) result" where
  "compile E src =
     (case guard_check src of
        Inl TooLong \<Rightarrow> Err FailTooLong
      | Inl TooDeep \<Rightarrow> Err FailTooDeep
      | Inr _ \<Rightarrow> (case cel_compile E src of None \<Rightarrow> Err FailParse | Some p \<Rightarrow> Ok p))"

definition expression_evaluate :: "'p cel_engine \<Rightarrow> 'p \<Rightarrow> policy_context \<Rightarrow> result_class" where
  "expression_evaluate E p c =
     (case cel_execute E p c of
        Inr (VBool b) \<Rightarrow> if b then ClassTrue else ClassFalse
      | Inr other \<Rightarrow> ClassError (FailNonBoolean (type_name_of other))
      | Inl e \<Rightarrow> ClassError (classify_error e))"

record 'p compiled_rule =
  rule_source :: string
  rule_compiled :: "(cel_failure, 'p) result"

definition rule_compile :: "'p cel_engine \<Rightarrow> string \<Rightarrow> 'p compiled_rule" where
  "rule_compile E src = \<lparr>rule_source = src, rule_compiled = compile E src\<rparr>"

definition rule_evaluate :: "'p cel_engine \<Rightarrow> 'p compiled_rule \<Rightarrow> policy_context \<Rightarrow> result_class" where
  "rule_evaluate E r c =
     (case rule_compiled r of
        Inr expression \<Rightarrow> expression_evaluate E expression c
      | Inl failure \<Rightarrow> ClassError failure)"

record 'p compiled_rules =
  rules_mode :: policy_mode
  rules_version :: digest
  rules_deny :: "'p compiled_rule list"
  rules_allow :: "'p compiled_rule list"

datatype 'p compiled_action_policy = Unconfigured | Configured "'p compiled_rules"

definition policy_compile ::
  "'p cel_engine \<Rightarrow> (bytes \<Rightarrow> digest) \<Rightarrow> action_policy \<Rightarrow> 'p compiled_action_policy" where
  "policy_compile E H p =
     Configured \<lparr>rules_mode = policy_mode_of p, rules_version = version_of H p,
                 rules_deny = map (rule_compile E) (policy_deny p),
                 rules_allow = map (rule_compile E) (policy_allow p)\<rparr>"

fun compiled_mode :: "'p compiled_action_policy \<Rightarrow> policy_mode" where
  "compiled_mode Unconfigured = Enforce"
| "compiled_mode (Configured rules) = rules_mode rules"

fun compiled_version :: "(bytes \<Rightarrow> digest) \<Rightarrow> 'p compiled_action_policy \<Rightarrow> digest" where
  "compiled_version H Unconfigured = version_unconfigured H"
| "compiled_version H (Configured rules) = rules_version rules"

section \<open>Decisions\<close>

datatype policy_source = SourceDeny | SourceAllow | SourceDefault

datatype refusal =
    RefuseCommand string
  | RefuseMcp string string
  | RefuseFile string
  | RefuseElement string string
  | RefuseTool string string

definition refusal_for_context :: "policy_context \<Rightarrow> refusal" where
  "refusal_for_context c =
     (case Option.bind (ctx_command c) (\<lambda>v. if v = [] then None else Some v) of
        Some command \<Rightarrow> RefuseCommand command
      | None \<Rightarrow> (case ctx_mcp c of
          Some m \<Rightarrow> RefuseMcp (mcp_server m) (mcp_tool m)
        | None \<Rightarrow> (case Option.bind (ctx_file c) (\<lambda>f. if file_path f = [] then None else Some f) of
            Some f \<Rightarrow> RefuseFile (file_path f)
          | None \<Rightarrow> (case Option.bind (ctx_element c) (\<lambda>el. if element_name el = [] then None else Some el) of
              Some el \<Rightarrow> RefuseElement (element_name el) (page_host (ctx_page c))
            | None \<Rightarrow> RefuseTool (ctx_tool_name c) (page_host (ctx_page c))))))"

datatype refusal_subject = SubjectCommand | SubjectMcp | SubjectFile | SubjectElement | SubjectTool

fun refusal_subject_of :: "refusal \<Rightarrow> refusal_subject" where
  "refusal_subject_of (RefuseCommand _) = SubjectCommand"
| "refusal_subject_of (RefuseMcp _ _) = SubjectMcp"
| "refusal_subject_of (RefuseFile _) = SubjectFile"
| "refusal_subject_of (RefuseElement _ _) = SubjectElement"
| "refusal_subject_of (RefuseTool _ _) = SubjectTool"

fun refusal_subject_code :: "refusal_subject \<Rightarrow> string" where
  "refusal_subject_code SubjectCommand = ''policy_refused_command''"
| "refusal_subject_code SubjectMcp = ''policy_refused_mcp_tool''"
| "refusal_subject_code SubjectFile = ''policy_refused_file''"
| "refusal_subject_code SubjectElement = ''policy_refused_element''"
| "refusal_subject_code SubjectTool = ''policy_refused_tool''"

record policy_decision =
  decision_allowed :: bool
  decision_mode :: policy_mode
  decision_matched :: "string option"
  decision_source :: policy_source
  decision_forward :: bool
  decision_refusal :: "refusal option"
  decision_version :: digest

definition rule_fires :: "'p cel_engine \<Rightarrow> 'p compiled_rule \<Rightarrow> policy_context \<Rightarrow> bool \<Rightarrow> bool" where
  "rule_fires E r c on_error =
     (case rule_evaluate E r c of
        ClassTrue \<Rightarrow> True
      | ClassFalse \<Rightarrow> False
      | ClassError _ \<Rightarrow> on_error)"

definition evaluate ::
  "'p cel_engine \<Rightarrow> (bytes \<Rightarrow> digest) \<Rightarrow> 'p compiled_action_policy \<Rightarrow> policy_context \<Rightarrow> policy_decision" where
  "evaluate E H p c =
     (let mode = compiled_mode p;
          version = compiled_version H p
      in case p of
        Unconfigured \<Rightarrow>
          \<lparr>decision_allowed = False, decision_mode = mode, decision_matched = None,
           decision_source = SourceDefault, decision_forward = False,
           decision_refusal = Some (refusal_for_context c), decision_version = version\<rparr>
      | Configured rules \<Rightarrow>
          (case find (\<lambda>r. rule_fires E r c True) (rules_deny rules) of
             Some r \<Rightarrow>
               \<lparr>decision_allowed = False, decision_mode = mode, decision_matched = Some (rule_source r),
                decision_source = SourceDeny, decision_forward = (mode = DryRun),
                decision_refusal = Some (refusal_for_context c), decision_version = version\<rparr>
           | None \<Rightarrow>
               (case find (\<lambda>r. rule_fires E r c False) (rules_allow rules) of
                  Some r \<Rightarrow>
                    \<lparr>decision_allowed = True, decision_mode = mode, decision_matched = Some (rule_source r),
                     decision_source = SourceAllow, decision_forward = True,
                     decision_refusal = None, decision_version = version\<rparr>
                | None \<Rightarrow>
                    \<lparr>decision_allowed = False, decision_mode = mode, decision_matched = None,
                     decision_source = SourceDefault, decision_forward = (mode = DryRun),
                     decision_refusal = Some (refusal_for_context c), decision_version = version\<rparr>)))"

section \<open>Preflight\<close>

datatype migration_effect = Unchanged | Loosened | Tightened

definition kind_denies :: "result_kind \<Rightarrow> bool" where
  "kind_denies k \<longleftrightarrow> k \<in> {KindTrue, KindError}"

definition kind_permits :: "result_kind \<Rightarrow> bool" where
  "kind_permits k \<longleftrightarrow> k = KindTrue"

fun from_restrictiveness :: "bool \<Rightarrow> bool \<Rightarrow> migration_effect" where
  "from_restrictiveness True False = Loosened"
| "from_restrictiveness False True = Tightened"
| "from_restrictiveness _ _ = Unchanged"

definition on_deny_list :: "result_kind \<Rightarrow> result_kind \<Rightarrow> migration_effect" where
  "on_deny_list oracle candidate = from_restrictiveness (kind_denies oracle) (kind_denies candidate)"

definition on_allow_list :: "result_kind \<Rightarrow> result_kind \<Rightarrow> migration_effect" where
  "on_allow_list oracle candidate = from_restrictiveness (\<not> kind_permits oracle) (\<not> kind_permits candidate)"

record preflight_case =
  case_entry_id :: string
  case_expression :: string
  case_context_name :: string
  case_context :: policy_context
  case_oracle :: result_kind

record agreement =
  agreed_entry_id :: string
  agreed_context_name :: string
  agreed_class :: result_kind

record divergence =
  div_entry_id :: string
  div_expression :: string
  div_context_name :: string
  div_oracle :: result_kind
  div_candidate :: result_kind
  div_deny_side :: migration_effect
  div_allow_side :: migration_effect

definition divergence_loosens :: "divergence \<Rightarrow> bool" where
  "divergence_loosens d \<longleftrightarrow> div_deny_side d = Loosened \<or> div_allow_side d = Loosened"

record preflight_report =
  agreements :: "agreement list"
  divergences :: "divergence list"

definition requires_operator_confirmation :: "preflight_report \<Rightarrow> bool" where
  "requires_operator_confirmation r \<longleftrightarrow> divergences r \<noteq> []"

definition would_loosen :: "preflight_report \<Rightarrow> bool" where
  "would_loosen r \<longleftrightarrow> list_ex divergence_loosens (divergences r)"

definition preflight_record ::
  "preflight_report \<Rightarrow> string \<Rightarrow> string \<Rightarrow> string \<Rightarrow> result_kind \<Rightarrow> result_kind \<Rightarrow> preflight_report" where
  "preflight_record report entry_id expression context_name oracle candidate =
     (if candidate = oracle then
        report\<lparr>agreements := agreements report
          @ [\<lparr>agreed_entry_id = entry_id, agreed_context_name = context_name, agreed_class = candidate\<rparr>]\<rparr>
      else
        report\<lparr>divergences := divergences report
          @ [\<lparr>div_entry_id = entry_id, div_expression = expression, div_context_name = context_name,
              div_oracle = oracle, div_candidate = candidate, div_deny_side = on_deny_list oracle candidate,
              div_allow_side = on_allow_list oracle candidate\<rparr>]\<rparr>)"

definition preflight_run :: "'p cel_engine \<Rightarrow> preflight_case list \<Rightarrow> preflight_report" where
  "preflight_run E cases =
     foldl (\<lambda>report k.
        preflight_record report (case_entry_id k) (case_expression k) (case_context_name k) (case_oracle k)
          (class_kind (rule_evaluate E (rule_compile E (case_expression k)) (case_context k))))
       \<lparr>agreements = [], divergences = []\<rparr> cases"

section \<open>The version names the policy\<close>

definition enc_frame :: "bytes \<Rightarrow> bytes" where
  "enc_frame f = le_bytes (of_nat (length f)) @ f"

lemma le_bytes_inject: "le_bytes v = le_bytes w \<longleftrightarrow> v = w"
  by (simp add: le_bytes_def be_bytes_inject)

lemma length_le_bytes: "length (le_bytes w) = 8"
  by (simp add: le_bytes_def)

lemma enc_frame_prefix_free:
  assumes "fits_u64 (length f)" "fits_u64 (length g)" "enc_frame f @ r = enc_frame g @ s"
  shows "f = g \<and> r = s"
proof -
  have "le_bytes (of_nat (length f)) @ (f @ r) = le_bytes (of_nat (length g)) @ (g @ s)"
    using assms(3) by (simp add: enc_frame_def)
  then have "le_bytes (of_nat (length f)) = le_bytes (of_nat (length g))" and rest: "f @ r = g @ s"
    by (simp_all add: append_eq_append_conv length_le_bytes)
  then have "length f = length g"
    using assms(1,2) by (simp add: le_bytes_inject length_word_inject)
  with rest show ?thesis by simp
qed

interpretation frame_code: prefix_code enc_frame "\<lambda>f. fits_u64 (length f)"
  by unfold_locales (rule enc_frame_prefix_free)

interpretation item_code: prefix_code "\<lambda>item. enc_frame (str_bytes item)" str_ok
proof
  fix x y r s
  assume "str_ok x" "str_ok y" "enc_frame (str_bytes x) @ r = enc_frame (str_bytes y) @ s"
  then show "x = y \<and> r = s" by (simp add: frame_code.append_eq_iff)
qed

definition enc_items :: "string list \<Rightarrow> bytes" where
  "enc_items items = le_bytes (of_nat (length items)) @ concat (map (\<lambda>item. enc_frame (str_bytes item)) items)"

definition items_ok :: "string list \<Rightarrow> bool" where
  "items_ok items \<longleftrightarrow> fits_u64 (length items) \<and> (\<forall>item\<in>set items. str_ok item)"

interpretation items_code: prefix_code enc_items items_ok
proof
  fix x y r s
  assume ok: "items_ok x" "items_ok y" and eq: "enc_items x @ r = enc_items y @ s"
  then have "le_bytes (of_nat (length x)) = le_bytes (of_nat (length y))"
    and rest: "concat (map (\<lambda>item. enc_frame (str_bytes item)) x) @ r = concat (map (\<lambda>item. enc_frame (str_bytes item)) y) @ s"
    by (simp_all add: enc_items_def append_eq_append_conv length_le_bytes)
  with ok have "length x = length y"
    by (simp add: le_bytes_inject length_word_inject items_ok_def)
  with rest ok show "x = y \<and> r = s"
    by (simp add: item_code.concat_append_eq_iff items_ok_def)
qed

lemma absorb_eq: "absorb h f = h @ enc_frame f"
  by (simp add: absorb_def enc_frame_def)

lemma absorb_list_eq: "absorb_list h items = h @ enc_items items"
proof -
  have "foldl (\<lambda>h item. absorb h (str_bytes item)) h' items = h' @ concat (map (\<lambda>item. enc_frame (str_bytes item)) items)" for h'
    by (induction items arbitrary: h') (simp_all add: absorb_eq)
  then show ?thesis by (simp add: absorb_list_def enc_items_def)
qed

lemma policy_preimage_eq:
  "policy_preimage p = enc_frame (str_bytes configured_version_domain)
     @ enc_frame (str_bytes (policy_mode_str (policy_mode_of p))) @ enc_items (policy_deny p) @ enc_items (policy_allow p)"
  by (simp add: policy_preimage_def Let_def absorb_eq absorb_list_eq)

lemma mode_str_inject: "policy_mode_str m = policy_mode_str n \<longleftrightarrow> m = n"
  by (cases m; cases n) simp_all

lemma policy_preimage_inject:
  assumes "items_ok (policy_deny p)" "items_ok (policy_allow p)" "items_ok (policy_deny q)" "items_ok (policy_allow q)"
    and "policy_preimage p = policy_preimage q"
  shows "p = q"
proof -
  have "fits_u64 (length (policy_mode_str m))" for m by (cases m) (simp_all add: fits_u64_def)
  then have "policy_mode_str (policy_mode_of p) = policy_mode_str (policy_mode_of q)
      \<and> policy_deny p = policy_deny q \<and> policy_allow p = policy_allow q"
    using assms by (simp add: policy_preimage_eq frame_code.append_eq_iff items_code.append_eq_iff items_code.enc_inject)
  then show ?thesis by (simp add: mode_str_inject)
qed

lemma unconfigured_preimage_differs: "policy_preimage p \<noteq> absorb [] (str_bytes unconfigured_version_domain)"
proof
  assume "policy_preimage p = absorb [] (str_bytes unconfigured_version_domain)"
  then have "enc_frame (str_bytes configured_version_domain)
      @ (enc_frame (str_bytes (policy_mode_str (policy_mode_of p))) @ enc_items (policy_deny p) @ enc_items (policy_allow p))
      = enc_frame (str_bytes unconfigured_version_domain) @ []"
    by (simp add: policy_preimage_eq absorb_eq)
  then have "str_bytes configured_version_domain = str_bytes unconfigured_version_domain"
    by (rule frame_code.prefix_free [THEN conjunct1, rotated 2])
       (simp_all add: fits_u64_def configured_version_domain_def unconfigured_version_domain_def)
  then show False by (simp add: configured_version_domain_def unconfigured_version_domain_def)
qed

section \<open>Decisions fail closed\<close>

lemma find_none_all: "find P xs = None \<longleftrightarrow> list_all (\<lambda>x. \<not> P x) xs"
  by (auto simp: find_None_iff list_all_iff)

lemma rule_fires_deny: "rule_fires E r c True \<longleftrightarrow> rule_evaluate E r c \<noteq> ClassFalse"
  by (simp add: rule_fires_def split: result_class.split)

lemma rule_fires_allow: "rule_fires E r c False \<longleftrightarrow> rule_evaluate E r c = ClassTrue"
  by (simp add: rule_fires_def split: result_class.split)

lemma decision_fails_closed_iff:
  "decision_allowed (evaluate E H p c) \<longleftrightarrow>
      (\<exists>rules. p = Configured rules
         \<and> list_all (\<lambda>r. rule_evaluate E r c = ClassFalse) (rules_deny rules)
         \<and> list_ex (\<lambda>r. rule_evaluate E r c = ClassTrue) (rules_allow rules))"
proof (cases p)
  case (Configured rules)
  have "list_all (\<lambda>r. rule_evaluate E r c = ClassFalse) (rules_deny rules)
      \<longleftrightarrow> find (\<lambda>r. rule_fires E r c True) (rules_deny rules) = None"
    by (simp add: find_none_all rule_fires_deny)
  moreover have "list_ex (\<lambda>r. rule_evaluate E r c = ClassTrue) (rules_allow rules)
      \<longleftrightarrow> find (\<lambda>r. rule_fires E r c False) (rules_allow rules) \<noteq> None"
    by (auto simp: find_None_iff rule_fires_allow list_ex_iff)
  ultimately show ?thesis
    using Configured by (simp add: evaluate_def Let_def split: option.split)
qed (simp add: evaluate_def)

text \<open>What a rule as it was saved says of an action: only an admissible expression that compiles, runs without
  an error and answers a boolean says anything.\<close>

definition rule_says :: "'p cel_engine \<Rightarrow> policy_context \<Rightarrow> bool \<Rightarrow> string \<Rightarrow> bool" where
  "rule_says E c b src \<longleftrightarrow>
     is_ok (guard_check src) \<and> (\<exists>program. cel_compile E src = Some program \<and> cel_execute E program c = Ok (VBool b))"

lemma classify_never_boolean: "expression_evaluate E program c = ClassTrue \<longleftrightarrow> cel_execute E program c = Ok (VBool True)"
  "expression_evaluate E program c = ClassFalse \<longleftrightarrow> cel_execute E program c = Ok (VBool False)"
  by (auto simp: expression_evaluate_def split: sum.splits cel_value.splits)

lemma rule_evaluate_says:
  "rule_evaluate E (rule_compile E src) c = ClassTrue \<longleftrightarrow> rule_says E c True src"
  "rule_evaluate E (rule_compile E src) c = ClassFalse \<longleftrightarrow> rule_says E c False src"
  by (auto simp: rule_evaluate_def rule_compile_def compile_def rule_says_def classify_never_boolean is_ok_iff
      split: sum.splits option.splits guard_failure.splits)

lemma rule_source_compiled: "rule_source (rule_compile E src) = src"
  by (simp add: rule_compile_def)

text \<open>The deciding rules of a policy: the first deny rule that does not say no, else the first allow rule that
  says yes.\<close>

definition deny_hit :: "'p cel_engine \<Rightarrow> action_policy \<Rightarrow> policy_context \<Rightarrow> string option" where
  "deny_hit E p c = find (\<lambda>src. \<not> rule_says E c False src) (policy_deny p)"

definition allow_hit :: "'p cel_engine \<Rightarrow> action_policy \<Rightarrow> policy_context \<Rightarrow> string option" where
  "allow_hit E p c = find (rule_says E c True) (policy_allow p)"

lemma evaluate_compiled:
  "evaluate E H (policy_compile E H p) c =
     (let denied = (deny_hit E p c \<noteq> None); granted = (\<not> denied \<and> allow_hit E p c \<noteq> None) in
      \<lparr>decision_allowed = granted, decision_mode = policy_mode_of p,
       decision_matched = (if denied then deny_hit E p c else allow_hit E p c),
       decision_source = (if denied then SourceDeny else if granted then SourceAllow else SourceDefault),
       decision_forward = (granted \<or> policy_mode_of p = DryRun),
       decision_refusal = (if granted then None else Some (refusal_for_context c)),
       decision_version = version_of H p\<rparr>)"
proof -
  have "(\<lambda>r. rule_fires E r c True) \<circ> rule_compile E = (\<lambda>src. \<not> rule_says E c False src)"
    "(\<lambda>r. rule_fires E r c False) \<circ> rule_compile E = rule_says E c True"
    by (auto simp: fun_eq_iff rule_fires_deny rule_fires_allow rule_evaluate_says)
  then show ?thesis
    by (auto simp: evaluate_def policy_compile_def Let_def find_of_map deny_hit_def allow_hit_def
        rule_source_compiled split: option.splits)
qed

lemma deny_hit_none: "deny_hit E p c = None \<longleftrightarrow> list_all (rule_says E c False) (policy_deny p)"
  by (simp add: deny_hit_def find_none_all)

lemma allow_hit_some: "allow_hit E p c \<noteq> None \<longleftrightarrow> list_ex (rule_says E c True) (policy_allow p)"
  by (auto simp: allow_hit_def find_None_iff list_ex_iff)

text \<open>C28: A policy decision fails closed on both sides. A saved rule says something of an action only if it is
  within the limits of the guard, compiles, runs without an error and answers a boolean. An action is allowed
  exactly when every deny rule says false of it and some allow rule says true; so a deny rule that does not
  compile, errors or is not boolean refuses, and such an allow rule permits nothing. It is forwarded exactly
  when allowed, or in dry-run mode; it carries a refusal exactly when it is not allowed. The decision names deny
  as its source exactly when some deny rule does not say false, whatever the allow rules say, and then the first
  such rule; it names allow exactly when the action is allowed, and then the first rule that says true. It
  carries the mode and the version of the policy. Where no policy is saved nothing is allowed or forwarded.\<close>

theorem decision_fails_closed:
  "(let d = evaluate E H (policy_compile E H p) c in
      (decision_allowed d \<longleftrightarrow> list_all (rule_says E c False) (policy_deny p) \<and> list_ex (rule_says E c True) (policy_allow p))
      \<and> (decision_forward d \<longleftrightarrow> decision_allowed d \<or> policy_mode_of p = DryRun)
      \<and> decision_refusal d = (if decision_allowed d then None else Some (refusal_for_context c))
      \<and> (decision_source d = SourceDeny \<longleftrightarrow> list_ex (\<lambda>src. \<not> rule_says E c False src) (policy_deny p))
      \<and> (decision_source d = SourceAllow \<longleftrightarrow> decision_allowed d)
      \<and> decision_matched d = (if decision_source d = SourceDeny
          then find (\<lambda>src. \<not> rule_says E c False src) (policy_deny p) else find (rule_says E c True) (policy_allow p))
      \<and> decision_mode d = policy_mode_of p \<and> decision_version d = version_of H p)
   \<and> (let d = evaluate E H Unconfigured c in
      \<not> decision_allowed d \<and> \<not> decision_forward d \<and> decision_refusal d = Some (refusal_for_context c)
      \<and> decision_source d = SourceDefault \<and> decision_matched d = None \<and> decision_version d = version_unconfigured H)"
proof -
  have "list_ex (\<lambda>src. \<not> rule_says E c False src) (policy_deny p) \<longleftrightarrow> \<not> list_all (rule_says E c False) (policy_deny p)"
    by (auto simp: list_all_iff list_ex_iff)
  then have deny: "list_ex (\<lambda>src. \<not> rule_says E c False src) (policy_deny p) \<longleftrightarrow> deny_hit E p c \<noteq> None"
    "list_all (rule_says E c False) (policy_deny p) \<longleftrightarrow> deny_hit E p c = None" by (simp_all add: deny_hit_none)
  show ?thesis
    unfolding evaluate_compiled deny allow_hit_some [symmetric] deny_hit_def [symmetric] allow_hit_def [symmetric] Let_def
    by (auto simp: evaluate_def)
qed

section \<open>The preflight is sound\<close>

definition candidate_kind :: "'p cel_engine \<Rightarrow> string \<Rightarrow> policy_context \<Rightarrow> result_kind" where
  "candidate_kind E src c = class_kind (rule_evaluate E (rule_compile E src) c)"

text \<open>What the engine that produced the oracle answers decided.\<close>

definition oracle_allows :: "(string \<Rightarrow> policy_context \<Rightarrow> result_kind) \<Rightarrow> action_policy \<Rightarrow> policy_context \<Rightarrow> bool" where
  "oracle_allows oracle p c \<longleftrightarrow>
     (\<forall>src\<in>set (policy_deny p). \<not> kind_denies (oracle src c)) \<and> (\<exists>src\<in>set (policy_allow p). kind_permits (oracle src c))"

definition case_divergence :: "'p cel_engine \<Rightarrow> preflight_case \<Rightarrow> divergence" where
  "case_divergence E k =
     (let candidate = candidate_kind E (case_expression k) (case_context k) in
      \<lparr>div_entry_id = case_entry_id k, div_expression = case_expression k, div_context_name = case_context_name k,
       div_oracle = case_oracle k, div_candidate = candidate, div_deny_side = on_deny_list (case_oracle k) candidate,
       div_allow_side = on_allow_list (case_oracle k) candidate\<rparr>)"

lemma preflight_run_divergences:
  "divergences (preflight_run E cases)
   = map (case_divergence E) (filter (\<lambda>k. candidate_kind E (case_expression k) (case_context k) \<noteq> case_oracle k) cases)"
proof -
  let ?f = "\<lambda>report k. preflight_record report (case_entry_id k) (case_expression k) (case_context_name k) (case_oracle k)
      (class_kind (rule_evaluate E (rule_compile E (case_expression k)) (case_context k)))"
  have "divergences (foldl ?f report cases) = divergences report
      @ map (case_divergence E) (filter (\<lambda>k. candidate_kind E (case_expression k) (case_context k) \<noteq> case_oracle k) cases)"
    for report
  proof (induction cases arbitrary: report)
    case (Cons k cases)
    then show ?case
      by (simp add: preflight_record_def candidate_kind_def [symmetric] case_divergence_def Let_def)
  qed simp
  then show ?thesis by (simp add: preflight_run_def)
qed

lemma not_loosened_case:
  assumes "\<not> would_loosen (preflight_run E cases)" "k \<in> set cases"
  shows "(kind_denies (case_oracle k) \<longrightarrow> kind_denies (candidate_kind E (case_expression k) (case_context k)))
    \<and> (kind_permits (candidate_kind E (case_expression k) (case_context k)) \<longrightarrow> kind_permits (case_oracle k))"
proof (cases "candidate_kind E (case_expression k) (case_context k) = case_oracle k")
  case False
  with assms have "\<not> divergence_loosens (case_divergence E k)"
    by (auto simp: would_loosen_def preflight_run_divergences list_ex_iff)
  then show ?thesis
    by (cases "kind_denies (case_oracle k)"; cases "kind_denies (candidate_kind E (case_expression k) (case_context k))";
        cases "kind_permits (case_oracle k)"; cases "kind_permits (candidate_kind E (case_expression k) (case_context k))")
      (simp_all add: divergence_loosens_def case_divergence_def Let_def on_deny_list_def on_allow_list_def)
qed simp

text \<open>A preflight that reports no loosening divergence is sound: if its cases cover every rule of a
  policy on a set of contexts, with the answers of the engine the policy comes from, then on every
  such context the new engine allows nothing the old one refused.\<close>

theorem preflight_never_loosens:
  assumes "\<And>src c. src \<in> set (policy_deny pol) \<union> set (policy_allow pol) \<Longrightarrow> c \<in> contexts \<Longrightarrow>
      \<exists>k\<in>set cases. case_expression k = src \<and> case_context k = c \<and> case_oracle k = oracle src c"
    and "\<not> would_loosen (preflight_run E cases)" and "c \<in> contexts"
    and "decision_allowed (evaluate E H (policy_compile E H pol) c)"
  shows "oracle_allows oracle pol c"
proof -
  have same: "(kind_denies (oracle src c) \<longrightarrow> kind_denies (candidate_kind E src c))
      \<and> (kind_permits (candidate_kind E src c) \<longrightarrow> kind_permits (oracle src c))"
    if "src \<in> set (policy_deny pol) \<union> set (policy_allow pol)" for src
    using assms(1) [OF that assms(3)] not_loosened_case [OF assms(2)] by force
  from assms(4) have "\<forall>src\<in>set (policy_deny pol). rule_evaluate E (rule_compile E src) c = ClassFalse"
      and "\<exists>src\<in>set (policy_allow pol). rule_evaluate E (rule_compile E src) c = ClassTrue"
    by (auto simp: decision_fails_closed_iff policy_compile_def list_all_iff list_ex_iff)
  then have "\<forall>src\<in>set (policy_deny pol). \<not> kind_denies (candidate_kind E src c)"
      and "\<exists>src\<in>set (policy_allow pol). kind_permits (candidate_kind E src c)"
    by (auto simp: candidate_kind_def kind_denies_def kind_permits_def intro!: bexI)
  with same show ?thesis unfolding oracle_allows_def by blast
qed

definition example_engine :: "string cel_engine" where
  "example_engine = \<lparr>cel_compile = Some, cel_execute = (\<lambda>p c. Ok (VBool (p = ''yes'')))\<rparr>"

definition example_context :: policy_context where
  "example_context = \<lparr>ctx_tool_name = ''t'', ctx_bot_id = ''b'', ctx_page = \<lparr>page_url = [], page_host = []\<rparr>,
     ctx_actor_id = ''a'', ctx_element = None, ctx_key = None, ctx_intent = None, ctx_file = None, ctx_mcp = None,
     ctx_command = None\<rparr>"

definition example_case :: "string \<Rightarrow> result_kind \<Rightarrow> preflight_case" where
  "example_case src k = \<lparr>case_entry_id = ''e'', case_expression = src, case_context_name = ''c'',
     case_context = example_context, case_oracle = k\<rparr>"

theorem preflight_never_loosens_witness:
  "decision_allowed (evaluate example_engine (\<lambda>_. 0) (policy_compile example_engine (\<lambda>_. 0)
       \<lparr>policy_mode_of = Enforce, policy_deny = [''no''], policy_allow = [''yes'']\<rparr>) example_context)
   \<and> oracle_allows (\<lambda>src c. if src = ''yes'' then KindTrue else KindFalse)
       \<lparr>policy_mode_of = Enforce, policy_deny = [''no''], policy_allow = [''yes'']\<rparr> example_context"
proof -
  let ?pol = "\<lparr>policy_mode_of = Enforce, policy_deny = [''no''], policy_allow = [''yes'']\<rparr>"
  let ?cases = "[example_case ''no'' KindFalse, example_case ''yes'' KindTrue]"
  let ?answers = "\<lambda>(src::string) (c::policy_context). if src = ''yes'' then KindTrue else KindFalse"
  have guards: "guard_check ''no'' = Ok 0" "guard_check ''yes'' = Ok 0"
    using guard_check_plain [of "''no''"] guard_check_plain [of "''yes''"]
    by (simp_all add: is_quote_def max_expression_bytes_def next_depth_def is_opening_def is_closing_def)
  have rules: "rule_evaluate example_engine (rule_compile example_engine ''no'') c = ClassFalse"
      "rule_evaluate example_engine (rule_compile example_engine ''yes'') c = ClassTrue" for c
    by (simp_all add: rule_evaluate_def rule_compile_def compile_def guards example_engine_def expression_evaluate_def)
  have covers: "\<exists>k\<in>set ?cases. case_expression k = src \<and> case_context k = c \<and> case_oracle k = ?answers src c"
    if "src \<in> set (policy_deny ?pol) \<union> set (policy_allow ?pol)" "c \<in> {example_context}" for src c
    using that by (auto simp: example_case_def)
  have quiet: "\<not> would_loosen (preflight_run example_engine ?cases)"
    by (simp add: would_loosen_def preflight_run_divergences candidate_kind_def example_case_def rules)
  have allowed: "decision_allowed (evaluate example_engine (\<lambda>_. 0) (policy_compile example_engine (\<lambda>_. 0) ?pol) example_context)"
    by (simp add: decision_fails_closed_iff policy_compile_def rules)
  have "example_context \<in> {example_context}" by simp
  from preflight_never_loosens [OF covers quiet this allowed] allowed show ?thesis by blast
qed

end
