(* ===== verification/BackupInventory.thy ===== *)
theory BackupInventory
  imports StdModel VaultBinding "HOL-Library.Sublist" "HOL-Library.Multiset"
begin

text \<open>
  The inventory of a backup, \<open>crates/openbot-domain/src/backup/inventory.rs\<close>: an untrusted claim is
  checked against fixed bounds and becomes an \<open>inventory_checked\<close>. The lemmas say exactly which claims
  are accepted, show that the order of the entries does not matter, and that the accepted paths stay
  below the directory they are restored into without colliding.
\<close>

section \<open>Bounds and faults\<close>

record inventory_bounds =
  bnd_max_entries :: u32
  bnd_max_path_bytes :: u16
  bnd_max_path_depth :: u8
  bnd_max_entry_bytes :: u64
  bnd_max_total_bytes :: u64
  bnd_max_id_bytes :: u16
  bnd_max_receipts :: u32

datatype inventory_fault =
    BoundsInvalid
  | IdentityInvalid
  | PathInvalid
  | SecretMaterialForbidden
  | DuplicateId
  | DuplicatePath
  | PrefixOrAliasConflict
  | LengthOutOfBounds
  | CountOutOfBounds
  | AccumulatedOverflow
  | BundleMismatch
  | DatasetMismatch
  | BarrierMismatch
  | DirectoryLength
  | CrossReferenceMismatch
  | MaterialShapeInvalid
  | ReceiptCategoryMismatch
  | EmptyCategoryInconsistent

definition bounds_standard :: inventory_bounds where
  "bounds_standard =
     \<lparr>bnd_max_entries = 4096, bnd_max_path_bytes = 255, bnd_max_path_depth = 8,
      bnd_max_entry_bytes = 64 * 1024 * 1024, bnd_max_total_bytes = 4 * 1024 * 1024 * 1024,
      bnd_max_id_bytes = 128, bnd_max_receipts = 8192\<rparr>"

definition bounds_try_new ::
  "u32 \<Rightarrow> u16 \<Rightarrow> u8 \<Rightarrow> u64 \<Rightarrow> u64 \<Rightarrow> u16 \<Rightarrow> u32 \<Rightarrow> (inventory_fault, inventory_bounds) result" where
  "bounds_try_new max_entries max_path_bytes max_path_depth max_entry_bytes max_total_bytes max_id_bytes max_receipts =
     (if max_entries = 0 \<or> max_path_bytes = 0 \<or> max_path_depth = 0 \<or> max_entry_bytes = 0
         \<or> max_total_bytes = 0 \<or> max_id_bytes = 0 \<or> max_receipts = 0
      then Err BoundsInvalid
      else Ok \<lparr>bnd_max_entries = max_entries, bnd_max_path_bytes = max_path_bytes,
        bnd_max_path_depth = max_path_depth, bnd_max_entry_bytes = max_entry_bytes,
        bnd_max_total_bytes = max_total_bytes, bnd_max_id_bytes = max_id_bytes, bnd_max_receipts = max_receipts\<rparr>)"

section \<open>Claims\<close>

datatype material_kind =
    BundleManifest | PostgresBase | WalSegment | PostgresConfig | SchemaChecksum | MigrationChecksum
  | KeyWrappingObject | ProfileInventory | WorkspaceInventory | CompatibilityRecord | AuditCheckpointObject

fun material_kind_str :: "material_kind \<Rightarrow> string" where
  "material_kind_str BundleManifest = ''bundle_manifest''"
| "material_kind_str PostgresBase = ''postgres_base''"
| "material_kind_str WalSegment = ''wal_segment''"
| "material_kind_str PostgresConfig = ''postgres_config''"
| "material_kind_str SchemaChecksum = ''schema_checksum''"
| "material_kind_str MigrationChecksum = ''migration_checksum''"
| "material_kind_str KeyWrappingObject = ''key_wrapping_object''"
| "material_kind_str ProfileInventory = ''profile_inventory''"
| "material_kind_str WorkspaceInventory = ''workspace_inventory''"
| "material_kind_str CompatibilityRecord = ''compatibility_record''"
| "material_kind_str AuditCheckpointObject = ''audit_checkpoint''"

definition empty_may_be_explained :: "material_kind \<Rightarrow> bool" where
  "empty_may_be_explained k \<longleftrightarrow> k = ProfileInventory \<or> k = WorkspaceInventory"

datatype empty_reason = DatasetContainsNoProfiles | DatasetContainsNoWorkspaces

record empty_category_claim =
  empty_kind :: material_kind
  empty_because :: empty_reason

record bundle_identity =
  bundle_id :: string
  format_version :: u32

datatype dataset_identity = DatasetIdentity (dataset_id: string)
datatype installation_identity = InstallationIdentity (installation_id: string)
datatype barrier_identity = BarrierIdentity (barrier_id: string)
datatype material_id = MaterialId (material_id_str: string)
datatype relative_path = RelativePath (relative_path_str: string)

record material_claim =
  claim_id :: material_id
  claim_kind :: material_kind
  claim_path :: string
  claim_directory :: bool
  claim_bytes :: u64
  claim_digest :: digest
  claim_bundle :: string
  claim_dataset :: string
  claim_barrier :: string

record vault_key_ref =
  ref_key_id :: string
  ref_key_version :: key_version
  ref_canary :: digest

record wrapping_ref =
  wrap_key :: vault_key_ref
  wrap_object :: material_id

datatype key_binding =
    RecoveryWrapped (wrapping_refs: "wrapping_ref list")
  | SameInstallationOsStoreOnly (key_refs: "vault_key_ref list")

record scram_relation =
  relation_id :: string
  bound_to_original_os_store :: bool

record audit_reference =
  audit_material :: material_id
  audit_head_digest :: digest
  audit_event_count :: u64

record component_rev =
  comp_name :: string
  comp_epoch :: u32
  comp_digest :: digest

record compatibility_set =
  compat_application :: component_rev
  compat_postgres :: component_rev
  compat_engine :: component_rev
  compat_ui :: component_rev

record receipt_claim =
  receipt_id :: string
  receipt_unknown :: bool

record receipt_set_claim =
  claimed_committed :: "receipt_claim list"
  claimed_unknown :: "receipt_claim list"
  claimed_tool :: "receipt_claim list"

record inventory_claim =
  inv_bundle :: bundle_identity
  inv_dataset :: dataset_identity
  inv_deployment :: string
  inv_tenant :: string
  inv_installation :: installation_identity
  inv_barrier :: barrier_identity
  inv_key_binding :: key_binding
  inv_scram :: scram_relation
  inv_audit :: audit_reference
  inv_compatibility :: compatibility_set
  inv_materials :: "material_claim list"
  inv_empty :: "empty_category_claim list"
  inv_receipts :: receipt_set_claim

section \<open>Checked values\<close>

record checked_material =
  chk_id :: material_id
  chk_kind :: material_kind
  chk_path :: relative_path
  chk_directory :: bool
  chk_bytes :: u64
  chk_digest :: digest

record checked_receipts =
  rcp_committed :: "string list"
  rcp_unknown :: "string list"
  rcp_tool :: "string list"

record inventory_checked =
  chk_bundle :: bundle_identity
  chk_dataset :: dataset_identity
  chk_deployment :: string
  chk_tenant :: string
  chk_installation :: installation_identity
  chk_barrier :: barrier_identity
  chk_key_binding :: key_binding
  chk_scram :: scram_relation
  chk_audit :: audit_reference
  chk_compatibility :: compatibility_set
  chk_materials :: "checked_material list"
  chk_receipts :: checked_receipts
  chk_total_bytes :: u64
  chk_explained_empty :: "empty_category_claim list"

definition same_installation_only :: "inventory_checked \<Rightarrow> bool" where
  "same_installation_only inventory \<longleftrightarrow>
     (case chk_key_binding inventory of SameInstallationOsStoreOnly _ \<Rightarrow> True | RecoveryWrapped _ \<Rightarrow> False)"

section \<open>Checks of one value\<close>

definition validate_identity :: "string \<Rightarrow> inventory_bounds \<Rightarrow> (inventory_fault, unit) result" where
  "validate_identity value bounds =
     (if value = [] \<or> length value > unat (bnd_max_id_bytes bounds) then Err IdentityInvalid
      else if list_ex (\<lambda>b. b = CHR 0x00 \<or> b = CHR ''/'' \<or> b = CHR 0x5C \<or> b = CHR '':'') value
      then Err IdentityInvalid
      else Ok ())"

definition fold_ascii :: "string \<Rightarrow> string" where
  "fold_ascii value = map to_ascii_lower value"

definition reject_secret_token :: "string \<Rightarrow> (inventory_fault, unit) result" where
  "reject_secret_token value =
     (let folded = fold_ascii value in
      if contains_str folded ''password'' \<or> contains_str folded ''secret'' \<or> contains_str folded ''master-key''
         \<or> contains_str folded ''master_key'' \<or> contains_str folded ''recovery-key''
         \<or> contains_str folded ''recovery_key'' \<or> contains_str folded ''scram-hash''
      then Err SecretMaterialForbidden
      else Ok ())"

definition reject_secret_path :: "string \<Rightarrow> (inventory_fault, unit) result" where
  "reject_secret_path path =
     and_then (reject_secret_token path) (\<lambda>_.
       let last_part = last (split_char (CHR ''/'') path) in
       if fold_ascii last_part = ''password.txt'' then Err SecretMaterialForbidden else Ok ())"

text \<open>The loop over the parts of a path, with the index of the part and the depth so far.\<close>

fun path_loop :: "inventory_bounds \<Rightarrow> nat \<Rightarrow> u8 \<Rightarrow> string list \<Rightarrow> (inventory_fault, unit) result" where
  "path_loop bounds index depth [] = Ok ()"
| "path_loop bounds index depth (part # parts) =
     (if part = [] \<or> part = ''.'' \<or> part = ''..'' then Err PathInvalid
      else if index = 0 \<and> length part \<ge> 2 \<and> part ! 1 = CHR '':'' then Err PathInvalid
      else case checked_add depth 1 of
        None \<Rightarrow> Err AccumulatedOverflow
      | Some depth' \<Rightarrow>
          if depth' > bnd_max_path_depth bounds then Err PathInvalid
          else path_loop bounds (index + 1) depth' parts)"

definition parse_relative_path :: "string \<Rightarrow> inventory_bounds \<Rightarrow> (inventory_fault, relative_path) result" where
  "parse_relative_path raw bounds =
     (if raw = [] \<or> length raw > unat (bnd_max_path_bytes bounds) then Err PathInvalid
      else if starts_with raw ''/'' \<or> starts_with raw [CHR 0x5C] then Err PathInvalid
      else if CHR 0x00 \<in> set raw \<or> CHR 0x5C \<in> set raw then Err PathInvalid
      else and_then (path_loop bounds 0 0 (split_char (CHR ''/'') raw)) (\<lambda>_. Ok (RelativePath raw)))"

definition prefix_conflict :: "string \<Rightarrow> bool \<Rightarrow> string \<Rightarrow> bool \<Rightarrow> bool" where
  "prefix_conflict left left_dir right right_dir =
     (if left = right then True
      else
        let left_prefix = (if left_dir then left @ ''/'' else []);
            right_prefix = (if right_dir then right @ ''/'' else []) in
        (left_prefix \<noteq> [] \<and> starts_with right left_prefix)
        \<or> (right_prefix \<noteq> [] \<and> starts_with left right_prefix)
        \<or> (\<not> left_dir \<and> starts_with right (left @ ''/''))
        \<or> (\<not> right_dir \<and> starts_with left (right @ ''/'')))"

section \<open>Receipts\<close>

text \<open>One of the three buckets; \<open>seen\<close> and \<open>count\<close> run on from one bucket to the next.\<close>

fun receipt_loop ::
  "inventory_bounds \<Rightarrow> bool \<Rightarrow> string set \<Rightarrow> u32 \<Rightarrow> string list \<Rightarrow> receipt_claim list
     \<Rightarrow> (inventory_fault, string set \<times> u32 \<times> string list) result" where
  "receipt_loop bounds expect_unknown seen tally bucket [] = Ok (seen, tally, bucket)"
| "receipt_loop bounds expect_unknown seen tally bucket (item # items) =
     (case checked_add tally 1 of
        None \<Rightarrow> Err AccumulatedOverflow
      | Some tally' \<Rightarrow>
          if tally' > bnd_max_receipts bounds then Err CountOutOfBounds
          else and_then (validate_identity (receipt_id item) bounds) (\<lambda>_.
            if receipt_unknown item \<noteq> expect_unknown then Err ReceiptCategoryMismatch
            else if receipt_id item \<in> seen then Err DuplicateId
            else receipt_loop bounds expect_unknown (insert (receipt_id item) seen) tally'
                   (bucket @ [receipt_id item]) items))"

definition check_receipts :: "receipt_set_claim \<Rightarrow> inventory_bounds \<Rightarrow> (inventory_fault, checked_receipts) result" where
  "check_receipts claim bounds =
     and_then (receipt_loop bounds False {} 0 [] (claimed_committed claim)) (\<lambda>(seen1, count1, committed).
     and_then (receipt_loop bounds True seen1 count1 [] (claimed_unknown claim)) (\<lambda>(seen2, count2, unknown).
     and_then (receipt_loop bounds False seen2 count2 [] (claimed_tool claim)) (\<lambda>(seen3, count3, tool).
       Ok \<lparr>rcp_committed = committed, rcp_unknown = unknown, rcp_tool = tool\<rparr>)))"

section \<open>Materials\<close>

text \<open>The variables of the loop in \<open>check_materials\<close>, and one turn of it.\<close>

record material_scan =
  scan_count :: u32
  scan_total :: u64
  scan_ids :: "string set"
  scan_paths :: "(string \<times> bool) list"
  scan_folded :: "string set"
  scan_checked :: "checked_material list"

definition material_step ::
  "inventory_claim \<Rightarrow> inventory_bounds \<Rightarrow> material_scan \<Rightarrow> material_claim \<Rightarrow> (inventory_fault, material_scan) result" where
  "material_step claim bounds st item =
     and_then (ok_or AccumulatedOverflow (checked_add (scan_count st) 1)) (\<lambda>tally.
     if tally > bnd_max_entries bounds then Err CountOutOfBounds
     else and_then (validate_identity (material_id_str (claim_id item)) bounds) (\<lambda>_.
     if material_id_str (claim_id item) \<in> scan_ids st then Err DuplicateId
     else and_then (reject_secret_token (material_id_str (claim_id item))) (\<lambda>_.
     and_then (reject_secret_path (claim_path item)) (\<lambda>_.
     and_then (parse_relative_path (claim_path item) bounds) (\<lambda>path.
     if claim_bundle item \<noteq> bundle_id (inv_bundle claim) then Err BundleMismatch
     else if claim_dataset item \<noteq> dataset_id (inv_dataset claim) then Err DatasetMismatch
     else if claim_barrier item \<noteq> barrier_id (inv_barrier claim) then Err BarrierMismatch
     else if claim_directory item \<and> claim_bytes item \<noteq> 0 then Err DirectoryLength
     else if \<not> claim_directory item \<and> claim_bytes item > bnd_max_entry_bytes bounds then Err LengthOutOfBounds
     else and_then (ok_or AccumulatedOverflow (checked_add (scan_total st) (claim_bytes item))) (\<lambda>total.
     if total > bnd_max_total_bytes bounds then Err LengthOutOfBounds
     else if relative_path_str path \<in> set (map fst (scan_paths st)) then Err DuplicatePath
     else
       let folded_key = fold_ascii (relative_path_str path) in
       if folded_key \<in> scan_folded st then Err PrefixOrAliasConflict
       else if list_ex (\<lambda>(existing, is_dir).
              prefix_conflict (relative_path_str path) (claim_directory item) existing is_dir) (scan_paths st)
       then Err PrefixOrAliasConflict
       else Ok \<lparr>scan_count = tally, scan_total = total,
         scan_ids = insert (material_id_str (claim_id item)) (scan_ids st),
         scan_paths = fst (bt_insert (relative_path_str path) (claim_directory item) (scan_paths st)),
         scan_folded = insert folded_key (scan_folded st),
         scan_checked = scan_checked st @
           [\<lparr>chk_id = claim_id item, chk_kind = claim_kind item, chk_path = path,
             chk_directory = claim_directory item, chk_bytes = claim_bytes item, chk_digest = claim_digest item\<rparr>]\<rparr>))))))"

definition scan_start :: material_scan where
  "scan_start = \<lparr>scan_count = 0, scan_total = 0, scan_ids = {}, scan_paths = [], scan_folded = {}, scan_checked = []\<rparr>"

definition check_materials ::
  "inventory_claim \<Rightarrow> inventory_bounds \<Rightarrow> (inventory_fault, checked_material list \<times> u64) result" where
  "check_materials claim bounds =
     and_then (try_fold (material_step claim bounds) scan_start (inv_materials claim)) (\<lambda>st.
       Ok (scan_checked st, scan_total st))"

section \<open>Cross references\<close>

fun wrapping_loop ::
  "checked_material list \<Rightarrow> inventory_bounds \<Rightarrow> string set \<Rightarrow> wrapping_ref list \<Rightarrow> (inventory_fault, unit) result" where
  "wrapping_loop materials bounds seen [] = Ok ()"
| "wrapping_loop materials bounds seen (wrap # wraps) =
     and_then (checks
       [validate_identity (ref_key_id (wrap_key wrap)) bounds,
        validate_identity (material_id_str (wrap_object wrap)) bounds,
        reject_secret_token (ref_key_id (wrap_key wrap))]) (\<lambda>_.
     if material_id_str (wrap_object wrap) \<in> seen then Err DuplicateId
     else
       case find (\<lambda>item. chk_id item = wrap_object wrap) materials of
         None \<Rightarrow> wrapping_loop materials bounds (insert (material_id_str (wrap_object wrap)) seen) wraps
       | Some found \<Rightarrow>
           if chk_kind found \<noteq> KeyWrappingObject then Err CrossReferenceMismatch
           else if chk_directory found then Err MaterialShapeInvalid
           else wrapping_loop materials bounds (insert (material_id_str (wrap_object wrap)) seen) wraps)"

definition check_key_binding_structure ::
  "key_binding \<Rightarrow> checked_material list \<Rightarrow> inventory_bounds \<Rightarrow> (inventory_fault, unit) result" where
  "check_key_binding_structure binding materials bounds =
     (case binding of
        RecoveryWrapped refs \<Rightarrow>
          if length refs > unat (bnd_max_entries bounds) then Err CountOutOfBounds
          else wrapping_loop materials bounds {} refs
      | SameInstallationOsStoreOnly refs \<Rightarrow>
          if length refs > unat (bnd_max_entries bounds) then Err CountOutOfBounds
          else checks (concat (map (\<lambda>key.
            [validate_identity (ref_key_id key) bounds, reject_secret_token (ref_key_id key)]) refs)))"

definition check_audit_reference :: "audit_reference \<Rightarrow> checked_material list \<Rightarrow> (inventory_fault, unit) result" where
  "check_audit_reference audit materials =
     (case find (\<lambda>item. chk_id item = audit_material audit) materials of
        Some found \<Rightarrow>
          if chk_kind found \<noteq> AuditCheckpointObject then Err CrossReferenceMismatch
          else if chk_directory found then Err MaterialShapeInvalid
          else Ok ()
      | None \<Rightarrow> Ok ())"

definition check_compatibility :: "compatibility_set \<Rightarrow> inventory_bounds \<Rightarrow> (inventory_fault, unit) result" where
  "check_compatibility s bounds =
     checks (map (\<lambda>rev. validate_identity (comp_name rev) bounds)
       [compat_application s, compat_postgres s, compat_engine s, compat_ui s])"

definition max_empty_categories :: u32 where
  "max_empty_categories = 8"

fun empty_loop ::
  "checked_material list \<Rightarrow> material_kind set \<Rightarrow> empty_category_claim list \<Rightarrow> empty_category_claim list
     \<Rightarrow> (inventory_fault, empty_category_claim list) result" where
  "empty_loop materials seen explained [] = Ok explained"
| "empty_loop materials seen explained (item # items) =
     (if \<not> empty_may_be_explained (empty_kind item) then Err EmptyCategoryInconsistent
      else if empty_kind item \<in> seen then Err EmptyCategoryInconsistent
      else if list_ex (\<lambda>material. chk_kind material = empty_kind item) materials then Err EmptyCategoryInconsistent
      else empty_loop materials (insert (empty_kind item) seen) (explained @ [item]) items)"

definition check_empty_categories ::
  "empty_category_claim list \<Rightarrow> checked_material list \<Rightarrow> inventory_bounds
     \<Rightarrow> (inventory_fault, empty_category_claim list) result" where
  "check_empty_categories claims materials bounds =
     (let limit = min (bnd_max_entries bounds) max_empty_categories in
      if length claims > unat limit then Err CountOutOfBounds
      else empty_loop materials {} [] claims)"

section \<open>The whole check\<close>

definition check_inventory :: "inventory_claim \<Rightarrow> inventory_bounds \<Rightarrow> (inventory_fault, inventory_checked) result" where
  "check_inventory claim bounds =
     and_then (checks
       [validate_identity (bundle_id (inv_bundle claim)) bounds,
        validate_identity (dataset_id (inv_dataset claim)) bounds,
        validate_identity (inv_deployment claim) bounds,
        validate_identity (inv_tenant claim) bounds,
        validate_identity (installation_id (inv_installation claim)) bounds,
        validate_identity (barrier_id (inv_barrier claim)) bounds,
        validate_identity (relation_id (inv_scram claim)) bounds,
        validate_identity (material_id_str (audit_material (inv_audit claim))) bounds,
        reject_secret_token (bundle_id (inv_bundle claim)),
        reject_secret_token (dataset_id (inv_dataset claim)),
        reject_secret_token (relation_id (inv_scram claim)),
        check_compatibility (inv_compatibility claim) bounds]) (\<lambda>_.
     and_then (check_receipts (inv_receipts claim) bounds) (\<lambda>receipts.
     and_then (check_materials claim bounds) (\<lambda>(materials, total_declared_bytes).
     and_then (checks
       [check_key_binding_structure (inv_key_binding claim) materials bounds,
        check_audit_reference (inv_audit claim) materials]) (\<lambda>_.
     and_then (check_empty_categories (inv_empty claim) materials bounds) (\<lambda>explained_empty.
       Ok \<lparr>chk_bundle = inv_bundle claim, chk_dataset = inv_dataset claim,
         chk_deployment = inv_deployment claim, chk_tenant = inv_tenant claim,
         chk_installation = inv_installation claim, chk_barrier = inv_barrier claim,
         chk_key_binding = inv_key_binding claim, chk_scram = inv_scram claim, chk_audit = inv_audit claim,
         chk_compatibility = inv_compatibility claim, chk_materials = materials, chk_receipts = receipts,
         chk_total_bytes = total_declared_bytes, chk_explained_empty = explained_empty\<rparr>)))))"

section \<open>What the single checks accept\<close>

abbreviation components :: "string \<Rightarrow> string list" where
  "components \<equiv> split_char (CHR ''/'')"

definition plain_id :: "inventory_bounds \<Rightarrow> string \<Rightarrow> bool" where
  "plain_id bounds v \<longleftrightarrow> v \<noteq> [] \<and> length v \<le> unat (bnd_max_id_bytes bounds)
     \<and> set v \<inter> {CHR 0x00, CHR ''/'', CHR 0x5C, CHR '':''} = {}"

lemma validate_identity_ok: "validate_identity v bounds = Ok u \<longleftrightarrow> plain_id bounds v"
  by (auto simp: validate_identity_def plain_id_def list_ex_iff not_less)

definition secret_words :: "string list" where
  "secret_words = [''password'', ''secret'', ''master-key'', ''master_key'', ''recovery-key'', ''recovery_key'', ''scram-hash'']"

text \<open>No secret word occurs, in whatever mix of upper and lower case.\<close>

definition secret_free :: "string \<Rightarrow> bool" where
  "secret_free v \<longleftrightarrow> (\<forall>w\<in>set secret_words. \<nexists>before after. to_ascii_lowercase v = before @ w @ after)"

lemma fold_ascii_eq: "fold_ascii = to_ascii_lowercase"
  by (simp add: fun_eq_iff fold_ascii_def to_ascii_lowercase_def)

lemma reject_secret_token_ok: "reject_secret_token v = Ok u \<longleftrightarrow> secret_free v"
  by (simp add: reject_secret_token_def secret_free_def secret_words_def contains_str_iff Let_def fold_ascii_eq)

definition path_ok :: "inventory_bounds \<Rightarrow> string \<Rightarrow> bool" where
  "path_ok bounds p \<longleftrightarrow> length p \<le> unat (bnd_max_path_bytes bounds) \<and> CHR 0x00 \<notin> set p \<and> CHR 0x5C \<notin> set p
     \<and> (\<forall>part\<in>set (components p). part \<noteq> [] \<and> part \<noteq> ''.'' \<and> part \<noteq> ''..'')
     \<and> \<not> (length (hd (components p)) \<ge> 2 \<and> hd (components p) ! 1 = CHR '':'')
     \<and> length (components p) \<le> unat (bnd_max_path_depth bounds)"

lemma path_loop_ok:
  "unat depth \<le> unat (bnd_max_path_depth bounds) \<Longrightarrow>
   path_loop bounds index depth parts = Ok u \<longleftrightarrow>
     (\<forall>part\<in>set parts. part \<noteq> [] \<and> part \<noteq> ''.'' \<and> part \<noteq> ''..'')
     \<and> (index = 0 \<and> parts \<noteq> [] \<longrightarrow> \<not> (length (hd parts) \<ge> 2 \<and> hd parts ! 1 = CHR '':''))
     \<and> unat depth + length parts \<le> unat (bnd_max_path_depth bounds)"
proof (induction bounds index depth parts rule: path_loop.induct)
  case (2 bounds index depth part parts)
  show ?case
  proof (cases "checked_add depth 1")
    case None
    then have "2 ^ 8 \<le> unat depth + 1" by (simp add: checked_add_none)
    moreover have "unat (bnd_max_path_depth bounds) < 2 ^ 8"
      using unsigned_less [of "bnd_max_path_depth bounds", where ?'a = nat] by (simp del: unsigned_less)
    ultimately show ?thesis using 2(2) None by auto
  next
    case (Some d)
    then have "unat d = unat depth + 1" by (simp add: checked_add_some)
    then show ?thesis using 2 Some by (auto simp: word_less_nat_alt)
  qed
qed simp

lemma no_components_empty: "[] \<notin> set (components p) \<Longrightarrow> p \<noteq> [] \<and> \<not> starts_with p ''/''"
  by (cases p) (auto simp: starts_with_def)

lemma parse_relative_path_ok:
  "parse_relative_path raw bounds = Ok p \<longleftrightarrow> path_ok bounds raw \<and> p = RelativePath raw"
proof -
  have slash: "\<forall>part\<in>set (components raw). part \<noteq> [] \<Longrightarrow> raw \<noteq> [] \<and> \<not> starts_with raw ''/''"
    using no_components_empty by blast
  have "CHR 0x5C \<notin> set raw \<Longrightarrow> \<not> starts_with raw [CHR 0x5C]"
    by (cases raw) (auto simp: starts_with_def)
  then show ?thesis
    using slash split_char_not_empty [of "CHR ''/''" raw]
    by (auto simp: parse_relative_path_def path_ok_def and_then_ok path_loop_ok not_less)
qed

definition secret_free_path :: "string \<Rightarrow> bool" where
  "secret_free_path p \<longleftrightarrow> secret_free p \<and> to_ascii_lowercase (last (components p)) \<noteq> ''password.txt''"

lemma reject_secret_path_ok: "reject_secret_path p = Ok u \<longleftrightarrow> secret_free_path p"
  by (auto simp: reject_secret_path_def secret_free_path_def and_then_ok reject_secret_token_ok Let_def fold_ascii_eq)

text \<open>The path conflict, whatever the two entries are: one path is the other or lies below it.\<close>

lemma prefix_conflict_components:
  "prefix_conflict l ld r rd \<longleftrightarrow> \<not> parallel (components l) (components r)"
proof -
  have below: "starts_with r (l @ ''/'') \<longleftrightarrow> strict_prefix (components l) (components r)" for l r
  proof
    assume "starts_with r (l @ ''/'')"
    then obtain rest where "r = l @ CHR ''/'' # rest" by (auto simp: starts_with_iff)
    then show "strict_prefix (components l) (components r)"
      using split_char_not_empty [of "CHR ''/''" rest] by (simp add: split_char_append_iff strict_prefix_def)
  next
    assume "strict_prefix (components l) (components r)"
    then obtain w ws where "components r = components l @ w # ws" by (auto elim: strict_prefixE')
    moreover from this have "\<forall>v\<in>set (w # ws). CHR ''/'' \<notin> set v"
      using split_char_not_in [of _ "CHR ''/''" r] by simp
    ultimately have "components r = components (l @ CHR ''/'' # join_char (CHR ''/'') (w # ws))"
      by (simp add: split_char_append_iff split_join_char)
    then show "starts_with r (l @ ''/'')" by (simp add: starts_with_iff split_char_inject)
  qed
  show ?thesis
    by (auto simp: prefix_conflict_def Let_def below parallel_def strict_prefix_def split_char_inject)
qed

section \<open>What the material loop accepts\<close>

definition material_fits :: "inventory_claim \<Rightarrow> inventory_bounds \<Rightarrow> material_claim \<Rightarrow> bool" where
  "material_fits claim bounds m \<longleftrightarrow>
     plain_id bounds (material_id_str (claim_id m)) \<and> secret_free (material_id_str (claim_id m))
     \<and> secret_free_path (claim_path m) \<and> path_ok bounds (claim_path m)
     \<and> claim_bundle m = bundle_id (inv_bundle claim) \<and> claim_dataset m = dataset_id (inv_dataset claim)
     \<and> claim_barrier m = barrier_id (inv_barrier claim)
     \<and> (if claim_directory m then claim_bytes m = 0 else claim_bytes m \<le> bnd_max_entry_bytes bounds)"

text \<open>Two paths that can lie in one tree: neither is at or below the other, and they differ in more than case.\<close>

definition compatible_paths :: "string \<Rightarrow> string \<Rightarrow> bool" where
  "compatible_paths p q \<longleftrightarrow> parallel (components p) (components q) \<and> to_ascii_lowercase p \<noteq> to_ascii_lowercase q"

definition declared_total :: "material_claim list \<Rightarrow> nat" where
  "declared_total ms = sum_list (map (unat \<circ> claim_bytes) ms)"

definition materials_fit :: "inventory_claim \<Rightarrow> inventory_bounds \<Rightarrow> material_claim list \<Rightarrow> bool" where
  "materials_fit claim bounds ms \<longleftrightarrow>
     (\<forall>m\<in>set ms. material_fits claim bounds m) \<and> distinct (map claim_id ms)
     \<and> sorted_wrt (\<lambda>m n. compatible_paths (claim_path m) (claim_path n)) ms
     \<and> length ms \<le> unat (bnd_max_entries bounds) \<and> declared_total ms \<le> unat (bnd_max_total_bytes bounds)"

definition checked_of :: "material_claim \<Rightarrow> checked_material" where
  "checked_of m = \<lparr>chk_id = claim_id m, chk_kind = claim_kind m, chk_path = RelativePath (claim_path m),
     chk_directory = claim_directory m, chk_bytes = claim_bytes m, chk_digest = claim_digest m\<rparr>"

definition paths_of :: "material_claim list \<Rightarrow> (string \<times> bool) list" where
  "paths_of ms = foldl (\<lambda>paths m. fst (bt_insert (claim_path m) (claim_directory m) paths)) [] ms"

definition scan_of :: "material_claim list \<Rightarrow> material_scan" where
  "scan_of ms =
     \<lparr>scan_count = of_nat (length ms), scan_total = of_nat (declared_total ms),
      scan_ids = material_id_str ` claim_id ` set ms, scan_paths = paths_of ms,
      scan_folded = to_ascii_lowercase ` claim_path ` set ms, scan_checked = map checked_of ms\<rparr>"

lemma paths_of_keys: "fst ` set (paths_of ms) = claim_path ` set ms"
proof (induction ms rule: rev_induct)
  case (snoc m ms)
  then show ?case
    using bt_insert_keys [of "claim_path m" "claim_directory m" "paths_of ms"] by (simp add: paths_of_def)
qed (simp add: paths_of_def)

lemma conflict_with_some:
  "list_ex (\<lambda>(existing, is_dir). prefix_conflict p d existing is_dir) (paths_of ms)
   \<longleftrightarrow> (\<exists>m\<in>set ms. \<not> parallel (components p) (components (claim_path m)))"
proof -
  have "list_ex (\<lambda>(existing, is_dir). prefix_conflict p d existing is_dir) (paths_of ms)
      \<longleftrightarrow> (\<exists>q\<in>fst ` set (paths_of ms). \<not> parallel (components p) (components q))"
    by (auto simp: list_ex_iff prefix_conflict_components split_beta)
  then show ?thesis by (simp add: paths_of_keys)
qed

lemma parallel_sym: "parallel xs ys \<longleftrightarrow> parallel ys xs"
  by (auto simp: parallel_def)

lemma declared_total_snoc: "declared_total (ms @ [m]) = declared_total ms + unat (claim_bytes m)"
  by (simp add: declared_total_def)

lemma materials_fit_snoc:
  "materials_fit claim bounds (ms @ [m]) \<longleftrightarrow> materials_fit claim bounds ms \<and> material_fits claim bounds m
     \<and> claim_id m \<notin> claim_id ` set ms \<and> (\<forall>n\<in>set ms. compatible_paths (claim_path m) (claim_path n))
     \<and> length ms + 1 \<le> unat (bnd_max_entries bounds)
     \<and> declared_total ms + unat (claim_bytes m) \<le> unat (bnd_max_total_bytes bounds)"
  by (auto simp: materials_fit_def sorted_wrt_append declared_total_snoc compatible_paths_def parallel_sym)

lemma material_id_eq: "material_id_str a = material_id_str b \<longleftrightarrow> a = b"
  by (cases a; cases b) simp

lemma material_step_ok:
  assumes "materials_fit claim bounds ms"
  shows "material_step claim bounds (scan_of ms) m = Ok st \<longleftrightarrow>
    materials_fit claim bounds (ms @ [m]) \<and> st = scan_of (ms @ [m])"
proof -
  have tally: "length ms \<le> unat (bnd_max_entries bounds)"
      and total: "declared_total ms \<le> unat (bnd_max_total_bytes bounds)"
    using assms by (simp_all add: materials_fit_def)
  have counts: "checked_add (scan_count (scan_of ms)) 1 = Some c \<and> c \<le> bnd_max_entries bounds
      \<longleftrightarrow> length ms + 1 \<le> unat (bnd_max_entries bounds) \<and> c = scan_count (scan_of (ms @ [m]))" for c
    using checked_add_within [OF tally, of 1 c] by (simp add: scan_of_def)
  have totals: "checked_add (scan_total (scan_of ms)) (claim_bytes m) = Some c \<and> c \<le> bnd_max_total_bytes bounds
      \<longleftrightarrow> declared_total ms + unat (claim_bytes m) \<le> unat (bnd_max_total_bytes bounds)
        \<and> c = scan_total (scan_of (ms @ [m]))" for c
    using checked_add_within [OF total, of "claim_bytes m" c] by (simp add: scan_of_def declared_total_snoc)
  have ids: "material_id_str (claim_id m) \<in> scan_ids (scan_of ms) \<longleftrightarrow> claim_id m \<in> claim_id ` set ms"
    by (auto simp: scan_of_def image_iff material_id_eq)
  have keys: "p \<in> set (map fst (scan_paths (scan_of ms))) \<longleftrightarrow> p \<in> claim_path ` set ms" for p
    by (simp add: scan_of_def paths_of_keys)
  have folded: "fold_ascii p \<in> scan_folded (scan_of ms) \<longleftrightarrow> to_ascii_lowercase p \<in> to_ascii_lowercase ` claim_path ` set ms" for p
    by (simp add: scan_of_def fold_ascii_eq)
  have conflict: "list_ex (\<lambda>(existing, is_dir). prefix_conflict p d existing is_dir) (scan_paths (scan_of ms))
      \<longleftrightarrow> (\<exists>n\<in>set ms. \<not> parallel (components p) (components (claim_path n)))" for p d
    using conflict_with_some by (simp add: scan_of_def)
  have next_scan: "scan_of (ms @ [m]) = \<lparr>scan_count = scan_count (scan_of (ms @ [m])),
      scan_total = scan_total (scan_of (ms @ [m])),
      scan_ids = insert (material_id_str (claim_id m)) (scan_ids (scan_of ms)),
      scan_paths = fst (bt_insert (claim_path m) (claim_directory m) (scan_paths (scan_of ms))),
      scan_folded = insert (fold_ascii (claim_path m)) (scan_folded (scan_of ms)),
      scan_checked = scan_checked (scan_of ms) @ [checked_of m]\<rparr>"
    by (simp add: scan_of_def paths_of_def fold_ascii_eq)
  have "material_step claim bounds (scan_of ms) m = Ok st \<longleftrightarrow>
      (\<exists>c t. (checked_add (scan_count (scan_of ms)) 1 = Some c \<and> c \<le> bnd_max_entries bounds)
        \<and> material_fits claim bounds m \<and> material_id_str (claim_id m) \<notin> scan_ids (scan_of ms)
        \<and> (checked_add (scan_total (scan_of ms)) (claim_bytes m) = Some t \<and> t \<le> bnd_max_total_bytes bounds)
        \<and> claim_path m \<notin> claim_path ` set ms
        \<and> to_ascii_lowercase (claim_path m) \<notin> to_ascii_lowercase ` claim_path ` set ms
        \<and> (\<forall>n\<in>set ms. parallel (components (claim_path m)) (components (claim_path n)))
        \<and> st = \<lparr>scan_count = c, scan_total = t,
            scan_ids = insert (material_id_str (claim_id m)) (scan_ids (scan_of ms)),
            scan_paths = fst (bt_insert (claim_path m) (claim_directory m) (scan_paths (scan_of ms))),
            scan_folded = insert (fold_ascii (claim_path m)) (scan_folded (scan_of ms)),
            scan_checked = scan_checked (scan_of ms) @ [checked_of m]\<rparr>)"
    unfolding material_step_def and_then_ok ok_or_ok keys folded conflict Let_def if_bool_eq_conj
    by (auto simp: and_then_ok ok_or_ok validate_identity_ok reject_secret_token_ok reject_secret_path_ok
        parse_relative_path_ok keys folded conflict material_fits_def checked_of_def not_less split: if_splits) blast
  also have "\<dots> \<longleftrightarrow> materials_fit claim bounds (ms @ [m]) \<and> st = scan_of (ms @ [m])"
    unfolding counts totals ids materials_fit_snoc
    using assms next_scan by (auto simp: compatible_paths_def image_iff)
  finally show ?thesis .
qed

lemma materials_fit_Nil: "materials_fit claim bounds []"
  by (simp add: materials_fit_def declared_total_def)

lemma materials_fit_append: "materials_fit claim bounds (ms @ ns) \<Longrightarrow> materials_fit claim bounds ms"
  by (induction ns rule: rev_induct) (auto simp: materials_fit_snoc simp flip: append_assoc)

lemma material_fold_ok:
  "materials_fit claim bounds ms \<Longrightarrow>
   try_fold (material_step claim bounds) (scan_of ms) ns = Ok st \<longleftrightarrow>
     materials_fit claim bounds (ms @ ns) \<and> st = scan_of (ms @ ns)"
proof (induction ns arbitrary: ms)
  case (Cons n ns)
  have "try_fold (material_step claim bounds) (scan_of ms) (n # ns) = Ok st \<longleftrightarrow>
      materials_fit claim bounds (ms @ [n])
      \<and> try_fold (material_step claim bounds) (scan_of (ms @ [n])) ns = Ok st"
    unfolding try_fold_Cons_ok material_step_ok [OF Cons.prems] by blast
  also have "\<dots> \<longleftrightarrow> materials_fit claim bounds (ms @ [n])
      \<and> materials_fit claim bounds ((ms @ [n]) @ ns) \<and> st = scan_of ((ms @ [n]) @ ns)"
    using Cons.IH by blast
  also have "\<dots> \<longleftrightarrow> materials_fit claim bounds ((ms @ [n]) @ ns) \<and> st = scan_of ((ms @ [n]) @ ns)"
    using materials_fit_append by blast
  finally show ?case by simp
qed auto

lemma check_materials_ok:
  "check_materials claim bounds = Ok (cs, n) \<longleftrightarrow> materials_fit claim bounds (inv_materials claim)
     \<and> cs = map checked_of (inv_materials claim) \<and> n = of_nat (declared_total (inv_materials claim))"
proof -
  have "scan_start = scan_of []"
    by (simp add: scan_start_def scan_of_def paths_of_def declared_total_def)
  then show ?thesis
    using material_fold_ok [OF materials_fit_Nil, of claim bounds "inv_materials claim"]
    by (auto simp: check_materials_def and_then_ok scan_of_def)
qed

section \<open>What the other checks accept\<close>

definition receipt_fits :: "inventory_bounds \<Rightarrow> bool \<Rightarrow> receipt_claim \<Rightarrow> bool" where
  "receipt_fits bounds expect_unknown r \<longleftrightarrow> plain_id bounds (receipt_id r) \<and> receipt_unknown r = expect_unknown"

lemma receipt_loop_ok:
  "n \<le> unat (bnd_max_receipts bounds) \<Longrightarrow>
   receipt_loop bounds ex seen (of_nat n) bucket items = Ok (seen', tally', bucket') \<longleftrightarrow>
     (\<forall>r\<in>set items. receipt_fits bounds ex r) \<and> distinct (map receipt_id items)
     \<and> seen \<inter> receipt_id ` set items = {} \<and> n + length items \<le> unat (bnd_max_receipts bounds)
     \<and> seen' = seen \<union> receipt_id ` set items \<and> tally' = of_nat (n + length items)
     \<and> bucket' = bucket @ map receipt_id items"
proof (induction items arbitrary: n seen bucket)
  case (Cons item items)
  show ?case
  proof (cases "n + 1 \<le> unat (bnd_max_receipts bounds)")
    case True
    define k :: u32 where "k = of_nat (n + 1)"
    have k: "checked_add (of_nat n) 1 = Some k" "k \<le> bnd_max_receipts bounds"
      using checked_add_within [OF Cons.prems, of 1 k] True by (simp_all add: k_def)
    show ?thesis
    proof (cases "receipt_fits bounds ex item \<and> receipt_id item \<notin> seen")
      case fits: True
      then have "validate_identity (receipt_id item) bounds = Ok ()"
        by (simp add: validate_identity_ok receipt_fits_def)
      with k fits have "receipt_loop bounds ex seen (of_nat n) bucket (item # items)
          = receipt_loop bounds ex (insert (receipt_id item) seen) k (bucket @ [receipt_id item]) items"
        by (simp add: receipt_fits_def flip: not_le)
      with Cons.IH [OF True] fits show ?thesis by (auto simp: k_def simp del: receipt_loop.simps)
    next
      case False
      with k have "\<not> receipt_loop bounds ex seen (of_nat n) bucket (item # items) = Ok (seen', tally', bucket')"
        by (auto simp: and_then_ok validate_identity_ok receipt_fits_def not_less)
      with False show ?thesis by auto
    qed
  next
    case False
    then have none: "\<not> (checked_add (of_nat n) 1 = Some c \<and> c \<le> bnd_max_receipts bounds)" for c
      using checked_add_within [OF Cons.prems, of 1 c] by simp
    have "\<not> receipt_loop bounds ex seen (of_nat n) bucket (item # items) = Ok (seen', tally', bucket')"
    proof (cases "checked_add (of_nat n) (1 :: u32)")
      case (Some c)
      with none [of c] have "bnd_max_receipts bounds < c" by simp
      with Some show ?thesis by simp
    qed simp
    with False show ?thesis by simp
  qed
qed auto

definition receipts_fit :: "inventory_bounds \<Rightarrow> receipt_set_claim \<Rightarrow> bool" where
  "receipts_fit bounds rs \<longleftrightarrow>
     (\<forall>r\<in>set (claimed_committed rs) \<union> set (claimed_tool rs). receipt_fits bounds False r)
     \<and> (\<forall>r\<in>set (claimed_unknown rs). receipt_fits bounds True r)
     \<and> distinct (map receipt_id (claimed_committed rs @ claimed_unknown rs @ claimed_tool rs))
     \<and> length (claimed_committed rs) + length (claimed_unknown rs) + length (claimed_tool rs)
        \<le> unat (bnd_max_receipts bounds)"

definition receipts_of :: "receipt_set_claim \<Rightarrow> checked_receipts" where
  "receipts_of rs = \<lparr>rcp_committed = map receipt_id (claimed_committed rs),
     rcp_unknown = map receipt_id (claimed_unknown rs), rcp_tool = map receipt_id (claimed_tool rs)\<rparr>"

lemma check_receipts_ok:
  "check_receipts rs bounds = Ok receipts \<longleftrightarrow> receipts_fit bounds rs \<and> receipts = receipts_of rs"
proof -
  let ?max = "unat (bnd_max_receipts bounds)"
  let ?c = "length (claimed_committed rs)" and ?u = "length (claimed_unknown rs)"
  have first: "receipt_loop bounds False {} 0 [] items = Ok (s, c, b) \<longleftrightarrow>
      (\<forall>r\<in>set items. receipt_fits bounds False r) \<and> distinct (map receipt_id items) \<and> length items \<le> ?max
      \<and> s = receipt_id ` set items \<and> c = of_nat (length items) \<and> b = map receipt_id items" for items s c b
    using receipt_loop_ok [of 0 bounds False "{}" "[]" items s c b] by auto
  show ?thesis
  proof (cases "?c + ?u \<le> ?max")
    case True
    then have "?c \<le> ?max" by simp
    with True show ?thesis
      by (auto simp: check_receipts_def and_then_ok first receipt_loop_ok receipts_fit_def receipts_of_def
          simp del: of_nat_add split: prod.splits)
  next
    case False
    then show ?thesis
      by (auto simp: check_receipts_def and_then_ok first receipt_loop_ok receipts_fit_def
          simp del: of_nat_add split: prod.splits)
  qed
qed

text \<open>A reference by id: every material of that id is a file of the kind.\<close>

definition refers_to :: "checked_material list \<Rightarrow> material_kind \<Rightarrow> material_id \<Rightarrow> bool" where
  "refers_to materials kind i \<longleftrightarrow>
     (\<forall>m\<in>set materials. chk_id m = i \<longrightarrow> chk_kind m = kind \<and> \<not> chk_directory m)"

lemma find_by_id:
  assumes "distinct (map chk_id ms)"
  shows "find (\<lambda>m. chk_id m = i) ms = Some m \<longleftrightarrow> m \<in> set ms \<and> chk_id m = i"
    and "find (\<lambda>m. chk_id m = i) ms = None \<longleftrightarrow> i \<notin> chk_id ` set ms"
proof -
  show "find (\<lambda>m. chk_id m = i) ms = Some m \<longleftrightarrow> m \<in> set ms \<and> chk_id m = i"
    using assms by (induction ms) (auto intro: rev_image_eqI)
  show "find (\<lambda>m. chk_id m = i) ms = None \<longleftrightarrow> i \<notin> chk_id ` set ms"
    by (auto simp: find_None_iff)
qed

lemma refers_to_find:
  assumes "distinct (map chk_id ms)"
  shows "refers_to ms kind i \<longleftrightarrow>
    (case find (\<lambda>m. chk_id m = i) ms of None \<Rightarrow> True | Some m \<Rightarrow> chk_kind m = kind \<and> \<not> chk_directory m)"
proof (cases "find (\<lambda>m. chk_id m = i) ms")
  case None
  then have "i \<notin> chk_id ` set ms" using find_by_id(2) [OF assms] by simp
  then have "refers_to ms kind i" unfolding refers_to_def by blast
  with None show ?thesis by simp
next
  case (Some m)
  then have m: "m \<in> set ms" "chk_id m = i" using find_by_id(1) [OF assms, of i m] by simp_all
  have "n = m" if "n \<in> set ms" "chk_id n = i" for n
    using find_by_id(1) [OF assms, of i n] that Some by simp
  with m have "refers_to ms kind i \<longleftrightarrow> chk_kind m = kind \<and> \<not> chk_directory m"
    unfolding refers_to_def by blast
  with Some show ?thesis by simp
qed

definition wrap_fits :: "checked_material list \<Rightarrow> inventory_bounds \<Rightarrow> wrapping_ref \<Rightarrow> bool" where
  "wrap_fits materials bounds w \<longleftrightarrow>
     plain_id bounds (ref_key_id (wrap_key w)) \<and> secret_free (ref_key_id (wrap_key w))
     \<and> plain_id bounds (material_id_str (wrap_object w)) \<and> refers_to materials KeyWrappingObject (wrap_object w)"

lemma wrapping_loop_ok:
  assumes "distinct (map chk_id materials)"
  shows "wrapping_loop materials bounds (material_id_str ` seen) wraps = Ok u \<longleftrightarrow>
    (\<forall>w\<in>set wraps. wrap_fits materials bounds w) \<and> distinct (map wrap_object wraps)
    \<and> seen \<inter> wrap_object ` set wraps = {}"
proof (induction wraps arbitrary: seen)
  case (Cons w wraps)
  have seen: "material_id_str (wrap_object w) \<in> material_id_str ` seen \<longleftrightarrow> wrap_object w \<in> seen"
    by (auto simp: image_iff material_id_eq)
  show ?case
  proof (cases "wrap_fits materials bounds w \<and> wrap_object w \<notin> seen")
    case True
    moreover from this have "checks [validate_identity (ref_key_id (wrap_key w)) bounds,
        validate_identity (material_id_str (wrap_object w)) bounds, reject_secret_token (ref_key_id (wrap_key w))] = Ok ()"
      by (simp add: wrap_fits_def checks_ok validate_identity_ok reject_secret_token_ok)
    ultimately have "wrapping_loop materials bounds (material_id_str ` seen) (w # wraps)
        = wrapping_loop materials bounds (material_id_str ` insert (wrap_object w) seen) wraps"
      using seen
      by (auto simp: wrap_fits_def refers_to_find [OF assms] split: option.splits)
    with Cons.IH [of "insert (wrap_object w) seen"] True show ?thesis by auto
  next
    case False
    then have "\<not> wrapping_loop materials bounds (material_id_str ` seen) (w # wraps) = Ok u"
      using seen
      by (auto simp: wrap_fits_def refers_to_find [OF assms] validate_identity_ok reject_secret_token_ok
          and_then_ok checks_ok split: option.splits if_splits)
    with False show ?thesis by auto
  qed
qed simp

definition key_binding_fits :: "checked_material list \<Rightarrow> inventory_bounds \<Rightarrow> key_binding \<Rightarrow> bool" where
  "key_binding_fits materials bounds binding =
     (case binding of
        RecoveryWrapped refs \<Rightarrow> length refs \<le> unat (bnd_max_entries bounds)
          \<and> (\<forall>w\<in>set refs. wrap_fits materials bounds w) \<and> distinct (map wrap_object refs)
      | SameInstallationOsStoreOnly refs \<Rightarrow> length refs \<le> unat (bnd_max_entries bounds)
          \<and> (\<forall>k\<in>set refs. plain_id bounds (ref_key_id k) \<and> secret_free (ref_key_id k)))"

lemma check_key_binding_structure_ok:
  assumes "distinct (map chk_id materials)"
  shows "check_key_binding_structure binding materials bounds = Ok u \<longleftrightarrow> key_binding_fits materials bounds binding"
proof (cases binding)
  case (RecoveryWrapped refs)
  then show ?thesis
    using wrapping_loop_ok [OF assms, of bounds "{}" refs u]
    by (auto simp: check_key_binding_structure_def key_binding_fits_def not_less)
next
  case (SameInstallationOsStoreOnly refs)
  then show ?thesis
    by (auto simp: check_key_binding_structure_def key_binding_fits_def checks_ok validate_identity_ok
        reject_secret_token_ok not_less split: if_splits)
qed

lemma check_audit_reference_ok:
  assumes "distinct (map chk_id materials)"
  shows "check_audit_reference audit materials = Ok u \<longleftrightarrow>
    refers_to materials AuditCheckpointObject (audit_material audit)"
  by (auto simp: check_audit_reference_def refers_to_find [OF assms] split: option.splits)

definition empty_fits :: "checked_material list \<Rightarrow> empty_category_claim \<Rightarrow> bool" where
  "empty_fits materials e \<longleftrightarrow> empty_may_be_explained (empty_kind e) \<and> empty_kind e \<notin> chk_kind ` set materials"

lemma empty_loop_ok:
  "empty_loop materials seen explained items = Ok out \<longleftrightarrow>
     (\<forall>e\<in>set items. empty_fits materials e) \<and> distinct (map empty_kind items)
     \<and> seen \<inter> empty_kind ` set items = {} \<and> out = explained @ items"
proof (induction items arbitrary: seen explained)
  case (Cons e items)
  show ?case
  proof (cases "empty_fits materials e \<and> empty_kind e \<notin> seen")
    case True
    then have "\<not> list_ex (\<lambda>m. chk_kind m = empty_kind e) materials"
      unfolding empty_fits_def list_ex_iff by (metis image_eqI)
    with True have "empty_loop materials seen explained (e # items)
        = empty_loop materials (insert (empty_kind e) seen) (explained @ [e]) items"
      by (simp add: empty_fits_def)
    with Cons.IH True show ?thesis by auto
  next
    case False
    then have "\<not> empty_loop materials seen explained (e # items) = Ok out"
      by (auto simp: empty_fits_def list_ex_iff)
    with False show ?thesis by auto
  qed
qed auto

text \<open>Two kinds may be explained, so the limit of eight categories never bites.\<close>

lemma explained_at_most_two:
  assumes "\<forall>e\<in>set items. empty_fits materials e" "distinct (map empty_kind items)"
  shows "length items \<le> 2"
proof -
  have "set (map empty_kind items) \<subseteq> {ProfileInventory, WorkspaceInventory}"
    using assms(1) by (auto simp: empty_fits_def empty_may_be_explained_def)
  then have "card (set (map empty_kind items)) \<le> card {ProfileInventory, WorkspaceInventory}"
    by (intro card_mono) simp_all
  then show ?thesis using distinct_card [OF assms(2)] by simp
qed

definition empties_fit :: "checked_material list \<Rightarrow> inventory_bounds \<Rightarrow> empty_category_claim list \<Rightarrow> bool" where
  "empties_fit materials bounds es \<longleftrightarrow>
     (\<forall>e\<in>set es. empty_fits materials e) \<and> distinct (map empty_kind es) \<and> length es \<le> unat (bnd_max_entries bounds)"

lemma check_empty_categories_ok:
  "check_empty_categories es materials bounds = Ok out \<longleftrightarrow> empties_fit materials bounds es \<and> out = es"
proof -
  have "length es \<le> unat (min (bnd_max_entries bounds) max_empty_categories)
      \<longleftrightarrow> length es \<le> unat (bnd_max_entries bounds)"
    if "\<forall>e\<in>set es. empty_fits materials e" "distinct (map empty_kind es)"
    using explained_at_most_two [OF that] by (auto simp: min_def max_empty_categories_def word_le_nat_alt)
  then show ?thesis
    by (auto simp: check_empty_categories_def empties_fit_def Let_def empty_loop_ok not_less not_le)
qed

definition compatibility_fits :: "inventory_bounds \<Rightarrow> compatibility_set \<Rightarrow> bool" where
  "compatibility_fits bounds s \<longleftrightarrow>
     (\<forall>rev\<in>{compat_application s, compat_postgres s, compat_engine s, compat_ui s}. plain_id bounds (comp_name rev))"

lemma check_compatibility_ok: "check_compatibility s bounds = Ok u \<longleftrightarrow> compatibility_fits bounds s"
  by (auto simp: check_compatibility_def compatibility_fits_def checks_ok validate_identity_ok)

section \<open>What the inventory check accepts\<close>

definition identities_fit :: "inventory_bounds \<Rightarrow> inventory_claim \<Rightarrow> bool" where
  "identities_fit bounds c \<longleftrightarrow>
     (\<forall>v\<in>{bundle_id (inv_bundle c), dataset_id (inv_dataset c), inv_deployment c, inv_tenant c,
          installation_id (inv_installation c), barrier_id (inv_barrier c), relation_id (inv_scram c),
          material_id_str (audit_material (inv_audit c))}. plain_id bounds v)
     \<and> secret_free (bundle_id (inv_bundle c)) \<and> secret_free (dataset_id (inv_dataset c))
     \<and> secret_free (relation_id (inv_scram c))"

text \<open>The declarative reading of the check: no counters, no sets of what was seen, no order of tests.\<close>

definition inventory_fits :: "inventory_bounds \<Rightarrow> inventory_claim \<Rightarrow> bool" where
  "inventory_fits bounds c \<longleftrightarrow>
     identities_fit bounds c \<and> compatibility_fits bounds (inv_compatibility c)
     \<and> receipts_fit bounds (inv_receipts c) \<and> materials_fit c bounds (inv_materials c)
     \<and> (let materials = map checked_of (inv_materials c) in
        key_binding_fits materials bounds (inv_key_binding c)
        \<and> refers_to materials AuditCheckpointObject (audit_material (inv_audit c))
        \<and> empties_fit materials bounds (inv_empty c))"

definition inventory_of :: "inventory_claim \<Rightarrow> inventory_checked" where
  "inventory_of c = \<lparr>chk_bundle = inv_bundle c, chk_dataset = inv_dataset c, chk_deployment = inv_deployment c,
     chk_tenant = inv_tenant c, chk_installation = inv_installation c, chk_barrier = inv_barrier c,
     chk_key_binding = inv_key_binding c, chk_scram = inv_scram c, chk_audit = inv_audit c,
     chk_compatibility = inv_compatibility c, chk_materials = map checked_of (inv_materials c),
     chk_receipts = receipts_of (inv_receipts c), chk_total_bytes = of_nat (declared_total (inv_materials c)),
     chk_explained_empty = inv_empty c\<rparr>"

lemma check_inventory_ok:
  "check_inventory claim bounds = Ok checked \<longleftrightarrow> inventory_fits bounds claim \<and> checked = inventory_of claim"
proof -
  have ids: "distinct (map chk_id (map checked_of (inv_materials claim)))"
    if "materials_fit claim bounds (inv_materials claim)"
    using that by (simp add: materials_fit_def checked_of_def comp_def)
  have refs: "checks [check_key_binding_structure (inv_key_binding claim) ms bounds,
        check_audit_reference (inv_audit claim) ms] = Ok u
      \<longleftrightarrow> key_binding_fits ms bounds (inv_key_binding claim)
        \<and> refers_to ms AuditCheckpointObject (audit_material (inv_audit claim))"
    if "distinct (map chk_id ms)" for ms u
    by (auto simp: checks_ok check_key_binding_structure_ok [OF that] check_audit_reference_ok [OF that]
       )
  have "check_inventory claim bounds = Ok checked \<longleftrightarrow>
      identities_fit bounds claim \<and> compatibility_fits bounds (inv_compatibility claim)
      \<and> receipts_fit bounds (inv_receipts claim) \<and> materials_fit claim bounds (inv_materials claim)
      \<and> checks [check_key_binding_structure (inv_key_binding claim) (map checked_of (inv_materials claim)) bounds,
          check_audit_reference (inv_audit claim) (map checked_of (inv_materials claim))] = Ok ()
      \<and> empties_fit (map checked_of (inv_materials claim)) bounds (inv_empty claim) \<and> checked = inventory_of claim"
    by (auto simp: check_inventory_def and_then_ok checks_ok validate_identity_ok reject_secret_token_ok
        check_compatibility_ok check_receipts_ok check_materials_ok check_empty_categories_ok identities_fit_def
        inventory_of_def)
  then show ?thesis using refs [OF ids] by (auto simp: inventory_fits_def Let_def)
qed

section \<open>Restoring an accepted inventory\<close>

text \<open>
  The walk a file system makes from a directory along the parts of a relative path: nothing for an empty
  part or a dot, one level up for two dots, one level down otherwise.
\<close>

fun resolve :: "string list \<Rightarrow> string list \<Rightarrow> string list option" where
  "resolve dir [] = Some dir"
| "resolve dir (part # parts) =
     (if part = [] \<or> part = ''.'' then resolve dir parts
      else if part = ''..'' then (if dir = [] then None else resolve (butlast dir) parts)
      else resolve (dir @ [part]) parts)"

lemma resolve_plain:
  "\<forall>part\<in>set parts. part \<noteq> [] \<and> part \<noteq> ''.'' \<and> part \<noteq> ''..'' \<Longrightarrow> resolve dir parts = Some (dir @ parts)"
  by (induction parts arbitrary: dir) simp_all

abbreviation material_parts :: "checked_material \<Rightarrow> string list" where
  "material_parts m \<equiv> components (relative_path_str (chk_path m))"

text \<open>C29: An accepted inventory can be unpacked into any directory: every path leads strictly below it,
  and no two entries share a place or lie below one another, nor share a path up to letter case.\<close>

theorem accepted_paths_stay_apart:
  assumes "check_inventory claim bounds = Ok checked"
  shows "(\<forall>m\<in>set (chk_materials checked).
      resolve root (material_parts m) = Some (root @ material_parts m) \<and> material_parts m \<noteq> [])
    \<and> sorted_wrt (\<lambda>m n. parallel (root @ material_parts m) (root @ material_parts n)
        \<and> to_ascii_lowercase (relative_path_str (chk_path m)) \<noteq> to_ascii_lowercase (relative_path_str (chk_path n)))
      (chk_materials checked)"
proof -
  from assms have fits: "materials_fit claim bounds (inv_materials claim)" and checked: "checked = inventory_of claim"
    by (auto simp: check_inventory_ok inventory_fits_def)
  have "path_ok bounds (claim_path m)" if "m \<in> set (inv_materials claim)" for m
    using fits that by (simp add: materials_fit_def material_fits_def)
  then have below: "\<forall>m\<in>set (chk_materials checked).
      resolve root (material_parts m) = Some (root @ material_parts m) \<and> material_parts m \<noteq> []"
    unfolding checked by (simp add: inventory_of_def checked_of_def path_ok_def resolve_plain split_char_not_empty)
  have "sorted_wrt (\<lambda>m n. parallel (root @ material_parts m) (root @ material_parts n)
        \<and> to_ascii_lowercase (relative_path_str (chk_path m)) \<noteq> to_ascii_lowercase (relative_path_str (chk_path n)))
      (chk_materials checked)"
    using fits unfolding checked
    by (simp add: inventory_of_def checked_of_def materials_fit_def sorted_wrt_map compatible_paths_def parallel_def)
  with below show ?thesis by blast
qed

text \<open>A relation that does not look at the order holds along a list without repetition whatever its order.\<close>

lemma sorted_wrt_symmetric:
  assumes "distinct xs" and sym: "\<And>x y. R x y \<longleftrightarrow> R y x"
  shows "sorted_wrt R xs \<longleftrightarrow> (\<forall>x\<in>set xs. \<forall>y\<in>set xs. x \<noteq> y \<longrightarrow> R x y)"
  using assms(1) by (induction xs) (auto dest: sym [THEN iffD1])

lemma materials_fit_order:
  assumes "mset ms = mset ns"
  shows "materials_fit claim bounds ms \<longleftrightarrow> materials_fit claim bounds ns"
proof -
  have ids: "distinct (map claim_id ms) \<longleftrightarrow> distinct (map claim_id ns)"
    by (metis assms mset_map mset_eq_imp_distinct_iff)
  have sets: "set ms = set ns" and len: "length ms = length ns"
    using assms by (auto dest: mset_eq_setD mset_eq_length)
  have "declared_total ms = sum_mset (image_mset (unat \<circ> claim_bytes) (mset ms))" for ms
    by (simp add: declared_total_def sum_mset_sum_list flip: mset_map)
  then have tot: "declared_total ms = declared_total ns" using assms by simp
  have "compatible_paths (claim_path m) (claim_path n) \<longleftrightarrow> compatible_paths (claim_path n) (claim_path m)" for m n
    by (auto simp: compatible_paths_def parallel_def)
  note sym = sorted_wrt_symmetric [OF _ this]
  show ?thesis
  proof (cases "distinct (map claim_id ms)")
    case True
    then have "distinct ms" "distinct ns" using ids by (simp_all add: distinct_map)
    then show ?thesis using sets ids len tot by (simp add: materials_fit_def sym)
  next
    case False
    then show ?thesis using ids by (simp add: materials_fit_def)
  qed
qed

text \<open>The order in which a claim lists its materials has no influence: a claim is accepted exactly when
  every reordering of it is, with the same total and the same checked materials.\<close>

theorem material_order_irrelevant:
  assumes "mset ms = mset (inv_materials claim)"
  shows "case check_inventory claim bounds of
      Inl _ \<Rightarrow> \<not> is_ok (check_inventory (claim\<lparr>inv_materials := ms\<rparr>) bounds)
    | Inr checked \<Rightarrow> \<exists>other. check_inventory (claim\<lparr>inv_materials := ms\<rparr>) bounds = Ok other
        \<and> chk_total_bytes other = chk_total_bytes checked
        \<and> mset (chk_materials other) = mset (chk_materials checked)"
proof -
  let ?claim = "claim\<lparr>inv_materials := ms\<rparr>"
  have sets: "set ms = set (inv_materials claim)" using assms by (rule mset_eq_setD)
  have "materials_fit ?claim bounds ms \<longleftrightarrow> materials_fit claim bounds ms"
    by (simp add: materials_fit_def material_fits_def)
  then have mats: "materials_fit ?claim bounds ms \<longleftrightarrow> materials_fit claim bounds (inv_materials claim)"
    using materials_fit_order [OF assms] by simp
  have refs: "refers_to (map checked_of ms) k i \<longleftrightarrow> refers_to (map checked_of (inv_materials claim)) k i" for k i
    using sets by (simp add: refers_to_def)
  have fits: "inventory_fits bounds ?claim \<longleftrightarrow> inventory_fits bounds claim"
    using mats refs sets
    by (simp add: inventory_fits_def identities_fit_def key_binding_fits_def wrap_fits_def empties_fit_def
        empty_fits_def Let_def split: key_binding.split)
  then have same: "is_ok (check_inventory ?claim bounds) \<longleftrightarrow> is_ok (check_inventory claim bounds)"
    by (auto simp: is_ok_iff check_inventory_ok)
  have "sum_mset (image_mset (unat \<circ> claim_bytes) (mset ms)) = declared_total ms" for ms
    by (simp add: declared_total_def sum_mset_sum_list flip: mset_map)
  then have "declared_total ms = declared_total (inv_materials claim)" using assms by metis
  then have "\<exists>other. check_inventory ?claim bounds = Ok other
      \<and> chk_total_bytes other = chk_total_bytes checked
      \<and> mset (chk_materials other) = mset (chk_materials checked)"
    if "check_inventory claim bounds = Ok checked" for checked
    using that fits assms by (auto simp: check_inventory_ok inventory_of_def)
  with same show ?thesis by (auto split: sum.split)
qed

section \<open>An example\<close>

definition example_material :: "string \<Rightarrow> material_kind \<Rightarrow> string \<Rightarrow> u64 \<Rightarrow> material_claim" where
  "example_material i k p n = \<lparr>claim_id = MaterialId i, claim_kind = k, claim_path = p, claim_directory = False,
     claim_bytes = n, claim_digest = 7, claim_bundle = ''b'', claim_dataset = ''d'', claim_barrier = ''r''\<rparr>"

definition example_rev :: component_rev where
  "example_rev = \<lparr>comp_name = ''c'', comp_epoch = 1, comp_digest = 3\<rparr>"

definition example_key :: vault_key_ref where
  "example_key = \<lparr>ref_key_id = ''k'', ref_key_version = KeyVersion 1, ref_canary = 5\<rparr>"

definition example_claim :: inventory_claim where
  "example_claim = \<lparr>inv_bundle = \<lparr>bundle_id = ''b'', format_version = 1\<rparr>, inv_dataset = DatasetIdentity ''d'',
     inv_deployment = ''p'', inv_tenant = ''t'', inv_installation = InstallationIdentity ''i'',
     inv_barrier = BarrierIdentity ''r'', inv_key_binding = SameInstallationOsStoreOnly [example_key],
     inv_scram = \<lparr>relation_id = ''s'', bound_to_original_os_store = True\<rparr>,
     inv_audit = \<lparr>audit_material = MaterialId ''m7'', audit_head_digest = 0, audit_event_count = 1\<rparr>,
     inv_compatibility = \<lparr>compat_application = example_rev, compat_postgres = example_rev,
       compat_engine = example_rev, compat_ui = example_rev\<rparr>,
     inv_materials = [example_material ''m1'' BundleManifest ''manifest'' 1, example_material ''m2'' PostgresBase ''pg/base'' 2,
       example_material ''m3'' PostgresConfig ''pg/conf'' 1, example_material ''m4'' SchemaChecksum ''schema'' 1,
       example_material ''m5'' MigrationChecksum ''mig'' 1, example_material ''m6'' CompatibilityRecord ''compat'' 1,
       example_material ''m7'' AuditCheckpointObject ''audit'' 1, example_material ''m8'' WalSegment ''wal'' 2],
     inv_empty = [\<lparr>empty_kind = ProfileInventory, empty_because = DatasetContainsNoProfiles\<rparr>,
       \<lparr>empty_kind = WorkspaceInventory, empty_because = DatasetContainsNoWorkspaces\<rparr>],
     inv_receipts = \<lparr>claimed_committed = [\<lparr>receipt_id = ''r1'', receipt_unknown = False\<rparr>],
       claimed_unknown = [\<lparr>receipt_id = ''r2'', receipt_unknown = True\<rparr>], claimed_tool = []\<rparr>\<rparr>"

lemma secret_free_eval: "secret_free v \<longleftrightarrow> list_all (\<lambda>w. \<not> contains_str (to_ascii_lowercase v) w) secret_words"
  by (auto simp: secret_free_def list_all_iff contains_str_iff)

lemmas inventory_eval = plain_id_def secret_free_eval secret_words_def secret_free_path_def path_ok_def
  to_ascii_lowercase_def to_ascii_lower_def is_ascii_uppercase_def starts_with_def

lemma example_materials_fit: "materials_fit example_claim bounds_standard (inv_materials example_claim)"
  by (simp add: materials_fit_def material_fits_def example_claim_def example_material_def bounds_standard_def
      compatible_paths_def parallel_def declared_total_def inventory_eval)

lemma example_accepted: "check_inventory example_claim bounds_standard = Ok (inventory_of example_claim)"
proof -
  have "identities_fit bounds_standard example_claim" "receipts_fit bounds_standard (inv_receipts example_claim)"
      "compatibility_fits bounds_standard (inv_compatibility example_claim)"
    by (simp_all add: identities_fit_def receipts_fit_def receipt_fits_def compatibility_fits_def example_claim_def
        example_rev_def bounds_standard_def inventory_eval)
  moreover have "key_binding_fits ms bounds_standard (inv_key_binding example_claim)" for ms
    by (simp add: key_binding_fits_def example_claim_def example_key_def bounds_standard_def inventory_eval)
  moreover have "refers_to (map checked_of (inv_materials example_claim)) AuditCheckpointObject
      (audit_material (inv_audit example_claim))"
    by (simp add: refers_to_def checked_of_def example_claim_def example_material_def)
  moreover have "empties_fit (map checked_of (inv_materials example_claim)) bounds_standard (inv_empty example_claim)"
    by (simp add: empties_fit_def empty_fits_def empty_may_be_explained_def checked_of_def example_claim_def
        example_material_def bounds_standard_def)
  ultimately show ?thesis
    using example_materials_fit by (simp add: check_inventory_ok inventory_fits_def)
qed

theorem accepted_paths_stay_apart_witness:
  "resolve [''srv''] (material_parts (checked_of (example_material ''m2'' PostgresBase ''pg/base'' 2)))
   = Some [''srv'', ''pg'', ''base'']"
proof -
  have "checked_of (example_material ''m2'' PostgresBase ''pg/base'' 2) \<in> set (chk_materials (inventory_of example_claim))"
    by (simp add: inventory_of_def example_claim_def)
  with accepted_paths_stay_apart [OF example_accepted, of "[''srv'']"]
  have "resolve [''srv''] (material_parts (checked_of (example_material ''m2'' PostgresBase ''pg/base'' 2)))
      = Some ([''srv''] @ material_parts (checked_of (example_material ''m2'' PostgresBase ''pg/base'' 2)))"
    by blast
  then show ?thesis by (simp add: checked_of_def example_material_def)
qed

theorem material_order_irrelevant_witness:
  "is_ok (check_inventory (example_claim\<lparr>inv_materials := rev (inv_materials example_claim)\<rparr>) bounds_standard)"
proof -
  have "mset (rev (inv_materials example_claim)) = mset (inv_materials example_claim)" by simp
  from material_order_irrelevant [OF this, of bounds_standard] show ?thesis
    by (auto simp: example_accepted is_ok_iff)
qed

text \<open>
  Letter case is compared for whole paths only: a file and a directory whose names differ in case alone
  are accepted side by side, although after folding the one lies below the other.
\<close>

definition aliasing_materials :: "material_claim list" where
  "aliasing_materials = [example_material ''m1'' PostgresBase ''PG'' 1, example_material ''m2'' WalSegment ''pg/wal'' 1]"

lemma case_alias_of_a_parent_accepted:
  "is_ok (check_materials (example_claim\<lparr>inv_materials := aliasing_materials\<rparr>) bounds_standard)
   \<and> prefix_conflict (fold_ascii ''PG'') False (fold_ascii ''pg/wal'') False"
proof -
  have "materials_fit (example_claim\<lparr>inv_materials := aliasing_materials\<rparr>) bounds_standard aliasing_materials"
    by (simp add: materials_fit_def material_fits_def example_claim_def aliasing_materials_def example_material_def
        bounds_standard_def compatible_paths_def parallel_def declared_total_def inventory_eval char_of_def bit_0)
  then have "is_ok (check_materials (example_claim\<lparr>inv_materials := aliasing_materials\<rparr>) bounds_standard)"
    using check_materials_ok [of "example_claim\<lparr>inv_materials := aliasing_materials\<rparr>" bounds_standard]
    by (simp add: is_ok_iff)
  moreover have "prefix_conflict (fold_ascii ''PG'') False (fold_ascii ''pg/wal'') False"
    by (simp add: prefix_conflict_def fold_ascii_def inventory_eval char_of_def bit_0)
  ultimately show ?thesis by blast
qed

end
