(* ===== verification/BackupPlan.thy ===== *)
theory BackupPlan
  imports BackupInventory
begin

text \<open>
  Planning a restore, \<open>crates/openbot-domain/src/backup/plan.rs\<close>: a checked inventory, a controlled
  target and what was observed there lead to a rejection, an incomplete restore, a blocked one, or a
  structural plan. The lemmas say exactly when there is a plan and what it binds.
\<close>

section \<open>Requests\<close>

datatype restore_mode = SameInstallation | NewInstallation (new_installation: installation_identity)

record capacity_policy =
  original_site_bytes :: u64
  margin_bytes :: u64

record restore_target =
  tgt_mode :: restore_mode
  tgt_dataset :: dataset_identity
  tgt_deployment :: string
  tgt_tenant :: string
  tgt_original_installation :: installation_identity
  tgt_schema_checksum :: digest
  tgt_migration_checksums :: "(string \<times> digest) list"
  tgt_compatibility :: compatibility_set
  tgt_requires_restore_build :: bool
  tgt_vault_keys :: "vault_key_ref list"
  tgt_profiles_empty :: bool
  tgt_workspaces_empty :: bool
  tgt_unknown_receipts :: u32
  tgt_capacity :: capacity_policy

datatype capacity_observation = CapacityMissing | CapacityAvailable (available_bytes: u64)

record restore_observations =
  obs_schema_checksum :: "digest option"
  obs_migration_checksums :: "(string \<times> digest) list option"
  obs_compatibility :: "compatibility_set option"
  obs_restore_build_present :: "bool option"
  obs_capacity :: capacity_observation

record restore_request =
  req_claim :: inventory_claim
  req_target :: restore_target
  req_observations :: restore_observations
  req_bounds :: inventory_bounds

section \<open>Outcomes\<close>

datatype proof_status = Pending | NotGranted

record pending_proofs =
  aead_authenticity :: proof_status
  postgres_wal_recovery :: proof_status
  key_canary_decrypt :: proof_status
  atomic_switch :: proof_status
  application_ready_proof :: proof_status
  restore_authorized_proof :: proof_status

definition pending_all :: pending_proofs where
  "pending_all = \<lparr>aead_authenticity = Pending, postgres_wal_recovery = Pending, key_canary_decrypt = Pending,
     atomic_switch = Pending, application_ready_proof = NotGranted, restore_authorized_proof = NotGranted\<rparr>"

record follow_up_requirements =
  bind_installation_to_dataset :: bool
  mint_new_recovery_epoch :: bool
  invalidate_old_auth_and_control :: bool
  reconfirm_credentials :: bool
  keep_committed_unknown_and_tool_receipts :: bool
  must_not_replay_unknown :: bool

definition follow_up_required :: "bool \<Rightarrow> follow_up_requirements" where
  "follow_up_required bind_installation =
     \<lparr>bind_installation_to_dataset = bind_installation, mint_new_recovery_epoch = True,
      invalidate_old_auth_and_control = True, reconfirm_credentials = True,
      keep_committed_unknown_and_tool_receipts = True, must_not_replay_unknown = True\<rparr>"

datatype identity_binding =
    BindSame installation_identity dataset_identity string string
  | BindNew installation_identity installation_identity dataset_identity string string bool

datatype incomplete_reason =
    MissingRequired material_kind
  | EmptyWithoutReason material_kind
  | MissingKeyWrappingRef
  | MissingWal
  | MissingMigrationChecksum
  | MissingRestoreBuild
  | MissingCapacityFacts
  | MissingCompatibilityFacts
  | MissingUnknownReceipts

datatype blocked_reason =
    SameInstallationOnly
  | WouldRenameBusinessIdentity
  | NewInstallReusedInstallation
  | IncompatibleRelease
  | SchemaMismatch
  | KeyIdMismatch
  | CanaryMismatch
  | InsufficientCapacity

record incomplete_restore =
  incomplete_because :: incomplete_reason
  incomplete_inventory :: "inventory_checked option"
  incomplete_pending :: pending_proofs

record blocked_restore =
  blocked_because :: blocked_reason
  blocked_inventory :: inventory_checked
  blocked_pending :: pending_proofs

record structural_plan =
  plan_inventory :: inventory_checked
  plan_identity :: identity_binding
  plan_follow_up :: follow_up_requirements
  plan_pending :: pending_proofs
  plan_required_capacity :: u64

datatype restore_outcome =
    Rejected inventory_fault
  | Incomplete incomplete_restore
  | Blocked blocked_restore
  | StructuralPlan structural_plan

definition schedules_unknown_replay :: "structural_plan \<Rightarrow> bool" where
  "schedules_unknown_replay plan \<longleftrightarrow> \<not> must_not_replay_unknown (plan_follow_up plan)"

definition is_structural_plan :: "restore_outcome \<Rightarrow> bool" where
  "is_structural_plan outcome \<longleftrightarrow> (case outcome of StructuralPlan _ \<Rightarrow> True | _ \<Rightarrow> False)"

definition incomplete :: "incomplete_reason \<Rightarrow> inventory_checked option \<Rightarrow> restore_outcome" where
  "incomplete reason inventory = Incomplete
     \<lparr>incomplete_because = reason, incomplete_inventory = inventory, incomplete_pending = pending_all\<rparr>"

definition blocked :: "blocked_reason \<Rightarrow> inventory_checked \<Rightarrow> restore_outcome" where
  "blocked reason inventory = Blocked
     \<lparr>blocked_because = reason, blocked_inventory = inventory, blocked_pending = pending_all\<rparr>"

datatype compat_gate = GateIncomplete incomplete_reason | GateBlocked blocked_reason

fun into_outcome :: "compat_gate \<Rightarrow> inventory_checked \<Rightarrow> restore_outcome" where
  "into_outcome (GateIncomplete reason) inventory = incomplete reason (Some inventory)"
| "into_outcome (GateBlocked reason) inventory = blocked reason inventory"

section \<open>The gates\<close>

definition validate_target :: "restore_target \<Rightarrow> inventory_bounds \<Rightarrow> (inventory_fault, unit) result" where
  "validate_target target bounds =
     checks
      ([validate_identity (dataset_id (tgt_dataset target)) bounds,
        validate_identity (tgt_deployment target) bounds,
        validate_identity (tgt_tenant target) bounds,
        validate_identity (installation_id (tgt_original_installation target)) bounds,
        (case tgt_mode target of
           NewInstallation installation \<Rightarrow> validate_identity (installation_id installation) bounds
         | SameInstallation \<Rightarrow> Ok ()),
        (if length (tgt_migration_checksums target) > unat (bnd_max_entries bounds) then Err CountOutOfBounds else Ok ()),
        (if length (tgt_vault_keys target) > unat (bnd_max_entries bounds) then Err CountOutOfBounds else Ok ())]
       @ map (\<lambda>(name, _). validate_identity name bounds) (tgt_migration_checksums target)
       @ map (\<lambda>key. validate_identity (ref_key_id key) bounds) (tgt_vault_keys target))"

definition has_regular_file :: "inventory_checked \<Rightarrow> material_kind \<Rightarrow> bool" where
  "has_regular_file inventory kind \<longleftrightarrow>
     list_ex (\<lambda>item. chk_kind item = kind \<and> \<not> chk_directory item) (chk_materials inventory)"

definition empty_explained :: "inventory_checked \<Rightarrow> material_kind \<Rightarrow> empty_reason \<Rightarrow> bool" where
  "empty_explained inventory kind reason \<longleftrightarrow>
     list_ex (\<lambda>item. empty_kind item = kind \<and> empty_because item = reason) (chk_explained_empty inventory)"

definition required_kinds :: "material_kind list" where
  "required_kinds = [BundleManifest, PostgresBase, PostgresConfig, SchemaChecksum, MigrationChecksum,
     CompatibilityRecord, AuditCheckpointObject]"

text \<open>The parts of \<open>missing_required\<close>, in its order; the first reason found is returned.\<close>

definition missing_key_wrapping :: "inventory_checked \<Rightarrow> incomplete_reason option" where
  "missing_key_wrapping inventory =
     (case chk_key_binding inventory of
        RecoveryWrapped refs \<Rightarrow>
          if refs = [] then Some MissingKeyWrappingRef
          else if list_ex (\<lambda>wrap.
              case find (\<lambda>item. chk_id item = wrap_object wrap) (chk_materials inventory) of
                None \<Rightarrow> True
              | Some found \<Rightarrow> chk_kind found \<noteq> KeyWrappingObject \<or> chk_directory found) refs
          then Some MissingKeyWrappingRef
          else None
      | SameInstallationOsStoreOnly refs \<Rightarrow> if refs = [] then Some MissingKeyWrappingRef else None)"

definition missing_audit :: "inventory_checked \<Rightarrow> incomplete_reason option" where
  "missing_audit inventory =
     (case find (\<lambda>item. chk_id item = audit_material (chk_audit inventory)) (chk_materials inventory) of
        None \<Rightarrow> Some (MissingRequired AuditCheckpointObject)
      | Some found \<Rightarrow>
          if chk_kind found \<noteq> AuditCheckpointObject \<or> chk_directory found
          then Some (MissingRequired AuditCheckpointObject) else None)"

definition missing_category :: "inventory_checked \<Rightarrow> material_kind \<Rightarrow> empty_reason \<Rightarrow> bool \<Rightarrow> incomplete_reason option" where
  "missing_category inventory kind reason target_empty =
     (if has_regular_file inventory kind then
        (if target_empty then Some (EmptyWithoutReason kind) else None)
      else if target_empty then
        (if \<not> empty_explained inventory kind reason then Some (EmptyWithoutReason kind) else None)
      else Some (MissingRequired kind))"

definition unexplainable_empty :: "inventory_checked \<Rightarrow> incomplete_reason option" where
  "unexplainable_empty inventory =
     (case find (\<lambda>item. \<not> empty_may_be_explained (empty_kind item)) (chk_explained_empty inventory) of
        Some item \<Rightarrow> Some (EmptyWithoutReason (empty_kind item))
      | None \<Rightarrow> None)"

fun first_some :: "'a option list \<Rightarrow> 'a option" where
  "first_some [] = None"
| "first_some (Some a # os) = Some a"
| "first_some (None # os) = first_some os"

definition missing_required :: "inventory_checked \<Rightarrow> restore_target \<Rightarrow> incomplete_reason option" where
  "missing_required inventory target =
     first_some
      (map (\<lambda>kind. if \<not> has_regular_file inventory kind then Some (MissingRequired kind) else None) required_kinds
       @ [(if \<not> has_regular_file inventory WalSegment then Some MissingWal else None),
          missing_key_wrapping inventory,
          missing_audit inventory,
          missing_category inventory ProfileInventory DatasetContainsNoProfiles (tgt_profiles_empty target),
          missing_category inventory WorkspaceInventory DatasetContainsNoWorkspaces (tgt_workspaces_empty target),
          unexplainable_empty inventory])"

definition identity_block :: "inventory_checked \<Rightarrow> restore_target \<Rightarrow> blocked_reason option" where
  "identity_block inventory target =
     (if chk_dataset inventory \<noteq> tgt_dataset target \<or> chk_deployment inventory \<noteq> tgt_deployment target
         \<or> chk_tenant inventory \<noteq> tgt_tenant target
      then Some WouldRenameBusinessIdentity
      else if chk_installation inventory \<noteq> tgt_original_installation target then Some WouldRenameBusinessIdentity
      else case tgt_mode target of
        SameInstallation \<Rightarrow> None
      | NewInstallation installation \<Rightarrow>
          if same_installation_only inventory then Some SameInstallationOnly
          else if installation = chk_installation inventory then Some NewInstallReusedInstallation
          else None)"

definition collect_key_refs :: "key_binding \<Rightarrow> vault_key_ref list" where
  "collect_key_refs binding =
     (case binding of
        RecoveryWrapped refs \<Rightarrow> map wrap_key refs
      | SameInstallationOsStoreOnly refs \<Rightarrow> refs)"

fun key_loop :: "vault_key_ref list \<Rightarrow> vault_key_ref list \<Rightarrow> blocked_reason option" where
  "key_loop refs [] = None"
| "key_loop refs (expected # rest) =
     (case find (\<lambda>item. ref_key_id item = ref_key_id expected) refs of
        None \<Rightarrow> Some KeyIdMismatch
      | Some found \<Rightarrow>
          if ref_key_version found \<noteq> ref_key_version expected then Some KeyIdMismatch
          else if ref_canary found \<noteq> ref_canary expected then Some CanaryMismatch
          else key_loop refs rest)"

definition key_block :: "inventory_checked \<Rightarrow> restore_target \<Rightarrow> blocked_reason option" where
  "key_block inventory target =
     (let refs = collect_key_refs (chk_key_binding inventory) in
      if length refs \<noteq> length (tgt_vault_keys target) then Some KeyIdMismatch
      else key_loop refs (tgt_vault_keys target))"

definition compatibility_outcome ::
  "inventory_checked \<Rightarrow> restore_target \<Rightarrow> restore_observations \<Rightarrow> compat_gate option" where
  "compatibility_outcome inventory target observations =
     (if chk_compatibility inventory \<noteq> tgt_compatibility target then Some (GateBlocked IncompatibleRelease)
      else case obs_schema_checksum observations of
        None \<Rightarrow> Some (GateIncomplete MissingCompatibilityFacts)
      | Some observed_schema \<Rightarrow>
        if observed_schema \<noteq> tgt_schema_checksum target then Some (GateBlocked SchemaMismatch)
        else case obs_migration_checksums observations of
          None \<Rightarrow> Some (GateIncomplete MissingMigrationChecksum)
        | Some observed_migrations \<Rightarrow>
          if observed_migrations \<noteq> tgt_migration_checksums target then Some (GateBlocked SchemaMismatch)
          else if \<not> has_regular_file inventory MigrationChecksum then Some (GateIncomplete MissingMigrationChecksum)
          else case obs_compatibility observations of
            None \<Rightarrow> Some (GateIncomplete MissingCompatibilityFacts)
          | Some observed_compat \<Rightarrow>
            if observed_compat \<noteq> tgt_compatibility target then Some (GateBlocked IncompatibleRelease)
            else if tgt_requires_restore_build target \<and> obs_restore_build_present observations \<noteq> Some True
            then Some (GateIncomplete MissingRestoreBuild)
            else None)"

definition required_capacity_bytes :: "inventory_checked \<Rightarrow> restore_target \<Rightarrow> u64 option" where
  "required_capacity_bytes inventory target =
     (case checked_add (chk_total_bytes inventory) (original_site_bytes (tgt_capacity target)) of
        None \<Rightarrow> None
      | Some s \<Rightarrow> checked_add s (margin_bytes (tgt_capacity target)))"

section \<open>Planning\<close>

definition binding_of :: "inventory_checked \<Rightarrow> restore_mode \<Rightarrow> identity_binding \<times> bool" where
  "binding_of checked mode =
     (case mode of
        SameInstallation \<Rightarrow>
          (BindSame (chk_installation checked) (chk_dataset checked) (chk_deployment checked) (chk_tenant checked), False)
      | NewInstallation installation \<Rightarrow>
          (BindNew (chk_installation checked) installation (chk_dataset checked) (chk_deployment checked)
             (chk_tenant checked) True, True))"

definition plan_restore :: "restore_request \<Rightarrow> restore_outcome" where
  "plan_restore request =
     (let target = req_target request; observations = req_observations request; bounds = req_bounds request in
      case validate_target target bounds of Inl fault \<Rightarrow> Rejected fault | Inr _ \<Rightarrow>
      case check_inventory (req_claim request) bounds of Inl fault \<Rightarrow> Rejected fault | Inr checked \<Rightarrow>
      case missing_required checked target of Some reason \<Rightarrow> incomplete reason (Some checked) | None \<Rightarrow>
      case identity_block checked target of Some reason \<Rightarrow> blocked reason checked | None \<Rightarrow>
      case key_block checked target of Some reason \<Rightarrow> blocked reason checked | None \<Rightarrow>
      case compatibility_outcome checked target observations of Some gate \<Rightarrow> into_outcome gate checked | None \<Rightarrow>
      case required_capacity_bytes checked target of None \<Rightarrow> Rejected AccumulatedOverflow | Some required_capacity \<Rightarrow>
      case obs_capacity observations of
        CapacityMissing \<Rightarrow> incomplete MissingCapacityFacts (Some checked)
      | CapacityAvailable bytes \<Rightarrow>
          if bytes < required_capacity then blocked InsufficientCapacity checked
          else if tgt_unknown_receipts target > 0
               \<and> length (rcp_unknown (chk_receipts checked)) < unat (tgt_unknown_receipts target)
          then incomplete MissingUnknownReceipts (Some checked)
          else (let (identity, bind_new) = binding_of checked (tgt_mode target) in
            StructuralPlan \<lparr>plan_inventory = checked, plan_identity = identity,
              plan_follow_up = follow_up_required bind_new, plan_pending = pending_all,
              plan_required_capacity = required_capacity\<rparr>))"

section \<open>What the gates let through\<close>

definition target_fits :: "inventory_bounds \<Rightarrow> restore_target \<Rightarrow> bool" where
  "target_fits bounds t \<longleftrightarrow>
     (\<forall>v\<in>{dataset_id (tgt_dataset t), tgt_deployment t, tgt_tenant t, installation_id (tgt_original_installation t)}.
        plain_id bounds v)
     \<and> (case tgt_mode t of NewInstallation i \<Rightarrow> plain_id bounds (installation_id i) | SameInstallation \<Rightarrow> True)
     \<and> length (tgt_migration_checksums t) \<le> unat (bnd_max_entries bounds)
     \<and> length (tgt_vault_keys t) \<le> unat (bnd_max_entries bounds)
     \<and> (\<forall>(name, _)\<in>set (tgt_migration_checksums t). plain_id bounds name)
     \<and> (\<forall>k\<in>set (tgt_vault_keys t). plain_id bounds (ref_key_id k))"

lemma validate_target_ok: "validate_target t bounds = Ok u \<longleftrightarrow> target_fits bounds t"
  by (auto simp: validate_target_def target_fits_def checks_ok validate_identity_ok not_less ball_Un
      split: restore_mode.split if_splits prod.splits)

lemma first_some_none: "first_some os = None \<longleftrightarrow> (\<forall>x\<in>set os. x = None)"
  by (induction os rule: first_some.induct) auto

text \<open>A file of the kind is among the materials.\<close>

definition has_file :: "material_claim list \<Rightarrow> material_kind \<Rightarrow> bool" where
  "has_file ms kind \<longleftrightarrow> (\<exists>m\<in>set ms. claim_kind m = kind \<and> \<not> claim_directory m)"

definition has_file_named :: "material_claim list \<Rightarrow> material_kind \<Rightarrow> material_id \<Rightarrow> bool" where
  "has_file_named ms kind i \<longleftrightarrow> (\<exists>m\<in>set ms. claim_id m = i \<and> claim_kind m = kind \<and> \<not> claim_directory m)"

text \<open>A category is there, or its absence is both expected and explained.\<close>

definition category_settled :: "inventory_claim \<Rightarrow> material_kind \<Rightarrow> empty_reason \<Rightarrow> bool \<Rightarrow> bool" where
  "category_settled c kind reason target_empty \<longleftrightarrow>
     (if target_empty
      then \<not> has_file (inv_materials c) kind \<and> \<lparr>empty_kind = kind, empty_because = reason\<rparr> \<in> set (inv_empty c)
      else has_file (inv_materials c) kind)"

definition keys_recoverable :: "inventory_claim \<Rightarrow> bool" where
  "keys_recoverable c \<longleftrightarrow> collect_key_refs (inv_key_binding c) \<noteq> []
     \<and> (case inv_key_binding c of
          RecoveryWrapped refs \<Rightarrow> \<forall>w\<in>set refs. has_file_named (inv_materials c) KeyWrappingObject (wrap_object w)
        | SameInstallationOsStoreOnly refs \<Rightarrow> True)"

definition claim_complete :: "inventory_claim \<Rightarrow> restore_target \<Rightarrow> bool" where
  "claim_complete c t \<longleftrightarrow>
     (\<forall>kind\<in>insert WalSegment (set required_kinds). has_file (inv_materials c) kind)
     \<and> keys_recoverable c
     \<and> has_file_named (inv_materials c) AuditCheckpointObject (audit_material (inv_audit c))
     \<and> category_settled c ProfileInventory DatasetContainsNoProfiles (tgt_profiles_empty t)
     \<and> category_settled c WorkspaceInventory DatasetContainsNoWorkspaces (tgt_workspaces_empty t)"

lemma inventory_of_chk: "chk_compatibility (inventory_of c) = inv_compatibility c"
  by (simp add: inventory_of_def)

lemma has_regular_file_of: "has_regular_file (inventory_of c) kind \<longleftrightarrow> has_file (inv_materials c) kind"
  by (auto simp: has_regular_file_def has_file_def inventory_of_def checked_of_def list_ex_iff)

lemma empty_explained_of:
  "empty_explained (inventory_of c) kind reason \<longleftrightarrow> \<lparr>empty_kind = kind, empty_because = reason\<rparr> \<in> set (inv_empty c)"
proof -
  have "e = \<lparr>empty_kind = kind, empty_because = reason\<rparr> \<longleftrightarrow> empty_kind e = kind \<and> empty_because e = reason" for e :: empty_category_claim
    by (cases e) simp
  from this [symmetric] show ?thesis
    by (simp add: empty_explained_def list_ex_iff inventory_of_def)
qed

lemma find_material:
  assumes "materials_fit c bounds (inv_materials c)"
  shows "(case find (\<lambda>m. chk_id m = i) (chk_materials (inventory_of c)) of
      None \<Rightarrow> False | Some m \<Rightarrow> \<not> (chk_kind m \<noteq> kind \<or> chk_directory m))
    \<longleftrightarrow> has_file_named (inv_materials c) kind i"
proof -
  let ?ms = "map checked_of (inv_materials c)"
  have d: "distinct (map chk_id ?ms)"
    using assms by (simp add: materials_fit_def checked_of_def comp_def)
  have named: "has_file_named (inv_materials c) kind i \<longleftrightarrow>
      (\<exists>m\<in>set ?ms. chk_id m = i \<and> chk_kind m = kind \<and> \<not> chk_directory m)"
    by (simp add: has_file_named_def checked_of_def)
  show ?thesis
  proof (cases "find (\<lambda>m. chk_id m = i) ?ms")
    case None
    then have "i \<notin> chk_id ` set ?ms" using find_by_id(2) [OF d] by simp
    then have "\<not> has_file_named (inv_materials c) kind i" unfolding named by blast
    with None show ?thesis by (simp add: inventory_of_def)
  next
    case (Some m)
    then have m: "m \<in> set ?ms" "chk_id m = i" using find_by_id(1) [OF d] by simp_all
    have "n = m" if "n \<in> set ?ms" "chk_id n = i" for n
      using find_by_id(1) [OF d, of i n] that Some by simp
    with m have "has_file_named (inv_materials c) kind i \<longleftrightarrow> chk_kind m = kind \<and> \<not> chk_directory m"
      unfolding named by blast
    with Some show ?thesis by (simp add: inventory_of_def)
  qed
qed

lemma missing_key_wrapping_of:
  assumes "materials_fit c bounds (inv_materials c)"
  shows "missing_key_wrapping (inventory_of c) = None \<longleftrightarrow> keys_recoverable c"
proof (cases "inv_key_binding c")
  case (RecoveryWrapped refs)
  have "(case find (\<lambda>m. chk_id m = i) (chk_materials (inventory_of c)) of
      None \<Rightarrow> True | Some m \<Rightarrow> chk_kind m \<noteq> KeyWrappingObject \<or> chk_directory m)
    \<longleftrightarrow> \<not> has_file_named (inv_materials c) KeyWrappingObject i" for i
    using find_material [OF assms, where i = i and kind = KeyWrappingObject] by (auto split: option.splits)
  with RecoveryWrapped show ?thesis
    by (auto simp: missing_key_wrapping_def keys_recoverable_def collect_key_refs_def list_ex_iff inventory_of_def)
qed (simp add: missing_key_wrapping_def keys_recoverable_def collect_key_refs_def inventory_of_def)

lemma missing_audit_of:
  assumes "materials_fit c bounds (inv_materials c)"
  shows "missing_audit (inventory_of c) = None \<longleftrightarrow>
    has_file_named (inv_materials c) AuditCheckpointObject (audit_material (inv_audit c))"
  using find_material [OF assms, where i = "audit_material (inv_audit c)" and kind = AuditCheckpointObject]
  by (auto simp: missing_audit_def inventory_of_def split: option.splits)

lemma missing_category_of:
  "missing_category (inventory_of c) kind reason e = None \<longleftrightarrow> category_settled c kind reason e"
  by (simp add: missing_category_def category_settled_def has_regular_file_of empty_explained_of)

text \<open>What the inventory check already refused is not found again.\<close>

lemma unexplainable_empty_of: "inventory_fits bounds c \<Longrightarrow> unexplainable_empty (inventory_of c) = None"
  by (auto simp: inventory_fits_def empties_fit_def empty_fits_def unexplainable_empty_def inventory_of_def Let_def
      find_Some_iff split: option.splits)

lemma missing_required_of:
  assumes "inventory_fits bounds c"
  shows "missing_required (inventory_of c) t = None \<longleftrightarrow> claim_complete c t"
proof -
  have m: "materials_fit c bounds (inv_materials c)" using assms by (simp add: inventory_fits_def)
  show ?thesis
    by (auto simp: missing_required_def first_some_none claim_complete_def has_regular_file_of
        missing_key_wrapping_of [OF m] missing_audit_of [OF m] missing_category_of unexplainable_empty_of [OF assms]
        split: if_splits)
qed

definition identity_kept :: "inventory_claim \<Rightarrow> restore_target \<Rightarrow> bool" where
  "identity_kept c t \<longleftrightarrow>
     inv_dataset c = tgt_dataset t \<and> inv_deployment c = tgt_deployment t \<and> inv_tenant c = tgt_tenant t
     \<and> inv_installation c = tgt_original_installation t
     \<and> (case tgt_mode t of
          SameInstallation \<Rightarrow> True
        | NewInstallation i \<Rightarrow> (\<exists>refs. inv_key_binding c = RecoveryWrapped refs) \<and> i \<noteq> inv_installation c)"

lemma identity_block_of: "identity_block (inventory_of c) t = None \<longleftrightarrow> identity_kept c t"
  by (auto simp: identity_block_def identity_kept_def inventory_of_def same_installation_only_def
      split: restore_mode.split key_binding.splits)

lemma find_key: "find (\<lambda>item. ref_key_id item = i) refs = Some k \<Longrightarrow> k \<in> set refs \<and> ref_key_id k = i"
  by (auto simp: find_Some_iff)

text \<open>Every expected key is the first of its id.\<close>

lemma key_loop_none:
  "key_loop refs ks = None \<longleftrightarrow> (\<forall>k\<in>set ks. find (\<lambda>item. ref_key_id item = ref_key_id k) refs = Some k)"
proof (induction ks)
  case (Cons k ks)
  have "f = k \<longleftrightarrow> ref_key_version f = ref_key_version k \<and> ref_canary f = ref_canary k" if "ref_key_id f = ref_key_id k" for f :: vault_key_ref
    using that by (cases f; cases k) auto
  with Cons show ?case by (auto split: option.splits dest: find_key)
qed simp

definition keys_match :: "inventory_claim \<Rightarrow> restore_target \<Rightarrow> bool" where
  "keys_match c t \<longleftrightarrow>
     length (collect_key_refs (inv_key_binding c)) = length (tgt_vault_keys t)
     \<and> (\<forall>k\<in>set (tgt_vault_keys t).
          find (\<lambda>item. ref_key_id item = ref_key_id k) (collect_key_refs (inv_key_binding c)) = Some k)"

lemma key_block_of: "key_block (inventory_of c) t = None \<longleftrightarrow> keys_match c t"
  by (auto simp: key_block_def keys_match_def key_loop_none inventory_of_def Let_def)

definition compatible_with :: "inventory_claim \<Rightarrow> restore_target \<Rightarrow> restore_observations \<Rightarrow> bool" where
  "compatible_with c t ob \<longleftrightarrow>
     inv_compatibility c = tgt_compatibility t \<and> obs_compatibility ob = Some (tgt_compatibility t)
     \<and> obs_schema_checksum ob = Some (tgt_schema_checksum t)
     \<and> obs_migration_checksums ob = Some (tgt_migration_checksums t)
     \<and> (tgt_requires_restore_build t \<longrightarrow> obs_restore_build_present ob = Some True)"

lemma compatibility_outcome_of:
  assumes "has_file (inv_materials c) MigrationChecksum"
  shows "compatibility_outcome (inventory_of c) t ob = None \<longleftrightarrow> compatible_with c t ob"
  using assms
  by (auto simp: compatibility_outcome_def compatible_with_def has_regular_file_of inventory_of_chk
      split: option.splits if_splits)

text \<open>The space a restore needs, as a number that cannot overflow.\<close>

definition needed_bytes :: "inventory_claim \<Rightarrow> restore_target \<Rightarrow> nat" where
  "needed_bytes c t = declared_total (inv_materials c) + unat (original_site_bytes (tgt_capacity t))
     + unat (margin_bytes (tgt_capacity t))"

lemma required_capacity_of:
  assumes "materials_fit c bounds (inv_materials c)"
  shows "required_capacity_bytes (inventory_of c) t = Some n \<longleftrightarrow> unat n = needed_bytes c t"
proof -
  have "declared_total (inv_materials c) \<le> unat (bnd_max_total_bytes bounds)"
    using assms by (simp add: materials_fit_def)
  also have "\<dots> < 2 ^ 64" using unsigned_less [of "bnd_max_total_bytes bounds", where ?'a = nat] by (simp del: unsigned_less)
  finally have tot: "unat (of_nat (declared_total (inv_materials c)) :: u64) = declared_total (inv_materials c)"
    by (simp add: unat_of_nat)
  show ?thesis
  proof (cases "checked_add (chk_total_bytes (inventory_of c)) (original_site_bytes (tgt_capacity t))")
    case None
    then have "2 ^ 64 \<le> declared_total (inv_materials c) + unat (original_site_bytes (tgt_capacity t))"
      by (simp add: checked_add_none inventory_of_def tot)
    moreover have "unat n < 2 ^ 64" using unsigned_less [of n, where ?'a = nat] by (simp del: unsigned_less)
    ultimately have "unat n \<noteq> needed_bytes c t" by (simp add: needed_bytes_def)
    with None show ?thesis by (simp add: required_capacity_bytes_def)
  next
    case (Some s)
    then have "unat s = declared_total (inv_materials c) + unat (original_site_bytes (tgt_capacity t))"
      by (simp add: checked_add_some inventory_of_def tot)
    then show ?thesis
      unfolding required_capacity_bytes_def Some option.case checked_add_some needed_bytes_def by simp
  qed
qed

section \<open>When there is a plan\<close>

definition plannable :: "restore_request \<Rightarrow> bool" where
  "plannable r \<longleftrightarrow>
     (let c = req_claim r; t = req_target r; ob = req_observations r in
      target_fits (req_bounds r) t \<and> inventory_fits (req_bounds r) c \<and> claim_complete c t \<and> identity_kept c t
      \<and> keys_match c t \<and> compatible_with c t ob
      \<and> (\<exists>available. obs_capacity ob = CapacityAvailable available \<and> needed_bytes c t \<le> unat available)
      \<and> unat (tgt_unknown_receipts t) \<le> length (claimed_unknown (inv_receipts c)))"

definition plan_for :: "restore_request \<Rightarrow> structural_plan" where
  "plan_for r =
     (let c = req_claim r; t = req_target r in
      \<lparr>plan_inventory = inventory_of c, plan_identity = fst (binding_of (inventory_of c) (tgt_mode t)),
       plan_follow_up = follow_up_required (tgt_mode t \<noteq> SameInstallation), plan_pending = pending_all,
       plan_required_capacity = of_nat (needed_bytes c t)\<rparr>)"

lemma claim_complete_migration: "claim_complete c t \<Longrightarrow> has_file (inv_materials c) MigrationChecksum"
  by (simp add: claim_complete_def required_kinds_def)

lemma snd_binding_of: "snd (binding_of checked mode) \<longleftrightarrow> mode \<noteq> SameInstallation"
  by (cases mode) (simp_all add: binding_of_def)

text \<open>The last two gates, with the capacity as a number.\<close>

lemma capacity_gate:
  assumes "materials_fit c bounds (inv_materials c)"
  shows "(\<exists>n b. required_capacity_bytes (inventory_of c) t = Some n \<and> cap = CapacityAvailable b \<and> \<not> b < n \<and> x = n)
    \<longleftrightarrow> (\<exists>b. cap = CapacityAvailable b \<and> needed_bytes c t \<le> unat b) \<and> x = of_nat (needed_bytes c t)"
proof -
  have read: "unat n = needed_bytes c t \<and> \<not> b < n \<and> x = n
      \<longleftrightarrow> needed_bytes c t \<le> unat b \<and> n = of_nat (needed_bytes c t) \<and> x = n" for n b :: u64
  proof
    assume l: "unat n = needed_bytes c t \<and> \<not> b < n \<and> x = n"
    then have "n = of_nat (needed_bytes c t)" by (metis of_nat_unat ucast_id)
    with l show "needed_bytes c t \<le> unat b \<and> n = of_nat (needed_bytes c t) \<and> x = n"
      by (simp add: word_less_nat_alt)
  next
    assume r: "needed_bytes c t \<le> unat b \<and> n = of_nat (needed_bytes c t) \<and> x = n"
    have "unat b < 2 ^ 64" using unsigned_less [of b, where ?'a = nat] by (simp del: unsigned_less)
    with r have "needed_bytes c t < 2 ^ 64" by linarith
    with r have "unat n = needed_bytes c t" by (simp add: unat_of_nat)
    with r show "unat n = needed_bytes c t \<and> \<not> b < n \<and> x = n" by (simp add: word_less_nat_alt)
  qed
  show ?thesis
    unfolding required_capacity_of [OF assms] using read by blast
qed

lemma plan_restore_plan: "plan_restore r = StructuralPlan p \<longleftrightarrow> plannable r \<and> p = plan_for r"
proof -
  let ?c = "req_claim r" and ?t = "req_target r" and ?ob = "req_observations r" and ?b = "req_bounds r"
  let ?gates = "target_fits ?b ?t \<and> inventory_fits ?b ?c \<and> claim_complete ?c ?t \<and> identity_kept ?c ?t
      \<and> keys_match ?c ?t \<and> compatible_with ?c ?t ?ob"
  let ?plan = "\<lambda>n. \<lparr>plan_inventory = inventory_of ?c, plan_identity = fst (binding_of (inventory_of ?c) (tgt_mode ?t)),
      plan_follow_up = follow_up_required (tgt_mode ?t \<noteq> SameInstallation), plan_pending = pending_all,
      plan_required_capacity = n\<rparr>"
  have receipts: "\<not> (0 < m \<and> length (rcp_unknown (chk_receipts (inventory_of ?c))) < unat m)
      \<longleftrightarrow> unat m \<le> length (claimed_unknown (inv_receipts ?c))" for m :: u32
    by (auto simp: inventory_of_def receipts_of_def not_less word_less_nat_alt)
  have end_gates: "(case required_capacity_bytes (inventory_of ?c) ?t of None \<Rightarrow> Rejected AccumulatedOverflow
      | Some n \<Rightarrow> case obs_capacity ?ob of CapacityMissing \<Rightarrow> incomplete MissingCapacityFacts (Some (inventory_of ?c))
        | CapacityAvailable bytes \<Rightarrow>
            if bytes < n then blocked InsufficientCapacity (inventory_of ?c)
            else if tgt_unknown_receipts ?t > 0
                 \<and> length (rcp_unknown (chk_receipts (inventory_of ?c))) < unat (tgt_unknown_receipts ?t)
            then incomplete MissingUnknownReceipts (Some (inventory_of ?c))
            else (let (identity, bind_new) = binding_of (inventory_of ?c) (tgt_mode ?t) in
              StructuralPlan \<lparr>plan_inventory = inventory_of ?c, plan_identity = identity,
                plan_follow_up = follow_up_required bind_new, plan_pending = pending_all,
                plan_required_capacity = n\<rparr>)) = StructuralPlan p
      \<longleftrightarrow> (\<exists>n b. required_capacity_bytes (inventory_of ?c) ?t = Some n \<and> obs_capacity ?ob = CapacityAvailable b \<and> \<not> b < n
          \<and> \<not> (0 < tgt_unknown_receipts ?t
              \<and> length (rcp_unknown (chk_receipts (inventory_of ?c))) < unat (tgt_unknown_receipts ?t))
          \<and> p = ?plan n)"
    by (auto simp: incomplete_def blocked_def split_beta snd_binding_of split: option.splits capacity_observation.splits)
  have gates: "plan_restore r = StructuralPlan p \<longleftrightarrow> ?gates
      \<and> (\<exists>n b. required_capacity_bytes (inventory_of ?c) ?t = Some n \<and> obs_capacity ?ob = CapacityAvailable b \<and> \<not> b < n
          \<and> \<not> (0 < tgt_unknown_receipts ?t
              \<and> length (rcp_unknown (chk_receipts (inventory_of ?c))) < unat (tgt_unknown_receipts ?t))
          \<and> p = ?plan n)"
  proof (cases ?gates)
    case True
    then have "validate_target ?t ?b = Ok ()" "check_inventory ?c ?b = Ok (inventory_of ?c)"
        "missing_required (inventory_of ?c) ?t = None" "identity_block (inventory_of ?c) ?t = None"
        "key_block (inventory_of ?c) ?t = None" "compatibility_outcome (inventory_of ?c) ?t ?ob = None"
      using claim_complete_migration [of ?c ?t]
      by (simp_all add: validate_target_ok check_inventory_ok missing_required_of [of ?b] identity_block_of
          key_block_of compatibility_outcome_of)
    with True show ?thesis
      unfolding end_gates [symmetric] by (simp add: plan_restore_def Let_def)
  next
    case False
    have "\<not> plan_restore r = StructuralPlan p"
    proof
      assume plan: "plan_restore r = StructuralPlan p"
      have not_plan: "incomplete why inv \<noteq> StructuralPlan p" "blocked because checked \<noteq> StructuralPlan p"
          "into_outcome gate checked \<noteq> StructuralPlan p" for why inv because checked gate
        by (cases gate; simp add: incomplete_def blocked_def)+
      from plan obtain u checked where ok: "validate_target ?t ?b = Ok u" "check_inventory ?c ?b = Ok checked"
          "missing_required checked ?t = None" "identity_block checked ?t = None"
          "key_block checked ?t = None" "compatibility_outcome checked ?t ?ob = None"
        unfolding plan_restore_def Let_def by (auto simp: not_plan split: sum.splits option.splits)
      from ok(1,2) have fits: "target_fits ?b ?t" "inventory_fits ?b ?c" and checked: "checked = inventory_of ?c"
        by (simp_all add: validate_target_ok check_inventory_ok)
      with ok(3-6) have "claim_complete ?c ?t" "identity_kept ?c ?t" "keys_match ?c ?t"
        by (simp_all add: missing_required_of [of ?b] identity_block_of key_block_of)
      with fits ok(6) checked False claim_complete_migration [of ?c ?t] show False
        by (simp add: compatibility_outcome_of)
    qed
    with False show ?thesis by blast
  qed
  have "materials_fit ?c ?b (inv_materials ?c)" if ?gates
    using that by (simp add: inventory_fits_def)
  note capacity = capacity_gate [OF this, of ?t "obs_capacity ?ob"]
  have "plan_restore r = StructuralPlan p \<longleftrightarrow> ?gates
      \<and> unat (tgt_unknown_receipts ?t) \<le> length (claimed_unknown (inv_receipts ?c))
      \<and> (\<exists>x. (\<exists>n b. required_capacity_bytes (inventory_of ?c) ?t = Some n \<and> obs_capacity ?ob = CapacityAvailable b
            \<and> \<not> b < n \<and> x = n) \<and> p = ?plan x)"
    unfolding gates receipts by blast
  also have "\<dots> \<longleftrightarrow> ?gates
      \<and> unat (tgt_unknown_receipts ?t) \<le> length (claimed_unknown (inv_receipts ?c))
      \<and> (\<exists>b. obs_capacity ?ob = CapacityAvailable b \<and> needed_bytes ?c ?t \<le> unat b)
      \<and> p = ?plan (of_nat (needed_bytes ?c ?t))"
    using capacity by blast
  also have "\<dots> \<longleftrightarrow> plannable r \<and> p = plan_for r"
    by (auto simp: plannable_def plan_for_def Let_def)
  finally show ?thesis .
qed

text \<open>C30: A restore is planned exactly for the complete, matching and affordable backups: the outcome is a
  structural plan if and only if the claim passes every inventory check and has every required
  material and category, keeps the identity of the data, has the keys, schema, migrations and releases
  of the target, and needs (as a sum without overflow) no more than the space that was observed.\<close>

theorem restore_planned_exactly:
  "(case plan_restore r of
      StructuralPlan p \<Rightarrow> plannable r \<and> p = plan_for r
        \<and> unat (plan_required_capacity p) = needed_bytes (req_claim r) (req_target r)
    | _ \<Rightarrow> \<not> plannable r)"
proof (cases "plan_restore r")
  case (StructuralPlan p)
  then have plan: "plannable r" "p = plan_for r" using plan_restore_plan by simp_all
  then obtain b :: u64 where "needed_bytes (req_claim r) (req_target r) \<le> unat b"
    by (auto simp: plannable_def Let_def)
  moreover have "unat b < 2 ^ 64" using unsigned_less [of b, where ?'a = nat] by (simp del: unsigned_less)
  ultimately have "needed_bytes (req_claim r) (req_target r) < 2 ^ 64" by linarith
  with plan StructuralPlan show ?thesis by (simp add: plan_for_def Let_def unat_of_nat)
qed (use plan_restore_plan [of r "plan_for r"] in auto)

text \<open>The keys of a planned restore are the keys of the target: when the target lists every key id once,
  the backup refers to exactly those keys, each with the expected version and canary, and to no other.\<close>

theorem planned_keys_are_the_targets:
  assumes "plan_restore r = StructuralPlan p" and "distinct (map ref_key_id (tgt_vault_keys (req_target r)))"
  shows "mset (collect_key_refs (chk_key_binding (plan_inventory p))) = mset (tgt_vault_keys (req_target r))"
proof -
  let ?refs = "collect_key_refs (inv_key_binding (req_claim r))" and ?keys = "tgt_vault_keys (req_target r)"
  from assms(1) have "keys_match (req_claim r) (req_target r)" and p: "p = plan_for r"
    by (simp_all add: plan_restore_plan plannable_def Let_def)
  then have len: "length ?refs = length ?keys" and sub: "set ?keys \<subseteq> set ?refs"
    by (auto simp: keys_match_def dest: find_key)
  have d: "distinct ?keys" using assms(2) by (simp add: distinct_map)
  have "length ?keys = card (set ?keys)" using d by (simp add: distinct_card)
  also have "\<dots> \<le> card (set ?refs)" using sub by (simp add: card_mono)
  finally have "card (set ?refs) = length ?refs" using len card_length [of ?refs] by simp
  then have "distinct ?refs" by (simp add: card_distinct)
  moreover from this have "set ?refs = set ?keys"
    using sub d len by (metis card_subset_eq distinct_card finite_set)
  ultimately have "mset ?refs = mset ?keys" using d by (simp add: set_eq_iff_mset_eq_distinct)
  then show ?thesis by (simp add: p plan_for_def Let_def inventory_of_def)
qed

section \<open>An example\<close>

definition example_target :: restore_target where
  "example_target = \<lparr>tgt_mode = SameInstallation, tgt_dataset = DatasetIdentity ''d'', tgt_deployment = ''p'',
     tgt_tenant = ''t'', tgt_original_installation = InstallationIdentity ''i'', tgt_schema_checksum = 11,
     tgt_migration_checksums = [(''0001'', 12)], tgt_compatibility = inv_compatibility example_claim,
     tgt_requires_restore_build = True, tgt_vault_keys = [example_key], tgt_profiles_empty = True,
     tgt_workspaces_empty = True, tgt_unknown_receipts = 1,
     tgt_capacity = \<lparr>original_site_bytes = 20, margin_bytes = 5\<rparr>\<rparr>"

definition example_request :: restore_request where
  "example_request = \<lparr>req_claim = example_claim, req_target = example_target,
     req_observations = \<lparr>obs_schema_checksum = Some 11, obs_migration_checksums = Some [(''0001'', 12)],
       obs_compatibility = Some (inv_compatibility example_claim), obs_restore_build_present = Some True,
       obs_capacity = CapacityAvailable 35\<rparr>, req_bounds = bounds_standard\<rparr>"

lemma example_restore_plan: "plan_restore example_request = StructuralPlan (plan_for example_request)"
proof -
  have "target_fits bounds_standard example_target"
    by (simp add: target_fits_def example_target_def example_key_def bounds_standard_def inventory_eval)
  moreover have "inventory_fits bounds_standard example_claim"
    using example_accepted by (simp add: check_inventory_ok)
  moreover have "claim_complete example_claim example_target"
    by (simp add: claim_complete_def required_kinds_def has_file_def has_file_named_def keys_recoverable_def
        collect_key_refs_def category_settled_def example_claim_def example_material_def example_target_def)
  moreover have "identity_kept example_claim example_target" "keys_match example_claim example_target"
    by (simp_all add: identity_kept_def keys_match_def collect_key_refs_def example_claim_def example_target_def)
  moreover have "needed_bytes example_claim example_target \<le> unat (35 :: u64)"
    by (simp add: needed_bytes_def declared_total_def example_claim_def example_material_def example_target_def)
  moreover have "length (claimed_unknown (inv_receipts example_claim)) = 1" "tgt_unknown_receipts example_target = 1"
    by (simp_all add: example_claim_def example_target_def)
  ultimately have "plannable example_request"
    by (simp add: plannable_def example_request_def compatible_with_def example_target_def)
  then show ?thesis by (simp add: plan_restore_plan)
qed

theorem planned_keys_are_the_targets_witness:
  "mset (collect_key_refs (chk_key_binding (plan_inventory (plan_for example_request)))) = {#example_key#}"
  using planned_keys_are_the_targets [OF example_restore_plan] by (simp add: example_request_def example_target_def)

end
