(* ===== verification/BackupPostRestore.thy ===== *)
theory BackupPostRestore
  imports BackupPlan
begin

text \<open>
  What must happen after a restore, \<open>crates/openbot-domain/src/backup/post_restore.rs\<close>: from a structural
  plan and the authentication objects found in the snapshot, the plan of their disposal, of the receipts
  to keep and of the keys that stay readable. The lemmas say exactly which inputs are accepted and that
  the plan never brings anything back to life. The in-memory sizes of the plan's Rust types, which
  the compiler chooses, are the parameter \<open>sizes\<close>.
\<close>

section \<open>Bounds, inputs and faults\<close>

definition max_objects_limit :: u32 where "max_objects_limit = 8192"
definition max_id_bytes_limit :: u16 where "max_id_bytes_limit = 128"
definition max_total_id_bytes_limit :: u64 where "max_total_id_bytes_limit = 1048576"
definition max_output_bytes_limit :: u64 where "max_output_bytes_limit = 2097152"
definition max_plan_items :: nat where "max_plan_items = 16384"

record post_bounds =
  pb_max_objects :: u32
  pb_max_id_bytes :: u16
  pb_max_total_id_bytes :: u64
  pb_max_output_bytes :: u64

datatype post_fault =
    PostBoundsInvalid
  | PostIdentityInvalid
  | PostSecretMaterialForbidden
  | ProseRejected
  | UnknownCategory
  | DuplicateTarget
  | BindingMismatch
  | PostCountOutOfBounds
  | PostLengthOutOfBounds
  | PostAccumulatedOverflow

fun post_fault_str :: "post_fault \<Rightarrow> string" where
  "post_fault_str PostBoundsInvalid = ''backup_post_restore_bounds_invalid''"
| "post_fault_str PostIdentityInvalid = ''backup_post_restore_identity_invalid''"
| "post_fault_str PostSecretMaterialForbidden = ''backup_post_restore_secret_material_forbidden''"
| "post_fault_str ProseRejected = ''backup_post_restore_prose_rejected''"
| "post_fault_str UnknownCategory = ''backup_post_restore_unknown_category''"
| "post_fault_str DuplicateTarget = ''backup_post_restore_duplicate_target''"
| "post_fault_str BindingMismatch = ''backup_post_restore_binding_mismatch''"
| "post_fault_str PostCountOutOfBounds = ''backup_post_restore_count_out_of_bounds''"
| "post_fault_str PostLengthOutOfBounds = ''backup_post_restore_length_out_of_bounds''"
| "post_fault_str PostAccumulatedOverflow = ''backup_post_restore_accumulated_overflow''"

definition post_bounds_standard :: post_bounds where
  "post_bounds_standard = \<lparr>pb_max_objects = max_objects_limit, pb_max_id_bytes = max_id_bytes_limit,
     pb_max_total_id_bytes = max_total_id_bytes_limit, pb_max_output_bytes = max_output_bytes_limit\<rparr>"

definition post_bounds_try_new :: "u32 \<Rightarrow> u16 \<Rightarrow> u64 \<Rightarrow> u64 \<Rightarrow> (post_fault, post_bounds) result" where
  "post_bounds_try_new max_objects max_id_bytes max_total_id_bytes max_output_bytes =
     (if max_objects = 0 \<or> max_id_bytes = 0 \<or> max_total_id_bytes = 0 \<or> max_output_bytes = 0
         \<or> max_objects > max_objects_limit \<or> max_id_bytes > max_id_bytes_limit
         \<or> max_total_id_bytes > max_total_id_bytes_limit \<or> max_output_bytes > max_output_bytes_limit
      then Err PostBoundsInvalid
      else Ok \<lparr>pb_max_objects = max_objects, pb_max_id_bytes = max_id_bytes,
        pb_max_total_id_bytes = max_total_id_bytes, pb_max_output_bytes = max_output_bytes\<rparr>)"

record auth_object =
  obj_id :: string
  obj_kind :: string
  obj_actor :: "string option"
  obj_dataset :: string
  obj_deployment :: string
  obj_installation :: "string option"
  obj_claimed_active :: bool

record post_request =
  post_structural :: structural_plan
  post_objects :: "auth_object list"
  post_limits :: post_bounds

section \<open>Kinds of authentication material\<close>

datatype auth_kind =
    AuthSession | Approval | Lease | Ticket | Capability | OauthState | RunAssertion
  | RemoteDeviceRegistration | ConnectionCredential

definition category_order :: "auth_kind list" where
  "category_order = [AuthSession, Approval, Lease, Ticket, Capability, OauthState, RunAssertion,
     RemoteDeviceRegistration, ConnectionCredential]"

fun auth_kind_str :: "auth_kind \<Rightarrow> string" where
  "auth_kind_str AuthSession = ''auth_session''"
| "auth_kind_str Approval = ''approval''"
| "auth_kind_str Lease = ''lease''"
| "auth_kind_str Ticket = ''ticket''"
| "auth_kind_str Capability = ''capability''"
| "auth_kind_str OauthState = ''oauth_state''"
| "auth_kind_str RunAssertion = ''run_assertion''"
| "auth_kind_str RemoteDeviceRegistration = ''remote_device_registration''"
| "auth_kind_str ConnectionCredential = ''connection_credential''"

definition parse_kind :: "string \<Rightarrow> (post_fault, auth_kind) result" where
  "parse_kind value =
     (if value = ''auth_session'' then Ok AuthSession
      else if value = ''approval'' then Ok Approval
      else if value = ''lease'' then Ok Lease
      else if value = ''ticket'' then Ok Ticket
      else if value = ''capability'' then Ok Capability
      else if value = ''oauth_state'' then Ok OauthState
      else if value = ''run_assertion'' then Ok RunAssertion
      else if value = ''remote_device_registration'' then Ok RemoteDeviceRegistration
      else if value = ''connection_credential'' then Ok ConnectionCredential
      else Err UnknownCategory)"

definition requires_actor :: "auth_kind \<Rightarrow> bool" where
  "requires_actor kind \<longleftrightarrow> kind \<noteq> RemoteDeviceRegistration"

definition requires_installation :: "auth_kind \<Rightarrow> bool" where
  "requires_installation kind \<longleftrightarrow> kind = Lease \<or> kind = Ticket \<or> kind = RemoteDeviceRegistration"

datatype disposition_kind = RetireShortLived | RequireReconfirm | RequireReregistration

fun disposition_kind_str :: "disposition_kind \<Rightarrow> string" where
  "disposition_kind_str RetireShortLived = ''retire_short_lived''"
| "disposition_kind_str RequireReconfirm = ''require_reconfirm''"
| "disposition_kind_str RequireReregistration = ''require_reregistration''"

fun default_disposition :: "auth_kind \<Rightarrow> disposition_kind" where
  "default_disposition ConnectionCredential = RequireReconfirm"
| "default_disposition RemoteDeviceRegistration = RequireReregistration"
| "default_disposition _ = RetireShortLived"

section \<open>The plan\<close>

record category_rule =
  rule_kind :: auth_kind
  rule_disposition :: disposition_kind
  empty_inventory_still_requires_invalidation :: bool

record object_disposition =
  disp_id :: string
  disp_kind :: auth_kind
  disp_disposition :: disposition_kind
  disp_actor :: "string option"
  disp_dataset :: string
  disp_deployment :: string
  disp_installation :: "string option"
  disp_claimed_active :: bool
  grants_use_from_snapshot :: bool
  disp_restores_active_lease :: bool
  rebuilds_dispatch :: bool
  resurrects_vendor_revocation :: bool

datatype receipt_class = ClassCommitted | ClassUnknown | ClassTool

fun receipt_class_str :: "receipt_class \<Rightarrow> string" where
  "receipt_class_str ClassCommitted = ''committed''"
| "receipt_class_str ClassUnknown = ''unknown''"
| "receipt_class_str ClassTool = ''tool''"

record receipt_retention =
  ret_id :: string
  ret_class :: receipt_class
  original_class_preserved :: bool
  dispatch_scheduled :: bool
  unknown_promoted :: bool
  unknown_retryable :: bool
  unconfirmed_reconciliation :: bool

record historical_decrypt_ref =
  hist_key_id :: string
  hist_key_version :: key_version
  hist_canary :: digest
  retain_decrypt_capability :: bool
  removed_by_auth_invalidation :: bool

datatype epoch_derivation = FreshRandomRequired

record epoch_obligation =
  epoch_required :: bool
  epoch_issued :: bool
  epoch_derivation_of :: epoch_derivation

definition uses_old_counter_plus_one :: "epoch_obligation \<Rightarrow> bool" where
  "uses_old_counter_plus_one e \<longleftrightarrow> \<not> (epoch_derivation_of e = FreshRandomRequired)"

definition uses_timestamp :: "epoch_obligation \<Rightarrow> bool" where
  "uses_timestamp e \<longleftrightarrow> \<not> (epoch_derivation_of e = FreshRandomRequired)"

definition uses_fixed_hash :: "epoch_obligation \<Rightarrow> bool" where
  "uses_fixed_hash e \<longleftrightarrow> \<not> (epoch_derivation_of e = FreshRandomRequired)"

record global_obligations =
  glob_epoch :: epoch_obligation
  glob_invalidate_old_auth :: bool
  invalidate_performed :: bool
  glob_reconfirm_credentials :: bool
  keep_receipts :: bool
  glob_must_not_replay_unknown :: bool
  caller_inventory_is_complete_snapshot :: bool
  listed_dispositions_already_revoked :: bool

record post_plan =
  post_bundle :: bundle_identity
  post_barrier :: barrier_identity
  post_manifest :: digest
  post_identity :: identity_binding
  post_pending :: pending_proofs
  post_follow_up :: follow_up_requirements
  post_installation :: installation_identity
  post_global :: global_obligations
  post_rules :: "category_rule list"
  post_dispositions :: "object_disposition list"
  post_retentions :: "receipt_retention list"
  post_decrypt_refs :: "historical_decrypt_ref list"
  post_input_count :: u32
  post_identifier_bytes :: u64
  post_output_bytes :: u64

section \<open>Checks of one object\<close>

definition post_reject_secret_token :: "string \<Rightarrow> (post_fault, unit) result" where
  "post_reject_secret_token value =
     (let folded = fold_ascii value in
      if contains_str folded ''password'' \<or> contains_str folded ''secret'' \<or> contains_str folded ''cookie''
         \<or> contains_str folded ''token'' \<or> contains_str folded ''private-key'' \<or> contains_str folded ''private_key''
         \<or> contains_str folded ''master-key'' \<or> contains_str folded ''master_key''
         \<or> contains_str folded ''recovery-key'' \<or> contains_str folded ''recovery_key''
         \<or> contains_str folded ''scram-hash''
      then Err PostSecretMaterialForbidden
      else Ok ())"

definition is_ascii_whitespace :: "char \<Rightarrow> bool" where
  "is_ascii_whitespace b \<longleftrightarrow> b = CHR 0x20 \<or> b = CHR 0x09 \<or> b = CHR 0x0A \<or> b = CHR 0x0C \<or> b = CHR 0x0D"

definition check_identifier :: "string \<Rightarrow> post_bounds \<Rightarrow> (post_fault, unit) result" where
  "check_identifier value bounds =
     (if value = [] \<or> length value > unat (pb_max_id_bytes bounds) then Err PostIdentityInvalid
      else if list_ex (\<lambda>b. b = CHR 0x00 \<or> b = CHR ''/'' \<or> b = CHR 0x5C \<or> b = CHR '':'') value
      then Err PostIdentityInvalid
      else and_then (post_reject_secret_token value) (\<lambda>_.
        if list_ex is_ascii_whitespace value \<or> contains_str value ''. '' \<or> contains_str value ''? ''
           \<or> contains_str value ''! ''
        then Err ProseRejected
        else Ok ()))"

definition is_wide_target :: "string \<Rightarrow> bool" where
  "is_wide_target value \<longleftrightarrow> value = ''*'' \<or> value = ''all'' \<or> value = ''any'' \<or> value = ''global''"

record checked_object =
  co_id :: string
  co_kind :: auth_kind
  co_actor :: "string option"
  co_dataset :: string
  co_deployment :: string
  co_installation :: "string option"
  co_claimed_active :: bool

definition check_object ::
  "auth_object \<Rightarrow> inventory_checked \<Rightarrow> installation_identity \<Rightarrow> post_bounds \<Rightarrow> (post_fault, checked_object) result" where
  "check_object claim inventory original bounds =
     and_then (checks
       [check_identifier (obj_id claim) bounds,
        check_identifier (obj_kind claim) bounds,
        check_identifier (obj_dataset claim) bounds,
        check_identifier (obj_deployment claim) bounds,
        (case obj_actor claim of Some actor \<Rightarrow> check_identifier actor bounds | None \<Rightarrow> Ok ()),
        (case obj_installation claim of Some i \<Rightarrow> check_identifier i bounds | None \<Rightarrow> Ok ()),
        (if is_wide_target (obj_id claim) then Err BindingMismatch else Ok ())]) (\<lambda>_.
     and_then (parse_kind (obj_kind claim)) (\<lambda>kind.
     if requires_actor kind \<and> obj_actor claim = None then Err BindingMismatch
     else if requires_installation kind \<and> obj_installation claim = None then Err BindingMismatch
     else if (case obj_actor claim of Some actor \<Rightarrow> is_wide_target actor | None \<Rightarrow> False) then Err BindingMismatch
     else if obj_dataset claim \<noteq> dataset_id (chk_dataset inventory) \<or> is_wide_target (obj_dataset claim)
     then Err BindingMismatch
     else if obj_deployment claim \<noteq> chk_deployment inventory \<or> is_wide_target (obj_deployment claim)
     then Err BindingMismatch
     else if (case obj_installation claim of
                Some i \<Rightarrow> i \<noteq> installation_id original \<or> is_wide_target i
              | None \<Rightarrow> False) then Err BindingMismatch
     else Ok \<lparr>co_id = obj_id claim, co_kind = kind, co_actor = obj_actor claim, co_dataset = obj_dataset claim,
       co_deployment = obj_deployment claim, co_installation = obj_installation claim,
       co_claimed_active = obj_claimed_active claim\<rparr>))"

section \<open>Counting bytes\<close>

text \<open>\<open>usize\<close> has 64 bits.\<close>

definition usize_checked_mul :: "nat \<Rightarrow> nat \<Rightarrow> nat option" where
  "usize_checked_mul a b = (if a * b < 2 ^ 64 then Some (a * b) else None)"

fun usize_sum :: "nat \<Rightarrow> nat list \<Rightarrow> nat option" where
  "usize_sum n [] = Some n"
| "usize_sum n (m # ms) = (if n + m < 2 ^ 64 then usize_sum (n + m) ms else None)"

definition add_bytes :: "u64 \<Rightarrow> nat \<Rightarrow> (post_fault, u64) result" where
  "add_bytes n len =
     (if len \<ge> 2 ^ 64 then Err PostAccumulatedOverflow
      else ok_or PostAccumulatedOverflow (checked_add n (of_nat len)))"

fun identity_ids :: "identity_binding \<Rightarrow> string list" where
  "identity_ids (BindSame i d p t) = [installation_id i, dataset_id d, p, t]"
| "identity_ids (BindNew old new d p t _) = [installation_id old, installation_id new, dataset_id d, p, t]"

fun identity_loop :: "post_bounds \<Rightarrow> u64 \<Rightarrow> string list \<Rightarrow> (post_fault, u64) result" where
  "identity_loop bounds n [] = Ok n"
| "identity_loop bounds n (i # is) =
     (if i = [] \<or> length i > unat (pb_max_id_bytes bounds) then Err PostIdentityInvalid
      else and_then (add_bytes n (length i)) (\<lambda>n'. identity_loop bounds n' is))"

definition option_lengths :: "string option \<Rightarrow> nat list" where
  "option_lengths v = (case v of Some s \<Rightarrow> [length s] | None \<Rightarrow> [])"

definition object_lengths :: "checked_object \<Rightarrow> nat list" where
  "object_lengths o' = [length (co_id o')] @ option_lengths (co_actor o')
     @ [length (co_dataset o'), length (co_deployment o')] @ option_lengths (co_installation o')"

type_synonym object_scan = "string set \<times> u64 \<times> checked_object list"

definition object_step ::
  "inventory_checked \<Rightarrow> installation_identity \<Rightarrow> post_bounds \<Rightarrow> object_scan \<Rightarrow> auth_object \<Rightarrow> (post_fault, object_scan) result" where
  "object_step inventory original bounds scan claim =
     (let (seen, n, validated) = scan in
      and_then (check_object claim inventory original bounds) (\<lambda>checked.
      if co_id checked \<in> seen then Err DuplicateTarget
      else and_then (try_fold add_bytes n (object_lengths checked)) (\<lambda>n'.
        if n' > pb_max_total_id_bytes bounds then Err PostLengthOutOfBounds
        else Ok (insert (co_id checked) seen, n', validated @ [checked]))))"

fun listed_ids_loop :: "post_bounds \<Rightarrow> u64 \<Rightarrow> string list \<Rightarrow> (post_fault, u64) result" where
  "listed_ids_loop bounds n [] = Ok n"
| "listed_ids_loop bounds n (i # is) =
     (if length i > unat (pb_max_id_bytes bounds) then Err PostIdentityInvalid
      else and_then (add_bytes n (length i)) (\<lambda>n'.
        if n' > pb_max_total_id_bytes bounds then Err PostLengthOutOfBounds
        else listed_ids_loop bounds n' is))"

definition receipt_ids :: "checked_receipts \<Rightarrow> string list" where
  "receipt_ids r = rcp_committed r @ rcp_unknown r @ rcp_tool r"

record type_sizes =
  size_plan :: nat
  size_disposition :: nat
  size_retention :: nat
  size_decrypt_ref :: nat
  size_rule :: nat

definition estimate_output_bytes ::
  "type_sizes \<Rightarrow> identity_binding \<Rightarrow> installation_identity \<Rightarrow> checked_object list \<Rightarrow> checked_receipts
     \<Rightarrow> vault_key_ref list \<Rightarrow> (post_fault, u64) result" where
  "estimate_output_bytes sizes identity original objects receipts keys =
     and_then (ok_or PostAccumulatedOverflow (usize_checked_mul (length objects) (size_disposition sizes))) (\<lambda>objects_bytes.
     and_then (add_bytes (of_nat (size_plan sizes)) objects_bytes) (\<lambda>n.
     and_then (ok_or PostAccumulatedOverflow
       (usize_sum (length (rcp_committed receipts)) [length (rcp_unknown receipts), length (rcp_tool receipts)])) (\<lambda>receipt_count.
     and_then (ok_or PostAccumulatedOverflow (usize_checked_mul receipt_count (size_retention sizes))) (\<lambda>receipts_bytes.
     and_then (add_bytes n receipts_bytes) (\<lambda>n.
     and_then (ok_or PostAccumulatedOverflow (usize_checked_mul (length keys) (size_decrypt_ref sizes))) (\<lambda>keys_bytes.
     and_then (add_bytes n keys_bytes) (\<lambda>n.
       try_fold add_bytes n
         ([length category_order * size_rule sizes]
          @ map length (identity_ids identity) @ [length (installation_id original)]
          @ concat (map (\<lambda>kind. [length (auth_kind_str kind), length (disposition_kind_str (default_disposition kind))])
              category_order)
          @ concat (map (\<lambda>item.
              [length (co_id item), length (auth_kind_str (co_kind item))] @ option_lengths (co_actor item)
              @ [length (co_dataset item), length (co_deployment item)] @ option_lengths (co_installation item)
              @ [length (disposition_kind_str (default_disposition (co_kind item)))]) objects)
          @ map length (receipt_ids receipts) @ map (length \<circ> ref_key_id) keys))))))))"

section \<open>Building the plan\<close>

definition receipt_item :: "string \<Rightarrow> receipt_class \<Rightarrow> bool \<Rightarrow> receipt_retention" where
  "receipt_item i c reconcile = \<lparr>ret_id = i, ret_class = c, original_class_preserved = True,
     dispatch_scheduled = False, unknown_promoted = False, unknown_retryable = False,
     unconfirmed_reconciliation = reconcile\<rparr>"

definition retain_receipts :: "checked_receipts \<Rightarrow> receipt_retention list" where
  "retain_receipts receipts =
     map (\<lambda>i. receipt_item i ClassCommitted False) (rcp_committed receipts)
     @ map (\<lambda>i. receipt_item i ClassUnknown True) (rcp_unknown receipts)
     @ map (\<lambda>i. receipt_item i ClassTool False) (rcp_tool receipts)"

definition retain_keys :: "vault_key_ref list \<Rightarrow> historical_decrypt_ref list" where
  "retain_keys keys = map (\<lambda>key. \<lparr>hist_key_id = ref_key_id key, hist_key_version = ref_key_version key,
     hist_canary = ref_canary key, retain_decrypt_capability = True, removed_by_auth_invalidation = False\<rparr>) keys"

definition disposition_of :: "checked_object \<Rightarrow> object_disposition" where
  "disposition_of item = \<lparr>disp_id = co_id item, disp_kind = co_kind item,
     disp_disposition = default_disposition (co_kind item), disp_actor = co_actor item, disp_dataset = co_dataset item,
     disp_deployment = co_deployment item, disp_installation = co_installation item,
     disp_claimed_active = co_claimed_active item, grants_use_from_snapshot = False,
     disp_restores_active_lease = False, rebuilds_dispatch = False, resurrects_vendor_revocation = False\<rparr>"

definition rule_of :: "auth_kind \<Rightarrow> category_rule" where
  "rule_of kind = \<lparr>rule_kind = kind, rule_disposition = default_disposition kind,
     empty_inventory_still_requires_invalidation = True\<rparr>"

definition obligations :: global_obligations where
  "obligations = \<lparr>glob_epoch = \<lparr>epoch_required = True, epoch_issued = False, epoch_derivation_of = FreshRandomRequired\<rparr>,
     glob_invalidate_old_auth = True, invalidate_performed = False, glob_reconfirm_credentials = True,
     keep_receipts = True, glob_must_not_replay_unknown = True, caller_inventory_is_complete_snapshot = False,
     listed_dispositions_already_revoked = False\<rparr>"

definition plan_post_restore :: "type_sizes \<Rightarrow> post_request \<Rightarrow> (post_fault, post_plan) result" where
  "plan_post_restore sizes request =
     (let bounds = post_limits request; structural = post_structural request;
          inventory = plan_inventory structural; original = chk_installation inventory;
          objects = post_objects request; receipts = chk_receipts inventory;
          keys = collect_key_refs (chk_key_binding inventory) in
      if pb_max_objects bounds = 0 \<or> pb_max_id_bytes bounds = 0 \<or> pb_max_total_id_bytes bounds = 0
         \<or> pb_max_output_bytes bounds = 0
      then Err PostBoundsInvalid
      else if length objects \<ge> 2 ^ 32 then Err PostAccumulatedOverflow
      else if length objects > unat (pb_max_objects bounds) then Err PostCountOutOfBounds
      else and_then (identity_loop bounds 0 (identity_ids (plan_identity structural)
        @ [bundle_id (chk_bundle inventory), barrier_id (chk_barrier inventory), installation_id original])) (\<lambda>n0.
      if n0 > pb_max_total_id_bytes bounds then Err PostLengthOutOfBounds
      else and_then (try_fold (object_step inventory original bounds) ({}, n0, []) objects) (\<lambda>(seen, n1, validated).
      and_then (listed_ids_loop bounds n1 (receipt_ids receipts)) (\<lambda>n2.
      and_then (ok_or PostAccumulatedOverflow (usize_sum (length objects)
        [length (rcp_committed receipts), length (rcp_unknown receipts), length (rcp_tool receipts), length keys,
         length category_order])) (\<lambda>total_items.
      if total_items > max_plan_items then Err PostCountOutOfBounds
      else and_then (listed_ids_loop bounds n2 (map ref_key_id keys)) (\<lambda>identifier_bytes.
      and_then (estimate_output_bytes sizes (plan_identity structural) original validated receipts keys) (\<lambda>estimated.
      and_then (try_fold add_bytes estimated
        [length (bundle_id (chk_bundle inventory)), length (barrier_id (chk_barrier inventory))]) (\<lambda>output_bytes.
      if output_bytes > pb_max_output_bytes bounds then Err PostLengthOutOfBounds
      else and_then (ok_or BindingMismatch (find (\<lambda>item. chk_kind item = BundleManifest) (chk_materials inventory))) (\<lambda>manifest.
        Ok \<lparr>post_bundle = chk_bundle inventory, post_barrier = chk_barrier inventory, post_manifest = chk_digest manifest,
          post_identity = plan_identity structural, post_pending = plan_pending structural,
          post_follow_up = plan_follow_up structural, post_installation = original, post_global = obligations,
          post_rules = map rule_of category_order, post_dispositions = map disposition_of validated,
          post_retentions = retain_receipts receipts, post_decrypt_refs = retain_keys keys,
          post_input_count = of_nat (length objects), post_identifier_bytes = identifier_bytes,
          post_output_bytes = output_bytes\<rparr>)))))))))"

section \<open>Questions the plan answers\<close>

fun original_dataset :: "identity_binding \<Rightarrow> string" where
  "original_dataset (BindSame _ d _ _) = dataset_id d"
| "original_dataset (BindNew _ _ d _ _ _) = dataset_id d"

definition applies_fresh_identity_derivation :: "post_plan \<Rightarrow> bool" where
  "applies_fresh_identity_derivation plan \<longleftrightarrow>
     list_ex (\<lambda>item. disp_dataset item \<noteq> original_dataset (post_identity plan)) (post_dispositions plan)"

definition preserves_record_ids :: "post_plan \<Rightarrow> bool" where
  "preserves_record_ids plan \<longleftrightarrow>
     (case post_identity plan of BindSame _ _ _ _ \<Rightarrow> True | BindNew _ _ _ _ _ preserved \<Rightarrow> preserved)"

definition restore_authorized :: "post_plan \<Rightarrow> bool" where
  "restore_authorized plan \<longleftrightarrow> restore_authorized_proof (post_pending plan) \<noteq> NotGranted"

definition application_ready :: "post_plan \<Rightarrow> bool" where
  "application_ready plan \<longleftrightarrow> application_ready_proof (post_pending plan) \<noteq> NotGranted"

definition issues_recovery_epoch :: "post_plan \<Rightarrow> bool" where
  "issues_recovery_epoch plan \<longleftrightarrow>
     (let e = glob_epoch (post_global plan) in
      epoch_issued e \<or> uses_old_counter_plus_one e \<or> uses_timestamp e \<or> uses_fixed_hash e)"

definition post_schedules_unknown_replay :: "post_plan \<Rightarrow> bool" where
  "post_schedules_unknown_replay plan \<longleftrightarrow>
     list_ex (\<lambda>item. ret_class item = ClassUnknown
       \<and> (dispatch_scheduled item \<or> unknown_retryable item \<or> unknown_promoted item)) (post_retentions plan)
     \<or> \<not> must_not_replay_unknown (post_follow_up plan) \<or> \<not> glob_must_not_replay_unknown (post_global plan)"

definition restores_active_lease :: "post_plan \<Rightarrow> bool" where
  "restores_active_lease plan \<longleftrightarrow>
     list_ex (\<lambda>item. disp_kind item = Lease \<and> disp_restores_active_lease item) (post_dispositions plan)"

definition restores_dispatch :: "post_plan \<Rightarrow> bool" where
  "restores_dispatch plan \<longleftrightarrow>
     list_ex rebuilds_dispatch (post_dispositions plan) \<or> list_ex dispatch_scheduled (post_retentions plan)"

definition snapshot_active_grants_use :: "post_plan \<Rightarrow> bool" where
  "snapshot_active_grants_use plan \<longleftrightarrow>
     list_ex (\<lambda>item. disp_claimed_active item \<and> grants_use_from_snapshot item) (post_dispositions plan)"

definition promotes_unknown_to_success :: "post_plan \<Rightarrow> bool" where
  "promotes_unknown_to_success plan \<longleftrightarrow>
     list_ex (\<lambda>item. ret_class item = ClassUnknown \<and> unknown_promoted item) (post_retentions plan)"

definition resurrects_vendor_revoked_account :: "post_plan \<Rightarrow> bool" where
  "resurrects_vendor_revoked_account plan \<longleftrightarrow>
     list_ex (\<lambda>item. disp_kind item = ConnectionCredential \<and> resurrects_vendor_revocation item) (post_dispositions plan)"

definition deletes_historical_decrypt_keys :: "post_plan \<Rightarrow> bool" where
  "deletes_historical_decrypt_keys plan \<longleftrightarrow>
     list_ex (\<lambda>item. removed_by_auth_invalidation item \<or> \<not> retain_decrypt_capability item) (post_decrypt_refs plan)"

definition listed_dispositions_mean_already_revoked :: "post_plan \<Rightarrow> bool" where
  "listed_dispositions_mean_already_revoked plan \<longleftrightarrow>
     listed_dispositions_already_revoked (post_global plan) \<or> invalidate_performed (post_global plan)"

section \<open>What is accepted\<close>

lemma add_bytes_ok: "add_bytes n len = Ok m \<longleftrightarrow> unat m = unat n + len"
proof (cases "len < 2 ^ 64")
  case True
  then have "unat (of_nat len :: u64) = len" by (simp add: unat_of_nat)
  with True show ?thesis by (simp add: add_bytes_def ok_or_ok checked_add_some)
next
  case False
  moreover have "unat m < 2 ^ 64" using unsigned_less [of m, where ?'a = nat] by (simp del: unsigned_less)
  ultimately show ?thesis by (simp add: add_bytes_def)
qed

lemma word_exists: "\<exists>w :: u64. unat w = n" if "n \<le> unat (m :: u64)"
proof -
  have "unat m < 2 ^ 64" using unsigned_less [of m, where ?'a = nat] by (simp del: unsigned_less)
  with that have "unat (of_nat n :: u64) = n" by (simp add: unat_of_nat)
  then show ?thesis by blast
qed

lemma add_all_ok: "try_fold add_bytes n lens = Ok m \<longleftrightarrow> unat m = unat n + sum_list lens"
proof (induction lens arbitrary: n)
  case Nil
  then show ?case by (auto intro: word_unat_eq_iff [THEN iffD2])
next
  case (Cons l lens)
  show ?case
  proof
    assume "try_fold add_bytes n (l # lens) = Ok m"
    then show "unat m = unat n + sum_list (l # lens)"
      unfolding try_fold_Cons_ok Cons.IH by (auto simp: add_bytes_ok)
  next
    assume m: "unat m = unat n + sum_list (l # lens)"
    then obtain w :: u64 where "unat w = unat n + l" using word_exists [of "unat n + l" m] by auto
    with m show "try_fold add_bytes n (l # lens) = Ok m"
      unfolding try_fold_Cons_ok Cons.IH by (auto simp: add_bytes_ok intro!: exI [of _ w])
  qed
qed

lemma identity_loop_ok:
  "identity_loop bounds n is = Ok m \<longleftrightarrow>
     (\<forall>i\<in>set is. i \<noteq> [] \<and> length i \<le> unat (pb_max_id_bytes bounds)) \<and> unat m = unat n + sum_list (map length is)"
proof (induction "is" arbitrary: n)
  case Nil
  then show ?case by (auto intro: word_unat_eq_iff [THEN iffD2])
next
  case (Cons i "is")
  have "(\<exists>w. add_bytes n (length i) = Ok w \<and> identity_loop bounds w is = Ok m) \<longleftrightarrow>
      (\<forall>i\<in>set is. i \<noteq> [] \<and> length i \<le> unat (pb_max_id_bytes bounds)) \<and> unat m = unat n + sum_list (map length (i # is))"
  proof (cases "unat n + length i \<le> unat m")
    case True
    then obtain w :: u64 where w: "unat w = unat n + length i" using word_exists by blast
    then have "add_bytes n (length i) = Ok v \<longleftrightarrow> v = w" for v
      by (auto simp: add_bytes_ok intro: word_unat_eq_iff [THEN iffD2])
    with w show ?thesis by (simp add: Cons.IH add.assoc)
  qed (auto simp: add_bytes_ok Cons.IH)
  then show ?case by (auto simp: and_then_ok not_less)
qed

lemma listed_ids_loop_ok:
  "unat n \<le> unat (pb_max_total_id_bytes bounds) \<Longrightarrow>
   listed_ids_loop bounds n is = Ok m \<longleftrightarrow>
     (\<forall>i\<in>set is. length i \<le> unat (pb_max_id_bytes bounds)) \<and> unat m = unat n + sum_list (map length is)
     \<and> unat m \<le> unat (pb_max_total_id_bytes bounds)"
proof (induction "is" arbitrary: n)
  case Nil
  then show ?case by (auto intro: word_unat_eq_iff [THEN iffD2])
next
  case (Cons i "is")
  have "listed_ids_loop bounds n (i # is) = Ok m \<longleftrightarrow> length i \<le> unat (pb_max_id_bytes bounds)
      \<and> (\<exists>w. unat w = unat n + length i \<and> unat w \<le> unat (pb_max_total_id_bytes bounds)
            \<and> listed_ids_loop bounds w is = Ok m)"
    by (auto simp: and_then_ok add_bytes_ok not_less word_less_nat_alt not_le)
  also have "\<dots> \<longleftrightarrow> length i \<le> unat (pb_max_id_bytes bounds)
      \<and> (\<exists>w :: u64. unat w = unat n + length i \<and> unat w \<le> unat (pb_max_total_id_bytes bounds)
        \<and> (\<forall>i\<in>set is. length i \<le> unat (pb_max_id_bytes bounds)) \<and> unat m = unat w + sum_list (map length is)
        \<and> unat m \<le> unat (pb_max_total_id_bytes bounds))"
    using Cons.IH by blast
  also have "\<dots> \<longleftrightarrow> (\<forall>i\<in>set (i # is). length i \<le> unat (pb_max_id_bytes bounds))
      \<and> unat m = unat n + sum_list (map length (i # is)) \<and> unat m \<le> unat (pb_max_total_id_bytes bounds)"
  proof (cases "unat n + length i \<le> unat m")
    case True
    then obtain w :: u64 where w: "unat w = unat n + length i" using word_exists by blast
    then have "unat v = unat n + length i \<longleftrightarrow> v = w" for v
      by (auto intro: word_unat_eq_iff [THEN iffD2])
    then have "(\<exists>v :: u64. unat v = unat n + length i \<and> P v) \<longleftrightarrow> P w" for P by simp
    then show ?thesis unfolding w by (auto simp: w)
  qed auto
  finally show ?case .
qed

lemma usize_sum_some: "usize_sum n ms = Some k \<longleftrightarrow> k = n + sum_list ms \<and> (ms = [] \<or> k < 2 ^ 64)"
  by (induction n ms rule: usize_sum.induct) auto

definition post_secret_words :: "string list" where
  "post_secret_words = [''password'', ''secret'', ''cookie'', ''token'', ''private-key'', ''private_key'', ''master-key'',
     ''master_key'', ''recovery-key'', ''recovery_key'', ''scram-hash'']"

definition identifier_fits :: "post_bounds \<Rightarrow> string \<Rightarrow> bool" where
  "identifier_fits bounds v \<longleftrightarrow> v \<noteq> [] \<and> length v \<le> unat (pb_max_id_bytes bounds)
     \<and> set v \<inter> {CHR 0x00, CHR ''/'', CHR 0x5C, CHR '':'', CHR 0x20, CHR 0x09, CHR 0x0A, CHR 0x0C, CHR 0x0D} = {}
     \<and> (\<forall>w\<in>set post_secret_words. \<nexists>before after. to_ascii_lowercase v = before @ w @ after)"

lemma check_identifier_ok: "check_identifier v bounds = Ok u \<longleftrightarrow> identifier_fits bounds v"
proof -
  have "\<not> contains_str v [c, CHR 0x20]" if "CHR 0x20 \<notin> set v" for c
    using that by (auto simp: contains_str_iff)
  then have prose: "CHR 0x20 \<notin> set v \<Longrightarrow>
      \<not> (contains_str v ''. '' \<or> contains_str v ''? '' \<or> contains_str v ''! '')" by blast
  have secret: "post_reject_secret_token v = Ok u' \<longleftrightarrow>
      (\<forall>w\<in>set post_secret_words. \<nexists>before after. to_ascii_lowercase v = before @ w @ after)" for u'
    by (simp add: post_reject_secret_token_def post_secret_words_def contains_str_iff Let_def fold_ascii_eq)
  have spaces: "list_ex is_ascii_whitespace v \<longleftrightarrow>
      set v \<inter> {CHR 0x20, CHR 0x09, CHR 0x0A, CHR 0x0C, CHR 0x0D} \<noteq> {}"
    by (auto simp: list_ex_iff is_ascii_whitespace_def)
  have specials: "list_ex (\<lambda>b. b = CHR 0x00 \<or> b = CHR ''/'' \<or> b = CHR 0x5C \<or> b = CHR '':'') v \<longleftrightarrow>
      set v \<inter> {CHR 0x00, CHR ''/'', CHR 0x5C, CHR '':''} \<noteq> {}"
    by (auto simp: list_ex_iff)
  have "check_identifier v bounds = Ok u \<longleftrightarrow> v \<noteq> [] \<and> length v \<le> unat (pb_max_id_bytes bounds)
      \<and> set v \<inter> {CHR 0x00, CHR ''/'', CHR 0x5C, CHR '':''} = {} \<and> (\<exists>u'. post_reject_secret_token v = Ok u')
      \<and> set v \<inter> {CHR 0x20, CHR 0x09, CHR 0x0A, CHR 0x0C, CHR 0x0D} = {}"
    unfolding check_identifier_def specials spaces using prose by (auto simp: and_then_ok not_less)
  then show ?thesis unfolding secret identifier_fits_def by auto
qed

definition object_kind :: "auth_object \<Rightarrow> auth_kind" where
  "object_kind ob = projr (parse_kind (obj_kind ob))"

definition object_fits :: "inventory_checked \<Rightarrow> post_bounds \<Rightarrow> auth_object \<Rightarrow> bool" where
  "object_fits inventory bounds ob \<longleftrightarrow>
     (\<forall>v\<in>{obj_id ob, obj_kind ob, obj_dataset ob, obj_deployment ob} \<union> set_option (obj_actor ob) \<union> set_option (obj_installation ob).
        identifier_fits bounds v)
     \<and> (\<forall>v\<in>{obj_id ob, obj_dataset ob, obj_deployment ob} \<union> set_option (obj_actor ob) \<union> set_option (obj_installation ob).
        \<not> is_wide_target v)
     \<and> is_ok (parse_kind (obj_kind ob))
     \<and> (requires_actor (object_kind ob) \<longrightarrow> obj_actor ob \<noteq> None)
     \<and> (requires_installation (object_kind ob) \<longrightarrow> obj_installation ob \<noteq> None)
     \<and> obj_dataset ob = dataset_id (chk_dataset inventory) \<and> obj_deployment ob = chk_deployment inventory
     \<and> set_option (obj_installation ob) \<subseteq> {installation_id (chk_installation inventory)}"

definition checked_object_of :: "auth_object \<Rightarrow> checked_object" where
  "checked_object_of ob = \<lparr>co_id = obj_id ob, co_kind = object_kind ob, co_actor = obj_actor ob,
     co_dataset = obj_dataset ob, co_deployment = obj_deployment ob, co_installation = obj_installation ob,
     co_claimed_active = obj_claimed_active ob\<rparr>"

lemma check_object_ok:
  "check_object ob inventory (chk_installation inventory) bounds = Ok co \<longleftrightarrow>
     object_fits inventory bounds ob \<and> co = checked_object_of ob"
proof (cases "parse_kind (obj_kind ob)")
  case (Inl e)
  then show ?thesis by (simp add: check_object_def object_fits_def and_then_ok)
next
  case (Inr kind)
  then have "object_kind ob = kind" by (simp add: object_kind_def)
  then show ?thesis
    by (cases "obj_actor ob"; cases "obj_installation ob")
      (auto simp: check_object_def object_fits_def checked_object_of_def and_then_ok checks_ok check_identifier_ok Inr)
qed

definition object_bytes :: "auth_object \<Rightarrow> nat" where
  "object_bytes ob = sum_list (object_lengths (checked_object_of ob))"

lemma object_step_ok:
  "object_step inventory (chk_installation inventory) bounds (seen, n, vs) ob = Ok (seen', m, vs') \<longleftrightarrow>
     object_fits inventory bounds ob \<and> obj_id ob \<notin> seen \<and> unat m = unat n + object_bytes ob
     \<and> unat m \<le> unat (pb_max_total_id_bytes bounds) \<and> seen' = insert (obj_id ob) seen \<and> vs' = vs @ [checked_object_of ob]"
  by (auto simp: object_step_def and_then_ok check_object_ok add_all_ok object_bytes_def not_less word_le_nat_alt
      checked_object_of_def [THEN arg_cong, of co_id] split: if_splits)

lemma object_fold_ok:
  "unat n \<le> unat (pb_max_total_id_bytes bounds) \<Longrightarrow>
   try_fold (object_step inventory (chk_installation inventory) bounds) (seen, n, vs) obs = Ok (seen', m, vs') \<longleftrightarrow>
     (\<forall>ob\<in>set obs. object_fits inventory bounds ob) \<and> distinct (map obj_id obs) \<and> seen \<inter> obj_id ` set obs = {}
     \<and> unat m = unat n + sum_list (map object_bytes obs) \<and> unat m \<le> unat (pb_max_total_id_bytes bounds)
     \<and> seen' = seen \<union> obj_id ` set obs \<and> vs' = vs @ map checked_object_of obs"
proof (induction obs arbitrary: seen n vs)
  case Nil
  then show ?case by (auto intro: word_unat_eq_iff [THEN iffD2])
next
  case (Cons ob obs)
  let ?step = "object_step inventory (chk_installation inventory) bounds"
  let ?T = "unat (pb_max_total_id_bytes bounds)"
  show ?case
  proof (cases "object_fits inventory bounds ob \<and> obj_id ob \<notin> seen \<and> unat n + object_bytes ob \<le> ?T")
    case True
    then obtain w :: u64 where w: "unat w = unat n + object_bytes ob" using word_exists by blast
    with True have "?step (seen, n, vs) ob = Ok (insert (obj_id ob) seen, w, vs @ [checked_object_of ob])"
      by (simp add: object_step_ok)
    then have "try_fold ?step (seen, n, vs) (ob # obs)
        = try_fold ?step (insert (obj_id ob) seen, w, vs @ [checked_object_of ob]) obs"
      by simp
    moreover have "unat w \<le> ?T" using True w by simp
    ultimately have eq: "try_fold ?step (seen, n, vs) (ob # obs) = Ok (seen', m, vs') \<longleftrightarrow>
        (\<forall>ob\<in>set obs. object_fits inventory bounds ob) \<and> distinct (map obj_id obs)
        \<and> insert (obj_id ob) seen \<inter> obj_id ` set obs = {}
        \<and> unat m = unat w + sum_list (map object_bytes obs) \<and> unat m \<le> ?T
        \<and> seen' = insert (obj_id ob) seen \<union> obj_id ` set obs
        \<and> vs' = (vs @ [checked_object_of ob]) @ map checked_object_of obs"
      using Cons.IH [of w] by simp
    from True show ?thesis unfolding eq by (auto simp: w)
  next
    case False
    have "\<not> try_fold ?step (seen, n, vs) (ob # obs) = Ok (seen', m, vs')"
    proof
      assume "try_fold ?step (seen, n, vs) (ob # obs) = Ok (seen', m, vs')"
      then obtain t where "?step (seen, n, vs) ob = Ok t" unfolding try_fold_Cons_ok by blast
      moreover obtain a b c where "t = (a, b, c)" by (rule prod_cases3)
      ultimately have "object_fits inventory bounds ob \<and> obj_id ob \<notin> seen \<and> unat b = unat n + object_bytes ob
          \<and> unat b \<le> ?T"
        by (simp add: object_step_ok)
      with False show False by simp
    qed
    moreover have "unat n + object_bytes ob \<le> unat n + sum_list (map object_bytes (ob # obs))" by simp
    ultimately show ?thesis using False by (auto simp del: try_fold.simps)
  qed
qed

text \<open>The estimate of the output as a number that cannot overflow.\<close>

definition output_estimate ::
  "type_sizes \<Rightarrow> identity_binding \<Rightarrow> installation_identity \<Rightarrow> checked_object list \<Rightarrow> checked_receipts \<Rightarrow> vault_key_ref list \<Rightarrow> nat" where
  "output_estimate sizes identity original objects receipts keys =
     size_plan sizes + length objects * size_disposition sizes + length (receipt_ids receipts) * size_retention sizes
     + length keys * size_decrypt_ref sizes + length category_order * size_rule sizes
     + sum_list (map length (identity_ids identity)) + length (installation_id original)
     + sum_list (map (\<lambda>k. length (auth_kind_str k) + length (disposition_kind_str (default_disposition k))) category_order)
     + sum_list (map (\<lambda>item. sum_list (object_lengths item) + length (auth_kind_str (co_kind item))
         + length (disposition_kind_str (default_disposition (co_kind item)))) objects)
     + sum_list (map length (receipt_ids receipts)) + sum_list (map (length \<circ> ref_key_id) keys)"

lemma sum_list_of_concat: "sum_list (concat (map f xs)) = sum_list (map (sum_list \<circ> f) xs)"
  for f :: "'a \<Rightarrow> nat list"
  by (induction xs) simp_all

text \<open>Sizes a compiler can choose: they fit into a \<open>usize\<close>, and a retention has a size at all.\<close>

definition sizes_ok :: "type_sizes \<Rightarrow> bool" where
  "sizes_ok sizes \<longleftrightarrow> size_plan sizes < 2 ^ 64 \<and> 0 < size_retention sizes"

lemma estimate_output_bytes_ok:
  assumes "sizes_ok sizes"
  shows "estimate_output_bytes sizes identity original objects receipts keys = Ok m \<longleftrightarrow>
    unat m = output_estimate sizes identity original objects receipts keys"
proof -
  let ?o = "length objects * size_disposition sizes" and ?k = "length keys * size_decrypt_ref sizes"
  let ?c = "length (receipt_ids receipts)"
  let ?rest = "[length category_order * size_rule sizes]
          @ map length (identity_ids identity) @ [length (installation_id original)]
          @ concat (map (\<lambda>kind. [length (auth_kind_str kind), length (disposition_kind_str (default_disposition kind))])
              category_order)
          @ concat (map (\<lambda>item.
              [length (co_id item), length (auth_kind_str (co_kind item))] @ option_lengths (co_actor item)
              @ [length (co_dataset item), length (co_deployment item)] @ option_lengths (co_installation item)
              @ [length (disposition_kind_str (default_disposition (co_kind item)))]) objects)
          @ map length (receipt_ids receipts) @ map (length \<circ> ref_key_id) keys"
  have plan: "unat (of_nat (size_plan sizes) :: u64) = size_plan sizes"
    using assms by (simp add: unat_of_nat sizes_ok_def)
  have small: "unat (v :: u64) < 2 ^ 64" for v
    using unsigned_less [of v, where ?'a = nat] by (simp del: unsigned_less)
  have mul: "usize_checked_mul a b = Some n \<longleftrightarrow> n = a * b \<and> a * b < 2 ^ 64" for a b n
    by (auto simp: usize_checked_mul_def)
  have count: "usize_sum (length (rcp_committed receipts)) [length (rcp_unknown receipts), length (rcp_tool receipts)] = Some n
      \<longleftrightarrow> n = ?c \<and> n < 2 ^ 64" for n
    by (auto simp: usize_sum_some receipt_ids_def)
  have rest: "size_plan sizes + ?o + ?c * size_retention sizes + ?k + sum_list ?rest
      = output_estimate sizes identity original objects receipts keys"
    by (simp add: output_estimate_def object_lengths_def sum_list_of_concat comp_def sum_list_addf)
  have "estimate_output_bytes sizes identity original objects receipts keys = Ok m \<longleftrightarrow>
      ?o < 2 ^ 64 \<and> (\<exists>a :: u64. unat a = size_plan sizes + ?o \<and> ?c < 2 ^ 64 \<and> ?c * size_retention sizes < 2 ^ 64
        \<and> (\<exists>b :: u64. unat b = unat a + ?c * size_retention sizes \<and> ?k < 2 ^ 64
        \<and> (\<exists>c :: u64. unat c = unat b + ?k \<and> unat m = unat c + sum_list ?rest)))"
    unfolding estimate_output_bytes_def and_then_ok ok_or_ok mul count add_bytes_ok add_all_ok plan
    by (simp only: simp_thms conj_assoc)
  also have "\<dots> \<longleftrightarrow> unat m = size_plan sizes + ?o + ?c * size_retention sizes + ?k + sum_list ?rest"
    (is "?l \<longleftrightarrow> ?r")
  proof
    assume ?l
    then show ?r by auto
  next
    assume r: ?r
    have le: "size_plan sizes + ?o \<le> unat m" "size_plan sizes + ?o + ?c * size_retention sizes \<le> unat m"
        "size_plan sizes + ?o + ?c * size_retention sizes + ?k \<le> unat m"
      using r by linarith+
    obtain a b c :: u64 where "unat a = size_plan sizes + ?o" "unat b = size_plan sizes + ?o + ?c * size_retention sizes"
        "unat c = size_plan sizes + ?o + ?c * size_retention sizes + ?k"
      using le word_exists by metis
    moreover have "?o < 2 ^ 64" "?c * size_retention sizes < 2 ^ 64" "?k < 2 ^ 64"
      using le(3) small [of m] by linarith+
    moreover have "?c \<le> ?c * size_retention sizes" using assms by (simp add: sizes_ok_def)
    then have "?c < 2 ^ 64" using le(3) small [of m] by linarith
    ultimately show ?l using r by (metis (no_types, lifting))
  qed
  finally show ?thesis unfolding rest .
qed

text \<open>The names an accepted request carries, apart from its objects, and how many bytes they are.\<close>

definition fixed_ids :: "post_request \<Rightarrow> string list" where
  "fixed_ids r =
     (let inventory = plan_inventory (post_structural r) in
      identity_ids (plan_identity (post_structural r))
      @ [bundle_id (chk_bundle inventory), barrier_id (chk_barrier inventory), installation_id (chk_installation inventory)])"

definition kept_ids :: "post_request \<Rightarrow> string list" where
  "kept_ids r =
     (let inventory = plan_inventory (post_structural r) in
      receipt_ids (chk_receipts inventory) @ map ref_key_id (collect_key_refs (chk_key_binding inventory)))"

definition identifier_total :: "post_request \<Rightarrow> nat" where
  "identifier_total r =
     sum_list (map length (fixed_ids r)) + sum_list (map object_bytes (post_objects r)) + sum_list (map length (kept_ids r))"

definition output_total :: "type_sizes \<Rightarrow> post_request \<Rightarrow> nat" where
  "output_total sizes r =
     (let inventory = plan_inventory (post_structural r) in
      output_estimate sizes (plan_identity (post_structural r)) (chk_installation inventory)
        (map checked_object_of (post_objects r)) (chk_receipts inventory) (collect_key_refs (chk_key_binding inventory))
      + length (bundle_id (chk_bundle inventory)) + length (barrier_id (chk_barrier inventory)))"

definition manifest_of :: "post_request \<Rightarrow> checked_material option" where
  "manifest_of r = find (\<lambda>item. chk_kind item = BundleManifest) (chk_materials (plan_inventory (post_structural r)))"

definition post_accepts :: "type_sizes \<Rightarrow> post_request \<Rightarrow> bool" where
  "post_accepts sizes r \<longleftrightarrow>
     (let b = post_limits r in
      0 \<notin> {pb_max_total_id_bytes b, pb_max_output_bytes b} \<and> pb_max_objects b \<noteq> 0 \<and> pb_max_id_bytes b \<noteq> 0
      \<and> length (post_objects r) \<le> unat (pb_max_objects b)
      \<and> (\<forall>i\<in>set (fixed_ids r). i \<noteq> [] \<and> length i \<le> unat (pb_max_id_bytes b))
      \<and> (\<forall>ob\<in>set (post_objects r). object_fits (plan_inventory (post_structural r)) b ob)
      \<and> distinct (map obj_id (post_objects r))
      \<and> (\<forall>i\<in>set (kept_ids r). length i \<le> unat (pb_max_id_bytes b))
      \<and> identifier_total r \<le> unat (pb_max_total_id_bytes b)
      \<and> length (post_objects r) + length (kept_ids r) + length category_order \<le> max_plan_items
      \<and> output_total sizes r \<le> unat (pb_max_output_bytes b)
      \<and> manifest_of r \<noteq> None)"

definition post_plan_for :: "type_sizes \<Rightarrow> post_request \<Rightarrow> post_plan" where
  "post_plan_for sizes r =
     (let structural = post_structural r; inventory = plan_inventory structural in
      \<lparr>post_bundle = chk_bundle inventory, post_barrier = chk_barrier inventory,
       post_manifest = chk_digest (the (manifest_of r)), post_identity = plan_identity structural,
       post_pending = plan_pending structural, post_follow_up = plan_follow_up structural,
       post_installation = chk_installation inventory, post_global = obligations,
       post_rules = map rule_of category_order,
       post_dispositions = map (disposition_of \<circ> checked_object_of) (post_objects r),
       post_retentions = retain_receipts (chk_receipts inventory),
       post_decrypt_refs = retain_keys (collect_key_refs (chk_key_binding inventory)),
       post_input_count = of_nat (length (post_objects r)), post_identifier_bytes = of_nat (identifier_total r),
       post_output_bytes = of_nat (output_total sizes r)\<rparr>)"

lemma word_of_unat: "unat (w :: u64) = n \<Longrightarrow> w = of_nat n"
  by (metis of_nat_unat ucast_id)

lemma plan_post_restore_accepts:
  assumes "sizes_ok sizes" and "plan_post_restore sizes r = Ok q"
  shows "post_accepts sizes r \<and> q = post_plan_for sizes r"
proof -
  let ?b = "post_limits r" and ?s = "post_structural r"
  let ?inv = "plan_inventory ?s"
  let ?keys = "collect_key_refs (chk_key_binding ?inv)"
  from assms(2) obtain n0 seen n1 vs n2 items n3 est out manifest where
      start: "0 \<notin> {pb_max_total_id_bytes ?b, pb_max_output_bytes ?b}" "pb_max_objects ?b \<noteq> 0" "pb_max_id_bytes ?b \<noteq> 0"
        "length (post_objects r) \<le> unat (pb_max_objects ?b)"
      and l0: "identity_loop ?b 0 (fixed_ids r) = Ok n0" and b0: "\<not> pb_max_total_id_bytes ?b < n0"
      and l1: "try_fold (object_step ?inv (chk_installation ?inv) ?b) ({}, n0, []) (post_objects r) = Ok (seen, n1, vs)"
      and l2: "listed_ids_loop ?b n1 (receipt_ids (chk_receipts ?inv)) = Ok n2"
      and it: "usize_sum (length (post_objects r)) [length (rcp_committed (chk_receipts ?inv)),
         length (rcp_unknown (chk_receipts ?inv)), length (rcp_tool (chk_receipts ?inv)), length ?keys,
         length category_order] = Some items" "items \<le> max_plan_items"
      and l3: "listed_ids_loop ?b n2 (map ref_key_id ?keys) = Ok n3"
      and es: "estimate_output_bytes sizes (plan_identity ?s) (chk_installation ?inv) vs (chk_receipts ?inv) ?keys = Ok est"
      and ou: "try_fold add_bytes est [length (bundle_id (chk_bundle ?inv)), length (barrier_id (chk_barrier ?inv))] = Ok out"
        "\<not> pb_max_output_bytes ?b < out"
      and ma: "manifest_of r = Some manifest"
      and q: "q = \<lparr>post_bundle = chk_bundle ?inv, post_barrier = chk_barrier ?inv, post_manifest = chk_digest manifest,
          post_identity = plan_identity ?s, post_pending = plan_pending ?s,
          post_follow_up = plan_follow_up ?s, post_installation = chk_installation ?inv, post_global = obligations,
          post_rules = map rule_of category_order, post_dispositions = map disposition_of vs,
          post_retentions = retain_receipts (chk_receipts ?inv), post_decrypt_refs = retain_keys ?keys,
          post_input_count = of_nat (length (post_objects r)), post_identifier_bytes = n3, post_output_bytes = out\<rparr>"
    by (auto simp: plan_post_restore_def Let_def and_then_ok ok_or_ok not_less fixed_ids_def manifest_of_def
        split: if_splits simp del: try_fold.simps usize_sum.simps)
  from b0 have t0: "unat n0 \<le> unat (pb_max_total_id_bytes ?b)" by (simp add: word_less_nat_alt not_less)
  note o1 = l1 [unfolded object_fold_ok [OF t0]]
  note o2 = l2 [unfolded listed_ids_loop_ok [of n1 ?b, OF conjunct1 [OF conjunct2 [OF conjunct2 [OF conjunct2 [OF conjunct2 [OF o1]]]]]]]
  note o3 = l3 [unfolded listed_ids_loop_ok [of n2 ?b, OF conjunct2 [OF conjunct2 [OF o2]]]]
  note o0 = l0 [unfolded identity_loop_ok]
  have tot: "unat n3 = identifier_total r"
    using o0 o1 o2 o3 by (simp add: identifier_total_def kept_ids_def Let_def)
  have vs: "vs = map checked_object_of (post_objects r)" using o1 by simp
  have out: "unat out = output_total sizes r"
    using ou(1) es unfolding add_all_ok estimate_output_bytes_ok [OF assms(1)] vs by (simp add: output_total_def Let_def)
  have "post_accepts sizes r"
    using start o0 o1 o2 o3 it(1) [unfolded usize_sum_some] it(2) ou(2) ma tot out
    by (simp add: post_accepts_def Let_def kept_ids_def ball_Un receipt_ids_def word_less_nat_alt not_less
        add.assoc)
  moreover have "q = post_plan_for sizes r"
    unfolding q using ma vs word_of_unat [OF tot] word_of_unat [OF out] by (simp add: post_plan_for_def Let_def)
  ultimately show ?thesis by blast
qed

lemma plan_post_restore_complete:
  assumes "sizes_ok sizes" and "post_accepts sizes r"
  shows "\<exists>q. plan_post_restore sizes r = Ok q"
proof -
  let ?b = "post_limits r" and ?s = "post_structural r"
  let ?inv = "plan_inventory ?s"
  let ?keys = "collect_key_refs (chk_key_binding ?inv)" and ?objs = "post_objects r"
  let ?T = "unat (pb_max_total_id_bytes ?b)"
  from assms(2) have acc: "0 \<notin> {pb_max_total_id_bytes ?b, pb_max_output_bytes ?b}" "pb_max_objects ?b \<noteq> 0"
      "pb_max_id_bytes ?b \<noteq> 0" "length ?objs \<le> unat (pb_max_objects ?b)"
      and fixed: "\<forall>i\<in>set (fixed_ids r). i \<noteq> [] \<and> length i \<le> unat (pb_max_id_bytes ?b)"
      and objs: "\<forall>ob\<in>set ?objs. object_fits ?inv ?b ob" "distinct (map obj_id ?objs)"
      and kept: "\<forall>i\<in>set (kept_ids r). length i \<le> unat (pb_max_id_bytes ?b)"
      and total: "identifier_total r \<le> ?T"
      and items: "length ?objs + length (kept_ids r) + length category_order \<le> max_plan_items"
      and outs: "output_total sizes r \<le> unat (pb_max_output_bytes ?b)"
      and ma: "manifest_of r \<noteq> None"
    by (simp_all add: post_accepts_def Let_def)
  have parts: "sum_list (map length (fixed_ids r)) + sum_list (map object_bytes ?objs)
      + sum_list (map length (receipt_ids (chk_receipts ?inv))) + sum_list (map (length \<circ> ref_key_id) ?keys) \<le> ?T"
    using total by (simp add: identifier_total_def kept_ids_def Let_def)
  obtain n0 n1 n2 n3 :: u64 where n0: "unat n0 = sum_list (map length (fixed_ids r))"
      and n1: "unat n1 = unat n0 + sum_list (map object_bytes ?objs)"
      and n2: "unat n2 = unat n1 + sum_list (map length (receipt_ids (chk_receipts ?inv)))"
      and n3: "unat n3 = unat n2 + sum_list (map length (map ref_key_id ?keys))"
    using word_exists [of "sum_list (map length (fixed_ids r))" "pb_max_total_id_bytes ?b"]
      word_exists [of "sum_list (map length (fixed_ids r)) + sum_list (map object_bytes ?objs)" "pb_max_total_id_bytes ?b"]
      word_exists [of "sum_list (map length (fixed_ids r)) + sum_list (map object_bytes ?objs)
        + sum_list (map length (receipt_ids (chk_receipts ?inv)))" "pb_max_total_id_bytes ?b"]
      word_exists [OF parts] parts by (auto simp: add.assoc)
  from parts have le: "unat n0 \<le> ?T" "unat n1 \<le> ?T" "unat n2 \<le> ?T" "unat n3 \<le> ?T"
    by (simp_all add: n3 n2 n1 n0)
  from outs have "output_total sizes r \<le> unat (pb_max_output_bytes ?b)" .
  then obtain est out :: u64 where out: "unat out = output_total sizes r"
      and est: "unat est = output_estimate sizes (plan_identity ?s) (chk_installation ?inv)
        (map checked_object_of ?objs) (chk_receipts ?inv) ?keys"
    using word_exists [OF outs] word_exists [of "output_estimate sizes (plan_identity ?s) (chk_installation ?inv)
        (map checked_object_of ?objs) (chk_receipts ?inv) ?keys" "pb_max_output_bytes ?b"]
    by (auto simp: output_total_def Let_def)
  have l0: "identity_loop ?b 0 (fixed_ids r) = Ok n0" using fixed n0 by (simp add: identity_loop_ok)
  have l1: "try_fold (object_step ?inv (chk_installation ?inv) ?b) ({}, n0, []) ?objs
      = Ok (obj_id ` set ?objs, n1, map checked_object_of ?objs)"
    using objs n1 le by (simp add: object_fold_ok [OF le(1)])
  have l2: "listed_ids_loop ?b n1 (receipt_ids (chk_receipts ?inv)) = Ok n2"
    using kept n2 le by (simp add: listed_ids_loop_ok [OF le(2)] kept_ids_def Let_def ball_Un)
  have l3: "listed_ids_loop ?b n2 (map ref_key_id ?keys) = Ok n3"
    using kept n3 le by (simp add: listed_ids_loop_ok [OF le(3)] kept_ids_def Let_def ball_Un)
  have it: "usize_sum (length ?objs) [length (rcp_committed (chk_receipts ?inv)),
         length (rcp_unknown (chk_receipts ?inv)), length (rcp_tool (chk_receipts ?inv)), length ?keys,
         length category_order] = Some (length ?objs + length (kept_ids r) + length category_order)"
    using items by (auto simp: usize_sum_some kept_ids_def receipt_ids_def Let_def max_plan_items_def
        simp del: usize_sum.simps)
  have es: "estimate_output_bytes sizes (plan_identity ?s) (chk_installation ?inv) (map checked_object_of ?objs)
      (chk_receipts ?inv) ?keys = Ok est"
    using est by (simp add: estimate_output_bytes_ok [OF assms(1)])
  have ou: "try_fold add_bytes est [length (bundle_id (chk_bundle ?inv)), length (barrier_id (chk_barrier ?inv))] = Ok out"
    using out est unfolding add_all_ok by (simp add: output_total_def Let_def)
  obtain manifest where ma': "find (\<lambda>item. chk_kind item = BundleManifest) (chk_materials ?inv) = Some manifest"
    using ma unfolding manifest_of_def by blast
  have "unat (pb_max_objects ?b) < 2 ^ 32"
    using unsigned_less [of "pb_max_objects ?b", where ?'a = nat] by (simp del: unsigned_less)
  with acc(4) have count: "\<not> 2 ^ 32 \<le> length ?objs" by linarith
  have "\<not> pb_max_total_id_bytes ?b < n0" "\<not> pb_max_output_bytes ?b < out"
    using le(1) out outs by (simp_all add: word_less_nat_alt not_less)
  then show ?thesis
    using acc count items l0 [unfolded fixed_ids_def Let_def] l1 l2 it l3 es ou ma'
    by (simp add: plan_post_restore_def Let_def del: try_fold.simps usize_sum.simps)
qed

lemma plan_post_restore_ok:
  assumes "sizes_ok sizes"
  shows "plan_post_restore sizes r = Ok q \<longleftrightarrow> post_accepts sizes r \<and> q = post_plan_for sizes r"
  using plan_post_restore_accepts [OF assms] plan_post_restore_complete [OF assms, of r] by blast

section \<open>What a plan promises\<close>

lemma object_kind_ok: "object_fits inventory bounds ob \<Longrightarrow> parse_kind (obj_kind ob) = Ok (object_kind ob)"
  by (auto simp: object_fits_def object_kind_def is_ok_iff)

lemma parse_kind_str: "parse_kind (obj_kind ob) = Ok k \<Longrightarrow> obj_kind ob = auth_kind_str k"
  by (auto simp: parse_kind_def split: if_splits)

text \<open>C33: Planning after a restore succeeds exactly for well-formed input: bounded, non-empty and unsuspicious
  names, objects that belong to the restored data and are listed once, and totals that as sums without
  overflow stay within the limits. The byte counts reported are those sums.\<close>

theorem post_restore_accepted_exactly:
  assumes "sizes_ok sizes"
  shows "(case plan_post_restore sizes r of
      Inr q \<Rightarrow> post_accepts sizes r \<and> unat (post_identifier_bytes q) = identifier_total r
        \<and> unat (post_output_bytes q) = output_total sizes r
    | Inl _ \<Rightarrow> \<not> post_accepts sizes r)"
proof (cases "plan_post_restore sizes r")
  case (Inl e)
  then show ?thesis using plan_post_restore_complete [OF assms, of r] by auto
next
  case (Inr q)
  then have q: "post_accepts sizes r" "q = post_plan_for sizes r" using plan_post_restore_ok [OF assms] by simp_all
  then have "identifier_total r \<le> unat (pb_max_total_id_bytes (post_limits r))"
      "output_total sizes r \<le> unat (pb_max_output_bytes (post_limits r))"
    by (simp_all add: post_accepts_def Let_def)
  then obtain u v :: u64 where "unat u = identifier_total r" "unat v = output_total sizes r"
    using word_exists by metis
  then have "unat (of_nat (identifier_total r) :: u64) = identifier_total r"
      "unat (of_nat (output_total sizes r) :: u64) = output_total sizes r"
    using word_of_unat by metis+
  with q Inr show ?thesis by (simp add: post_plan_for_def Let_def)
qed

section \<open>What the claim passes on\<close>

text \<open>The business identity a restore of the claim has to carry, part by part: the installation that was
  backed up, the new one when there is one, and the data set, the deployment and the tenant of the claim.\<close>

fun binding_parts :: "identity_binding \<Rightarrow> string \<times> string option \<times> string \<times> string \<times> string" where
  "binding_parts (BindSame i d p t) = (installation_id i, None, dataset_id d, p, t)"
| "binding_parts (BindNew old new d p t _) = (installation_id old, Some (installation_id new), dataset_id d, p, t)"

definition claimed_parts :: "inventory_claim \<Rightarrow> restore_mode \<Rightarrow> string \<times> string option \<times> string \<times> string \<times> string" where
  "claimed_parts c mode =
     (installation_id (inv_installation c),
      (case mode of SameInstallation \<Rightarrow> None | NewInstallation i \<Rightarrow> Some (installation_id i)),
      dataset_id (inv_dataset c), inv_deployment c, inv_tenant c)"

definition claimed_keys :: "inventory_claim \<Rightarrow> (string \<times> key_version \<times> digest) list" where
  "claimed_keys c =
     map (\<lambda>k. (ref_key_id k, ref_key_version k, ref_canary k)) (collect_key_refs (inv_key_binding c))"

definition claimed_receipts :: "inventory_claim \<Rightarrow> (string \<times> receipt_class) list" where
  "claimed_receipts c =
     (let rs = inv_receipts c in
        map (\<lambda>x. (receipt_id x, ClassCommitted)) (claimed_committed rs)
        @ map (\<lambda>x. (receipt_id x, ClassUnknown)) (claimed_unknown rs)
        @ map (\<lambda>x. (receipt_id x, ClassTool)) (claimed_tool rs))"

text \<open>An object of the snapshot and what is decided about it.\<close>

definition disposed_as :: "inventory_claim \<Rightarrow> auth_object \<Rightarrow> object_disposition \<Rightarrow> bool" where
  "disposed_as c ob d \<longleftrightarrow>
     disp_id d = obj_id ob \<and> obj_kind ob = auth_kind_str (disp_kind d)
     \<and> disp_disposition d = default_disposition (disp_kind d) \<and> disp_actor d = obj_actor ob
     \<and> disp_dataset d = dataset_id (inv_dataset c) \<and> disp_deployment d = inv_deployment c
     \<and> set_option (disp_installation d) \<subseteq> {installation_id (inv_installation c)}"

lemma binding_parts_planned:
  assumes "plan_restore request = StructuralPlan p"
  shows "binding_parts (plan_identity p) = claimed_parts (req_claim request) (tgt_mode (req_target request))
    \<and> plan_inventory p = inventory_of (req_claim request)"
  using assms
  by (cases "tgt_mode (req_target request)")
    (simp_all add: plan_restore_plan plan_for_def binding_of_def inventory_of_def claimed_parts_def Let_def)

lemma claimed_is_targeted:
  assumes "plan_restore request = StructuralPlan p"
  shows "claimed_parts (req_claim request) mode =
    (installation_id (tgt_original_installation (req_target request)),
     (case mode of SameInstallation \<Rightarrow> None | NewInstallation i \<Rightarrow> Some (installation_id i)),
     dataset_id (tgt_dataset (req_target request)), tgt_deployment (req_target request), tgt_tenant (req_target request))"
  using assms by (simp add: plan_restore_plan plannable_def identity_kept_def claimed_parts_def Let_def)

lemma objects_disposed:
  assumes "post_accepts sizes \<lparr>post_structural = p, post_objects = objs, post_limits = bounds\<rparr>"
    and "plan_inventory p = inventory_of c"
  shows "list_all2 (disposed_as c) objs (map (disposition_of \<circ> checked_object_of) objs)"
proof -
  have "disposed_as c ob (disposition_of (checked_object_of ob))" if "ob \<in> set objs" for ob
  proof -
    from that assms have fits: "object_fits (inventory_of c) bounds ob" by (simp add: post_accepts_def Let_def)
    then have "parse_kind (obj_kind ob) = Ok (object_kind ob)" by (rule object_kind_ok)
    from parse_kind_str [OF this] fits show ?thesis
      by (auto simp: disposed_as_def disposition_of_def checked_object_of_def object_fits_def inventory_of_def)
  qed
  then show ?thesis by (simp add: list_all2_map2 list_all2_same)
qed

lemma nothing_revived:
  "\<not> post_schedules_unknown_replay (post_plan_for sizes r) \<and> \<not> restores_dispatch (post_plan_for sizes r)
    \<and> \<not> restores_active_lease (post_plan_for sizes r) \<and> \<not> snapshot_active_grants_use (post_plan_for sizes r)
    \<and> \<not> promotes_unknown_to_success (post_plan_for sizes r) \<and> \<not> resurrects_vendor_revoked_account (post_plan_for sizes r)
    \<and> \<not> deletes_historical_decrypt_keys (post_plan_for sizes r)
    \<and> \<not> listed_dispositions_mean_already_revoked (post_plan_for sizes r)
    \<and> \<not> issues_recovery_epoch (post_plan_for sizes r)
    \<and> \<not> restore_authorized (post_plan_for sizes r) \<and> \<not> application_ready (post_plan_for sizes r)"
  if "plan_restore request = StructuralPlan (post_structural r)"
proof -
  from that have "post_structural r = plan_for request" by (simp add: plan_restore_plan)
  then show ?thesis
    by (auto simp: post_plan_for_def plan_for_def Let_def list_ex_iff post_schedules_unknown_replay_def
        restores_dispatch_def restores_active_lease_def snapshot_active_grants_use_def promotes_unknown_to_success_def
        resurrects_vendor_revoked_account_def deletes_historical_decrypt_keys_def issues_recovery_epoch_def
        listed_dispositions_mean_already_revoked_def restore_authorized_def application_ready_def
        retain_receipts_def receipt_item_def retain_keys_def disposition_of_def obligations_def pending_all_def
        follow_up_required_def uses_old_counter_plus_one_def uses_timestamp_def uses_fixed_hash_def)
qed

text \<open>C40: A restore passes on exactly what was claimed and brings nothing back to life: from an inventory
  claim through the structural plan to the plan for afterwards, the business identity (installation that
  was backed up, new installation if any, data set, deployment and tenant) is part by part that of the
  claim, which is the one the target asked for; the bundle, the barrier and the manifest digest are those
  claimed; exactly the claimed receipts are kept in their classes, unknown ones unknown, and exactly the
  claimed keys stay available for decryption; every object found in the snapshot is disposed of by the
  rule of its kind, as an object of the claim's data set, deployment and installation; and nothing is
  replayed, dispatched, leased, authorised or decided ready.\<close>

theorem restore_revives_nothing:
  assumes "plan_restore request = StructuralPlan p" and "sizes_ok sizes"
    and "plan_post_restore sizes \<lparr>post_structural = p, post_objects = objs, post_limits = bounds\<rparr> = Ok q"
  shows "binding_parts (post_identity q) = claimed_parts (req_claim request) (tgt_mode (req_target request))
    \<and> binding_parts (post_identity q) =
        (installation_id (tgt_original_installation (req_target request)),
         (case tgt_mode (req_target request) of SameInstallation \<Rightarrow> None | NewInstallation i \<Rightarrow> Some (installation_id i)),
         dataset_id (tgt_dataset (req_target request)), tgt_deployment (req_target request),
         tgt_tenant (req_target request))
    \<and> post_installation q = inv_installation (req_claim request)
    \<and> post_bundle q = inv_bundle (req_claim request) \<and> post_barrier q = inv_barrier (req_claim request)
    \<and> map_option claim_digest (find (\<lambda>m. claim_kind m = BundleManifest) (inv_materials (req_claim request)))
        = Some (post_manifest q)
    \<and> map (\<lambda>x. (ret_id x, ret_class x)) (post_retentions q) = claimed_receipts (req_claim request)
    \<and> map (\<lambda>k. (hist_key_id k, hist_key_version k, hist_canary k)) (post_decrypt_refs q) = claimed_keys (req_claim request)
    \<and> list_all2 (disposed_as (req_claim request)) objs (post_dispositions q)
    \<and> \<not> applies_fresh_identity_derivation q \<and> preserves_record_ids q
    \<and> \<not> post_schedules_unknown_replay q \<and> \<not> restores_dispatch q \<and> \<not> restores_active_lease q
    \<and> \<not> snapshot_active_grants_use q \<and> \<not> promotes_unknown_to_success q \<and> \<not> resurrects_vendor_revoked_account q
    \<and> \<not> deletes_historical_decrypt_keys q \<and> \<not> listed_dispositions_mean_already_revoked q
    \<and> \<not> issues_recovery_epoch q \<and> \<not> restore_authorized q \<and> \<not> application_ready q"
proof -
  let ?r = "\<lparr>post_structural = p, post_objects = objs, post_limits = bounds\<rparr>" and ?c = "req_claim request"
  from assms(3) have acc: "post_accepts sizes ?r" and q: "q = post_plan_for sizes ?r"
    using plan_post_restore_ok [OF assms(2)] by simp_all
  from binding_parts_planned [OF assms(1)] have inv: "plan_inventory p = inventory_of ?c"
    and parts: "binding_parts (post_identity q) = claimed_parts ?c (tgt_mode (req_target request))"
    by (simp_all add: q post_plan_for_def Let_def)
  from acc have "manifest_of ?r \<noteq> None" by (simp add: post_accepts_def Let_def)
  then have manifest: "map_option claim_digest (find (\<lambda>m. claim_kind m = BundleManifest) (inv_materials ?c)) = Some (post_manifest q)"
    by (auto simp: q post_plan_for_def Let_def manifest_of_def inv inventory_of_def find_of_map comp_def checked_of_def)
  have disposed: "list_all2 (disposed_as ?c) objs (post_dispositions q)"
    using objects_disposed [OF acc inv] by (simp add: q post_plan_for_def Let_def)
  have data: "original_dataset b = d" if "binding_parts b = (i, j, d, e, t)" for b i j d e t
    using that by (cases b) simp_all
  have fresh: "\<not> applies_fresh_identity_derivation q"
    using disposed data [OF parts [unfolded claimed_parts_def]]
    by (auto simp: applies_fresh_identity_derivation_def list_ex_iff in_set_conv_nth list_all2_conv_all_nth disposed_as_def)
  have records: "preserves_record_ids q"
    using assms(1) by (cases "tgt_mode (req_target request)")
      (simp_all add: q plan_restore_plan plan_for_def post_plan_for_def binding_of_def preserves_record_ids_def Let_def)
  have kept: "post_installation q = inv_installation ?c" "post_bundle q = inv_bundle ?c" "post_barrier q = inv_barrier ?c"
      "map (\<lambda>x. (ret_id x, ret_class x)) (post_retentions q) = claimed_receipts ?c"
      "map (\<lambda>k. (hist_key_id k, hist_key_version k, hist_canary k)) (post_decrypt_refs q) = claimed_keys ?c"
    by (simp_all add: q post_plan_for_def Let_def inv inventory_of_def receipts_of_def retain_receipts_def
        receipt_item_def comp_def claimed_receipts_def claimed_keys_def retain_keys_def)
  show ?thesis
    using parts claimed_is_targeted [OF assms(1)] manifest disposed fresh records kept
      nothing_revived [of request ?r sizes] assms(1) by (simp add: q)
qed

section \<open>An example\<close>

definition example_sizes :: type_sizes where
  "example_sizes = \<lparr>size_plan = 600, size_disposition = 160, size_retention = 32, size_decrypt_ref = 64, size_rule = 3\<rparr>"

definition example_post_request :: post_request where
  "example_post_request = \<lparr>post_structural = plan_for example_request,
     post_objects = [\<lparr>obj_id = ''l1'', obj_kind = ''lease'', obj_actor = Some ''ann'', obj_dataset = ''d'',
       obj_deployment = ''p'', obj_installation = Some ''i'', obj_claimed_active = True\<rparr>],
     post_limits = post_bounds_standard\<rparr>"

lemma example_sizes_ok: "sizes_ok example_sizes"
  by (simp add: sizes_ok_def example_sizes_def)

lemma example_post_accepts: "post_accepts example_sizes example_post_request"
proof -
  have inv: "plan_inventory (plan_for example_request) = inventory_of example_claim"
      "plan_identity (plan_for example_request)
        = BindSame (InstallationIdentity ''i'') (DatasetIdentity ''d'') ''p'' ''t''"
    by (simp_all add: plan_for_def Let_def example_request_def example_target_def binding_of_def inventory_of_def
        example_claim_def)
  have kind: "parse_kind ''lease'' = Ok Lease" by (simp add: parse_kind_def)
  note model = example_post_request_def inv inventory_of_def example_claim_def example_key_def receipts_of_def
    receipt_ids_def collect_key_refs_def
  have objs: "\<forall>ob\<in>set (post_objects example_post_request).
      object_fits (inventory_of example_claim) post_bounds_standard ob"
    by (simp add: example_post_request_def object_fits_def object_kind_def kind identifier_fits_def
        requires_actor_def requires_installation_def is_wide_target_def inventory_of_def example_claim_def
        post_bounds_standard_def max_id_bytes_limit_def post_secret_words_def to_ascii_lowercase_def to_ascii_lower_def
        is_ascii_uppercase_def starts_with_iff flip: contains_str_iff)
  have ids: "fixed_ids example_post_request = [''i'', ''d'', ''p'', ''t'', ''b'', ''r'', ''i'']"
      "kept_ids example_post_request = [''r1'', ''r2'', ''k'']"
    by (simp_all add: fixed_ids_def kept_ids_def Let_def model)
  have "identifier_total example_post_request = 20"
    by (simp add: identifier_total_def ids object_bytes_def checked_object_of_def object_lengths_def option_lengths_def)
      (simp add: example_post_request_def object_bytes_def checked_object_of_def object_lengths_def option_lengths_def)
  moreover have "output_total example_sizes example_post_request \<le> 2097152"
    by (simp add: output_total_def Let_def output_estimate_def model example_sizes_def category_order_def
        checked_object_of_def object_kind_def kind object_lengths_def option_lengths_def)
  moreover have "manifest_of example_post_request \<noteq> None"
    by (simp add: manifest_of_def model checked_of_def example_material_def)
  ultimately show ?thesis
    using objs ids
    by (simp add: post_accepts_def Let_def example_post_request_def inv post_bounds_standard_def max_objects_limit_def
        max_id_bytes_limit_def max_total_id_bytes_limit_def max_output_bytes_limit_def max_plan_items_def
        category_order_def)
qed

theorem post_restore_accepted_exactly_witness:
  "is_ok (plan_post_restore example_sizes example_post_request)"
  using post_restore_accepted_exactly [OF example_sizes_ok, of example_post_request] example_post_accepts
  by (auto split: sum.splits)

theorem restore_revives_nothing_witness:
  "\<exists>q. plan_post_restore example_sizes example_post_request = Ok q \<and> \<not> restores_active_lease q
    \<and> binding_parts (post_identity q) = (''i'', None, ''d'', ''p'', ''t'')
    \<and> map (\<lambda>x. (ret_id x, ret_class x)) (post_retentions q) = [(''r1'', ClassCommitted), (''r2'', ClassUnknown)]"
proof -
  obtain q where q: "plan_post_restore example_sizes example_post_request = Ok q"
    using plan_post_restore_complete [OF example_sizes_ok example_post_accepts] by blast
  have claimed: "claimed_parts (req_claim example_request) SameInstallation = (''i'', None, ''d'', ''p'', ''t'')"
      "claimed_receipts (req_claim example_request) = [(''r1'', ClassCommitted), (''r2'', ClassUnknown)]"
      "tgt_mode (req_target example_request) = SameInstallation"
    by (simp_all add: claimed_parts_def claimed_receipts_def example_request_def example_claim_def example_target_def)
  from restore_revives_nothing [OF example_restore_plan example_sizes_ok q [unfolded example_post_request_def]]
  have "binding_parts (post_identity q) = claimed_parts (req_claim example_request) (tgt_mode (req_target example_request))
    \<and> map (\<lambda>x. (ret_id x, ret_class x)) (post_retentions q) = claimed_receipts (req_claim example_request)
    \<and> \<not> restores_active_lease q" by blast
  with q show ?thesis by (simp add: claimed)
qed

end
