(* ===== verification/RuntimeCapabilities.thy ===== *)
theory RuntimeCapabilities
  imports Identity
begin

text \<open>
  The runtime capability projection, \<open>crates/openbot-domain/src/runtime_capabilities.rs\<close>: thirteen
  capabilities, the facts observed about each of them, and the read-only projection that is computed
  from them after the caller's binding has been compared with the current one. Each \<open>push_*\<close>
  function of the source appends to a vector of blockers; here each returns the vector it leaves. The
  labels and revisions are kept in fixed buffers with a length, as the source keeps them.
\<close>

section \<open>Vocabulary\<close>

datatype capability_id =
  Workspace | AgentTools | ModelCustomV1 | ModelSelectionV2 | ModelSdkGateway | ModelAccountBridge
  | BrowserControl | NativeControl | PixelEgress | LocalConfirmation | BackupRestore | DynamicSso
  | DevicePairing

fun capability_str :: "capability_id \<Rightarrow> string" where
  "capability_str Workspace = ''workspace''"
| "capability_str AgentTools = ''agent_tools''"
| "capability_str ModelCustomV1 = ''model_custom_v1''"
| "capability_str ModelSelectionV2 = ''model_selection_v2''"
| "capability_str ModelSdkGateway = ''model_sdk_gateway''"
| "capability_str ModelAccountBridge = ''model_account_bridge''"
| "capability_str BrowserControl = ''browser_control''"
| "capability_str NativeControl = ''native_control''"
| "capability_str PixelEgress = ''pixel_egress''"
| "capability_str LocalConfirmation = ''local_confirmation''"
| "capability_str BackupRestore = ''backup_restore''"
| "capability_str DynamicSso = ''dynamic_sso''"
| "capability_str DevicePairing = ''device_pairing''"

datatype capability_state =
  CapUnsupported | CapUnconfigured | CapPermissionRequired | CapReady | CapUnavailable

fun capability_state_str :: "capability_state \<Rightarrow> string" where
  "capability_state_str CapUnsupported = ''unsupported''"
| "capability_state_str CapUnconfigured = ''unconfigured''"
| "capability_state_str CapPermissionRequired = ''permission_required''"
| "capability_state_str CapReady = ''ready''"
| "capability_state_str CapUnavailable = ''unavailable''"

datatype reason_code =
  CurrentChecksAvailable | PlatformUnimplemented | IndependentApiMissing | SupportUnproven
  | ReleaseDependencyMissing | ReleaseDependencyUnproven | PolicyUnconfigured | PolicyEmpty
  | PolicyInvalid | PolicyUnproven | ModelKeyMissing | ModelKeyUnproven | ConfigurationMissing
  | ConfigurationInvalid | ConfigurationUnproven | AccountBridgeSourceBlocked
  | AccountBridgeSourceUnproven | ProductPermissionRequired | ProductPermissionUnproven
  | OsPermissionCaptureRequired | OsPermissionAccessibilityRequired | OsPermissionInputRequired
  | OsPermissionUnproven | OsPermissionExpired | LocalConfirmationRequired
  | LocalConfirmationPending | LocalConfirmationUnavailable | LocalConfirmationUnproven
  | LocalConfirmationExpired | PixelConsentRequired | PixelConsentUnproven | PixelConsentExpired
  | ComputerSourceMissing | NativeSourceMissing | ScreenSourceMissing | SourceUnproven
  | SourceExpired | ProviderDisconnected | ProviderUnproven | ProviderExpired

fun reason_str :: "reason_code \<Rightarrow> string" where
  "reason_str CurrentChecksAvailable = ''current_checks_available''"
| "reason_str PlatformUnimplemented = ''platform_unimplemented''"
| "reason_str IndependentApiMissing = ''independent_api_missing''"
| "reason_str SupportUnproven = ''support_unproven''"
| "reason_str ReleaseDependencyMissing = ''release_dependency_missing''"
| "reason_str ReleaseDependencyUnproven = ''release_dependency_unproven''"
| "reason_str PolicyUnconfigured = ''policy_unconfigured''"
| "reason_str PolicyEmpty = ''policy_empty''"
| "reason_str PolicyInvalid = ''policy_invalid''"
| "reason_str PolicyUnproven = ''policy_unproven''"
| "reason_str ModelKeyMissing = ''model_key_missing''"
| "reason_str ModelKeyUnproven = ''model_key_unproven''"
| "reason_str ConfigurationMissing = ''configuration_missing''"
| "reason_str ConfigurationInvalid = ''configuration_invalid''"
| "reason_str ConfigurationUnproven = ''configuration_unproven''"
| "reason_str AccountBridgeSourceBlocked = ''account_bridge_source_blocked''"
| "reason_str AccountBridgeSourceUnproven = ''account_bridge_source_unproven''"
| "reason_str ProductPermissionRequired = ''product_permission_required''"
| "reason_str ProductPermissionUnproven = ''product_permission_unproven''"
| "reason_str OsPermissionCaptureRequired = ''os_permission_capture_required''"
| "reason_str OsPermissionAccessibilityRequired = ''os_permission_accessibility_required''"
| "reason_str OsPermissionInputRequired = ''os_permission_input_required''"
| "reason_str OsPermissionUnproven = ''os_permission_unproven''"
| "reason_str OsPermissionExpired = ''os_permission_expired''"
| "reason_str LocalConfirmationRequired = ''local_confirmation_required''"
| "reason_str LocalConfirmationPending = ''local_confirmation_pending''"
| "reason_str LocalConfirmationUnavailable = ''local_confirmation_unavailable''"
| "reason_str LocalConfirmationUnproven = ''local_confirmation_unproven''"
| "reason_str LocalConfirmationExpired = ''local_confirmation_expired''"
| "reason_str PixelConsentRequired = ''pixel_consent_required''"
| "reason_str PixelConsentUnproven = ''pixel_consent_unproven''"
| "reason_str PixelConsentExpired = ''pixel_consent_expired''"
| "reason_str ComputerSourceMissing = ''computer_source_missing''"
| "reason_str NativeSourceMissing = ''native_source_missing''"
| "reason_str ScreenSourceMissing = ''screen_source_missing''"
| "reason_str SourceUnproven = ''source_unproven''"
| "reason_str SourceExpired = ''source_expired''"
| "reason_str ProviderDisconnected = ''provider_disconnected''"
| "reason_str ProviderUnproven = ''provider_unproven''"
| "reason_str ProviderExpired = ''provider_expired''"

definition capability_order :: "capability_id list" where
  "capability_order = [Workspace, AgentTools, ModelCustomV1, ModelSelectionV2, ModelSdkGateway, ModelAccountBridge,
     BrowserControl, NativeControl, PixelEgress, LocalConfirmation, BackupRestore, DynamicSso, DevicePairing]"

fun capability_ordinal :: "capability_id \<Rightarrow> nat" where
  "capability_ordinal Workspace = 0"
| "capability_ordinal AgentTools = 1"
| "capability_ordinal ModelCustomV1 = 2"
| "capability_ordinal ModelSelectionV2 = 3"
| "capability_ordinal ModelSdkGateway = 4"
| "capability_ordinal ModelAccountBridge = 5"
| "capability_ordinal BrowserControl = 6"
| "capability_ordinal NativeControl = 7"
| "capability_ordinal PixelEgress = 8"
| "capability_ordinal LocalConfirmation = 9"
| "capability_ordinal BackupRestore = 10"
| "capability_ordinal DynamicSso = 11"
| "capability_ordinal DevicePairing = 12"

definition capability_is_acting :: "capability_id \<Rightarrow> bool" where
  "capability_is_acting c \<longleftrightarrow> c \<in> {AgentTools, BrowserControl, NativeControl, PixelEgress}"

definition uses_model_key :: "capability_id \<Rightarrow> bool" where
  "uses_model_key c \<longleftrightarrow>
     c \<in> {AgentTools, ModelCustomV1, ModelSelectionV2, ModelSdkGateway, ModelAccountBridge}"

datatype remote_prose_rejected = RemoteProseRejected

definition reject_remote_prose :: "string \<Rightarrow> remote_prose_rejected" where
  "reject_remote_prose prose = RemoteProseRejected"

datatype host_mode = DesktopLocal | DesktopRemote | Server | MobileRemote

fun host_mode_str :: "host_mode \<Rightarrow> string" where
  "host_mode_str DesktopLocal = ''desktop_local''"
| "host_mode_str DesktopRemote = ''desktop_remote''"
| "host_mode_str Server = ''server''"
| "host_mode_str MobileRemote = ''mobile_remote''"

definition requires_window :: "host_mode \<Rightarrow> bool" where
  "requires_window m \<longleftrightarrow> m \<in> {DesktopLocal, DesktopRemote}"

datatype action_authorization = NotGranted

fun action_authorization_str :: "action_authorization \<Rightarrow> string" where
  "action_authorization_str NotGranted = ''not_granted''"

datatype session_liveness = LiveActive | LiveExited | LiveRevoked

section \<open>Facts\<close>

datatype evidence = EvidenceUnknown | EvidenceMissing | EvidencePresent

datatype presence =
  PresenceUnknown | PresenceAbsent
  | PresencePresent (independent_api: evidence) (release_dependency: evidence)

datatype policy_fact = PolicyUnknown | PolicyNotConfigured | PolicyIsEmpty | PolicyIsInvalid | PolicyConfigured

datatype model_key_fact = KeyUnknown | KeyAbsent | KeyPresent

datatype config_fact = ConfigUnknown | ConfigMissing | ConfigInvalid | ConfigPresent

datatype bridge_source_fact = BridgeUnknown | BridgeBlocked | BridgeAvailable

datatype provider_fact =
  ProviderIsUnknown | ProviderIsExpired | ProviderIsDisconnected | ProviderAvailable

datatype source_fact = SourceUnknown | SourceIsExpired | SourceAbsent | SourcePresent

datatype permission_fact = PermissionUnknown | PermissionExpired | PermissionDenied | PermissionGranted

datatype local_confirmation_fact =
  ConfirmationUnknown | ConfirmationExpired | ConfirmationUnavailable | ConfirmationRequired
  | ConfirmationPending | ConfirmationFresh

record implementation_set =
  impl_workspace :: presence
  impl_agent_tools :: presence
  impl_model_custom_v1 :: presence
  impl_model_selection_v2 :: presence
  impl_model_sdk_gateway :: presence
  impl_model_account_bridge :: presence
  impl_browser_control :: presence
  impl_native_control :: presence
  impl_pixel_egress :: presence
  impl_local_confirmation :: presence
  impl_backup_restore :: presence
  impl_dynamic_sso :: presence
  impl_device_pairing :: presence

fun implementation_for :: "implementation_set \<Rightarrow> capability_id \<Rightarrow> presence" where
  "implementation_for s Workspace = impl_workspace s"
| "implementation_for s AgentTools = impl_agent_tools s"
| "implementation_for s ModelCustomV1 = impl_model_custom_v1 s"
| "implementation_for s ModelSelectionV2 = impl_model_selection_v2 s"
| "implementation_for s ModelSdkGateway = impl_model_sdk_gateway s"
| "implementation_for s ModelAccountBridge = impl_model_account_bridge s"
| "implementation_for s BrowserControl = impl_browser_control s"
| "implementation_for s NativeControl = impl_native_control s"
| "implementation_for s PixelEgress = impl_pixel_egress s"
| "implementation_for s LocalConfirmation = impl_local_confirmation s"
| "implementation_for s BackupRestore = impl_backup_restore s"
| "implementation_for s DynamicSso = impl_dynamic_sso s"
| "implementation_for s DevicePairing = impl_device_pairing s"

record model_source_facts =
  source_key :: model_key_fact
  source_provider :: provider_fact

record runtime_capability_facts =
  implementations :: implementation_set
  acting_policy :: policy_fact
  model_key :: model_key_fact
  custom_model :: model_source_facts
  sdk_model :: model_source_facts
  bridge_model :: model_source_facts
  custom_model_config :: config_fact
  selection_v2_config :: config_fact
  sdk_gateway_config :: config_fact
  account_bridge_config :: config_fact
  account_bridge_source :: bridge_source_fact
  backup_config :: config_fact
  sso_config :: config_fact
  sso_provider :: provider_fact
  pairing_config :: config_fact
  model_provider :: provider_fact
  computer_source :: source_fact
  native_source :: source_fact
  screen_source :: source_fact
  os_capture :: permission_fact
  os_accessibility :: permission_fact
  os_input :: permission_fact
  pixel_model_consent :: permission_fact
  product_permissions :: "permission_fact list" \<comment> \<open>\<open>[PermissionFact; 13]\<close>\<close>
  local_confirmation :: local_confirmation_fact

section \<open>Faults\<close>

datatype revision_fault = RevisionEmpty | RevisionTooLong | RevisionInvalidCharset

fun revision_fault_code :: "revision_fault \<Rightarrow> string" where
  "revision_fault_code RevisionEmpty = ''runtime_capabilities_revision_empty''"
| "revision_fault_code RevisionTooLong = ''runtime_capabilities_revision_too_long''"
| "revision_fault_code RevisionInvalidCharset = ''runtime_capabilities_revision_invalid_charset''"

datatype binding_field = BindingActor | BindingHost

record unresolved_blockers =
  unresolved_capability :: capability_id
  blocked_unconfigured :: bool
  blocked_permission_required :: bool
  blocked_unavailable :: bool

datatype projection_fault =
  BindingMismatch binding_field
  | SessionExited
  | SessionRevoked
  | FaultGeneration generation_mismatch
  | WindowReplaced
  | WindowShape
  | WindowLabel
  | WindowNonce
  | FaultRevision revision_fault
  | FaultUnresolved unresolved_blockers

fun projection_fault_code :: "projection_fault \<Rightarrow> string" where
  "projection_fault_code (BindingMismatch field) = ''runtime_capabilities_binding_mismatch''"
| "projection_fault_code SessionExited = ''runtime_capabilities_session_exited''"
| "projection_fault_code SessionRevoked = ''runtime_capabilities_session_revoked''"
| "projection_fault_code (FaultGeneration Stale) = ''identity_generation_stale''"
| "projection_fault_code (FaultGeneration FromTheFuture) = ''identity_generation_from_the_future''"
| "projection_fault_code WindowReplaced = ''runtime_capabilities_window_replaced''"
| "projection_fault_code WindowShape = ''runtime_capabilities_window_shape''"
| "projection_fault_code WindowLabel = ''runtime_capabilities_window_label''"
| "projection_fault_code WindowNonce = ''runtime_capabilities_window_nonce''"
| "projection_fault_code (FaultRevision fault) = revision_fault_code fault"
| "projection_fault_code (FaultUnresolved blockers) = ''runtime_capabilities_unresolved_blockers''"

section \<open>Bindings and revisions\<close>

definition max_window_label_bytes :: nat where
  "max_window_label_bytes = 256"

definition min_revision_bytes :: nat where
  "min_revision_bytes = 1"

definition max_revision_bytes :: nat where
  "max_revision_bytes = 64"

text \<open>A buffer of \<open>n\<close> zero bytes into which a string is copied.\<close>

definition stored_bytes :: "nat \<Rightarrow> string \<Rightarrow> string" where
  "stored_bytes n value = value @ replicate (n - length value) (CHR 0x00)"

record window_binding_claim =
  window_label_buffer :: string
  window_label_len :: u16
  window_nonce :: u64

definition window_declare :: "string \<Rightarrow> u64 \<Rightarrow> (projection_fault, window_binding_claim) result" where
  "window_declare label nonce =
     (if nonce = 0 then Err WindowNonce
      else if label = [] \<or> max_window_label_bytes < length label \<or> CHR 0x00 \<in> set label then Err WindowLabel
      else Ok \<lparr>window_label_buffer = stored_bytes max_window_label_bytes label,
               window_label_len = of_nat (length label), window_nonce = nonce\<rparr>)"

definition window_label :: "window_binding_claim \<Rightarrow> string" where
  "window_label w = take (unat (window_label_len w)) (window_label_buffer w)"

record binding_claim =
  claim_actor :: string
  claim_generation :: auth_generation
  claim_host_mode :: host_mode
  claim_session :: session_liveness
  claim_window :: "window_binding_claim option"

definition binding_declare ::
  "string \<Rightarrow> auth_generation \<Rightarrow> host_mode \<Rightarrow> session_liveness \<Rightarrow> window_binding_claim option
   \<Rightarrow> (projection_fault, binding_claim) result" where
  "binding_declare actor generation mode session window =
     (if requires_window mode = (window \<noteq> None)
      then Ok \<lparr>claim_actor = actor, claim_generation = generation, claim_host_mode = mode,
               claim_session = session, claim_window = window\<rparr>
      else Err WindowShape)"

record projection_revision =
  revision_buffer :: string
  revision_len :: u8

definition revision_byte :: "char \<Rightarrow> bool" where
  "revision_byte c \<longleftrightarrow> is_ascii_alphanumeric c \<or> c \<in> {CHR ''.'', CHR ''_'', CHR ''-''}"

definition revision_try_from_opaque :: "string \<Rightarrow> (revision_fault, projection_revision) result" where
  "revision_try_from_opaque value =
     (if length value < min_revision_bytes then Err RevisionEmpty
      else if max_revision_bytes < length value then Err RevisionTooLong
      else if \<not> list_all revision_byte value then Err RevisionInvalidCharset
      else Ok \<lparr>revision_buffer = stored_bytes max_revision_bytes value, revision_len = of_nat (length value)\<rparr>)"

definition revision_str :: "projection_revision \<Rightarrow> string" where
  "revision_str r = take (unat (revision_len r)) (revision_buffer r)"

definition check_bindings :: "binding_claim \<Rightarrow> binding_claim \<Rightarrow> (projection_fault, host_mode) result" where
  "check_bindings current observed =
     (if claim_session current = LiveRevoked \<or> claim_session observed = LiveRevoked then Err SessionRevoked
      else if claim_session current = LiveExited \<or> claim_session observed = LiveExited then Err SessionExited
      else if claim_host_mode current \<noteq> claim_host_mode observed then Err (BindingMismatch BindingHost)
      else if claim_actor current \<noteq> claim_actor observed then Err (BindingMismatch BindingActor)
      else case generation_check (claim_generation observed) (claim_generation current) of
        Inl e \<Rightarrow> Err (FaultGeneration e)
      | Inr _ \<Rightarrow>
          (case (claim_window current, claim_window observed) of
             (None, None) \<Rightarrow> Ok (claim_host_mode current)
           | (Some l, Some r) \<Rightarrow>
               if window_nonce l \<noteq> window_nonce r \<or> window_label l \<noteq> window_label r then Err WindowReplaced
               else Ok (claim_host_mode current)
           | _ \<Rightarrow> Err WindowShape))"

section \<open>Blockers\<close>

record blocker =
  blocker_state :: capability_state
  blocker_reason :: reason_code

definition unconf :: "reason_code \<Rightarrow> blocker" where
  "unconf reason = \<lparr>blocker_state = CapUnconfigured, blocker_reason = reason\<rparr>"

definition perm :: "reason_code \<Rightarrow> blocker" where
  "perm reason = \<lparr>blocker_state = CapPermissionRequired, blocker_reason = reason\<rparr>"

definition unavail :: "reason_code \<Rightarrow> blocker" where
  "unavail reason = \<lparr>blocker_state = CapUnavailable, blocker_reason = reason\<rparr>"

fun push_release :: "blocker list \<Rightarrow> evidence \<Rightarrow> blocker list" where
  "push_release bs EvidencePresent = bs"
| "push_release bs EvidenceMissing = bs @ [unavail ReleaseDependencyMissing]"
| "push_release bs EvidenceUnknown = bs @ [unavail ReleaseDependencyUnproven]"

fun push_policy :: "blocker list \<Rightarrow> policy_fact \<Rightarrow> blocker list" where
  "push_policy bs PolicyConfigured = bs"
| "push_policy bs PolicyNotConfigured = bs @ [unconf PolicyUnconfigured]"
| "push_policy bs PolicyIsEmpty = bs @ [unconf PolicyEmpty]"
| "push_policy bs PolicyIsInvalid = bs @ [unconf PolicyInvalid]"
| "push_policy bs PolicyUnknown = bs @ [unavail PolicyUnproven]"

fun push_model_key :: "blocker list \<Rightarrow> model_key_fact \<Rightarrow> blocker list" where
  "push_model_key bs KeyPresent = bs"
| "push_model_key bs KeyAbsent = bs @ [unconf ModelKeyMissing]"
| "push_model_key bs KeyUnknown = bs @ [unavail ModelKeyUnproven]"

fun push_config :: "blocker list \<Rightarrow> config_fact \<Rightarrow> blocker list" where
  "push_config bs ConfigPresent = bs"
| "push_config bs ConfigMissing = bs @ [unconf ConfigurationMissing]"
| "push_config bs ConfigInvalid = bs @ [unconf ConfigurationInvalid]"
| "push_config bs ConfigUnknown = bs @ [unavail ConfigurationUnproven]"

fun push_bridge_source :: "blocker list \<Rightarrow> bridge_source_fact \<Rightarrow> blocker list" where
  "push_bridge_source bs BridgeAvailable = bs"
| "push_bridge_source bs BridgeBlocked = bs @ [unconf AccountBridgeSourceBlocked]"
| "push_bridge_source bs BridgeUnknown = bs @ [unavail AccountBridgeSourceUnproven]"

fun push_provider :: "blocker list \<Rightarrow> provider_fact \<Rightarrow> blocker list" where
  "push_provider bs ProviderAvailable = bs"
| "push_provider bs ProviderIsDisconnected = bs @ [unavail ProviderDisconnected]"
| "push_provider bs ProviderIsUnknown = bs @ [unavail ProviderUnproven]"
| "push_provider bs ProviderIsExpired = bs @ [unavail ProviderExpired]"

fun push_source :: "blocker list \<Rightarrow> source_fact \<Rightarrow> reason_code \<Rightarrow> blocker list" where
  "push_source bs SourcePresent missing = bs"
| "push_source bs SourceAbsent missing = bs @ [unavail missing]"
| "push_source bs SourceUnknown missing = bs @ [unavail SourceUnproven]"
| "push_source bs SourceIsExpired missing = bs @ [unavail SourceExpired]"

fun push_os_permission :: "blocker list \<Rightarrow> permission_fact \<Rightarrow> reason_code \<Rightarrow> blocker list" where
  "push_os_permission bs PermissionGranted denied = bs"
| "push_os_permission bs PermissionDenied denied = bs @ [perm denied]"
| "push_os_permission bs PermissionUnknown denied = bs @ [unavail OsPermissionUnproven]"
| "push_os_permission bs PermissionExpired denied = bs @ [unavail OsPermissionExpired]"

fun push_pixel_consent :: "blocker list \<Rightarrow> permission_fact \<Rightarrow> blocker list" where
  "push_pixel_consent bs PermissionGranted = bs"
| "push_pixel_consent bs PermissionDenied = bs @ [perm PixelConsentRequired]"
| "push_pixel_consent bs PermissionUnknown = bs @ [unavail PixelConsentUnproven]"
| "push_pixel_consent bs PermissionExpired = bs @ [unavail PixelConsentExpired]"

fun push_local_confirmation :: "blocker list \<Rightarrow> local_confirmation_fact \<Rightarrow> blocker list" where
  "push_local_confirmation bs ConfirmationFresh = bs"
| "push_local_confirmation bs ConfirmationRequired = bs @ [perm LocalConfirmationRequired]"
| "push_local_confirmation bs ConfirmationPending = bs @ [perm LocalConfirmationPending]"
| "push_local_confirmation bs ConfirmationUnavailable = bs @ [unavail LocalConfirmationUnavailable]"
| "push_local_confirmation bs ConfirmationUnknown = bs @ [unavail LocalConfirmationUnproven]"
| "push_local_confirmation bs ConfirmationExpired = bs @ [unavail LocalConfirmationExpired]"

definition push_product_permission :: "blocker list \<Rightarrow> permission_fact \<Rightarrow> blocker list" where
  "push_product_permission bs seen =
     (case seen of
        PermissionGranted \<Rightarrow> bs
      | PermissionDenied \<Rightarrow> bs @ [perm ProductPermissionRequired]
      | _ \<Rightarrow> bs @ [unavail ProductPermissionUnproven])"

text \<open>The model key and provider a capability reads: three capabilities have sources of their own.\<close>

definition model_source_for :: "runtime_capability_facts \<Rightarrow> capability_id \<Rightarrow> model_source_facts" where
  "model_source_for facts c =
     (case c of
        ModelCustomV1 \<Rightarrow> custom_model facts
      | ModelSdkGateway \<Rightarrow> sdk_model facts
      | ModelAccountBridge \<Rightarrow> bridge_model facts
      | _ \<Rightarrow> \<lparr>source_key = model_key facts, source_provider = model_provider facts\<rparr>)"

definition push_provider_if :: "bool \<Rightarrow> blocker list \<Rightarrow> provider_fact \<Rightarrow> blocker list" where
  "push_provider_if guard bs seen = (if guard then push_provider bs seen else bs)"

definition add_applicable_blockers ::
  "capability_id \<Rightarrow> runtime_capability_facts \<Rightarrow> blocker list \<Rightarrow> blocker list" where
  "add_applicable_blockers c facts bs =
     (let bs = push_product_permission bs (product_permissions facts ! capability_ordinal c);
          bs = (if capability_is_acting c then push_policy bs (acting_policy facts) else bs);
          model = model_source_for facts c;
          keyed = (source_key model = KeyPresent);
          bs = (if uses_model_key c then push_model_key bs (source_key model) else bs)
      in case c of
           Workspace \<Rightarrow> bs
         | AgentTools \<Rightarrow> push_provider_if keyed bs (source_provider model)
         | ModelCustomV1 \<Rightarrow> push_provider_if keyed (push_config bs (custom_model_config facts)) (source_provider model)
         | ModelSelectionV2 \<Rightarrow> push_provider_if keyed (push_config bs (selection_v2_config facts)) (source_provider model)
         | ModelSdkGateway \<Rightarrow> push_provider_if keyed (push_config bs (sdk_gateway_config facts)) (source_provider model)
         | ModelAccountBridge \<Rightarrow>
             push_provider_if (keyed \<and> account_bridge_source facts = BridgeAvailable)
               (push_bridge_source (push_config bs (account_bridge_config facts)) (account_bridge_source facts))
               (source_provider model)
         | BrowserControl \<Rightarrow> push_source bs (computer_source facts) ComputerSourceMissing
         | NativeControl \<Rightarrow>
             push_os_permission
               (push_os_permission (push_source bs (native_source facts) NativeSourceMissing)
                 (os_accessibility facts) OsPermissionAccessibilityRequired)
               (os_input facts) OsPermissionInputRequired
         | PixelEgress \<Rightarrow>
             push_model_key
               (push_provider
                 (push_pixel_consent
                   (push_os_permission (push_source bs (screen_source facts) ScreenSourceMissing)
                     (os_capture facts) OsPermissionCaptureRequired)
                   (pixel_model_consent facts))
                 (source_provider model))
               (model_key facts)
         | LocalConfirmation \<Rightarrow> push_local_confirmation bs (local_confirmation facts)
         | BackupRestore \<Rightarrow> push_config bs (backup_config facts)
         | DynamicSso \<Rightarrow>
             push_provider_if (sso_config facts = ConfigPresent) (push_config bs (sso_config facts)) (sso_provider facts)
         | DevicePairing \<Rightarrow> push_config bs (pairing_config facts))"

section \<open>The projection\<close>

record capability_status =
  status_id :: capability_id
  status_state :: capability_state
  status_reason :: reason_code

definition capability_status_new :: "capability_id \<Rightarrow> capability_state \<Rightarrow> reason_code \<Rightarrow> capability_status" where
  "capability_status_new c state reason = \<lparr>status_id = c, status_state = state, status_reason = reason\<rparr>"

definition finish_step :: "bool \<times> bool \<times> bool \<Rightarrow> blocker \<Rightarrow> bool \<times> bool \<times> bool" where
  "finish_step flags b =
     (case flags of (unconfigured, permission_required, unavailable) \<Rightarrow>
        (case blocker_state b of
           CapUnconfigured \<Rightarrow> (True, permission_required, unavailable)
         | CapPermissionRequired \<Rightarrow> (unconfigured, True, unavailable)
         | CapUnavailable \<Rightarrow> (unconfigured, permission_required, True)
         | _ \<Rightarrow> flags))"

definition finish_status :: "capability_id \<Rightarrow> blocker list \<Rightarrow> (projection_fault, capability_status) result" where
  "finish_status c bs =
     (case bs of
        [] \<Rightarrow> Ok (capability_status_new c CapReady CurrentChecksAvailable)
      | first # _ \<Rightarrow>
          (case foldl finish_step (False, False, False) bs of (unconfigured, permission_required, unavailable) \<Rightarrow>
             if 2 \<le> (of_bool unconfigured + of_bool permission_required + of_bool unavailable :: u8)
             then Err (FaultUnresolved \<lparr>unresolved_capability = c, blocked_unconfigured = unconfigured,
                         blocked_permission_required = permission_required, blocked_unavailable = unavailable\<rparr>)
             else Ok (capability_status_new c (blocker_state first) (blocker_reason first))))"

datatype support_gate =
  GateUnsupported reason_code
  | GateUnproven reason_code
  | GateImplemented evidence

fun support_gate_of :: "presence \<Rightarrow> support_gate" where
  "support_gate_of PresenceAbsent = GateUnsupported PlatformUnimplemented"
| "support_gate_of PresenceUnknown = GateUnproven SupportUnproven"
| "support_gate_of (PresencePresent EvidenceMissing release) = GateUnsupported IndependentApiMissing"
| "support_gate_of (PresencePresent EvidenceUnknown release) = GateUnproven SupportUnproven"
| "support_gate_of (PresencePresent EvidencePresent release) = GateImplemented release"

definition project_one :: "capability_id \<Rightarrow> runtime_capability_facts \<Rightarrow> (projection_fault, capability_status) result" where
  "project_one c facts =
     (case support_gate_of (implementation_for (implementations facts) c) of
        GateUnsupported reason \<Rightarrow> Ok (capability_status_new c CapUnsupported reason)
      | GateUnproven reason \<Rightarrow> Ok (capability_status_new c CapUnavailable reason)
      | GateImplemented release \<Rightarrow>
          finish_status c (add_applicable_blockers c facts (push_release [] release)))"

record runtime_capability_request =
  current_runtime :: u64
  observed_runtime :: u64
  current_binding :: binding_claim
  observed_binding :: binding_claim
  request_revision :: string
  request_facts :: runtime_capability_facts

record runtime_capability_projection =
  schema_version :: u8
  projected_host_mode :: host_mode
  projected_revision :: projection_revision
  projected_capabilities :: "capability_status list"
  projected_authorization :: action_authorization

definition capability_schema_version :: u8 where
  "capability_schema_version = 1"

text \<open>The loop over \<open>ORDER\<close>: entry \<open>index\<close> of the array is overwritten, and the first fault ends it.\<close>

fun project_loop ::
  "runtime_capability_facts \<Rightarrow> (nat \<times> capability_id) list \<Rightarrow> capability_status list
   \<Rightarrow> (projection_fault, capability_status list) result" where
  "project_loop facts [] out = Ok out"
| "project_loop facts ((index, c) # rest) out =
     (case project_one c facts of
        Inl e \<Rightarrow> Err e
      | Inr s \<Rightarrow> project_loop facts rest (out[index := s]))"

definition project_runtime_capabilities ::
  "runtime_capability_request \<Rightarrow> (projection_fault, runtime_capability_projection) result" where
  "project_runtime_capabilities q =
     (if current_runtime q \<noteq> observed_runtime q then Err (BindingMismatch BindingHost)
      else case check_bindings (current_binding q) (observed_binding q) of Inl e \<Rightarrow> Err e
      | Inr mode \<Rightarrow>
        (case revision_try_from_opaque (request_revision q) of Inl e \<Rightarrow> Err (FaultRevision e)
         | Inr revision \<Rightarrow>
           (case project_loop (request_facts q) (enumerate 0 capability_order)
                   (replicate 13 (capability_status_new Workspace CapUnsupported PlatformUnimplemented)) of
              Inl e \<Rightarrow> Err e
            | Inr capabilities \<Rightarrow>
                Ok \<lparr>schema_version = capability_schema_version, projected_host_mode = mode,
                    projected_revision = revision, projected_capabilities = capabilities,
                    projected_authorization = NotGranted\<rparr>)))"

definition projected_status :: "runtime_capability_projection \<Rightarrow> capability_id \<Rightarrow> capability_status" where
  "projected_status p c = projected_capabilities p ! capability_ordinal c"

section \<open>Labels and revisions read back\<close>

lemma take_stored_bytes: "length value \<le> n \<Longrightarrow> take (length value) (stored_bytes n value) = value"
  by (simp add: stored_bytes_def)

lemma unat_of_length: "length value < 2 ^ LENGTH('a) \<Longrightarrow> unat (of_nat (length value) :: 'a::len word) = length value"
  by (simp add: unat_of_nat)

definition window_label_ok :: "string \<Rightarrow> bool" where
  "window_label_ok label \<longleftrightarrow> label \<noteq> [] \<and> length label \<le> 256 \<and> CHR 0x00 \<notin> set label"

lemma window_declare_ok:
  "window_declare label nonce = Ok w \<longleftrightarrow>
     nonce \<noteq> 0 \<and> window_label_ok label \<and>
     w = \<lparr>window_label_buffer = stored_bytes 256 label, window_label_len = of_nat (length label), window_nonce = nonce\<rparr>"
  by (auto simp: window_declare_def window_label_ok_def max_window_label_bytes_def)

lemma window_declare_label: "window_declare label nonce = Ok w \<Longrightarrow> window_label w = label \<and> window_nonce w = nonce"
  by (simp add: window_declare_ok window_label_ok_def window_label_def unat_of_length take_stored_bytes)

definition revision_ok :: "string \<Rightarrow> bool" where
  "revision_ok value \<longleftrightarrow> value \<noteq> [] \<and> length value \<le> 64 \<and> list_all revision_byte value"

lemma revision_try_from_opaque_ok:
  "revision_try_from_opaque value = Ok r \<longleftrightarrow>
     revision_ok value \<and> r = \<lparr>revision_buffer = stored_bytes 64 value, revision_len = of_nat (length value)\<rparr>"
  by (auto simp: revision_try_from_opaque_def revision_ok_def min_revision_bytes_def max_revision_bytes_def
      not_less Suc_le_eq)

lemma revision_reads_back: "revision_try_from_opaque value = Ok r \<Longrightarrow> revision_str r = value"
  by (simp add: revision_try_from_opaque_ok revision_ok_def revision_str_def unat_of_length take_stored_bytes)

section \<open>Bindings\<close>

definition window_identity :: "window_binding_claim option \<Rightarrow> (u64 \<times> string) option" where
  "window_identity w = map_option (\<lambda>w. (window_nonce w, window_label w)) w"

definition binding_current :: "binding_claim \<Rightarrow> binding_claim \<Rightarrow> bool" where
  "binding_current current observed \<longleftrightarrow>
     claim_session current = LiveActive \<and> claim_session observed = LiveActive
     \<and> claim_host_mode current = claim_host_mode observed \<and> claim_actor current = claim_actor observed
     \<and> claim_generation current = claim_generation observed
     \<and> window_identity (claim_window current) = window_identity (claim_window observed)"

lemma generation_check_current: "generation_check g h = Ok u \<longleftrightarrow> g = h"
  by (auto simp: generation_check_def auth_generation.expand)

lemma check_bindings_ok:
  "check_bindings current observed = Ok mode \<longleftrightarrow> binding_current current observed \<and> mode = claim_host_mode current"
proof (cases "generation_check (claim_generation observed) (claim_generation current)")
  case (Inl e)
  then have "claim_generation observed \<noteq> claim_generation current"
    by (metis generation_check_current Inl_Inr_False)
  with Inl show ?thesis by (simp add: check_bindings_def binding_current_def)
next
  case (Inr u)
  then have "claim_generation observed = claim_generation current"
    by (simp add: generation_check_current)
  with Inr show ?thesis
    by (cases "claim_session current"; cases "claim_session observed")
      (auto simp: check_bindings_def binding_current_def window_identity_def split: option.splits)
qed

section \<open>Blockers of one capability\<close>

definition blocking_states :: "capability_state set" where
  "blocking_states = {CapUnconfigured, CapPermissionRequired, CapUnavailable}"

definition blocks :: "blocker list \<Rightarrow> bool" where
  "blocks bs \<longleftrightarrow> blocker_state ` set bs \<subseteq> blocking_states"

lemmas push_defs = unavail_def unconf_def perm_def push_provider_if_def push_product_permission_def

text \<open>Every push adds blockers of a blocking state only, and adds nothing exactly when its fact is
  positive.\<close>

lemma push_blocks:
  "blocks (push_release bs e) \<longleftrightarrow> blocks bs"
  "blocks (push_policy bs p) \<longleftrightarrow> blocks bs"
  "blocks (push_model_key bs k) \<longleftrightarrow> blocks bs"
  "blocks (push_config bs c) \<longleftrightarrow> blocks bs"
  "blocks (push_bridge_source bs b) \<longleftrightarrow> blocks bs"
  "blocks (push_provider bs v) \<longleftrightarrow> blocks bs"
  "blocks (push_source bs s r) \<longleftrightarrow> blocks bs"
  "blocks (push_os_permission bs d r) \<longleftrightarrow> blocks bs"
  "blocks (push_pixel_consent bs d) \<longleftrightarrow> blocks bs"
  "blocks (push_local_confirmation bs l) \<longleftrightarrow> blocks bs"
  "blocks (push_product_permission bs d) \<longleftrightarrow> blocks bs"
  unfolding blocks_def blocking_states_def
  subgoal by (cases e) (simp_all add: push_defs)
  subgoal by (cases p) (simp_all add: push_defs)
  subgoal by (cases k) (simp_all add: push_defs)
  subgoal by (cases c) (simp_all add: push_defs)
  subgoal by (cases b) (simp_all add: push_defs)
  subgoal by (cases v) (simp_all add: push_defs)
  subgoal by (cases s) (simp_all add: push_defs)
  subgoal by (cases d) (simp_all add: push_defs)
  subgoal by (cases d) (simp_all add: push_defs)
  subgoal by (cases l) (simp_all add: push_defs)
  subgoal by (cases d) (simp_all add: push_defs)
  done

lemma push_provider_if_blocks: "blocks (push_provider_if g bs v) \<longleftrightarrow> blocks bs"
  by (simp add: push_provider_if_def push_blocks)

lemma push_empty:
  "push_release bs e = [] \<longleftrightarrow> bs = [] \<and> e = EvidencePresent"
  "push_policy bs p = [] \<longleftrightarrow> bs = [] \<and> p = PolicyConfigured"
  "push_model_key bs k = [] \<longleftrightarrow> bs = [] \<and> k = KeyPresent"
  "push_config bs c = [] \<longleftrightarrow> bs = [] \<and> c = ConfigPresent"
  "push_bridge_source bs b = [] \<longleftrightarrow> bs = [] \<and> b = BridgeAvailable"
  "push_provider bs v = [] \<longleftrightarrow> bs = [] \<and> v = ProviderAvailable"
  "push_source bs s r = [] \<longleftrightarrow> bs = [] \<and> s = SourcePresent"
  "push_os_permission bs d r = [] \<longleftrightarrow> bs = [] \<and> d = PermissionGranted"
  "push_pixel_consent bs d = [] \<longleftrightarrow> bs = [] \<and> d = PermissionGranted"
  "push_local_confirmation bs l = [] \<longleftrightarrow> bs = [] \<and> l = ConfirmationFresh"
  "push_product_permission bs d = [] \<longleftrightarrow> bs = [] \<and> d = PermissionGranted"
  subgoal by (cases e) (simp_all add: push_defs)
  subgoal by (cases p) (simp_all add: push_defs)
  subgoal by (cases k) (simp_all add: push_defs)
  subgoal by (cases c) (simp_all add: push_defs)
  subgoal by (cases b) (simp_all add: push_defs)
  subgoal by (cases v) (simp_all add: push_defs)
  subgoal by (cases s) (simp_all add: push_defs)
  subgoal by (cases d) (simp_all add: push_defs)
  subgoal by (cases d) (simp_all add: push_defs)
  subgoal by (cases l) (simp_all add: push_defs)
  subgoal by (cases d) (simp_all add: push_defs)
  done

lemma push_provider_if_empty: "push_provider_if g bs v = [] \<longleftrightarrow> bs = [] \<and> (g \<longrightarrow> v = ProviderAvailable)"
  by (simp add: push_provider_if_def push_empty)

definition capability_blockers :: "runtime_capability_facts \<Rightarrow> capability_id \<Rightarrow> evidence \<Rightarrow> blocker list" where
  "capability_blockers facts c release = add_applicable_blockers c facts (push_release [] release)"

lemma capability_blockers_block: "blocks (capability_blockers facts c release)"
proof -
  have "blocks []" by (simp add: blocks_def)
  then show ?thesis
    by (cases c) (simp_all add: capability_blockers_def add_applicable_blockers_def Let_def push_blocks push_provider_if_blocks)
qed

section \<open>When a capability is ready\<close>

text \<open>The facts that must all be positive, capability by capability.\<close>

fun own_facts_positive :: "runtime_capability_facts \<Rightarrow> capability_id \<Rightarrow> bool" where
  "own_facts_positive f Workspace \<longleftrightarrow> True"
| "own_facts_positive f AgentTools \<longleftrightarrow> model_key f = KeyPresent \<and> model_provider f = ProviderAvailable"
| "own_facts_positive f ModelCustomV1 \<longleftrightarrow>
     custom_model f = \<lparr>source_key = KeyPresent, source_provider = ProviderAvailable\<rparr>
     \<and> custom_model_config f = ConfigPresent"
| "own_facts_positive f ModelSelectionV2 \<longleftrightarrow>
     model_key f = KeyPresent \<and> model_provider f = ProviderAvailable \<and> selection_v2_config f = ConfigPresent"
| "own_facts_positive f ModelSdkGateway \<longleftrightarrow>
     sdk_model f = \<lparr>source_key = KeyPresent, source_provider = ProviderAvailable\<rparr>
     \<and> sdk_gateway_config f = ConfigPresent"
| "own_facts_positive f ModelAccountBridge \<longleftrightarrow>
     bridge_model f = \<lparr>source_key = KeyPresent, source_provider = ProviderAvailable\<rparr>
     \<and> account_bridge_config f = ConfigPresent \<and> account_bridge_source f = BridgeAvailable"
| "own_facts_positive f BrowserControl \<longleftrightarrow> computer_source f = SourcePresent"
| "own_facts_positive f NativeControl \<longleftrightarrow>
     native_source f = SourcePresent \<and> os_accessibility f = PermissionGranted \<and> os_input f = PermissionGranted"
| "own_facts_positive f PixelEgress \<longleftrightarrow>
     screen_source f = SourcePresent \<and> os_capture f = PermissionGranted \<and> pixel_model_consent f = PermissionGranted
     \<and> model_key f = KeyPresent \<and> model_provider f = ProviderAvailable"
| "own_facts_positive f LocalConfirmation \<longleftrightarrow> local_confirmation f = ConfirmationFresh"
| "own_facts_positive f BackupRestore \<longleftrightarrow> backup_config f = ConfigPresent"
| "own_facts_positive f DynamicSso \<longleftrightarrow> sso_config f = ConfigPresent \<and> sso_provider f = ProviderAvailable"
| "own_facts_positive f DevicePairing \<longleftrightarrow> pairing_config f = ConfigPresent"

definition every_check_positive :: "runtime_capability_facts \<Rightarrow> capability_id \<Rightarrow> bool" where
  "every_check_positive f c \<longleftrightarrow>
     implementation_for (implementations f) c = PresencePresent EvidencePresent EvidencePresent
     \<and> product_permissions f ! capability_ordinal c = PermissionGranted
     \<and> (c \<in> {AgentTools, BrowserControl, NativeControl, PixelEgress} \<longrightarrow> acting_policy f = PolicyConfigured)
     \<and> own_facts_positive f c"

lemma capability_blockers_empty:
  "capability_blockers f c release = [] \<longleftrightarrow>
     release = EvidencePresent \<and> product_permissions f ! capability_ordinal c = PermissionGranted
     \<and> (capability_is_acting c \<longrightarrow> acting_policy f = PolicyConfigured) \<and> own_facts_positive f c"
  by (cases c)
    (auto simp: capability_blockers_def add_applicable_blockers_def Let_def push_empty push_provider_if_empty
      capability_is_acting_def uses_model_key_def model_source_for_def model_source_facts.equality)

definition agreeing :: "blocker list \<Rightarrow> bool" where
  "agreeing bs \<longleftrightarrow> (\<forall>x\<in>set bs. \<forall>y\<in>set bs. blocker_state x = blocker_state y)"

lemma foldl_finish:
  "foldl finish_step (u, p, v) bs =
     (u \<or> CapUnconfigured \<in> blocker_state ` set bs, p \<or> CapPermissionRequired \<in> blocker_state ` set bs,
      v \<or> CapUnavailable \<in> blocker_state ` set bs)"
proof (induction bs arbitrary: u p v)
  case (Cons b bs)
  then show ?case by (cases "blocker_state b") (simp_all add: finish_step_def)
qed simp

lemma image_singleton_iff: "f ` A = {c} \<longleftrightarrow> A \<noteq> {} \<and> (\<forall>x\<in>A. f x = c)"
  by fastforce

lemma agreeing_states: "agreeing (b # bs) \<longleftrightarrow> blocker_state ` set (b # bs) = {blocker_state b}"
  unfolding agreeing_def image_singleton_iff
proof
  assume all: "\<forall>x\<in>set (b # bs). \<forall>y\<in>set (b # bs). blocker_state x = blocker_state y"
  show "set (b # bs) \<noteq> {} \<and> (\<forall>x\<in>set (b # bs). blocker_state x = blocker_state b)"
    using bspec [OF bspec [OF all]] by (metis list.set_intros(1) empty_iff)
next
  assume one: "set (b # bs) \<noteq> {} \<and> (\<forall>x\<in>set (b # bs). blocker_state x = blocker_state b)"
  show "\<forall>x\<in>set (b # bs). \<forall>y\<in>set (b # bs). blocker_state x = blocker_state y"
  proof (intro ballI)
    fix x y assume "x \<in> set (b # bs)" "y \<in> set (b # bs)"
    with one have "blocker_state x = blocker_state b" "blocker_state y = blocker_state b" by blast+
    then show "blocker_state x = blocker_state y" by (rule trans [OF _ sym])
  qed
qed

lemma distinct_states:
  assumes "S \<subseteq> {CapUnconfigured, CapPermissionRequired, CapUnavailable}" "s \<in> S"
  shows "(2 :: u8) \<le> of_bool (CapUnconfigured \<in> S) + of_bool (CapPermissionRequired \<in> S) + of_bool (CapUnavailable \<in> S)
    \<longleftrightarrow> S \<noteq> {s}"
proof -
  have "S \<in> Pow {CapUnconfigured, CapPermissionRequired, CapUnavailable}" using assms(1) by simp
  then show ?thesis using assms(2)
    by (simp add: Pow_insert) (elim disjE; force simp: word_le_nat_alt)
qed

lemma finish_status_ok:
  assumes "blocks bs"
  shows "finish_status c bs = Ok s \<longleftrightarrow>
    agreeing bs \<and> s = (if bs = [] then capability_status_new c CapReady CurrentChecksAvailable
      else capability_status_new c (blocker_state (hd bs)) (blocker_reason (hd bs)))"
proof (cases bs)
  case Nil
  then show ?thesis by (auto simp: finish_status_def agreeing_def)
next
  case (Cons b rest)
  let ?S = "blocker_state ` set bs"
  have sub: "?S \<subseteq> {CapUnconfigured, CapPermissionRequired, CapUnavailable}" and b: "blocker_state b \<in> ?S"
    using assms Cons by (auto simp: blocks_def blocking_states_def)
  have agree: "?S \<noteq> {blocker_state b} \<longleftrightarrow> \<not> agreeing bs"
    unfolding Cons by (simp only: agreeing_states)
  let ?fault = "FaultUnresolved \<lparr>unresolved_capability = c, blocked_unconfigured = CapUnconfigured \<in> ?S,
      blocked_permission_required = CapPermissionRequired \<in> ?S, blocked_unavailable = CapUnavailable \<in> ?S\<rparr>"
  have "finish_status c bs = (if \<not> agreeing bs then Err ?fault
      else Ok (capability_status_new c (blocker_state b) (blocker_reason b)))"
    unfolding agree [symmetric] distinct_states [OF sub b, symmetric]
    by (simp only: finish_status_def Cons list.case foldl_finish prod.case simp_thms)
  with Cons show ?thesis by auto
qed

section \<open>The whole projection\<close>

definition resolvable :: "runtime_capability_facts \<Rightarrow> capability_id \<Rightarrow> bool" where
  "resolvable f c \<longleftrightarrow>
     (case implementation_for (implementations f) c of
        PresencePresent EvidencePresent release \<Rightarrow> agreeing (capability_blockers f c release)
      | _ \<Rightarrow> True)"

lemma project_one_resolvable: "(\<exists>s. project_one c f = Ok s) \<longleftrightarrow> resolvable f c"
  by (cases "implementation_for (implementations f) c" rule: support_gate_of.cases)
    (simp_all add: project_one_def resolvable_def finish_status_ok capability_blockers_block capability_blockers_def
      [symmetric])

definition unsupported :: "presence \<Rightarrow> bool" where
  "unsupported p \<longleftrightarrow> p = PresenceAbsent \<or> (\<exists>release. p = PresencePresent EvidenceMissing release)"

lemma first_blocker_state:
  assumes "blocks bs" "bs \<noteq> []"
  shows "blocker_state (hd bs) \<in> blocking_states"
  using assms by (cases bs) (auto simp: blocks_def)

lemma project_one_ok:
  assumes "project_one c f = Ok s"
  shows "status_id s = c \<and> (status_state s = CapReady \<longleftrightarrow> every_check_positive f c)
    \<and> (status_state s = CapUnsupported \<longleftrightarrow> unsupported (implementation_for (implementations f) c))"
proof (cases "implementation_for (implementations f) c" rule: support_gate_of.cases)
  case (5 release)
  let ?bs = "capability_blockers f c release"
  have "finish_status c ?bs = Ok s"
    using assms 5 by (simp add: project_one_def capability_blockers_def)
  then have s: "s = (if ?bs = [] then capability_status_new c CapReady CurrentChecksAvailable
      else capability_status_new c (blocker_state (hd ?bs)) (blocker_reason (hd ?bs)))"
    by (simp add: finish_status_ok capability_blockers_block)
  show ?thesis
  proof (cases "?bs = []")
    case True
    with s 5 capability_blockers_empty [of f c release] show ?thesis
      by (simp add: capability_status_new_def every_check_positive_def unsupported_def capability_is_acting_def)
  next
    case False
    with capability_blockers_empty [of f c release] 5 have "\<not> every_check_positive f c"
      by (simp add: every_check_positive_def capability_is_acting_def)
    with False s 5 first_blocker_state [OF capability_blockers_block False] show ?thesis
      by (auto simp: capability_status_new_def unsupported_def blocking_states_def)
  qed
qed (insert assms, auto simp: project_one_def capability_status_new_def every_check_positive_def unsupported_def)

section \<open>The state a reason stands for\<close>

text \<open>Every reason code belongs to one state.\<close>

fun reason_state :: "reason_code \<Rightarrow> capability_state" where
  "reason_state CurrentChecksAvailable = CapReady"
| "reason_state PlatformUnimplemented = CapUnsupported"
| "reason_state IndependentApiMissing = CapUnsupported"
| "reason_state SupportUnproven = CapUnavailable"
| "reason_state ReleaseDependencyMissing = CapUnavailable"
| "reason_state ReleaseDependencyUnproven = CapUnavailable"
| "reason_state PolicyUnconfigured = CapUnconfigured"
| "reason_state PolicyEmpty = CapUnconfigured"
| "reason_state PolicyInvalid = CapUnconfigured"
| "reason_state PolicyUnproven = CapUnavailable"
| "reason_state ModelKeyMissing = CapUnconfigured"
| "reason_state ModelKeyUnproven = CapUnavailable"
| "reason_state ConfigurationMissing = CapUnconfigured"
| "reason_state ConfigurationInvalid = CapUnconfigured"
| "reason_state ConfigurationUnproven = CapUnavailable"
| "reason_state AccountBridgeSourceBlocked = CapUnconfigured"
| "reason_state AccountBridgeSourceUnproven = CapUnavailable"
| "reason_state ProductPermissionRequired = CapPermissionRequired"
| "reason_state ProductPermissionUnproven = CapUnavailable"
| "reason_state OsPermissionCaptureRequired = CapPermissionRequired"
| "reason_state OsPermissionAccessibilityRequired = CapPermissionRequired"
| "reason_state OsPermissionInputRequired = CapPermissionRequired"
| "reason_state OsPermissionUnproven = CapUnavailable"
| "reason_state OsPermissionExpired = CapUnavailable"
| "reason_state LocalConfirmationRequired = CapPermissionRequired"
| "reason_state LocalConfirmationPending = CapPermissionRequired"
| "reason_state LocalConfirmationUnavailable = CapUnavailable"
| "reason_state LocalConfirmationUnproven = CapUnavailable"
| "reason_state LocalConfirmationExpired = CapUnavailable"
| "reason_state PixelConsentRequired = CapPermissionRequired"
| "reason_state PixelConsentUnproven = CapUnavailable"
| "reason_state PixelConsentExpired = CapUnavailable"
| "reason_state ComputerSourceMissing = CapUnavailable"
| "reason_state NativeSourceMissing = CapUnavailable"
| "reason_state ScreenSourceMissing = CapUnavailable"
| "reason_state SourceUnproven = CapUnavailable"
| "reason_state SourceExpired = CapUnavailable"
| "reason_state ProviderDisconnected = CapUnavailable"
| "reason_state ProviderUnproven = CapUnavailable"
| "reason_state ProviderExpired = CapUnavailable"

definition explained :: "blocker list \<Rightarrow> bool" where
  "explained bs \<longleftrightarrow> (\<forall>b\<in>set bs. blocker_state b = reason_state (blocker_reason b))"

lemma push_explained:
  "explained (push_release bs e) \<longleftrightarrow> explained bs"
  "explained (push_policy bs p) \<longleftrightarrow> explained bs"
  "explained (push_model_key bs k) \<longleftrightarrow> explained bs"
  "explained (push_config bs c) \<longleftrightarrow> explained bs"
  "explained (push_bridge_source bs b) \<longleftrightarrow> explained bs"
  "explained (push_provider bs v) \<longleftrightarrow> explained bs"
  "reason_state r = CapUnavailable \<Longrightarrow> explained (push_source bs s r) \<longleftrightarrow> explained bs"
  "reason_state q = CapPermissionRequired \<Longrightarrow> explained (push_os_permission bs d q) \<longleftrightarrow> explained bs"
  "explained (push_pixel_consent bs d) \<longleftrightarrow> explained bs"
  "explained (push_local_confirmation bs l) \<longleftrightarrow> explained bs"
  "explained (push_product_permission bs d) \<longleftrightarrow> explained bs"
  "explained (push_provider_if g bs v) \<longleftrightarrow> explained bs"
  unfolding explained_def
  subgoal by (cases e) (simp_all add: push_defs)
  subgoal by (cases p) (simp_all add: push_defs)
  subgoal by (cases k) (simp_all add: push_defs)
  subgoal by (cases c) (simp_all add: push_defs)
  subgoal by (cases b) (simp_all add: push_defs)
  subgoal by (cases v) (simp_all add: push_defs)
  subgoal by (cases s) (simp_all add: push_defs)
  subgoal by (cases d) (simp_all add: push_defs)
  subgoal by (cases d) (simp_all add: push_defs)
  subgoal by (cases l) (simp_all add: push_defs)
  subgoal by (cases d) (simp_all add: push_defs)
  subgoal by (cases v) (simp_all add: push_defs)
  done

lemma capability_blockers_explained: "explained (capability_blockers facts c release)"
proof -
  have "explained []" "reason_state ComputerSourceMissing = CapUnavailable"
    "reason_state NativeSourceMissing = CapUnavailable" "reason_state ScreenSourceMissing = CapUnavailable"
    "reason_state OsPermissionCaptureRequired = CapPermissionRequired"
    "reason_state OsPermissionAccessibilityRequired = CapPermissionRequired"
    "reason_state OsPermissionInputRequired = CapPermissionRequired"
    by (simp_all add: explained_def)
  then show ?thesis
    by (cases c) (simp_all add: capability_blockers_def add_applicable_blockers_def Let_def push_explained)
qed

lemma project_one_explained:
  assumes "project_one c f = Ok s"
  shows "status_state s = reason_state (status_reason s)"
proof (cases "implementation_for (implementations f) c" rule: support_gate_of.cases)
  case (5 release)
  let ?bs = "capability_blockers f c release"
  have "finish_status c ?bs = Ok s"
    using assms 5 by (simp add: project_one_def capability_blockers_def)
  then have s: "s = (if ?bs = [] then capability_status_new c CapReady CurrentChecksAvailable
      else capability_status_new c (blocker_state (hd ?bs)) (blocker_reason (hd ?bs)))"
    by (simp add: finish_status_ok capability_blockers_block)
  have "?bs \<noteq> [] \<Longrightarrow> blocker_state (hd ?bs) = reason_state (blocker_reason (hd ?bs))"
    using capability_blockers_explained [of f c release] by (simp add: explained_def)
  with s show ?thesis by (simp add: capability_status_new_def)
qed (insert assms, auto simp: project_one_def capability_status_new_def)

section \<open>The array of statuses\<close>

lemma project_loop_ok:
  "length out = n + length cs \<Longrightarrow>
   project_loop f (enumerate n cs) out = Ok caps \<longleftrightarrow>
     (\<exists>ss. list_all2 (\<lambda>c s. project_one c f = Ok s) cs ss \<and> caps = take n out @ ss)"
proof (induction cs arbitrary: n out)
  case (Cons c cs)
  show ?case
  proof (cases "project_one c f")
    case (Inr s)
    have "take (Suc n) (out[n := s]) = take n out @ [s]"
      using Cons.prems by (simp add: take_Suc_conv_app_nth)
    with Cons Inr show ?thesis by (auto simp: list_all2_Cons1)
  qed (auto simp: list_all2_Cons1)
qed auto

lemma project_runtime_capabilities_ok:
  "project_runtime_capabilities q = Ok p \<longleftrightarrow>
     current_runtime q = observed_runtime q
     \<and> binding_current (current_binding q) (observed_binding q)
     \<and> revision_try_from_opaque (request_revision q) = Ok (projected_revision p)
     \<and> list_all2 (\<lambda>c s. project_one c (request_facts q) = Ok s) capability_order (projected_capabilities p)
     \<and> schema_version p = 1 \<and> projected_host_mode p = claim_host_mode (current_binding q)
     \<and> projected_authorization p = NotGranted"
proof -
  let ?start = "replicate 13 (capability_status_new Workspace CapUnsupported PlatformUnimplemented)"
  have loop: "project_loop f (enumerate 0 capability_order) ?start = Ok caps
      \<longleftrightarrow> list_all2 (\<lambda>c s. project_one c f = Ok s) capability_order caps" for f caps
  proof -
    have "length ?start = 0 + length capability_order" by (simp add: capability_order_def)
    from project_loop_ok [OF this] show ?thesis by simp
  qed
  have "project_runtime_capabilities q = Ok p \<longleftrightarrow>
     current_runtime q = observed_runtime q
     \<and> (\<exists>mode revision caps. check_bindings (current_binding q) (observed_binding q) = Ok mode
         \<and> revision_try_from_opaque (request_revision q) = Ok revision
         \<and> project_loop (request_facts q) (enumerate 0 capability_order) ?start = Ok caps
         \<and> p = \<lparr>schema_version = 1, projected_host_mode = mode, projected_revision = revision,
                projected_capabilities = caps, projected_authorization = NotGranted\<rparr>)"
    by (auto simp: project_runtime_capabilities_def capability_schema_version_def split: sum.splits)
  also have "\<dots> \<longleftrightarrow> current_runtime q = observed_runtime q
     \<and> binding_current (current_binding q) (observed_binding q)
     \<and> revision_try_from_opaque (request_revision q) = Ok (projected_revision p)
     \<and> list_all2 (\<lambda>c s. project_one c (request_facts q) = Ok s) capability_order (projected_capabilities p)
     \<and> schema_version p = 1 \<and> projected_host_mode p = claim_host_mode (current_binding q)
     \<and> projected_authorization p = NotGranted"
    unfolding loop check_bindings_ok by (cases p) auto
  finally show ?thesis .
qed

lemma in_capability_order: "c \<in> set capability_order"
  by (cases c) (simp_all add: capability_order_def)

lemma capability_order_nth: "capability_order ! capability_ordinal c = c"
  by (cases c) (simp_all add: capability_order_def)

lemma capability_ordinal_less: "capability_ordinal c < length capability_order"
  by (cases c) (simp_all add: capability_order_def)

lemma all_projected_iff: "(\<exists>ss. list_all2 (\<lambda>c s. project_one c f = Ok s) capability_order ss) \<longleftrightarrow> (\<forall>c. resolvable f c)"
proof -
  have "(\<exists>ss. list_all2 (\<lambda>c s. project_one c f = Ok s) cs ss) \<longleftrightarrow> (\<forall>c\<in>set cs. resolvable f c)" for cs
    by (induction cs) (auto simp: list_all2_Cons1 project_one_resolvable [symmetric])
  then show ?thesis using in_capability_order by blast
qed

lemma projected_status_ok:
  assumes "project_runtime_capabilities q = Ok p"
  shows "project_one c (request_facts q) = Ok (projected_status p c)"
proof -
  have all: "list_all2 (\<lambda>c s. project_one c (request_facts q) = Ok s) capability_order (projected_capabilities p)"
    using assms by (simp add: project_runtime_capabilities_ok)
  from list_all2_nthD [OF all capability_ordinal_less [of c]] show ?thesis
    by (simp add: capability_order_nth projected_status_def)
qed

text \<open>An example: a server whose workspace is ready and whose agent tools lack a policy.\<close>

definition example_missing :: presence where
  "example_missing = PresenceAbsent"

definition example_implementations :: implementation_set where
  "example_implementations =
     \<lparr>impl_workspace = PresencePresent EvidencePresent EvidencePresent,
      impl_agent_tools = PresencePresent EvidencePresent EvidencePresent,
      impl_model_custom_v1 = example_missing, impl_model_selection_v2 = example_missing,
      impl_model_sdk_gateway = example_missing, impl_model_account_bridge = example_missing,
      impl_browser_control = example_missing, impl_native_control = example_missing,
      impl_pixel_egress = example_missing, impl_local_confirmation = PresenceUnknown,
      impl_backup_restore = example_missing, impl_dynamic_sso = example_missing,
      impl_device_pairing = example_missing\<rparr>"

definition example_facts :: runtime_capability_facts where
  "example_facts =
     (let source = \<lparr>source_key = KeyPresent, source_provider = ProviderAvailable\<rparr> in
      \<lparr>implementations = example_implementations, acting_policy = PolicyNotConfigured, model_key = KeyPresent,
       custom_model = source, sdk_model = source, bridge_model = source, custom_model_config = ConfigPresent,
       selection_v2_config = ConfigPresent, sdk_gateway_config = ConfigPresent,
       account_bridge_config = ConfigPresent, account_bridge_source = BridgeAvailable,
       backup_config = ConfigPresent, sso_config = ConfigPresent, sso_provider = ProviderAvailable,
       pairing_config = ConfigPresent, model_provider = ProviderAvailable, computer_source = SourcePresent,
       native_source = SourcePresent, screen_source = SourcePresent, os_capture = PermissionGranted,
       os_accessibility = PermissionGranted, os_input = PermissionGranted,
       pixel_model_consent = PermissionGranted, product_permissions = replicate 13 PermissionGranted,
       local_confirmation = ConfirmationFresh\<rparr>)"

definition example_claim_binding :: binding_claim where
  "example_claim_binding = \<lparr>claim_actor = ''u1'', claim_generation = AuthGeneration 4,
     claim_host_mode = Server, claim_session = LiveActive, claim_window = None\<rparr>"

definition example_capability_request :: runtime_capability_request where
  "example_capability_request = \<lparr>current_runtime = 9, observed_runtime = 9, current_binding = example_claim_binding,
     observed_binding = example_claim_binding, request_revision = ''r'', request_facts = example_facts\<rparr>"

lemma projection_exists:
  "(\<exists>p. project_runtime_capabilities q = Ok p) \<longleftrightarrow>
     current_runtime q = observed_runtime q \<and> binding_current (current_binding q) (observed_binding q)
     \<and> revision_ok (request_revision q) \<and> (\<forall>c. resolvable (request_facts q) c)" (is "_ \<longleftrightarrow> ?Q")
proof
  assume "\<exists>p. project_runtime_capabilities q = Ok p"
  then obtain p where p: "project_runtime_capabilities q = Ok p" by blast
  then have "\<forall>c. resolvable (request_facts q) c"
    using project_one_resolvable projected_status_ok by blast
  with p show ?Q by (simp add: project_runtime_capabilities_ok revision_try_from_opaque_ok)
next
  assume ok: ?Q
  obtain ss where ss: "list_all2 (\<lambda>c s. project_one c (request_facts q) = Ok s) capability_order ss"
    using ok all_projected_iff by blast
  have "\<exists>r. revision_try_from_opaque (request_revision q) = Ok r"
    using ok by (simp add: revision_try_from_opaque_ok)
  then obtain r where r: "revision_try_from_opaque (request_revision q) = Ok r" by blast
  show "\<exists>p. project_runtime_capabilities q = Ok p"
    by (rule exI [of _ "\<lparr>schema_version = 1, projected_host_mode = claim_host_mode (current_binding q),
      projected_revision = r, projected_capabilities = ss, projected_authorization = NotGranted\<rparr>"])
      (use ok r ss in \<open>simp add: project_runtime_capabilities_ok\<close>)
qed

lemma example_projected: "\<exists>p. project_runtime_capabilities example_capability_request = Ok p"
proof -
  have "resolvable example_facts c" for c
    by (cases c) (simp_all add: resolvable_def example_facts_def example_implementations_def example_missing_def
        capability_blockers_def add_applicable_blockers_def agreeing_def push_product_permission_def capability_is_acting_def
        uses_model_key_def model_source_for_def push_provider_if_def Let_def)
  moreover have "binding_current example_claim_binding example_claim_binding" "revision_ok ''r''"
    by (simp_all add: binding_current_def example_claim_binding_def revision_ok_def revision_byte_def
        is_ascii_alphanumeric_def is_ascii_lowercase_def less_eq_char_def)
  ultimately show ?thesis
    by (simp add: projection_exists example_capability_request_def)
qed

text \<open>A projection is answered exactly when the runtime, the session, the host, the actor, the
  authorization generation and the window are the current ones, the revision is well formed, and no
  capability is blocked in two different ways at once; any other request is refused. What is answered
  carries the request's own revision and host and grants no action.\<close>

theorem projection_answered_exactly:
  "case project_runtime_capabilities q of
     Inr p \<Rightarrow>
       current_runtime q = observed_runtime q \<and> binding_current (current_binding q) (observed_binding q)
       \<and> revision_str (projected_revision p) = request_revision q \<and> (\<forall>c. resolvable (request_facts q) c)
       \<and> projected_host_mode p = claim_host_mode (current_binding q) \<and> projected_authorization p = NotGranted
   | Inl e \<Rightarrow>
       \<not> (current_runtime q = observed_runtime q \<and> binding_current (current_binding q) (observed_binding q)
          \<and> revision_ok (request_revision q) \<and> (\<forall>c. resolvable (request_facts q) c))"
proof (cases "project_runtime_capabilities q")
  case (Inr p)
  then have "\<forall>c. resolvable (request_facts q) c"
    using project_one_resolvable projected_status_ok by blast
  moreover have "revision_str (projected_revision p) = request_revision q"
    using Inr by (intro revision_reads_back) (simp add: project_runtime_capabilities_ok)
  ultimately show ?thesis
    using Inr project_runtime_capabilities_ok [THEN iffD1, OF Inr] by simp
next
  case (Inl e)
  then have "\<not> (\<exists>p. project_runtime_capabilities q = Ok p)" by simp
  with Inl show ?thesis unfolding projection_exists by simp
qed

text \<open>In an answered projection the status stored for a capability is its own; it is ready
  exactly when every fact it depends on is positive, and unsupported exactly when its implementation
  is known to be absent. A fact that is unknown or expired never reads as ready.\<close>

theorem ready_exactly_when_every_check_positive:
  assumes "project_runtime_capabilities q = Ok p"
  shows "status_id (projected_status p c) = c
    \<and> (status_state (projected_status p c) = CapReady \<longleftrightarrow> every_check_positive (request_facts q) c)
    \<and> (status_state (projected_status p c) = CapUnsupported
        \<longleftrightarrow> unsupported (implementation_for (implementations (request_facts q)) c))"
  by (rule project_one_ok [OF projected_status_ok [OF assms]])

theorem ready_exactly_when_every_check_positive_witness:
  "\<exists>p. project_runtime_capabilities example_capability_request = Ok p
     \<and> status_state (projected_status p Workspace) = CapReady
     \<and> status_state (projected_status p AgentTools) \<noteq> CapReady
     \<and> status_state (projected_status p NativeControl) = CapUnsupported"
proof -
  obtain p where p: "project_runtime_capabilities example_capability_request = Ok p"
    using example_projected by blast
  have facts: "request_facts example_capability_request = example_facts"
    by (simp add: example_capability_request_def)
  have "every_check_positive example_facts Workspace" "\<not> every_check_positive example_facts AgentTools"
      "unsupported (implementation_for (implementations example_facts) NativeControl)"
    by (simp_all add: every_check_positive_def unsupported_def example_facts_def example_implementations_def Let_def
        example_missing_def)
  with ready_exactly_when_every_check_positive [OF p, unfolded facts] p show ?thesis by blast
qed

lemma only_entry_of_key:
  assumes "distinct (map key xs)" "i < length xs"
  shows "filter (\<lambda>x. key x = key (xs ! i)) xs = [xs ! i]"
proof -
  have split: "xs = take i xs @ xs ! i # drop (Suc i) xs" using assms(2) by (rule id_take_nth_drop)
  then have "distinct (map key (take i xs @ xs ! i # drop (Suc i) xs))" using assms(1) by simp
  then have "\<forall>x\<in>set (take i xs) \<union> set (drop (Suc i) xs). key x \<noteq> key (xs ! i)" by (auto simp: image_iff)
  then have "filter (\<lambda>x. key x = key (xs ! i)) (take i xs) = []"
    "filter (\<lambda>x. key x = key (xs ! i)) (drop (Suc i) xs) = []"
    by (auto simp: filter_empty_conv)
  then show ?thesis by (subst split) simp
qed

lemma capability_order_distinct: "distinct capability_order"
  by (simp add: capability_order_def)

text \<open>C31: An answered projection is well formed: it is version 1, it lists every capability exactly once
  and in the fixed order, looking a capability up finds the one entry of that capability, and the state of
  every entry is the one its reason code stands for.\<close>

theorem projection_well_formed:
  assumes "project_runtime_capabilities q = Ok p"
  shows "schema_version p = 1 \<and> map status_id (projected_capabilities p) = capability_order
    \<and> filter (\<lambda>s. status_id s = c) (projected_capabilities p) = [projected_status p c]
    \<and> list_all (\<lambda>s. status_state s = reason_state (status_reason s)) (projected_capabilities p)"
proof -
  have all: "list_all2 (\<lambda>c s. project_one c (request_facts q) = Ok s) capability_order (projected_capabilities p)"
    and version: "schema_version p = 1"
    using assms by (simp_all add: project_runtime_capabilities_ok)
  have "map status_id ss = cs \<and> list_all (\<lambda>s. status_state s = reason_state (status_reason s)) ss"
    if "list_all2 (\<lambda>c s. project_one c (request_facts q) = Ok s) cs ss" for cs ss
    using that by (induction rule: list_all2_induct) (auto dest: project_one_ok project_one_explained)
  from this [OF all] version show ?thesis
    using only_entry_of_key [of status_id "projected_capabilities p" "capability_ordinal c"]
      capability_ordinal_less [of c] list_all2_lengthD [OF all] capability_order_nth [of c] capability_order_distinct
    by (simp add: projected_status_def) (metis nth_map)
qed

theorem projection_well_formed_witness:
  "\<exists>p. project_runtime_capabilities example_capability_request = Ok p
     \<and> length (projected_capabilities p) = 13
     \<and> filter (\<lambda>s. status_id s = PixelEgress) (projected_capabilities p) = [projected_status p PixelEgress]"
proof -
  obtain p where p: "project_runtime_capabilities example_capability_request = Ok p"
    using example_projected by blast
  from projection_well_formed [OF p, of PixelEgress]
  have "map status_id (projected_capabilities p) = capability_order"
    "filter (\<lambda>s. status_id s = PixelEgress) (projected_capabilities p) = [projected_status p PixelEgress]"
    by blast+
  moreover from this(1) have "length (projected_capabilities p) = length capability_order" by (metis length_map)
  ultimately show ?thesis using p by (auto simp: capability_order_def)
qed

end
