(* ===== verification/SignedTokens.thy ===== *)
theory SignedTokens
  imports StdModel Canonical VaultCanary
begin

text \<open>
  Signed values, \<open>crates/openbot-domain/src/identity/signed_value.rs\<close>, and the credentials of remote
  callbacks, \<open>crates/openbot-domain/src/remote_callback.rs\<close>. HMAC-SHA256 (\<open>mac\<close>, key then message), SHA-256
  (\<open>H\<close>), the unpadded URL-safe Base64 codec (\<open>b64\<close>, \<open>unb64\<close>) and the JSON codec that serde derives for
  the signed payload (\<open>to_vec\<close>, \<open>from_slice\<close>) are third-party code and parameters here.
\<close>

section \<open>Signed values\<close>

datatype signature_label = AgentRun | McpOauthConnect

fun signature_label_str :: "signature_label \<Rightarrow> string" where
  "signature_label_str AgentRun = ''openbot:agent-run''"
| "signature_label_str McpOauthConnect = ''mcp-oauth-connect''"

definition all_signature_labels :: "signature_label list" where
  "all_signature_labels = [AgentRun, McpOauthConnect]"

datatype empty_signed_value = EmptySignedValue
datatype signature_invalid = SignatureInvalid

definition empty_signed_value_code :: "empty_signed_value \<Rightarrow> string" where
  "empty_signed_value_code e = ''identity_signed_value_empty''"

definition signature_invalid_code :: "signature_invalid \<Rightarrow> string" where
  "signature_invalid_code e = ''identity_signature_invalid''"

type_synonym hmac = "bytes \<Rightarrow> bytes \<Rightarrow> bytes"

definition subkey :: "hmac \<Rightarrow> bytes \<Rightarrow> signature_label \<Rightarrow> bytes" where
  "subkey mac secret label = mac secret (str_bytes (signature_label_str label))"

definition sign_unchecked :: "hmac \<Rightarrow> (bytes \<Rightarrow> string) \<Rightarrow> string \<Rightarrow> bytes \<Rightarrow> signature_label \<Rightarrow> string" where
  "sign_unchecked mac b64 value secret label =
     value @ ''.'' @ b64 (mac (subkey mac secret label) (str_bytes value))"

definition signed_value_sign ::
  "hmac \<Rightarrow> (bytes \<Rightarrow> string) \<Rightarrow> string \<Rightarrow> bytes \<Rightarrow> signature_label \<Rightarrow> (empty_signed_value, string) result" where
  "signed_value_sign mac b64 value secret label =
     (if value = [] then Err EmptySignedValue else Ok (sign_unchecked mac b64 value secret label))"

definition signed_value_verify ::
  "hmac \<Rightarrow> (bytes \<Rightarrow> string) \<Rightarrow> string \<Rightarrow> bytes \<Rightarrow> signature_label \<Rightarrow> (signature_invalid, string) result" where
  "signed_value_verify mac b64 signed_text secret label =
     (case rfind_char (CHR ''.'') signed_text of
        None \<Rightarrow> Err SignatureInvalid
      | Some separator \<Rightarrow>
          if separator = 0 then Err SignatureInvalid
          else
            let value = take separator signed_text;
                expected = sign_unchecked mac b64 value secret label
            in if length expected \<noteq> length signed_text then Err SignatureInvalid
               else if expected = signed_text then Ok value
               else Err SignatureInvalid)"

text \<open>Verification under a label accepts exactly the texts that signing under that label produces,
  and hands back exactly the value that was signed; a text that two labels accept is a collision of
  the MAC under their two keys.\<close>

theorem verify_inverts_sign:
  assumes "\<And>bs. CHR ''.'' \<notin> set (b64 bs)" and "inj b64"
  shows "(signed_value_verify mac b64 signed_text secret label = Ok value
           \<longleftrightarrow> signed_value_sign mac b64 value secret label = Ok signed_text)
    \<and> (signed_value_verify mac b64 signed_text secret label = Ok value \<longrightarrow>
       signed_value_verify mac b64 signed_text secret label' = Ok value' \<longrightarrow>
         value' = value \<and>
         mac (subkey mac secret label) (str_bytes value) = mac (subkey mac secret label') (str_bytes value))"
proof -
  have sign: "signed_value_verify mac b64 signed_text secret l = Ok v
      \<longleftrightarrow> v \<noteq> [] \<and> signed_text = sign_unchecked mac b64 v secret l" for l v
  proof
    assume "signed_value_verify mac b64 signed_text secret l = Ok v"
    then show "v \<noteq> [] \<and> signed_text = sign_unchecked mac b64 v secret l"
      by (auto simp: signed_value_verify_def Let_def split: option.splits if_splits)
  next
    assume v: "v \<noteq> [] \<and> signed_text = sign_unchecked mac b64 v secret l"
    then have "rfind_char (CHR ''.'') signed_text = Some (length v)"
      using rfind_char_last [OF assms(1)] by (simp add: sign_unchecked_def)
    with v show "signed_value_verify mac b64 signed_text secret l = Ok v"
      by (simp add: signed_value_verify_def sign_unchecked_def)
  qed
  have same: "v = w \<and> b64 m = b64 n" if "v @ CHR ''.'' # b64 m = w @ CHR ''.'' # b64 n" for v w m n
  proof -
    have "rfind_char (CHR ''.'') (v @ CHR ''.'' # b64 m) = rfind_char (CHR ''.'') (w @ CHR ''.'' # b64 n)"
      using that by simp
    then have "length v = length w" by (simp add: rfind_char_last assms(1))
    with that show ?thesis by simp
  qed
  have "value' = value \<and> mac (subkey mac secret label) (str_bytes value) = mac (subkey mac secret label') (str_bytes value)"
    if "signed_text = sign_unchecked mac b64 value secret label" "signed_text = sign_unchecked mac b64 value' secret label'"
    using same [of "value" _ "value'"] that assms(2) by (fastforce simp: sign_unchecked_def dest: injD)
  then show ?thesis unfolding sign signed_value_sign_def by auto
qed

section \<open>Callback tokens\<close>

definition callback_token_prefix :: string where
  "callback_token_prefix = ''obot_agt_''"

definition callback_token_bytes :: nat where
  "callback_token_bytes = 32"

definition callback_token_length :: nat where
  "callback_token_length = length callback_token_prefix + 43"

datatype remote_callback_credential_error =
  InvalidToken | InvalidToolSet | InvalidSigningKey | InvalidAssertion

definition callback_token_from_entropy :: "(bytes \<Rightarrow> string) \<Rightarrow> bytes \<Rightarrow> string" where
  "callback_token_from_entropy b64 entropy = callback_token_prefix @ b64 entropy"

text \<open>\<open>decode_slice\<close> into 32 bytes fails when the decoded data does not fit.\<close>

definition looks_like_callback_token :: "(string \<Rightarrow> bytes option) \<Rightarrow> string \<Rightarrow> bool" where
  "looks_like_callback_token unb64 value \<longleftrightarrow>
     length value = callback_token_length \<and> starts_with value callback_token_prefix
     \<and> (case unb64 (drop (length callback_token_prefix) value) of
          None \<Rightarrow> False
        | Some decoded \<Rightarrow> length decoded = callback_token_bytes)"

definition callback_token_hash ::
  "(bytes \<Rightarrow> digest) \<Rightarrow> (string \<Rightarrow> bytes option) \<Rightarrow> string \<Rightarrow> (remote_callback_credential_error, digest) result" where
  "callback_token_hash H unb64 value =
     (if looks_like_callback_token unb64 value then Ok (H (str_bytes value)) else Err InvalidToken)"

definition same_callback_token_hash :: "digest \<Rightarrow> digest \<Rightarrow> bool" where
  "same_callback_token_hash left right \<longleftrightarrow> left = right"

lemma starts_with_append: "starts_with (p @ s) p"
  by (simp add: starts_with_def)

lemma generated_token_accepted:
  assumes "unb64 (b64 entropy) = Some entropy" "length (b64 entropy) = 43" "length entropy = 32"
  shows "callback_token_hash H unb64 (callback_token_from_entropy b64 entropy)
    = Ok (H (str_bytes (callback_token_from_entropy b64 entropy)))"
  using assms
  by (simp add: callback_token_hash_def looks_like_callback_token_def callback_token_from_entropy_def
      callback_token_length_def callback_token_bytes_def starts_with_append)

section \<open>Tool sets\<close>

definition max_remote_tools :: nat where
  "max_remote_tools = 256"

definition max_remote_tool_name_bytes :: nat where
  "max_remote_tool_name_bytes = 512"

text \<open>The \<open>BTreeSet\<close> of names is their sorted list without repetitions.\<close>

record remote_tool_set =
  tool_names :: "string list"
  tool_set_digest :: digest

definition remote_tool_bad :: "string \<Rightarrow> bool" where
  "remote_tool_bad name \<longleftrightarrow> name = [] \<or> max_remote_tool_name_bytes < length name \<or> CHR 0x00 \<in> set name"

definition remote_tool_set_new ::
  "(bytes \<Rightarrow> digest) \<Rightarrow> string list \<Rightarrow> (remote_callback_credential_error, remote_tool_set) result" where
  "remote_tool_set_new H names =
     (let names = sorted_list_of_set (set names) in
      if max_remote_tools < length names \<or> list_ex remote_tool_bad names then Err InvalidToolSet
      else
        let writer = writer_u64 (of_nat (length names)) (writer_new ''openbot:remote-tool-set:v1'');
            writer = foldl (\<lambda>w name. writer_bytes (str_bytes name) w) writer names
        in Ok \<lparr>tool_names = names, tool_set_digest = digest_of_written H writer\<rparr>)"

definition remote_tool_set_contains :: "remote_tool_set \<Rightarrow> string \<Rightarrow> bool" where
  "remote_tool_set_contains s name \<longleftrightarrow> name \<in> set (tool_names s)"

section \<open>Run assertions\<close>

definition run_assertion_ttl_millis :: i64 where
  "run_assertion_ttl_millis = 10 * 60 * 1000"

definition run_assertion_label :: string where
  "run_assertion_label = ''openbot:agent-run''"

definition run_assertion_version :: string where
  "run_assertion_version = ''openbot.remote-run.v1''"

definition max_run_assertion_bytes :: nat where
  "max_run_assertion_bytes = 16 * 1024"

text \<open>\<open>i64::checked_add\<close>.\<close>

definition i64_checked_add :: "i64 \<Rightarrow> i64 \<Rightarrow> i64 option" where
  "i64_checked_add a b =
     (if - (2 ^ 63) \<le> sint a + sint b \<and> sint a + sint b < 2 ^ 63 then Some (a + b) else None)"

record remote_run_scope =
  run_deployment :: string
  run_tenant :: string
  run_bot :: string
  run_actor :: string
  run_id :: string

record verified_remote_run =
  verified_scope :: remote_run_scope
  verified_tools :: digest
  verified_issued :: i64
  verified_expires :: i64

record signed_remote_run =
  signed_version :: string
  signed_deployment :: string
  signed_tenant :: string
  signed_bot :: string
  signed_actor :: string
  signed_run :: string
  signed_tool_set_hash :: string
  signed_issued :: i64
  signed_expires :: i64

definition scope_value_bad :: "string \<Rightarrow> bool" where
  "scope_value_bad value \<longleftrightarrow> value = [] \<or> 4096 < length value \<or> CHR 0x00 \<in> set value"

definition validate_scope :: "remote_run_scope \<Rightarrow> (remote_callback_credential_error, unit) result" where
  "validate_scope s =
     checks (map (\<lambda>value. if scope_value_bad value then Err InvalidAssertion else Ok ())
       [run_deployment s, run_tenant s, run_bot s, run_actor s, run_id s])"

text \<open>The signer is its derived key.\<close>

definition signer_new :: "hmac \<Rightarrow> bytes \<Rightarrow> (remote_callback_credential_error, bytes) result" where
  "signer_new mac master =
     (if master = [] then Err InvalidSigningKey else Ok (mac master (str_bytes run_assertion_label)))"

definition assertion_payload :: "remote_run_scope \<Rightarrow> remote_tool_set \<Rightarrow> i64 \<Rightarrow> i64 \<Rightarrow> signed_remote_run" where
  "assertion_payload scope tools issued expires =
     \<lparr>signed_version = run_assertion_version, signed_deployment = run_deployment scope,
      signed_tenant = run_tenant scope, signed_bot = run_bot scope, signed_actor = run_actor scope,
      signed_run = run_id scope, signed_tool_set_hash = to_hex (tool_set_digest tools),
      signed_issued = issued, signed_expires = expires\<rparr>"

definition signer_mint ::
  "hmac \<Rightarrow> (bytes \<Rightarrow> string) \<Rightarrow> (signed_remote_run \<Rightarrow> bytes) \<Rightarrow> bytes \<Rightarrow> remote_run_scope \<Rightarrow> remote_tool_set
   \<Rightarrow> i64 \<Rightarrow> (remote_callback_credential_error, string) result" where
  "signer_mint mac b64 to_vec key scope tools issued =
     and_then (validate_scope scope) (\<lambda>_.
     if issued <s 0 then Err InvalidAssertion
     else and_then (ok_or InvalidAssertion (i64_checked_add issued run_assertion_ttl_millis)) (\<lambda>expires.
       let value = b64 (to_vec (assertion_payload scope tools issued expires));
           signed_text = value @ ''.'' @ b64 (mac key (str_bytes value))
       in if max_run_assertion_bytes < length signed_text then Err InvalidAssertion else Ok signed_text))"

definition signed_scope :: "signed_remote_run \<Rightarrow> remote_run_scope" where
  "signed_scope p = \<lparr>run_deployment = signed_deployment p, run_tenant = signed_tenant p, run_bot = signed_bot p,
     run_actor = signed_actor p, run_id = signed_run p\<rparr>"

definition assertion_split :: "string \<Rightarrow> (string \<times> string) option" where
  "assertion_split signed_text =
     (case split_once ''.'' signed_text of
        Some (value, sig) \<Rightarrow> if value \<noteq> [] \<and> sig \<noteq> [] \<and> CHR ''.'' \<notin> set sig then Some (value, sig) else None
      | None \<Rightarrow> None)"

definition signer_verify ::
  "hmac \<Rightarrow> (string \<Rightarrow> bytes option) \<Rightarrow> (bytes \<Rightarrow> signed_remote_run option) \<Rightarrow> bytes \<Rightarrow> string \<Rightarrow> i64
   \<Rightarrow> (remote_callback_credential_error, verified_remote_run) result" where
  "signer_verify mac unb64 from_slice key signed_text now =
     (if signed_text = [] \<or> max_run_assertion_bytes < length signed_text \<or> CHR 0x00 \<in> set signed_text \<or> now <s 0
      then Err InvalidAssertion
      else
        and_then (ok_or InvalidAssertion (assertion_split signed_text)) (\<lambda>(value, encoded_signature).
        and_then (ok_or InvalidAssertion (unb64 encoded_signature)) (\<lambda>signature.
        if length signature \<noteq> 32 then Err InvalidAssertion
        else if mac key (str_bytes value) \<noteq> signature then Err InvalidAssertion
        else
        and_then (ok_or InvalidAssertion (unb64 value)) (\<lambda>payload.
        and_then (ok_or InvalidAssertion (from_slice payload)) (\<lambda>payload.
        and_then (case parse_hex (signed_tool_set_hash payload) of Inl _ \<Rightarrow> Err InvalidAssertion | Inr d \<Rightarrow> Ok d) (\<lambda>tools.
        and_then (validate_scope (signed_scope payload)) (\<lambda>_.
        if signed_version payload \<noteq> run_assertion_version \<or> signed_issued payload <s 0
           \<or> i64_checked_add (signed_issued payload) run_assertion_ttl_millis \<noteq> Some (signed_expires payload)
           \<or> now <s signed_issued payload \<or> signed_expires payload \<le>s now
        then Err InvalidAssertion
        else Ok \<lparr>verified_scope = signed_scope payload, verified_tools = tools,
                 verified_issued = signed_issued payload, verified_expires = signed_expires payload\<rparr>)))))))"

section \<open>What a tool set's digest covers\<close>

definition tool_set_preimage :: "string list \<Rightarrow> bytes" where
  "tool_set_preimage names =
     enc_str ''openbot:remote-tool-set:v1'' @ enc_u64 (of_nat (length names))
       @ concat (map enc_bytes (map str_bytes names))"

lemma foldl_writer_bytes:
  "buffer (foldl (\<lambda>w name. writer_bytes (str_bytes name) w) w names) =
     buffer w @ concat (map enc_bytes (map str_bytes names))"
  by (induction names arbitrary: w) (simp_all add: codec_simps)

definition remote_tools_ok :: "string list \<Rightarrow> bool" where
  "remote_tools_ok names \<longleftrightarrow> card (set names) \<le> 256 \<and> list_all (\<lambda>n. \<not> remote_tool_bad n) names"

lemma remote_tool_set_new_ok:
  "remote_tool_set_new H names = Ok s \<longleftrightarrow>
     remote_tools_ok names \<and> s = \<lparr>tool_names = sorted_list_of_set (set names),
       tool_set_digest = H (tool_set_preimage (sorted_list_of_set (set names)))\<rparr>"
  by (auto simp: remote_tool_set_new_def remote_tools_ok_def max_remote_tools_def Let_def list_ex_iff list_all_iff
      digest_of_written_def foldl_writer_bytes tool_set_preimage_def codec_simps)

lemma tool_set_preimage_inject:
  assumes "remote_tools_ok xs" "remote_tools_ok ys"
    and "tool_set_preimage (sorted_list_of_set (set xs)) = tool_set_preimage (sorted_list_of_set (set ys))"
  shows "set xs = set ys"
proof -
  let ?xs = "sorted_list_of_set (set xs)" and ?ys = "sorted_list_of_set (set ys)"
  have short: "fits_u64 (length (sorted_list_of_set (set zs)))"
    and names: "\<forall>b\<in>set (map str_bytes (sorted_list_of_set (set zs))). fits_u64 (length b)"
    if "remote_tools_ok zs" for zs
    using that by (auto simp: remote_tools_ok_def fits_u64_def list_all_iff remote_tool_bad_def
        max_remote_tool_name_bytes_def)
  have "length ?xs = length ?ys" and bytes: "concat (map enc_bytes (map str_bytes ?xs)) = concat (map enc_bytes (map str_bytes ?ys))"
    using assms(3) short [OF assms(1)] short [OF assms(2)]
    by (simp_all add: tool_set_preimage_def codec_cancel length_word_inject)
  with bytes_code.concat_append_eq_iff [of "map str_bytes ?xs" "map str_bytes ?ys" "[]" "[]"]
    names [OF assms(1)] names [OF assms(2)]
  have "map str_bytes ?xs = map str_bytes ?ys" by simp
  then have "?xs = ?ys" by (rule map_injective) (simp add: inj_def)
  then show ?thesis by (metis finite_set sorted_list_of_set(1))
qed

text \<open>A tool set is the set of its names: it is built from any listing of them, in any order and
  with repetitions, to the same value, and two tool sets with one digest have the same names, or the
  bytes hashed for the two collide.\<close>

theorem tool_set_digest_identifies_names:
  assumes "remote_tool_set_new H xs = Ok s" "remote_tool_set_new H ys = Ok t"
  shows "(set xs = set ys \<longleftrightarrow> tool_names s = tool_names t) \<and> (set xs = set ys \<longrightarrow> s = t)
    \<and> (tool_set_digest s = tool_set_digest t \<longrightarrow>
         set xs = set ys \<or> collision H (tool_set_preimage (tool_names s)) (tool_set_preimage (tool_names t)))
    \<and> (remote_tool_set_contains s name \<longleftrightarrow> name \<in> set xs)"
proof -
  have st: "remote_tools_ok xs" "remote_tools_ok ys" "tool_names s = sorted_list_of_set (set xs)"
      "tool_names t = sorted_list_of_set (set ys)"
      "tool_set_digest s = H (tool_set_preimage (tool_names s))" "tool_set_digest t = H (tool_set_preimage (tool_names t))"
    using assms by (simp_all add: remote_tool_set_new_ok)
  have "set xs = set ys \<longleftrightarrow> tool_names s = tool_names t"
    unfolding st by (metis finite_set sorted_list_of_set(1))
  moreover have "set xs = set ys \<Longrightarrow> s = t"
    using assms by (simp add: remote_tool_set_new_ok)
  moreover have "remote_tool_set_contains s name \<longleftrightarrow> name \<in> set xs"
    by (simp add: remote_tool_set_contains_def st)
  moreover have "set xs = set ys \<or> collision H (tool_set_preimage (tool_names s)) (tool_set_preimage (tool_names t))"
    if "tool_set_digest s = tool_set_digest t"
    using that tool_set_preimage_inject [OF st(1,2)] st by (auto simp: collision_def)
  ultimately show ?thesis by blast
qed

theorem tool_set_digest_identifies_names_witness:
  "\<exists>s. remote_tool_set_new (\<lambda>_. 7) [''b'', ''a'', ''b''] = Ok s \<and> remote_tool_set_new (\<lambda>_. 7) [''a'', ''b''] = Ok s"
proof -
  have ok: "remote_tools_ok [''b'', ''a'', ''b'']" "remote_tools_ok [''a'', ''b'']"
    by (simp_all add: remote_tools_ok_def remote_tool_bad_def max_remote_tool_name_bytes_def card_insert_if)
  then obtain s t where "remote_tool_set_new (\<lambda>_. 7) [''b'', ''a'', ''b''] = Ok s"
      "remote_tool_set_new (\<lambda>_. 7) [''a'', ''b''] = Ok t"
    by (simp add: remote_tool_set_new_ok)
  with tool_set_digest_identifies_names [OF this] show ?thesis by auto
qed

section \<open>Minted assertions\<close>

lemma i64_checked_add_some: "i64_checked_add a b = Some c \<longleftrightarrow> sint c = sint a + sint b"
proof (cases "- (2 ^ 63) \<le> sint a + sint b \<and> sint a + sint b < 2 ^ 63")
  case True
  then have "sint (a + b) = sint a + sint b"
    by (subst sint_word_ariths(1)) (simp add: signed_take_bit_int_eq_self)
  moreover from True have "i64_checked_add a b = Some c \<longleftrightarrow> sint (a + b) = sint c"
    by (auto simp: i64_checked_add_def intro: signed_word_eqI)
  ultimately show ?thesis by auto
next
  case False
  have "- (2 ^ 63) \<le> sint c \<and> sint c < 2 ^ 63" using sint_range_size [of c] by (simp add: word_size)
  with False show ?thesis by (auto simp: i64_checked_add_def)
qed

lemma validate_scope_ok:
  "validate_scope s = Ok u \<longleftrightarrow>
     list_all (\<lambda>v. \<not> scope_value_bad v) [run_deployment s, run_tenant s, run_bot s, run_actor s, run_id s]"
  by (auto simp: validate_scope_def checks_ok)

text \<open>Documented behaviour of the unpadded URL-safe Base64 codec: it decodes what it encodes, encodes only
  the empty string as the empty text, and writes letters, digits, \<open>-\<close> and \<open>_\<close> only.\<close>

definition base64_url :: "(bytes \<Rightarrow> string) \<Rightarrow> (string \<Rightarrow> bytes option) \<Rightarrow> bool" where
  "base64_url b64 unb64 \<longleftrightarrow>
     (\<forall>bs. unb64 (b64 bs) = Some bs \<and> (b64 bs = [] \<longrightarrow> bs = [])
       \<and> list_all (\<lambda>c. is_ascii_alphanumeric c \<or> c \<in> {CHR ''-'', CHR ''_''}) (b64 bs))"

lemma base64_url_chars:
  assumes "base64_url b64 unb64"
  shows "CHR ''.'' \<notin> set (b64 bs)" "CHR 0x00 \<notin> set (b64 bs)"
proof -
  have "is_ascii_alphanumeric c \<or> c = CHR ''-'' \<or> c = CHR ''_''" if "c \<in> set (b64 bs)" for c
    using assms that by (auto simp: base64_url_def list_all_iff)
  moreover have "\<not> is_ascii_alphanumeric (CHR ''.'')" "\<not> is_ascii_alphanumeric (CHR 0x00)"
    by (simp_all add: is_ascii_alphanumeric_def is_ascii_digit_def is_ascii_lowercase_def is_ascii_uppercase_def)
  ultimately show "CHR ''.'' \<notin> set (b64 bs)" "CHR 0x00 \<notin> set (b64 bs)" by auto
qed

lemma split_once_at: "c \<notin> set a \<Longrightarrow> split_once [c] (a @ c # b) = Some (a, b)"
  by (induction a) (auto simp: strip_prefix_def)

text \<open>C32: An assertion minted for a scope and a tool set at an instant verifies from that instant until
  exactly ten minutes later, and then gives back the scope, the tool set's digest and the two instants
  it was minted with; before and after that it is refused.\<close>

theorem minted_assertion_lives_ten_minutes:
  assumes "signer_mint mac b64 to_vec key scope tools issued = Ok signed_text"
    and "base64_url b64 unb64" and "\<And>k m. length (mac k m) = 32"
    and "\<And>expires. to_vec (assertion_payload scope tools issued expires) \<noteq> []
           \<and> from_slice (to_vec (assertion_payload scope tools issued expires))
               = Some (assertion_payload scope tools issued expires)"
  shows "signer_verify mac unb64 from_slice key signed_text now =
    (if sint issued \<le> sint now \<and> sint now < sint issued + 600000
     then Ok \<lparr>verified_scope = scope, verified_tools = tool_set_digest tools, verified_issued = issued,
              verified_expires = issued + 600000\<rparr>
     else Err InvalidAssertion)"
proof -
  have ttl: "sint run_assertion_ttl_millis = 600000" "run_assertion_ttl_millis = 600000"
    by (simp_all add: run_assertion_ttl_millis_def)
  obtain expires where issued: "\<not> issued <s 0"
    and expires: "i64_checked_add issued run_assertion_ttl_millis = Some expires"
    and scope: "validate_scope scope = Ok ()"
    using assms(1) by (auto simp: signer_mint_def and_then_ok ok_or_ok Let_def split: if_splits)
  let ?p = "assertion_payload scope tools issued expires"
  let ?v = "b64 (to_vec ?p)"
  let ?m = "mac key (str_bytes ?v)"
  have signed_text: "signed_text = ?v @ ''.'' @ b64 ?m"
    using assms(1) issued expires scope by (simp add: signer_mint_def Let_def split: if_splits)
  have short: "\<not> max_run_assertion_bytes < length signed_text"
    using assms(1) issued expires scope unfolding signed_text by (simp add: signer_mint_def Let_def split: if_splits)
  have later: "sint expires = sint issued + 600000"
    using expires ttl(1) by (simp add: i64_checked_add_some)
  have wrapped: "expires = issued + 600000"
    using expires ttl(2) by (simp add: i64_checked_add_def split: if_splits)
  have "?m \<noteq> []" using assms(3) [of key "str_bytes ?v"] by (metis list.size(3) zero_neq_numeral)
  then have parts: "?v \<noteq> []" "b64 ?m \<noteq> []"
    using assms(2,4) by (auto simp: base64_url_def)
  have split: "assertion_split signed_text = Some (?v, b64 ?m)"
    using parts base64_url_chars [OF assms(2)]
    by (simp add: assertion_split_def signed_text split_once_at)
  have plain: "signed_text \<noteq> []" "CHR 0x00 \<notin> set signed_text"
    using base64_url_chars [OF assms(2)] by (auto simp: signed_text)
  have decode: "unb64 (b64 bs) = Some bs" for bs using assms(2) by (simp add: base64_url_def)
  have payload: "from_slice (to_vec ?p) = Some ?p" "signed_scope ?p = scope" "signed_issued ?p = issued"
      "signed_expires ?p = expires" "signed_version ?p = run_assertion_version"
      "parse_hex (signed_tool_set_hash ?p) = Ok (tool_set_digest tools)"
    using assms(4) to_hex_parse_hex by (simp_all add: assertion_payload_def signed_scope_def)
  show ?thesis
    using issued short plain later expires wrapped [symmetric]
    by (simp add: signer_verify_def split decode assms(3) payload scope word_sless_alt word_sle_eq)
qed

text \<open>A codec with the documented behaviour: two hexadecimal digits for each byte.\<close>

definition hex_text_decode :: "string \<Rightarrow> bytes option" where
  "hex_text_decode s = (case decode_hex s of Inl _ \<Rightarrow> None | Inr bs \<Rightarrow> Some bs)"

lemma length_encode_hex: "length (encode_hex bs) = 2 * length bs"
  by (induction bs) (simp_all add: encode_hex_Cons, simp add: encode_hex_def)

lemma hex_text_is_base64_url: "base64_url encode_hex hex_text_decode"
proof -
  have "list_all (\<lambda>c. is_ascii_alphanumeric c \<or> c \<in> {CHR ''-'', CHR ''_''}) (encode_hex bs)" for bs
  proof -
    have "list_all lower_hex (encode_hex bs)"
      using decode_hex_encode_hex [of bs] by (simp add: decode_hex_def split: if_splits)
    moreover have "is_ascii_alphanumeric c" if "lower_hex c" for c
      using that by (auto simp: lower_hex_def is_ascii_alphanumeric_def is_ascii_digit_def is_ascii_lowercase_def)
    ultimately show ?thesis by (auto simp: list_all_iff)
  qed
  moreover have "encode_hex bs = [] \<longrightarrow> bs = []" for bs
    by (cases bs) (simp_all add: encode_hex_Cons)
  ultimately show ?thesis
    by (simp add: base64_url_def hex_text_decode_def decode_hex_encode_hex)
qed

theorem verify_inverts_sign_witness:
  "\<exists>signed_text. signed_value_sign (\<lambda>k m. k @ m) encode_hex ''v.1'' [1] AgentRun = Ok signed_text
     \<and> signed_value_verify (\<lambda>k m. k @ m) encode_hex signed_text [1] AgentRun = Ok ''v.1''
     \<and> \<not> is_ok (signed_value_verify (\<lambda>k m. k @ m) encode_hex signed_text [1] McpOauthConnect)"
proof -
  have dot: "CHR ''.'' \<notin> set (encode_hex bs)" for bs
    by (rule base64_url_chars [OF hex_text_is_base64_url])
  have inj: "inj encode_hex"
    by (rule injI) (metis decode_hex_encode_hex sum.inject(2))
  let ?s = "sign_unchecked (\<lambda>k m. k @ m) encode_hex ''v.1'' [1] AgentRun"
  have signed: "signed_value_sign (\<lambda>k m. k @ m) encode_hex ''v.1'' [1] AgentRun = Ok ?s"
    by (simp add: signed_value_sign_def)
  note inverts = verify_inverts_sign [of encode_hex, OF dot inj, of "\<lambda>k m. k @ m" ?s "[1]"]
  have accepted: "signed_value_verify (\<lambda>k m. k @ m) encode_hex ?s [1] AgentRun = Ok ''v.1''"
    using inverts signed by blast
  have "\<not> is_ok (signed_value_verify (\<lambda>k m. k @ m) encode_hex ?s [1] McpOauthConnect)"
  proof
    assume "is_ok (signed_value_verify (\<lambda>k m. k @ m) encode_hex ?s [1] McpOauthConnect)"
    then obtain w where "signed_value_verify (\<lambda>k m. k @ m) encode_hex ?s [1] McpOauthConnect = Ok w"
      by (auto simp: is_ok_iff)
    with inverts accepted have "subkey (\<lambda>k m. k @ m) [1] AgentRun @ str_bytes ''v.1''
        = subkey (\<lambda>k m. k @ m) [1] McpOauthConnect @ str_bytes ''v.1''" by blast
    then show False by (simp add: subkey_def)
  qed
  with signed accepted show ?thesis by blast
qed

definition example_run_scope :: remote_run_scope where
  "example_run_scope = \<lparr>run_deployment = ''d'', run_tenant = ''t'', run_bot = ''b'', run_actor = ''a'', run_id = ''r''\<rparr>"

definition example_tools :: remote_tool_set where
  "example_tools = \<lparr>tool_names = [''a''], tool_set_digest = 7\<rparr>"

definition example_payload_bytes :: "signed_remote_run \<Rightarrow> bytes" where
  "example_payload_bytes p = be_bytes 8 (signed_expires p)"

definition example_payload_parse :: "bytes \<Rightarrow> signed_remote_run option" where
  "example_payload_parse bs = Some (assertion_payload example_run_scope example_tools 1000 (be_word bs))"

theorem minted_assertion_lives_ten_minutes_witness:
  "\<exists>s. signer_mint (\<lambda>k m. replicate 32 (of_nat (length m))) encode_hex example_payload_bytes [1] example_run_scope
          example_tools 1000 = Ok s
     \<and> is_ok (signer_verify (\<lambda>k m. replicate 32 (of_nat (length m))) hex_text_decode example_payload_parse [1] s 600999)
     \<and> \<not> is_ok (signer_verify (\<lambda>k m. replicate 32 (of_nat (length m))) hex_text_decode example_payload_parse [1] s 601000)"
proof -
  let ?mac = "\<lambda>(k::bytes) (m::bytes). replicate 32 (of_nat (length m)) :: bytes"
  have "validate_scope example_run_scope = Ok ()"
    by (simp add: validate_scope_ok example_run_scope_def scope_value_bad_def)
  moreover have "i64_checked_add 1000 run_assertion_ttl_millis = Some 601000"
    by (simp add: i64_checked_add_def run_assertion_ttl_millis_def)
  ultimately have "is_ok (signer_mint ?mac encode_hex example_payload_bytes [1] example_run_scope example_tools 1000)"
    by (simp add: signer_mint_def length_encode_hex example_payload_bytes_def max_run_assertion_bytes_def word_sless_alt)
  then obtain s where s: "signer_mint ?mac encode_hex example_payload_bytes [1] example_run_scope example_tools 1000 = Ok s"
    by (auto simp: is_ok_iff)
  have codec: "example_payload_bytes (assertion_payload example_run_scope example_tools 1000 expires) \<noteq> []
      \<and> example_payload_parse (example_payload_bytes (assertion_payload example_run_scope example_tools 1000 expires))
          = Some (assertion_payload example_run_scope example_tools 1000 expires)" for expires
  proof -
    have "example_payload_bytes (assertion_payload example_run_scope example_tools 1000 expires) = be_bytes 8 expires"
      by (simp add: example_payload_bytes_def assertion_payload_def)
    moreover have "be_bytes 8 expires \<noteq> []" using length_be_bytes [of 8 expires] by (metis list.size(3) zero_neq_numeral)
    ultimately show ?thesis by (simp add: example_payload_parse_def be_word_be_bytes)
  qed
  note lives = minted_assertion_lives_ten_minutes [OF s hex_text_is_base64_url _ codec]
  show ?thesis using s lives [of 600999] lives [of 601000] by auto
qed

end
