(* ===== verification/Memory.thy ===== *)
theory Memory
  imports StdModel
begin

text \<open>
  Long-term memories, \<open>crates/openbot-domain/src/memory.rs\<close>: what a memory may be created from, the four
  states it passes through, and when it may be recalled. A method on \<open>&mut self\<close> is a function to the
  memory it leaves; identifiers are their strings.
\<close>

section \<open>Data\<close>

datatype memory_kind = Preference | Fact

fun memory_kind_str :: "memory_kind \<Rightarrow> string" where
  "memory_kind_str Preference = ''preference''"
| "memory_kind_str Fact = ''fact''"

datatype memory_sensitivity = NormalSensitivity | SensitiveMemory

fun memory_sensitivity_str :: "memory_sensitivity \<Rightarrow> string" where
  "memory_sensitivity_str NormalSensitivity = ''normal''"
| "memory_sensitivity_str SensitiveMemory = ''sensitive''"

datatype memory_scope = ScopeUser | ScopeBot string | ScopeThread string

fun memory_scope_kind :: "memory_scope \<Rightarrow> string" where
  "memory_scope_kind ScopeUser = ''user''"
| "memory_scope_kind (ScopeBot b) = ''bot''"
| "memory_scope_kind (ScopeThread t) = ''thread''"

fun memory_scope_id :: "memory_scope \<Rightarrow> string option" where
  "memory_scope_id ScopeUser = None"
| "memory_scope_id (ScopeBot b) = Some b"
| "memory_scope_id (ScopeThread t) = Some t"

record memory_source =
  source_thread :: string
  source_message :: string

datatype memory_origin = UserAction | RememberTool | VerifiedImport

fun memory_origin_str :: "memory_origin \<Rightarrow> string" where
  "memory_origin_str UserAction = ''user_action''"
| "memory_origin_str RememberTool = ''remember_tool''"
| "memory_origin_str VerifiedImport = ''verified_import''"

datatype memory_status = MemoryActive | Superseded | Forbidden | MemoryDeleted

fun memory_status_str :: "memory_status \<Rightarrow> string" where
  "memory_status_str MemoryActive = ''active''"
| "memory_status_str Superseded = ''superseded''"
| "memory_status_str Forbidden = ''forbidden''"
| "memory_status_str MemoryDeleted = ''deleted''"

datatype memory_error =
  ContentEmpty | SourceRequired | TagEmpty | ExpiryInvalid | NotActive

record memory =
  memory_id :: string
  memory_tenant :: string
  memory_owner :: string
  memory_scope_of :: memory_scope
  memory_kind_of :: memory_kind
  memory_content :: "string option"
  memory_tags :: "string list"
  memory_sensitivity_of :: memory_sensitivity
  memory_source_of :: "memory_source option"
  memory_origin_of :: memory_origin
  memory_created_by :: string
  memory_supersedes :: "string option"
  memory_status_of :: memory_status
  memory_expires_at :: "instant option"
  memory_created_at :: instant
  memory_updated_at :: instant

section \<open>Operations\<close>

text \<open>The arguments of \<open>Memory::new\<close> but the content and the clock.\<close>

record memory_facts =
  new_id :: string
  new_tenant :: string
  new_owner :: string
  new_scope :: memory_scope
  new_kind :: memory_kind
  new_tags :: "string list"
  new_sensitivity :: memory_sensitivity
  new_source :: "memory_source option"
  new_origin :: memory_origin
  new_created_by :: string
  new_supersedes :: "string option"
  new_expires_at :: "instant option"

definition memory_new :: "memory_facts \<Rightarrow> string \<Rightarrow> instant \<Rightarrow> (memory_error, memory) result" where
  "memory_new f content now =
     (if content = [] then Err ContentEmpty
      else if (new_kind f = Fact \<or> new_origin f = VerifiedImport) \<and> new_source f = None then Err SourceRequired
      else if (case new_expires_at f of None \<Rightarrow> False | Some expiry \<Rightarrow> expiry \<le> now) then Err ExpiryInvalid
      else
        let tags = remdups_adj (sort (new_tags f)) in
        if list_ex (\<lambda>tag. tag = []) tags then Err TagEmpty
        else Ok \<lparr>memory_id = new_id f, memory_tenant = new_tenant f, memory_owner = new_owner f,
                 memory_scope_of = new_scope f, memory_kind_of = new_kind f, memory_content = Some content,
                 memory_tags = tags, memory_sensitivity_of = new_sensitivity f, memory_source_of = new_source f,
                 memory_origin_of = new_origin f, memory_created_by = new_created_by f,
                 memory_supersedes = new_supersedes f, memory_status_of = MemoryActive,
                 memory_expires_at = new_expires_at f, memory_created_at = now, memory_updated_at = now\<rparr>)"

definition mark_superseded :: "memory \<Rightarrow> instant \<Rightarrow> (memory_error, memory) result" where
  "mark_superseded m now =
     (if memory_status_of m \<noteq> MemoryActive then Err NotActive
      else Ok (m\<lparr>memory_status_of := Superseded, memory_updated_at := now\<rparr>))"

definition forbid :: "memory \<Rightarrow> instant \<Rightarrow> memory" where
  "forbid m now = m\<lparr>memory_status_of := Forbidden, memory_content := None, memory_updated_at := now\<rparr>"

definition memory_delete :: "memory \<Rightarrow> instant \<Rightarrow> memory" where
  "memory_delete m now = m\<lparr>memory_status_of := MemoryDeleted, memory_content := None, memory_updated_at := now\<rparr>"

definition is_recallable_at :: "memory \<Rightarrow> instant \<Rightarrow> bool" where
  "is_recallable_at m now \<longleftrightarrow>
     memory_status_of m = MemoryActive \<and> memory_content m \<noteq> None
     \<and> (case memory_expires_at m of None \<Rightarrow> True | Some expiry \<Rightarrow> now < expiry)"

section \<open>A memory through its life\<close>

datatype memory_event = Supersede instant | Forbid instant | Delete instant

fun memory_step :: "memory \<Rightarrow> memory_event \<Rightarrow> (memory_error, memory) result" where
  "memory_step m (Supersede now) = mark_superseded m now"
| "memory_step m (Forbid now) = Ok (forbid m now)"
| "memory_step m (Delete now) = Ok (memory_delete m now)"

text \<open>The shape of a stored memory: its content is gone exactly in the two states that forget it, its
  tags are sorted, distinct and non-empty, and facts and imports have a source.\<close>

definition memory_inv :: "memory \<Rightarrow> bool" where
  "memory_inv m \<longleftrightarrow>
     (memory_content m = None \<longleftrightarrow> memory_status_of m \<in> {Forbidden, MemoryDeleted})
     \<and> memory_content m \<noteq> Some []
     \<and> sorted (memory_tags m) \<and> distinct (memory_tags m) \<and> [] \<notin> set (memory_tags m)
     \<and> (memory_kind_of m = Fact \<or> memory_origin_of m = VerifiedImport \<longrightarrow> memory_source_of m \<noteq> None)"

lemma memory_step_inv: "memory_inv m \<Longrightarrow> memory_step m e = Ok m' \<Longrightarrow> memory_inv m'"
  by (cases e) (auto simp: memory_inv_def mark_superseded_def forbid_def memory_delete_def split: if_splits)

interpretation memory_machine: guarded_machine memory_step memory_inv
  by unfold_locales (rule memory_step_inv)

primrec run_memory :: "memory \<Rightarrow> memory_event list \<Rightarrow> memory" where
  "run_memory m [] = m"
| "run_memory m (e # es) = run_memory (case memory_step m e of Inr m' \<Rightarrow> m' | Inl _ \<Rightarrow> m) es"

lemma run_memory_eq: "run_memory m es = memory_machine.run_events m es"
  by (induction es arbitrary: m) simp_all

lemma memory_new_ok:
  "memory_new f content now = Ok m \<longleftrightarrow>
     content \<noteq> [] \<and> (new_kind f = Fact \<or> new_origin f = VerifiedImport \<longrightarrow> new_source f \<noteq> None)
     \<and> (\<forall>expiry. new_expires_at f = Some expiry \<longrightarrow> now < expiry) \<and> [] \<notin> set (new_tags f)
     \<and> m = \<lparr>memory_id = new_id f, memory_tenant = new_tenant f, memory_owner = new_owner f,
            memory_scope_of = new_scope f, memory_kind_of = new_kind f, memory_content = Some content,
            memory_tags = remdups_adj (sort (new_tags f)), memory_sensitivity_of = new_sensitivity f,
            memory_source_of = new_source f, memory_origin_of = new_origin f, memory_created_by = new_created_by f,
            memory_supersedes = new_supersedes f, memory_status_of = MemoryActive,
            memory_expires_at = new_expires_at f, memory_created_at = now, memory_updated_at = now\<rparr>"
  by (auto simp: memory_new_def Let_def list_ex_iff split: option.splits)

lemma distinct_sorted_remdups_adj: "sorted xs \<Longrightarrow> distinct (remdups_adj xs)"
  by (induction xs rule: remdups_adj.induct) auto

lemma memory_new_inv: "memory_new f content now = Ok m \<Longrightarrow> memory_inv m"
  by (auto simp: memory_new_ok memory_inv_def sorted_remdups_adj distinct_sorted_remdups_adj)

definition forgetting :: "memory_event \<Rightarrow> bool" where
  "forgetting e \<longleftrightarrow> (case e of Supersede _ \<Rightarrow> False | _ \<Rightarrow> True)"

lemma run_memory_content:
  "memory_content (run_memory m es) = (if list_ex forgetting es then None else memory_content m)"
  by (induction es arbitrary: m)
    (auto simp: forgetting_def mark_superseded_def forbid_def memory_delete_def split: memory_event.splits)

lemma memory_step_keeps:
  assumes "memory_step m e = Ok m'"
  shows "memory_status_of m' \<noteq> MemoryActive" "memory_expires_at m' = memory_expires_at m"
  using assms by (cases e; auto simp: mark_superseded_def forbid_def memory_delete_def split: if_splits)+

lemma run_memory_expires: "memory_expires_at (run_memory m es) = memory_expires_at m"
  by (induction es arbitrary: m) (auto split: sum.splits dest: memory_step_keeps(2))

lemma inactive_run: "memory_status_of m \<noteq> MemoryActive \<Longrightarrow> memory_status_of (run_memory m es) \<noteq> MemoryActive"
  unfolding run_memory_eq
  by (rule memory_machine.run_events_preserves [where P = "\<lambda>m. memory_status_of m \<noteq> MemoryActive"])
    (rule memory_step_keeps)

text \<open>Forgetting is final and complete. Whatever operations a stored memory goes through, its
  shape stays well formed; its content is exactly the one it was created with until the first operation
  that forbids or deletes it, and is gone for ever after; and it may be recalled at an instant exactly
  when no operation has touched it and it has not expired by then.\<close>

theorem memory_forgets_for_ever:
  assumes "memory_new f content created = Ok m"
  shows "memory_inv (run_memory m es)
    \<and> memory_content (run_memory m es) = (if list_ex forgetting es then None else Some content)
    \<and> (is_recallable_at (run_memory m es) now \<longleftrightarrow>
         es = [] \<and> (case new_expires_at f of None \<Rightarrow> True | Some expiry \<Rightarrow> now < expiry))"
proof (intro conjI)
  have m: "memory_content m = Some content" "memory_status_of m = MemoryActive" "memory_expires_at m = new_expires_at f"
    using assms by (simp_all add: memory_new_ok)
  show "memory_inv (run_memory m es)"
    unfolding run_memory_eq by (rule memory_machine.run_events_inv [OF memory_new_inv [OF assms]])
  show "memory_content (run_memory m es) = (if list_ex forgetting es then None else Some content)"
    by (simp add: run_memory_content m)
  show "is_recallable_at (run_memory m es) now \<longleftrightarrow>
      es = [] \<and> (case new_expires_at f of None \<Rightarrow> True | Some expiry \<Rightarrow> now < expiry)"
  proof (cases es)
    case (Cons e rest)
    have "memory_step m e \<noteq> Err r" for r by (cases e) (simp_all add: mark_superseded_def m)
    then obtain m' where m': "memory_step m e = Ok m'" by (metis sum.exhaust)
    then have "memory_status_of (run_memory m' rest) \<noteq> MemoryActive"
      by (intro inactive_run memory_step_keeps(1))
    with Cons m' show ?thesis by (simp add: is_recallable_at_def)
  qed (simp add: is_recallable_at_def m)
qed

theorem memory_forgets_for_ever_witness:
  "let f = \<lparr>new_id = ''m'', new_tenant = ''t'', new_owner = ''o'', new_scope = ScopeUser, new_kind = Preference,
            new_tags = [''b'', ''a'', ''b''], new_sensitivity = NormalSensitivity, new_source = None,
            new_origin = UserAction, new_created_by = ''o'', new_supersedes = None, new_expires_at = Some 10\<rparr>
   in \<exists>m. memory_new f ''tea'' 5 = Ok m \<and> is_recallable_at m 9 \<and> \<not> is_recallable_at m 10
        \<and> memory_content (run_memory m [Supersede 6, Forbid 7]) = None"
proof -
  let ?f = "\<lparr>new_id = ''m'', new_tenant = ''t'', new_owner = ''o'', new_scope = ScopeUser, new_kind = Preference,
            new_tags = [''b'', ''a'', ''b''], new_sensitivity = NormalSensitivity, new_source = None,
            new_origin = UserAction, new_created_by = ''o'', new_supersedes = None, new_expires_at = Some 10\<rparr>"
  obtain m where m: "memory_new ?f ''tea'' 5 = Ok m" by (simp add: memory_new_ok)
  note forgets = memory_forgets_for_ever [OF m]
  have "is_recallable_at m 9" "\<not> is_recallable_at m 10"
    using forgets [of "[]"] by simp_all
  moreover have "memory_content (run_memory m [Supersede 6, Forbid 7]) = None"
    using forgets [of "[Supersede 6, Forbid 7]"] by (simp add: forgetting_def)
  ultimately show ?thesis using m unfolding Let_def by blast
qed

end
