(* ===== verification/Routing.thy ===== *)
theory Routing
  imports StdModel
begin

text \<open>
  Channel routing, \<open>crates/openbot-domain/src/routing.rs\<close>: the prompt shown to the routing model and the
  decision taken from its answer. \<open>serde_json::from_str\<close> is the parameter \<open>from_str\<close>. A confidence is
  compared with the \<open>f64\<close> constant 0.6; a finite double is held as its IEEE bits, as in \<open>json_number\<close>,
  and JSON has no other doubles.
\<close>

section \<open>Data\<close>

definition max_routing_reason_code_points :: nat where
  "max_routing_reason_code_points = 500"

text \<open>The bits of the \<open>f64\<close> nearest to 0.6.\<close>

definition min_routing_confidence :: u64 where
  "min_routing_confidence = 0x3FE3333333333333"

record routing_candidate =
  candidate_id :: string
  candidate_name :: string
  candidate_role :: string
  candidate_reaches :: "string list"

datatype routing_reason_code =
  ExplicitChoice | OnlyCandidate | RouterUnavailable | InvalidResponse | CandidateNotVisible
  | LowConfidence | ModelMatch

fun routing_reason_str :: "routing_reason_code \<Rightarrow> string" where
  "routing_reason_str ExplicitChoice = ''explicit_choice''"
| "routing_reason_str OnlyCandidate = ''only_candidate''"
| "routing_reason_str RouterUnavailable = ''router_unavailable''"
| "routing_reason_str InvalidResponse = ''invalid_response''"
| "routing_reason_str CandidateNotVisible = ''candidate_not_visible''"
| "routing_reason_str LowConfidence = ''low_confidence''"
| "routing_reason_str ModelMatch = ''model_match''"

record routing_decision =
  decided_agent :: string
  decided_name :: string
  decided_reason :: string
  decided_fallback :: bool
  decided_code :: routing_reason_code

datatype routing_completion = CompletionUnavailable | Answer string

definition needs_completion :: "routing_candidate list \<Rightarrow> bool" where
  "needs_completion candidates \<longleftrightarrow> 1 < length candidates"

section \<open>The prompt\<close>

definition roster_line :: "routing_candidate \<Rightarrow> string" where
  "roster_line c =
     join_with [CHR 0x0A]
       ([''- id: '' @ candidate_id c, ''  name: '' @ candidate_name c, ''  for: '' @ candidate_role c]
        @ (if candidate_reaches c \<noteq> [] then [''  can reach: '' @ join_with '', '' (candidate_reaches c)] else []))"

definition reply_instruction :: string where
  "reply_instruction = ''Reply with only JSON: {'' @ quoted ''agentId'' @ '': '' @ quoted ''<one id from the list>''
     @ '', '' @ quoted ''reason'' @ '': '' @ quoted ''<short, names the fit>'' @ '', '' @ quoted ''confidence''
     @ '': <0..1>}.''"

definition reach_instruction :: string where
  "reach_instruction = ''When the message names a system a coworker can reach, prefer that coworker: one that cannot reach it has no way to answer and will fall back to a browser that is signed in as nobody. Purpose still comes first ''
     @ [CHR 0xE2, CHR 0x80, CHR 0x94]
     @ '' a specialist with no systems listed is right for a question about its specialism.''"

definition routing_prompt :: "string \<Rightarrow> routing_candidate list \<Rightarrow> string" where
  "routing_prompt message candidates =
     join_with [CHR 0x0A]
       ([''You route a person's message to the one coworker best suited to it.'',
         ''Here are the coworkers and what each is for:'',
         join_with [CHR 0x0A] (map roster_line candidates),
         [],
         reply_instruction,
         ''Pick the specialist whose purpose matches the message. If none clearly fits, use the most general coworker and give it a low confidence.'']
        @ (if list_ex (\<lambda>c. candidate_reaches c \<noteq> []) candidates then [reach_instruction] else [])
        @ [[], ''Message: '' @ message])"

section \<open>The decision\<close>

fun find_char :: "char \<Rightarrow> string \<Rightarrow> nat option" where
  "find_char c [] = None"
| "find_char c (d # s) = (if d = c then Some 0 else map_option Suc (find_char c s))"

definition json_object_slice :: "string \<Rightarrow> string option" where
  "json_object_slice raw =
     (case find_char (CHR ''{'') raw of None \<Rightarrow> None | Some start \<Rightarrow>
      case rfind_char (CHR ''}'') raw of None \<Rightarrow> None | Some stop \<Rightarrow>
      if start \<le> stop then Some (drop start (take (Suc stop) raw)) else None)"

text \<open>Code points are taken with their bytes; the ellipsis is U+2026.\<close>

definition take_code_points :: "nat \<Rightarrow> string \<Rightarrow> string" where
  "take_code_points n s = concat (map snd (take n (scalars s)))"

definition ellipsis :: string where
  "ellipsis = [CHR 0xE2, CHR 0x80, CHR 0xA6]"

definition bounded_reason :: "string \<Rightarrow> string" where
  "bounded_reason reason =
     (let bounded = take_code_points max_routing_reason_code_points reason in
      if drop max_routing_reason_code_points (scalars reason) \<noteq> []
      then take_code_points (max_routing_reason_code_points - 1) bounded @ ellipsis
      else bounded)"

text \<open>\<open>as_f64(n) < 0.6\<close>: a negative double has its top bit set, and two doubles that do not are
  ordered as their bits.\<close>

fun below_min_confidence :: "json_number \<Rightarrow> bool" where
  "below_min_confidence (PosInt n) \<longleftrightarrow> n = 0"
| "below_min_confidence (NegInt i) \<longleftrightarrow> sint i \<le> 0"
| "below_min_confidence (Float bits) \<longleftrightarrow> 0x8000000000000000 \<le> bits \<or> bits < min_routing_confidence"

fun as_number :: "json \<Rightarrow> json_number option" where
  "as_number (JNumber n) = Some n"
| "as_number _ = None"

definition low_confidence :: "(string \<times> json) list \<Rightarrow> bool" where
  "low_confidence parsed \<longleftrightarrow>
     (case Option.bind (map_of parsed ''confidence'') as_number of
        None \<Rightarrow> True \<comment> \<open>\<open>unwrap_or_default\<close> is 0.0\<close>
      | Some n \<Rightarrow> below_min_confidence n)"

definition fallback_to ::
  "routing_candidate list \<Rightarrow> string \<Rightarrow> string \<Rightarrow> routing_reason_code \<Rightarrow> routing_decision" where
  "fallback_to candidates default_id reason code =
     (let chosen = (case find (\<lambda>c. candidate_id c = default_id) candidates of
                      Some c \<Rightarrow> Some c
                    | None \<Rightarrow> (case candidates of [] \<Rightarrow> None | c # _ \<Rightarrow> Some c))
      in case chosen of
           None \<Rightarrow> \<lparr>decided_agent = default_id, decided_name = default_id, decided_reason = reason,
                   decided_fallback = True, decided_code = code\<rparr>
         | Some c \<Rightarrow> \<lparr>decided_agent = candidate_id c, decided_name = candidate_name c, decided_reason = reason,
                      decided_fallback = True, decided_code = code\<rparr>)"

definition match_reason :: "(string \<times> json) list \<Rightarrow> routing_candidate \<Rightarrow> string" where
  "match_reason parsed chosen =
     (case Option.bind (map_of parsed ''reason'') json_str of
        None \<Rightarrow> ''matches '' @ candidate_name chosen
      | Some reason \<Rightarrow>
          let reason = trim reason in
          if reason = [] then ''matches '' @ candidate_name chosen else bounded_reason reason)"

text \<open>The object the answer holds, if it holds one.\<close>

definition answer_object :: "(string \<Rightarrow> json option) \<Rightarrow> string \<Rightarrow> (string \<times> json) list option" where
  "answer_object from_str raw = Option.bind (Option.bind (json_object_slice raw) from_str) as_object"

definition named_id :: "(string \<times> json) list \<Rightarrow> string" where
  "named_id parsed = (case Option.bind (map_of parsed ''agentId'') json_str of None \<Rightarrow> [] | Some s \<Rightarrow> s)"

definition decide ::
  "(string \<Rightarrow> json option) \<Rightarrow> routing_candidate list \<Rightarrow> string \<Rightarrow> routing_completion \<Rightarrow> routing_decision" where
  "decide from_str candidates default_id completion =
     (let fallback = fallback_to candidates default_id in
      if length candidates \<le> 1 then fallback ''the only coworker available'' OnlyCandidate
      else case completion of
        CompletionUnavailable \<Rightarrow>
          fallback ''sent to your default while the router was unreachable'' RouterUnavailable
      | Answer raw \<Rightarrow>
        (case answer_object from_str raw of
           None \<Rightarrow> fallback ''sent to your default; the router's answer did not parse'' InvalidResponse
         | Some parsed \<Rightarrow>
           (case find (\<lambda>c. candidate_id c = named_id parsed) candidates of
              None \<Rightarrow>
                fallback ''sent to your default; the router named no coworker on your roster'' CandidateNotVisible
            | Some chosen \<Rightarrow>
                if low_confidence parsed
                then fallback ''sent to your default; no specialist was a confident match'' LowConfidence
                else \<lparr>decided_agent = candidate_id chosen, decided_name = candidate_name chosen,
                      decided_reason = match_reason parsed chosen, decided_fallback = False,
                      decided_code = ModelMatch\<rparr>)))"

section \<open>What a decision promises\<close>

text \<open>The candidate a model's answer names with enough confidence.\<close>

definition confident_match ::
  "(string \<Rightarrow> json option) \<Rightarrow> routing_candidate list \<Rightarrow> routing_completion \<Rightarrow> routing_candidate \<Rightarrow> bool" where
  "confident_match from_str candidates completion c \<longleftrightarrow>
     (\<exists>raw parsed. completion = Answer raw \<and> answer_object from_str raw = Some parsed
       \<and> \<not> low_confidence parsed
       \<and> find (\<lambda>d. candidate_id d = named_id parsed) candidates = Some c)"

lemma find_on_roster: "find P cs = Some c \<Longrightarrow> c \<in> set cs \<and> P c"
  by (auto simp: find_Some_iff)

lemma fallback_to_roster:
  "decided_fallback (fallback_to cs d r k)" "decided_code (fallback_to cs d r k) = k"
  "cs = [] \<Longrightarrow> decided_agent (fallback_to cs d r k) = d"
  "cs \<noteq> [] \<Longrightarrow> \<exists>c\<in>set cs. decided_agent (fallback_to cs d r k) = candidate_id c
             \<and> decided_name (fallback_to cs d r k) = candidate_name c"
  "d \<in> candidate_id ` set cs \<Longrightarrow> decided_agent (fallback_to cs d r k) = d"
  by (auto simp: fallback_to_def Let_def find_None_iff split: option.splits list.splits dest!: find_on_roster)

text \<open>A decision is a fallback of some kind, or the confident match.\<close>

lemma decide_cases:
  obtains (fallback) r k where "decide from_str cs d completion = fallback_to cs d r k" "k \<noteq> ModelMatch"
      "1 < length cs \<Longrightarrow> \<nexists>c. confident_match from_str cs completion c"
  | (chosen) c r where "1 < length cs" "confident_match from_str cs completion c"
      "decide from_str cs d completion = \<lparr>decided_agent = candidate_id c, decided_name = candidate_name c,
         decided_reason = r, decided_fallback = False, decided_code = ModelMatch\<rparr>"
proof -
  consider (few) "length cs \<le> 1" | (unreachable) "1 < length cs" "completion = CompletionUnavailable"
    | (answered) raw where "completion = Answer raw" "1 < length cs"
    by (cases completion; cases "length cs \<le> 1") auto
  then show ?thesis
  proof cases
    case few
    then show ?thesis by (intro fallback [of _ OnlyCandidate]) (auto simp: decide_def Let_def)
  next
    case unreachable
    then show ?thesis
      by (intro fallback [of _ RouterUnavailable]) (auto simp: decide_def Let_def confident_match_def)
  next
  case answered
  note raw = answered(1) and two = answered(2)
  show ?thesis
  proof (cases "answer_object from_str raw")
    case None
    with raw two show ?thesis
      by (intro fallback [of _ InvalidResponse]) (auto simp: decide_def Let_def confident_match_def)
  next
    case (Some parsed)
    show ?thesis
    proof (cases "find (\<lambda>c. candidate_id c = named_id parsed) cs")
      case None
      with Some raw two show ?thesis
        by (intro fallback [of _ CandidateNotVisible]) (auto simp: decide_def Let_def confident_match_def)
    next
      case found: (Some c)
      show ?thesis
      proof (cases "low_confidence parsed")
        case True
        with found Some raw two show ?thesis
          by (intro fallback [of _ LowConfidence]) (auto simp: decide_def Let_def confident_match_def)
      next
        case False
        with found Some raw two show ?thesis
          by (intro chosen [of c]) (auto simp: decide_def Let_def confident_match_def)
      qed
    qed
  qed
  qed
qed

text \<open>A message goes only to a coworker on the roster: to the one the model named, when there is a
  choice to make and its answer names a coworker on the roster with a confidence of at least 0.6, and
  otherwise, marked as a fallback, to the default when it is on the roster and to the first coworker when
  it is not.\<close>

theorem routing_stays_on_the_roster:
  "let d = decide from_str cs default_id completion in
     (cs = [] \<longrightarrow> decided_agent d = default_id)
     \<and> (cs \<noteq> [] \<longrightarrow> (\<exists>c\<in>set cs. decided_agent d = candidate_id c \<and> decided_name d = candidate_name c))
     \<and> (decided_fallback d \<longleftrightarrow> decided_code d \<noteq> ModelMatch)
     \<and> (\<not> decided_fallback d \<longleftrightarrow> 1 < length cs \<and> (\<exists>c. confident_match from_str cs completion c))
     \<and> (\<forall>c. \<not> decided_fallback d \<and> confident_match from_str cs completion c \<longrightarrow> decided_agent d = candidate_id c)
     \<and> (decided_fallback d \<and> default_id \<in> candidate_id ` set cs \<longrightarrow> decided_agent d = default_id)"
proof (cases rule: decide_cases [of from_str cs default_id completion])
  case (fallback r k)
  then show ?thesis
    using fallback_to_roster [where cs = cs and d = default_id and r = r and k = k] by (simp add: Let_def)
next
  case (chosen c r)
  have unique: "candidate_id c = candidate_id c'" if "confident_match from_str cs completion c'" for c'
    using that chosen(2) by (auto simp: confident_match_def)
  have roster: "c \<in> set cs" using chosen(2) by (auto simp: confident_match_def dest: find_on_roster)
  have some: "cs \<noteq> []" using roster by auto
  show ?thesis
    unfolding chosen(3) Let_def routing_decision.select_convs
    using chosen(1,2) roster unique some by blast
qed

definition example_roster :: "routing_candidate list" where
  "example_roster =
     [\<lparr>candidate_id = ''general'', candidate_name = ''G'', candidate_role = ''all'', candidate_reaches = []\<rparr>,
      \<lparr>candidate_id = ''sales'', candidate_name = ''S'', candidate_role = ''sales'', candidate_reaches = [''crm'']\<rparr>]"

theorem routing_stays_on_the_roster_witness:
  "let from_str = (\<lambda>s. Some (JObject [(''agentId'', JString ''sales''), (''confidence'', JNumber (PosInt 1))]));
       d = decide from_str example_roster ''general'' (Answer ''so: {} ok'')
   in \<not> decided_fallback d \<and> decided_agent d = ''sales''"
proof -
  let ?from_str = "\<lambda>s::string. Some (JObject [(''agentId'', JString ''sales''), (''confidence'', JNumber (PosInt 1))])"
  have "confident_match ?from_str example_roster (Answer ''so: {} ok'') (example_roster ! 1)"
    unfolding confident_match_def by (simp add: answer_object_def named_id_def json_object_slice_def low_confidence_def example_roster_def)
  moreover have "1 < length example_roster" "candidate_id (example_roster ! 1) = ''sales''"
    by (simp_all add: example_roster_def)
  ultimately show ?thesis
    using routing_stays_on_the_roster [of ?from_str example_roster "''general''" "Answer ''so: {} ok''"]
    unfolding Let_def by metis
qed

end
