(* ===== verification/UpgradePreflight.thy ===== *)
theory UpgradePreflight
  imports BackupPlan "HOL-Library.Sublist"
begin

text \<open>
  The upgrade preflight, \<open>crates/openbot-domain/src/upgrade_preflight.rs\<close>: the comparison of the running
  release with a candidate for an upgrade, an emergency rollback or a switch of the restore format, and
  the plan of steps and open proofs it yields. A \<open>BTreeSet\<close> that a loop only inserts into and tests is a
  set; the set of pending actions is listed in the order of their declaration, which is its order.
\<close>

section \<open>Claims\<close>

definition up_max_components :: nat where "up_max_components = 16"
definition up_max_migrations :: nat where "up_max_migrations = 256"
definition up_max_id_bytes :: nat where "up_max_id_bytes = 128"
definition up_max_pending_actions :: nat where "up_max_pending_actions = 8"

datatype operation_intent = Upgrade | EmergencyRollback | RestoreFormatSwitch

datatype writer_kind = RustNative | IntelligenceTypeScript

datatype schema_change_kind =
  NewTable | NullableColumn | Backfill | Index | NonDestructiveConstraint
  | DropChange | Rename | TypeTightening | PrimaryKeyRewrite | UnknownChange

definition is_expand :: "schema_change_kind \<Rightarrow> bool" where
  "is_expand k \<longleftrightarrow> k \<in> {NewTable, NullableColumn, Backfill, Index, NonDestructiveConstraint}"

datatype compatibility_range = RangeUnknown | RangeUnbounded | RangeInclusive (min_core: u32) (max_core: u32)

datatype compatible_previous_claim = PreviousUnknown | PreviousNone | PreviousIdentified string

record release_majors =
  major_rust_core :: u16
  major_tauri :: u16
  major_electron :: u16
  major_postgres :: u16

record startup_facts =
  su_protocol :: u32
  su_sidecar_protocol :: u32
  su_release_epoch :: u32
  su_core_identity :: u32
  su_minimum_compatible_core :: u32
  su_compatibility_range :: compatibility_range

record migration_claim =
  mig_name :: string
  mig_checksum :: "digest option"
  mig_change :: schema_change_kind

record schema_inventory_claim =
  schema_scope :: string
  schema_checksum :: "digest option"
  schema_migrations :: "migration_claim list"

record restore_format_claim =
  rf_format_id :: string
  rf_compatible_previous :: compatible_previous_claim

record restore_build_claim =
  rb_format_id :: string
  rb_digest :: digest
  rb_described_runnable :: bool

record proof_claims =
  signature_described_valid :: bool
  notarization_described_valid :: bool
  rollback_authorization_described :: bool

text \<open>\<open>ComponentSetClaim\<close> is its entries.\<close>

definition components_from_set :: "compatibility_set \<Rightarrow> component_rev list" where
  "components_from_set s = [compat_application s, compat_postgres s, compat_engine s, compat_ui s]"

record release_snapshot =
  snap_components :: "component_rev list"
  snap_majors :: release_majors
  snap_startup :: startup_facts
  snap_schema :: schema_inventory_claim
  snap_restore_format :: restore_format_claim
  snap_restore_build :: "restore_build_claim option"
  snap_writer :: writer_kind

record upgrade_request =
  up_intent :: operation_intent
  up_running :: release_snapshot
  up_candidate :: release_snapshot
  up_previous_build :: "release_snapshot option"
  up_rollback_schema :: "digest option"
  up_proof_claims :: proof_claims

section \<open>Plans and faults\<close>

datatype pending_action =
  VerifySignatures | Notarize | VerifyRollbackAuthorization | VerifyResourceIntegrity
  | ApplyExpandMigrations | PostgresMajorUpgrade | VerifyRestoreBuild | AtomicSwitch

fun pending_action_str :: "pending_action \<Rightarrow> string" where
  "pending_action_str VerifySignatures = ''verify_signatures''"
| "pending_action_str Notarize = ''notarize''"
| "pending_action_str VerifyRollbackAuthorization = ''verify_rollback_authorization''"
| "pending_action_str VerifyResourceIntegrity = ''verify_resource_integrity''"
| "pending_action_str ApplyExpandMigrations = ''apply_expand_migrations''"
| "pending_action_str PostgresMajorUpgrade = ''postgres_major_upgrade''"
| "pending_action_str VerifyRestoreBuild = ''verify_restore_build''"
| "pending_action_str AtomicSwitch = ''atomic_switch''"

definition all_pending_actions :: "pending_action list" where
  "all_pending_actions =
     [VerifySignatures, Notarize, VerifyRollbackAuthorization, VerifyResourceIntegrity,
      ApplyExpandMigrations, PostgresMajorUpgrade, VerifyRestoreBuild, AtomicSwitch]"

record upgrade_proofs =
  pp_signature_verification :: proof_status
  pp_notarization :: proof_status
  pp_rollback_authorization :: proof_status
  pp_resource_integrity :: proof_status
  pp_postgres_restore_or_migrate :: proof_status
  pp_restore_build :: proof_status
  pp_atomic_switch :: proof_status
  pp_install_authorized :: proof_status
  pp_rollback_authorized :: proof_status
  pp_restore_authorized :: proof_status

definition proofs_for_plan :: "operation_intent \<Rightarrow> bool \<Rightarrow> upgrade_proofs" where
  "proofs_for_plan intent need_restore_build =
     \<lparr>pp_signature_verification = Pending, pp_notarization = Pending,
      pp_rollback_authorization = (case intent of EmergencyRollback \<Rightarrow> Pending | _ \<Rightarrow> NotGranted),
      pp_resource_integrity = Pending, pp_postgres_restore_or_migrate = Pending,
      pp_restore_build = (if need_restore_build then Pending else NotGranted), pp_atomic_switch = Pending,
      pp_install_authorized = NotGranted, pp_rollback_authorized = NotGranted, pp_restore_authorized = NotGranted\<rparr>"

record upgrade_plan =
  plan_running :: release_snapshot
  plan_candidate :: release_snapshot
  plan_previous_build :: "release_snapshot option"
  plan_rollback_schema :: "digest option"
  plan_intent :: operation_intent
  plan_pending_actions :: "pending_action list"
  plan_pending_proofs :: upgrade_proofs

datatype upgrade_fault =
  UpMissingComponent | UpDuplicateComponent | UpUnknownComponent | UpMixedReleaseEpoch
  | UpDigestContradiction | UpProtocolContradiction | UpReleaseEpochContradiction
  | UpMinimumCoreIncompatible | UpUnknownCompatibilityRange | UpUnboundedCompatibilityRange
  | UpPgMajorWithTauriMajor | UpPgMajorWithElectronMajor | UpOrdinaryDowngrade | UpForbiddenWriter
  | UpSchemaChangeNotExpand | UpMigrationNameDrift | UpMigrationChecksumMissing
  | UpMigrationChecksumDrift | UpSchemaScopeMissing | UpSchemaScopeDrift | UpSchemaChecksumMissing
  | UpRestoreBuildMissing | UpRestoreBuildFormatMismatch | UpRestoreFormatUnknown
  | UpMissingRollbackAuthorization | UpInputEmpty | UpInputTooLong | UpInputDuplicate
  | UpCountOutOfBounds | UpIdentityInvalid | UpMajorInvalid | UpStartupFactMissing
  | UpInconsistentFacts

fun upgrade_fault_str :: "upgrade_fault \<Rightarrow> string" where
  "upgrade_fault_str UpMissingComponent = ''upgrade_preflight_missing_component''"
| "upgrade_fault_str UpDuplicateComponent = ''upgrade_preflight_duplicate_component''"
| "upgrade_fault_str UpUnknownComponent = ''upgrade_preflight_unknown_component''"
| "upgrade_fault_str UpMixedReleaseEpoch = ''upgrade_preflight_mixed_release_epoch''"
| "upgrade_fault_str UpDigestContradiction = ''upgrade_preflight_digest_contradiction''"
| "upgrade_fault_str UpProtocolContradiction = ''upgrade_preflight_protocol_contradiction''"
| "upgrade_fault_str UpReleaseEpochContradiction = ''upgrade_preflight_release_epoch_contradiction''"
| "upgrade_fault_str UpMinimumCoreIncompatible = ''upgrade_preflight_minimum_core_incompatible''"
| "upgrade_fault_str UpUnknownCompatibilityRange = ''upgrade_preflight_unknown_compatibility_range''"
| "upgrade_fault_str UpUnboundedCompatibilityRange = ''upgrade_preflight_unbounded_compatibility_range''"
| "upgrade_fault_str UpPgMajorWithTauriMajor = ''upgrade_preflight_pg_major_with_tauri_major''"
| "upgrade_fault_str UpPgMajorWithElectronMajor = ''upgrade_preflight_pg_major_with_electron_major''"
| "upgrade_fault_str UpOrdinaryDowngrade = ''upgrade_preflight_ordinary_downgrade''"
| "upgrade_fault_str UpForbiddenWriter = ''upgrade_preflight_forbidden_writer''"
| "upgrade_fault_str UpSchemaChangeNotExpand = ''upgrade_preflight_schema_change_not_expand''"
| "upgrade_fault_str UpMigrationNameDrift = ''upgrade_preflight_migration_name_drift''"
| "upgrade_fault_str UpMigrationChecksumMissing = ''upgrade_preflight_migration_checksum_missing''"
| "upgrade_fault_str UpMigrationChecksumDrift = ''upgrade_preflight_migration_checksum_drift''"
| "upgrade_fault_str UpSchemaScopeMissing = ''upgrade_preflight_schema_scope_missing''"
| "upgrade_fault_str UpSchemaScopeDrift = ''upgrade_preflight_schema_scope_drift''"
| "upgrade_fault_str UpSchemaChecksumMissing = ''upgrade_preflight_schema_checksum_missing''"
| "upgrade_fault_str UpRestoreBuildMissing = ''upgrade_preflight_restore_build_missing''"
| "upgrade_fault_str UpRestoreBuildFormatMismatch = ''upgrade_preflight_restore_build_format_mismatch''"
| "upgrade_fault_str UpRestoreFormatUnknown = ''upgrade_preflight_restore_format_unknown''"
| "upgrade_fault_str UpMissingRollbackAuthorization = ''upgrade_preflight_missing_rollback_authorization''"
| "upgrade_fault_str UpInputEmpty = ''upgrade_preflight_input_empty''"
| "upgrade_fault_str UpInputTooLong = ''upgrade_preflight_input_too_long''"
| "upgrade_fault_str UpInputDuplicate = ''upgrade_preflight_input_duplicate''"
| "upgrade_fault_str UpCountOutOfBounds = ''upgrade_preflight_count_out_of_bounds''"
| "upgrade_fault_str UpIdentityInvalid = ''upgrade_preflight_identity_invalid''"
| "upgrade_fault_str UpMajorInvalid = ''upgrade_preflight_major_invalid''"
| "upgrade_fault_str UpStartupFactMissing = ''upgrade_preflight_startup_fact_missing''"
| "upgrade_fault_str UpInconsistentFacts = ''upgrade_preflight_inconsistent_facts''"

section \<open>Checked facts\<close>

record checked_components =
  cc_set :: compatibility_set
  cc_epoch :: u32

record checked_migration =
  cm_name :: string
  cm_checksum :: digest
  cm_change :: schema_change_kind

record checked_schema =
  cs_scope :: string
  cs_checksum :: digest
  cs_migrations :: "checked_migration list"

datatype checked_previous = CheckedNone | CheckedIdentified string

record checked_restore_format =
  cf_format_id :: string
  cf_previous :: checked_previous

record checked_restore_build =
  cb_format_id :: string
  cb_described_runnable :: bool

record checked_snapshot =
  ck_core_identity :: u32
  ck_components :: checked_components
  ck_majors :: release_majors
  ck_schema :: checked_schema
  ck_restore_format :: checked_restore_format
  ck_restore_build :: "checked_restore_build option"
  ck_writer :: writer_kind

definition identity_byte :: "char \<Rightarrow> bool" where
  "identity_byte c \<longleftrightarrow> is_ascii_alphanumeric c \<or> c \<in> {CHR ''.'', CHR ''_'', CHR ''-''}"

definition check_identity :: "string \<Rightarrow> (upgrade_fault, unit) result" where
  "check_identity v =
     (if v = [] then Err UpInputEmpty
      else if up_max_id_bytes < length v then Err UpInputTooLong
      else if \<not> list_all identity_byte v then Err UpIdentityInvalid
      else Ok ())"

definition component_index :: "string \<Rightarrow> nat option" where
  "component_index name =
     (if name = ''application'' then Some 0
      else if name = ''postgres'' then Some 1
      else if name = ''engine'' then Some 2
      else if name = ''ui'' then Some 3
      else None)"

text \<open>The loop's variables: the entries by name, the digests seen, the epoch of the first entry.\<close>

record component_scan =
  scan_by_name :: "component_rev option list"
  scan_digests :: "digest set"
  scan_epoch :: "u32 option"

definition component_step :: "component_scan \<Rightarrow> component_rev \<Rightarrow> (upgrade_fault, component_scan) result" where
  "component_step s item =
     and_then (check_identity (comp_name item)) (\<lambda>_.
     case component_index (comp_name item) of
       None \<Rightarrow> Err UpUnknownComponent
     | Some index \<Rightarrow>
         if scan_by_name s ! index \<noteq> None then Err UpDuplicateComponent
         else if comp_epoch item = 0 then Err UpStartupFactMissing
         else if (case scan_epoch s of None \<Rightarrow> False | Some existing \<Rightarrow> existing \<noteq> comp_epoch item)
           then Err UpMixedReleaseEpoch
         else if comp_digest item \<in> scan_digests s then Err UpDigestContradiction
         else Ok \<lparr>scan_by_name = (scan_by_name s)[index := Some item],
                  scan_digests = insert (comp_digest item) (scan_digests s),
                  scan_epoch = (case scan_epoch s of None \<Rightarrow> Some (comp_epoch item) | Some e \<Rightarrow> Some e)\<rparr>)"

definition check_components :: "component_rev list \<Rightarrow> (upgrade_fault, checked_components) result" where
  "check_components entries =
     (if up_max_components < length entries then Err UpCountOutOfBounds
      else if entries = [] then Err UpMissingComponent
      else
        and_then (try_fold component_step
            \<lparr>scan_by_name = [None, None, None, None], scan_digests = {}, scan_epoch = None\<rparr> entries) (\<lambda>s.
        case scan_by_name s of
          [Some application, Some postgres, Some engine, Some ui] \<Rightarrow>
            (case scan_epoch s of
               None \<Rightarrow> Err UpStartupFactMissing
             | Some epoch \<Rightarrow>
                 Ok \<lparr>cc_set = \<lparr>compat_application = application, compat_postgres = postgres,
                              compat_engine = engine, compat_ui = ui\<rparr>, cc_epoch = epoch\<rparr>)
        | _ \<Rightarrow> Err UpMissingComponent))"

definition check_majors :: "release_majors \<Rightarrow> (upgrade_fault, unit) result" where
  "check_majors m =
     (if major_rust_core m = 0 \<or> major_tauri m = 0 \<or> major_electron m = 0 \<or> major_postgres m = 0
      then Err UpMajorInvalid else Ok ())"

definition check_startup :: "startup_facts \<Rightarrow> u32 \<Rightarrow> (upgrade_fault, unit) result" where
  "check_startup f component_epoch =
     (if su_protocol f = 0 \<or> su_sidecar_protocol f = 0 \<or> su_release_epoch f = 0 then Err UpStartupFactMissing
      else if su_core_identity f = 0 \<or> su_minimum_compatible_core f = 0 then Err UpStartupFactMissing
      else if su_protocol f \<noteq> su_sidecar_protocol f then Err UpProtocolContradiction
      else if su_release_epoch f \<noteq> component_epoch then Err UpReleaseEpochContradiction
      else if su_core_identity f < su_minimum_compatible_core f then Err UpMinimumCoreIncompatible
      else case su_compatibility_range f of
             RangeUnknown \<Rightarrow> Err UpUnknownCompatibilityRange
           | RangeUnbounded \<Rightarrow> Err UpUnboundedCompatibilityRange
           | RangeInclusive lo hi \<Rightarrow>
               if hi < lo then Err UpInconsistentFacts
               else if su_core_identity f < lo \<or> hi < su_core_identity f then Err UpMinimumCoreIncompatible
               else if su_minimum_compatible_core f < lo then Err UpMinimumCoreIncompatible
               else Ok ())"

text \<open>The loop over the migrations: the names seen and the checked migrations, in order.\<close>

definition migration_step ::
  "string set \<times> checked_migration list \<Rightarrow> migration_claim \<Rightarrow>
   (upgrade_fault, string set \<times> checked_migration list) result" where
  "migration_step s item =
     (case s of (names, migrations) \<Rightarrow>
      and_then (check_identity (mig_name item)) (\<lambda>_.
      if mig_name item \<in> names then Err UpInputDuplicate
      else and_then (ok_or UpMigrationChecksumMissing (mig_checksum item)) (\<lambda>checksum.
      if \<not> is_expand (mig_change item) then Err UpSchemaChangeNotExpand
      else Ok (insert (mig_name item) names,
               migrations @ [\<lparr>cm_name = mig_name item, cm_checksum = checksum, cm_change = mig_change item\<rparr>]))))"

definition check_schema :: "schema_inventory_claim \<Rightarrow> (upgrade_fault, checked_schema) result" where
  "check_schema claim =
     (if schema_scope claim = [] then Err UpSchemaScopeMissing
      else and_then (check_identity (schema_scope claim)) (\<lambda>_.
        and_then (ok_or UpSchemaChecksumMissing (schema_checksum claim)) (\<lambda>checksum.
        if up_max_migrations < length (schema_migrations claim) then Err UpCountOutOfBounds
        else if schema_migrations claim = [] then Err UpInputEmpty
        else and_then (try_fold migration_step ({}, []) (schema_migrations claim)) (\<lambda>(names, migrations).
          Ok \<lparr>cs_scope = schema_scope claim, cs_checksum = checksum, cs_migrations = migrations\<rparr>))))"

definition check_restore_format_claim ::
  "restore_format_claim \<Rightarrow> (upgrade_fault, checked_restore_format) result" where
  "check_restore_format_claim claim =
     and_then (check_identity (rf_format_id claim)) (\<lambda>_.
     and_then (case rf_compatible_previous claim of
         PreviousUnknown \<Rightarrow> Err UpRestoreFormatUnknown
       | PreviousNone \<Rightarrow> Ok CheckedNone
       | PreviousIdentified format_id \<Rightarrow>
           and_then (check_identity format_id) (\<lambda>_. Ok (CheckedIdentified format_id))) (\<lambda>previous.
     Ok \<lparr>cf_format_id = rf_format_id claim, cf_previous = previous\<rparr>))"

definition check_restore_build :: "restore_build_claim \<Rightarrow> (upgrade_fault, checked_restore_build) result" where
  "check_restore_build claim =
     and_then (check_identity (rb_format_id claim)) (\<lambda>_.
     Ok \<lparr>cb_format_id = rb_format_id claim, cb_described_runnable = rb_described_runnable claim\<rparr>)"

definition check_snapshot :: "release_snapshot \<Rightarrow> (upgrade_fault, checked_snapshot) result" where
  "check_snapshot s =
     and_then (check_components (snap_components s)) (\<lambda>components.
     and_then (check_majors (snap_majors s)) (\<lambda>_.
     and_then (check_startup (snap_startup s) (cc_epoch components)) (\<lambda>_.
     and_then (check_schema (snap_schema s)) (\<lambda>schema.
     and_then (check_restore_format_claim (snap_restore_format s)) (\<lambda>format.
     and_then (case snap_restore_build s of
         None \<Rightarrow> Ok None
       | Some build \<Rightarrow> and_then (check_restore_build build) (\<lambda>b. Ok (Some b))) (\<lambda>build.
     and_then (case build of
         None \<Rightarrow> Ok ()
       | Some b \<Rightarrow>
           if cb_format_id b \<noteq> cf_format_id format then Err UpRestoreBuildFormatMismatch
           else if \<not> cb_described_runnable b then Err UpRestoreBuildMissing
           else Ok ()) (\<lambda>_.
     Ok \<lparr>ck_core_identity = su_core_identity (snap_startup s), ck_components = components,
         ck_majors = snap_majors s, ck_schema = schema, ck_restore_format = format,
         ck_restore_build = build, ck_writer = snap_writer s\<rparr>)))))))"

section \<open>Comparing two snapshots\<close>

definition pair_check :: "checked_migration \<times> checked_migration \<Rightarrow> (upgrade_fault, unit) result" where
  "pair_check p =
     (case p of (older, newer) \<Rightarrow>
        if cm_name older \<noteq> cm_name newer then Err UpMigrationNameDrift
        else if cm_checksum older \<noteq> cm_checksum newer then Err UpMigrationChecksumDrift
        else if cm_change older \<noteq> cm_change newer then Err UpInconsistentFacts
        else Ok ())"

definition assert_prefix :: "checked_schema \<Rightarrow> checked_schema \<Rightarrow> (upgrade_fault, unit) result" where
  "assert_prefix a b =
     (if length (cs_migrations b) < length (cs_migrations a) then Err UpMigrationNameDrift
      else and_then (checks (map pair_check (zip (cs_migrations a) (cs_migrations b)))) (\<lambda>_.
        checks (map (\<lambda>extra. if is_expand (cm_change extra) then Ok () else Err UpSchemaChangeNotExpand)
          (drop (length (cs_migrations a)) (cs_migrations b)))))"

definition check_schema_relationship ::
  "operation_intent \<Rightarrow> checked_schema \<Rightarrow> checked_schema \<Rightarrow> (upgrade_fault, unit) result" where
  "check_schema_relationship intent running candidate =
     (if cs_scope running \<noteq> cs_scope candidate then Err UpSchemaScopeDrift
      else and_then (case intent of
          EmergencyRollback \<Rightarrow> assert_prefix candidate running
        | _ \<Rightarrow> assert_prefix running candidate) (\<lambda>_.
        if length (cs_migrations running) = length (cs_migrations candidate)
           \<and> cs_checksum running \<noteq> cs_checksum candidate then Err UpInconsistentFacts
        else if length (cs_migrations running) \<noteq> length (cs_migrations candidate)
           \<and> cs_checksum running = cs_checksum candidate then Err UpInconsistentFacts
        else Ok ()))"

definition check_restore_format ::
  "operation_intent \<Rightarrow> bool \<Rightarrow> checked_snapshot \<Rightarrow> checked_snapshot \<Rightarrow> (upgrade_fault, bool) result" where
  "check_restore_format intent format_switch running candidate =
     (if intent = EmergencyRollback then Ok False
      else if intent = RestoreFormatSwitch \<and> \<not> format_switch then Err UpInconsistentFacts
      else if \<not> format_switch then Ok False
      else and_then (case cf_previous (ck_restore_format candidate) of
          CheckedIdentified previous \<Rightarrow>
            if previous = cf_format_id (ck_restore_format running) then Ok True else Err UpRestoreFormatUnknown
        | CheckedNone \<Rightarrow> Ok False) (\<lambda>has_compatible_previous.
        if has_compatible_previous then
          Ok (case ck_restore_build candidate of
                None \<Rightarrow> False
              | Some build \<Rightarrow> cb_format_id build = cf_format_id (ck_restore_format candidate))
        else
          (case ck_restore_build candidate of
             None \<Rightarrow> Err UpRestoreBuildMissing
           | Some build \<Rightarrow>
               if cb_format_id build \<noteq> cf_format_id (ck_restore_format candidate)
                 then Err UpRestoreBuildFormatMismatch
               else if \<not> cb_described_runnable build then Err UpRestoreBuildMissing
               else Ok True)))"

definition check_direction ::
  "operation_intent \<Rightarrow> checked_snapshot \<Rightarrow> checked_snapshot \<Rightarrow> (upgrade_fault, unit) result" where
  "check_direction intent running candidate =
     (let rm = ck_majors running; cm = ck_majors candidate;
          pg_major = (major_postgres cm \<noteq> major_postgres rm);
          tauri_major = (major_tauri cm \<noteq> major_tauri rm);
          electron_major = (major_electron cm \<noteq> major_electron rm);
          re = cc_epoch (ck_components running); ce = cc_epoch (ck_components candidate) in
      if intent \<noteq> EmergencyRollback then
        (if ck_core_identity candidate < ck_core_identity running \<or> ce < re
            \<or> major_rust_core cm < major_rust_core rm \<or> major_tauri cm < major_tauri rm
            \<or> major_electron cm < major_electron rm \<or> major_postgres cm < major_postgres rm
         then Err UpOrdinaryDowngrade
         else if pg_major \<and> tauri_major then Err UpPgMajorWithTauriMajor
         else if pg_major \<and> electron_major then Err UpPgMajorWithElectronMajor
         else Ok ())
      else if ck_writer running \<noteq> RustNative then Err UpForbiddenWriter
      else if ck_core_identity running < ck_core_identity candidate \<or> re < ce
           \<or> major_rust_core rm < major_rust_core cm then Err UpInconsistentFacts
      else if pg_major \<or> tauri_major \<or> electron_major then Err UpInconsistentFacts
      else if ce = re \<and> cm = rm \<and> cc_set (ck_components candidate) = cc_set (ck_components running)
        then Err UpInconsistentFacts
      else if cf_format_id (ck_restore_format candidate) \<noteq> cf_format_id (ck_restore_format running)
           \<and> cf_previous (ck_restore_format running) \<noteq> CheckedIdentified (cf_format_id (ck_restore_format candidate))
        then Err UpRestoreFormatUnknown
      else Ok ())"

definition pending_action_set :: "operation_intent \<Rightarrow> checked_snapshot \<Rightarrow> checked_snapshot \<Rightarrow> bool \<Rightarrow> pending_action set" where
  "pending_action_set intent running candidate need_restore_build =
     {VerifySignatures, Notarize, VerifyResourceIntegrity, AtomicSwitch}
     \<union> (if length (cs_migrations (ck_schema running)) < length (cs_migrations (ck_schema candidate))
        then {ApplyExpandMigrations} else {})
     \<union> (if major_postgres (ck_majors running) < major_postgres (ck_majors candidate)
        then {PostgresMajorUpgrade} else {})
     \<union> (if intent = EmergencyRollback then {VerifyRollbackAuthorization} else {})
     \<union> (if need_restore_build then {VerifyRestoreBuild} else {})"

definition rollback_check :: "upgrade_request \<Rightarrow> (upgrade_fault, unit) result" where
  "rollback_check q =
     (if up_intent q = EmergencyRollback then
        and_then (ok_or UpInconsistentFacts (up_previous_build q)) (\<lambda>previous.
        if previous \<noteq> up_candidate q \<or> snap_writer previous \<noteq> RustNative
           \<or> up_rollback_schema q \<noteq> schema_checksum (snap_schema (up_running q))
        then Err UpInconsistentFacts else Ok ())
      else if up_previous_build q \<noteq> None \<or> up_rollback_schema q \<noteq> None then Err UpInconsistentFacts
      else Ok ())"

definition plan_upgrade_preflight :: "upgrade_request \<Rightarrow> (upgrade_fault, upgrade_plan) result" where
  "plan_upgrade_preflight q =
     and_then (check_snapshot (up_running q)) (\<lambda>running.
     and_then (check_snapshot (up_candidate q)) (\<lambda>candidate.
     if ck_writer candidate \<noteq> RustNative then Err UpForbiddenWriter
     else
     and_then (check_schema_relationship (up_intent q) (ck_schema running) (ck_schema candidate)) (\<lambda>_.
     let format_switch = (cf_format_id (ck_restore_format running) \<noteq> cf_format_id (ck_restore_format candidate)) in
     and_then (check_restore_format (up_intent q) format_switch running candidate) (\<lambda>need_restore_build.
     and_then (check_direction (up_intent q) running candidate) (\<lambda>_.
     if up_intent q = EmergencyRollback \<and> \<not> rollback_authorization_described (up_proof_claims q)
       then Err UpMissingRollbackAuthorization
     else
     and_then (rollback_check q) (\<lambda>_.
     let actions = pending_action_set (up_intent q) running candidate need_restore_build in
     if up_max_pending_actions < card actions then Err UpCountOutOfBounds
     else Ok \<lparr>plan_running = up_running q, plan_candidate = up_candidate q,
              plan_previous_build = up_previous_build q, plan_rollback_schema = up_rollback_schema q,
              plan_intent = up_intent q,
              plan_pending_actions = filter (\<lambda>a. a \<in> actions) all_pending_actions,
              plan_pending_proofs = proofs_for_plan (up_intent q) need_restore_build\<rparr>))))))"

section \<open>Component sets\<close>

definition component_names :: "string list" where
  "component_names = [''application'', ''postgres'', ''engine'', ''ui'']"

definition components_fit :: "component_rev list \<Rightarrow> bool" where
  "components_fit es \<longleftrightarrow>
     set (map comp_name es) \<subseteq> set component_names \<and> distinct (map comp_name es) \<and> distinct (map comp_digest es)
     \<and> (\<forall>e\<in>set es. comp_epoch e = comp_epoch (hd es) \<and> comp_epoch e \<noteq> 0)"

definition component_scan_of :: "component_rev list \<Rightarrow> component_scan" where
  "component_scan_of es =
     \<lparr>scan_by_name = map (\<lambda>n. find (\<lambda>e. comp_name e = n) es) component_names,
      scan_digests = set (map comp_digest es),
      scan_epoch = (if es = [] then None else Some (comp_epoch (hd es)))\<rparr>"

lemma component_index_some:
  "component_index n = Some i \<Longrightarrow> i < length component_names \<and> component_names ! i = n"
  by (auto simp: component_index_def component_names_def split: if_splits)

lemma component_index_none: "component_index n = None \<longleftrightarrow> n \<notin> set component_names"
  by (simp add: component_index_def component_names_def)

lemma component_name_valid: "n \<in> set component_names \<Longrightarrow> check_identity n = Ok ()"
  by (auto simp: component_names_def check_identity_def up_max_id_bytes_def identity_byte_def
      is_ascii_alphanumeric_def is_ascii_lowercase_def)

lemma find_snoc: "find P (xs @ [x]) = (case find P xs of None \<Rightarrow> if P x then Some x else None | Some y \<Rightarrow> Some y)"
  by (induction xs) auto

lemma find_named_none: "find (\<lambda>d. comp_name d = n) es = None \<longleftrightarrow> n \<notin> comp_name ` set es"
  by (induction es) auto

lemma component_scan_snoc:
  assumes "i < length component_names" "component_names ! i = comp_name e" "comp_name e \<notin> comp_name ` set pre"
  shows "component_scan_of (pre @ [e]) =
      \<lparr>scan_by_name = (scan_by_name (component_scan_of pre))[i := Some e],
       scan_digests = insert (comp_digest e) (scan_digests (component_scan_of pre)),
       scan_epoch = (case scan_epoch (component_scan_of pre) of None \<Rightarrow> Some (comp_epoch e) | Some x \<Rightarrow> Some x)\<rparr>"
proof -
  have none: "find (\<lambda>d. comp_name d = comp_name e) pre = None"
    using assms(3) by (simp only: find_named_none not_False_eq_True)
  have dist: "distinct component_names" by (simp add: component_names_def)
  have "map (\<lambda>n. find (\<lambda>e. comp_name e = n) (pre @ [e])) component_names
      = (map (\<lambda>n. find (\<lambda>e. comp_name e = n) pre) component_names)[i := Some e]"
  proof (rule nth_equalityI)
    fix j assume "j < length (map (\<lambda>n. find (\<lambda>e. comp_name e = n) (pre @ [e])) component_names)"
    then have j: "j < length component_names" by simp
    show "map (\<lambda>n. find (\<lambda>e. comp_name e = n) (pre @ [e])) component_names ! j
        = (map (\<lambda>n. find (\<lambda>e. comp_name e = n) pre) component_names)[i := Some e] ! j"
    proof (cases "j = i")
      case True
      have "find (\<lambda>d. comp_name d = component_names ! i) pre = None" using none assms(2) by simp
      with True assms(1,2) show ?thesis by (simp add: find_snoc)
    next
      case False
      then have "comp_name e \<noteq> component_names ! j"
        using nth_eq_iff_index_eq [OF dist assms(1) j] assms(2) by (simp only: simp_thms)
      with False j show ?thesis by (simp add: find_snoc split: option.splits)
    qed
  qed simp
  then show ?thesis by (simp add: component_scan_of_def hd_append)
qed

lemma component_step_ok:
  assumes "components_fit pre"
  shows "component_step (component_scan_of pre) e = Ok t \<longleftrightarrow>
    components_fit (pre @ [e]) \<and> t = component_scan_of (pre @ [e])"
proof (cases "component_index (comp_name e)")
  case None
  have "comp_name e \<notin> set component_names" by (rule component_index_none [THEN iffD1, OF None])
  then show ?thesis
    by (auto simp: component_step_def and_then_ok components_fit_def None)
next
  case (Some i)
  then have i: "i < length component_names" "component_names ! i = comp_name e"
    using component_index_some by blast+
  then have name: "comp_name e \<in> set component_names" using nth_mem [of i component_names] by simp
  have slot: "scan_by_name (component_scan_of pre) ! i = find (\<lambda>d. comp_name d = comp_name e) pre"
    using i by (simp add: component_scan_of_def)
  note new = component_scan_snoc [OF i]
  show ?thesis
  proof (cases "comp_name e \<in> comp_name ` set pre")
    case True
    then have "find (\<lambda>d. comp_name d = comp_name e) pre \<noteq> None" by (simp only: find_named_none not_True_eq_False simp_thms)
    then have "component_step (component_scan_of pre) e = Err UpDuplicateComponent"
      unfolding component_step_def component_name_valid [OF name] and_then.simps Some option.case slot
      by (simp only: if_True simp_thms)
    moreover have "\<not> components_fit (pre @ [e])" using True by (auto simp: components_fit_def)
    ultimately show ?thesis by simp
  next
    case False
    then have none: "find (\<lambda>d. comp_name d = comp_name e) pre = None"
      by (simp only: find_named_none not_False_eq_True)
    have fit: "components_fit (pre @ [e]) \<longleftrightarrow> comp_epoch e \<noteq> 0 \<and> comp_digest e \<notin> comp_digest ` set pre
        \<and> (pre \<noteq> [] \<longrightarrow> comp_epoch e = comp_epoch (hd pre))"
    proof (cases pre)
      case Nil
      with name show ?thesis by (simp add: components_fit_def)
    next
      case (Cons d rest)
      define h where "h = comp_epoch (hd pre)"
      have hd: "comp_epoch (hd (pre @ [e])) = h" using Cons by (simp add: h_def)
      have hp: "comp_epoch (hd pre) = h" by (simp add: h_def)
      have "d \<in> set pre" using Cons by simp
      moreover have names: "set (map comp_name pre) \<subseteq> set component_names" "distinct (map comp_name pre)"
          "distinct (map comp_digest pre)" and epochs: "\<forall>x\<in>set pre. comp_epoch x = h \<and> comp_epoch x \<noteq> 0"
        using assms unfolding components_fit_def h_def [symmetric] by blast+
      ultimately have "h \<noteq> 0" by force
      have "(\<forall>x\<in>set (pre @ [e]). comp_epoch x = h \<and> comp_epoch x \<noteq> 0) \<longleftrightarrow> comp_epoch e = h \<and> comp_epoch e \<noteq> 0"
        using epochs by (simp only: set_append list.set ball_Un ball_simps simp_thms) blast
      moreover have "distinct (map comp_name (pre @ [e]))" "set (map comp_name (pre @ [e])) \<subseteq> set component_names"
        using names False name by auto
      moreover have "distinct (map comp_digest (pre @ [e])) \<longleftrightarrow> comp_digest e \<notin> comp_digest ` set pre"
        using names(3) by simp
      ultimately show ?thesis
        unfolding components_fit_def hd hp using \<open>d \<in> set pre\<close> by (metis empty_iff empty_set)
    qed
    have mixed: "(case scan_epoch (component_scan_of pre) of None \<Rightarrow> False | Some x \<Rightarrow> x \<noteq> comp_epoch e)
        \<longleftrightarrow> pre \<noteq> [] \<and> comp_epoch e \<noteq> comp_epoch (hd pre)"
      by (simp add: component_scan_of_def eq_commute)
    have seen: "scan_digests (component_scan_of pre) = comp_digest ` set pre"
      by (simp add: component_scan_of_def)
    have "component_step (component_scan_of pre) e =
        (if comp_epoch e = 0 then Err UpStartupFactMissing
         else if pre \<noteq> [] \<and> comp_epoch e \<noteq> comp_epoch (hd pre) then Err UpMixedReleaseEpoch
         else if comp_digest e \<in> comp_digest ` set pre then Err UpDigestContradiction
         else Ok (component_scan_of (pre @ [e])))"
      unfolding new [OF False] component_step_def component_name_valid [OF name] and_then.simps Some option.case
        slot none mixed seen
      by (simp only: simp_thms if_False)
    then show ?thesis unfolding fit by auto
  qed
qed

lemma component_fold_ok:
  "try_fold component_step \<lparr>scan_by_name = [None, None, None, None], scan_digests = {}, scan_epoch = None\<rparr> es = Ok s
     \<longleftrightarrow> components_fit es \<and> s = component_scan_of es"
proof -
  have "try_fold component_step (component_scan_of []) es = Ok s
      \<longleftrightarrow> components_fit ([] @ es) \<and> s = component_scan_of ([] @ es)"
  proof (rule try_fold_tracks [where fits = components_fit])
    show "components_fit pre" if "components_fit (pre @ es)" for pre es
      using that by (cases pre) (auto simp: components_fit_def)
    show "components_fit []" by (simp add: components_fit_def)
  qed (rule component_step_ok)
  then show ?thesis by (simp add: component_scan_of_def component_names_def)
qed

definition components_agree :: "component_rev list \<Rightarrow> bool" where
  "components_agree es \<longleftrightarrow>
     set (map comp_name es) = {''application'', ''postgres'', ''engine'', ''ui''} \<and> distinct (map comp_name es)
     \<and> distinct (map comp_digest es) \<and> (\<forall>e\<in>set es. comp_epoch e = comp_epoch (hd es)) \<and> comp_epoch (hd es) \<noteq> 0"

definition component_named :: "component_rev list \<Rightarrow> string \<Rightarrow> component_rev" where
  "component_named es n = the (find (\<lambda>e. comp_name e = n) es)"

definition checked_components_of :: "component_rev list \<Rightarrow> checked_components" where
  "checked_components_of es =
     \<lparr>cc_set = \<lparr>compat_application = component_named es ''application'', compat_postgres = component_named es ''postgres'',
                compat_engine = component_named es ''engine'', compat_ui = component_named es ''ui''\<rparr>,
      cc_epoch = comp_epoch (hd es)\<rparr>"

lemma components_agree_fit:
  "components_agree es \<longleftrightarrow> components_fit es \<and> (\<forall>n\<in>set component_names. find (\<lambda>e. comp_name e = n) es \<noteq> None)"
proof -
  have found: "(\<forall>n\<in>set component_names. find (\<lambda>e. comp_name e = n) es \<noteq> None)
      \<longleftrightarrow> set component_names \<subseteq> set (map comp_name es)"
    unfolding find_named_none by auto
  have names: "{''application'', ''postgres'', ''engine'', ''ui''} = set component_names"
    by (simp add: component_names_def)
  show ?thesis
  proof (cases "es = []")
    case True
    then show ?thesis
      unfolding found components_agree_def names by (simp add: component_names_def)
  next
    case False
    then have "hd es \<in> set es" by simp
    then have "(\<forall>e\<in>set es. comp_epoch e = comp_epoch (hd es) \<and> comp_epoch e \<noteq> 0)
        \<longleftrightarrow> (\<forall>e\<in>set es. comp_epoch e = comp_epoch (hd es)) \<and> comp_epoch (hd es) \<noteq> 0"
      by auto
    then show ?thesis
      unfolding found components_agree_def components_fit_def names set_eq_subset by blast
  qed
qed

lemma check_components_accepts:
  assumes "components_agree es"
  shows "check_components es = Ok (checked_components_of es)"
proof -
  from assms have fit: "components_fit es" and found: "\<forall>n\<in>set component_names. find (\<lambda>e. comp_name e = n) es \<noteq> None"
    by (simp_all add: components_agree_fit)
  have "length es = card (set (map comp_name es))"
    using fit distinct_card [of "map comp_name es"] by (simp only: components_fit_def length_map)
  also have "\<dots> \<le> card (set component_names)"
    using fit by (intro card_mono) (simp_all add: components_fit_def)
  finally have short: "length es \<le> 4" by (simp add: component_names_def)
  moreover have "es \<noteq> []" using found by (auto simp: component_names_def)
  moreover have "find (\<lambda>e. comp_name e = n) es = Some (component_named es n)" if "n \<in> set component_names" for n
    using found that by (auto simp: component_named_def)
  moreover have "try_fold component_step \<lparr>scan_by_name = [None, None, None, None], scan_digests = {}, scan_epoch = None\<rparr> es
      = Ok (component_scan_of es)"
    using fit by (simp only: component_fold_ok simp_thms)
  ultimately show ?thesis
    by (simp add: check_components_def up_max_components_def component_scan_of_def component_names_def
        checked_components_of_def del: try_fold.simps)
qed

lemma check_components_refuses:
  assumes False: "\<not> components_agree es"
  shows "check_components es \<noteq> Ok c"
  proof (cases "try_fold component_step \<lparr>scan_by_name = [None, None, None, None], scan_digests = {}, scan_epoch = None\<rparr> es")
    case (Inl e)
    then show ?thesis by (simp add: check_components_def)
  next
    case (Inr s)
    then have fit: "components_fit es" and s: "s = component_scan_of es" by (simp_all only: component_fold_ok)
    have missing: "\<not> (\<forall>n\<in>set component_names. find (\<lambda>e. comp_name e = n) es \<noteq> None)"
      using False fit by (simp add: components_agree_fit)
    let ?f = "\<lambda>n. find (\<lambda>e. comp_name e = n) es"
    have names: "scan_by_name s = [?f ''application'', ?f ''postgres'', ?f ''engine'', ?f ''ui'']"
      unfolding s by (simp add: component_scan_of_def component_names_def)
    have "?f ''application'' = None \<or> ?f ''postgres'' = None \<or> ?f ''engine'' = None \<or> ?f ''ui'' = None"
      using missing by (auto simp: component_names_def)
    then show ?thesis
      unfolding check_components_def Inr and_then.simps names
      by (elim disjE; simp split: option.split)
  qed

lemma check_components_ok:
  "check_components es = Ok c \<longleftrightarrow> components_agree es \<and> c = checked_components_of es"
  using check_components_accepts check_components_refuses [of es c] by (cases "components_agree es") auto

section \<open>Schemas\<close>

definition identity_ok :: "string \<Rightarrow> bool" where
  "identity_ok v \<longleftrightarrow> v \<noteq> [] \<and> length v \<le> 128 \<and> list_all identity_byte v"

lemma check_identity_ok: "check_identity v = Ok u \<longleftrightarrow> identity_ok v"
  by (auto simp: check_identity_def identity_ok_def up_max_id_bytes_def)

definition migration_ok :: "migration_claim \<Rightarrow> bool" where
  "migration_ok m \<longleftrightarrow> identity_ok (mig_name m) \<and> mig_checksum m \<noteq> None \<and> is_expand (mig_change m)"

definition checked_migration_of :: "migration_claim \<Rightarrow> checked_migration" where
  "checked_migration_of m = \<lparr>cm_name = mig_name m, cm_checksum = the (mig_checksum m), cm_change = mig_change m\<rparr>"

definition migrations_fit :: "migration_claim list \<Rightarrow> bool" where
  "migrations_fit ms \<longleftrightarrow> distinct (map mig_name ms) \<and> list_all migration_ok ms"

lemma migration_fold_ok:
  "try_fold migration_step ({}, []) ms = Ok s \<longleftrightarrow>
     migrations_fit ms \<and> s = (set (map mig_name ms), map checked_migration_of ms)"
proof -
  let ?state = "\<lambda>ms. (set (map mig_name ms), map checked_migration_of ms)"
  have "try_fold migration_step (?state []) ms = Ok s \<longleftrightarrow> migrations_fit ([] @ ms) \<and> s = ?state ([] @ ms)"
  proof (rule try_fold_tracks [where fits = migrations_fit])
    show "migration_step (?state pre) e = Ok t \<longleftrightarrow> migrations_fit (pre @ [e]) \<and> t = ?state (pre @ [e])"
      if "migrations_fit pre" for pre e t
      using that by (auto simp: migration_step_def and_then_ok check_identity_ok migrations_fit_def migration_ok_def
          checked_migration_of_def ok_or_ok)
    show "migrations_fit pre" if "migrations_fit (pre @ es)" for pre es
      using that by (simp add: migrations_fit_def)
  qed (simp add: migrations_fit_def)
  then show ?thesis by simp
qed

definition schema_ok :: "schema_inventory_claim \<Rightarrow> bool" where
  "schema_ok s \<longleftrightarrow> identity_ok (schema_scope s) \<and> schema_checksum s \<noteq> None
     \<and> schema_migrations s \<noteq> [] \<and> length (schema_migrations s) \<le> 256 \<and> migrations_fit (schema_migrations s)"

definition checked_schema_of :: "schema_inventory_claim \<Rightarrow> checked_schema" where
  "checked_schema_of s = \<lparr>cs_scope = schema_scope s, cs_checksum = the (schema_checksum s),
     cs_migrations = map checked_migration_of (schema_migrations s)\<rparr>"

lemma check_schema_ok: "check_schema claim = Ok s \<longleftrightarrow> schema_ok claim \<and> s = checked_schema_of claim"
  by (auto simp: check_schema_def and_then_ok check_identity_ok schema_ok_def identity_ok_def up_max_migrations_def
      migration_fold_ok checked_schema_of_def ok_or_ok split: prod.splits)

lemma checked_migrations_prefix:
  assumes "migrations_fit xs" "migrations_fit ys"
  shows "prefix (map checked_migration_of xs) (map checked_migration_of ys) \<longleftrightarrow> prefix xs ys"
proof
  assume "prefix (map checked_migration_of xs) (map checked_migration_of ys)"
  then have "map checked_migration_of (take (length xs) ys) = map checked_migration_of xs"
    by (auto simp: prefix_def take_map [symmetric])
  moreover have "inj_on checked_migration_of (set (take (length xs) ys) \<union> set xs)"
  proof (rule inj_onI)
    fix m n
    assume "m \<in> set (take (length xs) ys) \<union> set xs" "n \<in> set (take (length xs) ys) \<union> set xs"
      and eq: "checked_migration_of m = checked_migration_of n"
    then have "migration_ok m" "migration_ok n"
      using assms by (auto simp: migrations_fit_def list_all_iff dest: in_set_takeD)
    with eq show "m = n"
      by (auto simp: migration_ok_def checked_migration_of_def intro!: migration_claim.equality)
  qed
  ultimately have "take (length xs) ys = xs" by (rule map_inj_on)
  then show "prefix xs ys" by (metis take_is_prefix)
qed (rule map_mono_prefix)

lemma assert_prefix_ok:
  "assert_prefix a b = Ok u \<longleftrightarrow> prefix (cs_migrations a) (cs_migrations b)
     \<and> list_all (\<lambda>m. is_expand (cm_change m)) (drop (length (cs_migrations a)) (cs_migrations b))"
proof -
  have pair: "pair_check p = Ok () \<longleftrightarrow> fst p = snd p" for p
    by (auto simp: pair_check_def split: prod.splits intro!: checked_migration.equality)
  have zip: "length xs \<le> length ys \<Longrightarrow> (\<forall>p\<in>set (zip xs ys). fst p = snd p) \<longleftrightarrow> prefix xs ys"
    for xs ys :: "checked_migration list"
  proof (induction xs arbitrary: ys)
    case (Cons x xs)
    then show ?case by (cases ys) auto
  qed simp
  show ?thesis
  proof (cases "length (cs_migrations a) \<le> length (cs_migrations b)")
    case True
    then show ?thesis
      by (simp add: assert_prefix_def and_then_ok checks_ok pair zip list_all_iff) auto
  next
    case False
    then show ?thesis by (auto simp: assert_prefix_def dest: prefix_length_le)
  qed
qed

text \<open>A later schema repeats the migrations of an earlier one and adds to them, and its checksum is a new
  one exactly when it adds any.\<close>

definition schema_extends :: "schema_inventory_claim \<Rightarrow> schema_inventory_claim \<Rightarrow> bool" where
  "schema_extends earlier later \<longleftrightarrow>
     schema_scope earlier = schema_scope later \<and> prefix (schema_migrations earlier) (schema_migrations later)
     \<and> (schema_checksum earlier = schema_checksum later \<longleftrightarrow> schema_migrations earlier = schema_migrations later)"

lemma check_schema_relationship_ok:
  assumes "schema_ok r" "schema_ok c"
  shows "check_schema_relationship intent (checked_schema_of r) (checked_schema_of c) = Ok u \<longleftrightarrow>
    (if intent = EmergencyRollback then schema_extends c r else schema_extends r c)"
proof -
  have rel: "assert_prefix (checked_schema_of x) (checked_schema_of y) = Ok v
      \<longleftrightarrow> prefix (schema_migrations x) (schema_migrations y)" if "schema_ok x" "schema_ok y" for x y v
  proof -
    have "list_all (\<lambda>m. is_expand (cm_change m)) (cs_migrations (checked_schema_of y))"
      using that(2) by (auto simp: schema_ok_def migrations_fit_def checked_schema_of_def list_all_iff
          checked_migration_of_def migration_ok_def)
    then have "list_all (\<lambda>m. is_expand (cm_change m)) (drop n (cs_migrations (checked_schema_of y)))" for n
      by (auto simp: list_all_iff dest: in_set_dropD)
    with that show ?thesis
      by (simp add: assert_prefix_ok checked_schema_of_def checked_migrations_prefix schema_ok_def)
  qed
  have same: "prefix xs ys \<Longrightarrow> length xs = length ys \<longleftrightarrow> xs = ys" for xs ys :: "migration_claim list"
    by (auto simp: prefix_def)
  have sums: "the (schema_checksum r) = the (schema_checksum c) \<longleftrightarrow> schema_checksum r = schema_checksum c"
    using assms by (auto simp: schema_ok_def)
  let ?R = "checked_schema_of r" and ?C = "checked_schema_of c"
  have relation: "check_schema_relationship intent ?R ?C = Ok u \<longleftrightarrow>
      cs_scope ?R = cs_scope ?C
      \<and> (if intent = EmergencyRollback then assert_prefix ?C ?R = Ok () else assert_prefix ?R ?C = Ok ())
      \<and> (length (cs_migrations ?R) = length (cs_migrations ?C) \<longleftrightarrow> cs_checksum ?R = cs_checksum ?C)"
    by (cases intent) (simp_all add: check_schema_relationship_def and_then_ok)
  have fields: "cs_scope (checked_schema_of s) = schema_scope s"
      "length (cs_migrations (checked_schema_of s)) = length (schema_migrations s)"
      "cs_checksum (checked_schema_of s) = the (schema_checksum s)" for s
    by (simp_all add: checked_schema_of_def)
  show ?thesis
    unfolding relation fields rel [OF assms] rel [OF assms(2,1)] sums schema_extends_def
    using same [of "schema_migrations r" "schema_migrations c"] same [of "schema_migrations c" "schema_migrations r"]
    by (cases "intent = EmergencyRollback"; simp only: if_True if_False; metis)
qed

section \<open>Snapshots\<close>

definition startup_ok :: "startup_facts \<Rightarrow> u32 \<Rightarrow> bool" where
  "startup_ok f epoch \<longleftrightarrow>
     su_protocol f \<noteq> 0 \<and> su_sidecar_protocol f = su_protocol f \<and> su_release_epoch f \<noteq> 0 \<and> su_release_epoch f = epoch
     \<and> su_minimum_compatible_core f \<noteq> 0
     \<and> (\<exists>lo hi. su_compatibility_range f = RangeInclusive lo hi \<and> lo \<le> su_minimum_compatible_core f
          \<and> su_minimum_compatible_core f \<le> su_core_identity f \<and> su_core_identity f \<le> hi)"

lemma check_startup_ok: "check_startup f epoch = Ok u \<longleftrightarrow> startup_ok f epoch"
proof (cases "su_compatibility_range f")
  case (RangeInclusive lo hi)
  let ?m = "su_minimum_compatible_core f" and ?i = "su_core_identity f"
  have order: "lo \<le> ?m \<Longrightarrow> ?m \<le> ?i \<Longrightarrow> ?i \<le> hi \<Longrightarrow> lo \<le> ?i \<and> lo \<le> hi"
    by (meson order_trans)
  have zero: "?m \<noteq> 0 \<Longrightarrow> ?m \<le> ?i \<Longrightarrow> ?i \<noteq> 0" by auto
  show ?thesis
    unfolding check_startup_def startup_ok_def RangeInclusive compatibility_range.case if_err_ok de_Morgan_disj not_less
    using order zero by auto
qed (auto simp: check_startup_def startup_ok_def)

definition restore_format_ok :: "restore_format_claim \<Rightarrow> bool" where
  "restore_format_ok f \<longleftrightarrow> identity_ok (rf_format_id f)
     \<and> (case rf_compatible_previous f of
          PreviousUnknown \<Rightarrow> False | PreviousNone \<Rightarrow> True | PreviousIdentified p \<Rightarrow> identity_ok p)"

definition checked_restore_format_of :: "restore_format_claim \<Rightarrow> checked_restore_format" where
  "checked_restore_format_of f = \<lparr>cf_format_id = rf_format_id f,
     cf_previous = (case rf_compatible_previous f of PreviousIdentified p \<Rightarrow> CheckedIdentified p | _ \<Rightarrow> CheckedNone)\<rparr>"

lemma check_restore_format_claim_ok:
  "check_restore_format_claim f = Ok c \<longleftrightarrow> restore_format_ok f \<and> c = checked_restore_format_of f"
  by (auto simp: check_restore_format_claim_def and_then_ok check_identity_ok restore_format_ok_def
      checked_restore_format_of_def split: compatible_previous_claim.splits)

definition checked_build_of :: "restore_build_claim \<Rightarrow> checked_restore_build" where
  "checked_build_of b = \<lparr>cb_format_id = rb_format_id b, cb_described_runnable = rb_described_runnable b\<rparr>"

definition snapshot_ok :: "release_snapshot \<Rightarrow> bool" where
  "snapshot_ok s \<longleftrightarrow>
     components_agree (snap_components s)
     \<and> major_rust_core (snap_majors s) \<noteq> 0 \<and> major_tauri (snap_majors s) \<noteq> 0
     \<and> major_electron (snap_majors s) \<noteq> 0 \<and> major_postgres (snap_majors s) \<noteq> 0
     \<and> startup_ok (snap_startup s) (comp_epoch (hd (snap_components s)))
     \<and> schema_ok (snap_schema s) \<and> restore_format_ok (snap_restore_format s)
     \<and> (case snap_restore_build s of
          None \<Rightarrow> True
        | Some b \<Rightarrow> rb_format_id b = rf_format_id (snap_restore_format s) \<and> rb_described_runnable b)"

definition checked_of :: "release_snapshot \<Rightarrow> checked_snapshot" where
  "checked_of s = \<lparr>ck_core_identity = su_core_identity (snap_startup s),
     ck_components = checked_components_of (snap_components s), ck_majors = snap_majors s,
     ck_schema = checked_schema_of (snap_schema s), ck_restore_format = checked_restore_format_of (snap_restore_format s),
     ck_restore_build = map_option checked_build_of (snap_restore_build s), ck_writer = snap_writer s\<rparr>"

lemma check_snapshot_ok: "check_snapshot s = Ok c \<longleftrightarrow> snapshot_ok s \<and> c = checked_of s"
proof -
  have majors: "check_majors m = Ok u \<longleftrightarrow> major_rust_core m \<noteq> 0 \<and> major_tauri m \<noteq> 0 \<and> major_electron m \<noteq> 0
      \<and> major_postgres m \<noteq> 0" for m u
    by (auto simp: check_majors_def)
  have build: "(case snap_restore_build s of None \<Rightarrow> Ok None
        | Some build \<Rightarrow> and_then (check_restore_build build) (\<lambda>b. Ok (Some b))) = Ok x
      \<longleftrightarrow> pred_option (\<lambda>b. identity_ok (rb_format_id b)) (snap_restore_build s)
          \<and> x = map_option checked_build_of (snap_restore_build s)" for x
    by (cases "snap_restore_build s")
      (auto simp: check_restore_build_def and_then_ok check_identity_ok checked_build_of_def)
  have guard: "(case map_option checked_build_of (snap_restore_build s) of
         None \<Rightarrow> Ok ()
       | Some b \<Rightarrow>
           if cb_format_id b \<noteq> cf_format_id (checked_restore_format_of f) then Err UpRestoreBuildFormatMismatch
           else if \<not> cb_described_runnable b then Err UpRestoreBuildMissing
           else Ok ()) = Ok u
      \<longleftrightarrow> (case snap_restore_build s of None \<Rightarrow> True
           | Some b \<Rightarrow> rb_format_id b = rf_format_id f \<and> rb_described_runnable b)" for f u
    by (cases "snap_restore_build s") (simp_all add: checked_build_of_def checked_restore_format_of_def)
  have implied: "restore_format_ok f \<Longrightarrow> (case snap_restore_build s of None \<Rightarrow> True
           | Some b \<Rightarrow> rb_format_id b = rf_format_id f \<and> rb_described_runnable b) \<Longrightarrow>
      pred_option (\<lambda>b. identity_ok (rb_format_id b)) (snap_restore_build s)" for f
    by (cases "snap_restore_build s") (auto simp: restore_format_ok_def)
  have epoch: "cc_epoch (checked_components_of es) = comp_epoch (hd es)" for es
    by (simp add: checked_components_of_def)
  show ?thesis
    unfolding check_snapshot_def and_then_ok check_components_ok majors check_startup_ok check_schema_ok
      check_restore_format_claim_ok build snapshot_ok_def checked_of_def
    using implied [of "snap_restore_format s"]
    by (auto simp: guard epoch simp del: case_map_option)
qed

section \<open>What a preflight accepts\<close>

lemma component_named_found:
  assumes "components_agree es" "n \<in> set component_names"
  shows "component_named es n \<in> set es" "comp_name (component_named es n) = n"
proof -
  have "find (\<lambda>e. comp_name e = n) es = Some (component_named es n)"
    using assms by (auto simp: components_agree_fit component_named_def)
  then show "component_named es n \<in> set es" "comp_name (component_named es n) = n"
    by (auto simp: find_Some_iff)
qed

lemma component_named_unique:
  assumes "components_agree es" "e \<in> set es"
  shows "comp_name e \<in> set component_names \<and> component_named es (comp_name e) = e"
proof -
  have name: "comp_name e \<in> set component_names"
    using assms by (auto simp: components_agree_fit components_fit_def)
  have "inj_on comp_name (set es)" using assms(1) by (simp add: components_agree_def distinct_map)
  then show ?thesis
    using component_named_found [OF assms(1) name] assms(2) name by (metis inj_onD)
qed

lemma same_components:
  assumes "components_agree es" "components_agree ds"
  shows "cc_set (checked_components_of es) = cc_set (checked_components_of ds) \<longleftrightarrow> set es = set ds"
proof -
  have "cc_set (checked_components_of es) = cc_set (checked_components_of ds)
      \<longleftrightarrow> (\<forall>n\<in>set component_names. component_named es n = component_named ds n)"
    by (simp add: checked_components_of_def component_names_def)
  also have "\<dots> \<longleftrightarrow> set es = set ds"
  proof
    assume same: "\<forall>n\<in>set component_names. component_named es n = component_named ds n"
    have "xs \<subseteq> ys" if "xs = set as" "ys = set bs" "components_agree as" "components_agree bs"
      "\<forall>n\<in>set component_names. component_named as n = component_named bs n" for xs ys as bs
      using that component_named_unique component_named_found(1) by (metis subsetI)
    from this [OF refl refl assms same] this [OF refl refl assms(2,1)] same show "set es = set ds" by simp
  next
    assume "set es = set ds"
    then show "\<forall>n\<in>set component_names. component_named es n = component_named ds n"
      using assms component_named_found component_named_unique by metis
  qed
  finally show ?thesis .
qed

definition format_of :: "release_snapshot \<Rightarrow> string" where
  "format_of s = rf_format_id (snap_restore_format s)"

text \<open>A candidate with another restore format names the running format as its compatible predecessor, or
  it has none and brings a build for its own format.\<close>

definition restore_switch_ok :: "release_snapshot \<Rightarrow> release_snapshot \<Rightarrow> bool" where
  "restore_switch_ok r c \<longleftrightarrow>
     rf_compatible_previous (snap_restore_format c) = PreviousIdentified (format_of r)
     \<or> rf_compatible_previous (snap_restore_format c) = PreviousNone \<and> snap_restore_build c \<noteq> None"

definition forward :: "release_snapshot \<Rightarrow> release_snapshot \<Rightarrow> bool" where
  "forward r c \<longleftrightarrow>
     su_core_identity (snap_startup r) \<le> su_core_identity (snap_startup c)
     \<and> su_release_epoch (snap_startup r) \<le> su_release_epoch (snap_startup c)
     \<and> major_rust_core (snap_majors r) \<le> major_rust_core (snap_majors c)
     \<and> major_tauri (snap_majors r) \<le> major_tauri (snap_majors c)
     \<and> major_electron (snap_majors r) \<le> major_electron (snap_majors c)
     \<and> major_postgres (snap_majors r) \<le> major_postgres (snap_majors c)
     \<and> (major_postgres (snap_majors r) \<noteq> major_postgres (snap_majors c) \<longrightarrow>
          major_tauri (snap_majors r) = major_tauri (snap_majors c)
          \<and> major_electron (snap_majors r) = major_electron (snap_majors c))"

definition backward :: "release_snapshot \<Rightarrow> release_snapshot \<Rightarrow> bool" where
  "backward r c \<longleftrightarrow>
     snap_writer r = RustNative
     \<and> su_core_identity (snap_startup c) \<le> su_core_identity (snap_startup r)
     \<and> su_release_epoch (snap_startup c) \<le> su_release_epoch (snap_startup r)
     \<and> major_rust_core (snap_majors c) \<le> major_rust_core (snap_majors r)
     \<and> major_tauri (snap_majors c) = major_tauri (snap_majors r)
     \<and> major_electron (snap_majors c) = major_electron (snap_majors r)
     \<and> major_postgres (snap_majors c) = major_postgres (snap_majors r)
     \<and> \<not> (su_release_epoch (snap_startup c) = su_release_epoch (snap_startup r)
          \<and> snap_majors c = snap_majors r \<and> set (snap_components c) = set (snap_components r))
     \<and> (format_of c = format_of r
          \<or> rf_compatible_previous (snap_restore_format r) = PreviousIdentified (format_of c))"

definition preflight_accepts :: "upgrade_request \<Rightarrow> bool" where
  "preflight_accepts q \<longleftrightarrow>
     (let r = up_running q; c = up_candidate q in
      snapshot_ok r \<and> snapshot_ok c \<and> snap_writer c = RustNative
      \<and> (case up_intent q of
           EmergencyRollback \<Rightarrow>
             schema_extends (snap_schema c) (snap_schema r) \<and> backward r c
             \<and> rollback_authorization_described (up_proof_claims q) \<and> up_previous_build q = Some c
             \<and> up_rollback_schema q = schema_checksum (snap_schema r)
         | intent \<Rightarrow>
             schema_extends (snap_schema r) (snap_schema c) \<and> forward r c
             \<and> (intent = RestoreFormatSwitch \<longrightarrow> format_of r \<noteq> format_of c)
             \<and> (format_of r \<noteq> format_of c \<longrightarrow> restore_switch_ok r c)
             \<and> up_previous_build q = None \<and> up_rollback_schema q = None))"

definition needs_restore_build :: "upgrade_request \<Rightarrow> bool" where
  "needs_restore_build q \<longleftrightarrow>
     up_intent q \<noteq> EmergencyRollback \<and> format_of (up_running q) \<noteq> format_of (up_candidate q)
     \<and> snap_restore_build (up_candidate q) \<noteq> None"

definition upgrade_actions :: "upgrade_request \<Rightarrow> pending_action list" where
  "upgrade_actions q =
     [VerifySignatures, Notarize]
     @ (if up_intent q = EmergencyRollback then [VerifyRollbackAuthorization] else [])
     @ [VerifyResourceIntegrity]
     @ (if length (schema_migrations (snap_schema (up_running q))) < length (schema_migrations (snap_schema (up_candidate q)))
        then [ApplyExpandMigrations] else [])
     @ (if major_postgres (snap_majors (up_running q)) < major_postgres (snap_majors (up_candidate q))
        then [PostgresMajorUpgrade] else [])
     @ (if needs_restore_build q then [VerifyRestoreBuild] else [])
     @ [AtomicSwitch]"

definition upgrade_plan_of :: "upgrade_request \<Rightarrow> upgrade_plan" where
  "upgrade_plan_of q =
     \<lparr>plan_running = up_running q, plan_candidate = up_candidate q, plan_previous_build = up_previous_build q,
      plan_rollback_schema = up_rollback_schema q, plan_intent = up_intent q,
      plan_pending_actions = upgrade_actions q,
      plan_pending_proofs = proofs_for_plan (up_intent q) (needs_restore_build q)\<rparr>"

lemma check_restore_format_ok:
  assumes "snapshot_ok r" "snapshot_ok c"
  shows "check_restore_format intent (format_of r \<noteq> format_of c) (checked_of r) (checked_of c) = Ok b \<longleftrightarrow>
    (if intent = EmergencyRollback then \<not> b
     else (intent = RestoreFormatSwitch \<longrightarrow> format_of r \<noteq> format_of c)
       \<and> (format_of r \<noteq> format_of c \<longrightarrow> restore_switch_ok r c)
       \<and> (b \<longleftrightarrow> format_of r \<noteq> format_of c \<and> snap_restore_build c \<noteq> None))"
proof -
  have format: "cf_format_id (ck_restore_format (checked_of s)) = format_of s" for s
    by (simp add: checked_of_def checked_restore_format_of_def format_of_def)
  have previous: "cf_previous (ck_restore_format (checked_of c)) =
      (case rf_compatible_previous (snap_restore_format c) of PreviousIdentified p \<Rightarrow> CheckedIdentified p | _ \<Rightarrow> CheckedNone)"
    by (simp add: checked_of_def checked_restore_format_of_def)
  have known: "rf_compatible_previous (snap_restore_format c) \<noteq> PreviousUnknown"
    using assms(2) by (auto simp: snapshot_ok_def restore_format_ok_def)
  show ?thesis
  proof (cases "snap_restore_build c")
    case None
    then have build: "ck_restore_build (checked_of c) = None" by (simp add: checked_of_def)
    show ?thesis
      using known None unfolding check_restore_format_def format previous build restore_switch_ok_def
      by (cases "rf_compatible_previous (snap_restore_format c)") (auto simp: if_err_ok)
  next
    case (Some d)
    then have build: "ck_restore_build (checked_of c) = Some (checked_build_of d)"
      and d: "cb_format_id (checked_build_of d) = format_of c" "cb_described_runnable (checked_build_of d)"
      using assms(2) by (auto simp: checked_of_def snapshot_ok_def checked_build_of_def format_of_def)
    show ?thesis
      using known Some d unfolding check_restore_format_def format previous build restore_switch_ok_def
      by (cases "rf_compatible_previous (snap_restore_format c)") (auto simp: if_err_ok)
  qed
qed

lemma check_direction_ok:
  assumes "snapshot_ok r" "snapshot_ok c"
  shows "check_direction intent (checked_of r) (checked_of c) = Ok u \<longleftrightarrow>
    (if intent = EmergencyRollback then backward r c else forward r c)"
proof -
  have facts: "ck_core_identity (checked_of s) = su_core_identity (snap_startup s)" "ck_majors (checked_of s) = snap_majors s"
      "ck_writer (checked_of s) = snap_writer s" "cf_format_id (ck_restore_format (checked_of s)) = format_of s" for s
    by (simp_all add: checked_of_def checked_restore_format_of_def format_of_def)
  have epoch: "cc_epoch (ck_components (checked_of s)) = su_release_epoch (snap_startup s)" if "snapshot_ok s" for s
    using that by (simp add: checked_of_def checked_components_of_def snapshot_ok_def startup_ok_def)
  have previous: "cf_previous (ck_restore_format (checked_of r)) = CheckedIdentified f
      \<longleftrightarrow> rf_compatible_previous (snap_restore_format r) = PreviousIdentified f" for f
    by (simp add: checked_of_def checked_restore_format_of_def split: compatible_previous_claim.split)
  have sets: "cc_set (ck_components (checked_of c)) = cc_set (ck_components (checked_of r))
      \<longleftrightarrow> set (snap_components c) = set (snap_components r)"
    using assms same_components by (simp add: checked_of_def snapshot_ok_def)
  note unfolded = check_direction_def Let_def facts epoch [OF assms(1)] epoch [OF assms(2)] previous sets
  show ?thesis
  proof (cases "intent = EmergencyRollback")
    case True
    show ?thesis
      unfolding unfolded True backward_def by (simp add: if_err_ok not_less) blast
  next
    case False
    then show ?thesis
      unfolding unfolded forward_def by (simp add: if_err_ok not_less) auto
  qed
qed

lemma pending_actions_listed:
  "filter (\<lambda>a. a \<in> pending_action_set (up_intent q) (checked_of (up_running q)) (checked_of (up_candidate q))
       (needs_restore_build q)) all_pending_actions = upgrade_actions q"
  by (simp add: pending_action_set_def all_pending_actions_def upgrade_actions_def checked_of_def checked_schema_of_def)

lemma few_actions: "card (A :: pending_action set) \<le> 8"
proof -
  have "A \<subseteq> set all_pending_actions"
  proof
    fix a show "a \<in> set all_pending_actions" by (cases a) (simp_all add: all_pending_actions_def)
  qed
  then have "card A \<le> card (set all_pending_actions)" by (intro card_mono) simp_all
  also have "\<dots> = 8" by (simp add: all_pending_actions_def)
  finally show ?thesis .
qed

lemma plan_upgrade_preflight_ok: "plan_upgrade_preflight q = Ok p \<longleftrightarrow> preflight_accepts q \<and> p = upgrade_plan_of q"
proof -
  let ?r = "up_running q" and ?c = "up_candidate q"
  have fields: "ck_writer (checked_of s) = snap_writer s" "ck_schema (checked_of s) = checked_schema_of (snap_schema s)"
      "cf_format_id (ck_restore_format (checked_of s)) = format_of s" for s
    by (simp_all add: checked_of_def checked_restore_format_of_def format_of_def)
  have rollback: "rollback_check q = Ok u \<longleftrightarrow>
      (if up_intent q = EmergencyRollback
       then up_previous_build q = Some ?c \<and> snap_writer ?c = RustNative
         \<and> up_rollback_schema q = schema_checksum (snap_schema ?r)
       else up_previous_build q = None \<and> up_rollback_schema q = None)" for u
    by (auto simp: rollback_check_def and_then_ok ok_or_ok)
  have actions: "\<not> up_max_pending_actions < card A" for A :: "pending_action set"
    using few_actions [of A] by (simp add: up_max_pending_actions_def)
  show ?thesis
  proof (cases "snapshot_ok ?r \<and> snapshot_ok ?c")
    case True
    then have ok: "snapshot_ok ?r" "snapshot_ok ?c" by blast+
    have schemas: "schema_ok (snap_schema ?r)" "schema_ok (snap_schema ?c)" using ok by (simp_all add: snapshot_ok_def)
    have checked: "check_snapshot ?r = Ok (checked_of ?r)" "check_snapshot ?c = Ok (checked_of ?c)"
      using ok by (simp_all add: check_snapshot_ok)
    let ?plan = "\<lambda>b. \<lparr>plan_running = ?r, plan_candidate = ?c, plan_previous_build = up_previous_build q,
      plan_rollback_schema = up_rollback_schema q, plan_intent = up_intent q,
      plan_pending_actions = filter (\<lambda>a. a \<in> pending_action_set (up_intent q) (checked_of ?r) (checked_of ?c) b)
        all_pending_actions,
      plan_pending_proofs = proofs_for_plan (up_intent q) b\<rparr>"
    have plan: "?plan (needs_restore_build q) = upgrade_plan_of q"
      unfolding pending_actions_listed upgrade_plan_of_def ..
    have "plan_upgrade_preflight q = Ok p \<longleftrightarrow>
        snap_writer ?c = RustNative
        \<and> (if up_intent q = EmergencyRollback then schema_extends (snap_schema ?c) (snap_schema ?r)
           else schema_extends (snap_schema ?r) (snap_schema ?c))
        \<and> (if up_intent q = EmergencyRollback then backward ?r ?c else forward ?r ?c)
        \<and> (up_intent q = EmergencyRollback \<longrightarrow> rollback_authorization_described (up_proof_claims q))
        \<and> (\<exists>u. rollback_check q = Ok u)
        \<and> (\<exists>b. check_restore_format (up_intent q) (format_of ?r \<noteq> format_of ?c) (checked_of ?r) (checked_of ?c) = Ok b
              \<and> p = ?plan b)"
      unfolding plan_upgrade_preflight_def checked and_then.simps Let_def if_err_ok and_then_ok fields
        check_schema_relationship_ok [OF schemas] check_direction_ok [OF ok]
      using actions by auto
    also have "\<dots> \<longleftrightarrow> preflight_accepts q \<and> p = ?plan (needs_restore_build q)"
      unfolding check_restore_format_ok [OF ok] rollback preflight_accepts_def needs_restore_build_def Let_def
      using ok by (cases "up_intent q") auto
    finally show ?thesis unfolding plan .
  next
    case False
    then have "plan_upgrade_preflight q \<noteq> Ok p"
      by (auto simp: plan_upgrade_preflight_def and_then_ok check_snapshot_ok)
    moreover have "\<not> preflight_accepts q" using False by (auto simp: preflight_accepts_def Let_def)
    ultimately show ?thesis by blast
  qed
qed

section \<open>Properties\<close>

text \<open>C34: The preflight accepts exactly the requests whose two snapshots are sound and related as the
  intent demands: an upgrade or a format switch moves forward over the same schema history, never
  carries a database major together with a shell major, and knows the restore format it replaces; an
  emergency rollback moves back to the very previous build over a history it shares, with a described
  authorization. The plan it answers is a function of the request.\<close>

theorem upgrade_planned_exactly:
  "plan_upgrade_preflight q = Ok p \<longleftrightarrow> preflight_accepts q \<and> p = upgrade_plan_of q"
  by (rule plan_upgrade_preflight_ok)

text \<open>An accepted plan begins with the signatures and ends with the switch, it authorises nothing
  itself, and going back is the mirror image of going forward: the migrations of the older side are a
  prefix of the newer side's, no identity, epoch or major goes down without an emergency rollback, and an
  accepted emergency rollback lists the check of its authorization.\<close>

theorem accepted_preflight_is_safe:
  assumes "plan_upgrade_preflight q = Ok p"
  shows "hd (plan_pending_actions p) = VerifySignatures \<and> last (plan_pending_actions p) = AtomicSwitch
    \<and> pp_install_authorized (plan_pending_proofs p) = NotGranted
    \<and> pp_rollback_authorized (plan_pending_proofs p) = NotGranted
    \<and> pp_restore_authorized (plan_pending_proofs p) = NotGranted
    \<and> (VerifyRollbackAuthorization \<in> set (plan_pending_actions p) \<longleftrightarrow> plan_intent p = EmergencyRollback)
    \<and> (let older = (if plan_intent p = EmergencyRollback then plan_candidate p else plan_running p);
           newer = (if plan_intent p = EmergencyRollback then plan_running p else plan_candidate p) in
       prefix (schema_migrations (snap_schema older)) (schema_migrations (snap_schema newer))
       \<and> su_core_identity (snap_startup older) \<le> su_core_identity (snap_startup newer)
       \<and> su_release_epoch (snap_startup older) \<le> su_release_epoch (snap_startup newer)
       \<and> major_rust_core (snap_majors older) \<le> major_rust_core (snap_majors newer)
       \<and> major_postgres (snap_majors older) \<le> major_postgres (snap_majors newer))"
proof -
  have ok: "preflight_accepts q" and p: "p = upgrade_plan_of q"
    using assms by (simp_all add: plan_upgrade_preflight_ok)
  have "hd (upgrade_actions q) = VerifySignatures \<and> last (upgrade_actions q) = AtomicSwitch
      \<and> (VerifyRollbackAuthorization \<in> set (upgrade_actions q) \<longleftrightarrow> up_intent q = EmergencyRollback)"
    by (simp add: upgrade_actions_def)
  moreover have "pp_install_authorized (proofs_for_plan i b) = NotGranted \<and> pp_rollback_authorized (proofs_for_plan i b) = NotGranted
      \<and> pp_restore_authorized (proofs_for_plan i b) = NotGranted" for i b
    by (simp add: proofs_for_plan_def)
  ultimately show ?thesis
    using ok unfolding p preflight_accepts_def Let_def
    by (cases "up_intent q") (simp_all add: upgrade_plan_of_def schema_extends_def forward_def backward_def)
qed

definition example_release :: "u32 \<Rightarrow> migration_claim list \<Rightarrow> digest \<Rightarrow> writer_kind \<Rightarrow> release_snapshot" where
  "example_release epoch migrations checksum writer =
     \<lparr>snap_components =
        [\<lparr>comp_name = ''ui'', comp_epoch = epoch, comp_digest = 1\<rparr>, \<lparr>comp_name = ''application'', comp_epoch = epoch, comp_digest = 2\<rparr>,
         \<lparr>comp_name = ''engine'', comp_epoch = epoch, comp_digest = 3\<rparr>, \<lparr>comp_name = ''postgres'', comp_epoch = epoch, comp_digest = 4\<rparr>],
      snap_majors = \<lparr>major_rust_core = 1, major_tauri = 2, major_electron = 3, major_postgres = 18\<rparr>,
      snap_startup = \<lparr>su_protocol = 4, su_sidecar_protocol = 4, su_release_epoch = epoch, su_core_identity = 7,
        su_minimum_compatible_core = 6, su_compatibility_range = RangeInclusive 5 9\<rparr>,
      snap_schema = \<lparr>schema_scope = ''core'', schema_checksum = Some checksum, schema_migrations = migrations\<rparr>,
      snap_restore_format = \<lparr>rf_format_id = ''f1'', rf_compatible_previous = PreviousNone\<rparr>,
      snap_restore_build = None, snap_writer = writer\<rparr>"

definition example_migration :: "string \<Rightarrow> schema_change_kind \<Rightarrow> migration_claim" where
  "example_migration name change = \<lparr>mig_name = name, mig_checksum = Some 9, mig_change = change\<rparr>"

definition example_upgrade :: "release_snapshot \<Rightarrow> upgrade_request" where
  "example_upgrade candidate =
     \<lparr>up_intent = Upgrade, up_running = example_release 5 [example_migration ''m1'' NewTable] 1 RustNative,
      up_candidate = candidate, up_previous_build = None, up_rollback_schema = None,
      up_proof_claims = \<lparr>signature_described_valid = True, notarization_described_valid = True,
        rollback_authorization_described = False\<rparr>\<rparr>"

definition example_next_release :: release_snapshot where
  "example_next_release =
     example_release 6 [example_migration ''m1'' NewTable, example_migration ''m2'' Index] 2 RustNative"

lemmas identity_eval = identity_ok_def identity_byte_def is_ascii_alphanumeric_def is_ascii_lowercase_def
  is_ascii_digit_def

lemma example_snapshot_ok:
  assumes "epoch \<noteq> 0" "migrations_fit ms" "ms \<noteq> []" "length ms \<le> 256"
  shows "snapshot_ok (example_release epoch ms checksum writer)"
proof -
  have "identity_ok ''core''" "identity_ok ''f1''" by (simp_all add: identity_eval)
  moreover have "components_agree (snap_components (example_release epoch ms checksum writer))"
    using assms(1) by (auto simp: components_agree_def example_release_def)
  ultimately show ?thesis
    using assms by (simp add: snapshot_ok_def schema_ok_def restore_format_ok_def startup_ok_def example_release_def
        word_le_nat_alt)
qed

lemma example_migrations_fit:
  "migrations_fit [example_migration ''m1'' NewTable]"
  "migrations_fit [example_migration ''m1'' NewTable, example_migration ''m2'' Index]"
proof -
  have "identity_ok ''m1''" "identity_ok ''m2''" by (simp_all add: identity_eval)
  then show "migrations_fit [example_migration ''m1'' NewTable]"
    "migrations_fit [example_migration ''m1'' NewTable, example_migration ''m2'' Index]"
    by (simp_all add: migrations_fit_def migration_ok_def example_migration_def is_expand_def)
qed

lemma example_preflight_accepted: "preflight_accepts (example_upgrade example_next_release)"
proof -
  have "snapshot_ok (up_running (example_upgrade example_next_release))" "snapshot_ok example_next_release"
    by (simp_all add: example_upgrade_def example_next_release_def example_snapshot_ok example_migrations_fit)
  then show ?thesis
    by (simp add: preflight_accepts_def example_upgrade_def example_next_release_def example_release_def
        schema_extends_def forward_def format_of_def word_le_nat_alt)
qed

theorem accepted_preflight_is_safe_witness:
  "\<exists>p. plan_upgrade_preflight (example_upgrade example_next_release) = Ok p
     \<and> last (plan_pending_actions p) = AtomicSwitch \<and> ApplyExpandMigrations \<in> set (plan_pending_actions p)
     \<and> VerifyRollbackAuthorization \<notin> set (plan_pending_actions p)"
proof -
  let ?p = "upgrade_plan_of (example_upgrade example_next_release)"
  have p: "plan_upgrade_preflight (example_upgrade example_next_release) = Ok ?p"
    using example_preflight_accepted by (simp add: plan_upgrade_preflight_ok)
  have "ApplyExpandMigrations \<in> set (plan_pending_actions ?p)" "plan_intent ?p = Upgrade"
    by (simp_all add: upgrade_plan_of_def upgrade_actions_def example_upgrade_def example_next_release_def
        example_release_def)
  with accepted_preflight_is_safe [OF p] p show ?thesis by auto
qed

text \<open>The module's documentation lists the writer before the schema; the code checks the whole of both
  snapshots, schema included, before it looks at the candidate's writer.\<close>

lemma writer_checked_after_schema:
  "plan_upgrade_preflight (example_upgrade
     (example_release 6 [example_migration ''m1'' DropChange] 2 IntelligenceTypeScript)) = Err UpSchemaChangeNotExpand"
proof -
  let ?c = "example_release 6 [example_migration ''m1'' DropChange] 2 IntelligenceTypeScript"
  have r: "check_snapshot (up_running (example_upgrade ?c)) = Ok (checked_of (up_running (example_upgrade ?c)))"
    by (simp add: check_snapshot_ok example_upgrade_def example_snapshot_ok example_migrations_fit)
  have "components_agree (snap_components ?c)"
    by (auto simp: components_agree_def example_release_def)
  then have comps: "check_components (snap_components ?c) = Ok (checked_components_of (snap_components ?c))"
    by (simp add: check_components_ok)
  have identities: "check_identity ''core'' = Ok ()" "check_identity ''m1'' = Ok ()"
    by (simp_all add: check_identity_ok identity_eval)
  have schema: "check_schema (snap_schema ?c) = Err UpSchemaChangeNotExpand"
    by (simp add: check_schema_def example_release_def identities up_max_migrations_def migration_step_def
        example_migration_def is_expand_def)
  have "check_snapshot ?c = Err UpSchemaChangeNotExpand"
    unfolding check_snapshot_def comps and_then.simps schema
    by (simp add: check_majors_def check_startup_def example_release_def checked_components_of_def word_less_nat_alt)
  then show ?thesis
    using r by (simp add: plan_upgrade_preflight_def) (simp add: example_upgrade_def)
qed

end
