(* ===== verification/Artifact.thy ===== *)
theory Artifact
  imports StdModel Canonical
begin

text \<open>
  Stored artifacts, \<open>crates/openbot-domain/src/artifact.rs\<close> and \<open>artifact_cleanup.rs\<close>, with the
  identifiers and ceilings they take from \<open>crates/openbot-contracts/src/artifacts.rs\<close>: quotas projected
  over a sequence of registrations, provenance checks, references and text budgets of one turn, the
  canonical spelling of identifiers, and the fence that guards the clean-up of a lost artifact.
  \<open>usize\<close> is 64 bits wide; identifiers of deployments and tenants are their strings.
\<close>

section \<open>Identifiers and ceilings\<close>

definition max_artifact_bytes_const :: u64 where "max_artifact_bytes_const = 64 * 1024 * 1024"
definition max_run_artifacts_const :: u64 where "max_run_artifacts_const = 32"
definition max_workspace_artifact_bytes_const :: u64 where
  "max_workspace_artifact_bytes_const = 16 * 1024 * 1024 * 1024"
definition max_artifact_refs :: nat where "max_artifact_refs = 8"
definition max_artifact_text_bytes :: u64 where "max_artifact_text_bytes = 256 * 1024"
definition max_artifact_total_text_bytes :: u64 where "max_artifact_total_text_bytes = 1024 * 1024"
definition max_artifact_identity_bytes :: nat where "max_artifact_identity_bytes = 512"

definition is_valid_artifact_identity :: "string \<Rightarrow> bool" where
  "is_valid_artifact_identity s \<longleftrightarrow>
     s \<noteq> [] \<and> length s \<le> max_artifact_identity_bytes \<and> \<not> list_ex is_control (chars s)"

definition is_ascii_hexdigit :: "char \<Rightarrow> bool" where
  "is_ascii_hexdigit c \<longleftrightarrow>
     is_ascii_digit c \<or> (97 \<le> (of_char c :: nat) \<and> (of_char c :: nat) \<le> 102)
     \<or> (65 \<le> (of_char c :: nat) \<and> (of_char c :: nat) \<le> 70)"

definition uuid_byte_ok :: "nat \<times> char \<Rightarrow> bool" where
  "uuid_byte_ok = (\<lambda>(index, byte).
     if index \<in> set [8, 13, 18, 23] then byte = CHR ''-'' else is_ascii_hexdigit byte)"

definition is_uuid_v7_artifact_id :: "string \<Rightarrow> bool" where
  "is_uuid_v7_artifact_id s \<longleftrightarrow>
     length s = 36 \<and> list_all uuid_byte_ok (enumerate 0 s)
     \<and> s ! 14 = CHR ''7'' \<and> to_ascii_lower (s ! 19) \<in> {CHR ''8'', CHR ''9'', CHR ''a'', CHR ''b''}"

text \<open>\<open>char::to_digit(16)\<close>.\<close>

definition to_digit16 :: "char \<Rightarrow> nat option" where
  "to_digit16 c =
     (if is_ascii_digit c then Some (of_char c - 48)
      else if 97 \<le> (of_char c :: nat) \<and> (of_char c :: nat) \<le> 102 then Some (of_char c - 87)
      else if 65 \<le> (of_char c :: nat) \<and> (of_char c :: nat) \<le> 70 then Some (of_char c - 55)
      else None)"

text \<open>The loop that fills \<open>n\<close> bytes from pairs of digits.\<close>

fun uuid_bytes :: "nat \<Rightarrow> string \<Rightarrow> bytes option" where
  "uuid_bytes 0 digits = Some []"
| "uuid_bytes (Suc n) (h # l # digits) =
     (case (to_digit16 h, to_digit16 l) of
        (Some high, Some low) \<Rightarrow>
          if high * 16 + low < 256 then map_option ((#) (of_nat (high * 16 + low))) (uuid_bytes n digits)
          else None
      | _ \<Rightarrow> None)"
| "uuid_bytes (Suc n) _ = None"

definition uuid_text :: "nat \<times> u8 \<Rightarrow> string" where
  "uuid_text = (\<lambda>(index, byte).
     (if index \<in> set [4, 6, 8, 10] then ''-'' else [])
     @ [hex_digits ! unat (drop_bit 4 byte), hex_digits ! unat (byte AND 15)])"

definition canonical_artifact_uuid_v7 :: "string \<Rightarrow> string option" where
  "canonical_artifact_uuid_v7 s =
     (if \<not> is_uuid_v7_artifact_id s then None
      else map_option (\<lambda>parsed. concat (map uuid_text (enumerate 0 parsed)))
             (uuid_bytes 16 (filter (\<lambda>byte. byte \<noteq> CHR ''-'') s)))"

datatype artifact_retention_class = RunOutput | ExplicitSaved

datatype artifact_gone_status = GoneDeleted | GoneExpired

fun artifact_gone_status_str :: "artifact_gone_status \<Rightarrow> string" where
  "artifact_gone_status_str GoneDeleted = ''deleted''"
| "artifact_gone_status_str GoneExpired = ''expired''"

section \<open>Registration\<close>

datatype artifact_invariant_error =
  InvalidOperationIdentity | ArtifactPolicyExceedsCeiling | RunPolicyExceedsCeiling
  | WorkspacePolicyExceedsCeiling | ArtifactByteLimitExceeded | RunCountOverflow | WorkspaceBytesOverflow
  | RunCountLimitExceeded | WorkspaceByteLimitExceeded | ToolSourceSequencesRequired
  | IncompleteSourceSequencePair | NegativeSourceSequence | UnexpectedSaveProvenance
  | IncompleteSaveProvenance | InvalidSavingActor | InvalidWorkspaceIdentity | ReferenceCountLimitExceeded
  | InvalidReference | DuplicateReference | TextCountLimitExceeded | TextByteLimitExceeded
  | TextTotalOverflow | TextTotalByteLimitExceeded

datatype artifact_save_operation_id = ArtifactSaveOperationId (operation_str: string)

definition save_operation_id_new :: "string \<Rightarrow> (artifact_invariant_error, artifact_save_operation_id) result" where
  "save_operation_id_new s =
     ok_or InvalidOperationIdentity (map_option ArtifactSaveOperationId (canonical_artifact_uuid_v7 s))"

datatype artifact_workspace_kind = WorkspaceChannel | WorkspaceThread

fun artifact_workspace_kind_str :: "artifact_workspace_kind \<Rightarrow> string" where
  "artifact_workspace_kind_str WorkspaceChannel = ''channel''"
| "artifact_workspace_kind_str WorkspaceThread = ''thread''"

record artifact_workspace_key =
  workspace_kind :: artifact_workspace_kind
  workspace_id :: string

definition workspace_key_new ::
  "artifact_workspace_kind \<Rightarrow> string \<Rightarrow> (artifact_invariant_error, artifact_workspace_key) result" where
  "workspace_key_new kind ident =
     (if \<not> is_valid_artifact_identity ident then Err InvalidWorkspaceIdentity
      else Ok \<lparr>workspace_kind = kind, workspace_id = ident\<rparr>)"

record artifact_quota_policy =
  max_artifact_bytes :: u64
  max_run_artifacts :: u64
  max_workspace_artifact_bytes :: u64

definition default_quota_policy :: artifact_quota_policy where
  "default_quota_policy =
     \<lparr>max_artifact_bytes = max_artifact_bytes_const, max_run_artifacts = max_run_artifacts_const,
      max_workspace_artifact_bytes = max_workspace_artifact_bytes_const\<rparr>"

definition quota_policy_new :: "u64 \<Rightarrow> u64 \<Rightarrow> u64 \<Rightarrow> (artifact_invariant_error, artifact_quota_policy) result" where
  "quota_policy_new artifact runs workspace =
     (if artifact > max_artifact_bytes_const then Err ArtifactPolicyExceedsCeiling
      else if runs > max_run_artifacts_const then Err RunPolicyExceedsCeiling
      else if workspace > max_workspace_artifact_bytes_const then Err WorkspacePolicyExceedsCeiling
      else Ok \<lparr>max_artifact_bytes = artifact, max_run_artifacts = runs, max_workspace_artifact_bytes = workspace\<rparr>)"

record artifact_projected_usage =
  run_identities :: u64
  workspace_charged_bytes :: u64

definition project_registration ::
  "artifact_quota_policy \<Rightarrow> u64 \<Rightarrow> u64 \<Rightarrow> u64 \<Rightarrow> (artifact_invariant_error, artifact_projected_usage) result" where
  "project_registration p current_run_identities current_workspace_charged_bytes new_bytes =
     (if new_bytes > max_artifact_bytes p then Err ArtifactByteLimitExceeded
      else and_then (ok_or RunCountOverflow (checked_add current_run_identities 1)) (\<lambda>runs.
           and_then (ok_or WorkspaceBytesOverflow (checked_add current_workspace_charged_bytes new_bytes)) (\<lambda>charged.
           if runs > max_run_artifacts p then Err RunCountLimitExceeded
           else if charged > max_workspace_artifact_bytes p then Err WorkspaceByteLimitExceeded
           else Ok \<lparr>run_identities = runs, workspace_charged_bytes = charged\<rparr>)))"

definition validate_artifact_source_sequences ::
  "bool \<Rightarrow> i64 option \<Rightarrow> i64 option \<Rightarrow> (artifact_invariant_error, unit) result" where
  "validate_artifact_source_sequences tool_produced call_seq attempt_seq =
     (case (call_seq, attempt_seq) of
        (None, None) \<Rightarrow> if tool_produced then Err ToolSourceSequencesRequired else Ok ()
      | (Some call, Some attempt) \<Rightarrow>
          if 0 \<le> sint call \<and> 0 \<le> sint attempt then Ok () else Err NegativeSourceSequence
      | _ \<Rightarrow> Err IncompleteSourceSequencePair)"

definition validate_artifact_save_provenance ::
  "artifact_retention_class \<Rightarrow> string option \<Rightarrow> instant option \<Rightarrow> (artifact_invariant_error, unit) result" where
  "validate_artifact_save_provenance class saved_by saved_at =
     (case (class, saved_by, saved_at) of
        (RunOutput, None, None) \<Rightarrow> Ok ()
      | (RunOutput, _, _) \<Rightarrow> Err UnexpectedSaveProvenance
      | (ExplicitSaved, Some actor, Some _) \<Rightarrow>
          if is_valid_artifact_identity actor then Ok () else Err InvalidSavingActor
      | (ExplicitSaved, _, _) \<Rightarrow> Err IncompleteSaveProvenance)"

text \<open>The loop carries \<open>refs[..index]\<close>, the references before the current one.\<close>

definition ref_step :: "string list \<Rightarrow> string \<Rightarrow> (artifact_invariant_error, string list) result" where
  "ref_step before ident =
     (if \<not> is_valid_artifact_identity ident then Err InvalidReference
      else if ident \<in> set before then Err DuplicateReference
      else Ok (before @ [ident]))"

definition validate_artifact_refs :: "string list \<Rightarrow> (artifact_invariant_error, unit) result" where
  "validate_artifact_refs refs =
     (if length refs > max_artifact_refs then Err ReferenceCountLimitExceeded
      else and_then (try_fold ref_step [] refs) (\<lambda>_. Ok ()))"

definition text_step :: "u64 \<Rightarrow> u64 \<Rightarrow> (artifact_invariant_error, u64) result" where
  "text_step acc len =
     (if len > max_artifact_text_bytes then Err TextByteLimitExceeded
      else and_then (ok_or TextTotalOverflow (checked_add acc len)) (\<lambda>t.
           if t > max_artifact_total_text_bytes then Err TextTotalByteLimitExceeded else Ok t))"

definition validate_artifact_text_budget :: "u64 list \<Rightarrow> (artifact_invariant_error, u64) result" where
  "validate_artifact_text_budget lens =
     (if length lens > max_artifact_refs then Err TextCountLimitExceeded
      else try_fold text_step 0 lens)"

section \<open>The clean-up fence\<close>

datatype artifact_cleanup_fence_error =
  FenceInvalidIdentity | FenceInvalidUuid | FenceInvalidTerminalStatus | FenceInvalidPhase | FenceInvalidTransition

record artifact_cleanup_fence_key =
  fence_deployment :: string
  fence_tenant :: string
  fence_dataset :: string
  fence_operation :: artifact_save_operation_id
  fence_artifact :: string

definition fence_key_new ::
  "string \<Rightarrow> string \<Rightarrow> string \<Rightarrow> artifact_save_operation_id \<Rightarrow> string
     \<Rightarrow> (artifact_cleanup_fence_error, artifact_cleanup_fence_key) result" where
  "fence_key_new deployment tenant dataset operation artifact =
     (if \<not> list_all is_valid_artifact_identity [deployment, tenant, dataset] then Err FenceInvalidIdentity
      else and_then (ok_or FenceInvalidUuid (canonical_artifact_uuid_v7 artifact)) (\<lambda>artifact.
        Ok \<lparr>fence_deployment = deployment, fence_tenant = tenant, fence_dataset = dataset,
            fence_operation = operation, fence_artifact = artifact\<rparr>))"

definition fence_key_from_stored ::
  "string \<Rightarrow> string \<Rightarrow> string \<Rightarrow> string \<Rightarrow> string
     \<Rightarrow> (artifact_cleanup_fence_error, artifact_cleanup_fence_key) result" where
  "fence_key_from_stored deployment tenant dataset operation artifact =
     (if canonical_artifact_uuid_v7 operation \<noteq> Some operation
         \<or> canonical_artifact_uuid_v7 artifact \<noteq> Some artifact then Err FenceInvalidUuid
      else and_then (map_sum (\<lambda>_. FenceInvalidUuid) id (save_operation_id_new operation)) (\<lambda>operation.
        fence_key_new deployment tenant dataset operation artifact))"

datatype artifact_cleanup_fence_phase = Armed | FenceCompleted

definition fence_phase_from_stored :: "string \<Rightarrow> (artifact_cleanup_fence_error, artifact_cleanup_fence_phase) result" where
  "fence_phase_from_stored s =
     (if s = ''armed'' then Ok Armed else if s = ''completed'' then Ok FenceCompleted else Err FenceInvalidPhase)"

fun fence_phase_str :: "artifact_cleanup_fence_phase \<Rightarrow> string" where
  "fence_phase_str Armed = ''armed''"
| "fence_phase_str FenceCompleted = ''completed''"

definition permits :: "artifact_cleanup_fence_phase \<Rightarrow> artifact_cleanup_fence_phase \<Rightarrow> bool" where
  "permits self succ \<longleftrightarrow> \<not> (self = FenceCompleted \<and> succ = Armed)"

record artifact_cleanup_fence =
  fence_key :: artifact_cleanup_fence_key
  fence_terminal :: artifact_gone_status
  fence_phase :: artifact_cleanup_fence_phase

definition fence_armed :: "artifact_cleanup_fence_key \<Rightarrow> artifact_gone_status \<Rightarrow> artifact_cleanup_fence" where
  "fence_armed key terminal = \<lparr>fence_key = key, fence_terminal = terminal, fence_phase = Armed\<rparr>"

definition fence_from_stored ::
  "artifact_cleanup_fence_key \<Rightarrow> string \<Rightarrow> string \<Rightarrow> (artifact_cleanup_fence_error, artifact_cleanup_fence) result" where
  "fence_from_stored key terminal phase =
     and_then (if terminal = ''deleted'' then Ok GoneDeleted
               else if terminal = ''expired'' then Ok GoneExpired
               else Err FenceInvalidTerminalStatus) (\<lambda>terminal.
     and_then (fence_phase_from_stored phase) (\<lambda>phase.
     Ok \<lparr>fence_key = key, fence_terminal = terminal, fence_phase = phase\<rparr>))"

definition with_phase ::
  "artifact_cleanup_fence \<Rightarrow> artifact_cleanup_fence_phase
     \<Rightarrow> (artifact_cleanup_fence_error, artifact_cleanup_fence) result" where
  "with_phase f succ =
     (if \<not> permits (fence_phase f) succ then Err FenceInvalidTransition
      else Ok \<lparr>fence_key = fence_key f, fence_terminal = fence_terminal f, fence_phase = succ\<rparr>)"

section \<open>Canonical identifiers\<close>

lemma to_digit16_ok:
  assumes "is_ascii_hexdigit c"
  shows "\<exists>d<16. to_digit16 c = Some d \<and> hex_digits ! d = to_ascii_lower c"
proof -
  define n where "n = (of_char c :: nat)"
  have c: "c = char_of n" by (simp add: n_def)
  have "n \<in> {48..<58} \<union> {65..<71} \<union> {97..<103}"
    using assms by (auto simp: is_ascii_hexdigit_def is_ascii_digit_def n_def)
  then have "n \<in> set ([48..<58] @ [65..<71] @ [97..<103])" by (simp only: set_append set_upt Un_assoc)
  then have "n = 48 \<or> n = 49 \<or> n = 50 \<or> n = 51 \<or> n = 52 \<or> n = 53 \<or> n = 54 \<or> n = 55 \<or> n = 56 \<or> n = 57
      \<or> n = 65 \<or> n = 66 \<or> n = 67 \<or> n = 68 \<or> n = 69 \<or> n = 70
      \<or> n = 97 \<or> n = 98 \<or> n = 99 \<or> n = 100 \<or> n = 101 \<or> n = 102"
    by (simp add: upt_rec)
  then show ?thesis
    unfolding c by (elim disjE; simp add: to_digit16_def is_ascii_digit_def to_ascii_lower_def
      is_ascii_uppercase_def hex_digits_def) (simp_all add: char_of_def bit_0)
qed

lemma nibbles_of_join:
  assumes "h < 16" "l < 16"
  shows "unat (drop_bit 4 (of_nat (h * 16 + l) :: u8)) = h" "unat ((of_nat (h * 16 + l) :: u8) AND 15) = l"
proof -
  have n: "unat (of_nat (h * 16 + l) :: u8) = h * 16 + l"
    using assms by (simp add: unat_of_nat del: of_nat_add of_nat_mult)
  show "unat (drop_bit 4 (of_nat (h * 16 + l) :: u8)) = h"
    unfolding unat_drop_bit_eq n using assms by (simp add: drop_bit_eq_div)
  have low: "w AND 15 = take_bit 4 w" for w :: u8
    by (simp add: take_bit_eq_mask mask_eq_exp_minus_1)
  show "unat ((of_nat (h * 16 + l) :: u8) AND 15) = l"
    unfolding low unsigned_take_bit_eq n using assms by (simp add: take_bit_eq_mod)
qed

lemma uuid_bytes_pair:
  assumes "is_ascii_hexdigit h" "is_ascii_hexdigit l"
  shows "\<exists>b. (\<forall>n digits. uuid_bytes (Suc n) (h # l # digits) = map_option ((#) b) (uuid_bytes n digits))
    \<and> [hex_digits ! unat (drop_bit 4 b), hex_digits ! unat (b AND 15)] = to_ascii_lowercase [h, l]"
proof -
  obtain hd16 where h: "hd16 < 16" "to_digit16 h = Some hd16" "hex_digits ! hd16 = to_ascii_lower h"
    using to_digit16_ok [OF assms(1)] by blast
  obtain ld16 where l: "ld16 < 16" "to_digit16 l = Some ld16" "hex_digits ! ld16 = to_ascii_lower l"
    using to_digit16_ok [OF assms(2)] by blast
  have "hd16 * 16 + ld16 < 256" using h(1) l(1) by linarith
  then show ?thesis
    using h l nibbles_of_join [OF h(1) l(1)]
    by (intro exI [of _ "of_nat (hd16 * 16 + ld16)"]) (simp add: to_ascii_lowercase_def)
qed

text \<open>The digits between two dashes: as many bytes as there are pairs, printed in lower case.\<close>

lemma uuid_bytes_group:
  assumes "list_all is_ascii_hexdigit ds" "length ds = 2 * k"
  shows "\<exists>bs. length bs = k \<and> (\<forall>n rest. uuid_bytes (k + n) (ds @ rest) = map_option ((@) bs) (uuid_bytes n rest))
    \<and> concat (map (\<lambda>b. [hex_digits ! unat (drop_bit 4 b), hex_digits ! unat (b AND 15)]) bs) = to_ascii_lowercase ds"
  using assms
proof (induction k arbitrary: ds)
  case 0
  then show ?case by (intro exI [of _ "[]"]) (simp add: to_ascii_lowercase_def option.map_ident)
next
  case (Suc k)
  then obtain h l ds' where ds: "ds = h # l # ds'" "length ds' = 2 * k" by (auto simp: length_Suc_conv)
  then obtain bs where bs: "length bs = k"
    "\<And>n rest. uuid_bytes (k + n) (ds' @ rest) = map_option ((@) bs) (uuid_bytes n rest)"
    "concat (map (\<lambda>b. [hex_digits ! unat (drop_bit 4 b), hex_digits ! unat (b AND 15)]) bs) = to_ascii_lowercase ds'"
    using Suc.IH [of ds'] Suc.prems by auto
  obtain b where b: "\<And>n digits. uuid_bytes (Suc n) (h # l # digits) = map_option ((#) b) (uuid_bytes n digits)"
    "[hex_digits ! unat (drop_bit 4 b), hex_digits ! unat (b AND 15)] = to_ascii_lowercase [h, l]"
    using uuid_bytes_pair [of h l] Suc.prems ds by auto
  show ?case
    using b bs by (intro exI [of _ "b # bs"])
      (simp add: ds option.map_comp comp_def to_ascii_lowercase_def del: uuid_bytes.simps)
qed

lemma uuid_shape:
  assumes "is_uuid_v7_artifact_id s"
  shows "\<exists>a b c d e. s = a @ ''-'' @ b @ ''-'' @ c @ ''-'' @ d @ ''-'' @ e
    \<and> list_all is_ascii_hexdigit (a @ b @ c @ d @ e)
    \<and> length a = 8 \<and> length b = 4 \<and> length c = 4 \<and> length d = 4 \<and> length e = 12"
proof -
  have len: "length s = 36" and ok: "\<And>i. i < 36 \<Longrightarrow> uuid_byte_ok (i, s ! i)"
    using assms by (auto simp: is_uuid_v7_artifact_id_def list_all_iff in_set_enumerate_eq)
  have dash: "s ! i = CHR ''-''" if "i \<in> {8, 13, 18, 23}" for i
    using ok [of i] that by (auto simp: uuid_byte_ok_def)
  have hex: "is_ascii_hexdigit (s ! i)" if "i < 36" "i \<notin> {8, 13, 18, 23}" for i
    using ok [of i] that by (simp add: uuid_byte_ok_def)
  let ?part = "\<lambda>i n. take n (drop i s)"
  have all: "list_all is_ascii_hexdigit (?part i n)"
    if "i + n \<le> 36" "\<forall>j. i \<le> j \<and> j < i + n \<longrightarrow> j \<notin> {8, 13, 18, 23}" for i n
    using that hex len by (simp add: list_all_length)
  have step: "drop i s = ?part i n @ CHR ''-'' # drop (Suc (i + n)) s" if "i + n \<in> {8, 13, 18, 23}" for i n
    using that len dash [OF that] id_take_nth_drop [of n "drop i s"] by (auto simp: add.commute)
  have "s = ?part 0 8 @ ''-'' @ ?part 9 4 @ ''-'' @ ?part 14 4 @ ''-'' @ ?part 19 4 @ ''-'' @ ?part 24 12"
    using step [of 0 8] step [of 9 4] step [of 14 4] step [of 19 4] len by simp
  moreover have "list_all is_ascii_hexdigit (?part 0 8 @ ?part 9 4 @ ?part 14 4 @ ?part 19 4 @ ?part 24 12)"
    unfolding list_all_append by (intro conjI all; simp)
  ultimately show ?thesis
    using len by (intro exI [of _ "?part 0 8"] exI [of _ "?part 9 4"] exI [of _ "?part 14 4"]
      exI [of _ "?part 19 4"] exI [of _ "?part 24 12"]) simp
qed

text \<open>The bytes of an identifier, four to a group before each dash, printed back.\<close>

lemma uuid_text_group:
  "i > 10 \<or> (\<forall>j. i \<le> j \<and> j < i + length bs \<longrightarrow> j \<notin> {4, 6, 8, 10}) \<Longrightarrow>
     concat (map uuid_text (enumerate i bs)) =
     concat (map (\<lambda>b. [hex_digits ! unat (drop_bit 4 b), hex_digits ! unat (b AND 15)]) bs)"
  by (induction bs arbitrary: i) (auto simp: uuid_text_def)

lemma uuid_text_dashed:
  assumes "i \<in> {4, 6, 8, 10}" "bs \<noteq> []" "i = 10 \<or> length bs \<le> 2"
  shows "concat (map uuid_text (enumerate i bs)) =
     CHR ''-'' # concat (map (\<lambda>b. [hex_digits ! unat (drop_bit 4 b), hex_digits ! unat (b AND 15)]) bs)"
proof -
  obtain b bs' where bs: "bs = b # bs'" using assms(2) by (cases bs) auto
  moreover have "Suc i > 10 \<or> (\<forall>j. Suc i \<le> j \<and> j < Suc i + length bs' \<longrightarrow> j \<notin> {4, 6, 8, 10})"
    using assms(1,3) bs by auto
  ultimately show ?thesis using uuid_text_group [of "Suc i" bs'] assms(1) by (simp add: uuid_text_def)
qed

lemma canonical_uuid_lower:
  assumes "is_uuid_v7_artifact_id s"
  shows "canonical_artifact_uuid_v7 s = Some (to_ascii_lowercase s)"
proof -
  obtain a b c d e where s: "s = a @ ''-'' @ b @ ''-'' @ c @ ''-'' @ d @ ''-'' @ e"
    and hex: "list_all is_ascii_hexdigit (a @ b @ c @ d @ e)"
    and len: "length a = 8" "length b = 4" "length c = 4" "length d = 4" "length e = 12"
    using uuid_shape [OF assms] by blast
  have "filter (\<lambda>x. x \<noteq> CHR ''-'') g = g" if "list_all is_ascii_hexdigit g" for g
    using that by (induction g) (auto simp: is_ascii_hexdigit_def is_ascii_digit_def)
  then have digits: "filter (\<lambda>x. x \<noteq> CHR ''-'') s = a @ b @ c @ d @ e @ []" using hex by (simp add: s)
  obtain as where as: "length as = 4" "\<And>n rest. uuid_bytes (4 + n) (a @ rest) = map_option ((@) as) (uuid_bytes n rest)"
    "concat (map (\<lambda>b. [hex_digits ! unat (drop_bit 4 b), hex_digits ! unat (b AND 15)]) as) = to_ascii_lowercase a"
    using uuid_bytes_group [of a 4] hex len by auto
  obtain bs where bs: "length bs = 2" "\<And>n rest. uuid_bytes (2 + n) (b @ rest) = map_option ((@) bs) (uuid_bytes n rest)"
    "concat (map (\<lambda>b. [hex_digits ! unat (drop_bit 4 b), hex_digits ! unat (b AND 15)]) bs) = to_ascii_lowercase b"
    using uuid_bytes_group [of b 2] hex len by auto
  obtain cs where cs: "length cs = 2" "\<And>n rest. uuid_bytes (2 + n) (c @ rest) = map_option ((@) cs) (uuid_bytes n rest)"
    "concat (map (\<lambda>b. [hex_digits ! unat (drop_bit 4 b), hex_digits ! unat (b AND 15)]) cs) = to_ascii_lowercase c"
    using uuid_bytes_group [of c 2] hex len by auto
  obtain ds where ds: "length ds = 2" "\<And>n rest. uuid_bytes (2 + n) (d @ rest) = map_option ((@) ds) (uuid_bytes n rest)"
    "concat (map (\<lambda>b. [hex_digits ! unat (drop_bit 4 b), hex_digits ! unat (b AND 15)]) ds) = to_ascii_lowercase d"
    using uuid_bytes_group [of d 2] hex len by auto
  obtain es where es: "length es = 6" "\<And>n rest. uuid_bytes (6 + n) (e @ rest) = map_option ((@) es) (uuid_bytes n rest)"
    "concat (map (\<lambda>b. [hex_digits ! unat (drop_bit 4 b), hex_digits ! unat (b AND 15)]) es) = to_ascii_lowercase e"
    using uuid_bytes_group [of e 6] hex len by auto
  have "uuid_bytes (4 + (2 + (2 + (2 + (6 + 0))))) (a @ b @ c @ d @ e @ []) = Some (as @ bs @ cs @ ds @ es)"
    unfolding as(2) bs(2) cs(2) ds(2) es(2) by simp
  then have parsed: "uuid_bytes 16 (filter (\<lambda>x. x \<noteq> CHR ''-'') s) = Some (as @ bs @ cs @ ds @ es)"
    unfolding digits by simp
  have "concat (map uuid_text (enumerate 0 (as @ bs @ cs @ ds @ es))) =
      to_ascii_lowercase a @ ''-'' @ to_ascii_lowercase b @ ''-'' @ to_ascii_lowercase c @ ''-''
      @ to_ascii_lowercase d @ ''-'' @ to_ascii_lowercase e"
    using uuid_text_group [of 0 as] uuid_text_dashed [of 4 bs] uuid_text_dashed [of 6 cs] uuid_text_dashed [of 8 ds]
      uuid_text_dashed [of 10 es] as bs cs ds es by (fastforce simp: enumerate_append_eq)
  also have "\<dots> = to_ascii_lowercase s"
    by (simp add: s to_ascii_lowercase_def to_ascii_lower_def is_ascii_uppercase_def)
  finally show ?thesis using assms parsed by (simp add: canonical_artifact_uuid_v7_def)
qed

lemma to_ascii_lower_idem: "to_ascii_lower (to_ascii_lower c) = to_ascii_lower c"
proof (cases "is_ascii_uppercase c")
  case True
  then have "(of_char (char_of (of_char c + (32::nat))) :: nat) = of_char c + 32"
    by (simp add: is_ascii_uppercase_def)
  with True show ?thesis by (simp add: to_ascii_lower_def is_ascii_uppercase_def)
qed (simp add: to_ascii_lower_def)

lemma hexdigit_lower: "is_ascii_hexdigit (to_ascii_lower c) = is_ascii_hexdigit c"
proof (cases "is_ascii_uppercase c")
  case True
  then have "(of_char (char_of (of_char c + (32::nat))) :: nat) = of_char c + 32"
    by (simp add: is_ascii_uppercase_def)
  with True show ?thesis
    by (auto simp: to_ascii_lower_def is_ascii_uppercase_def is_ascii_hexdigit_def is_ascii_digit_def)
qed (simp add: to_ascii_lower_def)

lemma is_uuid_lowercase: "is_uuid_v7_artifact_id (to_ascii_lowercase s) = is_uuid_v7_artifact_id s"
proof -
  have plain: "to_ascii_lower c = x \<longleftrightarrow> c = x" if "x \<in> {CHR ''-'', CHR ''7''}" for c x
  proof -
    have "\<not> is_ascii_lowercase x" "\<And>c. c = x \<Longrightarrow> \<not> is_ascii_uppercase c"
      using that by (auto simp: is_ascii_lowercase_def is_ascii_uppercase_def)
    then show ?thesis using to_ascii_lower_other [of x c] by blast
  qed
  have "uuid_byte_ok (i, to_ascii_lower c) = uuid_byte_ok (i, c)" for i c
    by (simp add: uuid_byte_ok_def plain hexdigit_lower)
  then have "list_all uuid_byte_ok (enumerate 0 (to_ascii_lowercase s)) = list_all uuid_byte_ok (enumerate 0 s)"
    by (force simp: list_all_iff in_set_enumerate_eq to_ascii_lowercase_def)
  moreover have "length (to_ascii_lowercase s) = length s" by (simp add: to_ascii_lowercase_def)
  moreover have "to_ascii_lowercase s ! 14 = CHR ''7'' \<longleftrightarrow> s ! 14 = CHR ''7''"
    "to_ascii_lower (to_ascii_lowercase s ! 19) = to_ascii_lower (s ! 19)" if "length s = 36"
    using that plain [of "CHR ''7''" "s ! 14"] by (simp_all add: to_ascii_lowercase_def to_ascii_lower_idem)
  ultimately show ?thesis unfolding is_uuid_v7_artifact_id_def by (cases "length s = 36") (simp_all only: simp_thms)
qed

lemma canonical_uuid_eq:
  "canonical_artifact_uuid_v7 s = (if is_uuid_v7_artifact_id s then Some (to_ascii_lowercase s) else None)"
  using canonical_uuid_lower [of s] by (simp add: canonical_artifact_uuid_v7_def [of s])

lemma canonical_uuid_canonical:
  "canonical_artifact_uuid_v7 s = Some t \<Longrightarrow> canonical_artifact_uuid_v7 t = Some t"
  by (auto simp: canonical_uuid_eq is_uuid_lowercase split: if_splits)
    (simp add: to_ascii_lowercase_def to_ascii_lower_idem)

text \<open>The canonical spelling of an artifact identifier. Parsing the sixteen bytes of an identifier
  and printing them again is exactly lower-casing it: a text of the shape of a version-7 identifier is
  answered with itself in lower case, and every other text with nothing. So two identifiers have the same
  canonical spelling exactly when they differ in nothing but case.\<close>

theorem canonical_uuid_is_lower_case:
  "canonical_artifact_uuid_v7 s = (if is_uuid_v7_artifact_id s then Some (to_ascii_lowercase s) else None)"
  by (rule canonical_uuid_eq)

section \<open>Quotas over a sequence of registrations\<close>

definition register :: "artifact_quota_policy \<Rightarrow> artifact_projected_usage \<Rightarrow> u64
    \<Rightarrow> (artifact_invariant_error, artifact_projected_usage) result" where
  "register p u new_bytes = project_registration p (run_identities u) (workspace_charged_bytes u) new_bytes"

definition usage_of :: "u64 list \<Rightarrow> artifact_projected_usage" where
  "usage_of registered = \<lparr>run_identities = of_nat (length registered),
     workspace_charged_bytes = of_nat (sum_list (map unat registered))\<rparr>"

definition within_quota :: "artifact_quota_policy \<Rightarrow> u64 list \<Rightarrow> bool" where
  "within_quota p registered \<longleftrightarrow>
     (\<forall>b\<in>set registered. b \<le> max_artifact_bytes p) \<and> length registered \<le> unat (max_run_artifacts p)
     \<and> sum_list (map unat registered) \<le> unat (max_workspace_artifact_bytes p)"

lemma register_tracks:
  assumes "within_quota p pre"
  shows "register p (usage_of pre) b = Ok u \<longleftrightarrow> within_quota p (pre @ [b]) \<and> u = usage_of (pre @ [b])"
proof -
  have count: "checked_add (of_nat (length pre)) (1 :: u64) = Some c \<and> c \<le> max_run_artifacts p
      \<longleftrightarrow> length pre + 1 \<le> unat (max_run_artifacts p) \<and> c = of_nat (length pre + 1)" for c
    using checked_add_within [of "length pre" "max_run_artifacts p" 1 c] assms by (simp add: within_quota_def)
  have bytes: "checked_add (of_nat (sum_list (map unat pre))) b = Some c \<and> c \<le> max_workspace_artifact_bytes p
      \<longleftrightarrow> sum_list (map unat pre) + unat b \<le> unat (max_workspace_artifact_bytes p)
        \<and> c = of_nat (sum_list (map unat pre) + unat b)" for c
    using checked_add_within [of "sum_list (map unat pre)" "max_workspace_artifact_bytes p" b c] assms
    by (simp add: within_quota_def)
  have "register p (usage_of pre) b = Ok u \<longleftrightarrow> b \<le> max_artifact_bytes p
      \<and> (\<exists>runs charged. (checked_add (of_nat (length pre)) (1 :: u64) = Some runs \<and> runs \<le> max_run_artifacts p)
        \<and> (checked_add (of_nat (sum_list (map unat pre))) b = Some charged \<and> charged \<le> max_workspace_artifact_bytes p)
        \<and> u = \<lparr>run_identities = runs, workspace_charged_bytes = charged\<rparr>)"
    unfolding register_def project_registration_def if_err_ok and_then_ok ok_or_ok usage_of_def
    by (auto simp: not_less)
  also have "\<dots> \<longleftrightarrow> within_quota p (pre @ [b]) \<and> u = usage_of (pre @ [b])"
    unfolding count bytes using assms by (auto simp: within_quota_def usage_of_def)
  finally show ?thesis .
qed

lemma registrations_ok:
  "try_fold (register p) (usage_of []) sizes = Ok u \<longleftrightarrow> within_quota p sizes \<and> u = usage_of sizes"
  using try_fold_tracks [of "within_quota p" "register p" usage_of "[]" sizes u] register_tracks
  by (auto simp: within_quota_def)

lemma quota_policy_new_ok:
  "quota_policy_new a r w = Ok p \<longleftrightarrow>
     a \<le> max_artifact_bytes_const \<and> r \<le> max_run_artifacts_const \<and> w \<le> max_workspace_artifact_bytes_const
     \<and> p = \<lparr>max_artifact_bytes = a, max_run_artifacts = r, max_workspace_artifact_bytes = w\<rparr>"
  unfolding quota_policy_new_def if_err_ok by (auto simp: not_less)

text \<open>What a run may register. Under an accepted policy a sequence of registrations is admitted exactly
  when every artifact is within the byte limit, there are no more of them than the run may have, and all
  of them together fit the workspace; the projected usage is then exactly their number and their total
  size, so no addition ever wraps; and the ceilings of the product (32 artifacts, 16 GiB) hold whatever
  the policy says.\<close>

theorem registrations_admitted_exactly:
  assumes "quota_policy_new a r w = Ok p"
  shows "(try_fold (register p) \<lparr>run_identities = 0, workspace_charged_bytes = 0\<rparr> sizes = Ok u \<longleftrightarrow>
      (\<forall>b\<in>set sizes. b \<le> a) \<and> length sizes \<le> unat r \<and> sum_list (map unat sizes) \<le> unat w
      \<and> unat (run_identities u) = length sizes
      \<and> unat (workspace_charged_bytes u) = sum_list (map unat sizes))
    \<and> unat r \<le> 32 \<and> unat w \<le> 2 ^ 34"
proof -
  have p: "max_artifact_bytes p = a" "max_run_artifacts p = r" "max_workspace_artifact_bytes p = w"
    and ceilings: "r \<le> max_run_artifacts_const" "w \<le> max_workspace_artifact_bytes_const"
    using assms by (simp_all add: quota_policy_new_ok)
  have "unat r \<le> 32" "unat w \<le> 2 ^ 34"
    using ceilings
    by (simp_all add: max_run_artifacts_const_def max_workspace_artifact_bytes_const_def word_le_nat_alt)
  moreover have "u = usage_of sizes \<longleftrightarrow> unat (run_identities u) = length sizes
      \<and> unat (workspace_charged_bytes u) = sum_list (map unat sizes)" if "within_quota p sizes"
  proof -
    have "length sizes < 2 ^ 64" "sum_list (map unat sizes) < 2 ^ 64"
      using that calculation by (auto simp: within_quota_def p)
    then have "unat (of_nat (length sizes) :: u64) = length sizes"
      "unat (of_nat (sum_list (map unat sizes)) :: u64) = sum_list (map unat sizes)"
      by (simp_all add: unat_of_nat)
    then show ?thesis by (cases u) (auto simp: usage_of_def word_unat_eq_iff)
  qed
  ultimately show ?thesis
    using registrations_ok [of p sizes u] by (auto simp: within_quota_def p usage_of_def)
qed

theorem registrations_admitted_exactly_witness:
  "\<exists>p. quota_policy_new 100 3 150 = Ok p
     \<and> try_fold (register p) \<lparr>run_identities = 0, workspace_charged_bytes = 0\<rparr> [100, 50]
         = Ok \<lparr>run_identities = 2, workspace_charged_bytes = 150\<rparr>
     \<and> \<not> (\<exists>u. try_fold (register p) \<lparr>run_identities = 0, workspace_charged_bytes = 0\<rparr> [100, 50, 1] = Ok u)"
proof -
  let ?p = "\<lparr>max_artifact_bytes = 100, max_run_artifacts = 3, max_workspace_artifact_bytes = 150\<rparr>"
  let ?zero = "\<lparr>run_identities = 0, workspace_charged_bytes = 0\<rparr>"
  have p: "quota_policy_new 100 3 150 =
      Ok \<lparr>max_artifact_bytes = 100, max_run_artifacts = 3, max_workspace_artifact_bytes = 150\<rparr>"
    by (simp add: quota_policy_new_ok max_artifact_bytes_const_def max_run_artifacts_const_def
        max_workspace_artifact_bytes_const_def)
  let ?u = "\<lparr>run_identities = 2, workspace_charged_bytes = 150\<rparr> :: artifact_projected_usage"
  have two: "(\<forall>b\<in>set [100, 50 :: u64]. b \<le> 100) \<and> length [100, 50 :: u64] \<le> unat (3 :: u64)
      \<and> sum_list (map unat [100, 50 :: u64]) \<le> unat (150 :: u64)
      \<and> unat (run_identities ?u) = length [100, 50 :: u64]
      \<and> unat (workspace_charged_bytes ?u) = sum_list (map unat [100, 50 :: u64])"
    by simp
  have three: "\<not> sum_list (map unat [100, 50, 1 :: u64]) \<le> unat (150 :: u64)" by simp
  note admitted = registrations_admitted_exactly [OF p]
  have "try_fold (register ?p) ?zero [100, 50] = Ok ?u" using admitted [of "[100, 50]" ?u] two by blast
  moreover have "\<not> (\<exists>u. try_fold (register ?p) ?zero [100, 50, 1] = Ok u)"
    using admitted [of "[100, 50, 1]"] three by blast
  ultimately show ?thesis using p by blast
qed

section \<open>References, texts and provenance\<close>

definition refs_fit :: "string list \<Rightarrow> bool" where
  "refs_fit refs \<longleftrightarrow> list_all is_valid_artifact_identity refs \<and> distinct refs"

lemma validate_artifact_refs_ok:
  "validate_artifact_refs refs = Ok () \<longleftrightarrow>
     length refs \<le> 8 \<and> list_all is_valid_artifact_identity refs \<and> distinct refs"
proof -
  have step: "ref_step pre e = Ok t \<longleftrightarrow> refs_fit (pre @ [e]) \<and> t = pre @ [e]" if "refs_fit pre" for pre e t
    using that unfolding ref_step_def if_err_ok by (auto simp: refs_fit_def)
  have "try_fold ref_step [] refs = Ok t \<longleftrightarrow> refs_fit ([] @ refs) \<and> t = [] @ refs" for t
    by (rule try_fold_tracks [where state = "\<lambda>x. x"]) (use step in \<open>simp_all add: refs_fit_def\<close>)
  then show ?thesis
    unfolding validate_artifact_refs_def if_err_ok and_then_ok
    by (simp add: refs_fit_def max_artifact_refs_def not_less conj_assoc)
qed

definition texts_fit :: "u64 list \<Rightarrow> bool" where
  "texts_fit lens \<longleftrightarrow> (\<forall>n\<in>set lens. n \<le> max_artifact_text_bytes)
     \<and> sum_list (map unat lens) \<le> unat max_artifact_total_text_bytes"

lemma text_step_tracks:
  assumes "texts_fit pre"
  shows "text_step (of_nat (sum_list (map unat pre))) n = Ok t \<longleftrightarrow>
     texts_fit (pre @ [n]) \<and> t = of_nat (sum_list (map unat (pre @ [n])))"
proof -
  have "text_step (of_nat (sum_list (map unat pre))) n = Ok t \<longleftrightarrow> n \<le> max_artifact_text_bytes
      \<and> (checked_add (of_nat (sum_list (map unat pre))) n = Some t \<and> t \<le> max_artifact_total_text_bytes)"
    unfolding text_step_def if_err_ok and_then_ok ok_or_ok by (auto simp: not_less)
  also have "\<dots> \<longleftrightarrow> texts_fit (pre @ [n]) \<and> t = of_nat (sum_list (map unat (pre @ [n])))"
    using checked_add_within [of "sum_list (map unat pre)" max_artifact_total_text_bytes n t] assms
    by (auto simp: texts_fit_def)
  finally show ?thesis .
qed

lemma validate_artifact_text_budget_ok:
  "validate_artifact_text_budget lens = Ok t \<longleftrightarrow>
     length lens \<le> 8 \<and> (\<forall>n\<in>set lens. unat n \<le> 2 ^ 18) \<and> sum_list (map unat lens) \<le> 2 ^ 20
     \<and> unat t = sum_list (map unat lens)"
proof -
  have "try_fold text_step 0 lens = Ok t \<longleftrightarrow> texts_fit lens \<and> t = of_nat (sum_list (map unat lens))"
    using try_fold_tracks [of texts_fit text_step "\<lambda>l. of_nat (sum_list (map unat l))" "[]" lens t] text_step_tracks
    by (auto simp: texts_fit_def)
  moreover have "t = of_nat (sum_list (map unat lens)) \<longleftrightarrow> unat t = sum_list (map unat lens)"
    if "sum_list (map unat lens) \<le> 2 ^ 20"
  proof -
    have "unat (of_nat (sum_list (map unat lens)) :: u64) = sum_list (map unat lens)"
      using that by (simp add: unat_of_nat)
    then show ?thesis by (auto simp: word_unat_eq_iff)
  qed
  ultimately show ?thesis
    unfolding validate_artifact_text_budget_def if_err_ok
    by (auto simp: texts_fit_def max_artifact_refs_def max_artifact_text_bytes_def
        max_artifact_total_text_bytes_def word_le_nat_alt)
qed

text \<open>The overflow branch of the text budget is never taken: the running total stays below a mebibyte.\<close>

lemma text_total_never_overflows: "validate_artifact_text_budget lens \<noteq> Err TextTotalOverflow"
proof -
  have "try_fold text_step acc lens \<noteq> Err TextTotalOverflow" if "acc \<le> max_artifact_total_text_bytes" for acc
    using that
  proof (induction lens arbitrary: acc)
    case (Cons n lens)
    have "checked_add acc n \<noteq> None" if "n \<le> max_artifact_text_bytes"
      using that Cons.prems unfolding checked_add_none
      by (simp add: max_artifact_text_bytes_def max_artifact_total_text_bytes_def word_le_nat_alt)
    then have "text_step acc n \<noteq> Err TextTotalOverflow"
      by (cases "checked_add acc n") (auto simp: text_step_def not_less)
    moreover have "t \<le> max_artifact_total_text_bytes" if "text_step acc n = Ok t" for t
      using that unfolding text_step_def if_err_ok and_then_ok by auto
    ultimately show ?case using Cons.IH by (cases "text_step acc n") auto
  qed simp
  then show ?thesis by (simp add: validate_artifact_text_budget_def)
qed

section \<open>The fence through its life and its storage\<close>

interpretation fence_machine: guarded_machine with_phase "\<lambda>_. True"
  by unfold_locales

primrec run_fence :: "artifact_cleanup_fence \<Rightarrow> artifact_cleanup_fence_phase list \<Rightarrow> artifact_cleanup_fence" where
  "run_fence f [] = f"
| "run_fence f (e # es) = run_fence (case with_phase f e of Inr g \<Rightarrow> g | Inl _ \<Rightarrow> f) es"

lemma run_fence_eq: "run_fence f es = fence_machine.run_events f es"
  by (induction es arbitrary: f) simp_all

lemma run_fence_phase:
  "fence_phase (run_fence f es) = (if FenceCompleted \<in> insert (fence_phase f) (set es) then FenceCompleted else Armed)"
proof (induction es arbitrary: f)
  case Nil
  then show ?case by (cases "fence_phase f") auto
next
  case (Cons e es)
  then show ?case by (cases e; cases "fence_phase f") (auto simp: with_phase_def permits_def)
qed

lemma run_fence_keeps: "fence_key (run_fence f es) = fence_key f \<and> fence_terminal (run_fence f es) = fence_terminal f"
  unfolding run_fence_eq
  by (rule fence_machine.run_events_preserves [where P = "\<lambda>g. fence_key g = fence_key f \<and> fence_terminal g = fence_terminal f"])
    (auto simp: with_phase_def split: if_splits)

lemma fence_stored: "fence_from_stored (fence_key f) (artifact_gone_status_str (fence_terminal f))
    (fence_phase_str (fence_phase f)) = Ok f"
  by (cases "fence_terminal f"; cases "fence_phase f"; cases f)
    (simp_all add: fence_from_stored_def fence_phase_from_stored_def)

lemma fence_key_new_ok:
  "fence_key_new deployment tenant dataset operation artifact = Ok k \<longleftrightarrow>
     list_all is_valid_artifact_identity [deployment, tenant, dataset]
     \<and> (\<exists>a. canonical_artifact_uuid_v7 artifact = Some a
         \<and> k = \<lparr>fence_deployment = deployment, fence_tenant = tenant, fence_dataset = dataset,
                fence_operation = operation, fence_artifact = a\<rparr>)"
  unfolding fence_key_new_def if_err_ok and_then_ok ok_or_ok by auto

lemma fence_key_stored:
  assumes "save_operation_id_new v = Ok op" "fence_key_new deployment tenant dataset op artifact = Ok k"
  shows "fence_key_from_stored (fence_deployment k) (fence_tenant k) (fence_dataset k)
    (operation_str (fence_operation k)) (fence_artifact k) = Ok k"
proof -
  obtain a where a: "canonical_artifact_uuid_v7 a = Some a" "list_all is_valid_artifact_identity [deployment, tenant, dataset]"
    and k: "k = \<lparr>fence_deployment = deployment, fence_tenant = tenant, fence_dataset = dataset,
                fence_operation = op, fence_artifact = a\<rparr>"
    using assms(2) canonical_uuid_canonical unfolding fence_key_new_ok by blast
  obtain o' where o': "op = ArtifactSaveOperationId o'" "canonical_artifact_uuid_v7 o' = Some o'"
    using assms(1) canonical_uuid_canonical unfolding save_operation_id_new_def ok_or_ok by auto
  show ?thesis
    using a by (simp add: k fence_key_from_stored_def fence_key_new_def save_operation_id_new_def o')
qed

text \<open>The clean-up fence is durable and never re-armed. Whatever phases are requested of an armed fence,
  in any order, it is completed from the first request to complete on and armed before it, its key and
  its terminal status never change, and its stored columns, the canonical identifiers of its key
  included, read back as exactly that fence.\<close>

theorem cleanup_fence_never_rearmed:
  assumes "save_operation_id_new v = Ok op" "fence_key_new deployment tenant dataset op artifact = Ok k"
    and "f = run_fence (fence_armed k terminal) requests"
  shows "fence_phase f = (if FenceCompleted \<in> set requests then FenceCompleted else Armed)
    \<and> and_then (fence_key_from_stored (fence_deployment k) (fence_tenant k) (fence_dataset k)
        (operation_str (fence_operation k)) (fence_artifact k)) (\<lambda>k'.
        fence_from_stored k' (artifact_gone_status_str terminal) (fence_phase_str (fence_phase f))) = Ok f"
proof
  show "fence_phase f = (if FenceCompleted \<in> set requests then FenceCompleted else Armed)"
    by (simp add: assms(3) run_fence_phase fence_armed_def)
  have "fence_key f = k" "fence_terminal f = terminal"
    using run_fence_keeps [of "fence_armed k terminal" requests] by (simp_all add: assms(3) fence_armed_def)
  then show "and_then (fence_key_from_stored (fence_deployment k) (fence_tenant k) (fence_dataset k)
        (operation_str (fence_operation k)) (fence_artifact k)) (\<lambda>k'.
        fence_from_stored k' (artifact_gone_status_str terminal) (fence_phase_str (fence_phase f))) = Ok f"
    using fence_stored [of f] by (simp add: fence_key_stored [OF assms(1,2)])
qed

theorem cleanup_fence_never_rearmed_witness:
  "let op = ArtifactSaveOperationId ''0190a0b1-c2d3-7e4f-8a5b-6c7d8e9f0a1b'';
       key = \<lparr>fence_deployment = ''d'', fence_tenant = ''t'', fence_dataset = ''s'', fence_operation = op,
              fence_artifact = ''0190a0b1-c2d3-7e4f-9a5b-6c7d8e9f0a1b''\<rparr>
   in save_operation_id_new ''0190A0B1-C2D3-7E4F-8A5B-6C7D8E9F0A1B'' = Ok op
      \<and> fence_key_new ''d'' ''t'' ''s'' op ''0190a0b1-C2D3-7e4f-9a5b-6c7d8e9f0a1b'' = Ok key
      \<and> fence_phase (run_fence (fence_armed key GoneExpired) [Armed, FenceCompleted, Armed]) = FenceCompleted"
proof -
  let ?op = "ArtifactSaveOperationId ''0190a0b1-c2d3-7e4f-8a5b-6c7d8e9f0a1b''"
  let ?key = "\<lparr>fence_deployment = ''d'', fence_tenant = ''t'', fence_dataset = ''s'', fence_operation = ?op,
              fence_artifact = ''0190a0b1-c2d3-7e4f-9a5b-6c7d8e9f0a1b''\<rparr>"
  have op: "save_operation_id_new ''0190A0B1-C2D3-7E4F-8A5B-6C7D8E9F0A1B'' = Ok ?op"
    by code_simp
  have key: "fence_key_new ''d'' ''t'' ''s'' ?op ''0190a0b1-C2D3-7e4f-9a5b-6c7d8e9f0a1b'' = Ok ?key"
    by code_simp
  show ?thesis
    using op key cleanup_fence_never_rearmed [OF op key refl, of GoneExpired "[Armed, FenceCompleted, Armed]"]
    unfolding Let_def by simp
qed

end
