(* ===== verification/Control.thy ===== *)
theory Control
  imports StdModel Identity
begin

text \<open>
  Who drives the browser, \<open>crates/openbot-computer/src/control.rs\<close>: the wheel that the bot and a person
  hand to each other, the person's lease, and the tickets that a viewer echoes with every input. A method
  on \<open>&mut self\<close> takes the service and answers with the result and the service it leaves, also where
  the result is an error. Instants are in nanoseconds; identifiers are their strings; of an
  authenticated context only the actor and the generation are read here.
\<close>

section \<open>Data\<close>

definition help_request_ttl :: duration where "help_request_ttl = 10 * 60 * 1000000000"

definition default_help_reason :: string where
  "default_help_reason = ''The assistant needs a person to continue.''"

definition default_secret_label :: string where
  "default_secret_label = ''the value this page is asking for''"

datatype control_holder = Bot | Human

datatype human_lease_epoch = HumanLeaseEpoch (epoch_get: u64)

definition epoch_next :: "human_lease_epoch \<Rightarrow> human_lease_epoch option" where
  "epoch_next e = map_option HumanLeaseEpoch (checked_add (epoch_get e) 1)"

record pending_secret_target =
  field_ref :: string
  document_generation :: u64

record control_state =
  holder :: control_holder
  since :: instant
  help_requested :: bool
  help_requested_at :: "instant option"
  help_reason :: "string option"
  secret_wanted :: "string option"
  pending_secret_target :: "pending_secret_target option"

record control_snapshot =
  snap_state :: control_state
  snap_epoch :: human_lease_epoch
  snap_poisoned :: bool
  snap_lease_expires_at :: "instant option"

record auth_context =
  auth_actor :: string
  auth_current_generation :: auth_generation

record human_lease =
  lease_owner :: string
  lease_computer :: string
  lease_tab :: string
  lease_computer_generation :: u64
  lease_auth_generation :: auth_generation
  lease_epoch :: human_lease_epoch
  lease_ends_at :: instant

record human_input_ticket =
  ticket_computer :: string
  ticket_tab :: string
  ticket_computer_generation :: u64
  ticket_epoch :: human_lease_epoch
  ticket_expires_at :: instant

datatype control_error =
  HumanHasControl | TakeControlFirst | InvalidLeaseExpiry | LeaseExpired | StaleOrWrongScope
  | SecretFieldRefRequired | NoSecretPending | SecretTargetChanged | ComputerGenerationDidNotAdvance
  | HumanLeaseEpochPoisoned

record control_service =
  computer_id :: string
  tab_id :: string
  computer_generation :: u64
  epoch :: human_lease_epoch
  poisoned :: bool
  ctl :: control_state
  lease :: "human_lease option"

text \<open>The sequence of two fallible methods: \<open>?\<close> after the first.\<close>

definition then_do ::
  "('s \<Rightarrow> ('e, 'a) result \<times> 's) \<Rightarrow> ('a \<Rightarrow> 's \<Rightarrow> ('e, 'b) result \<times> 's) \<Rightarrow> 's \<Rightarrow> ('e, 'b) result \<times> 's" where
  "then_do m k s = (case m s of (Inl e, t) \<Rightarrow> (Err e, t) | (Inr a, t) \<Rightarrow> k a t)"

section \<open>Internal steps\<close>

definition released_state :: "instant \<Rightarrow> control_state" where
  "released_state now =
     \<lparr>holder = Bot, since = now, help_requested = False, help_requested_at = None, help_reason = None,
      secret_wanted = None, pending_secret_target = None\<rparr>"

definition control_new :: "string \<Rightarrow> string \<Rightarrow> u64 \<Rightarrow> instant \<Rightarrow> control_service" where
  "control_new computer tab generation now =
     \<lparr>computer_id = computer, tab_id = tab, computer_generation = generation, epoch = HumanLeaseEpoch 0,
      poisoned = False, ctl = released_state now, lease = None\<rparr>"

definition control_snapshot_of :: "control_service \<Rightarrow> control_snapshot" where
  "control_snapshot_of s =
     \<lparr>snap_state = ctl s, snap_epoch = epoch s, snap_poisoned = poisoned s,
      snap_lease_expires_at = map_option lease_ends_at (lease s)\<rparr>"

definition enter_poisoned :: "control_service \<Rightarrow> control_service" where
  "enter_poisoned s =
     s\<lparr>poisoned := True, lease := None,
       ctl := (ctl s)\<lparr>holder := Bot, help_requested := False, help_requested_at := None, help_reason := None,
                      secret_wanted := None, pending_secret_target := None\<rparr>\<rparr>"

definition bump_epoch :: "control_service \<Rightarrow> (control_error, unit) result \<times> control_service" where
  "bump_epoch s =
     (case epoch_next (epoch s) of
        None \<Rightarrow> (Err HumanLeaseEpochPoisoned, enter_poisoned s)
      | Some succ \<Rightarrow> (Ok (), s\<lparr>epoch := succ\<rparr>))"

definition ensure_not_poisoned :: "control_service \<Rightarrow> (control_error, unit) result \<times> control_service" where
  "ensure_not_poisoned s = (if poisoned s then Err HumanLeaseEpochPoisoned else Ok (), s)"

definition release_without_bump :: "instant \<Rightarrow> control_service \<Rightarrow> control_service" where
  "release_without_bump now s = s\<lparr>ctl := released_state now, lease := None\<rparr>"

definition expire_human_lease :: "instant \<Rightarrow> control_service \<Rightarrow> (control_error, bool) result \<times> control_service" where
  "expire_human_lease now s =
     (if case lease s of None \<Rightarrow> False | Some l \<Rightarrow> lease_ends_at l \<le> now
      then then_do bump_epoch (\<lambda>_ s. (Ok True, release_without_bump now s)) s
      else (Ok False, s))"

definition expire_help_request :: "instant \<Rightarrow> control_service \<Rightarrow> control_service" where
  "expire_help_request now s =
     (if holder (ctl s) = Bot \<and> help_requested (ctl s)
         \<and> (case help_requested_at (ctl s) of None \<Rightarrow> False | Some at \<Rightarrow> now - at > help_request_ttl)
      then s\<lparr>ctl := (ctl s)\<lparr>help_requested := False, help_requested_at := None, help_reason := None\<rparr>\<rparr>
      else s)"

section \<open>Operations\<close>

definition control_read :: "instant \<Rightarrow> control_service \<Rightarrow> control_snapshot \<times> control_service" where
  "control_read now s =
     (let t = expire_help_request now (snd (expire_human_lease now s)) in (control_snapshot_of t, t))"

text \<open>\<open>map(trim_ecmascript)\<close>, \<open>filter\<close> of the empty text, \<open>unwrap_or\<close>.\<close>

definition meaningful_or :: "string \<Rightarrow> string option \<Rightarrow> string" where
  "meaningful_or otherwise given =
     (case given of None \<Rightarrow> otherwise
      | Some v \<Rightarrow> (let v = trim_ecmascript v in if v = [] then otherwise else v))"

definition request_help :: "string option \<Rightarrow> instant \<Rightarrow> control_service \<Rightarrow> control_snapshot \<times> control_service" where
  "request_help reason now s =
     (let t = s\<lparr>ctl := (ctl s)\<lparr>help_requested := True, help_requested_at := Some now,
                              help_reason := Some (meaningful_or default_help_reason reason)\<rparr>\<rparr>
      in (control_snapshot_of t, t))"

definition request_secret ::
  "string option \<Rightarrow> string \<Rightarrow> u64 \<Rightarrow> control_service \<Rightarrow> (control_error, control_snapshot) result \<times> control_service" where
  "request_secret label field generation s =
     (let field = trim_ecmascript field in
      if field = [] then (Err SecretFieldRefRequired, s)
      else let t = s\<lparr>ctl := (ctl s)\<lparr>secret_wanted := Some (meaningful_or default_secret_label label),
                  pending_secret_target := Some \<lparr>field_ref = field, document_generation = generation\<rparr>\<rparr>\<rparr>
           in (Ok (control_snapshot_of t), t))"

definition pending_secret :: "control_service \<Rightarrow> (control_error, pending_secret_target) result" where
  "pending_secret s = ok_or NoSecretPending (pending_secret_target (ctl s))"

definition secret_supplied :: "pending_secret_target \<Rightarrow> control_service \<Rightarrow> (control_error, unit) result \<times> control_service" where
  "secret_supplied completed s =
     (case pending_secret_target (ctl s) of
        None \<Rightarrow> (Err NoSecretPending, s)
      | Some current \<Rightarrow>
          if current \<noteq> completed then (Err SecretTargetChanged, s)
          else (Ok (), s\<lparr>ctl := (ctl s)\<lparr>secret_wanted := None, pending_secret_target := None\<rparr>\<rparr>))"

definition lease_for :: "auth_context \<Rightarrow> instant \<Rightarrow> control_service \<Rightarrow> human_lease" where
  "lease_for auth expires s =
     \<lparr>lease_owner = auth_actor auth, lease_computer = computer_id s, lease_tab = tab_id s,
      lease_computer_generation = computer_generation s,
      lease_auth_generation = auth_current_generation auth, lease_epoch = epoch s, lease_ends_at = expires\<rparr>"

definition take_control ::
  "auth_context \<Rightarrow> instant \<Rightarrow> instant \<Rightarrow> control_service \<Rightarrow> (control_error, control_snapshot) result \<times> control_service" where
  "take_control auth expires now =
     then_do ensure_not_poisoned (\<lambda>_ s.
       if expires \<le> now then (Err InvalidLeaseExpiry, s)
       else then_do bump_epoch (\<lambda>_ s.
         let t = s\<lparr>ctl := \<lparr>holder = Human, since = now, help_requested = False, help_requested_at = None,
                          help_reason = help_reason (ctl s), secret_wanted = None, pending_secret_target = None\<rparr>,
                   lease := Some (lease_for auth expires s)\<rparr>
         in (Ok (control_snapshot_of t), t)) s)"

definition release_control :: "instant \<Rightarrow> control_service \<Rightarrow> (control_error, control_snapshot) result \<times> control_service" where
  "release_control now =
     then_do ensure_not_poisoned (\<lambda>_. then_do bump_epoch (\<lambda>_ s.
       let t = release_without_bump now s in (Ok (control_snapshot_of t), t)))"

definition assert_bot_may_act :: "instant \<Rightarrow> control_service \<Rightarrow> (control_error, unit) result \<times> control_service" where
  "assert_bot_may_act now =
     then_do ensure_not_poisoned (\<lambda>_. then_do (expire_human_lease now) (\<lambda>_ s.
       (if holder (ctl s) = Human then Err HumanHasControl else Ok (), s)))"

definition issue_human_input_ticket ::
  "instant \<Rightarrow> control_service \<Rightarrow> (control_error, human_input_ticket) result \<times> control_service" where
  "issue_human_input_ticket now =
     then_do ensure_not_poisoned (\<lambda>_. then_do (expire_human_lease now) (\<lambda>expired s.
       if expired then (Err LeaseExpired, s)
       else case lease s of
         None \<Rightarrow> (Err TakeControlFirst, s)
       | Some l \<Rightarrow> (Ok \<lparr>ticket_computer = lease_computer l, ticket_tab = lease_tab l,
                       ticket_computer_generation = lease_computer_generation l, ticket_epoch = lease_epoch l,
                       ticket_expires_at = lease_ends_at l\<rparr>, s)))"

definition authorize_human_input ::
  "auth_context \<Rightarrow> human_input_ticket \<Rightarrow> instant \<Rightarrow> control_service \<Rightarrow> (control_error, unit) result \<times> control_service" where
  "authorize_human_input auth ticket now =
     then_do ensure_not_poisoned (\<lambda>_. then_do (expire_human_lease now) (\<lambda>expired s.
       if expired then (Err LeaseExpired, s)
       else case lease s of
         None \<Rightarrow> (Err TakeControlFirst, s)
       | Some l \<Rightarrow>
           (if lease_owner l \<noteq> auth_actor auth \<or> lease_auth_generation l \<noteq> auth_current_generation auth
               \<or> lease_computer l \<noteq> ticket_computer ticket \<or> lease_tab l \<noteq> ticket_tab ticket
               \<or> lease_computer_generation l \<noteq> ticket_computer_generation ticket
               \<or> lease_epoch l \<noteq> ticket_epoch ticket \<or> lease_ends_at l \<noteq> ticket_expires_at ticket
            then Err StaleOrWrongScope else Ok (), s)))"

text \<open>The receipt the engine consumes has the fields of the ticket.\<close>

record authorized_human_input =
  input_computer :: string
  input_tab :: string
  input_computer_generation :: u64
  input_epoch :: human_lease_epoch
  input_expires_at :: instant

definition authorize_human_input_receipt ::
  "auth_context \<Rightarrow> human_input_ticket \<Rightarrow> instant \<Rightarrow> control_service
     \<Rightarrow> (control_error, authorized_human_input) result \<times> control_service" where
  "authorize_human_input_receipt auth ticket now =
     then_do (authorize_human_input auth ticket now) (\<lambda>_ s.
       (Ok \<lparr>input_computer = ticket_computer ticket, input_tab = ticket_tab ticket,
            input_computer_generation = ticket_computer_generation ticket, input_epoch = ticket_epoch ticket,
            input_expires_at = ticket_expires_at ticket\<rparr>, s))"

definition document_navigated :: "control_service \<Rightarrow> (control_error, control_snapshot) result \<times> control_service" where
  "document_navigated =
     then_do ensure_not_poisoned (\<lambda>_. then_do bump_epoch (\<lambda>_ s.
       let t = s\<lparr>lease := map_option (\<lambda>l. l\<lparr>lease_epoch := epoch s\<rparr>) (lease s)\<rparr>
       in (Ok (control_snapshot_of t), t)))"

definition computer_restarted ::
  "u64 \<Rightarrow> instant \<Rightarrow> control_service \<Rightarrow> (control_error, control_snapshot) result \<times> control_service" where
  "computer_restarted new_generation now s =
     (if new_generation \<le> computer_generation s then (Err ComputerGenerationDidNotAdvance, s)
      else let t = release_without_bump now
                     (s\<lparr>computer_generation := new_generation,
                       epoch := (case epoch_next (epoch s) of None \<Rightarrow> HumanLeaseEpoch 0 | Some succ \<Rightarrow> succ),
                       poisoned := False\<rparr>)
           in (Ok (control_snapshot_of t), t))"

section \<open>A service through a sequence of calls\<close>

datatype control_call =
    ReadState instant
  | RequestHelp "string option" instant
  | RequestSecret "string option" string u64
  | SecretSupplied pending_secret_target
  | Take auth_context instant instant
  | Release instant
  | AssertBot instant
  | IssueTicket instant
  | AuthorizeInput auth_context human_input_ticket instant
  | Navigated
  | Restarted u64 instant

text \<open>What the caller is told, accepted or refused, and the service after the call.\<close>

definition told :: "('e, 'a) result \<times> 's \<Rightarrow> ('e, unit) result \<times> 's" where
  "told = (\<lambda>(r, s). (map_sum id (\<lambda>_. ()) r, s))"

primrec control_do :: "control_call \<Rightarrow> control_service \<Rightarrow> (control_error, unit) result \<times> control_service" where
  "control_do (ReadState now) s = (Ok (), snd (control_read now s))"
| "control_do (RequestHelp reason now) s = (Ok (), snd (request_help reason now s))"
| "control_do (RequestSecret label field generation) s = told (request_secret label field generation s)"
| "control_do (SecretSupplied target) s = secret_supplied target s"
| "control_do (Take auth expires now) s = told (take_control auth expires now s)"
| "control_do (Release now) s = told (release_control now s)"
| "control_do (AssertBot now) s = assert_bot_may_act now s"
| "control_do (IssueTicket now) s = told (issue_human_input_ticket now s)"
| "control_do (AuthorizeInput auth ticket now) s = authorize_human_input auth ticket now s"
| "control_do Navigated s = told (document_navigated s)"
| "control_do (Restarted generation now) s = told (computer_restarted generation now s)"

primrec run_control :: "control_call list \<Rightarrow> control_service \<Rightarrow> control_service" where
  "run_control [] s = s"
| "run_control (c # cs) s = run_control cs (snd (control_do c s))"

text \<open>A lease exists exactly while a person holds the wheel, and names the computer, tab, generation and
  epoch of now; a poisoned service has none; a secret has a target exactly when it has a label.\<close>

definition control_inv :: "control_service \<Rightarrow> bool" where
  "control_inv s \<longleftrightarrow>
     (holder (ctl s) = Human \<longleftrightarrow> lease s \<noteq> None) \<and> (poisoned s \<longrightarrow> lease s = None)
     \<and> (case lease s of None \<Rightarrow> True | Some l \<Rightarrow>
          lease_computer l = computer_id s \<and> lease_tab l = tab_id s
          \<and> lease_computer_generation l = computer_generation s \<and> lease_epoch l = epoch s)
     \<and> (secret_wanted (ctl s) = None \<longleftrightarrow> pending_secret_target (ctl s) = None)"

text \<open>The fence of a service or ticket: the generation of the computer, then the epoch within it.\<close>

definition fence :: "u64 \<Rightarrow> human_lease_epoch \<Rightarrow> nat" where
  "fence generation e = unat generation * 2 ^ 64 + unat (epoch_get e)"

abbreviation service_fence :: "control_service \<Rightarrow> nat" where
  "service_fence s \<equiv> fence (computer_generation s) (epoch s)"

abbreviation ticket_fence :: "human_input_ticket \<Rightarrow> nat" where
  "ticket_fence t \<equiv> fence (ticket_computer_generation t) (ticket_epoch t)"

lemmas control_steps =
  then_do_def ensure_not_poisoned_def bump_epoch_def enter_poisoned_def release_without_bump_def
  released_state_def expire_human_lease_def expire_help_request_def told_def

lemmas control_ops =
  control_read_def request_help_def request_secret_def secret_supplied_def take_control_def release_control_def
  assert_bot_may_act_def issue_human_input_ticket_def authorize_human_input_def document_navigated_def
  computer_restarted_def lease_for_def Let_def

lemma epoch_next_some: "epoch_next e = Some e' \<longleftrightarrow> unat (epoch_get e') = unat (epoch_get e) + 1"
  by (cases e'; cases e) (auto simp: epoch_next_def checked_add_some)

lemma fence_generation: "fence g e < fence g' e'" if "g < g'"
proof -
  have "unat (epoch_get e) < 2 ^ 64" using unsigned_less [of "epoch_get e", where 'a = nat] by simp
  moreover have "unat g + 1 \<le> unat g'" using that by (simp add: word_less_nat_alt)
  then have "(unat g + 1) * 2 ^ 64 \<le> unat g' * 2 ^ 64" by (rule mult_le_mono1)
  ultimately show ?thesis by (simp add: fence_def)
qed

lemma fence_epoch: "epoch_next e = Some e' \<Longrightarrow> fence g e < fence g e'"
  by (simp add: epoch_next_some fence_def)

lemma control_do_inv: "control_inv s \<Longrightarrow> control_inv (snd (control_do c s))"
  by (cases c) (auto simp: control_inv_def control_steps control_ops split: option.splits if_splits)

interpretation control_machine: guarded_machine
    "\<lambda>s c. Ok (snd (control_do c s)) :: (control_error, control_service) result" control_inv
  by unfold_locales (simp, metis control_do_inv)

lemma run_control_eq: "run_control cs s = control_machine.run_events s cs"
  by (induction cs arbitrary: s) simp_all

lemma control_new_inv: "control_inv (control_new computer tab generation now)"
  by (simp add: control_inv_def control_new_def released_state_def)

lemma run_control_inv: "control_inv s \<Longrightarrow> control_inv (run_control cs s)"
  unfolding run_control_eq by (rule control_machine.run_events_inv)

lemmas fence_le = fence_epoch [THEN less_imp_le] fence_generation [THEN less_imp_le]

lemma control_do_fence: "service_fence s \<le> service_fence (snd (control_do c s))"
  by (cases c) (auto simp: control_steps control_ops not_le fence_le split: option.splits if_splits)

lemma run_control_fence: "service_fence s \<le> service_fence (run_control cs s)"
proof (induction cs arbitrary: s)
  case (Cons c cs)
  show ?case using control_do_fence [of s c] Cons.IH [of "snd (control_do c s)"] by simp
qed simp

text \<open>The calls that, when they are accepted, leave every ticket issued before them behind.\<close>

definition hands_over :: "control_call \<Rightarrow> bool" where
  "hands_over c \<longleftrightarrow> (case c of Take _ _ _ \<Rightarrow> True | Release _ \<Rightarrow> True | Navigated \<Rightarrow> True | Restarted _ _ \<Rightarrow> True | _ \<Rightarrow> False)"

lemma hands_over_fence:
  "hands_over c \<Longrightarrow> fst (control_do c s) = Ok () \<Longrightarrow> service_fence s < service_fence (snd (control_do c s))"
  by (cases c) (auto simp: hands_over_def control_steps control_ops not_le fence_epoch fence_generation
      split: option.splits if_splits)

lemma issued_ticket:
  assumes "control_inv s" "fst (issue_human_input_ticket now s) = Ok t"
  shows "snd (issue_human_input_ticket now s) = s \<and> now < ticket_expires_at t \<and> ticket_fence t = service_fence s"
  using assms by (auto simp: control_inv_def control_steps issue_human_input_ticket_def split: option.splits if_splits)

lemma authorized_ticket:
  assumes "control_inv s"
  shows "fst (authorize_human_input auth t now s) = Ok () \<longleftrightarrow>
     \<not> poisoned s \<and> now < ticket_expires_at t \<and> ticket_computer t = computer_id s \<and> ticket_tab t = tab_id s
     \<and> ticket_computer_generation t = computer_generation s \<and> ticket_epoch t = epoch s
     \<and> (\<exists>l. lease s = Some l \<and> lease_owner l = auth_actor auth
          \<and> lease_auth_generation l = auth_current_generation auth \<and> lease_ends_at l = ticket_expires_at t)"
  using assms
  by (auto simp: control_inv_def control_steps authorize_human_input_def split: option.splits if_splits)

text \<open>C35: A ticket from before the wheel changed hands is worthless for ever. Once a person has taken or
  released control, the document has navigated or the computer has restarted, no input that carries a
  ticket issued before is authorised again, for whatever actor, at whatever time and after whatever
  further calls, even where the epoch counter is exhausted and starts over.\<close>

theorem stale_ticket_never_authorised:
  assumes "s = run_control before (control_new computer tab generation started)"
    and "fst (issue_human_input_ticket now s) = Ok ticket"
    and "s' = run_control between (snd (issue_human_input_ticket now s))"
    and "hands_over c" "fst (control_do c s') = Ok ()"
  shows "fst (authorize_human_input auth ticket later (run_control after (snd (control_do c s')))) \<noteq> Ok ()"
proof -
  have inv: "control_inv s" by (simp add: assms(1) run_control_inv control_new_inv)
  let ?final = "run_control after (snd (control_do c s'))"
  have t: "ticket_fence ticket = service_fence s" and s': "s' = run_control between s"
    using issued_ticket [OF inv assms(2)] assms(3) by auto
  have "service_fence s \<le> service_fence s'" unfolding s' by (rule run_control_fence)
  moreover have "service_fence s' < service_fence (snd (control_do c s'))"
    by (rule hands_over_fence [OF assms(4,5)])
  moreover have "service_fence (snd (control_do c s')) \<le> service_fence ?final" by (rule run_control_fence)
  ultimately have "ticket_fence ticket < service_fence ?final" using t by linarith
  moreover have "control_inv ?final"
    using inv by (simp add: s' run_control_inv control_do_inv)
  ultimately show ?thesis by (auto simp: authorized_ticket)
qed

lemma no_lease_kept:
  assumes "lease s = None" "\<forall>auth expires now. c \<noteq> Take auth expires now"
  shows "lease (snd (control_do c s)) = None"
  using assms by (cases c) (auto simp: control_steps control_ops split: option.splits if_splits)

lemma bot_may_act:
  assumes "control_inv s"
  shows "fst (assert_bot_may_act now s) = Ok () \<Longrightarrow> lease (snd (assert_bot_may_act now s)) = None"
  using assms by (auto simp: control_inv_def control_steps assert_bot_may_act_def split: option.splits if_splits)

text \<open>One hand on the wheel. When the bot has been allowed to act, no input of a person is authorised
  until a person takes control again: not for any actor, ticket or time, and whatever else is called in
  between.\<close>

theorem one_hand_on_the_wheel:
  assumes "s = run_control before (control_new computer tab generation started)"
    and "fst (assert_bot_may_act now s) = Ok ()"
    and "\<forall>c\<in>set between. \<forall>a e n. c \<noteq> Take a e n"
  shows "fst (authorize_human_input auth ticket later (run_control between (snd (assert_bot_may_act now s)))) \<noteq> Ok ()"
proof -
  have inv: "control_inv s" by (simp add: assms(1) run_control_inv control_new_inv)
  let ?t = "snd (assert_bot_may_act now s)"
  have "lease (run_control cs t) = None" if "lease t = None" "\<forall>c\<in>set cs. \<forall>a e n. c \<noteq> Take a e n" for cs t
    using that by (induction cs arbitrary: t) (auto simp: no_lease_kept)
  then have "lease (run_control between ?t) = None" using bot_may_act [OF inv assms(2)] assms(3) by blast
  moreover have "control_inv (run_control between ?t)"
    using control_do_inv [OF inv, of "AssertBot now"] by (simp add: run_control_inv)
  ultimately show ?thesis by (simp add: authorized_ticket)
qed

theorem stale_ticket_never_authorised_witness:
  "let auth = \<lparr>auth_actor = ''alice'', auth_current_generation = AuthGeneration 3\<rparr>;
       s = run_control [Take auth 100 10] (control_new ''c'' ''t'' 1 0);
       ticket = \<lparr>ticket_computer = ''c'', ticket_tab = ''t'', ticket_computer_generation = 1,
                 ticket_epoch = HumanLeaseEpoch 1, ticket_expires_at = 100\<rparr>
   in fst (issue_human_input_ticket 20 s) = Ok ticket
     \<and> fst (authorize_human_input auth ticket 30 s) = Ok ()
     \<and> fst (authorize_human_input auth ticket 30 (snd (control_do Navigated s))) \<noteq> Ok ()"
proof -
  let ?auth = "\<lparr>auth_actor = ''alice'', auth_current_generation = AuthGeneration 3\<rparr>"
  let ?s = "run_control [Take ?auth 100 10] (control_new ''c'' ''t'' 1 0)"
  let ?ticket = "\<lparr>ticket_computer = ''c'', ticket_tab = ''t'', ticket_computer_generation = 1,
                 ticket_epoch = HumanLeaseEpoch 1, ticket_expires_at = 100\<rparr>"
  have steps: "epoch_next (HumanLeaseEpoch 0) = Some (HumanLeaseEpoch 1)" "epoch_next (HumanLeaseEpoch 1) = Some (HumanLeaseEpoch 2)"
    by (simp_all add: epoch_next_some)
  have issued: "issue_human_input_ticket 20 ?s = (Ok ?ticket, ?s)"
    by (simp add: control_steps control_ops control_new_def steps)
  moreover have "fst (authorize_human_input ?auth ?ticket 30 ?s) = Ok ()"
    by (simp add: control_steps control_ops control_new_def steps)
  moreover have "fst (control_do Navigated ?s) = Ok ()"
    by (simp add: control_steps control_ops control_new_def steps)
  then have "fst (authorize_human_input ?auth ?ticket 30 (run_control [] (snd (control_do Navigated ?s)))) \<noteq> Ok ()"
    using stale_ticket_never_authorised [of ?s "[Take ?auth 100 10]" "''c''" "''t''" 1 0 20 ?ticket ?s "[]" Navigated ?auth 30 "[]"]
      issued by (simp add: hands_over_def)
  ultimately show ?thesis unfolding Let_def by simp
qed

theorem one_hand_on_the_wheel_witness:
  "let auth = \<lparr>auth_actor = ''alice'', auth_current_generation = AuthGeneration 3\<rparr>;
       ticket = \<lparr>ticket_computer = ''c'', ticket_tab = ''t'', ticket_computer_generation = 1,
                 ticket_epoch = HumanLeaseEpoch 1, ticket_expires_at = 100\<rparr>;
       s = run_control [Take auth 100 10] (control_new ''c'' ''t'' 1 0)
   in fst (assert_bot_may_act 50 s) = Err HumanHasControl \<and> fst (assert_bot_may_act 100 s) = Ok ()
     \<and> fst (authorize_human_input auth ticket 99 (run_control [Navigated] (snd (assert_bot_may_act 100 s)))) \<noteq> Ok ()"
proof -
  let ?auth = "\<lparr>auth_actor = ''alice'', auth_current_generation = AuthGeneration 3\<rparr>"
  let ?ticket = "\<lparr>ticket_computer = ''c'', ticket_tab = ''t'', ticket_computer_generation = 1,
                 ticket_epoch = HumanLeaseEpoch 1, ticket_expires_at = 100\<rparr>"
  let ?s = "run_control [Take ?auth 100 10] (control_new ''c'' ''t'' 1 0)"
  have steps: "epoch_next (HumanLeaseEpoch 0) = Some (HumanLeaseEpoch 1)" "epoch_next (HumanLeaseEpoch 1) = Some (HumanLeaseEpoch 2)"
    by (simp_all add: epoch_next_some)
  have "fst (assert_bot_may_act 50 ?s) = Err HumanHasControl"
    by (simp add: control_steps control_ops control_new_def steps)
  moreover have "fst (assert_bot_may_act 100 ?s) = Ok ()"
    by (simp add: control_steps control_ops control_new_def steps)
  moreover from this have "fst (authorize_human_input ?auth ?ticket 99
      (run_control [Navigated] (snd (assert_bot_may_act 100 ?s)))) \<noteq> Ok ()"
    by (intro one_hand_on_the_wheel [OF refl]) simp_all
  ultimately show ?thesis unfolding Let_def by blast
qed

end
