(* ===== verification/Chunk.thy ===== *)
theory Chunk
  imports StdModel "HOL-Library.While_Combinator"
begin

text \<open>
  Cutting a stream of text into chunks, \<open>crates/openbot-application/src/chunk.rs\<close>: text is held back for
  at most 50 ms and at most 8 KiB, and a chunk never splits a character. The loop of \<open>push\<close> is a
  \<open>while_option\<close>, whose termination is proved; instants are in nanoseconds. A Rust \<open>str\<close> is valid UTF-8,
  of which \<open>utf8\<close> states the part the code relies on: a lead byte and its continuation bytes.
\<close>

section \<open>Character boundaries\<close>

definition is_continuation :: "char \<Rightarrow> bool" where
  "is_continuation c \<longleftrightarrow> 128 \<le> (of_char c :: nat) \<and> (of_char c :: nat) < 192"

definition is_char_boundary :: "string \<Rightarrow> nat \<Rightarrow> bool" where
  "is_char_boundary s i \<longleftrightarrow> i = 0 \<or> i = length s \<or> i < length s \<and> \<not> is_continuation (s ! i)"

fun boundary_below :: "string \<Rightarrow> nat \<Rightarrow> nat" where
  "boundary_below s 0 = 0"
| "boundary_below s (Suc n) = (if is_char_boundary s (Suc n) then Suc n else boundary_below s n)"

definition prefix_boundary :: "string \<Rightarrow> nat \<Rightarrow> nat" where
  "prefix_boundary s max_bytes = (if length s \<le> max_bytes then length s else boundary_below s max_bytes)"

text \<open>\<open>chars().next().map_or(0, char::len_utf8)\<close>.\<close>

definition first_scalar_len :: "string \<Rightarrow> nat" where
  "first_scalar_len s = (case scalars s of [] \<Rightarrow> 0 | (_, bytes) # _ \<Rightarrow> length bytes)"

section \<open>The accumulator\<close>

definition semantic_chunk_max_delay :: duration where "semantic_chunk_max_delay = 50000000"
definition semantic_chunk_max_bytes :: nat where "semantic_chunk_max_bytes = 8 * 1024"

record chunk_accumulator =
  pending :: string
  started_at :: "instant option"

definition accumulator_new :: chunk_accumulator where
  "accumulator_new = \<lparr>pending = [], started_at = None\<rparr>"

definition take_pending :: "chunk_accumulator \<Rightarrow> string \<times> chunk_accumulator" where
  "take_pending a = (pending a, \<lparr>pending = [], started_at = None\<rparr>)"

definition flush_due :: "instant \<Rightarrow> chunk_accumulator \<Rightarrow> string option \<times> chunk_accumulator" where
  "flush_due now a =
     (if case started_at a of None \<Rightarrow> False
         | Some started \<Rightarrow> max 0 (now - started) \<ge> semantic_chunk_max_delay
      then (let (c, a) = take_pending a in (Some c, a)) else (None, a))"

definition push_step ::
  "instant \<Rightarrow> string list \<times> chunk_accumulator \<times> string \<Rightarrow> string list \<times> chunk_accumulator \<times> string" where
  "push_step now = (\<lambda>(ready, a, remaining).
     let a = (if pending a = [] then a\<lparr>started_at := Some now\<rparr> else a);
         capacity = semantic_chunk_max_bytes - length (pending a)
     in if capacity < first_scalar_len remaining
        then (let (c, a) = take_pending a in (ready @ [c], a, remaining))
        else
          let n = prefix_boundary remaining capacity;
              a = a\<lparr>pending := pending a @ take n remaining\<rparr>;
              remaining = drop n remaining
          in if length (pending a) = semantic_chunk_max_bytes
             then (let (c, a) = take_pending a in (ready @ [c], a, remaining))
             else (ready, a, remaining))"

definition push :: "string \<Rightarrow> instant \<Rightarrow> chunk_accumulator \<Rightarrow> (string list \<times> chunk_accumulator) option" where
  "push delta now a =
     (let (due, a) = flush_due now a in
      map_option (\<lambda>(ready, a, _). (ready, a))
        (while_option (\<lambda>(_, _, remaining). remaining \<noteq> []) (push_step now)
          (case due of None \<Rightarrow> [] | Some c \<Rightarrow> [c], a, delta)))"

definition finish :: "chunk_accumulator \<Rightarrow> string option \<times> chunk_accumulator" where
  "finish a = (if pending a \<noteq> [] then (let (c, a) = take_pending a in (Some c, a)) else (None, a))"

definition next_deadline :: "chunk_accumulator \<Rightarrow> instant option" where
  "next_deadline a = map_option (\<lambda>started. started + semantic_chunk_max_delay) (started_at a)"

section \<open>Whole characters\<close>

definition is_scalar :: "string \<Rightarrow> bool" where
  "is_scalar c \<longleftrightarrow> (case c of
       [a] \<Rightarrow> (of_char a :: nat) < 128
     | [a, b] \<Rightarrow> 192 \<le> (of_char a :: nat) \<and> (of_char a :: nat) < 224 \<and> is_continuation b
     | [a, b, c] \<Rightarrow> 224 \<le> (of_char a :: nat) \<and> (of_char a :: nat) < 240 \<and> is_continuation b \<and> is_continuation c
     | [a, b, c, d] \<Rightarrow> 240 \<le> (of_char a :: nat) \<and> is_continuation b \<and> is_continuation c \<and> is_continuation d
     | _ \<Rightarrow> False)"

definition utf8 :: "string \<Rightarrow> bool" where
  "utf8 s \<longleftrightarrow> (\<exists>cs. s = concat cs \<and> (\<forall>c\<in>set cs. is_scalar c))"

lemma utf8_empty [simp]: "utf8 []"
  by (auto simp: utf8_def intro: exI [of _ "[]"])

lemma utf8_append: "utf8 s \<Longrightarrow> utf8 t \<Longrightarrow> utf8 (s @ t)"
  unfolding utf8_def by (metis Un_iff concat_append set_append)

lemma utf8_scalar: "is_scalar c \<Longrightarrow> utf8 c"
  by (auto simp: utf8_def intro: exI [of _ "[c]"])

lemma utf8_cases:
  assumes "utf8 s" "s \<noteq> []"
  obtains c rest where "s = c @ rest" "is_scalar c" "utf8 rest"
proof -
  obtain cs where cs: "s = concat cs" "\<forall>c\<in>set cs. is_scalar c" using assms(1) by (auto simp: utf8_def)
  with assms(2) obtain c cs' where "cs = c # cs'" by (cases cs) auto
  with cs that show thesis by (auto simp: utf8_def)
qed

lemma scalar_bytes:
  assumes "is_scalar c"
  shows "0 < length c" "length c \<le> 4" "\<not> is_continuation (c ! 0)"
    "\<And>i. 0 < i \<Longrightarrow> i < length c \<Longrightarrow> is_continuation (c ! i)"
    "first_scalar_len (c @ rest) = length c"
  using assms
  by (auto simp: is_scalar_def is_continuation_def first_scalar_len_def Let_def nth_Cons
      split: list.splits nat.splits)

lemma utf8_start: "utf8 s \<Longrightarrow> s \<noteq> [] \<Longrightarrow> \<not> is_continuation (s ! 0)"
  by (erule utf8_cases, assumption) (metis nth_append scalar_bytes(1,3))

lemma utf8_split:
  assumes "utf8 s" "is_char_boundary s i" "i \<le> length s"
  shows "utf8 (take i s) \<and> utf8 (drop i s)"
proof -
  obtain cs where "s = concat cs" "\<forall>c\<in>set cs. is_scalar c" using assms(1) by (auto simp: utf8_def)
  then show ?thesis
    using assms(2,3)
  proof (induction cs arbitrary: s i)
    case (Cons c cs)
    let ?rest = "concat cs"
    have c: "is_scalar c" and rest: "utf8 ?rest" using Cons.prems by (auto simp: utf8_def)
    have s: "s = c @ ?rest" using Cons.prems by simp
    consider "i = 0" | "0 < i" "i < length c" | "length c \<le> i" by linarith
    then show ?case
    proof cases
      case 1
      then show ?thesis using s utf8_append [OF utf8_scalar [OF c] rest] by simp
    next
      case 2
      then have "is_continuation (s ! i)" using scalar_bytes(4) [OF c] by (simp add: s nth_append)
      with 2 Cons.prems(3) show ?thesis by (simp add: is_char_boundary_def s)
    next
      case 3
      then have "is_char_boundary ?rest (i - length c)"
        using Cons.prems(3,4) scalar_bytes(1) [OF c] by (auto simp: is_char_boundary_def s nth_append)
      then have "utf8 (take (i - length c) ?rest) \<and> utf8 (drop (i - length c) ?rest)"
        using Cons.IH [of ?rest "i - length c"] Cons.prems(2,4) 3 by (simp add: s)
      then show ?thesis using 3 utf8_append [OF utf8_scalar [OF c]] by (simp add: s)
    qed
  qed simp
qed

lemma boundary_below: "is_char_boundary s (boundary_below s n) \<and> boundary_below s n \<le> n"
  by (induction n) (auto simp: is_char_boundary_def)

lemma boundary_below_ge: "is_char_boundary s i \<Longrightarrow> i \<le> n \<Longrightarrow> i \<le> boundary_below s n"
  by (induction n) (auto simp: le_Suc_eq)

lemma prefix_boundary:
  assumes "utf8 s" "s \<noteq> []" "first_scalar_len s \<le> n"
  shows "0 < prefix_boundary s n" "prefix_boundary s n \<le> n" "prefix_boundary s n \<le> length s"
    "utf8 (take (prefix_boundary s n) s)" "utf8 (drop (prefix_boundary s n) s)"
proof -
  obtain c rest where s: "s = c @ rest" and c: "is_scalar c" and rest: "utf8 rest"
    using utf8_cases [OF assms(1,2)] by blast
  have "is_char_boundary s (length c)"
    using utf8_start [OF rest] by (cases rest) (auto simp: is_char_boundary_def s nth_append)
  moreover have "length c \<le> n" using assms(3) scalar_bytes(5) [OF c] by (simp add: s)
  ultimately have "length c \<le> boundary_below s n" by (rule boundary_below_ge)
  then have "0 < boundary_below s n" using scalar_bytes(1) [OF c] by linarith
  then show "0 < prefix_boundary s n" using assms(2) by (simp add: prefix_boundary_def)
  show n: "prefix_boundary s n \<le> n" "prefix_boundary s n \<le> length s"
    using boundary_below [of s n] by (auto simp: prefix_boundary_def)
  have "is_char_boundary s (prefix_boundary s n)"
    using boundary_below [of s n] by (auto simp: prefix_boundary_def is_char_boundary_def)
  then show "utf8 (take (prefix_boundary s n) s)" "utf8 (drop (prefix_boundary s n) s)"
    using utf8_split [OF assms(1)] n by blast+
qed

section \<open>What the accumulator keeps\<close>

definition accumulator_inv :: "chunk_accumulator \<Rightarrow> bool" where
  "accumulator_inv a \<longleftrightarrow> utf8 (pending a) \<and> length (pending a) < semantic_chunk_max_bytes
     \<and> (started_at a = None \<longleftrightarrow> pending a = [])"

definition chunk_ok :: "string \<Rightarrow> bool" where
  "chunk_ok c \<longleftrightarrow> c \<noteq> [] \<and> length c \<le> semantic_chunk_max_bytes \<and> utf8 c"

definition push_inv :: "string \<Rightarrow> string list \<times> chunk_accumulator \<times> string \<Rightarrow> bool" where
  "push_inv whole = (\<lambda>(ready, a, remaining).
     accumulator_inv a \<and> utf8 remaining \<and> list_all chunk_ok ready \<and> concat ready @ pending a @ remaining = whole)"

lemma push_step_inv:
  assumes "push_inv whole (ready, a, remaining)" "remaining \<noteq> []"
  shows "push_inv whole (push_step now (ready, a, remaining))
    \<and> (case push_step now (ready, a, remaining) of (_, a', remaining') \<Rightarrow>
         2 * length remaining' + (if pending a' = [] then 0 else 1) < 2 * length remaining + (if pending a = [] then 0 else (1::nat)))"
proof -
  let ?capacity = "semantic_chunk_max_bytes - length (pending a)"
  let ?n = "prefix_boundary remaining ?capacity"
  have inv: "accumulator_inv a" "utf8 remaining" "list_all chunk_ok ready" "concat ready @ pending a @ remaining = whole"
    using assms(1) by (simp_all add: push_inv_def)
  have first: "first_scalar_len remaining \<le> 4"
    using utf8_cases [OF inv(2) assms(2)] scalar_bytes(2,5) by metis
  show ?thesis
  proof (cases "?capacity < first_scalar_len remaining")
    case True
    then have "pending a \<noteq> []" using first by (auto simp: semantic_chunk_max_bytes_def)
    with True inv show ?thesis
      by (auto simp: push_step_def push_inv_def take_pending_def Let_def accumulator_inv_def chunk_ok_def)
  next
    case False
    have n: "0 < ?n" "?n \<le> ?capacity" "?n \<le> length remaining" "utf8 (take ?n remaining)" "utf8 (drop ?n remaining)"
      using prefix_boundary [OF inv(2) assms(2)] False by (meson not_less)+
    have taken: "utf8 (pending a @ take ?n remaining)" "pending a @ take ?n remaining \<noteq> []"
      "length (pending a @ take ?n remaining) \<le> semantic_chunk_max_bytes"
      using inv(1) n utf8_append by (auto simp: accumulator_inv_def)
    have "concat ready @ (pending a @ take ?n remaining) @ drop ?n remaining = whole" using inv(4) by simp
    with False inv n taken show ?thesis
      by (auto simp: push_step_def push_inv_def take_pending_def Let_def accumulator_inv_def chunk_ok_def)
  qed
qed

text \<open>The loop of \<open>push\<close> ends: every round shortens what remains, or empties a buffer that a character
  does not fit into.\<close>

lemma push_loop:
  assumes "push_inv whole (ready, a, delta)"
  shows "\<exists>ready' a'. while_option (\<lambda>(_, _, remaining). remaining \<noteq> []) (push_step now) (ready, a, delta)
      = Some (ready', a', []) \<and> push_inv whole (ready', a', [])"
proof -
  let ?left = "\<lambda>(_, a, remaining). 2 * length remaining + (if pending a = [] then 0 else (1::nat))"
  have step: "push_inv whole (push_step now s) \<and> ?left (push_step now s) < ?left s"
    if "push_inv whole s" "case s of (_, _, remaining) \<Rightarrow> remaining \<noteq> []" for s
    using that push_step_inv [of whole "fst s" "fst (snd s)" "snd (snd s)" now] by (cases s) auto
  have "\<exists>t. while_option (\<lambda>(_, _, remaining). remaining \<noteq> []) (push_step now) (ready, a, delta) = Some t"
    by (rule measure_while_option_Some [where P = "push_inv whole" and f = ?left]) (use step assms in auto)
  then obtain t where t: "while_option (\<lambda>(_, _, remaining). remaining \<noteq> []) (push_step now) (ready, a, delta) = Some t"
    by blast
  moreover have "push_inv whole t"
    by (rule while_option_rule [OF _ t]) (use step assms in auto)
  moreover have "snd (snd t) = []" using while_option_stop [OF t] by (cases t) auto
  ultimately show ?thesis by (cases t) auto
qed

lemma flush_due_ok:
  assumes "accumulator_inv a"
  shows "case flush_due now a of (due, a') \<Rightarrow> accumulator_inv a'
    \<and> (case due of None \<Rightarrow> a' = a | Some c \<Rightarrow> chunk_ok c \<and> pending a = c \<and> pending a' = [])
    \<and> (\<forall>started. started_at a' = Some started \<longrightarrow> now - started < semantic_chunk_max_delay)"
  using assms
  by (auto simp: flush_due_def take_pending_def accumulator_inv_def chunk_ok_def semantic_chunk_max_bytes_def
      split: option.splits if_splits)

lemma push_ok:
  assumes "accumulator_inv a" "utf8 delta"
  shows "\<exists>ready a'. push delta now a = Some (ready, a') \<and> accumulator_inv a' \<and> list_all chunk_ok ready
    \<and> concat ready @ pending a' = pending a @ delta"
proof -
  obtain due b where due: "flush_due now a = (due, b)" by (cases "flush_due now a")
  let ?ready = "case due of None \<Rightarrow> [] | Some c \<Rightarrow> [c]"
  have "push_inv (pending a @ delta) (?ready, b, delta)"
    using flush_due_ok [OF assms(1), of now] assms(2) by (auto simp: due push_inv_def split: option.splits)
  from push_loop [OF this, of now] show ?thesis by (auto simp: push_def due push_inv_def)
qed

section \<open>A whole stream\<close>

datatype chunk_event = Push string instant | FlushDue instant | Finish

primrec chunk_step :: "chunk_event \<Rightarrow> chunk_accumulator \<Rightarrow> (string list \<times> chunk_accumulator) option" where
  "chunk_step (Push delta now) a = push delta now a"
| "chunk_step (FlushDue now) a = (let (c, a) = flush_due now a in Some (case c of None \<Rightarrow> [] | Some c \<Rightarrow> [c], a))"
| "chunk_step Finish a = (let (c, a) = finish a in Some (case c of None \<Rightarrow> [] | Some c \<Rightarrow> [c], a))"

primrec run_chunks :: "chunk_event list \<Rightarrow> chunk_accumulator \<Rightarrow> (string list \<times> chunk_accumulator) option" where
  "run_chunks [] a = Some ([], a)"
| "run_chunks (e # es) a =
     (case chunk_step e a of None \<Rightarrow> None
      | Some (ready, a) \<Rightarrow> map_option (\<lambda>(more, a). (ready @ more, a)) (run_chunks es a))"

fun delta_of :: "chunk_event \<Rightarrow> string" where
  "delta_of (Push delta _) = delta"
| "delta_of _ = []"

lemma chunk_step_ok:
  assumes "accumulator_inv a" "utf8 (delta_of e)"
  shows "\<exists>ready a'. chunk_step e a = Some (ready, a') \<and> accumulator_inv a' \<and> list_all chunk_ok ready
    \<and> concat ready @ pending a' = pending a @ delta_of e"
proof (cases e)
  case (Push delta now)
  then show ?thesis using push_ok assms by simp
next
  case (FlushDue now)
  then show ?thesis using flush_due_ok [OF assms(1), of now] by (auto split: option.splits)
next
  case Finish
  then show ?thesis
    using assms by (auto simp: finish_def take_pending_def accumulator_inv_def chunk_ok_def semantic_chunk_max_bytes_def)
qed

lemma run_chunks_ok:
  "accumulator_inv a \<Longrightarrow> \<forall>e\<in>set es. utf8 (delta_of e) \<Longrightarrow>
     \<exists>ready a'. run_chunks es a = Some (ready, a') \<and> accumulator_inv a' \<and> list_all chunk_ok ready
       \<and> concat ready @ pending a' = pending a @ concat (map delta_of es)"
proof (induction es arbitrary: a)
  case (Cons e es)
  then obtain ready b where b: "chunk_step e a = Some (ready, b)" "accumulator_inv b" "list_all chunk_ok ready"
      "concat ready @ pending b = pending a @ delta_of e"
    using chunk_step_ok [of a e] by auto
  then obtain more c where c: "run_chunks es b = Some (more, c)" "accumulator_inv c" "list_all chunk_ok more"
      "concat more @ pending c = pending b @ concat (map delta_of es)"
    using Cons.IH [of b] Cons.prems(2) by auto
  have "concat (ready @ more) @ pending c = pending a @ concat (map delta_of (e # es))"
    using b(4) c(4) by (metis append_assoc concat.simps(2) concat_append list.simps(9))
  with b c show ?case by auto
qed simp

lemma accumulator_new_inv: "accumulator_inv accumulator_new"
  by (simp add: accumulator_inv_def accumulator_new_def semantic_chunk_max_bytes_def)

text \<open>C36: Cutting a stream loses nothing and always ends. Whatever text arrives at whatever times, with
  flushes in between, every call returns; the chunks handed out, followed by what is still pending, are
  exactly the text that came in, in order; every chunk is non-empty, at most 8 KiB and made of whole
  characters; and after \<open>finish\<close> nothing is pending.\<close>

theorem chunks_are_the_stream:
  assumes "\<forall>e\<in>set es. utf8 (delta_of e)"
  shows "\<exists>chunks a. run_chunks es accumulator_new = Some (chunks, a)
    \<and> concat chunks @ pending a = concat (map delta_of es)
    \<and> (\<forall>c\<in>set chunks. c \<noteq> [] \<and> length c \<le> 8192 \<and> utf8 c) \<and> length (pending a) < 8192
    \<and> pending (snd (finish a)) = []"
proof -
  obtain chunks a where a: "run_chunks es accumulator_new = Some (chunks, a)" "accumulator_inv a"
      "list_all chunk_ok chunks" "concat chunks @ pending a = concat (map delta_of es)"
    using run_chunks_ok [OF accumulator_new_inv assms] by (auto simp: accumulator_new_def)
  moreover have "pending (snd (finish a)) = []" by (simp add: finish_def take_pending_def)
  ultimately show ?thesis
    by (auto simp: accumulator_inv_def chunk_ok_def list_all_iff semantic_chunk_max_bytes_def)
qed

theorem chunks_are_the_stream_witness:
  "\<exists>chunks a. run_chunks [Push ''ab'' 0, Push ''cd'' 10, FlushDue 50000000, Push ''e'' 60000000] accumulator_new
      = Some (chunks, a) \<and> concat chunks @ pending a = ''abcde''"
proof -
  have "utf8 s" if "\<forall>c\<in>set s. (of_char c :: nat) < 128" for s
    using that by (auto simp: utf8_def is_scalar_def intro!: exI [of _ "map (\<lambda>c. [c]) s"])
  then show ?thesis
    using chunks_are_the_stream [of "[Push ''ab'' 0, Push ''cd'' 10, FlushDue 50000000, Push ''e'' 60000000]"]
    by fastforce
qed

end
