(* ===== verification/Provider.thy ===== *)
theory Provider
  imports StdModel
begin

text \<open>
  Sampling ports, \<open>crates/openbot-agent/src/retry.rs\<close> and \<open>provider_router.rs\<close> with the events and
  failures of \<open>crates/openbot-application/src/provider.rs\<close>: a provider that retries what failed before its
  stream began, and the choice of a provider by route. The wrapped provider and its session are traits:
  \<open>inner k\<close> is what its \<open>k\<close>-th start answers, and a session is the sequence of its answers. A duration is
  its number of nanoseconds; \<open>random k\<close> is what the system's generator returns in the \<open>k\<close>-th wait.
\<close>

section \<open>Events and failures\<close>

datatype provider_output_kind = OutputMessage | OutputReasoning | OutputFunctionCall | OutputExtension

record provider_usage =
  input_tokens :: u64
  output_tokens :: u64
  total_tokens :: u64

datatype provider_failure =
    Authentication
  | RateLimited (retry_after: "nat option")
  | ServerUnavailable (retry_after: "nat option")
  | InvalidResponse
  | StreamStalled
  | Transport
  | GenerationFailed

text \<open>Remote projections and interrupt batches are carried, not read.\<close>

datatype ('p, 'i) provider_event =
    ResponseStarted string
  | OutputItemAdded u32 provider_output_kind
  | TextDelta u32 string
  | ReasoningDelta u32 string
  | RemoteProjection 'p
  | Interrupted 'i
  | ToolCallStarted u32 string "string option"
  | ToolArgumentsDelta u32 string string
  | ToolCallCompleted u32 string string json
  | Usage provider_usage
  | ProviderCompleted
  | ProviderFailed provider_failure

datatype provider_port_error = InvalidRequest string | Unavailable | CommitUnknown

type_synonym ('p, 'i) session_answer = "(provider_port_error, ('p, 'i) provider_event option) result"
type_synonym ('p, 'i) provider_session = "nat \<Rightarrow> ('p, 'i) session_answer"

section \<open>How long to wait\<close>

text \<open>\<open>core::time::Duration\<close> holds 64 bits of seconds.\<close>

definition duration_limit :: nat where "duration_limit = 2 ^ 64 * 1000000000"

definition duration_checked_mul :: "nat \<Rightarrow> u32 \<Rightarrow> nat option" where
  "duration_checked_mul d factor = (if d * unat factor < duration_limit then Some (d * unat factor) else None)"

definition u128_max :: nat where "u128_max = 2 ^ 128 - 1"

definition duration_from_nanos :: "nat \<Rightarrow> nat" where
  "duration_from_nanos nanos =
     min (2 ^ 64 - 1) (nanos div 1000000000) * 1000000000 + nanos mod 1000000000"

definition jittered :: "nat \<Rightarrow> nat \<Rightarrow> u64 option \<Rightarrow> nat" where
  "jittered base limit random =
     (case random of None \<Rightarrow> base
      | Some fraction \<Rightarrow>
          let extra = min u128_max (base * unat fraction) div 2 ^ 64
          in min limit (duration_from_nanos (min u128_max (base + extra))))"

record retrying_provider_config =
  max_retries :: u8
  base_delay :: nat
  max_delay :: nat
  jitter :: bool

definition default_retrying_provider_config :: retrying_provider_config where
  "default_retrying_provider_config =
     \<lparr>max_retries = 6, base_delay = 1000000000, max_delay = 64000000000, jitter = True\<rparr>"

definition config_validate :: "retrying_provider_config \<Rightarrow> (provider_port_error, retrying_provider_config) result" where
  "config_validate c =
     (if max_retries c > 16 \<or> base_delay c = 0 \<or> max_delay c < base_delay c
      then Err (InvalidRequest ''provider_retry_config'') else Ok c)"

definition retry_delay :: "retrying_provider_config \<Rightarrow> u8 \<Rightarrow> nat option \<Rightarrow> u64 option \<Rightarrow> nat" where
  "retry_delay c retry_index hint random =
     (let exponent = unat (min retry_index 31);
          factor = push_bit exponent 1 :: u32;
          exponential = min (case duration_checked_mul (base_delay c) factor of None \<Rightarrow> max_delay c | Some d \<Rightarrow> d) (max_delay c);
          exponential = (if jitter c then jittered exponential (max_delay c) random else exponential)
      in case hint of None \<Rightarrow> exponential | Some h \<Rightarrow> max h exponential)"

section \<open>Starting with retries\<close>

text \<open>What makes an attempt worth repeating, and the delay the provider asked for.\<close>

definition first_event_hint :: "('p, 'i) session_answer \<Rightarrow> nat option option" where
  "first_event_hint answer =
     (case answer of
        Inr (Some (ProviderFailed (RateLimited after))) \<Rightarrow> Some after
      | Inr (Some (ProviderFailed (ServerUnavailable after))) \<Rightarrow> Some after
      | _ \<Rightarrow> None)"

text \<open>A session whose first answer has been read ahead; \<open>position\<close> counts what was taken from the inner one.\<close>

record ('p, 'i) prefetched_session =
  first_answer :: "('p, 'i) session_answer option"
  inner_session :: "('p, 'i) provider_session"
  position :: nat

definition prefetched_next ::
  "('p, 'i) prefetched_session \<Rightarrow> ('p, 'i) session_answer \<times> ('p, 'i) prefetched_session" where
  "prefetched_next s =
     (case first_answer s of
        Some first \<Rightarrow> (first, s\<lparr>first_answer := None\<rparr>)
      | None \<Rightarrow> (inner_session s (position s), s\<lparr>position := position s + 1\<rparr>))"

lemma u8_succ:
  assumes "r < m"
  shows "unat (r + 1 :: u8) = unat r + 1"
proof -
  have "unat r + 1 < 2 ^ 8"
    using assms unsigned_less [of m, where 'a = nat] by (simp add: word_less_nat_alt)
  then show ?thesis by (simp add: unat_word_ariths)
qed

text \<open>The loop answers with the session or the error, and the waits it slept through.\<close>

function retry_start ::
  "retrying_provider_config \<Rightarrow> (nat \<Rightarrow> (provider_port_error, ('p, 'i) provider_session) result)
     \<Rightarrow> (nat \<Rightarrow> u64 option) \<Rightarrow> u8
     \<Rightarrow> (provider_port_error, ('p, 'i) prefetched_session) result \<times> nat list" where
  "retry_start c inner random retries =
     (case inner (unat retries) of
        Inl e \<Rightarrow>
          if e = Unavailable \<and> retries < max_retries c
          then (let (r, waits) = retry_start c inner random (retries + 1)
                in (r, retry_delay c retries None (random (unat retries)) # waits))
          else (Err e, [])
      | Inr session \<Rightarrow>
          (case (if retries < max_retries c then first_event_hint (session 0) else None) of
             Some hint \<Rightarrow>
               (let (r, waits) = retry_start c inner random (retries + 1)
                in (r, retry_delay c retries hint (random (unat retries)) # waits))
           | None \<Rightarrow> (Ok \<lparr>first_answer = Some (session 0), inner_session = session, position = 1\<rparr>, [])))"
  by pat_completeness auto

termination
  by (relation "measure (\<lambda>(c, _, _, retries). unat (max_retries c) - unat retries)")
    (auto simp: u8_succ word_less_nat_alt split: if_splits)

section \<open>Choosing a provider\<close>

datatype ('m, 'r) provider_route = PackageOpenAi | Managed | RemoteAgUi 'r | CustomModel 'm

record ('q, 's) provider_router =
  package_openai :: "'q \<Rightarrow> (provider_port_error, 's) result"
  managed :: "('q \<Rightarrow> (provider_port_error, 's) result) option"
  remote_agui :: "('q \<Rightarrow> (provider_port_error, 's) result) option"
  custom :: "('q \<Rightarrow> (provider_port_error, 's) result) option"

definition router_start ::
  "('q \<Rightarrow> ('m, 'r) provider_route) \<Rightarrow> ('q, 's) provider_router \<Rightarrow> 'q \<Rightarrow> (provider_port_error, 's) result" where
  "router_start route router request =
     (case route request of
        CustomModel _ \<Rightarrow>
          (case custom router of Some start \<Rightarrow> start request | None \<Rightarrow> Err (InvalidRequest ''custom_model_unavailable''))
      | PackageOpenAi \<Rightarrow> package_openai router request
      | Managed \<Rightarrow> (case managed router of Some start \<Rightarrow> start request | None \<Rightarrow> Err Unavailable)
      | RemoteAgUi _ \<Rightarrow> (case remote_agui router of Some start \<Rightarrow> start request | None \<Rightarrow> Err Unavailable))"

section \<open>The retries\<close>

text \<open>An attempt that may be repeated, with the delay it asks for.\<close>

definition retry_hint :: "(provider_port_error, ('p, 'i) provider_session) result \<Rightarrow> nat option option" where
  "retry_hint attempt =
     (case attempt of Inl e \<Rightarrow> if e = Unavailable then Some None else None
      | Inr session \<Rightarrow> first_event_hint (session 0))"

definition attempt_answer ::
  "(provider_port_error, ('p, 'i) provider_session) result \<Rightarrow> (provider_port_error, ('p, 'i) prefetched_session) result" where
  "attempt_answer = map_sum id (\<lambda>session. \<lparr>first_answer = Some (session 0), inner_session = session, position = 1\<rparr>)"

text \<open>The attempt that counts: the first from \<open>k\<close> on that may not be repeated, or the last allowed one.\<close>

definition last_attempt :: "(nat \<Rightarrow> (provider_port_error, ('p, 'i) provider_session) result) \<Rightarrow> nat \<Rightarrow> nat \<Rightarrow> nat" where
  "last_attempt inner k m = k + length (takeWhile (\<lambda>i. retry_hint (inner i) \<noteq> None) [k..<m])"

definition wait_of ::
  "retrying_provider_config \<Rightarrow> (nat \<Rightarrow> (provider_port_error, ('p, 'i) provider_session) result) \<Rightarrow> (nat \<Rightarrow> u64 option)
     \<Rightarrow> nat \<Rightarrow> nat" where
  "wait_of c inner random i = retry_delay c (of_nat i) (the (retry_hint (inner i))) (random i)"

declare retry_start.simps [simp del]

lemma retry_start_step:
  "retry_start c inner random retries =
     (if retries < max_retries c \<and> retry_hint (inner (unat retries)) \<noteq> None
      then (let (r, waits) = retry_start c inner random (retries + 1)
            in (r, wait_of c inner random (unat retries) # waits))
      else (attempt_answer (inner (unat retries)), []))"
  by (subst retry_start.simps)
    (auto simp: retry_hint_def wait_of_def attempt_answer_def split: sum.splits option.splits)

lemma last_attempt_eq:
  "last_attempt inner k m = (if k < m \<and> retry_hint (inner k) \<noteq> None then last_attempt inner (k + 1) m else k)"
  by (cases "k < m") (auto simp: last_attempt_def upt_conv_Cons)

lemma last_attempt_ge: "k \<le> last_attempt inner k m"
  by (simp add: last_attempt_def)

lemma retry_start_eq:
  "retries \<le> max_retries c \<Longrightarrow>
   retry_start c inner random retries =
     (let n = last_attempt inner (unat retries) (unat (max_retries c))
      in (attempt_answer (inner n), map (wait_of c inner random) [unat retries..<n]))"
proof (induction "unat (max_retries c) - unat retries" arbitrary: retries)
  case 0
  then have "\<not> retries < max_retries c" by (simp add: word_less_nat_alt)
  then show ?case
    by (subst retry_start_step, subst last_attempt_eq) (simp add: word_less_nat_alt Let_def)
next
  case (Suc d)
  let ?n = "last_attempt inner (unat retries) (unat (max_retries c))"
  have less: "retries < max_retries c" using Suc.hyps(2) by (simp add: word_less_nat_alt)
  then have succ: "unat (retries + 1) = unat retries + 1" by (rule u8_succ)
  show ?case
  proof (cases "retry_hint (inner (unat retries)) = None")
    case True
    then show ?thesis by (subst retry_start_step, subst last_attempt_eq) (simp add: Let_def)
  next
    case False
    then have n: "?n = last_attempt inner (unat retries + 1) (unat (max_retries c))"
      using less by (subst last_attempt_eq) (simp add: word_less_nat_alt)
    have "d = unat (max_retries c) - unat (retries + 1)" using Suc.hyps(2) succ by simp
    moreover have "retries + 1 \<le> max_retries c" using less succ by (simp add: word_le_nat_alt word_less_nat_alt)
    ultimately have "retry_start c inner random (retries + 1) =
        (attempt_answer (inner ?n), map (wait_of c inner random) [unat retries + 1..<?n])"
      using Suc.hyps(1) [of "retries + 1"] by (simp add: succ n Let_def)
    moreover have "unat retries < ?n" using last_attempt_ge [of "unat retries + 1" inner] n by (metis Suc_eq_plus1 Suc_le_lessD)
    ultimately show ?thesis
      using less False by (subst retry_start_step) (simp add: Let_def upt_conv_Cons)
  qed
qed

lemma last_attempt_bounds:
  assumes "k \<le> m"
  shows "k \<le> last_attempt inner k m" "last_attempt inner k m \<le> m"
    "\<And>i. k \<le> i \<Longrightarrow> i < last_attempt inner k m \<Longrightarrow> retry_hint (inner i) \<noteq> None"
    "last_attempt inner k m < m \<Longrightarrow> retry_hint (inner (last_attempt inner k m)) = None"
proof -
  let ?P = "\<lambda>i. retry_hint (inner i) \<noteq> None"
  let ?t = "takeWhile ?P [k..<m]"
  have len: "length ?t \<le> m - k" using length_takeWhile_le [of ?P "[k..<m]"] by simp
  then show "k \<le> last_attempt inner k m" "last_attempt inner k m \<le> m"
    using assms by (simp_all add: last_attempt_def)
  show "retry_hint (inner i) \<noteq> None" if "k \<le> i" "i < last_attempt inner k m" for i
  proof -
    have "i - k < length ?t" using that by (simp add: last_attempt_def)
    then have "?t ! (i - k) = i" using that len by (subst takeWhile_nth) simp_all
    then show ?thesis using set_takeWhileD [of i ?P "[k..<m]"] nth_mem [OF \<open>i - k < length ?t\<close>] by simp
  qed
  show "retry_hint (inner (last_attempt inner k m)) = None" if "last_attempt inner k m < m"
  proof -
    have "length ?t < length [k..<m]" using that by (simp add: last_attempt_def)
    then have "\<not> ?P ([k..<m] ! length ?t)" by (rule nth_length_takeWhile)
    then show ?thesis using that by (simp add: last_attempt_def)
  qed
qed

text \<open>What a reader of the session gets, one answer after the other.\<close>

primrec read_answers :: "nat \<Rightarrow> ('p, 'i) prefetched_session \<Rightarrow> ('p, 'i) session_answer list" where
  "read_answers 0 s = []"
| "read_answers (Suc n) s = (let (answer, s) = prefetched_next s in answer # read_answers n s)"

lemma read_answers_inner:
  "first_answer s = None \<Longrightarrow> read_answers n s = map (inner_session s) [position s..<position s + n]"
proof (induction n arbitrary: s)
  case (Suc n)
  let ?s' = "s\<lparr>position := position s + 1\<rparr>"
  have "read_answers (Suc n) s = inner_session s (position s) # read_answers n ?s'"
    using Suc.prems by (simp add: prefetched_next_def)
  also have "read_answers n ?s' = map (inner_session s) [position s + 1..<position s + 1 + n]"
    using Suc.IH [of ?s'] Suc.prems by simp
  finally show ?case by (simp add: upt_conv_Cons del: upt_Suc)
qed simp

lemma read_answers_prefetched:
  "read_answers n \<lparr>first_answer = Some (session 0), inner_session = session, position = Suc 0\<rparr> = map session [0..<n]"
proof (cases n)
  case (Suc m)
  then show ?thesis
    using read_answers_inner [of "\<lparr>first_answer = None, inner_session = session, position = 1\<rparr>" m]
    by (simp add: prefetched_next_def upt_conv_Cons del: upt_Suc)
qed simp

text \<open>When an attempt may be repeated: it was refused before it left the process, or its very first event said
  that it was not begun for overload or an unavailable server. Such an event may ask for a delay.\<close>

definition never_began :: "(provider_port_error, ('p, 'i) provider_session) result \<Rightarrow> bool" where
  "never_began attempt \<longleftrightarrow> attempt = Err Unavailable
     \<or> (\<exists>session after. attempt = Ok session
         \<and> (session 0 = Ok (Some (ProviderFailed (RateLimited after)))
            \<or> session 0 = Ok (Some (ProviderFailed (ServerUnavailable after)))))"

fun asked_delay :: "(provider_port_error, ('p, 'i) provider_session) result \<Rightarrow> nat" where
  "asked_delay (Inr session) =
     (case session 0 of
        Inr (Some (ProviderFailed (RateLimited (Some delay)))) \<Rightarrow> delay
      | Inr (Some (ProviderFailed (ServerUnavailable (Some delay)))) \<Rightarrow> delay
      | _ \<Rightarrow> 0)"
| "asked_delay (Inl _) = 0"

lemma retry_hint_never_began: "retry_hint attempt \<noteq> None \<longleftrightarrow> never_began attempt"
  by (cases attempt)
    (auto simp: retry_hint_def first_event_hint_def never_began_def
      split: sum.splits option.splits provider_event.splits provider_failure.splits)

lemma retry_hint_asked: "retry_hint attempt = Some (Some delay) \<Longrightarrow> asked_delay attempt = delay"
  "retry_hint attempt = Some None \<Longrightarrow> asked_delay attempt = 0"
  by (cases attempt;
      auto simp: retry_hint_def first_event_hint_def
        split: sum.splits option.splits provider_event.splits provider_failure.splits if_splits)+

lemma wait_of_asked: "retry_hint (inner i) \<noteq> None \<Longrightarrow> asked_delay (inner i) \<le> wait_of c inner random i"
proof -
  assume "retry_hint (inner i) \<noteq> None"
  then obtain h where h: "retry_hint (inner i) = Some h" by blast
  show ?thesis
    using retry_hint_asked [of "inner i"] h by (cases h) (auto simp: wait_of_def retry_delay_def Let_def)
qed

text \<open>C37: Retrying repeats only what never began. A start ends after at most \<open>max_retries\<close> waits. Every
  attempt before the one that counts was refused as unavailable or failed in its very first event for
  overload or an unavailable server, and was followed by a wait at least as long as that event asked for; the
  attempt that counts was neither, unless the retries are used up. So a request that may have left the
  process, or a stream that began with anything else, a failure of another kind included, is never sent again.
  The answer is that attempt's, its error or its session, and the session is read from the first event on
  without loss, repetition or change of order.\<close>

theorem retry_never_replays_a_stream:
  assumes "retry_start c inner random 0 = (answer, waits)"
  shows "length waits \<le> unat (max_retries c)
    \<and> (\<forall>i<length waits. never_began (inner i) \<and> asked_delay (inner i) \<le> waits ! i)
    \<and> (length waits < unat (max_retries c) \<longrightarrow> \<not> never_began (inner (length waits)))
    \<and> (case inner (length waits) of Inl e \<Rightarrow> answer = Err e
        | Inr session \<Rightarrow> \<exists>s. answer = Ok s \<and> (\<forall>n. read_answers n s = map session [0..<n]))"
proof -
  let ?n = "last_attempt inner 0 (unat (max_retries c))"
  have r: "answer = attempt_answer (inner ?n)" and w: "waits = map (wait_of c inner random) [0..<?n]"
    using retry_start_eq [of 0 c inner random] assms by (auto simp: Let_def)
  have n: "length waits = ?n" by (simp add: w)
  have "case inner ?n of Inl e \<Rightarrow> answer = Err e
      | Inr session \<Rightarrow> \<exists>s. answer = Ok s \<and> (\<forall>n. read_answers n s = map session [0..<n])"
    by (auto simp: r attempt_answer_def read_answers_prefetched split: sum.splits)
  moreover note last_attempt_bounds [where k = 0 and m = "unat (max_retries c)" and inner = inner]
  ultimately show ?thesis
    unfolding n by (auto simp: w retry_hint_never_began [symmetric] wait_of_asked)
qed

theorem retry_never_replays_a_stream_witness:
  "let c = default_retrying_provider_config\<lparr>jitter := False\<rparr>;
       inner = (\<lambda>k. if k = 0 then Err Unavailable
                  else Ok (\<lambda>n. if n = 0 then Ok (Some (if k = 1 then ProviderFailed (RateLimited (Some 5)) else TextDelta 0 ''hi'' :: (unit, unit) provider_event))
                              else Ok (Some ProviderCompleted)));
       (answer, waits) = retry_start c inner (\<lambda>_. None) 0
   in waits = [1000000000, 2000000000] \<and> length waits \<le> 6"
proof -
  let ?c = "default_retrying_provider_config\<lparr>jitter := False\<rparr>"
  let ?inner = "\<lambda>k::nat. if k = 0 then Err Unavailable
                  else Ok (\<lambda>n::nat. if n = 0 then Ok (Some (if k = 1 then ProviderFailed (RateLimited (Some 5)) else TextDelta 0 ''hi'' :: (unit, unit) provider_event))
                              else Ok (Some ProviderCompleted))"
  obtain answer waits where run: "retry_start ?c ?inner (\<lambda>_. None) 0 = (answer, waits)"
    by (meson surj_pair)
  have "waits = [1000000000, 2000000000]"
    using run
    by (simp add: retry_start_step [of _ _ _ 0] retry_start_step [of _ _ _ 1] retry_start_step [of _ _ _ 2]
      retry_hint_def wait_of_def first_event_hint_def retry_delay_def duration_checked_mul_def duration_limit_def
      default_retrying_provider_config_def Let_def)
  moreover have "length waits \<le> 6"
    using retry_never_replays_a_stream [OF run] by (simp add: default_retrying_provider_config_def)
  ultimately show ?thesis unfolding Let_def run by simp
qed

section \<open>The waits\<close>

lemma duration_from_nanos_id:
  assumes "d < duration_limit"
  shows "duration_from_nanos d = d"
proof -
  have "d div 1000000000 < 2 ^ 64" using assms by (intro less_mult_imp_div_less) (simp add: duration_limit_def)
  then have "min (2 ^ 64 - 1) (d div 1000000000) = d div 1000000000" by simp
  then show ?thesis unfolding duration_from_nanos_def by simp
qed

lemma jittered_bounds:
  assumes "base \<le> limit" "2 * limit < duration_limit"
  shows "base \<le> jittered base limit random \<and> jittered base limit random \<le> limit"
proof (cases random)
  case (Some fraction)
  have "unat fraction < 2 ^ 64" using unsigned_less [of fraction, where 'a = nat] by simp
  then have "base * unat fraction \<le> base * 2 ^ 64" by simp
  then have extra: "min u128_max (base * unat fraction) div 2 ^ 64 \<le> base"
    by (metis div_le_mono min.coboundedI2 nonzero_mult_div_cancel_right power_not_zero zero_neq_numeral)
  let ?sum = "base + min u128_max (base * unat fraction) div 2 ^ 64"
  have small: "?sum < duration_limit" using assms extra by linarith
  moreover have "duration_limit \<le> u128_max" by (simp add: u128_max_def duration_limit_def)
  ultimately have "min u128_max ?sum = ?sum" by simp
  then show ?thesis using assms(1) Some duration_from_nanos_id [OF small] by (simp add: jittered_def Let_def)
qed (use assms in \<open>simp add: jittered_def\<close>)

lemma retry_factor: "unat (push_bit (unat (min i 31)) 1 :: u32) = 2 ^ min (unat i) 31" for i :: u8
proof -
  let ?n = "min (unat i) 31"
  have "unat (min i 31) = ?n" by (simp add: min_def word_le_nat_alt)
  moreover have "(2 :: nat) ^ ?n \<le> 2 ^ 31" by (rule power_increasing) simp_all
  then have "unat (of_nat (2 ^ ?n) :: u32) = 2 ^ ?n" by (subst unat_of_nat) simp
  moreover have "(push_bit ?n 1 :: u32) = of_nat (2 ^ ?n)" by (simp add: push_bit_eq_mult)
  ultimately show ?thesis by metis
qed

text \<open>How long a retry waits. Under an accepted configuration the wait before retry \<open>i\<close> is at least the
  doubled base delay, capped at the maximum, and at least what the provider asked for, and it exceeds the
  maximum only where the provider asked for more, whatever the random generator returns and whatever the
  width of the doubled delay.\<close>

theorem retry_delay_bounds:
  assumes "config_validate c = Ok c'" "2 * max_delay c < duration_limit"
  shows "max (case hint of None \<Rightarrow> 0 | Some h \<Rightarrow> h) (min (base_delay c * 2 ^ min (unat i) 31) (max_delay c))
      \<le> retry_delay c i hint random
    \<and> retry_delay c i hint random \<le> max (case hint of None \<Rightarrow> 0 | Some h \<Rightarrow> h) (max_delay c)"
proof -
  let ?plain = "min (base_delay c * 2 ^ min (unat i) 31) (max_delay c)"
  have "min (case duration_checked_mul (base_delay c) (push_bit (unat (min i 31)) 1) of None \<Rightarrow> max_delay c | Some d \<Rightarrow> d)
      (max_delay c) = ?plain"
    using assms(2) unfolding duration_checked_mul_def retry_factor by auto
  then have "retry_delay c i hint random =
      max (case hint of None \<Rightarrow> 0 | Some h \<Rightarrow> h) (if jitter c then jittered ?plain (max_delay c) random else ?plain)"
    by (simp add: retry_delay_def Let_def split: option.splits)
  moreover have "?plain \<le> jittered ?plain (max_delay c) random \<and> jittered ?plain (max_delay c) random \<le> max_delay c"
    by (rule jittered_bounds) (use assms(2) in auto)
  ultimately show ?thesis by (simp add: max.coboundedI2 max.coboundedI1)
qed

theorem retry_delay_bounds_witness:
  "let c = default_retrying_provider_config in
     64000000000 \<le> retry_delay c 6 None (Some 77) \<and> retry_delay c 6 None (Some 77) \<le> 64000000000"
proof -
  let ?c = default_retrying_provider_config
  have "config_validate ?c = Ok ?c" "2 * max_delay ?c < duration_limit"
    by (simp_all add: config_validate_def default_retrying_provider_config_def duration_limit_def)
  from retry_delay_bounds [OF this, of None 6 "Some 77"] show ?thesis
    by (simp add: default_retrying_provider_config_def)
qed

end
