(* ===== verification/Decimal.thy ===== *)
theory Decimal
  imports StdModel
begin

text \<open>
  Canonical decimal texts: what the rendering of an integer produces, and that a text of this form is the
  rendering of its value. Amounts and array indices cross the wire in this form.
\<close>

definition canonical_amount :: "string \<Rightarrow> bool" where
  "canonical_amount s \<longleftrightarrow> s \<noteq> [] \<and> list_all is_ascii_digit s \<and> s ! 0 \<noteq> CHR ''0''"

lemma digit_char: "is_ascii_digit c \<Longrightarrow> char_of (48 + digit_value c) = c \<and> digit_value c < 10"
  by (auto simp: is_ascii_digit_def digit_value_def)

lemma char_zero: "char_of (48 :: nat) = CHR ''0''"
  by (simp add: char_of_def bit_0)

lemma canonical_value: "canonical_amount s \<Longrightarrow> 10 ^ (length s - 1) \<le> digits_value 0 s \<and> show_nat (digits_value 0 s) = s"
proof (induction s rule: rev_induct)
  case (snoc d s)
  have d: "is_ascii_digit d" using snoc.prems by (simp add: canonical_amount_def)
  show ?case
  proof (cases "s = []")
    case True
    with snoc.prems have "d \<noteq> CHR ''0''" by (simp add: canonical_amount_def)
    then have "digit_value d \<noteq> 0" using digit_char [OF d] char_zero by (metis add_0_right)
    with True digit_char [OF d] show ?thesis by (subst show_nat.simps) simp
  next
    case False
    then have s: "canonical_amount s" using snoc.prems by (simp add: canonical_amount_def nth_append)
    have v: "digits_value 0 (s @ [d]) = digits_value 0 s * 10 + digit_value d"
      by (simp add: digits_value_append)
    have le: "10 ^ (length s - 1) \<le> digits_value 0 s" and sh: "show_nat (digits_value 0 s) = s"
      using snoc.IH [OF s] by auto
    have "(10::nat) ^ length s = 10 ^ (length s - 1) * 10"
      using False by (metis length_greater_0_conv mult.commute power_minus_mult)
    moreover have "1 \<le> digits_value 0 s" using le by (metis one_le_numeral one_le_power order_trans)
    ultimately show ?thesis
      using le sh digit_char [OF d] by (simp add: v) (subst show_nat.simps, simp)
  qed
qed (simp add: canonical_amount_def)

lemma canonical_show_nat: "0 < n \<Longrightarrow> canonical_amount (show_nat n)"
proof (induction n rule: show_nat.induct)
  case (1 n)
  show ?case
  proof (cases "n < 10")
    case True
    have "(char_of (48 + n) :: char) \<noteq> char_of (48 :: nat)"
      using 1(2) True by (simp add: char_of_eq_iff take_bit_nat_eq_self)
    with True show ?thesis
      using show_nat_digits [of _ n] by (subst show_nat.simps) (simp add: canonical_amount_def char_zero is_ascii_digit_def)
  next
    case False
    then have ih: "canonical_amount (show_nat (n div 10))" by (intro 1) auto
    have "list_all is_ascii_digit (show_nat n)" using show_nat_digits by (simp add: list_all_iff)
    moreover have "show_nat n = show_nat (n div 10) @ [char_of (48 + n mod 10)]"
      using False by (subst show_nat.simps) simp
    ultimately show ?thesis using ih by (auto simp: canonical_amount_def nth_append)
  qed
qed

end
