(* ===== verification/Budget.thy ===== *)
theory Budget
  imports Decimal
begin

text \<open>
  The cost cap of one run, \<open>crates/openbot-application/src/run_cost_budget.rs\<close>: the amount crosses the
  wire as decimal text and is kept as an integer. The store behind the port is a parameter, as is the
  context it is asked for.
\<close>

section \<open>Data\<close>

record run_cost_cap_input =
  input_currency :: string
  input_max_cost :: string

record run_cost_cap =
  cap_currency :: string
  cap_max_cost :: u64

record run_cost_budget_preference =
  preference_cap :: "run_cost_cap_input option"

datatype budget_error =
  BudgetInvalidInput string | BudgetUnavailable | BudgetCorrupt string | BudgetCommitUnknown

text \<open>The application errors these are told as.\<close>

datatype budget_app_error =
  MalformedPayload string | DependencyUnavailable string | ReconciliationRequired bool

fun budget_app_error_of :: "budget_error \<Rightarrow> budget_app_error" where
  "budget_app_error_of (BudgetInvalidInput field) = MalformedPayload field"
| "budget_app_error_of BudgetUnavailable = DependencyUnavailable ''run_cost_budget''"
| "budget_app_error_of (BudgetCorrupt _) = DependencyUnavailable ''run_cost_budget''"
| "budget_app_error_of BudgetCommitUnknown = ReconciliationRequired True"

section \<open>Operations\<close>

definition run_cost_cap_new :: "string \<Rightarrow> u64 \<Rightarrow> (budget_error, run_cost_cap) result" where
  "run_cost_cap_new currency amount =
     (if length currency \<noteq> 3 \<or> \<not> list_all is_ascii_uppercase currency then Err (BudgetInvalidInput ''currency'')
      else if amount = 0 \<or> amount > 2 ^ 63 - 1 then Err (BudgetInvalidInput ''maxCostMicroUnits'')
      else Ok \<lparr>cap_currency = currency, cap_max_cost = amount\<rparr>)"

text \<open>\<open>str::parse::<u64>\<close> on a text that is all digits.\<close>

definition parse_u64_digits :: "string \<Rightarrow> u64 option" where
  "parse_u64_digits s = map_option of_nat (parse_digits (2 ^ 64) 0 s)"

definition run_cost_cap_from_input :: "run_cost_cap_input \<Rightarrow> (budget_error, run_cost_cap) result" where
  "run_cost_cap_from_input i =
     (let amount = input_max_cost i in
      if amount = [] \<or> length amount > 19 \<or> \<not> (is_ascii_digit (amount ! 0) \<and> amount ! 0 \<noteq> CHR ''0'')
         \<or> \<not> list_all is_ascii_digit (drop 1 amount)
      then Err (BudgetInvalidInput ''maxCostMicroUnits'')
      else and_then (ok_or (BudgetInvalidInput ''maxCostMicroUnits'') (parse_u64_digits amount)) (\<lambda>parsed.
           run_cost_cap_new (input_currency i) parsed))"

definition run_cost_cap_into_input :: "run_cost_cap \<Rightarrow> run_cost_cap_input" where
  "run_cost_cap_into_input c = \<lparr>input_currency = cap_currency c, input_max_cost = show_nat (unat (cap_max_cost c))\<rparr>"

definition get_run_cost_budget ::
  "('a \<Rightarrow> (budget_error, run_cost_cap option) result) \<Rightarrow> 'a \<Rightarrow> (budget_app_error, run_cost_budget_preference) result" where
  "get_run_cost_budget stored auth =
     map_sum budget_app_error_of (\<lambda>cap. \<lparr>preference_cap = map_option run_cost_cap_into_input cap\<rparr>) (stored auth)"

definition replace_run_cost_budget ::
  "('a \<Rightarrow> run_cost_cap option \<Rightarrow> (budget_error, run_cost_cap option) result) \<Rightarrow> 'a \<Rightarrow> run_cost_budget_preference
     \<Rightarrow> (budget_app_error, run_cost_budget_preference) result" where
  "replace_run_cost_budget replace auth preference =
     and_then (map_sum budget_app_error_of id
        (case preference_cap preference of None \<Rightarrow> Ok None
         | Some i \<Rightarrow> map_sum id Some (run_cost_cap_from_input i))) (\<lambda>cap.
     map_sum budget_app_error_of (\<lambda>cap. \<lparr>preference_cap = map_option run_cost_cap_into_input cap\<rparr>)
       (replace auth cap))"

section \<open>Amounts as text\<close>

definition cap_valid :: "run_cost_cap \<Rightarrow> bool" where
  "cap_valid c \<longleftrightarrow> length (cap_currency c) = 3 \<and> list_all is_ascii_uppercase (cap_currency c)
     \<and> 0 < cap_max_cost c \<and> cap_max_cost c \<le> 2 ^ 63 - 1"

lemma parse_u64_digits_ok: "parse_u64_digits s = Some w \<longleftrightarrow> digits_value 0 s = unat w"
proof -
  have "unat w < 2 ^ 64" using unsigned_less [of w, where 'a = nat] by simp
  then show ?thesis
    by (auto simp: parse_u64_digits_def parse_digits_eq unat_of_nat word_unat_eq_iff)
qed

lemma run_cost_cap_new_ok:
  "run_cost_cap_new currency amount = Ok c \<longleftrightarrow>
     cap_valid c \<and> c = \<lparr>cap_currency = currency, cap_max_cost = amount\<rparr>"
  unfolding run_cost_cap_new_def if_err_ok by (auto simp: cap_valid_def not_less word_gt_0)

lemma run_cost_cap_from_input_ok:
  "run_cost_cap_from_input i = Ok c \<longleftrightarrow> cap_valid c \<and> run_cost_cap_into_input c = i"
proof -
  let ?s = "input_max_cost i"
  have shape: "\<not> (?s = [] \<or> length ?s > 19 \<or> \<not> (is_ascii_digit (?s ! 0) \<and> ?s ! 0 \<noteq> CHR ''0'')
      \<or> \<not> list_all is_ascii_digit (drop 1 ?s)) \<longleftrightarrow> canonical_amount ?s \<and> length ?s \<le> 19"
    by (cases ?s) (auto simp: canonical_amount_def)
  have "run_cost_cap_from_input i = Ok c \<longleftrightarrow> canonical_amount ?s \<and> length ?s \<le> 19
      \<and> digits_value 0 ?s = unat (cap_max_cost c) \<and> cap_valid c \<and> cap_currency c = input_currency i"
    unfolding run_cost_cap_from_input_def Let_def if_err_ok shape and_then_ok ok_or_ok parse_u64_digits_ok run_cost_cap_new_ok
    by auto
  also have "\<dots> \<longleftrightarrow> cap_valid c \<and> run_cost_cap_into_input c = i"
  proof
    assume l: "canonical_amount ?s \<and> length ?s \<le> 19 \<and> digits_value 0 ?s = unat (cap_max_cost c) \<and> cap_valid c
      \<and> cap_currency c = input_currency i"
    then have "show_nat (unat (cap_max_cost c)) = ?s" using canonical_value [of ?s] by metis
    with l show "cap_valid c \<and> run_cost_cap_into_input c = i" by (simp add: run_cost_cap_into_input_def)
  next
    assume r: "cap_valid c \<and> run_cost_cap_into_input c = i"
    then have i: "?s = show_nat (unat (cap_max_cost c))" "input_currency i = cap_currency c"
      by (auto simp: run_cost_cap_into_input_def)
    have n: "0 < unat (cap_max_cost c)" "unat (cap_max_cost c) < 2 ^ 63"
      using r by (auto simp: cap_valid_def word_le_nat_alt word_less_nat_alt)
    then have s: "canonical_amount ?s" "digits_value 0 ?s = unat (cap_max_cost c)"
      by (simp_all add: i canonical_show_nat digits_value_show_nat)
    then have "(10::nat) ^ (length ?s - 1) < 10 ^ 19" using canonical_value [OF s(1)] n(2) by simp
    then have "length ?s - 1 < 19" by (rule power_less_imp_less_exp [rotated]) simp
    with s r i(2) show "canonical_amount ?s \<and> length ?s \<le> 19 \<and> digits_value 0 ?s = unat (cap_max_cost c) \<and> cap_valid c
      \<and> cap_currency c = input_currency i" by simp
  qed
  finally show ?thesis .
qed

text \<open>The amount survives the wire exactly. An input is accepted as a cap exactly when the cap is a
  valid one (three upper-case letters, a positive amount that fits a signed 64-bit column) and the input
  is the text that cap is written as: so every valid cap is read back from its text, and no two texts
  mean the same cap.\<close>

theorem cost_cap_text_exact:
  "run_cost_cap_from_input i = Ok c \<longleftrightarrow> cap_valid c \<and> run_cost_cap_into_input c = i"
  by (rule run_cost_cap_from_input_ok)

text \<open>With a store that keeps what it is given, a preference that is accepted is answered as it was sent.\<close>

lemma accepted_preference_answered:
  assumes "replace_run_cost_budget (\<lambda>auth cap. Ok cap) auth p = Ok q"
  shows "q = p"
proof (cases "preference_cap p")
  case None
  with assms show ?thesis by (cases p) (simp add: replace_run_cost_budget_def)
next
  case (Some i)
  show ?thesis
  proof (cases "run_cost_cap_from_input i")
    case (Inr c)
    then have "run_cost_cap_into_input c = i" by (simp add: run_cost_cap_from_input_ok)
    with Inr Some assms show ?thesis by (cases p) (auto simp: replace_run_cost_budget_def)
  qed (use Some assms in \<open>simp add: replace_run_cost_budget_def\<close>)
qed

end
