(* ===== verification/Recovery.thy ===== *)
theory Recovery
  imports VaultCanary
begin

text \<open>
  Recovery of a backup under a key of its own, \<open>crates/openbot-domain/src/backup/recovery_wrap.rs\<close> and
  \<open>recovery_chunks.rs\<close>: the sealed metadata of a bundle and its content as a sequence of sealed chunks.
  HMAC-SHA256, AES-GCM and the strict deserializers are parameters, as in the vault; the two validity
  tests of identifiers and the hexadecimal codec are the same functions as the vault's. Zeroization and
  the redacting \<open>Debug\<close> implementations are not modelled.
\<close>

section \<open>Sealed metadata\<close>

definition recovery_aad_prefix :: bytes where
  "recovery_aad_prefix = str_bytes ''openbot.backup.aad.recovery-wrap.v1'' @ [0]"

definition recovery_schema :: string where "recovery_schema = ''openbot.backup.recovery.v1''"
definition wrap_schema :: string where "wrap_schema = ''openbot-backup-recovery-wrap''"
definition wrap_schema_version :: u64 where "wrap_schema_version = 1"
definition metadata_max_bytes :: nat where "metadata_max_bytes = 4096"
definition wrap_max_bytes :: nat where
  "wrap_max_bytes = 86 + nonce_bytes * 2 + (metadata_max_bytes + tag_bytes) * 2"

record backup_recovery_binding =
  recovery_bundle_id :: string
  recovery_dataset :: string
  recovery_key_id :: string
  recovery_key_version :: key_version

definition recovery_binding_new ::
  "string \<Rightarrow> string \<Rightarrow> string \<Rightarrow> key_version \<Rightarrow> (vault_error, backup_recovery_binding) result" where
  "recovery_binding_new bundle dataset key_id version =
     (if \<not> valid_identity bundle \<or> \<not> valid_identity dataset \<or> \<not> valid_hex_id key_id then Err EnvelopeInvalid
      else Ok \<lparr>recovery_bundle_id = bundle, recovery_dataset = dataset, recovery_key_id = key_id,
               recovery_key_version = version\<rparr>)"

definition recovery_field :: "bytes \<Rightarrow> string \<Rightarrow> bytes" where
  "recovery_field aad v = (aad @ be_bytes 8 (of_nat (length v) :: u64)) @ str_bytes v"

definition recovery_aad :: "backup_recovery_binding \<Rightarrow> bytes" where
  "recovery_aad b =
     foldl recovery_field recovery_aad_prefix
       [recovery_bundle_id b, recovery_schema, recovery_dataset b, recovery_key_id b]
     @ be_bytes 8 (ucast (key_version_get (recovery_key_version b)) :: u64)"

record backup_recovery_envelope =
  wrap_nonce :: nonce
  wrap_ciphertext :: bytes

definition recovery_envelope_parse ::
  "(string \<Rightarrow> wire_envelope option) \<Rightarrow> string \<Rightarrow> (vault_error, backup_recovery_envelope) result" where
  "recovery_envelope_parse from_wire v =
     (if length v > wrap_max_bytes then Err EnvelopeInvalid
      else and_then (ok_or EnvelopeInvalid (from_wire v)) (\<lambda>wire.
      if wire_schema wire \<noteq> wrap_schema \<or> wire_schema_version wire \<noteq> wrap_schema_version then Err EnvelopeInvalid
      else and_then (decode_hex (wire_nonce wire)) (\<lambda>nonce.
      and_then (decode_hex (wire_ciphertext wire)) (\<lambda>ciphertext.
      if length nonce \<noteq> nonce_bytes \<or> length ciphertext < tag_bytes then Err EnvelopeInvalid
      else and_then (nonce_from_slice nonce) (\<lambda>nonce.
        Ok \<lparr>wrap_nonce = nonce, wrap_ciphertext = ciphertext\<rparr>)))))"

definition recovery_envelope_column :: "backup_recovery_envelope \<Rightarrow> string" where
  "recovery_envelope_column e =
     ''{'' @ quoted ''schema'' @ '':'' @ quoted wrap_schema @ '',''
     @ quoted ''schemaVersion'' @ '':'' @ show_nat (unat wrap_schema_version) @ '',''
     @ quoted ''nonce'' @ '':'' @ quoted (encode_hex (nonce_get (wrap_nonce e))) @ '',''
     @ quoted ''ciphertext'' @ '':'' @ quoted (encode_hex (wrap_ciphertext e)) @ ''}''"

definition seal_backup_recovery_wrap ::
  "(bytes \<Rightarrow> bytes \<Rightarrow> bytes) \<Rightarrow> cipher \<Rightarrow> bytes \<Rightarrow> backup_recovery_binding \<Rightarrow> nonce \<Rightarrow> bytes
     \<Rightarrow> (vault_error, backup_recovery_envelope) result" where
  "seal_backup_recovery_wrap mac enc recovery_key b n metadata =
     (if metadata = [] \<or> length metadata > metadata_max_bytes then Err PlaintextTooLarge
      else and_then (derive_application_key mac recovery_key BackupRecoveryWrap) (\<lambda>key.
      and_then (aes_gcm_encrypt enc key n (recovery_aad b) metadata) (\<lambda>ciphertext.
        Ok \<lparr>wrap_nonce = n, wrap_ciphertext = ciphertext\<rparr>)))"

definition open_backup_recovery_wrap ::
  "(bytes \<Rightarrow> bytes \<Rightarrow> bytes) \<Rightarrow> cipher \<Rightarrow> bytes \<Rightarrow> backup_recovery_binding \<Rightarrow> backup_recovery_envelope
     \<Rightarrow> (vault_error, bytes) result" where
  "open_backup_recovery_wrap mac dec recovery_key b e =
     and_then (derive_application_key mac recovery_key BackupRecoveryWrap) (\<lambda>key.
     and_then (aes_gcm_decrypt dec key (wrap_nonce e) (recovery_aad b) (wrap_ciphertext e)) (\<lambda>plaintext.
     if plaintext = [] \<or> length plaintext > metadata_max_bytes then Err DecryptFailed else Ok plaintext))"

section \<open>Sealed chunks\<close>

definition chunk_aad_prefix :: bytes where
  "chunk_aad_prefix = str_bytes ''openbot.backup.aad.recovery-chunk.v1'' @ [0]"

definition chunk_schema :: string where "chunk_schema = ''openbot-backup-recovery-chunk''"
definition chunk_schema_version :: u64 where "chunk_schema_version = 1"
definition chunk_max_wire_bytes :: nat where "chunk_max_wire_bytes = 8 * 1024 * 1024 + 4096"
definition max_chunk_bytes :: nat where "max_chunk_bytes = 4 * 1024 * 1024"
definition max_chunks :: u32 where "max_chunks = 32"
definition max_total_bytes :: u64 where "max_total_bytes = 4 * 1024 * 1024"

record chunk_spec =
  spec_binding :: backup_recovery_binding
  spec_sequence :: u32
  spec_chunk_count :: u32
  spec_total_bytes :: u64
  spec_inventory_digest :: digest

definition chunk_spec_new ::
  "backup_recovery_binding \<Rightarrow> u32 \<Rightarrow> u32 \<Rightarrow> u64 \<Rightarrow> digest \<Rightarrow> (vault_error, chunk_spec) result" where
  "chunk_spec_new b sequence count total_bytes digest =
     (if count = 0 \<or> count > max_chunks \<or> sequence \<ge> count \<or> total_bytes = 0 \<or> total_bytes > max_total_bytes
      then Err EnvelopeInvalid
      else Ok \<lparr>spec_binding = b, spec_sequence = sequence, spec_chunk_count = count,
               spec_total_bytes = total_bytes, spec_inventory_digest = digest\<rparr>)"

definition chunk_aad :: "chunk_spec \<Rightarrow> bytes" where
  "chunk_aad sp =
     (((((chunk_aad_prefix @ recovery_aad (spec_binding sp))
       @ be_bytes 8 (ucast (spec_sequence sp) :: u64))
       @ be_bytes 8 (ucast (spec_chunk_count sp) :: u64))
       @ be_bytes 8 (spec_total_bytes sp))
       @ be_bytes 32 (spec_inventory_digest sp))"

record chunk_envelope =
  chunk_sequence :: u32
  chunk_nonce :: nonce
  chunk_ciphertext :: bytes

record wire_chunk_envelope =
  wire_chunk_schema :: string
  wire_chunk_schema_version :: u64
  wire_chunk_sequence :: u64
  wire_chunk_nonce :: string
  wire_chunk_ciphertext :: string

definition chunk_envelope_parse ::
  "(string \<Rightarrow> wire_chunk_envelope option) \<Rightarrow> string \<Rightarrow> (vault_error, chunk_envelope) result" where
  "chunk_envelope_parse from_wire v =
     (if length v > chunk_max_wire_bytes then Err EnvelopeInvalid
      else and_then (ok_or EnvelopeInvalid (from_wire v)) (\<lambda>wire.
      if wire_chunk_schema wire \<noteq> chunk_schema \<or> wire_chunk_schema_version wire \<noteq> chunk_schema_version
      then Err EnvelopeInvalid
      else if wire_chunk_sequence wire > ucast (- 1 :: u32) then Err EnvelopeInvalid
      else and_then (decode_hex (wire_chunk_nonce wire)) (\<lambda>nonce.
      and_then (decode_hex (wire_chunk_ciphertext wire)) (\<lambda>ciphertext.
      if length nonce \<noteq> nonce_bytes \<or> length ciphertext < tag_bytes then Err EnvelopeInvalid
      else and_then (nonce_from_slice nonce) (\<lambda>nonce.
        Ok \<lparr>chunk_sequence = ucast (wire_chunk_sequence wire), chunk_nonce = nonce, chunk_ciphertext = ciphertext\<rparr>)))))"

definition chunk_envelope_column :: "chunk_envelope \<Rightarrow> string" where
  "chunk_envelope_column e =
     ''{'' @ quoted ''schema'' @ '':'' @ quoted chunk_schema @ '',''
     @ quoted ''schemaVersion'' @ '':'' @ show_nat (unat chunk_schema_version) @ '',''
     @ quoted ''sequence'' @ '':'' @ show_nat (unat (chunk_sequence e)) @ '',''
     @ quoted ''nonce'' @ '':'' @ quoted (encode_hex (nonce_get (chunk_nonce e))) @ '',''
     @ quoted ''ciphertext'' @ '':'' @ quoted (encode_hex (chunk_ciphertext e)) @ ''}''"

definition seal_backup_recovery_chunk ::
  "(bytes \<Rightarrow> bytes \<Rightarrow> bytes) \<Rightarrow> cipher \<Rightarrow> bytes \<Rightarrow> chunk_spec \<Rightarrow> nonce \<Rightarrow> bytes \<Rightarrow> (vault_error, chunk_envelope) result" where
  "seal_backup_recovery_chunk mac enc recovery_key sp n plaintext =
     (if plaintext = [] \<or> length plaintext > max_chunk_bytes then Err PlaintextTooLarge
      else if of_nat (length plaintext) > spec_total_bytes sp then Err PlaintextTooLarge
      else and_then (derive_application_key mac recovery_key BackupRecoveryWrap) (\<lambda>key.
      and_then (aes_gcm_encrypt enc key n (chunk_aad sp) plaintext) (\<lambda>ciphertext.
        Ok \<lparr>chunk_sequence = spec_sequence sp, chunk_nonce = n, chunk_ciphertext = ciphertext\<rparr>)))"

definition open_backup_recovery_chunk ::
  "(bytes \<Rightarrow> bytes \<Rightarrow> bytes) \<Rightarrow> cipher \<Rightarrow> bytes \<Rightarrow> chunk_spec \<Rightarrow> chunk_envelope \<Rightarrow> (vault_error, bytes) result" where
  "open_backup_recovery_chunk mac dec recovery_key sp e =
     (if chunk_sequence e \<noteq> spec_sequence sp then Err EnvelopeInvalid
      else and_then (derive_application_key mac recovery_key BackupRecoveryWrap) (\<lambda>key.
      and_then (aes_gcm_decrypt dec key (chunk_nonce e) (chunk_aad sp) (chunk_ciphertext e)) (\<lambda>plaintext.
      if plaintext = [] \<or> length plaintext > max_chunk_bytes then Err DecryptFailed else Ok plaintext)))"

section \<open>The stream\<close>

record chunk_stream =
  stream_binding :: backup_recovery_binding
  stream_chunk_count :: u32
  stream_total_bytes :: u64
  stream_inventory_digest :: digest
  stream_next_sequence :: u32
  stream_accumulated :: bytes

definition stream_begin ::
  "backup_recovery_binding \<Rightarrow> u32 \<Rightarrow> u64 \<Rightarrow> digest \<Rightarrow> (vault_error, chunk_stream) result" where
  "stream_begin b count total_bytes digest =
     (if count = 0 \<or> count > max_chunks \<or> total_bytes = 0 \<or> total_bytes > max_total_bytes then Err EnvelopeInvalid
      else Ok \<lparr>stream_binding = b, stream_chunk_count = count, stream_total_bytes = total_bytes,
               stream_inventory_digest = digest, stream_next_sequence = 0, stream_accumulated = []\<rparr>)"

definition stream_accept ::
  "(bytes \<Rightarrow> bytes \<Rightarrow> bytes) \<Rightarrow> cipher \<Rightarrow> bytes \<Rightarrow> chunk_stream \<Rightarrow> chunk_envelope \<Rightarrow> (vault_error, chunk_stream) result" where
  "stream_accept mac dec recovery_key s e =
     (if stream_next_sequence s \<ge> stream_chunk_count s then Err EnvelopeInvalid
      else and_then (chunk_spec_new (stream_binding s) (stream_next_sequence s) (stream_chunk_count s)
             (stream_total_bytes s) (stream_inventory_digest s)) (\<lambda>sp.
      and_then (open_backup_recovery_chunk mac dec recovery_key sp e) (\<lambda>piece.
      and_then (ok_or EnvelopeInvalid (checked_add (of_nat (length (stream_accumulated s)) :: u64) (of_nat (length piece)))) (\<lambda>next_len.
      if next_len > stream_total_bytes s then Err EnvelopeInvalid
      else if stream_next_sequence s + 1 = stream_chunk_count s \<and> next_len \<noteq> stream_total_bytes s
      then Err EnvelopeInvalid
      else Ok (s\<lparr>stream_accumulated := stream_accumulated s @ piece,
                stream_next_sequence := stream_next_sequence s + 1\<rparr>)))))"

definition stream_finish :: "chunk_stream \<Rightarrow> (vault_error, bytes) result" where
  "stream_finish s =
     (if stream_next_sequence s \<noteq> stream_chunk_count s
         \<or> of_nat (length (stream_accumulated s)) \<noteq> stream_total_bytes s
      then Err EnvelopeInvalid else Ok (stream_accumulated s))"

section \<open>The associated data names one chunk\<close>

definition recovery_binding_ok :: "backup_recovery_binding \<Rightarrow> bool" where
  "recovery_binding_ok b \<longleftrightarrow> fits_u64 (length (recovery_bundle_id b)) \<and> fits_u64 (length (recovery_dataset b))
     \<and> fits_u64 (length (recovery_key_id b))"

lemma recovery_binding_new_ok: "recovery_binding_new bundle dataset key_id version = Ok b \<Longrightarrow> recovery_binding_ok b"
  by (auto simp: recovery_binding_new_def recovery_binding_ok_def fits_u64_def valid_identity_def valid_hex_id_def
      split: if_splits)

lemma recovery_aad_eq:
  "recovery_aad b = recovery_aad_prefix @ enc_str (recovery_bundle_id b) @ enc_str recovery_schema
     @ enc_str (recovery_dataset b) @ enc_str (recovery_key_id b)
     @ be_bytes 8 (ucast (key_version_get (recovery_key_version b)) :: u64)"
  by (simp add: recovery_aad_def recovery_field_def enc_str_def enc_bytes_def)

lemma ucast_u64: "(ucast (a :: u32) :: u64) = ucast b \<longleftrightarrow> a = b"
proof -
  have "uint (ucast (c :: u32) :: u64) = uint c" for c
    using unsigned_less [of c, where 'a = int] by (simp add: unsigned_ucast_eq take_bit_int_eq_self)
  then show ?thesis by (metis word_uint_eq_iff)
qed

definition enc_recovery :: "backup_recovery_binding \<Rightarrow> bytes" where
  "enc_recovery b = enc_str (recovery_bundle_id b) @ enc_str recovery_schema
     @ enc_str (recovery_dataset b) @ enc_str (recovery_key_id b)
     @ enc_u64 (ucast (key_version_get (recovery_key_version b)))"

interpretation recovery_code: prefix_code enc_recovery recovery_binding_ok
proof
  fix a b r s
  assume "recovery_binding_ok a" "recovery_binding_ok b" "enc_recovery a @ r = enc_recovery b @ s"
  then show "a = b \<and> r = s"
    by (cases a; cases b; cases "recovery_key_version a"; cases "recovery_key_version b")
      (simp add: enc_recovery_def recovery_binding_ok_def str_code.append_eq_iff u64_code.append_eq_iff ucast_u64)
qed

definition enc_spec :: "chunk_spec \<Rightarrow> bytes" where
  "enc_spec sp = enc_recovery (spec_binding sp) @ enc_u64 (ucast (spec_sequence sp))
     @ enc_u64 (ucast (spec_chunk_count sp)) @ enc_u64 (spec_total_bytes sp) @ enc_digest (spec_inventory_digest sp)"

interpretation spec_code: prefix_code enc_spec "\<lambda>sp. recovery_binding_ok (spec_binding sp)"
proof
  fix a b r s
  assume "recovery_binding_ok (spec_binding a)" "recovery_binding_ok (spec_binding b)" "enc_spec a @ r = enc_spec b @ s"
  then show "a = b \<and> r = s"
    by (cases a; cases b)
      (simp add: enc_spec_def recovery_code.append_eq_iff u64_code.append_eq_iff digest_code.append_eq_iff ucast_u64)
qed

lemma chunk_aad_inject:
  assumes "recovery_binding_ok (spec_binding a)" "recovery_binding_ok (spec_binding b)"
  shows "chunk_aad a = chunk_aad b \<longleftrightarrow> a = b"
proof -
  have "chunk_aad sp = chunk_aad_prefix @ recovery_aad_prefix @ enc_spec sp" for sp
    by (simp add: chunk_aad_def enc_spec_def recovery_aad_eq enc_recovery_def enc_u64_def enc_digest_def)
  then show ?thesis using spec_code.enc_inject [OF assms] by simp
qed

section \<open>What a stream accepts\<close>

text \<open>Sealing a piece under some name and handing the envelope to the stream.\<close>

type_synonym sealed_piece = "chunk_spec \<times> nonce \<times> bytes"

definition seal_and_accept ::
  "(bytes \<Rightarrow> bytes \<Rightarrow> bytes) \<Rightarrow> cipher \<Rightarrow> cipher \<Rightarrow> bytes \<Rightarrow> chunk_stream \<Rightarrow> sealed_piece \<Rightarrow> (vault_error, chunk_stream) result" where
  "seal_and_accept mac enc dec recovery_key s = (\<lambda>(sp, n, piece).
     and_then (seal_backup_recovery_chunk mac enc recovery_key sp n piece) (stream_accept mac dec recovery_key s))"

abbreviation sealable :: "(bytes \<Rightarrow> bytes \<Rightarrow> bytes) \<Rightarrow> cipher \<Rightarrow> bytes \<Rightarrow> sealed_piece \<Rightarrow> bool" where
  "sealable mac enc recovery_key \<equiv> \<lambda>(sp, n, piece). is_ok (seal_backup_recovery_chunk mac enc recovery_key sp n piece)"

text \<open>AES-GCM as documented: it opens what it sealed under the same associated data, and nothing of it under
  other associated data; the tag is appended.\<close>

definition authentic_cipher :: "cipher \<Rightarrow> cipher \<Rightarrow> bool" where
  "authentic_cipher enc dec \<longleftrightarrow>
     (\<forall>k n a m c. enc k n a m = Some c \<longrightarrow>
        tag_bytes \<le> length c \<and> (\<forall>a'. dec k n a' c = (if a' = a then Some m else None)))"

definition nth_spec :: "chunk_stream \<Rightarrow> nat \<Rightarrow> chunk_spec" where
  "nth_spec s i = \<lparr>spec_binding = stream_binding s, spec_sequence = of_nat i, spec_chunk_count = stream_chunk_count s,
     spec_total_bytes = stream_total_bytes s, spec_inventory_digest = stream_inventory_digest s\<rparr>"

definition pieces :: "sealed_piece list \<Rightarrow> bytes" where
  "pieces ps = concat (map (snd \<circ> snd) ps)"

definition stream_after :: "chunk_stream \<Rightarrow> sealed_piece list \<Rightarrow> chunk_stream" where
  "stream_after s ps = s\<lparr>stream_next_sequence := of_nat (length ps), stream_accumulated := pieces ps\<rparr>"

definition pieces_fit :: "(bytes \<Rightarrow> bytes \<Rightarrow> bytes) \<Rightarrow> cipher \<Rightarrow> bytes \<Rightarrow> chunk_stream \<Rightarrow> sealed_piece list \<Rightarrow> bool" where
  "pieces_fit mac enc recovery_key s ps \<longleftrightarrow>
     length ps \<le> unat (stream_chunk_count s) \<and> length (pieces ps) \<le> unat (stream_total_bytes s)
     \<and> (\<forall>i<length ps. fst (ps ! i) = nth_spec s i \<and> sealable mac enc recovery_key (ps ! i))
     \<and> (length ps = unat (stream_chunk_count s) \<longrightarrow> length (pieces ps) = unat (stream_total_bytes s))"

lemma seal_chunk_ok:
  "seal_backup_recovery_chunk mac enc key sp n piece = Ok e \<longleftrightarrow>
     piece \<noteq> [] \<and> length piece \<le> max_chunk_bytes \<and> \<not> of_nat (length piece) > spec_total_bytes sp
     \<and> length key = 32 \<and> (let k = mac key (str_bytes (purpose_label BackupRecoveryWrap)) in
        length k \<in> {16, 24, 32} \<and> (\<exists>c. enc k (nonce_get n) (chunk_aad sp) piece = Some c
          \<and> e = \<lparr>chunk_sequence = spec_sequence sp, chunk_nonce = n, chunk_ciphertext = c\<rparr>))"
  unfolding seal_backup_recovery_chunk_def if_err_ok and_then_ok
  by (auto simp: derive_application_key_def aes_gcm_encrypt_def Let_def split: option.splits if_splits)

lemma open_sealed_chunk:
  assumes "authentic_cipher enc dec" "seal_backup_recovery_chunk mac enc key sp n piece = Ok e"
    and "recovery_binding_ok (spec_binding sp)" "recovery_binding_ok (spec_binding sp')"
  shows "open_backup_recovery_chunk mac dec key sp' e = Ok p \<longleftrightarrow> sp' = sp \<and> p = piece"
proof -
  let ?k = "mac key (str_bytes (purpose_label BackupRecoveryWrap))"
  obtain c where c: "enc ?k (nonce_get n) (chunk_aad sp) piece = Some c"
      "e = \<lparr>chunk_sequence = spec_sequence sp, chunk_nonce = n, chunk_ciphertext = c\<rparr>"
    and ok: "piece \<noteq> []" "length piece \<le> max_chunk_bytes" "length key = 32" "length ?k \<in> {16, 24, 32}"
    using assms(2) unfolding seal_chunk_ok Let_def by blast
  have dec: "tag_bytes \<le> length c" "dec ?k (nonce_get n) (chunk_aad sp') c = (if sp' = sp then Some piece else None)"
    using assms(1) c(1) chunk_aad_inject [OF assms(4,3)] unfolding authentic_cipher_def by metis+
  show ?thesis
    using ok dec by (auto simp: open_backup_recovery_chunk_def and_then_ok if_err_ok derive_application_key_def
        aes_gcm_decrypt_def c(2) split: if_splits)
qed

lemma stream_begin_ok:
  "stream_begin b count total_bytes digest = Ok s \<longleftrightarrow>
     count \<noteq> 0 \<and> count \<le> max_chunks \<and> total_bytes \<noteq> 0 \<and> total_bytes \<le> max_total_bytes
     \<and> s = \<lparr>stream_binding = b, stream_chunk_count = count, stream_total_bytes = total_bytes,
            stream_inventory_digest = digest, stream_next_sequence = 0, stream_accumulated = []\<rparr>"
  unfolding stream_begin_def if_err_ok by (auto simp: not_less)

definition stream_ok :: "chunk_stream \<Rightarrow> bool" where
  "stream_ok s \<longleftrightarrow> 0 < unat (stream_chunk_count s) \<and> unat (stream_chunk_count s) \<le> 32
     \<and> 0 < unat (stream_total_bytes s) \<and> unat (stream_total_bytes s) \<le> 2 ^ 22 \<and> recovery_binding_ok (stream_binding s)"

lemma accept_sealed:
  assumes "authentic_cipher enc dec" "stream_ok s" "pieces_fit mac enc key s pre"
    and "recovery_binding_ok (spec_binding sp)"
    and sealed: "seal_backup_recovery_chunk mac enc key sp n piece = Ok e"
  shows "stream_accept mac dec key (stream_after s pre) e = Ok t \<longleftrightarrow>
     pieces_fit mac enc key s (pre @ [(sp, n, piece)]) \<and> t = stream_after s (pre @ [(sp, n, piece)])"
proof -
  let ?have = "length (pieces pre)" and ?count = "stream_chunk_count s" and ?whole = "stream_total_bytes s"
  have pre: "length pre \<le> unat ?count" "?have \<le> unat ?whole" and bounds: "unat ?count \<le> 32" "unat ?whole \<le> 2 ^ 22"
    using assms(2,3) by (auto simp: pieces_fit_def stream_ok_def)
  then have seq: "unat (of_nat (length pre) :: u32) = length pre" by (simp add: unat_of_nat)
  have len: "length piece \<le> 2 ^ 22" using sealed by (simp add: seal_chunk_ok max_chunk_bytes_def)
  then have piece: "unat (of_nat (length piece) :: u64) = length piece" by (simp add: unat_of_nat)
  show ?thesis
  proof (cases "length pre < unat ?count")
    case False
    then show ?thesis
      using pre seq by (auto simp: stream_accept_def stream_after_def pieces_fit_def word_le_nat_alt)
  next
    case True
    then have more: "\<not> ?count \<le> of_nat (length pre)" using seq by (simp add: word_le_nat_alt)
    have spec: "chunk_spec_new (stream_binding s) (of_nat (length pre)) ?count ?whole (stream_inventory_digest s)
        = Ok (nth_spec s (length pre))"
      using more assms(2) by (simp add: chunk_spec_new_def nth_spec_def stream_ok_def max_chunks_def max_total_bytes_def
          word_le_nat_alt word_less_nat_alt unat_eq_zero flip: unat_gt_0)
    have opened: "open_backup_recovery_chunk mac dec key (nth_spec s (length pre)) e = Ok p \<longleftrightarrow>
        nth_spec s (length pre) = sp \<and> p = piece" for p
      using open_sealed_chunk [OF assms(1) sealed assms(4)] assms(2) by (simp add: nth_spec_def stream_ok_def)
    have last: "(of_nat (length pre) + 1 :: u32) = ?count \<longleftrightarrow> length pre + 1 = unat ?count"
    proof -
      have "unat (of_nat (length pre) + 1 :: u32) = length pre + 1"
        using seq True bounds by (simp add: unat_word_ariths)
      then show ?thesis by (metis word_unat_eq_iff)
    qed
    have sum: "checked_add (of_nat ?have) (of_nat (length piece)) = Some c \<and> \<not> c > ?whole
        \<longleftrightarrow> ?have + length piece \<le> unat ?whole \<and> c = of_nat (?have + length piece)" for c
      using checked_add_within [OF pre(2), of "of_nat (length piece)" c] piece by (simp add: not_less)
    have full: "(of_nat (?have + length piece) :: u64) = ?whole \<longleftrightarrow> ?have + length piece = unat ?whole"
      if "?have + length piece \<le> unat ?whole"
    proof -
      have "unat (of_nat (?have + length piece) :: u64) = ?have + length piece"
        using that bounds(2) by (subst unat_of_nat) simp
      then show ?thesis by (metis word_unat_eq_iff)
    qed
    have "stream_accept mac dec key (stream_after s pre) e = Ok t \<longleftrightarrow>
        nth_spec s (length pre) = sp \<and> ?have + length piece \<le> unat ?whole
        \<and> (length pre + 1 = unat ?count \<longrightarrow> ?have + length piece = unat ?whole)
        \<and> t = stream_after s (pre @ [(sp, n, piece)])"
    proof -
      have "stream_accept mac dec key (stream_after s pre) e = Ok t \<longleftrightarrow>
          nth_spec s (length pre) = sp \<and> (\<exists>c. (checked_add (of_nat ?have) (of_nat (length piece)) = Some c \<and> \<not> c > ?whole)
          \<and> \<not> (length pre + 1 = unat ?count \<and> c \<noteq> ?whole) \<and> t = stream_after s (pre @ [(sp, n, piece)]))"
        unfolding stream_accept_def if_err_ok and_then_ok ok_or_ok
        using more spec opened last by (auto simp: stream_after_def pieces_def add.commute)
      then show ?thesis unfolding sum using full by auto
    qed
    also have "\<dots> \<longleftrightarrow> pieces_fit mac enc key s (pre @ [(sp, n, piece)]) \<and> t = stream_after s (pre @ [(sp, n, piece)])"
      using assms(3) sealed True by (auto simp: pieces_fit_def pieces_def nth_append less_Suc_eq)
    finally show ?thesis .
  qed
qed

lemma seal_and_accept_ok:
  assumes "authentic_cipher enc dec" "stream_ok s" "pieces_fit mac enc key s pre" "recovery_binding_ok (spec_binding (fst p))"
  shows "seal_and_accept mac enc dec key (stream_after s pre) p = Ok t \<longleftrightarrow>
     pieces_fit mac enc key s (pre @ [p]) \<and> t = stream_after s (pre @ [p])"
proof -
  obtain sp n piece where p: "p = (sp, n, piece)" by (cases p)
  show ?thesis
  proof (cases "seal_backup_recovery_chunk mac enc key sp n piece")
    case (Inl err)
    then have "\<not> sealable mac enc key ((pre @ [p]) ! length pre)" by (simp add: p)
    then have "\<not> pieces_fit mac enc key s (pre @ [p])" unfolding pieces_fit_def by (auto simp del: nth_append_length)
    with Inl show ?thesis by (simp add: seal_and_accept_def p)
  next
    case (Inr e)
    with accept_sealed [OF assms(1-3) _ Inr] assms(4) show ?thesis by (simp add: seal_and_accept_def p)
  qed
qed

lemma pieces_fit_prefix: "pieces_fit mac enc key s (pre @ ps) \<Longrightarrow> pieces_fit mac enc key s pre"
proof -
  assume fit: "pieces_fit mac enc key s (pre @ ps)"
  have "fst (pre ! i) = nth_spec s i \<and> sealable mac enc key (pre ! i)" if "i < length pre" for i
  proof -
    have "i < length (pre @ ps)" "(pre @ ps) ! i = pre ! i" using that by (simp_all add: nth_append)
    then show ?thesis using fit unfolding pieces_fit_def by metis
  qed
  moreover have "length (pieces pre) \<le> length (pieces (pre @ ps))" by (simp add: pieces_def)
  moreover have "ps = []" if "length pre = unat (stream_chunk_count s)"
    using fit that by (simp add: pieces_fit_def)
  ultimately show ?thesis using fit by (auto simp: pieces_fit_def)
qed

lemma sealed_fold_ok:
  assumes "authentic_cipher enc dec" "stream_ok s"
  shows "pieces_fit mac enc key s pre \<Longrightarrow> \<forall>p\<in>set ps. recovery_binding_ok (spec_binding (fst p)) \<Longrightarrow>
     try_fold (seal_and_accept mac enc dec key) (stream_after s pre) ps = Ok t \<longleftrightarrow>
     pieces_fit mac enc key s (pre @ ps) \<and> t = stream_after s (pre @ ps)"
proof (induction ps arbitrary: pre)
  case (Cons p ps)
  note step = seal_and_accept_ok [OF assms Cons.prems(1), of p]
  show ?case
  proof (cases "pieces_fit mac enc key s (pre @ [p])")
    case True
    then have "seal_and_accept mac enc dec key (stream_after s pre) p = Ok (stream_after s (pre @ [p]))"
      using step Cons.prems(2) by simp
    then show ?thesis using Cons.IH [OF True] Cons.prems(2) by simp
  next
    case False
    then have "\<not> pieces_fit mac enc key s (pre @ p # ps)" using pieces_fit_prefix [of mac enc key s "pre @ [p]" ps] by auto
    moreover have "seal_and_accept mac enc dec key (stream_after s pre) p \<noteq> Ok u" for u
      using step [of u] False Cons.prems(2) by simp
    ultimately show ?thesis unfolding try_fold_Cons_ok by blast
  qed
qed auto

text \<open>C38: A bundle is recovered exactly as it was sealed. Of chunks sealed under any names whatever, in any
  order, a stream that is run to its end yields data exactly when there are as many of them as it
  expects, the \<open>i\<close>-th was sealed as chunk \<open>i\<close> of this bundle, data set, key, number of chunks, size and
  inventory, and their pieces together have the expected size; the data are then these pieces in
  order. A chunk that is missing, repeated, out of order or taken from another bundle is never
  accepted. The hypothesis on the cipher is what AES-GCM documents.\<close>

theorem bundle_recovered_as_sealed:
  assumes "authentic_cipher enc dec" "stream_begin b count total_bytes digest = Ok s" "recovery_binding_ok b"
    and "\<forall>p\<in>set sealed. recovery_binding_ok (spec_binding (fst p))"
  shows "and_then (try_fold (seal_and_accept mac enc dec recovery_key) s sealed) stream_finish = Ok data \<longleftrightarrow>
     length sealed = unat count
     \<and> (\<forall>i<length sealed. sealable mac enc recovery_key (sealed ! i)
          \<and> fst (sealed ! i) = \<lparr>spec_binding = b, spec_sequence = of_nat i, spec_chunk_count = count,
                                spec_total_bytes = total_bytes, spec_inventory_digest = digest\<rparr>)
     \<and> data = concat (map (snd \<circ> snd) sealed) \<and> length data = unat total_bytes"
proof -
  have s: "count \<noteq> 0" "count \<le> max_chunks" "total_bytes \<noteq> 0" "total_bytes \<le> max_total_bytes"
    "s = \<lparr>stream_binding = b, stream_chunk_count = count, stream_total_bytes = total_bytes,
         stream_inventory_digest = digest, stream_next_sequence = 0, stream_accumulated = []\<rparr>"
    using assms(2) unfolding stream_begin_ok by auto
  have small: "unat count \<le> 32" "unat total_bytes \<le> 2 ^ 22"
    using s(2,4) by (simp_all add: max_chunks_def max_total_bytes_def word_le_nat_alt)
  have nonzero: "0 < unat count" "0 < unat total_bytes" using s(1,3) by (simp_all add: unat_gt_0)
  have ok: "stream_ok s" using small nonzero assms(3) by (simp add: stream_ok_def s(5))
  have "pieces_fit mac enc recovery_key s []" using nonzero by (simp add: pieces_fit_def pieces_def s(5))
  moreover have "stream_after s [] = s" by (simp add: stream_after_def pieces_def s(5))
  ultimately have fold: "try_fold (seal_and_accept mac enc dec recovery_key) s sealed = Ok t \<longleftrightarrow>
      pieces_fit mac enc recovery_key s sealed \<and> t = stream_after s sealed" for t
    using sealed_fold_ok [OF assms(1) ok, of mac recovery_key "[]" sealed t] assms(4) by simp
  have finish: "stream_finish (stream_after s sealed) = Ok data \<longleftrightarrow> length sealed = unat count
      \<and> data = pieces sealed \<and> length data = unat total_bytes" if "pieces_fit mac enc recovery_key s sealed"
  proof -
    have "length sealed \<le> unat count" "length (pieces sealed) \<le> unat total_bytes"
      using that by (simp_all add: pieces_fit_def s(5))
    then have "unat (of_nat (length sealed) :: u32) = length sealed"
      "unat (of_nat (length (pieces sealed)) :: u64) = length (pieces sealed)"
      using small by (simp_all add: unat_of_nat)
    then have "(of_nat (length sealed) :: u32) = count \<longleftrightarrow> length sealed = unat count"
      "(of_nat (length (pieces sealed)) :: u64) = total_bytes \<longleftrightarrow> length (pieces sealed) = unat total_bytes"
      by (metis word_unat_eq_iff)+
    then show ?thesis unfolding stream_finish_def if_err_ok by (auto simp: stream_after_def s(5))
  qed
  have "and_then (try_fold (seal_and_accept mac enc dec recovery_key) s sealed) stream_finish = Ok data \<longleftrightarrow>
      pieces_fit mac enc recovery_key s sealed \<and> length sealed = unat count
      \<and> data = pieces sealed \<and> length data = unat total_bytes"
    unfolding and_then_ok fold using finish by auto
  then show ?thesis by (auto simp: pieces_fit_def pieces_def nth_spec_def s(5))
qed

text \<open>A cipher with the documented behaviour: the associated data are written out before the message.\<close>

fun unmark :: "bytes \<Rightarrow> (bytes \<times> bytes) option" where
  "unmark (t # bs) =
     (if t = 0 then Some ([], bs)
      else case bs of [] \<Rightarrow> None | x # r \<Rightarrow> map_option (\<lambda>(a, m). (x # a, m)) (unmark r))"
| "unmark [] = None"

definition bound_enc :: cipher where
  "bound_enc k n a m = Some (replicate 16 0 @ concat (map (\<lambda>x. [1, x]) a) @ 0 # m)"

definition bound_dec :: cipher where
  "bound_dec k n a c =
     (case unmark (drop 16 c) of None \<Rightarrow> None | Some (a', m) \<Rightarrow> if a' = a then Some m else None)"

lemma unmark_mark: "unmark (concat (map (\<lambda>x. [1, x]) a) @ 0 # m) = Some (a, m)"
  by (induction a) simp_all

lemma bound_cipher: "authentic_cipher bound_enc bound_dec"
  by (auto simp: authentic_cipher_def bound_enc_def bound_dec_def unmark_mark tag_bytes_def)

definition example_recovery :: backup_recovery_binding where
  "example_recovery = \<lparr>recovery_bundle_id = ''b'', recovery_dataset = ''d'', recovery_key_id = ''k'',
     recovery_key_version = KeyVersion 1\<rparr>"

definition example_chunk :: "nat \<Rightarrow> bytes \<Rightarrow> sealed_piece" where
  "example_chunk i piece = (\<lparr>spec_binding = example_recovery, spec_sequence = of_nat i, spec_chunk_count = 2,
     spec_total_bytes = 3, spec_inventory_digest = 7\<rparr>, Nonce (replicate 12 1), piece)"

theorem bundle_recovered_as_sealed_witness:
  "let mac = (\<lambda>_ _. replicate 32 0); key = replicate 32 5; send = seal_and_accept mac bound_enc bound_dec key in
   \<exists>s. stream_begin example_recovery 2 3 7 = Ok s
     \<and> and_then (try_fold send s [example_chunk 0 [1, 2], example_chunk 1 [3]]) stream_finish = Ok [1, 2, 3]
     \<and> and_then (try_fold send s [example_chunk 1 [3], example_chunk 0 [1, 2]]) stream_finish \<noteq> Ok [3, 1, 2]"
proof -
  let ?mac = "\<lambda>_ _. replicate 32 0" and ?key = "replicate 32 5"
  obtain s where s: "stream_begin example_recovery 2 3 7 = Ok s"
    by (simp add: stream_begin_ok max_chunks_def max_total_bytes_def)
  have b: "recovery_binding_ok example_recovery"
    by (simp add: recovery_binding_ok_def example_recovery_def fits_u64_def)
  have seals: "sealable ?mac bound_enc ?key (example_chunk i piece)" if "piece \<noteq> []" "length piece \<le> 3" for i piece
  proof -
    have "unat (of_nat (length piece) :: u64) = length piece" using that(2) by (simp add: unat_of_nat)
    then have "\<not> (3 :: u64) < of_nat (length piece)" using that(2) by (simp add: word_less_nat_alt)
    then show ?thesis
      using that unfolding example_chunk_def is_ok_iff prod.case seal_chunk_ok
      by (simp add: bound_enc_def max_chunk_bytes_def)
  qed
  have name: "fst (example_chunk i piece) = \<lparr>spec_binding = example_recovery, spec_sequence = of_nat i,
      spec_chunk_count = 2, spec_total_bytes = 3, spec_inventory_digest = 7\<rparr>"
    "snd (snd (example_chunk i piece)) = piece" for i piece
    by (simp_all add: example_chunk_def)
  have ok: "\<forall>p\<in>set [example_chunk i x, example_chunk j y]. recovery_binding_ok (spec_binding (fst p))" for i j x y
    by (simp add: name b)
  have fit: "(\<forall>i<length [p, q]. sealable ?mac bound_enc ?key ([p, q] ! i) \<and> fst ([p, q] ! i) = f i) \<longleftrightarrow>
      (sealable ?mac bound_enc ?key p \<and> fst p = f 0) \<and> (sealable ?mac bound_enc ?key q \<and> fst q = f 1)" for p q f
    by (auto simp: less_Suc_eq)
  note recovered = bundle_recovered_as_sealed [OF bound_cipher s b ok, where mac = ?mac and recovery_key = ?key, unfolded fit name]
  have "and_then (try_fold (seal_and_accept ?mac bound_enc bound_dec ?key) s [example_chunk 0 [1, 2], example_chunk 1 [3]])
      stream_finish = Ok [1, 2, 3]"
    unfolding recovered using seals by (simp add: name)
  moreover have "and_then (try_fold (seal_and_accept ?mac bound_enc bound_dec ?key) s [example_chunk 1 [3], example_chunk 0 [1, 2]])
      stream_finish \<noteq> Ok [3, 1, 2]"
    unfolding recovered by simp
  ultimately show ?thesis using s unfolding Let_def by blast
qed

end
