(* ===== verification/JsonPatch.thy ===== *)
theory JsonPatch
  imports Decimal "HOL-Library.Sublist"
begin

text \<open>
  JSON Patch as remote agents send it, the second half of \<open>crates/openbot-agent/src/agui.rs\<close>: JSON pointers,
  the six operations, and their application to a document. \<open>parent_mut\<close> hands out a reference into the
  document; here the function that uses the reference is an argument. A \<open>serde_json\<close> object is a \<open>BTreeMap\<close>,
  kept as its sorted entry list. \<open>json_len\<close>, the length of \<open>serde_json\<close>'s rendering, is an argument.
\<close>

section \<open>Errors and bounds\<close>

datatype agui_protocol_error =
  AguiTooLarge | AguiInvalidEvent | AguiInvalidSequence | AguiIdentityMismatch | AguiInvalidPatch | AguiIncomplete

definition max_agui_event_bytes :: nat where "max_agui_event_bytes = 1024 * 1024"
definition max_agui_collection_items :: nat where "max_agui_collection_items = 4096"

definition ensure_value_bound :: "(json \<Rightarrow> nat) \<Rightarrow> json \<Rightarrow> (agui_protocol_error, unit) result" where
  "ensure_value_bound json_len v = (if json_len v \<le> max_agui_event_bytes then Ok () else Err AguiTooLarge)"

section \<open>Pointers\<close>

fun decode_token :: "string \<Rightarrow> string \<Rightarrow> (agui_protocol_error, string) result" where
  "decode_token decoded [] = Ok decoded"
| "decode_token decoded (ch # rest) =
     (if ch \<noteq> CHR ''~'' then decode_token (decoded @ [ch]) rest
      else case rest of
          [] \<Rightarrow> Err AguiInvalidPatch
        | c # rest \<Rightarrow>
            (if c = CHR ''0'' then decode_token (decoded @ ''~'') rest
             else if c = CHR ''1'' then decode_token (decoded @ ''/'') rest
             else Err AguiInvalidPatch))"

primrec collect_results :: "('a \<Rightarrow> ('e, 'b) result) \<Rightarrow> 'a list \<Rightarrow> ('e, 'b list) result" where
  "collect_results f [] = Ok []"
| "collect_results f (x # xs) = and_then (f x) (\<lambda>y. and_then (collect_results f xs) (\<lambda>ys. Ok (y # ys)))"

definition pointer :: "string \<Rightarrow> (agui_protocol_error, string list) result" where
  "pointer path =
     (if path = [] then Ok []
      else if \<not> starts_with path ''/'' \<or> length path > 4096 then Err AguiInvalidPatch
      else collect_results (decode_token []) (split_char (CHR ''/'') (drop 1 path)))"

definition array_index :: "string \<Rightarrow> nat option" where
  "array_index token =
     (if token = ''0'' \<or> (token \<noteq> [] \<and> \<not> starts_with token ''0'' \<and> list_all is_ascii_digit token)
      then parse_digits (2 ^ 64) 0 token else None)"

text \<open>One step down: \<open>object.get\<close> or \<open>array.get\<close> of a parsed index.\<close>

fun json_child :: "string \<Rightarrow> json \<Rightarrow> json option" where
  "json_child token (JObject m) = map_of m token"
| "json_child token (JArray xs) =
     (case array_index token of
        Some i \<Rightarrow> (if i < length xs then Some (xs ! i) else None)
      | None \<Rightarrow> None)"
| "json_child token _ = None"

fun get_at :: "string list \<Rightarrow> json \<Rightarrow> (agui_protocol_error, json) result" where
  "get_at [] current = Ok current"
| "get_at (token # tokens) current = and_then (ok_or AguiInvalidPatch (json_child token current)) (get_at tokens)"

definition get_value :: "json \<Rightarrow> string \<Rightarrow> (agui_protocol_error, json) result" where
  "get_value target path = and_then (pointer path) (\<lambda>tokens. get_at tokens target)"

section \<open>Changing a document\<close>

text \<open>What writing through \<open>object.get_mut\<close> and \<open>array.get_mut\<close> does to the parent.\<close>

fun set_child :: "string \<Rightarrow> json \<Rightarrow> json \<Rightarrow> json" where
  "set_child token v (JObject m) = JObject (map (\<lambda>e. if fst e = token then (token, v) else e) m)"
| "set_child token v (JArray xs) = (case array_index token of Some i \<Rightarrow> JArray (xs[i := v]) | None \<Rightarrow> JArray xs)"
| "set_child token v other = other"

fun with_parent ::
  "(json \<Rightarrow> string \<Rightarrow> (agui_protocol_error, json) result) \<Rightarrow> string list \<Rightarrow> json \<Rightarrow> (agui_protocol_error, json) result" where
  "with_parent change [] target = Err AguiInvalidPatch"
| "with_parent change [token] target = change target token"
| "with_parent change (token # next # tokens) target =
     and_then (ok_or AguiInvalidPatch (json_child token target)) (\<lambda>child.
     and_then (with_parent change (next # tokens) child) (\<lambda>child.
     Ok (set_child token child target)))"

fun add_member :: "json \<Rightarrow> json \<Rightarrow> string \<Rightarrow> (agui_protocol_error, json) result" where
  "add_member v (JObject m) token = Ok (JObject (fst (bt_insert token v m)))"
| "add_member v (JArray xs) token =
     (if token = ''-'' then Ok (JArray (xs @ [v]))
      else case array_index token of
          Some i \<Rightarrow> (if i \<le> length xs then Ok (JArray (take i xs @ v # drop i xs)) else Err AguiInvalidPatch)
        | None \<Rightarrow> Err AguiInvalidPatch)"
| "add_member v _ token = Err AguiInvalidPatch"

definition add_value :: "json \<Rightarrow> string \<Rightarrow> json \<Rightarrow> (agui_protocol_error, json) result" where
  "add_value target path v =
     and_then (pointer path) (\<lambda>tokens.
     if tokens = [] then Ok v else with_parent (add_member v) tokens target)"

fun remove_member :: "json \<Rightarrow> string \<Rightarrow> (agui_protocol_error, json) result" where
  "remove_member (JObject m) token =
     (case map_of m token of
        Some _ \<Rightarrow> Ok (JObject (filter (\<lambda>e. fst e \<noteq> token) m))
      | None \<Rightarrow> Err AguiInvalidPatch)"
| "remove_member (JArray xs) token =
     (case array_index token of
        Some i \<Rightarrow> (if i < length xs then Ok (JArray (take i xs @ drop (Suc i) xs)) else Err AguiInvalidPatch)
      | None \<Rightarrow> Err AguiInvalidPatch)"
| "remove_member _ token = Err AguiInvalidPatch"

text \<open>The value that \<open>remove_value\<close> returns is dropped by its callers.\<close>

definition remove_value :: "json \<Rightarrow> string \<Rightarrow> (agui_protocol_error, json) result" where
  "remove_value target path =
     and_then (pointer path) (\<lambda>tokens.
     if tokens = [] then Ok JNull else with_parent remove_member tokens target)"

section \<open>Equality of values\<close>

text \<open>
  \<open>PartialEq\<close> of \<open>serde_json::Value\<close>: numbers of different representations differ, and the two zeros of
  floating point are equal. A float is never NaN in a value that was parsed.
\<close>

fun number_eq :: "json_number \<Rightarrow> json_number \<Rightarrow> bool" where
  "number_eq (PosInt a) (PosInt b) \<longleftrightarrow> a = b"
| "number_eq (NegInt a) (NegInt b) \<longleftrightarrow> a = b"
| "number_eq (Float a) (Float b) \<longleftrightarrow> a = b \<or> a \<in> {0, 2 ^ 63} \<and> b \<in> {0, 2 ^ 63}"
| "number_eq _ _ \<longleftrightarrow> False"

function (sequential) json_eq :: "json \<Rightarrow> json \<Rightarrow> bool" where
  "json_eq JNull JNull \<longleftrightarrow> True"
| "json_eq (JBool a) (JBool b) \<longleftrightarrow> a = b"
| "json_eq (JNumber a) (JNumber b) \<longleftrightarrow> number_eq a b"
| "json_eq (JString a) (JString b) \<longleftrightarrow> a = b"
| "json_eq (JArray xs) (JArray ys) \<longleftrightarrow> length xs = length ys \<and> (\<forall>p\<in>set (zip xs ys). json_eq (fst p) (snd p))"
| "json_eq (JObject m) (JObject n) \<longleftrightarrow>
     length m = length n
     \<and> (\<forall>p\<in>set (zip m n). fst (fst p) = fst (snd p) \<and> json_eq (snd (fst p)) (snd (snd p)))"
| "json_eq _ _ \<longleftrightarrow> False"
  by pat_completeness auto
termination
  by (relation "measure (\<lambda>(v, _). size v)")
    (auto simp: less_Suc_eq_le dest!: set_zip_leftD intro!: size_list_estimation')

section \<open>Operations of a patch\<close>

definition member_str :: "string \<Rightarrow> (string \<times> json) list \<Rightarrow> (agui_protocol_error, string) result" where
  "member_str field operation = ok_or AguiInvalidPatch (Option.bind (map_of operation field) json_str)"

definition apply_named ::
  "string \<Rightarrow> string \<Rightarrow> (string \<times> json) list \<Rightarrow> json \<Rightarrow> (agui_protocol_error, json) result" where
  "apply_named op path operation doc =
     (if op = ''add'' then
        and_then (ok_or AguiInvalidPatch (map_of operation ''value'')) (\<lambda>v. add_value doc path v)
      else if op = ''remove'' then remove_value doc path
      else if op = ''replace'' then
        and_then (get_value doc path) (\<lambda>_.
        and_then (remove_value doc path) (\<lambda>doc.
        and_then (ok_or AguiInvalidPatch (map_of operation ''value'')) (\<lambda>v. add_value doc path v)))
      else if op = ''move'' then
        and_then (member_str ''from'' operation) (\<lambda>source.
        if starts_with path (source @ ''/'') then Err AguiInvalidPatch
        else and_then (get_value doc source) (\<lambda>v.
             and_then (remove_value doc source) (\<lambda>doc. add_value doc path v)))
      else if op = ''copy'' then
        and_then (member_str ''from'' operation) (\<lambda>source.
        and_then (get_value doc source) (\<lambda>v. add_value doc path v))
      else if op = ''test'' then
        and_then (get_value doc path) (\<lambda>found.
        and_then (ok_or AguiInvalidPatch (map_of operation ''value'')) (\<lambda>v.
        if \<not> json_eq found v then Err AguiInvalidPatch else Ok doc))
      else Err AguiInvalidPatch)"

definition apply_operation :: "(json \<Rightarrow> nat) \<Rightarrow> json \<Rightarrow> json \<Rightarrow> (agui_protocol_error, json) result" where
  "apply_operation json_len doc operation =
     and_then (ok_or AguiInvalidPatch (as_object operation)) (\<lambda>operation.
     and_then (member_str ''op'' operation) (\<lambda>op.
     and_then (member_str ''path'' operation) (\<lambda>path.
     and_then (apply_named op path operation doc) (\<lambda>doc.
     and_then (ensure_value_bound json_len doc) (\<lambda>_. Ok doc)))))"

text \<open>The target is assigned only after the last operation: an error leaves it as it was.\<close>

definition apply_patch :: "(json \<Rightarrow> nat) \<Rightarrow> json \<Rightarrow> json list \<Rightarrow> (agui_protocol_error, json) result" where
  "apply_patch json_len target patch =
     (if length patch > max_agui_collection_items then Err AguiInvalidPatch
      else try_fold (apply_operation json_len) target patch)"

section \<open>Pointers and their tokens\<close>

lemma collect_results_ok:
  "collect_results f xs = Ok ys \<longleftrightarrow> list_all2 (\<lambda>x y. f x = Ok y) xs ys"
  by (induction xs arbitrary: ys) (auto simp: and_then_ok list_all2_Cons1)

fun encode_token :: "string \<Rightarrow> string" where
  "encode_token [] = []"
| "encode_token (c # rest) =
     (if c = CHR ''~'' then ''~0'' else if c = CHR ''/'' then ''~1'' else [c]) @ encode_token rest"

definition render_pointer :: "string list \<Rightarrow> string" where
  "render_pointer tokens = concat (map (\<lambda>token. CHR ''/'' # encode_token token) tokens)"

lemma decode_encode_token: "decode_token decoded (encode_token token) = Ok (decoded @ token)"
  by (induction token arbitrary: decoded) auto

lemma encode_token_no_slash: "CHR ''/'' \<notin> set (encode_token token)"
  by (induction token) auto

lemma render_pointer_join:
  "tokens \<noteq> [] \<Longrightarrow> render_pointer tokens = CHR ''/'' # join_char (CHR ''/'') (map encode_token tokens)"
proof (induction tokens)
  case (Cons t ts)
  then show ?case by (cases ts) (simp_all add: render_pointer_def)
qed simp

lemma pointer_render:
  assumes "length (render_pointer tokens) \<le> 4096"
  shows "pointer (render_pointer tokens) = Ok tokens"
proof (cases "tokens = []")
  case True
  then show ?thesis by (simp add: render_pointer_def pointer_def)
next
  case False
  have "split_char (CHR ''/'') (join_char (CHR ''/'') (map encode_token tokens)) = map encode_token tokens"
    using False by (intro split_join_char) (auto simp: encode_token_no_slash)
  moreover have "collect_results (decode_token []) (map encode_token tokens) = Ok tokens"
    by (simp add: collect_results_ok list_all2_conv_all_nth decode_encode_token)
  ultimately show ?thesis
    using assms False by (simp add: pointer_def render_pointer_join starts_with_def)
qed

section \<open>Array indices\<close>

lemma array_index_ok:
  assumes "array_index token = Some i"
  shows "token = show_nat i"
proof (cases "token = ''0''")
  case True
  with assms show ?thesis
    by (simp add: array_index_def digit_value_def) (subst show_nat.simps, simp add: char_zero)
next
  case False
  with assms have c: "canonical_amount token"
    by (cases token) (auto simp: array_index_def canonical_amount_def starts_with_def split: if_splits)
  from False assms have "parse_digits (2 ^ 64) 0 token = Some i" by (simp add: array_index_def split: if_splits)
  then have "digits_value 0 token = i" by (simp add: parse_digits_eq split: if_splits)
  with canonical_value [OF c] show ?thesis by simp
qed

lemma array_index_inject: "array_index s = Some i \<Longrightarrow> array_index t = Some i \<Longrightarrow> s = t"
  by (metis array_index_ok)

lemma array_index_dash: "array_index ''-'' = None"
  by (simp add: array_index_def is_ascii_digit_def)

section \<open>Children\<close>

lemma map_of_update_same:
  "map_of m k = Some w \<Longrightarrow> map_of (map (\<lambda>e. if fst e = k then (k, v) else e) m) k = Some v"
  by (induction m) auto

lemma map_of_update_other:
  "k' \<noteq> k \<Longrightarrow> map_of (map (\<lambda>e. if fst e = k then (k, v) else e) m) k' = map_of m k'"
  by (induction m) auto

lemma map_of_bt_insert: "map_of (fst (bt_insert k v m)) k' = (if k' = k then Some v else map_of m k')"
  by (induction k v m rule: bt_insert.induct) (auto split: prod.splits)

lemma map_of_remove: "k' \<noteq> k \<Longrightarrow> map_of (filter (\<lambda>e. fst e \<noteq> k) m) k' = map_of m k'"
  by (induction m) auto

lemma child_set_same: "json_child t doc = Some w \<Longrightarrow> json_child t (set_child t v doc) = Some v"
  by (cases doc) (auto split: option.splits if_splits intro!: map_of_update_same)

lemma child_set_other:
  assumes "t' \<noteq> t"
  shows "json_child t' (set_child t v doc) = json_child t' doc"
proof (cases doc)
  case (JObject m)
  with assms show ?thesis by (simp add: map_of_update_other)
next
  case (JArray xs)
  have "i \<noteq> j" if "array_index t = Some i" "array_index t' = Some j" for i j
    using array_index_inject that assms by metis
  with JArray show ?thesis by (auto split: option.splits)
qed auto

lemma set_child_twice: "set_child t a (set_child t b doc) = set_child t a doc"
  by (cases doc) (auto split: option.splits)

lemma get_at_append: "get_at (ts @ qs) doc = and_then (get_at ts doc) (get_at qs)"
proof (induction ts arbitrary: doc)
  case (Cons t ts)
  then show ?case by (cases "json_child t doc") simp_all
qed simp

section \<open>Writing at a pointer\<close>

text \<open>The document with the value at \<open>tokens\<close> replaced, everything else as it was.\<close>

fun put_at :: "string list \<Rightarrow> json \<Rightarrow> json \<Rightarrow> json" where
  "put_at [] v doc = v"
| "put_at (token # tokens) v doc =
     (case json_child token doc of
        Some child \<Rightarrow> set_child token (put_at tokens v child) doc
      | None \<Rightarrow> doc)"

lemma get_put_same: "is_ok (get_at ts doc) \<Longrightarrow> get_at (ts @ qs) (put_at ts v doc) = get_at qs v"
proof (induction ts arbitrary: doc)
  case (Cons t ts)
  then show ?case by (cases "json_child t doc") (simp_all add: child_set_same)
qed simp

lemma get_put_other:
  "\<not> prefix ts qs \<Longrightarrow> \<not> prefix qs ts \<Longrightarrow> get_at qs (put_at ts v doc) = get_at qs doc"
proof (induction ts arbitrary: doc qs)
  case (Cons t ts)
  then obtain q qs' where qs: "qs = q # qs'" by (cases qs) auto
  show ?case
  proof (cases "json_child t doc")
    case (Some w)
    show ?thesis
    proof (cases "q = t")
      case True
      with Some Cons qs show ?thesis by (simp add: child_set_same)
    next
      case False
      with Some qs show ?thesis by (simp add: child_set_other)
    qed
  qed simp
qed simp

section \<open>Well-formed values\<close>

text \<open>The entries of every object are those of a \<open>BTreeMap\<close>.\<close>

function (sequential) json_wf :: "json \<Rightarrow> bool" where
  "json_wf (JObject m) \<longleftrightarrow> bt_ok m \<and> (\<forall>e\<in>set m. json_wf (snd e))"
| "json_wf (JArray xs) \<longleftrightarrow> (\<forall>x\<in>set xs. json_wf x)"
| "json_wf _ \<longleftrightarrow> True"
  by pat_completeness auto
termination
  by (relation "measure size") (auto simp: size_list_estimation' less_Suc_eq_le intro!: size_list_estimation')

lemma json_wf_child: "json_wf doc \<Longrightarrow> json_child t doc = Some w \<Longrightarrow> json_wf w"
  by (cases doc) (force split: option.splits if_splits dest: map_of_SomeD)+

lemma json_wf_get: "json_wf doc \<Longrightarrow> get_at ts doc = Ok w \<Longrightarrow> json_wf w"
proof (induction ts arbitrary: doc)
  case (Cons t ts)
  then show ?case by (cases "json_child t doc") (auto dest: json_wf_child)
qed simp

lemma map_fst_update: "map fst (map (\<lambda>e. if fst e = t then (t, v) else e) m) = map fst m"
  by (induction m) auto

lemma json_wf_set_child:
  assumes "json_wf doc" "json_wf v"
  shows "json_wf (set_child t v doc)"
proof (cases doc)
  case (JObject m)
  with assms show ?thesis unfolding JObject by (auto simp: bt_ok_def map_fst_update comp_def if_distrib cong: if_cong)
next
  case (JArray xs)
  with assms show ?thesis by (auto split: option.splits dest: set_update_subset_insert [THEN subsetD])
qed auto

lemma json_wf_with_parent:
  assumes "\<And>parent t new. json_wf parent \<Longrightarrow> change parent t = Ok new \<Longrightarrow> json_wf new"
  shows "json_wf doc \<Longrightarrow> with_parent change ts doc = Ok new \<Longrightarrow> json_wf new"
proof (induction ts arbitrary: doc new)
  case (Cons t ts)
  show ?case
  proof (cases ts)
    case Nil
    with Cons.prems assms show ?thesis by auto
  next
    case (Cons n ns)
    with Cons.prems obtain child child' where c: "json_child t doc = Some child"
      "with_parent change ts child = Ok child'" "new = set_child t child' doc"
      by (auto simp: and_then_ok ok_or_ok)
    then show ?thesis
      using Cons.IH [OF json_wf_child [OF Cons.prems(1) c(1)] c(2)] Cons.prems(1) by (simp add: json_wf_set_child)
  qed
qed simp

lemma bt_insert_set: "set (fst (bt_insert k v m)) \<subseteq> insert (k, v) (set m)"
  by (induction k v m rule: bt_insert.induct) (auto split: prod.splits)

lemma add_member_wf: "json_wf v \<Longrightarrow> json_wf parent \<Longrightarrow> add_member v parent t = Ok new \<Longrightarrow> json_wf new"
proof (cases parent)
  case (JObject m)
  assume "json_wf v" "json_wf parent" "add_member v parent t = Ok new"
  then have "new = JObject (fst (bt_insert t v m))" "bt_ok m" "json_wf v" "\<forall>e\<in>set m. json_wf (snd e)"
    using JObject by auto
  then show ?thesis using bt_insert_set [of t v m] by (simp add: bt_insert_ok) (metis insertE snd_conv subsetD)
next
  case (JArray xs)
  assume "json_wf v" "json_wf parent" "add_member v parent t = Ok new"
  with JArray show ?thesis by (auto split: if_splits option.splits dest!: in_set_takeD in_set_dropD)
qed auto

lemma remove_member_wf: "json_wf parent \<Longrightarrow> remove_member parent t = Ok new \<Longrightarrow> json_wf new"
proof (cases parent)
  case (JObject m)
  assume "json_wf parent" "remove_member parent t = Ok new"
  with JObject show ?thesis
    by (auto simp: bt_ok_def sorted_wrt_map sorted_wrt_filter split: option.splits)
next
  case (JArray xs)
  assume "json_wf parent" "remove_member parent t = Ok new"
  with JArray show ?thesis by (auto split: if_splits option.splits dest!: in_set_takeD in_set_dropD)
qed auto

lemma add_value_wf: "json_wf doc \<Longrightarrow> json_wf v \<Longrightarrow> add_value doc path v = Ok new \<Longrightarrow> json_wf new"
  unfolding add_value_def
  by (auto simp: and_then_ok split: if_splits
      intro: json_wf_with_parent [where change = "add_member v"] add_member_wf)

lemma remove_value_wf: "json_wf doc \<Longrightarrow> remove_value doc path = Ok new \<Longrightarrow> json_wf new"
  unfolding remove_value_def
  by (auto simp: and_then_ok split: if_splits
      intro: json_wf_with_parent [where change = remove_member] remove_member_wf)

lemma apply_operation_wf:
  assumes "json_wf doc" "json_wf operation" "apply_operation json_len doc operation = Ok new"
  shows "json_wf new"
proof -
  obtain m op path where m: "operation = JObject m" "apply_named op path m doc = Ok new"
    using assms(3) by (cases operation) (auto simp: apply_operation_def and_then_ok ok_or_ok)
  have v: "json_wf v" if "map_of m k = Some v" for k v
    using assms(2) m(1) map_of_SomeD [OF that] by auto
  have g: "json_wf v" if "get_value d p = Ok v" "json_wf d" for d p v
    using that by (auto simp: get_value_def and_then_ok intro: json_wf_get)
  show ?thesis
    using m(2) assms(1)
    by (auto simp: apply_named_def and_then_ok ok_or_ok split: if_splits
        intro: add_value_wf remove_value_wf dest: v g) 
qed

lemma apply_patch_wf:
  assumes "json_wf doc" "\<forall>operation\<in>set patch. json_wf operation" "apply_patch json_len doc patch = Ok new"
  shows "json_wf new"
proof -
  have "try_fold (apply_operation json_len) doc patch = Ok new" using assms(3) by (simp add: apply_patch_def split: if_splits)
  then show ?thesis using assms(1,2)
    by (induction patch arbitrary: doc) (auto split: sum.splits dest: apply_operation_wf)
qed

section \<open>Replacing exactly one value\<close>

lemma remove_add_member:
  assumes "json_wf parent"
  shows "and_then (remove_member parent t) (\<lambda>parent. add_member v parent t)
    = (case json_child t parent of Some _ \<Rightarrow> Ok (set_child t v parent) | None \<Rightarrow> Err AguiInvalidPatch)"
proof (cases parent)
  case (JObject m)
  have "map_of m t = Some w \<Longrightarrow> fst (bt_insert t v (filter (\<lambda>e. fst e \<noteq> t) m))
      = map (\<lambda>e. if fst e = t then (t, v) else e) m" (is "_ \<Longrightarrow> ?ins = ?upd") for w
  proof (rule bt_ok_ext)
    assume w: "map_of m t = Some w"
    have "bt_ok m" using assms JObject by simp
    then show "bt_ok ?ins" by (intro bt_insert_ok) (simp add: bt_ok_def sorted_wrt_map sorted_wrt_filter)
    from \<open>bt_ok m\<close> show "bt_ok ?upd" by (simp only: bt_ok_def map_fst_update)
    show "map_of ?ins = map_of ?upd"
    proof
      fix k
      show "map_of ?ins k = map_of ?upd k"
        using w by (cases "k = t") (simp_all add: map_of_bt_insert map_of_remove map_of_update_same map_of_update_other)
    qed
  qed
  with JObject show ?thesis by (auto split: option.splits)
next
  case (JArray xs)
  then show ?thesis
    using array_index_dash by (auto simp: upd_conv_take_nth_drop split: option.splits)
qed auto

lemma with_parent_child:
  "ts \<noteq> [] \<Longrightarrow> with_parent change (t # ts) doc
     = and_then (ok_or AguiInvalidPatch (json_child t doc)) (\<lambda>child.
       and_then (with_parent change ts child) (\<lambda>child. Ok (set_child t child doc)))"
  by (cases ts) auto

lemma remove_add_with_parent:
  "ts \<noteq> [] \<Longrightarrow> json_wf doc \<Longrightarrow> and_then (with_parent remove_member ts doc) (with_parent (add_member v) ts)
    = (if is_ok (get_at ts doc) then Ok (put_at ts v doc) else Err AguiInvalidPatch)"
proof (induction ts arbitrary: doc)
  case (Cons t ts)
  show ?case
  proof (cases "ts = []")
    case True
    with remove_add_member [OF Cons.prems(2), of t v] show ?thesis
      by (cases "json_child t doc") simp_all
  next
    case False
    show ?thesis
    proof (cases "json_child t doc")
      case (Some w)
      have ih: "and_then (with_parent remove_member ts w) (with_parent (add_member v) ts)
          = (if is_ok (get_at ts w) then Ok (put_at ts v w) else Err AguiInvalidPatch)"
        using Cons.IH [OF False json_wf_child [OF Cons.prems(2) Some]] .
      show ?thesis
      proof (cases "with_parent remove_member ts w")
        case (Inl e)
        then show ?thesis using ih Some False by (auto simp: with_parent_child split: if_splits)
      next
        case (Inr w')
        then show ?thesis
          using ih Some False by (auto simp: with_parent_child child_set_same set_child_twice split: if_splits)
      qed
    qed (simp add: False with_parent_child)
  qed
qed simp

lemma replace_value:
  assumes "json_wf doc" "pointer path = Ok ts"
  shows "and_then (get_value doc path) (\<lambda>_. and_then (remove_value doc path) (\<lambda>doc. add_value doc path v))
    = (if is_ok (get_at ts doc) then Ok (put_at ts v doc) else Err AguiInvalidPatch)"
proof (cases "ts = []")
  case True
  with assms(2) show ?thesis by (simp add: get_value_def remove_value_def add_value_def)
next
  case False
  have "get_at ts doc = Err e \<Longrightarrow> e = AguiInvalidPatch" for e
  proof (induction ts arbitrary: doc)
    case (Cons t ts)
    then show ?case by (cases "json_child t doc") auto
  qed simp
  then show ?thesis
    using assms False remove_add_with_parent [OF False assms(1), of v]
    by (cases "get_at ts doc") (simp_all add: get_value_def remove_value_def add_value_def)
qed

text \<open>A \<open>replace\<close> replaces one value. On a document whose objects are maps, a patch of one \<open>replace\<close>
  succeeds exactly when its pointer leads to a value and the result is within the bound; then the new
  value stands at the pointer, and no pointer that leads elsewhere sees a difference.\<close>

theorem replace_changes_one_value:
  assumes "json_wf doc" "map_of m ''op'' = Some (JString ''replace'')" "map_of m ''path'' = Some (JString path)"
    and "map_of m ''value'' = Some v" "pointer path = Ok ts"
  shows "(apply_patch json_len doc [JObject m] = Ok new \<longleftrightarrow>
        is_ok (get_at ts doc) \<and> json_len new \<le> max_agui_event_bytes \<and> new = put_at ts v doc)
    \<and> (is_ok (get_at ts doc) \<longrightarrow> get_at (ts @ qs) (put_at ts v doc) = get_at qs v)
    \<and> (\<not> prefix ts qs \<and> \<not> prefix qs ts \<longrightarrow> get_at qs (put_at ts v doc) = get_at qs doc)"
proof -
  have "apply_named ''replace'' path m doc
      = (if is_ok (get_at ts doc) then Ok (put_at ts v doc) else Err AguiInvalidPatch)"
    using replace_value [OF assms(1,5), of v] assms(4) by (simp add: apply_named_def)
  then have "apply_patch json_len doc [JObject m] = Ok new \<longleftrightarrow>
      is_ok (get_at ts doc) \<and> json_len new \<le> max_agui_event_bytes \<and> new = put_at ts v doc"
    using assms(2,3)
    by (auto simp: apply_patch_def max_agui_collection_items_def apply_operation_def member_str_def
        ensure_value_bound_def split: if_splits)
  then show ?thesis by (simp add: get_put_same get_put_other)
qed

text \<open>An element of an array inside an object, and its sibling.\<close>

definition example_document :: json where
  "example_document = JObject [(''list'', JArray [JNull, JBool True]), (''name'', JString ''a'')]"

theorem replace_changes_one_value_witness:
  "apply_patch (\<lambda>_. 10) example_document
     [JObject [(''op'', JString ''replace''), (''path'', JString ''/list/1''), (''value'', JString ''x'')]]
     = Ok (JObject [(''list'', JArray [JNull, JString ''x'']), (''name'', JString ''a'')])"
proof -
  let ?m = "[(''op'', JString ''replace''), (''path'', JString ''/list/1''), (''value'', JString ''x'')]"
  have "json_wf example_document" by (simp add: example_document_def bt_ok_def)
  moreover have "pointer ''/list/1'' = Ok [''list'', ''1'']" by (simp add: pointer_def starts_with_def)
  moreover have "array_index ''1'' = Some 1" by (simp add: array_index_def starts_with_def is_ascii_digit_def digit_value_def)
  ultimately show ?thesis
    using replace_changes_one_value [of example_document ?m "''/list/1''" "JString ''x''" "[''list'', ''1'']" "\<lambda>_. 10"]
    by (simp add: example_document_def max_agui_event_bytes_def)
qed

section \<open>What a patch leaves alone\<close>

text \<open>
  Writing at \<open>ts\<close> can be seen at \<open>qs\<close> when one leads through the other, or when \<open>qs\<close> goes on with an array
  index where \<open>ts\<close> ends: elements of the array may have moved.
\<close>

definition disturbs :: "string list \<Rightarrow> string list \<Rightarrow> bool" where
  "disturbs ts qs \<longleftrightarrow> prefix ts qs \<or> prefix qs ts
     \<or> prefix (butlast ts) qs \<and> array_index (qs ! (length ts - 1)) \<noteq> None"

lemma with_parent_frame:
  assumes "\<And>parent t t' new. change parent t = Ok new \<Longrightarrow> t' \<noteq> t \<Longrightarrow> array_index t' = None
      \<Longrightarrow> json_child t' new = json_child t' parent"
  shows "with_parent change ts doc = Ok new \<Longrightarrow> \<not> disturbs ts qs \<Longrightarrow> get_at qs new = get_at qs doc"
proof (induction ts arbitrary: doc new qs)
  case (Cons t ts)
  obtain q qs' where qs: "qs = q # qs'" using Cons.prems(2) by (cases qs) (auto simp: disturbs_def)
  show ?case
  proof (cases "ts = []")
    case True
    with Cons.prems qs have "change doc t = Ok new" "q \<noteq> t" "array_index q = None"
      by (auto simp: disturbs_def)
    with assms qs show ?thesis by simp
  next
    case False
    with Cons.prems(1) obtain w w' where w: "json_child t doc = Some w" "with_parent change ts w = Ok w'"
      "new = set_child t w' doc"
      by (auto simp: with_parent_child and_then_ok ok_or_ok)
    show ?thesis
    proof (cases "q = t")
      case True
      then have "\<not> disturbs ts qs'" using Cons.prems(2) False qs by (auto simp: disturbs_def nth_Cons')
      with True qs w Cons.IH show ?thesis by (simp add: child_set_same)
    next
      case False
      with qs w show ?thesis by (simp add: child_set_other)
    qed
  qed
qed simp

lemma add_member_frame:
  "add_member v parent t = Ok new \<Longrightarrow> t' \<noteq> t \<Longrightarrow> array_index t' = None \<Longrightarrow> json_child t' new = json_child t' parent"
  by (cases parent) (auto simp: map_of_bt_insert split: if_splits option.splits)

lemma remove_member_frame:
  "remove_member parent t = Ok new \<Longrightarrow> t' \<noteq> t \<Longrightarrow> array_index t' = None \<Longrightarrow> json_child t' new = json_child t' parent"
  by (cases parent) (auto simp: map_of_remove split: if_splits option.splits)

lemma add_value_frame:
  "add_value doc path v = Ok new \<Longrightarrow> pointer path = Ok ts \<Longrightarrow> \<not> disturbs ts qs \<Longrightarrow> get_at qs new = get_at qs doc"
  unfolding add_value_def
  by (auto simp: disturbs_def split: if_splits intro: with_parent_frame [OF add_member_frame])

lemma remove_value_frame:
  "remove_value doc path = Ok new \<Longrightarrow> pointer path = Ok ts \<Longrightarrow> \<not> disturbs ts qs \<Longrightarrow> get_at qs new = get_at qs doc"
  unfolding remove_value_def
  by (auto simp: disturbs_def split: if_splits intro: with_parent_frame [OF remove_member_frame])

text \<open>The pointers an operation writes at.\<close>

definition written_paths :: "json \<Rightarrow> string list" where
  "written_paths operation =
     (case as_object operation of
        None \<Rightarrow> []
      | Some m \<Rightarrow>
          (case (member_str ''op'' m, member_str ''path'' m) of
             (Inr op, Inr path) \<Rightarrow>
               if op = ''test'' then []
               else path # (if op = ''move'' then (case member_str ''from'' m of Inr source \<Rightarrow> [source] | Inl _ \<Rightarrow> []) else [])
           | _ \<Rightarrow> []))"

definition leaves_alone :: "json list \<Rightarrow> string list \<Rightarrow> bool" where
  "leaves_alone patch qs \<longleftrightarrow>
     (\<forall>operation\<in>set patch. \<forall>path\<in>set (written_paths operation).
        case pointer path of Inr ts \<Rightarrow> \<not> disturbs ts qs | Inl _ \<Rightarrow> True)"

lemma add_value_leaves:
  assumes "add_value doc path v = Ok new" "case pointer path of Inr ts \<Rightarrow> \<not> disturbs ts qs | Inl _ \<Rightarrow> True"
  shows "get_at qs new = get_at qs doc"
  using assms add_value_frame [OF assms(1)] by (cases "pointer path") (auto simp: add_value_def)

lemma remove_value_leaves:
  assumes "remove_value doc path = Ok new" "case pointer path of Inr ts \<Rightarrow> \<not> disturbs ts qs | Inl _ \<Rightarrow> True"
  shows "get_at qs new = get_at qs doc"
  using assms remove_value_frame [OF assms(1)] by (cases "pointer path") (auto simp: remove_value_def)

lemma apply_operation_leaves:
  assumes "apply_operation json_len doc operation = Ok new" "leaves_alone [operation] qs"
  shows "get_at qs new = get_at qs doc"
proof -
  obtain m op path where m: "operation = JObject m" "member_str ''op'' m = Ok op" "member_str ''path'' m = Ok path"
    "apply_named op path m doc = Ok new"
    using assms(1) by (cases operation) (auto simp: apply_operation_def and_then_ok ok_or_ok)
  have written: "written_paths operation = (if op = ''test'' then []
      else path # (if op = ''move'' then (case member_str ''from'' m of Inr source \<Rightarrow> [source] | Inl _ \<Rightarrow> []) else []))"
    using m(1-3) by (simp add: written_paths_def)
  have all: "\<forall>path\<in>set (written_paths operation). case pointer path of Inr ts \<Rightarrow> \<not> disturbs ts qs | Inl _ \<Rightarrow> True"
    using assms(2) by (simp add: leaves_alone_def)
  have test: ?thesis if "op = ''test''"
    using m(4) that by (auto simp: apply_named_def and_then_ok split: if_splits)
  have keep: "add_value d path v = Ok d' \<Longrightarrow> get_at qs d' = get_at qs d"
      "remove_value d path = Ok d' \<Longrightarrow> get_at qs d' = get_at qs d" if ne: "op \<noteq> ''test''" for d v d'
  proof -
    have "case pointer path of Inr ts \<Rightarrow> \<not> disturbs ts qs | Inl _ \<Rightarrow> True"
    proof -
      obtain rest where "written_paths operation = path # rest" using ne written by simp
      with all show ?thesis by simp
    qed
    then show "add_value d path v = Ok d' \<Longrightarrow> get_at qs d' = get_at qs d"
      "remove_value d path = Ok d' \<Longrightarrow> get_at qs d' = get_at qs d"
      by (blast intro: add_value_leaves remove_value_leaves)+
  qed
  have move: ?thesis if mv: "op = ''move''"
  proof -
    obtain source v d where s: "member_str ''from'' m = Ok source" "remove_value doc source = Ok d"
      "add_value d path v = Ok new"
      using m(4) mv by (auto simp: apply_named_def and_then_ok split: if_splits)
    have "written_paths operation = [path, source]" using mv by (simp add: written s(1))
    then have "case pointer source of Inr ts \<Rightarrow> \<not> disturbs ts qs | Inl _ \<Rightarrow> True" using all by simp
    with s keep(1) [OF _ s(3)] remove_value_leaves [OF s(2)] mv show ?thesis by simp
  qed
  show ?thesis
  proof (cases "op = ''test'' \<or> op = ''move''")
    case False
    then show ?thesis using m(4) keep
      unfolding apply_named_def by (simp split: if_splits add: and_then_ok) (elim exE conjE; simp)+
  qed (use test move in blast)
qed

text \<open>C6: A patch changes only what it names. After a patch that was applied, a pointer that no operation
  of it writes at, through, or beside in an array leads to the value it led to before.\<close>

theorem patch_leaves_the_rest:
  assumes "apply_patch json_len doc patch = Ok new" "leaves_alone patch qs"
  shows "get_at qs new = get_at qs doc"
proof -
  have "try_fold (apply_operation json_len) doc patch = Ok new" using assms(1) by (simp add: apply_patch_def split: if_splits)
  then show ?thesis using assms(2)
  proof (induction patch arbitrary: doc)
    case (Cons operation patch)
    then obtain d where d: "apply_operation json_len doc operation = Ok d"
      "try_fold (apply_operation json_len) d patch = Ok new"
      unfolding try_fold_Cons_ok by blast
    have "get_at qs d = get_at qs doc" using d(1) Cons.prems(2) by (intro apply_operation_leaves) (auto simp: leaves_alone_def)
    with Cons.IH [OF d(2)] Cons.prems(2) show ?case by (simp add: leaves_alone_def)
  qed simp
qed

theorem patch_leaves_the_rest_witness:
  "apply_patch (\<lambda>_. 10) example_document
     [JObject [(''op'', JString ''remove''), (''path'', JString ''/list/0'')],
      JObject [(''from'', JString ''/list''), (''op'', JString ''move''), (''path'', JString ''/moved'')]]
     = Ok (JObject [(''moved'', JArray [JBool True]), (''name'', JString ''a'')])
   \<and> get_at [''name''] (JObject [(''moved'', JArray [JBool True]), (''name'', JString ''a'')]) = Ok (JString ''a'')"
proof -
  let ?patch = "[JObject [(''op'', JString ''remove''), (''path'', JString ''/list/0'')],
      JObject [(''from'', JString ''/list''), (''op'', JString ''move''), (''path'', JString ''/moved'')]]"
  let ?new = "JObject [(''moved'', JArray [JBool True]), (''name'', JString ''a'')]"
  have p: "pointer ''/list/0'' = Ok [''list'', ''0'']" "pointer ''/list'' = Ok [''list'']"
    "pointer ''/moved'' = Ok [''moved'']"
    by (simp_all add: pointer_def starts_with_def)
  have i: "array_index ''0'' = Some 0" "array_index ''name'' = None"
    by (simp_all add: array_index_def starts_with_def is_ascii_digit_def digit_value_def)
  have "apply_patch (\<lambda>_. 10) example_document ?patch = Ok ?new"
    by (simp add: example_document_def apply_patch_def max_agui_collection_items_def apply_operation_def
        member_str_def apply_named_def remove_value_def add_value_def get_value_def p i ensure_value_bound_def
        max_agui_event_bytes_def starts_with_def)
  moreover have "leaves_alone ?patch [''name'']"
    by (simp add: leaves_alone_def written_paths_def member_str_def p i disturbs_def)
  ultimately show ?thesis
    using patch_leaves_the_rest [of "\<lambda>_. 10" example_document ?patch ?new "[''name'']"]
    by (simp add: example_document_def)
qed

end
