(* ===== verification/AguiDecoder.thy ===== *)
theory AguiDecoder
  imports JsonPatch
begin

text \<open>
  The AG-UI event stream of a remote agent, the first half of \<open>crates/openbot-agent/src/agui.rs\<close>: each
  incoming text is parsed, checked against what is open, and turned into events. A method on \<open>&mut self\<close>
  with an output vector is a step on the decoder and the output, which keeps what was changed before an
  error. \<open>parse\<close> is \<open>serde_json::from_str\<close> and \<open>json_len\<close> the length of its rendering.
\<close>

section \<open>Events and state\<close>

datatype agui_role =
  AguiDeveloper | AguiSystem | AguiAssistant | AguiUser | AguiToolRole | AguiReasoningRole

record agui_interrupt =
  interrupt_id :: string
  interrupt_reason :: string
  interrupt_message :: "string option"
  interrupt_tool_call_id :: "string option"
  interrupt_response_schema :: "json option"
  interrupt_expires_at :: "string option"
  interrupt_metadata :: "json option"

datatype agui_event =
    AguiRunStarted
  | AguiRunFinished
  | AguiRunInterrupted "agui_interrupt list"
  | AguiRunError string "string option"
  | AguiStepStarted string
  | AguiStepFinished string
  | AguiTextStarted string agui_role "string option"
  | AguiTextDelta string string
  | AguiTextEnded string
  | AguiToolStarted string string "string option"
  | AguiToolArguments string string
  | AguiToolCompleted string string json
  | AguiToolResult string string string
  | AguiStateSnapshot json
  | AguiStateDelta "json list"
  | AguiMessagesSnapshot "json list"
  | AguiActivitySnapshot string string json bool
  | AguiActivityDelta string string "json list"
  | AguiReasoningStarted string
  | AguiReasoningMessageStarted string
  | AguiReasoningDelta string string
  | AguiReasoningMessageEnded string
  | AguiReasoningEnded string
  | AguiReasoningEncrypted string string string
  | AguiRaw "string option" json
  | AguiCustom string json

record tool_accumulator =
  acc_name :: string
  acc_arguments :: string
  acc_ended :: bool

record agui_decoder =
  dec_thread_id :: string
  dec_run_id :: string
  dec_started :: bool
  dec_terminal :: bool
  dec_open_text :: "(string \<times> agui_role) list"
  dec_tools :: "(string \<times> tool_accumulator) list"
  dec_open_steps :: "string set"
  dec_reasoning_runs :: "string set"
  dec_reasoning_messages :: "string set"
  dec_state :: json
  dec_activities :: "(string \<times> string \<times> json) list"
  dec_messages :: "json list"
  dec_text_chunk :: "string option"
  dec_tool_chunk :: "string option"
  dec_reasoning_chunk :: "string option"

section \<open>Reading fields\<close>

fun json_array :: "json \<Rightarrow> json list option" where
  "json_array (JArray xs) = Some xs"
| "json_array _ = None"

definition opt_filter :: "('a \<Rightarrow> bool) \<Rightarrow> 'a option \<Rightarrow> 'a option" where
  "opt_filter p opt = (case opt of Some a \<Rightarrow> if p a then Some a else None | None \<Rightarrow> None)"

definition field_str :: "(string \<times> json) list \<Rightarrow> string \<Rightarrow> string option" where
  "field_str m field = Option.bind (map_of m field) json_str"

definition has_nul :: "string \<Rightarrow> bool" where
  "has_nul s \<longleftrightarrow> CHR 0x00 \<in> set s"

definition bounded_id :: "string \<Rightarrow> (agui_protocol_error, string) result" where
  "bounded_id s = (if s = [] \<or> length s > 4096 \<or> has_nul s then Err AguiInvalidEvent else Ok s)"

definition bounded_string :: "string \<Rightarrow> (agui_protocol_error, string) result" where
  "bounded_string s = (if length s > max_agui_event_bytes \<or> has_nul s then Err AguiTooLarge else Ok s)"

definition required_string :: "(string \<times> json) list \<Rightarrow> string \<Rightarrow> (agui_protocol_error, string) result" where
  "required_string m field = ok_or AguiInvalidEvent (opt_filter (\<lambda>s. s \<noteq> []) (field_str m field))"

definition required_bounded_string ::
  "(string \<times> json) list \<Rightarrow> string \<Rightarrow> (agui_protocol_error, string) result" where
  "required_bounded_string m field = and_then (required_string m field) bounded_id"

definition required_text :: "(string \<times> json) list \<Rightarrow> string \<Rightarrow> (agui_protocol_error, string) result" where
  "required_text m field = and_then (ok_or AguiInvalidEvent (field_str m field)) bounded_string"

definition optional_bounded_string ::
  "(string \<times> json) list \<Rightarrow> string \<Rightarrow> (agui_protocol_error, string option) result" where
  "optional_bounded_string m field =
     (case map_of m field of
        None \<Rightarrow> Ok None
      | Some (JString s) \<Rightarrow> if s \<noteq> [] then map_sum id Some (bounded_string s) else Err AguiInvalidEvent
      | Some _ \<Rightarrow> Err AguiInvalidEvent)"

definition optional_text :: "(string \<times> json) list \<Rightarrow> string \<Rightarrow> (agui_protocol_error, string option) result" where
  "optional_text m field =
     (case map_of m field of
        None \<Rightarrow> Ok None
      | Some (JString s) \<Rightarrow> map_sum id Some (bounded_string s)
      | Some _ \<Rightarrow> Err AguiInvalidEvent)"

definition optional_bool :: "(string \<times> json) list \<Rightarrow> string \<Rightarrow> (agui_protocol_error, bool option) result" where
  "optional_bool m field =
     (case map_of m field of
        None \<Rightarrow> Ok None
      | Some (JBool b) \<Rightarrow> Ok (Some b)
      | Some _ \<Rightarrow> Err AguiInvalidEvent)"

definition parse_text_role :: "json option \<Rightarrow> (agui_protocol_error, agui_role) result" where
  "parse_text_role v =
     and_then (case v of None \<Rightarrow> Ok ''assistant'' | Some (JString s) \<Rightarrow> Ok s | Some _ \<Rightarrow> Err AguiInvalidEvent) (\<lambda>s.
     if s = ''developer'' then Ok AguiDeveloper
     else if s = ''system'' then Ok AguiSystem
     else if s = ''assistant'' then Ok AguiAssistant
     else if s = ''user'' then Ok AguiUser
     else Err AguiInvalidEvent)"

definition patch_array ::
  "(json \<Rightarrow> nat) \<Rightarrow> (string \<times> json) list \<Rightarrow> string \<Rightarrow> (agui_protocol_error, json list) result" where
  "patch_array json_len m field =
     and_then (ok_or AguiInvalidPatch
        (opt_filter (\<lambda>patch. length patch \<le> max_agui_collection_items) (Option.bind (map_of m field) json_array))) (\<lambda>patch.
     and_then (ensure_value_bound json_len (JArray patch)) (\<lambda>_. Ok patch))"

definition validate_interrupt :: "json \<Rightarrow> (agui_protocol_error, agui_interrupt) result" where
  "validate_interrupt v =
     and_then (ok_or AguiInvalidEvent (as_object v)) (\<lambda>m.
     and_then (required_bounded_string m ''id'') (\<lambda>the_id.
     and_then (required_bounded_string m ''reason'') (\<lambda>reason.
     and_then (optional_bounded_string m ''message'') (\<lambda>message.
     and_then (optional_bounded_string m ''toolCallId'') (\<lambda>tool_call_id.
     and_then (optional_bounded_string m ''expiresAt'') (\<lambda>expires_at.
     if list_ex (\<lambda>field. case map_of m field of Some w \<Rightarrow> \<not> is_object w | None \<Rightarrow> False)
          [''responseSchema'', ''metadata'']
     then Err AguiInvalidEvent
     else Ok \<lparr>interrupt_id = the_id, interrupt_reason = reason, interrupt_message = message,
       interrupt_tool_call_id = tool_call_id, interrupt_response_schema = map_of m ''responseSchema'',
       interrupt_expires_at = expires_at, interrupt_metadata = map_of m ''metadata''\<rparr>))))))"

definition validate_interrupts :: "json option \<Rightarrow> (agui_protocol_error, agui_interrupt list) result" where
  "validate_interrupts v =
     and_then (ok_or AguiInvalidEvent
        (opt_filter (\<lambda>values. values \<noteq> [] \<and> length values \<le> 256) (Option.bind v json_array))) (\<lambda>values.
     collect_results validate_interrupt values)"

text \<open>A check whose value is dropped.\<close>

abbreviation void :: "('e, 'a) result \<Rightarrow> ('e, unit) result" where
  "void r \<equiv> map_sum id (\<lambda>_. ()) r"

definition validate_call :: "(string \<Rightarrow> json option) \<Rightarrow> json \<Rightarrow> (agui_protocol_error, unit) result" where
  "validate_call parse v =
     and_then (ok_or AguiInvalidEvent (as_object v)) (\<lambda>call.
     and_then (required_bounded_string call ''id'') (\<lambda>_.
     if field_str call ''type'' \<noteq> Some ''function'' then Err AguiInvalidEvent
     else and_then (ok_or AguiInvalidEvent (Option.bind (map_of call ''function'') as_object)) (\<lambda>f.
       and_then (required_bounded_string f ''name'') (\<lambda>_.
       and_then (required_text f ''arguments'') (\<lambda>arguments.
       void (ok_or AguiInvalidEvent (opt_filter is_object (parse arguments))))))))"

definition validate_calls :: "(string \<Rightarrow> json option) \<Rightarrow> json option \<Rightarrow> (agui_protocol_error, unit) result" where
  "validate_calls parse v =
     (case v of
        None \<Rightarrow> Ok ()
      | Some calls \<Rightarrow>
          and_then (ok_or AguiInvalidEvent (opt_filter (\<lambda>calls. length calls \<le> 256) (json_array calls))) (\<lambda>calls.
          void (collect_results (validate_call parse) calls)))"

definition validate_message :: "(string \<Rightarrow> json option) \<Rightarrow> json \<Rightarrow> (agui_protocol_error, unit) result" where
  "validate_message parse v =
     and_then (ok_or AguiInvalidEvent (as_object v)) (\<lambda>m.
     and_then (required_bounded_string m ''id'') (\<lambda>_.
     and_then (required_string m ''role'') (\<lambda>role.
     if role \<in> {''developer'', ''system'', ''user''} then
       checks [void (optional_bounded_string m ''name''), void (optional_bounded_string m ''encryptedValue''),
         void (required_text m ''content'')]
     else if role = ''reasoning'' then
       checks [void (optional_bounded_string m ''encryptedValue''), void (required_text m ''content'')]
     else if role = ''assistant'' then
       checks [void (optional_bounded_string m ''name''), void (optional_bounded_string m ''encryptedValue''),
         (case map_of m ''content'' of None \<Rightarrow> Ok ()
          | Some content \<Rightarrow> void (and_then (ok_or AguiInvalidEvent (json_str content)) bounded_string)),
         validate_calls parse (map_of m ''toolCalls'')]
     else if role = ''tool'' then
       checks [void (required_text m ''content''), void (required_bounded_string m ''toolCallId''),
         void (optional_bounded_string m ''error''), void (optional_bounded_string m ''encryptedValue'')]
     else if role = ''activity'' then
       checks [void (required_bounded_string m ''activityType''),
         void (ok_or AguiInvalidEvent (opt_filter is_object (map_of m ''content'')))]
     else Err AguiInvalidEvent)))"

definition validate_messages ::
  "(string \<Rightarrow> json option) \<Rightarrow> (json \<Rightarrow> nat) \<Rightarrow> json option \<Rightarrow> (agui_protocol_error, json list) result" where
  "validate_messages parse json_len v =
     and_then (ok_or AguiInvalidEvent
        (opt_filter (\<lambda>values. length values \<le> max_agui_collection_items) (Option.bind v json_array))) (\<lambda>messages.
     and_then (collect_results (validate_message parse) messages) (\<lambda>_.
     and_then (ensure_value_bound json_len (JArray messages)) (\<lambda>_. Ok messages)))"

section \<open>Steps\<close>

type_synonym 'a agui_step =
  "agui_decoder \<times> agui_event list \<Rightarrow> (agui_protocol_error, 'a) result \<times> agui_decoder \<times> agui_event list"

definition step_bind :: "'a agui_step \<Rightarrow> ('a \<Rightarrow> 'b agui_step) \<Rightarrow> 'b agui_step" where
  "step_bind m f = (\<lambda>s. case m s of (Inl e, s) \<Rightarrow> (Err e, s) | (Inr a, s) \<Rightarrow> f a s)"

definition step_lift :: "(agui_protocol_error, 'a) result \<Rightarrow> 'a agui_step" where
  "step_lift r = (\<lambda>s. (r, s))"

text \<open>\<open>output.push\<close>, after the state has been changed.\<close>

definition step_push :: "(agui_decoder \<Rightarrow> agui_decoder) \<Rightarrow> agui_event \<Rightarrow> unit agui_step" where
  "step_push change event = (\<lambda>(d, out). (Ok (), change d, out @ [event]))"

definition bt_remove :: "string \<Rightarrow> (string \<times> 'v) list \<Rightarrow> (string \<times> 'v) list" where
  "bt_remove k m = filter (\<lambda>e. fst e \<noteq> k) m"

definition bt_put :: "string \<Rightarrow> 'v \<Rightarrow> (string \<times> 'v) list \<Rightarrow> (string \<times> 'v) list" where
  "bt_put k v m = fst (bt_insert k v m)"

section \<open>Closing what chunks have opened\<close>

definition finish_tool :: "(string \<Rightarrow> json option) \<Rightarrow> string \<Rightarrow> unit agui_step" where
  "finish_tool parse the_id = (\<lambda>(d, out).
     case opt_filter (\<lambda>t. \<not> acc_ended t) (map_of (dec_tools d) the_id) of
       None \<Rightarrow> (Err AguiInvalidSequence, d, out)
     | Some t \<Rightarrow>
         (case opt_filter is_object (parse (acc_arguments t)) of
            None \<Rightarrow> (Err AguiInvalidEvent, d, out)
          | Some arguments \<Rightarrow>
              (Ok (), d\<lparr>dec_tools := bt_put the_id (t\<lparr>acc_ended := True\<rparr>) (dec_tools d)\<rparr>,
                out @ [AguiToolCompleted the_id (acc_name t) arguments])))"

definition close_text_chunk :: "unit agui_step" where
  "close_text_chunk = (\<lambda>(d, out).
     case dec_text_chunk d of
       None \<Rightarrow> (Ok (), d, out)
     | Some the_id \<Rightarrow>
         (let d = d\<lparr>dec_text_chunk := None\<rparr> in
          if map_of (dec_open_text d) the_id = None then (Err AguiInvalidSequence, d, out)
          else (Ok (), d\<lparr>dec_open_text := bt_remove the_id (dec_open_text d)\<rparr>, out @ [AguiTextEnded the_id])))"

definition close_tool_chunk :: "(string \<Rightarrow> json option) \<Rightarrow> unit agui_step" where
  "close_tool_chunk parse = (\<lambda>(d, out).
     case dec_tool_chunk d of
       None \<Rightarrow> (Ok (), d, out)
     | Some the_id \<Rightarrow> finish_tool parse the_id (d\<lparr>dec_tool_chunk := None\<rparr>, out))"

definition close_reasoning_chunk :: "unit agui_step" where
  "close_reasoning_chunk = (\<lambda>(d, out).
     case dec_reasoning_chunk d of
       None \<Rightarrow> (Ok (), d, out)
     | Some the_id \<Rightarrow>
         (let d = d\<lparr>dec_reasoning_chunk := None\<rparr> in
          if the_id \<notin> dec_reasoning_messages d then (Err AguiInvalidSequence, d, out)
          else (Ok (), d\<lparr>dec_reasoning_messages := dec_reasoning_messages d - {the_id}\<rparr>,
            out @ [AguiReasoningMessageEnded the_id])))"

definition step_unless :: "bool \<Rightarrow> unit agui_step \<Rightarrow> unit agui_step" where
  "step_unless b m = (if b then step_lift (Ok ()) else m)"

definition close_convenience_before :: "(string \<Rightarrow> json option) \<Rightarrow> string \<Rightarrow> unit agui_step" where
  "close_convenience_before parse event_type =
     step_bind (step_unless (event_type = ''TEXT_MESSAGE_CHUNK'') close_text_chunk) (\<lambda>_.
     step_bind (step_unless (event_type = ''TOOL_CALL_CHUNK'') (close_tool_chunk parse)) (\<lambda>_.
     step_unless (event_type = ''REASONING_MESSAGE_CHUNK'') close_reasoning_chunk))"

definition close_all_convenience :: "(string \<Rightarrow> json option) \<Rightarrow> unit agui_step" where
  "close_all_convenience parse =
     step_bind close_text_chunk (\<lambda>_. step_bind (close_tool_chunk parse) (\<lambda>_. close_reasoning_chunk))"

section \<open>Text\<close>

definition text_start :: "(string \<times> json) list \<Rightarrow> unit agui_step" where
  "text_start m =
     step_bind (step_lift (required_bounded_string m ''messageId'')) (\<lambda>the_id.
     step_bind (step_lift (parse_text_role (map_of m ''role''))) (\<lambda>role. \<lambda>(d, out).
     let known = map_of (dec_open_text d) the_id;
         d = d\<lparr>dec_open_text := bt_put the_id role (dec_open_text d)\<rparr>
     in if known \<noteq> None then (Err AguiInvalidSequence, d, out)
        else step_bind (step_lift (optional_bounded_string m ''name''))
          (\<lambda>name. step_push id (AguiTextStarted the_id role name)) (d, out)))"

definition text_content :: "(string \<times> json) list \<Rightarrow> unit agui_step" where
  "text_content m =
     step_bind (step_lift (required_bounded_string m ''messageId'')) (\<lambda>the_id. \<lambda>(d, out).
     if map_of (dec_open_text d) the_id = None then (Err AguiInvalidSequence, d, out)
     else step_bind (step_lift (required_text m ''delta'')) (\<lambda>delta. step_push id (AguiTextDelta the_id delta)) (d, out))"

definition text_end :: "(string \<times> json) list \<Rightarrow> unit agui_step" where
  "text_end m =
     step_bind (step_lift (required_bounded_string m ''messageId'')) (\<lambda>the_id. \<lambda>(d, out).
     if map_of (dec_open_text d) the_id = None then (Err AguiInvalidSequence, d, out)
     else step_push (dec_open_text_update (bt_remove the_id)) (AguiTextEnded the_id) (d, out))"

text \<open>A chunk with a new identifier closes the one before and opens its own, with no look at what is open.\<close>

definition open_text_chunk :: "(string \<times> json) list \<Rightarrow> string \<Rightarrow> unit agui_step" where
  "open_text_chunk m incoming =
     step_bind close_text_chunk (\<lambda>_.
     step_bind (step_lift (parse_text_role (map_of m ''role''))) (\<lambda>role. \<lambda>(d, out).
     let d = d\<lparr>dec_text_chunk := Some incoming, dec_open_text := bt_put incoming role (dec_open_text d)\<rparr> in
     step_bind (step_lift (optional_bounded_string m ''name''))
       (\<lambda>name. step_push id (AguiTextStarted incoming role name)) (d, out)))"

definition open_unless_current ::
  "(agui_decoder \<Rightarrow> string option) \<Rightarrow> string option \<Rightarrow> (string \<Rightarrow> unit agui_step) \<Rightarrow> unit agui_step" where
  "open_unless_current current incoming opening = (\<lambda>(d, out).
     case incoming of
       Some the_id \<Rightarrow> if current d \<noteq> Some the_id then opening the_id (d, out) else (Ok (), d, out)
     | None \<Rightarrow> (Ok (), d, out))"

definition text_chunk :: "(string \<times> json) list \<Rightarrow> unit agui_step" where
  "text_chunk m =
     step_bind (step_lift (optional_bounded_string m ''messageId'')) (\<lambda>incoming.
     step_bind (open_unless_current dec_text_chunk incoming (open_text_chunk m)) (\<lambda>_. \<lambda>(d, out).
     step_bind (step_lift (ok_or AguiInvalidSequence (dec_text_chunk d))) (\<lambda>the_id.
     step_bind (step_lift (optional_text m ''delta'')) (\<lambda>delta.
       case delta of
         None \<Rightarrow> step_lift (Ok ())
       | Some delta \<Rightarrow>
           if delta = [] then close_text_chunk else step_push id (AguiTextDelta the_id delta))) (d, out)))"

section \<open>Tool calls\<close>

definition tool_start :: "(string \<times> json) list \<Rightarrow> unit agui_step" where
  "tool_start m =
     step_bind (step_lift (required_bounded_string m ''toolCallId'')) (\<lambda>the_id.
     step_bind (step_lift (required_bounded_string m ''toolCallName'')) (\<lambda>name.
     step_bind (step_lift (optional_bounded_string m ''parentMessageId'')) (\<lambda>parent. \<lambda>(d, out).
     let known = map_of (dec_tools d) the_id;
         d = d\<lparr>dec_tools := bt_put the_id \<lparr>acc_name = name, acc_arguments = [], acc_ended = False\<rparr> (dec_tools d)\<rparr>
     in if known \<noteq> None then (Err AguiInvalidSequence, d, out)
        else step_push id (AguiToolStarted the_id name parent) (d, out))))"

definition push_arguments :: "string \<Rightarrow> tool_accumulator \<Rightarrow> string \<Rightarrow> unit agui_step" where
  "push_arguments the_id t delta = (\<lambda>(d, out).
     if length delta > max_agui_event_bytes - length (acc_arguments t) then (Err AguiTooLarge, d, out)
     else step_push (dec_tools_update (bt_put the_id (t\<lparr>acc_arguments := acc_arguments t @ delta\<rparr>)))
       (AguiToolArguments the_id delta) (d, out))"

definition tool_args :: "(string \<times> json) list \<Rightarrow> unit agui_step" where
  "tool_args m =
     step_bind (step_lift (required_bounded_string m ''toolCallId'')) (\<lambda>the_id.
     step_bind (step_lift (required_text m ''delta'')) (\<lambda>delta. \<lambda>(d, out).
     step_bind (step_lift (ok_or AguiInvalidSequence (opt_filter (\<lambda>t. \<not> acc_ended t) (map_of (dec_tools d) the_id))))
       (\<lambda>t. push_arguments the_id t delta) (d, out)))"

definition tool_end :: "(string \<Rightarrow> json option) \<Rightarrow> (string \<times> json) list \<Rightarrow> unit agui_step" where
  "tool_end parse m = step_bind (step_lift (required_bounded_string m ''toolCallId'')) (finish_tool parse)"

definition open_tool_chunk :: "(string \<Rightarrow> json option) \<Rightarrow> (string \<times> json) list \<Rightarrow> string \<Rightarrow> unit agui_step" where
  "open_tool_chunk parse m incoming =
     step_bind (close_tool_chunk parse) (\<lambda>_.
     step_bind (step_lift (required_bounded_string m ''toolCallName'')) (\<lambda>name.
     step_bind (step_lift (optional_bounded_string m ''parentMessageId'')) (\<lambda>parent. \<lambda>(d, out).
     let d = d\<lparr>dec_tool_chunk := Some incoming,
         dec_tools := bt_put incoming \<lparr>acc_name = name, acc_arguments = [], acc_ended = False\<rparr> (dec_tools d)\<rparr> in
     step_push id (AguiToolStarted incoming name parent) (d, out))))"

definition tool_chunk :: "(string \<Rightarrow> json option) \<Rightarrow> (string \<times> json) list \<Rightarrow> unit agui_step" where
  "tool_chunk parse m =
     step_bind (step_lift (optional_bounded_string m ''toolCallId'')) (\<lambda>incoming.
     step_bind (open_unless_current dec_tool_chunk incoming (open_tool_chunk parse m)) (\<lambda>_. \<lambda>(d, out).
     step_bind (step_lift (ok_or AguiInvalidSequence (dec_tool_chunk d))) (\<lambda>the_id.
     step_bind (step_lift (optional_text m ''delta'')) (\<lambda>delta.
       case delta of
         None \<Rightarrow> step_lift (Ok ())
       | Some delta \<Rightarrow>
           if delta = [] then close_tool_chunk parse
           else step_bind (step_lift (ok_or AguiInvalidSequence (map_of (dec_tools d) the_id)))
             (\<lambda>t. push_arguments the_id t delta))) (d, out)))"

definition tool_result :: "(string \<times> json) list \<Rightarrow> unit agui_step" where
  "tool_result m =
     step_bind (step_lift (required_bounded_string m ''toolCallId'')) (\<lambda>call_id. \<lambda>(d, out).
     if (case map_of m ''role'' of Some v \<Rightarrow> json_str v \<noteq> Some ''tool'' | None \<Rightarrow> False)
     then (Err AguiInvalidEvent, d, out)
     else if \<not> (case map_of (dec_tools d) call_id of Some t \<Rightarrow> acc_ended t | None \<Rightarrow> False)
     then (Err AguiInvalidSequence, d, out)
     else step_bind (step_lift (required_bounded_string m ''messageId'')) (\<lambda>message_id.
          step_bind (step_lift (required_text m ''content'')) (\<lambda>content.
          step_push id (AguiToolResult message_id call_id content))) (d, out))"

section \<open>Steps and reasoning\<close>

definition step_started :: "(string \<times> json) list \<Rightarrow> unit agui_step" where
  "step_started m =
     step_bind (step_lift (required_bounded_string m ''stepName'')) (\<lambda>name. \<lambda>(d, out).
     if name \<in> dec_open_steps d then (Err AguiInvalidSequence, d, out)
     else step_push (dec_open_steps_update (insert name)) (AguiStepStarted name) (d, out))"

definition step_finished :: "(string \<times> json) list \<Rightarrow> unit agui_step" where
  "step_finished m =
     step_bind (step_lift (required_bounded_string m ''stepName'')) (\<lambda>name. \<lambda>(d, out).
     if name \<notin> dec_open_steps d then (Err AguiInvalidSequence, d, out)
     else step_push (dec_open_steps_update (\<lambda>names. names - {name})) (AguiStepFinished name) (d, out))"

definition thinking_run_id :: "agui_decoder \<Rightarrow> string" where
  "thinking_run_id d = ''thinking:'' @ dec_run_id d"

definition thinking_message_id :: "agui_decoder \<Rightarrow> string" where
  "thinking_message_id d = ''thinking-text:'' @ dec_run_id d"

definition reasoning_id :: "(string \<times> json) list \<Rightarrow> (agui_protocol_error, string) result" where
  "reasoning_id m = required_bounded_string m ''messageId''"

text \<open>The \<open>THINKING_\<close> events are the \<open>REASONING_\<close> events on an identifier made from the run.\<close>

definition start_reasoning :: "string \<Rightarrow> unit agui_step" where
  "start_reasoning the_id = (\<lambda>(d, out).
     if the_id \<in> dec_reasoning_runs d then (Err AguiInvalidSequence, d, out)
     else step_push (dec_reasoning_runs_update (insert the_id)) (AguiReasoningStarted the_id) (d, out))"

definition end_reasoning :: "string \<Rightarrow> unit agui_step" where
  "end_reasoning the_id = (\<lambda>(d, out).
     if the_id \<notin> dec_reasoning_runs d then (Err AguiInvalidSequence, d, out)
     else step_push (dec_reasoning_runs_update (\<lambda>ids. ids - {the_id})) (AguiReasoningEnded the_id) (d, out))"

definition start_reasoning_message :: "string \<Rightarrow> unit agui_step" where
  "start_reasoning_message the_id = (\<lambda>(d, out).
     if the_id \<in> dec_reasoning_messages d then (Err AguiInvalidSequence, d, out)
     else step_push (dec_reasoning_messages_update (insert the_id)) (AguiReasoningMessageStarted the_id) (d, out))"

definition reasoning_content :: "(string \<times> json) list \<Rightarrow> string \<Rightarrow> unit agui_step" where
  "reasoning_content m the_id = (\<lambda>(d, out).
     if the_id \<notin> dec_reasoning_messages d then (Err AguiInvalidSequence, d, out)
     else step_bind (step_lift (required_text m ''delta''))
       (\<lambda>delta. step_push id (AguiReasoningDelta the_id delta)) (d, out))"

definition end_reasoning_message :: "string \<Rightarrow> unit agui_step" where
  "end_reasoning_message the_id = (\<lambda>(d, out).
     if the_id \<notin> dec_reasoning_messages d then (Err AguiInvalidSequence, d, out)
     else step_push (dec_reasoning_messages_update (\<lambda>ids. ids - {the_id})) (AguiReasoningMessageEnded the_id) (d, out))"

definition open_reasoning_chunk :: "string \<Rightarrow> unit agui_step" where
  "open_reasoning_chunk incoming =
     step_bind close_reasoning_chunk (\<lambda>_. step_push
       (\<lambda>d. d\<lparr>dec_reasoning_chunk := Some incoming,
           dec_reasoning_messages := insert incoming (dec_reasoning_messages d)\<rparr>)
       (AguiReasoningMessageStarted incoming))"

definition reasoning_chunk :: "(string \<times> json) list \<Rightarrow> unit agui_step" where
  "reasoning_chunk m =
     step_bind (step_lift (optional_bounded_string m ''messageId'')) (\<lambda>incoming.
     step_bind (open_unless_current dec_reasoning_chunk incoming open_reasoning_chunk) (\<lambda>_. \<lambda>(d, out).
     step_bind (step_lift (ok_or AguiInvalidSequence (dec_reasoning_chunk d))) (\<lambda>the_id.
     step_bind (step_lift (optional_text m ''delta'')) (\<lambda>delta.
       case delta of
         None \<Rightarrow> step_lift (Ok ())
       | Some delta \<Rightarrow>
           if delta = [] then close_reasoning_chunk else step_push id (AguiReasoningDelta the_id delta))) (d, out)))"

definition reasoning_encrypted :: "(string \<times> json) list \<Rightarrow> unit agui_step" where
  "reasoning_encrypted m =
     step_bind (step_lift (required_bounded_string m ''subtype'')) (\<lambda>subtype.
     if subtype \<noteq> ''tool-call'' \<and> subtype \<noteq> ''message'' then step_lift (Err AguiInvalidEvent)
     else step_bind (step_lift (required_bounded_string m ''entityId'')) (\<lambda>entity.
          step_bind (step_lift (required_bounded_string m ''encryptedValue'')) (\<lambda>encrypted.
          step_push id (AguiReasoningEncrypted subtype entity encrypted))))"

section \<open>Documents\<close>

definition state_snapshot :: "(json \<Rightarrow> nat) \<Rightarrow> (string \<times> json) list \<Rightarrow> unit agui_step" where
  "state_snapshot json_len m =
     step_bind (step_lift (ok_or AguiInvalidEvent (map_of m ''snapshot''))) (\<lambda>snapshot.
     step_bind (step_lift (ensure_value_bound json_len snapshot)) (\<lambda>_.
     step_push (dec_state_update (\<lambda>_. snapshot)) (AguiStateSnapshot snapshot)))"

definition state_delta :: "(json \<Rightarrow> nat) \<Rightarrow> (string \<times> json) list \<Rightarrow> unit agui_step" where
  "state_delta json_len m =
     step_bind (step_lift (patch_array json_len m ''delta'')) (\<lambda>patch. \<lambda>(d, out).
     step_bind (step_lift (apply_patch json_len (dec_state d) patch))
       (\<lambda>doc. step_push (dec_state_update (\<lambda>_. doc)) (AguiStateDelta patch)) (d, out))"

definition messages_snapshot ::
  "(string \<Rightarrow> json option) \<Rightarrow> (json \<Rightarrow> nat) \<Rightarrow> (string \<times> json) list \<Rightarrow> unit agui_step" where
  "messages_snapshot parse json_len m =
     step_bind (step_lift (validate_messages parse json_len (map_of m ''messages''))) (\<lambda>messages.
     step_push (dec_messages_update (\<lambda>_. messages)) (AguiMessagesSnapshot messages))"

definition activity_snapshot :: "(string \<times> json) list \<Rightarrow> unit agui_step" where
  "activity_snapshot m =
     step_bind (step_lift (required_bounded_string m ''messageId'')) (\<lambda>message_id.
     step_bind (step_lift (required_bounded_string m ''activityType'')) (\<lambda>activity_type.
     step_bind (step_lift (ok_or AguiInvalidEvent (opt_filter is_object (map_of m ''content'')))) (\<lambda>content.
     step_bind (step_lift (optional_bool m ''replace'')) (\<lambda>replace.
     let replace = (case replace of Some b \<Rightarrow> b | None \<Rightarrow> True) in
     step_push
       (\<lambda>d. if replace \<or> map_of (dec_activities d) message_id = None
          then d\<lparr>dec_activities := bt_put message_id (activity_type, content) (dec_activities d)\<rparr> else d)
       (AguiActivitySnapshot message_id activity_type content replace)))))"

definition activity_delta :: "(json \<Rightarrow> nat) \<Rightarrow> (string \<times> json) list \<Rightarrow> unit agui_step" where
  "activity_delta json_len m =
     step_bind (step_lift (required_bounded_string m ''messageId'')) (\<lambda>message_id.
     step_bind (step_lift (required_bounded_string m ''activityType'')) (\<lambda>activity_type.
     step_bind (step_lift (patch_array json_len m ''patch'')) (\<lambda>patch. \<lambda>(d, out).
     case map_of (dec_activities d) message_id of
       None \<Rightarrow> (Err AguiInvalidSequence, d, out)
     | Some (known_type, content) \<Rightarrow>
         if known_type \<noteq> activity_type then (Err AguiInvalidSequence, d, out)
         else step_bind (step_lift (apply_patch json_len content patch)) (\<lambda>content.
           step_push (dec_activities_update (bt_put message_id (activity_type, content)))
             (AguiActivityDelta message_id activity_type patch)) (d, out))))"

definition raw_event :: "(string \<times> json) list \<Rightarrow> unit agui_step" where
  "raw_event m =
     step_bind (step_lift (ok_or AguiInvalidEvent (map_of m ''event''))) (\<lambda>event.
     step_bind (step_lift (optional_bounded_string m ''source'')) (\<lambda>source.
     step_push id (AguiRaw source event)))"

definition custom_event :: "(string \<times> json) list \<Rightarrow> unit agui_step" where
  "custom_event m =
     step_bind (step_lift (required_bounded_string m ''name'')) (\<lambda>name.
     step_bind (step_lift (ok_or AguiInvalidEvent (map_of m ''value''))) (\<lambda>v.
     step_push id (AguiCustom name v)))"

section \<open>The run\<close>

definition check_run_identity :: "agui_decoder \<Rightarrow> (string \<times> json) list \<Rightarrow> (agui_protocol_error, unit) result" where
  "check_run_identity d m =
     and_then (required_string m ''threadId'') (\<lambda>thread.
     if thread \<noteq> dec_thread_id d then Err AguiIdentityMismatch
     else and_then (required_string m ''runId'') (\<lambda>run.
          if run \<noteq> dec_run_id d then Err AguiIdentityMismatch else Ok ()))"

definition open_explicit_streams :: "agui_decoder \<Rightarrow> bool" where
  "open_explicit_streams d \<longleftrightarrow>
     dec_open_text d \<noteq> [] \<or> list_ex (\<lambda>(_, t). \<not> acc_ended t) (dec_tools d) \<or> dec_open_steps d \<noteq> {}
     \<or> dec_reasoning_messages d \<noteq> {} \<or> dec_reasoning_runs d \<noteq> {}"

definition abort_open_streams :: "agui_decoder \<Rightarrow> agui_decoder" where
  "abort_open_streams d =
     d\<lparr>dec_open_text := [], dec_tools := [], dec_open_steps := {}, dec_reasoning_runs := {},
       dec_reasoning_messages := {}, dec_text_chunk := None, dec_tool_chunk := None, dec_reasoning_chunk := None\<rparr>"

definition run_started :: "(string \<times> json) list \<Rightarrow> unit agui_step" where
  "run_started m = (\<lambda>(d, out).
     if dec_started d then (Err AguiInvalidSequence, d, out)
     else step_bind (step_lift (check_run_identity d m))
       (\<lambda>_. step_push (dec_started_update (\<lambda>_. True)) AguiRunStarted) (d, out))"

definition run_finished :: "(string \<times> json) list \<Rightarrow> unit agui_step" where
  "run_finished m = (\<lambda>(d, out).
     step_bind (step_lift (check_run_identity d m)) (\<lambda>_.
     if open_explicit_streams d then step_lift (Err AguiInvalidSequence)
     else step_bind (step_lift
       (case map_of m ''outcome'' of
          None \<Rightarrow> Ok AguiRunFinished
        | Some JNull \<Rightarrow> Ok AguiRunFinished
        | Some (JObject outcome) \<Rightarrow>
            if field_str outcome ''type'' = Some ''success'' then Ok AguiRunFinished
            else if field_str outcome ''type'' = Some ''interrupt''
            then map_sum id AguiRunInterrupted (validate_interrupts (map_of outcome ''interrupts''))
            else Err AguiInvalidEvent
        | Some _ \<Rightarrow> Err AguiInvalidEvent)) (\<lambda>event.
       step_push (dec_terminal_update (\<lambda>_. True)) event)) (d, out))"

definition run_error :: "(string \<times> json) list \<Rightarrow> unit agui_step" where
  "run_error m =
     step_bind (step_lift (required_text m ''message'')) (\<lambda>message.
     step_bind (step_lift (optional_bounded_string m ''code'')) (\<lambda>code.
     step_push (\<lambda>d. abort_open_streams (d\<lparr>dec_terminal := True\<rparr>)) (AguiRunError message code)))"

definition event_handler ::
  "(string \<Rightarrow> json option) \<Rightarrow> (json \<Rightarrow> nat) \<Rightarrow> agui_decoder \<Rightarrow> string \<Rightarrow> (string \<times> json) list \<Rightarrow> unit agui_step" where
  "event_handler parse json_len d event_type m = (
     if event_type = ''RUN_STARTED'' then run_started m
     else if event_type = ''RUN_FINISHED'' then run_finished m
     else if event_type = ''RUN_ERROR'' then run_error m
     else if event_type = ''STEP_STARTED'' then step_started m
     else if event_type = ''STEP_FINISHED'' then step_finished m
     else if event_type = ''TEXT_MESSAGE_START'' then text_start m
     else if event_type = ''TEXT_MESSAGE_CONTENT'' then text_content m
     else if event_type = ''TEXT_MESSAGE_END'' then text_end m
     else if event_type = ''TEXT_MESSAGE_CHUNK'' then text_chunk m
     else if event_type = ''TOOL_CALL_START'' then tool_start m
     else if event_type = ''TOOL_CALL_ARGS'' then tool_args m
     else if event_type = ''TOOL_CALL_END'' then tool_end parse m
     else if event_type = ''TOOL_CALL_CHUNK'' then tool_chunk parse m
     else if event_type = ''TOOL_CALL_RESULT'' then tool_result m
     else if event_type = ''STATE_SNAPSHOT'' then state_snapshot json_len m
     else if event_type = ''STATE_DELTA'' then state_delta json_len m
     else if event_type = ''MESSAGES_SNAPSHOT'' then messages_snapshot parse json_len m
     else if event_type = ''ACTIVITY_SNAPSHOT'' then activity_snapshot m
     else if event_type = ''ACTIVITY_DELTA'' then activity_delta json_len m
     else if event_type = ''RAW'' then raw_event m
     else if event_type = ''CUSTOM'' then custom_event m
     else if event_type = ''REASONING_START'' then step_bind (step_lift (reasoning_id m)) start_reasoning
     else if event_type = ''THINKING_START'' then
       step_bind (step_lift (optional_bounded_string m ''title'')) (\<lambda>_. start_reasoning (thinking_run_id d))
     else if event_type = ''REASONING_MESSAGE_START'' then
       (if field_str m ''role'' \<noteq> Some ''reasoning'' then step_lift (Err AguiInvalidEvent)
        else step_bind (step_lift (reasoning_id m)) start_reasoning_message)
     else if event_type = ''THINKING_TEXT_MESSAGE_START'' then start_reasoning_message (thinking_message_id d)
     else if event_type = ''REASONING_MESSAGE_CONTENT'' then
       step_bind (step_lift (reasoning_id m)) (reasoning_content m)
     else if event_type = ''THINKING_TEXT_MESSAGE_CONTENT'' then reasoning_content m (thinking_message_id d)
     else if event_type = ''REASONING_MESSAGE_END'' then step_bind (step_lift (reasoning_id m)) end_reasoning_message
     else if event_type = ''THINKING_TEXT_MESSAGE_END'' then end_reasoning_message (thinking_message_id d)
     else if event_type = ''REASONING_MESSAGE_CHUNK'' then reasoning_chunk m
     else if event_type = ''REASONING_END'' then step_bind (step_lift (reasoning_id m)) end_reasoning
     else if event_type = ''THINKING_END'' then end_reasoning (thinking_run_id d)
     else if event_type = ''REASONING_ENCRYPTED_VALUE'' then reasoning_encrypted m
     else step_lift (Err AguiInvalidEvent))"

definition dispatch_event ::
  "(string \<Rightarrow> json option) \<Rightarrow> (json \<Rightarrow> nat) \<Rightarrow> string \<Rightarrow> (string \<times> json) list \<Rightarrow> unit agui_step" where
  "dispatch_event parse json_len event_type m = (\<lambda>(d, out). event_handler parse json_len d event_type m (d, out))"

section \<open>The decoder\<close>

definition decoder_new ::
  "(json \<Rightarrow> nat) \<Rightarrow> string \<Rightarrow> string \<Rightarrow> json \<Rightarrow> (agui_protocol_error, agui_decoder) result" where
  "decoder_new json_len thread run initial_state =
     and_then (bounded_id thread) (\<lambda>thread.
     and_then (bounded_id run) (\<lambda>run.
     and_then (ensure_value_bound json_len initial_state) (\<lambda>_.
     Ok \<lparr>dec_thread_id = thread, dec_run_id = run, dec_started = False, dec_terminal = False, dec_open_text = [],
       dec_tools = [], dec_open_steps = {}, dec_reasoning_runs = {}, dec_reasoning_messages = {},
       dec_state = initial_state, dec_activities = [], dec_messages = [], dec_text_chunk = None,
       dec_tool_chunk = None, dec_reasoning_chunk = None\<rparr>)))"

text \<open>What \<open>ingest\<close> does before it looks at what is open.\<close>

definition read_event ::
  "(string \<Rightarrow> json option) \<Rightarrow> (json \<Rightarrow> nat) \<Rightarrow> string \<Rightarrow> (agui_protocol_error, string \<times> (string \<times> json) list) result" where
  "read_event parse json_len text_in =
     and_then (ok_or AguiInvalidEvent (parse text_in)) (\<lambda>v.
     and_then (ensure_value_bound json_len v) (\<lambda>_.
     and_then (ok_or AguiInvalidEvent (as_object v)) (\<lambda>m.
     if (case map_of m ''timestamp'' of Some (JNumber _) \<Rightarrow> False | Some _ \<Rightarrow> True | None \<Rightarrow> False)
     then Err AguiInvalidEvent
     else map_sum id (\<lambda>event_type. (event_type, m)) (required_string m ''type''))))"

definition ingest_step ::
  "(string \<Rightarrow> json option) \<Rightarrow> (json \<Rightarrow> nat) \<Rightarrow> string \<Rightarrow> (string \<times> json) list \<Rightarrow> unit agui_step" where
  "ingest_step parse json_len event_type m =
     step_bind (step_unless (event_type = ''RUN_ERROR'') (close_convenience_before parse event_type)) (\<lambda>_. \<lambda>(d, out).
     if \<not> dec_started d \<and> event_type \<noteq> ''RUN_STARTED'' then (Err AguiInvalidSequence, d, out)
     else dispatch_event parse json_len event_type m (d, out))"

definition ingest ::
  "(string \<Rightarrow> json option) \<Rightarrow> (json \<Rightarrow> nat) \<Rightarrow> string \<Rightarrow> agui_decoder
     \<Rightarrow> (agui_protocol_error, agui_event list) result \<times> agui_decoder" where
  "ingest parse json_len text_in d =
     (if text_in = [] \<or> length text_in > max_agui_event_bytes \<or> has_nul text_in then (Err AguiTooLarge, d)
      else if dec_terminal d then (Err AguiInvalidSequence, d)
      else case read_event parse json_len text_in of
          Inl e \<Rightarrow> (Err e, d)
        | Inr (event_type, m) \<Rightarrow>
            (let (r, d, out) = ingest_step parse json_len event_type m (d, []) in (map_sum id (\<lambda>_. out) r, d)))"

definition decoder_finish ::
  "(string \<Rightarrow> json option) \<Rightarrow> agui_decoder \<Rightarrow> (agui_protocol_error, agui_event list) result \<times> agui_decoder" where
  "decoder_finish parse d =
     (let (r, d, out) = close_all_convenience parse (d, []) in
      (and_then r (\<lambda>_. if \<not> dec_started d \<or> \<not> dec_terminal d then Err AguiIncomplete else Ok out), d))"

definition activity_content :: "string \<Rightarrow> agui_decoder \<Rightarrow> json option" where
  "activity_content message_id d = map_option snd (map_of (dec_activities d) message_id)"

end
