(* ===== verification/AguiProtocol.thy ===== *)
theory AguiProtocol
  imports AguiDecoder
begin

text \<open>
  What the events of \<open>AguiDecoder\<close> promise to whoever consumes them: a protocol over events alone, and that
  every stream the decoder accepts follows it, with the decoder's own state recovered by replaying the
  events.
\<close>

section \<open>The protocol\<close>

record agui_protocol =
  p_started :: bool
  p_finished :: bool
  p_text :: "string set"
  p_tools :: "(string \<times> tool_accumulator) list"
  p_steps :: "string set"
  p_reasoning :: "string set"
  p_thoughts :: "string set"
  p_state :: json
  p_activities :: "(string \<times> string \<times> json) list"
  p_transcript :: "json list"

definition in_run :: "agui_protocol \<Rightarrow> bool" where
  "in_run p \<longleftrightarrow> p_started p \<and> \<not> p_finished p"

definition nothing_open :: "agui_protocol \<Rightarrow> bool" where
  "nothing_open p \<longleftrightarrow> p_text p = {} \<and> list_all (\<lambda>(_, t). acc_ended t) (p_tools p) \<and> p_steps p = {}
     \<and> p_reasoning p = {} \<and> p_thoughts p = {}"

definition only_if :: "bool \<Rightarrow> 'a \<Rightarrow> 'a option" where
  "only_if b a = (if b then Some a else None)"

lemma only_if_some: "only_if b a = Some c \<longleftrightarrow> b \<and> c = a"
  by (auto simp: only_if_def)

text \<open>
  A text or a thought is streamed between its start and its end; the arguments of a tool call are the
  concatenation of what was streamed for it, parsed, and an object; a result follows its call; the run
  ends once, when nothing is left open, or with an error that closes everything; documents change by the
  patches that are passed on.
\<close>

fun protocol_event ::
  "(string \<Rightarrow> json option) \<Rightarrow> (json \<Rightarrow> nat) \<Rightarrow> agui_protocol \<Rightarrow> agui_event \<Rightarrow> agui_protocol option" where
  "protocol_event parse json_len p AguiRunFinished = only_if (nothing_open p) (p\<lparr>p_finished := True\<rparr>)"
| "protocol_event parse json_len p (AguiRunInterrupted interrupts) =
     only_if (nothing_open p \<and> interrupts \<noteq> [] \<and> length interrupts \<le> 256) (p\<lparr>p_finished := True\<rparr>)"
| "protocol_event parse json_len p (AguiRunError _ _) =
     Some (p\<lparr>p_finished := True, p_text := {}, p_tools := [], p_steps := {}, p_reasoning := {}, p_thoughts := {}\<rparr>)"
| "protocol_event parse json_len p (AguiStepStarted name) =
     only_if (name \<notin> p_steps p) (p\<lparr>p_steps := insert name (p_steps p)\<rparr>)"
| "protocol_event parse json_len p (AguiStepFinished name) =
     only_if (name \<in> p_steps p) (p\<lparr>p_steps := p_steps p - {name}\<rparr>)"
| "protocol_event parse json_len p (AguiTextStarted i _ _) = Some (p\<lparr>p_text := insert i (p_text p)\<rparr>)"
| "protocol_event parse json_len p (AguiTextDelta i _) = only_if (i \<in> p_text p) p"
| "protocol_event parse json_len p (AguiTextEnded i) = only_if (i \<in> p_text p) (p\<lparr>p_text := p_text p - {i}\<rparr>)"
| "protocol_event parse json_len p (AguiToolStarted i name _) =
     Some (p\<lparr>p_tools := bt_put i \<lparr>acc_name = name, acc_arguments = [], acc_ended = False\<rparr> (p_tools p)\<rparr>)"
| "protocol_event parse json_len p (AguiToolArguments i delta) =
     (case map_of (p_tools p) i of
        Some t \<Rightarrow> only_if (\<not> acc_ended t \<and> (delta = [] \<or> length (acc_arguments t @ delta) \<le> max_agui_event_bytes))
          (p\<lparr>p_tools := bt_put i (t\<lparr>acc_arguments := acc_arguments t @ delta\<rparr>) (p_tools p)\<rparr>)
      | None \<Rightarrow> None)"
| "protocol_event parse json_len p (AguiToolCompleted i name arguments) =
     (case map_of (p_tools p) i of
        Some t \<Rightarrow> only_if (\<not> acc_ended t \<and> name = acc_name t \<and> parse (acc_arguments t) = Some arguments
            \<and> is_object arguments)
          (p\<lparr>p_tools := bt_put i (t\<lparr>acc_ended := True\<rparr>) (p_tools p)\<rparr>)
      | None \<Rightarrow> None)"
| "protocol_event parse json_len p (AguiToolResult _ i _) =
     (case map_of (p_tools p) i of Some t \<Rightarrow> only_if (acc_ended t) p | None \<Rightarrow> None)"
| "protocol_event parse json_len p (AguiStateSnapshot doc) = Some (p\<lparr>p_state := doc\<rparr>)"
| "protocol_event parse json_len p (AguiStateDelta patch) =
     (case apply_patch json_len (p_state p) patch of Inr doc \<Rightarrow> Some (p\<lparr>p_state := doc\<rparr>) | Inl _ \<Rightarrow> None)"
| "protocol_event parse json_len p (AguiMessagesSnapshot messages) = Some (p\<lparr>p_transcript := messages\<rparr>)"
| "protocol_event parse json_len p (AguiActivitySnapshot i kind content replace) =
     only_if (is_object content)
       (if replace \<or> map_of (p_activities p) i = None
        then p\<lparr>p_activities := bt_put i (kind, content) (p_activities p)\<rparr> else p)"
| "protocol_event parse json_len p (AguiActivityDelta i kind patch) =
     (case map_of (p_activities p) i of
        Some (known, content) \<Rightarrow>
          if known = kind
          then (case apply_patch json_len content patch of
              Inr content \<Rightarrow> Some (p\<lparr>p_activities := bt_put i (kind, content) (p_activities p)\<rparr>)
            | Inl _ \<Rightarrow> None)
          else None
      | None \<Rightarrow> None)"
| "protocol_event parse json_len p (AguiReasoningStarted i) =
     only_if (i \<notin> p_reasoning p) (p\<lparr>p_reasoning := insert i (p_reasoning p)\<rparr>)"
| "protocol_event parse json_len p (AguiReasoningEnded i) =
     only_if (i \<in> p_reasoning p) (p\<lparr>p_reasoning := p_reasoning p - {i}\<rparr>)"
| "protocol_event parse json_len p (AguiReasoningMessageStarted i) = Some (p\<lparr>p_thoughts := insert i (p_thoughts p)\<rparr>)"
| "protocol_event parse json_len p (AguiReasoningDelta i _) = only_if (i \<in> p_thoughts p) p"
| "protocol_event parse json_len p (AguiReasoningMessageEnded i) =
     only_if (i \<in> p_thoughts p) (p\<lparr>p_thoughts := p_thoughts p - {i}\<rparr>)"
| "protocol_event parse json_len p (AguiReasoningEncrypted subtype _ _) =
     only_if (subtype \<in> {''tool-call'', ''message''}) p"
| "protocol_event parse json_len p (AguiRaw _ _) = Some p"
| "protocol_event parse json_len p (AguiCustom _ _) = Some p"
| "protocol_event parse json_len p AguiRunStarted = None"

definition protocol_step ::
  "(string \<Rightarrow> json option) \<Rightarrow> (json \<Rightarrow> nat) \<Rightarrow> agui_protocol \<Rightarrow> agui_event \<Rightarrow> agui_protocol option" where
  "protocol_step parse json_len p event =
     (if event = AguiRunStarted then only_if (\<not> p_started p) (p\<lparr>p_started := True\<rparr>)
      else if in_run p then protocol_event parse json_len p event else None)"

primrec protocol_run ::
  "(string \<Rightarrow> json option) \<Rightarrow> (json \<Rightarrow> nat) \<Rightarrow> agui_protocol \<Rightarrow> agui_event list \<Rightarrow> agui_protocol option" where
  "protocol_run parse json_len p [] = Some p"
| "protocol_run parse json_len p (event # events) =
     Option.bind (protocol_step parse json_len p event) (\<lambda>p. protocol_run parse json_len p events)"

lemma protocol_run_append:
  "protocol_run parse json_len p (xs @ ys)
     = Option.bind (protocol_run parse json_len p xs) (\<lambda>p. protocol_run parse json_len p ys)"
  by (induction xs arbitrary: p) (simp_all add: Option.bind_assoc)

text \<open>The view of a decoder, and the whole decoder as a function from texts to events.\<close>

definition protocol_of :: "agui_decoder \<Rightarrow> agui_protocol" where
  "protocol_of d = \<lparr>p_started = dec_started d, p_finished = dec_terminal d, p_text = set (map fst (dec_open_text d)),
     p_tools = dec_tools d, p_steps = dec_open_steps d, p_reasoning = dec_reasoning_runs d,
     p_thoughts = dec_reasoning_messages d, p_state = dec_state d, p_activities = dec_activities d,
     p_transcript = dec_messages d\<rparr>"

definition protocol_start :: "json \<Rightarrow> agui_protocol" where
  "protocol_start doc = \<lparr>p_started = False, p_finished = False, p_text = {}, p_tools = [], p_steps = {},
     p_reasoning = {}, p_thoughts = {}, p_state = doc, p_activities = [], p_transcript = []\<rparr>"

primrec ingest_all ::
  "(string \<Rightarrow> json option) \<Rightarrow> (json \<Rightarrow> nat) \<Rightarrow> agui_decoder \<Rightarrow> string list
     \<Rightarrow> (agui_protocol_error, agui_event list \<times> agui_decoder) result" where
  "ingest_all parse json_len d [] = Ok ([], d)"
| "ingest_all parse json_len d (input # inputs) =
     (case ingest parse json_len input d of
        (Inl e, _) \<Rightarrow> Err e
      | (Inr events, d) \<Rightarrow>
          and_then (ingest_all parse json_len d inputs) (\<lambda>(more, d). Ok (events @ more, d)))"

section \<open>Steps\<close>

lemma step_bind_ok: "step_bind m f s = (Ok b, u) \<longleftrightarrow> (\<exists>a t. m s = (Ok a, t) \<and> f a t = (Ok b, u))"
  by (auto simp: step_bind_def split: prod.splits sum.splits)

lemma step_lift_ok: "step_lift r s = (Ok a, t) \<longleftrightarrow> r = Ok a \<and> t = s"
  by (auto simp: step_lift_def)

lemma step_push_ok: "step_push change event (d, out) = (Ok a, d', out') \<longleftrightarrow> d' = change d \<and> out' = out @ [event]"
  by (auto simp: step_push_def)

lemmas step_ok = step_bind_ok step_lift_ok step_push_ok ok_or_ok

lemma set_bt_remove: "fst ` set (bt_remove k m) = fst ` set m - {k}"
  by (auto simp: bt_remove_def)

lemma set_bt_put: "fst ` set (bt_put k v m) = insert k (fst ` set m)"
  using bt_insert_keys [of k v m] by (simp add: bt_put_def)

lemma map_of_bt_put: "map_of (bt_put k v m) k' = (if k' = k then Some v else map_of m k')"
  by (simp add: bt_put_def map_of_bt_insert)

lemma opt_filter_some: "opt_filter p opt = Some a \<longleftrightarrow> opt = Some a \<and> p a"
  by (auto simp: opt_filter_def split: option.splits)

definition live :: "agui_decoder \<Rightarrow> bool" where
  "live d \<longleftrightarrow> dec_started d \<and> \<not> dec_terminal d"

definition emits ::
  "(string \<Rightarrow> json option) \<Rightarrow> (json \<Rightarrow> nat) \<Rightarrow> agui_decoder \<times> agui_event list \<Rightarrow> agui_decoder \<times> agui_event list \<Rightarrow> bool" where
  "emits parse json_len = (\<lambda>(d, out) (d', out').
     \<exists>new. out' = out @ new \<and> protocol_run parse json_len (protocol_of d) new = Some (protocol_of d'))"

lemma emits_refl: "emits parse json_len s s"
  by (auto simp: emits_def)

lemma emits_trans: "emits parse json_len s t \<Longrightarrow> emits parse json_len t u \<Longrightarrow> emits parse json_len s u"
  by (force simp: emits_def protocol_run_append split: prod.splits)

lemma emits_event:
  "live d \<Longrightarrow> event \<noteq> AguiRunStarted \<Longrightarrow> protocol_event parse json_len (protocol_of d) event = Some (protocol_of d')
     \<Longrightarrow> emits parse json_len (d, out) (d', out @ [event])"
  by (simp add: emits_def protocol_step_def in_run_def protocol_of_def live_def)

definition chunks :: "agui_decoder \<Rightarrow> string option \<times> string option \<times> string option" where
  "chunks d = (dec_text_chunk d, dec_tool_chunk d, dec_reasoning_chunk d)"

text \<open>A handler that follows the protocol and leaves the chunks as they are.\<close>

definition plain :: "(string \<Rightarrow> json option) \<Rightarrow> (json \<Rightarrow> nat) \<Rightarrow> unit agui_step \<Rightarrow> bool" where
  "plain parse json_len h \<longleftrightarrow>
     (\<forall>d out d' out'. live d \<longrightarrow> h (d, out) = (Ok (), d', out') \<longrightarrow>
        emits parse json_len (d, out) (d', out') \<and> live d' \<and> chunks d' = chunks d)"

lemma plainI:
  assumes "\<And>d out d' out'. live d \<Longrightarrow> h (d, out) = (Ok (), d', out') \<Longrightarrow>
    \<exists>event. out' = out @ [event] \<and> event \<noteq> AguiRunStarted
      \<and> protocol_event parse json_len (protocol_of d) event = Some (protocol_of d') \<and> live d' \<and> chunks d' = chunks d"
  shows "plain parse json_len h"
  unfolding plain_def using assms by (blast intro: emits_event)

lemmas plain_simps = step_ok live_def chunks_def protocol_of_def only_if_some Let_def
  map_of_eq_None_iff set_bt_put set_bt_remove opt_filter_some

lemma plain_text:
  "plain parse json_len (text_start m)" "plain parse json_len (text_content m)" "plain parse json_len (text_end m)"
  by (rule plainI; auto simp: text_start_def text_content_def text_end_def plain_simps image_iff Bex_def
      split: if_splits)+

lemma plain_steps: "plain parse json_len (step_started m)" "plain parse json_len (step_finished m)"
  by (rule plainI; auto simp: step_started_def step_finished_def plain_simps split: if_splits)+

lemma plain_tools: "plain parse json_len (tool_start m)" "plain parse json_len (tool_result m)"
  by (rule plainI; auto simp: tool_start_def tool_result_def plain_simps split: if_splits option.splits)+

lemma arguments_fit:
  "\<not> max_agui_event_bytes - length a < length delta \<Longrightarrow> \<not> length a + length delta \<le> max_agui_event_bytes
     \<Longrightarrow> delta = []"
  by (cases delta) auto

lemma plain_tool_args: "plain parse json_len (tool_args m)"
  by (rule plainI; auto simp: tool_args_def push_arguments_def plain_simps intro: arguments_fit
      split: if_splits option.splits)

lemma plain_finish_tool: "plain parse json_len (finish_tool parse i)"
  by (rule plainI; auto simp: finish_tool_def plain_simps split: if_splits option.splits)

lemma plain_tool_end: "plain parse json_len (tool_end parse m)"
  using plain_finish_tool by (auto simp: plain_def tool_end_def step_ok)

lemma plain_reasoning:
  "plain parse json_len (start_reasoning i)" "plain parse json_len (end_reasoning i)"
  "plain parse json_len (start_reasoning_message i)" "plain parse json_len (end_reasoning_message i)"
  "plain parse json_len (reasoning_content m i)" "plain parse json_len (reasoning_encrypted m)"
  by (rule plainI; auto simp: start_reasoning_def end_reasoning_def start_reasoning_message_def
      end_reasoning_message_def reasoning_content_def reasoning_encrypted_def plain_simps split: if_splits)+

lemma plain_documents:
  "plain parse json_len (state_snapshot json_len m)" "plain parse json_len (messages_snapshot parse json_len m)"
  "plain parse json_len (state_delta json_len m)" "plain parse json_len (raw_event m)"
  "plain parse json_len (custom_event m)"
  by (rule plainI; auto simp: state_snapshot_def messages_snapshot_def state_delta_def raw_event_def
      custom_event_def plain_simps split: if_splits)+

lemma plain_activity_snapshot: "plain parse json_len (activity_snapshot m)"
  by (rule plainI) (clarsimp simp: activity_snapshot_def step_ok Let_def opt_filter_some,
      auto simp: live_def chunks_def protocol_of_def only_if_some)

lemma plain_activity_delta: "plain parse json_len (activity_delta json_len m)"
proof (rule plainI)
  fix d out d' out'
  assume d: "live d" and h: "activity_delta json_len m (d, out) = (Ok (), d', out')"
  from h obtain i kind patch where
    "(case map_of (dec_activities d) i of
       None \<Rightarrow> (Err AguiInvalidSequence, d, out)
     | Some (known_type, content) \<Rightarrow>
         if known_type \<noteq> kind then (Err AguiInvalidSequence, d, out)
         else step_bind (step_lift (apply_patch json_len content patch)) (\<lambda>content.
           step_push (dec_activities_update (bt_put i (kind, content))) (AguiActivityDelta i kind patch)) (d, out))
       = (Ok (), d', out')"
    unfolding activity_delta_def step_bind_ok step_lift_ok by auto
  then obtain content new where "map_of (dec_activities d) i = Some (kind, content)"
    "apply_patch json_len content patch = Ok new" "d' = dec_activities_update (bt_put i (kind, new)) d"
    "out' = out @ [AguiActivityDelta i kind patch]"
    by (cases "map_of (dec_activities d) i") (auto simp: step_ok split: prod.splits if_splits)
  with d show "\<exists>event. out' = out @ [event] \<and> event \<noteq> AguiRunStarted
      \<and> protocol_event parse json_len (protocol_of d) event = Some (protocol_of d') \<and> live d' \<and> chunks d' = chunks d"
    by (simp add: live_def chunks_def protocol_of_def)
qed

lemma plain_bind_lift: "(\<And>a. plain parse json_len (f a)) \<Longrightarrow> plain parse json_len (step_bind (step_lift r) f)"
  by (auto simp: plain_def step_ok)

lemma plain_error: "plain parse json_len (step_lift (Err e))"
  by (simp add: plain_def step_ok)

section \<open>Chunks\<close>

text \<open>At most one stream of chunks is open, and what it streams to is open.\<close>

definition chunks_ok :: "agui_decoder \<Rightarrow> bool" where
  "chunks_ok d \<longleftrightarrow>
     (case chunks d of
        (None, None, None) \<Rightarrow> True
      | (Some i, None, None) \<Rightarrow> i \<in> fst ` set (dec_open_text d)
      | (None, Some i, None) \<Rightarrow> (\<exists>t. map_of (dec_tools d) i = Some t \<and> \<not> acc_ended t)
      | (None, None, Some i) \<Rightarrow> i \<in> dec_reasoning_messages d
      | _ \<Rightarrow> False)"

definition no_chunks :: "agui_decoder \<Rightarrow> bool" where
  "no_chunks d \<longleftrightarrow> chunks d = (None, None, None)"

definition settled :: "agui_decoder \<Rightarrow> bool" where
  "settled d \<longleftrightarrow> (if dec_terminal d then no_chunks d else chunks_ok d)"

lemma live_settled: "live d \<Longrightarrow> settled d \<longleftrightarrow> chunks_ok d"
  by (simp add: live_def settled_def)

lemma close_text_chunk_ok:
  assumes "close_text_chunk (d, out) = (Ok (), d', out')" "live d"
  shows "emits parse json_len (d, out) (d', out') \<and> live d' \<and> dec_text_chunk d' = None
    \<and> dec_tool_chunk d' = dec_tool_chunk d \<and> dec_reasoning_chunk d' = dec_reasoning_chunk d
    \<and> (dec_text_chunk d = None \<longrightarrow> d' = d) \<and> dec_tools d' = dec_tools d
    \<and> dec_reasoning_messages d' = dec_reasoning_messages d"
proof (cases "dec_text_chunk d")
  case None
  with assms show ?thesis by (simp add: close_text_chunk_def emits_refl)
next
  case (Some i)
  with assms(1) have d': "d' = d\<lparr>dec_text_chunk := None, dec_open_text := bt_remove i (dec_open_text d)\<rparr>"
    "out' = out @ [AguiTextEnded i]" "i \<in> fst ` set (dec_open_text d)"
    by (auto simp: close_text_chunk_def Let_def map_of_eq_None_iff split: if_splits)
  have "emits parse json_len (d, out) (d', out')"
    unfolding d' using assms(2) d'(3) by (intro emits_event) (simp_all add: protocol_of_def only_if_some set_bt_remove)
  with d' Some assms(2) show ?thesis by (simp add: live_def)
qed

lemma close_reasoning_chunk_ok:
  assumes "close_reasoning_chunk (d, out) = (Ok (), d', out')" "live d"
  shows "emits parse json_len (d, out) (d', out') \<and> live d' \<and> dec_reasoning_chunk d' = None
    \<and> dec_tool_chunk d' = dec_tool_chunk d \<and> dec_text_chunk d' = dec_text_chunk d
    \<and> (dec_reasoning_chunk d = None \<longrightarrow> d' = d) \<and> dec_tools d' = dec_tools d \<and> dec_open_text d' = dec_open_text d"
proof (cases "dec_reasoning_chunk d")
  case None
  with assms show ?thesis by (simp add: close_reasoning_chunk_def emits_refl)
next
  case (Some i)
  with assms(1) have d': "d' = d\<lparr>dec_reasoning_chunk := None, dec_reasoning_messages := dec_reasoning_messages d - {i}\<rparr>"
    "out' = out @ [AguiReasoningMessageEnded i]" "i \<in> dec_reasoning_messages d"
    by (auto simp: close_reasoning_chunk_def Let_def split: if_splits)
  have "emits parse json_len (d, out) (d', out')"
    unfolding d' using assms(2) d'(3) by (intro emits_event) (simp_all add: protocol_of_def only_if_some)
  with d' Some assms(2) show ?thesis by (simp add: live_def)
qed

lemma close_tool_chunk_ok:
  assumes "close_tool_chunk parse (d, out) = (Ok (), d', out')" "live d"
  shows "emits parse json_len (d, out) (d', out') \<and> live d' \<and> dec_tool_chunk d' = None
    \<and> dec_text_chunk d' = dec_text_chunk d \<and> dec_reasoning_chunk d' = dec_reasoning_chunk d
    \<and> (dec_tool_chunk d = None \<longrightarrow> d' = d) \<and> dec_open_text d' = dec_open_text d
    \<and> dec_reasoning_messages d' = dec_reasoning_messages d"
proof (cases "dec_tool_chunk d")
  case None
  with assms show ?thesis by (simp add: close_tool_chunk_def emits_refl)
next
  case (Some i)
  let ?d = "d\<lparr>dec_tool_chunk := None\<rparr>"
  have f: "finish_tool parse i (?d, out) = (Ok (), d', out')" using Some assms(1) by (simp add: close_tool_chunk_def)
  moreover have "live ?d" using assms(2) by (simp add: live_def)
  ultimately have "emits parse json_len (?d, out) (d', out') \<and> live d' \<and> chunks d' = chunks ?d"
    using plain_finish_tool [of parse json_len i] by (simp add: plain_def)
  moreover have "dec_open_text d' = dec_open_text d \<and> dec_reasoning_messages d' = dec_reasoning_messages d"
    using f by (auto simp: finish_tool_def split: option.splits)
  ultimately show ?thesis using Some by (simp add: emits_def protocol_of_def chunks_def)
qed

lemma close_convenience_before_ok:
  assumes "close_convenience_before parse event_type (d, out) = (Ok (), d', out')" "live d" "chunks_ok d"
  shows "emits parse json_len (d, out) (d', out') \<and> live d' \<and> chunks_ok d'
    \<and> (event_type \<noteq> ''TEXT_MESSAGE_CHUNK'' \<longrightarrow> dec_text_chunk d' = None)
    \<and> (event_type \<noteq> ''TOOL_CALL_CHUNK'' \<longrightarrow> dec_tool_chunk d' = None)
    \<and> (event_type \<noteq> ''REASONING_MESSAGE_CHUNK'' \<longrightarrow> dec_reasoning_chunk d' = None)"
proof -
  from assms(1) obtain d1 out1 d2 out2 where
    1: "step_unless (event_type = ''TEXT_MESSAGE_CHUNK'') close_text_chunk (d, out) = (Ok (), d1, out1)" and
    2: "step_unless (event_type = ''TOOL_CALL_CHUNK'') (close_tool_chunk parse) (d1, out1) = (Ok (), d2, out2)" and
    3: "step_unless (event_type = ''REASONING_MESSAGE_CHUNK'') close_reasoning_chunk (d2, out2) = (Ok (), d', out')"
    by (auto simp: close_convenience_before_def step_ok)
  have c1: "emits parse json_len (d, out) (d1, out1) \<and> live d1 \<and> chunks_ok d1
    \<and> (event_type \<noteq> ''TEXT_MESSAGE_CHUNK'' \<longrightarrow> dec_text_chunk d1 = None)"
  proof (cases "event_type = ''TEXT_MESSAGE_CHUNK''")
    case False
    then have "close_text_chunk (d, out) = (Ok (), d1, out1)" using 1 by (simp add: step_unless_def)
    with close_text_chunk_ok [OF this assms(2), of parse json_len] assms(3) False show ?thesis
      by (cases "dec_text_chunk d"; cases "dec_tool_chunk d"; cases "dec_reasoning_chunk d")
        (auto simp: chunks_ok_def chunks_def)
  qed (use 1 assms in \<open>auto simp: step_unless_def step_ok emits_refl\<close>)
  have c2: "emits parse json_len (d1, out1) (d2, out2) \<and> live d2 \<and> chunks_ok d2 \<and> dec_text_chunk d2 = dec_text_chunk d1
    \<and> (event_type \<noteq> ''TOOL_CALL_CHUNK'' \<longrightarrow> dec_tool_chunk d2 = None)"
  proof (cases "event_type = ''TOOL_CALL_CHUNK''")
    case False
    then have "close_tool_chunk parse (d1, out1) = (Ok (), d2, out2)" using 2 by (simp add: step_unless_def)
    with close_tool_chunk_ok [OF this, of json_len] c1 False show ?thesis
      by (cases "dec_text_chunk d1"; cases "dec_tool_chunk d1"; cases "dec_reasoning_chunk d1")
        (auto simp: chunks_ok_def chunks_def)
  qed (use 2 c1 in \<open>auto simp: step_unless_def step_ok emits_refl\<close>)
  have c3: "emits parse json_len (d2, out2) (d', out') \<and> live d' \<and> chunks_ok d' \<and> dec_text_chunk d' = dec_text_chunk d2
    \<and> dec_tool_chunk d' = dec_tool_chunk d2
    \<and> (event_type \<noteq> ''REASONING_MESSAGE_CHUNK'' \<longrightarrow> dec_reasoning_chunk d' = None)"
  proof (cases "event_type = ''REASONING_MESSAGE_CHUNK''")
    case False
    then have "close_reasoning_chunk (d2, out2) = (Ok (), d', out')" using 3 by (simp add: step_unless_def)
    with close_reasoning_chunk_ok [OF this, of parse json_len] c2 False show ?thesis
      by (cases "dec_text_chunk d2"; cases "dec_tool_chunk d2"; cases "dec_reasoning_chunk d2")
        (auto simp: chunks_ok_def chunks_def)
  qed (use 3 c2 in \<open>auto simp: step_unless_def step_ok emits_refl\<close>)
  from c1 c2 c3 show ?thesis by (auto intro: emits_trans)
qed

lemma text_chunk_ok:
  assumes "text_chunk m (d, out) = (Ok (), d', out')" "live d" "chunks_ok d"
    "dec_tool_chunk d = None" "dec_reasoning_chunk d = None"
  shows "emits parse json_len (d, out) (d', out') \<and> live d' \<and> chunks_ok d'"
proof -
  from assms(1) obtain incoming d1 out1 the_id delta where
    1: "open_unless_current dec_text_chunk incoming (open_text_chunk m) (d, out) = (Ok (), d1, out1)" and
    i: "dec_text_chunk d1 = Some the_id" and
    2: "(case delta of None \<Rightarrow> step_lift (Ok ()) | Some delta \<Rightarrow>
        if delta = [] then close_text_chunk else step_push id (AguiTextDelta the_id delta)) (d1, out1) = (Ok (), d', out')"
    by (auto simp: text_chunk_def step_ok)
  have c1: "emits parse json_len (d, out) (d1, out1) \<and> live d1 \<and> the_id \<in> fst ` set (dec_open_text d1)
    \<and> dec_tool_chunk d1 = None \<and> dec_reasoning_chunk d1 = None"
  proof (cases "d1 = d \<and> out1 = out")
    case True
    with assms(2-5) i show ?thesis by (auto simp: emits_refl chunks_ok_def chunks_def)
  next
    case False
    with 1 obtain inc where "open_text_chunk m inc (d, out) = (Ok (), d1, out1)"
      by (auto simp: open_unless_current_def split: option.splits if_splits)
    then obtain e o' role name where e: "close_text_chunk (d, out) = (Ok (), e, o')"
      "d1 = e\<lparr>dec_text_chunk := Some inc, dec_open_text := bt_put inc role (dec_open_text e)\<rparr>"
      "out1 = o' @ [AguiTextStarted inc role name]"
      by (auto simp: open_text_chunk_def step_ok Let_def)
    note c = close_text_chunk_ok [OF e(1) assms(2), of parse json_len]
    have "emits parse json_len (e, o') (d1, out1)"
      unfolding e(2,3) using c by (intro emits_event) (simp_all add: protocol_of_def set_bt_put)
    with c e(2) i assms(4,5) show ?thesis by (auto simp: live_def set_bt_put intro: emits_trans)
  qed
  show ?thesis
  proof (cases "delta = Some []")
    case True
    with 2 have "close_text_chunk (d1, out1) = (Ok (), d', out')" by simp
    with close_text_chunk_ok [OF this, of parse json_len] c1 show ?thesis
      by (auto simp: chunks_ok_def chunks_def intro: emits_trans)
  next
    case False
    with 2 have d': "d' = d1" "out' = out1 \<or> (\<exists>delta. out' = out1 @ [AguiTextDelta the_id delta])"
      by (auto simp: step_ok split: option.splits)
    then have "emits parse json_len (d1, out1) (d', out')"
      using c1 by (elim disjE exE) (simp_all add: emits_refl emits_event protocol_of_def only_if_some)
    with c1 d'(1) i show ?thesis by (auto simp: chunks_ok_def chunks_def intro: emits_trans)
  qed
qed

lemma reasoning_chunk_ok:
  assumes "reasoning_chunk m (d, out) = (Ok (), d', out')" "live d" "chunks_ok d"
    "dec_text_chunk d = None" "dec_tool_chunk d = None"
  shows "emits parse json_len (d, out) (d', out') \<and> live d' \<and> chunks_ok d'"
proof -
  from assms(1) obtain incoming d1 out1 the_id delta where
    1: "open_unless_current dec_reasoning_chunk incoming open_reasoning_chunk (d, out) = (Ok (), d1, out1)" and
    i: "dec_reasoning_chunk d1 = Some the_id" and
    2: "(case delta of None \<Rightarrow> step_lift (Ok ()) | Some delta \<Rightarrow>
        if delta = [] then close_reasoning_chunk else step_push id (AguiReasoningDelta the_id delta)) (d1, out1) = (Ok (), d', out')"
    by (auto simp: reasoning_chunk_def step_ok)
  have c1: "emits parse json_len (d, out) (d1, out1) \<and> live d1 \<and> the_id \<in> dec_reasoning_messages d1
    \<and> dec_text_chunk d1 = None \<and> dec_tool_chunk d1 = None"
  proof (cases "d1 = d \<and> out1 = out")
    case True
    with assms(2-5) i show ?thesis by (auto simp: emits_refl chunks_ok_def chunks_def)
  next
    case False
    with 1 obtain inc where "open_reasoning_chunk inc (d, out) = (Ok (), d1, out1)"
      by (auto simp: open_unless_current_def split: option.splits if_splits)
    then obtain e o' where e: "close_reasoning_chunk (d, out) = (Ok (), e, o')"
      "d1 = e\<lparr>dec_reasoning_chunk := Some inc, dec_reasoning_messages := insert inc (dec_reasoning_messages e)\<rparr>"
      "out1 = o' @ [AguiReasoningMessageStarted inc]"
      by (auto simp: open_reasoning_chunk_def step_ok)
    note c = close_reasoning_chunk_ok [OF e(1) assms(2), of parse json_len]
    have "emits parse json_len (e, o') (d1, out1)"
      unfolding e(2,3) using c by (intro emits_event) (simp_all add: protocol_of_def)
    with c e(2) i assms(4,5) show ?thesis by (auto simp: live_def intro: emits_trans)
  qed
  show ?thesis
  proof (cases "delta = Some []")
    case True
    with 2 have "close_reasoning_chunk (d1, out1) = (Ok (), d', out')" by simp
    with close_reasoning_chunk_ok [OF this, of parse json_len] c1 show ?thesis
      by (auto simp: chunks_ok_def chunks_def intro: emits_trans)
  next
    case False
    with 2 have d': "d' = d1" "out' = out1 \<or> (\<exists>delta. out' = out1 @ [AguiReasoningDelta the_id delta])"
      by (auto simp: step_ok split: option.splits)
    then have "emits parse json_len (d1, out1) (d', out')"
      using c1 by (elim disjE exE) (simp_all add: emits_refl emits_event protocol_of_def only_if_some)
    with c1 d'(1) i show ?thesis by (auto simp: chunks_ok_def chunks_def intro: emits_trans)
  qed
qed

lemma push_arguments_ok:
  assumes "push_arguments i t delta (d, out) = (Ok (), d', out')" "live d"
    "map_of (dec_tools d) i = Some t" "\<not> acc_ended t"
  shows "emits parse json_len (d, out) (d', out') \<and> live d' \<and> chunks d' = chunks d
    \<and> (\<exists>u. map_of (dec_tools d') i = Some u \<and> \<not> acc_ended u)"
proof -
  have d': "d' = dec_tools_update (bt_put i (t\<lparr>acc_arguments := acc_arguments t @ delta\<rparr>)) d"
    "out' = out @ [AguiToolArguments i delta]" "\<not> max_agui_event_bytes - length (acc_arguments t) < length delta"
    using assms(1) by (auto simp: push_arguments_def step_ok split: if_splits)
  have "delta = [] \<or> length (acc_arguments t) + length delta \<le> max_agui_event_bytes"
    using arguments_fit [OF d'(3)] by blast
  then have "emits parse json_len (d, out) (d', out')"
    unfolding d'(1,2) using assms(2-4) by (intro emits_event) (auto simp: protocol_of_def only_if_some)
  with d'(1) assms(2,4) show ?thesis by (simp add: live_def chunks_def map_of_bt_put)
qed

lemma tool_chunk_ok:
  assumes "tool_chunk parse m (d, out) = (Ok (), d', out')" "live d" "chunks_ok d"
    "dec_text_chunk d = None" "dec_reasoning_chunk d = None"
  shows "emits parse json_len (d, out) (d', out') \<and> live d' \<and> chunks_ok d'"
proof -
  from assms(1) obtain incoming d1 out1 the_id delta where
    1: "open_unless_current dec_tool_chunk incoming (open_tool_chunk parse m) (d, out) = (Ok (), d1, out1)" and
    i: "dec_tool_chunk d1 = Some the_id" and
    2: "(case delta of None \<Rightarrow> step_lift (Ok ()) | Some delta \<Rightarrow>
        if delta = [] then close_tool_chunk parse
        else step_bind (step_lift (ok_or AguiInvalidSequence (map_of (dec_tools d1) the_id)))
          (\<lambda>t. push_arguments the_id t delta)) (d1, out1) = (Ok (), d', out')"
    by (auto simp: tool_chunk_def step_ok)
  have c1: "emits parse json_len (d, out) (d1, out1) \<and> live d1
    \<and> (\<exists>t. map_of (dec_tools d1) the_id = Some t \<and> \<not> acc_ended t)
    \<and> dec_text_chunk d1 = None \<and> dec_reasoning_chunk d1 = None"
  proof (cases "d1 = d \<and> out1 = out")
    case True
    with assms(2-5) i show ?thesis by (auto simp: emits_refl chunks_ok_def chunks_def)
  next
    case False
    with 1 obtain inc where "open_tool_chunk parse m inc (d, out) = (Ok (), d1, out1)"
      by (auto simp: open_unless_current_def split: option.splits if_splits)
    then obtain e o' name parent where e: "close_tool_chunk parse (d, out) = (Ok (), e, o')"
      "d1 = e\<lparr>dec_tool_chunk := Some inc,
        dec_tools := bt_put inc \<lparr>acc_name = name, acc_arguments = [], acc_ended = False\<rparr> (dec_tools e)\<rparr>"
      "out1 = o' @ [AguiToolStarted inc name parent]"
      by (auto simp: open_tool_chunk_def step_ok Let_def)
    note c = close_tool_chunk_ok [OF e(1) assms(2), of json_len]
    have "emits parse json_len (e, o') (d1, out1)"
      unfolding e(2,3) using c by (intro emits_event) (simp_all add: protocol_of_def)
    with c e(2) i assms(4,5) show ?thesis by (auto simp: live_def map_of_bt_put intro: emits_trans)
  qed
  consider "delta = None" | "delta = Some []" | a where "delta = Some a" "a \<noteq> []" by (cases delta) auto
  then show ?thesis
  proof cases
    case 1
    with 2 c1 i show ?thesis by (auto simp: step_ok chunks_ok_def chunks_def)
  next
    case 2
    with \<open>(case delta of None \<Rightarrow> _ | Some a \<Rightarrow> _) _ = _\<close>
    have "close_tool_chunk parse (d1, out1) = (Ok (), d', out')" by simp
    with close_tool_chunk_ok [OF this, of json_len] c1 show ?thesis
      by (auto simp: chunks_ok_def chunks_def intro: emits_trans)
  next
    case 3
    with 2 obtain t where t: "map_of (dec_tools d1) the_id = Some t"
      "push_arguments the_id t a (d1, out1) = (Ok (), d', out')"
      by (auto simp: step_ok)
    with push_arguments_ok [OF t(2), of parse json_len] c1 i show ?thesis
      by (auto simp: chunks_ok_def chunks_def intro: emits_trans)
  qed
qed

section \<open>The whole stream\<close>

lemma result_map_ok: "map_sum f g r = Ok b \<longleftrightarrow> (\<exists>a. r = Ok a \<and> b = g a)"
  by (cases r) auto

lemma run_finished_ok:
  assumes "run_finished m (d, out) = (Ok (), d', out')" "live d"
  shows "emits parse json_len (d, out) (d', out') \<and> chunks d' = chunks d \<and> dec_terminal d'"
proof -
  obtain event where e: "\<not> open_explicit_streams d" "d' = d\<lparr>dec_terminal := True\<rparr>" "out' = out @ [event]"
    "event = AguiRunFinished
     \<or> (\<exists>v interrupts. validate_interrupts v = Ok interrupts \<and> event = AguiRunInterrupted interrupts)"
    using assms(1) by (auto simp: run_finished_def step_ok result_map_ok split: if_splits option.splits json.splits)
  have "nothing_open (protocol_of d)" using e(1) by (auto simp: open_explicit_streams_def nothing_open_def protocol_of_def list_ex_iff list_all_iff)
  moreover have "interrupts \<noteq> [] \<and> length interrupts \<le> 256" if "validate_interrupts v = Ok interrupts" for v interrupts
    using that by (auto simp: validate_interrupts_def and_then_ok ok_or_ok opt_filter_some collect_results_ok
        dest: list_all2_lengthD)
  ultimately have "protocol_event parse json_len (protocol_of d) event = Some (protocol_of d')"
    using e(2,4) by (auto simp: only_if_some protocol_of_def)
  with e assms(2) show ?thesis by (auto simp: chunks_def intro: emits_event)
qed

lemma run_error_ok:
  assumes "run_error m (d, out) = (Ok (), d', out')" "live d"
  shows "emits parse json_len (d, out) (d', out') \<and> settled d'"
proof -
  obtain message code where e: "d' = abort_open_streams (d\<lparr>dec_terminal := True\<rparr>)" "out' = out @ [AguiRunError message code]"
    using assms(1) by (auto simp: run_error_def step_ok)
  then show ?thesis
    using assms(2) by (auto simp: abort_open_streams_def protocol_of_def settled_def no_chunks_def chunks_def intro: emits_event)
qed

lemma plain_if: "(b \<Longrightarrow> plain parse json_len h) \<Longrightarrow> (\<not> b \<Longrightarrow> plain parse json_len k) \<Longrightarrow> plain parse json_len (if b then h else k)"
  by simp

lemma plain_handler:
  assumes "event_type \<notin> {''RUN_STARTED'', ''RUN_FINISHED'', ''RUN_ERROR'', ''TEXT_MESSAGE_CHUNK'', ''TOOL_CALL_CHUNK'',
      ''REASONING_MESSAGE_CHUNK''}"
  shows "plain parse json_len (event_handler parse json_len d event_type m)"
proof -
  have none: "event_type = s \<Longrightarrow> s \<in> {''RUN_STARTED'', ''RUN_FINISHED'', ''RUN_ERROR'', ''TEXT_MESSAGE_CHUNK'',
      ''TOOL_CALL_CHUNK'', ''REASONING_MESSAGE_CHUNK''} \<Longrightarrow> plain parse json_len h" for s h
    using assms by blast
  show ?thesis
    unfolding event_handler_def
    by (intro plain_if; (rule plain_text plain_steps plain_tools plain_tool_args plain_tool_end
        plain_documents plain_activity_snapshot plain_activity_delta plain_error plain_reasoning
        | rule plain_bind_lift, rule plain_reasoning | erule none, simp only: insert_iff simp_thms))
qed

lemma dispatch_plain:
  assumes "event_type \<notin> {''RUN_STARTED'', ''RUN_FINISHED'', ''RUN_ERROR'', ''TEXT_MESSAGE_CHUNK'', ''TOOL_CALL_CHUNK'',
      ''REASONING_MESSAGE_CHUNK''}"
    and "dispatch_event parse json_len event_type m (d, out) = (Ok (), d', out')" "live d"
  shows "emits parse json_len (d, out) (d', out') \<and> chunks d' = chunks d \<and> live d'"
  using plain_handler [OF assms(1), of parse json_len d m] assms(2,3) by (simp add: plain_def dispatch_event_def)

lemma protocol_stays_started: "protocol_run parse json_len p events = Some q \<Longrightarrow> p_started p \<Longrightarrow> p_started q"
proof (induction events arbitrary: p)
  case (Cons event events)
  then obtain r where r: "protocol_step parse json_len p event = Some r" "protocol_run parse json_len r events = Some q"
    by (auto simp: bind_eq_Some_conv)
  have "protocol_event parse json_len p event = Some r \<Longrightarrow> p_started r = p_started p"
    by (cases event) (auto simp: only_if_def split: if_splits option.splits sum.splits prod.splits)
  then have "p_started r" using r(1) Cons.prems(2) by (simp add: protocol_step_def only_if_some split: if_splits)
  with Cons.IH r(2) show ?case by blast
qed simp

lemma dispatch_runs:
  "dispatch_event parse json_len ''RUN_STARTED'' m (d, out) = run_started m (d, out)"
  "dispatch_event parse json_len ''RUN_FINISHED'' m (d, out) = run_finished m (d, out)"
  "dispatch_event parse json_len ''RUN_ERROR'' m (d, out) = run_error m (d, out)"
  "dispatch_event parse json_len ''TEXT_MESSAGE_CHUNK'' m (d, out) = text_chunk m (d, out)"
  "dispatch_event parse json_len ''TOOL_CALL_CHUNK'' m (d, out) = tool_chunk parse m (d, out)"
  "dispatch_event parse json_len ''REASONING_MESSAGE_CHUNK'' m (d, out) = reasoning_chunk m (d, out)"
  by (simp_all add: dispatch_event_def event_handler_def)

lemma close_no_chunks:
  "no_chunks d \<Longrightarrow> close_convenience_before parse event_type (d, out) = (Ok (), d, out)"
  by (simp add: no_chunks_def chunks_def close_convenience_before_def step_unless_def step_bind_def step_lift_def
      close_text_chunk_def close_tool_chunk_def close_reasoning_chunk_def)

lemma dispatch_ok:
  assumes "dispatch_event parse json_len event_type m (d, out) = (Ok (), d', out')" "live d" "chunks_ok d"
    and "event_type \<noteq> ''RUN_ERROR''"
    and "event_type \<noteq> ''TEXT_MESSAGE_CHUNK'' \<longrightarrow> dec_text_chunk d = None"
    and "event_type \<noteq> ''TOOL_CALL_CHUNK'' \<longrightarrow> dec_tool_chunk d = None"
    and "event_type \<noteq> ''REASONING_MESSAGE_CHUNK'' \<longrightarrow> dec_reasoning_chunk d = None"
  shows "emits parse json_len (d, out) (d', out') \<and> settled d'"
proof -
  consider (start) "event_type = ''RUN_STARTED''" | (finish) "event_type = ''RUN_FINISHED''"
    | (words) "event_type = ''TEXT_MESSAGE_CHUNK''" | (tool) "event_type = ''TOOL_CALL_CHUNK''"
    | (reasoning) "event_type = ''REASONING_MESSAGE_CHUNK''"
    | (other) "event_type \<notin> {''RUN_STARTED'', ''RUN_FINISHED'', ''RUN_ERROR'', ''TEXT_MESSAGE_CHUNK'',
        ''TOOL_CALL_CHUNK'', ''REASONING_MESSAGE_CHUNK''}"
    using assms(4) unfolding insert_iff empty_iff by argo
  then show ?thesis
  proof cases
    case start
    with assms(1,2) show ?thesis unfolding start dispatch_runs by (simp add: run_started_def live_def)
  next
    case finish
    have "no_chunks d" using assms(5-7) finish by (simp add: no_chunks_def chunks_def)
    with run_finished_ok [OF assms(1) [unfolded finish dispatch_runs] assms(2)] show ?thesis
      by (simp add: settled_def no_chunks_def)
  next
    case words
    have "dec_tool_chunk d = None" "dec_reasoning_chunk d = None" using assms(6,7) words by simp_all
    from text_chunk_ok [OF assms(1) [unfolded words dispatch_runs] assms(2,3) this] show ?thesis
      by (simp add: live_settled)
  next
    case tool
    have "dec_text_chunk d = None" "dec_reasoning_chunk d = None" using assms(5,7) tool by simp_all
    from tool_chunk_ok [OF assms(1) [unfolded tool dispatch_runs] assms(2,3) this] show ?thesis
      by (simp add: live_settled)
  next
    case reasoning
    have "dec_text_chunk d = None" "dec_tool_chunk d = None" using assms(5,6) reasoning by simp_all
    from reasoning_chunk_ok [OF assms(1) [unfolded reasoning dispatch_runs] assms(2,3) this] show ?thesis
      by (simp add: live_settled)
  next
    case other
    then have "chunks d = (None, None, None)" using assms(5-7) unfolding insert_iff by (simp add: chunks_def)
    with dispatch_plain [OF other assms(1,2)] show ?thesis by (simp add: chunks_ok_def live_settled)
  qed
qed

lemma ingest_live:
  assumes "ingest_step parse json_len event_type m (d, []) = (Ok (), d', out')" "live d" "chunks_ok d"
  shows "emits parse json_len (d, []) (d', out') \<and> dec_started d' \<and> settled d'"
proof -
  obtain d1 out1 where
    1: "step_unless (event_type = ''RUN_ERROR'') (close_convenience_before parse event_type) (d, []) = (Ok (), d1, out1)" and
    2: "dispatch_event parse json_len event_type m (d1, out1) = (Ok (), d', out')"
    using assms(1) by (auto simp: ingest_step_def step_bind_ok split: if_splits)
  have started: "emits parse json_len (d1, out1) (d', out') \<Longrightarrow> live d1 \<Longrightarrow> dec_started d'"
    using protocol_stays_started [of parse json_len "protocol_of d1" _ "protocol_of d'"]
    by (auto simp: emits_def protocol_of_def live_def)
  show ?thesis
  proof (cases "event_type = ''RUN_ERROR''")
    case True
    have d1: "d1 = d" "out1 = []" using 1 unfolding True by (simp_all add: step_unless_def step_ok)
    from run_error_ok [OF 2 [unfolded True dispatch_runs d1] assms(2), of parse json_len] started assms(2) d1
    show ?thesis by blast
  next
    case False
    have "close_convenience_before parse event_type (d, []) = (Ok (), d1, out1)"
      using 1 False by (simp only: step_unless_def if_False)
    note c = close_convenience_before_ok [OF this assms(2,3), of json_len]
    then have live: "live d1" and ok: "chunks_ok d1" and e: "emits parse json_len (d, []) (d1, out1)" by blast+
    from c have "event_type \<noteq> ''TEXT_MESSAGE_CHUNK'' \<longrightarrow> dec_text_chunk d1 = None"
      "event_type \<noteq> ''TOOL_CALL_CHUNK'' \<longrightarrow> dec_tool_chunk d1 = None"
      "event_type \<noteq> ''REASONING_MESSAGE_CHUNK'' \<longrightarrow> dec_reasoning_chunk d1 = None"
      by blast+
    from dispatch_ok [OF 2 live ok False this] started live e show ?thesis by (blast intro: emits_trans)
  qed
qed

lemma ingest_step_ok:
  assumes "ingest_step parse json_len event_type m (d, []) = (Ok (), d', out')"
    and "\<not> dec_terminal d" "chunks_ok d" "\<not> dec_started d \<longrightarrow> no_chunks d"
  shows "emits parse json_len (d, []) (d', out') \<and> dec_started d' \<and> settled d'"
proof (cases "dec_started d")
  case True
  then show ?thesis using ingest_live assms by (simp add: live_def)
next
  case False
  then have n: "no_chunks d" using assms(4) by blast
  have "step_unless (event_type = ''RUN_ERROR'') (close_convenience_before parse event_type) (d, []) = (Ok (), d, [])"
    by (simp add: step_unless_def step_lift_def close_no_chunks [OF n])
  with False assms(1) have "event_type = ''RUN_STARTED''" "run_started m (d, []) = (Ok (), d', out')"
    by (auto simp: ingest_step_def step_bind_def dispatch_runs split: if_splits)
  then have "d' = d\<lparr>dec_started := True\<rparr>" "out' = [AguiRunStarted]"
    by (auto simp: run_started_def step_ok split: if_splits)
  with False n show ?thesis
    using assms(2) by (simp add: emits_def protocol_step_def protocol_of_def only_if_some settled_def chunks_ok_def
        no_chunks_def chunks_def)
qed

text \<open>The state between two texts.\<close>

definition decoder_ok :: "agui_decoder \<Rightarrow> bool" where
  "decoder_ok d \<longleftrightarrow> (dec_started d \<or> \<not> dec_terminal d \<and> no_chunks d) \<and> settled d"

lemma ingest_ok:
  assumes "ingest parse json_len input d = (Ok events, d')" "decoder_ok d"
  shows "protocol_run parse json_len (protocol_of d) events = Some (protocol_of d') \<and> decoder_ok d'"
proof -
  obtain event_type m where "ingest_step parse json_len event_type m (d, []) = (Ok (), d', events)" "\<not> dec_terminal d"
    using assms(1) by (auto simp: ingest_def result_map_ok split: if_splits sum.splits prod.splits)
  with ingest_step_ok [OF this] assms(2) show ?thesis by (auto simp: decoder_ok_def settled_def emits_def)
qed

lemma decoder_new_ok:
  "decoder_new json_len thread run doc = Ok d \<Longrightarrow> decoder_ok d \<and> protocol_of d = protocol_start doc"
  by (auto simp: decoder_new_def and_then_ok decoder_ok_def settled_def no_chunks_def chunks_ok_def chunks_def protocol_of_def
      protocol_start_def)

lemma ingest_all_ok:
  "ingest_all parse json_len d inputs = Ok (events, d') \<Longrightarrow> decoder_ok d \<Longrightarrow>
   protocol_run parse json_len (protocol_of d) events = Some (protocol_of d') \<and> decoder_ok d'"
proof (induction inputs arbitrary: d events)
  case (Cons input inputs)
  then obtain now d1 more where i: "ingest parse json_len input d = (Ok now, d1)"
    "ingest_all parse json_len d1 inputs = Ok (more, d')" "events = now @ more"
    by (auto simp: and_then_ok split: prod.splits sum.splits)
  with ingest_ok [OF i(1) Cons.prems(2)] Cons.IH [OF i(2)] show ?case by (simp add: protocol_run_append)
qed simp

text \<open>C4: What a remote agent can make the host see. Whatever texts an agent sends, the events that are
  handed on follow the protocol, and replaying them from the initial document gives back exactly what the
  decoder holds: open messages, tool calls with their streamed arguments, documents and transcript.\<close>

theorem events_follow_the_protocol:
  assumes "decoder_new json_len thread run doc = Ok d" "ingest_all parse json_len d inputs = Ok (events, d')"
  shows "protocol_run parse json_len (protocol_start doc) events = Some (protocol_of d')"
  using decoder_new_ok [OF assms(1)] ingest_all_ok [OF assms(2)] by simp

text \<open>A run with one tool call that is streamed in chunks.\<close>

definition example_parse :: "string \<Rightarrow> json option" where
  "example_parse s =
     map_of [(''start'', JObject [(''runId'', JString ''r''), (''threadId'', JString ''t''), (''type'', JString ''RUN_STARTED'')]),
       (''call'', JObject [(''delta'', JString ''{}''), (''toolCallId'', JString ''c''), (''toolCallName'', JString ''n''),
          (''type'', JString ''TOOL_CALL_CHUNK'')]),
       (''stop'', JObject [(''delta'', JString []), (''type'', JString ''TOOL_CALL_CHUNK'')]),
       (''open'', JObject [(''toolCallId'', JString ''c''), (''toolCallName'', JString ''n''), (''type'', JString ''TOOL_CALL_START'')]),
       (''finish'', JObject [(''runId'', JString ''r''), (''threadId'', JString ''t''), (''type'', JString ''RUN_FINISHED'')]),
       (''{}'', JObject [])] s"

definition example_decoder :: agui_decoder where
  "example_decoder = \<lparr>dec_thread_id = ''t'', dec_run_id = ''r'', dec_started = False, dec_terminal = False,
     dec_open_text = [], dec_tools = [], dec_open_steps = {}, dec_reasoning_runs = {}, dec_reasoning_messages = {},
     dec_state = JObject [], dec_activities = [], dec_messages = [], dec_text_chunk = None, dec_tool_chunk = None,
     dec_reasoning_chunk = None\<rparr>"

lemmas field_defs = field_str_def required_string_def required_bounded_string_def bounded_id_def has_nul_def
  opt_filter_def optional_bounded_string_def optional_text_def bounded_string_def max_agui_event_bytes_def

lemma example_decoder_new: "decoder_new (\<lambda>_. 10) ''t'' ''r'' (JObject []) = Ok example_decoder"
  by (simp add: decoder_new_def example_decoder_def field_defs ensure_value_bound_def)

lemma example_read:
  "read_event example_parse (\<lambda>_. 10) ''start'' = Ok (''RUN_STARTED'',
     [(''runId'', JString ''r''), (''threadId'', JString ''t''), (''type'', JString ''RUN_STARTED'')])"
  "read_event example_parse (\<lambda>_. 10) ''call'' = Ok (''TOOL_CALL_CHUNK'',
     [(''delta'', JString ''{}''), (''toolCallId'', JString ''c''), (''toolCallName'', JString ''n''),
      (''type'', JString ''TOOL_CALL_CHUNK'')])"
  "read_event example_parse (\<lambda>_. 10) ''stop'' = Ok (''TOOL_CALL_CHUNK'',
     [(''delta'', JString []), (''type'', JString ''TOOL_CALL_CHUNK'')])"
  "read_event example_parse (\<lambda>_. 10) ''open'' = Ok (''TOOL_CALL_START'',
     [(''toolCallId'', JString ''c''), (''toolCallName'', JString ''n''), (''type'', JString ''TOOL_CALL_START'')])"
  "read_event example_parse (\<lambda>_. 10) ''finish'' = Ok (''RUN_FINISHED'',
     [(''runId'', JString ''r''), (''threadId'', JString ''t''), (''type'', JString ''RUN_FINISHED'')])"
  by (simp_all add: read_event_def example_parse_def ensure_value_bound_def field_defs)

lemma ingest_read:
  assumes "input \<noteq> []" "length input \<le> max_agui_event_bytes" "\<not> has_nul input" "\<not> dec_terminal d"
    "read_event parse json_len input = Ok (event_type, m)"
    "ingest_step parse json_len event_type m (d, []) = (Ok (), d', out)"
  shows "ingest parse json_len input d = (Ok out, d')"
  using assms by (simp add: ingest_def)

definition example_called :: "bool \<Rightarrow> agui_decoder" where
  "example_called open = example_decoder\<lparr>dec_started := True, dec_tool_chunk := if open then Some ''c'' else None,
     dec_tools := [(''c'', \<lparr>acc_name = ''n'', acc_arguments = ''{}'', acc_ended = \<not> open\<rparr>)]\<rparr>"

lemma example_start:
  "ingest example_parse (\<lambda>_. 10) ''start'' example_decoder
     = (Ok [AguiRunStarted], example_decoder\<lparr>dec_started := True\<rparr>)"
  by (rule ingest_read [OF _ _ _ _ example_read(1)])
    (simp_all add: field_defs example_decoder_def ingest_step_def step_bind_def step_unless_def step_lift_def
      close_no_chunks no_chunks_def chunks_def dispatch_runs run_started_def check_run_identity_def step_push_def)

lemma example_call:
  "ingest example_parse (\<lambda>_. 10) ''call'' (example_decoder\<lparr>dec_started := True\<rparr>)
     = (Ok [AguiToolStarted ''c'' ''n'' None, AguiToolArguments ''c'' ''{}''], example_called True)"
  by (rule ingest_read [OF _ _ _ _ example_read(2)])
    (simp_all add: field_defs example_decoder_def ingest_step_def step_bind_def step_unless_def step_lift_def
      close_no_chunks no_chunks_def chunks_def dispatch_runs tool_chunk_def open_unless_current_def open_tool_chunk_def
      close_tool_chunk_def push_arguments_def step_push_def example_called_def Let_def bt_put_def)

lemmas example_eval = field_defs example_decoder_def ingest_step_def step_bind_def step_unless_def step_lift_def
  close_no_chunks no_chunks_def chunks_def dispatch_runs tool_chunk_def open_unless_current_def open_tool_chunk_def
  close_tool_chunk_def push_arguments_def step_push_def example_called_def Let_def bt_put_def finish_tool_def
  close_convenience_before_def close_text_chunk_def close_reasoning_chunk_def example_parse_def

lemma example_stop:
  "ingest example_parse (\<lambda>_. 10) ''stop'' (example_called True)
     = (Ok [AguiToolCompleted ''c'' ''n'' (JObject [])], example_called False)"
  by (rule ingest_read [OF _ _ _ _ example_read(3)]) (simp_all add: example_eval)

lemma example_call_again:
  "ingest example_parse (\<lambda>_. 10) ''call'' (example_called False)
     = (Ok [AguiToolStarted ''c'' ''n'' None, AguiToolArguments ''c'' ''{}''], example_called True)"
  by (rule ingest_read [OF _ _ _ _ example_read(2)]) (simp_all add: example_eval)

lemma example_finish:
  "ingest example_parse (\<lambda>_. 10) ''finish'' (example_called True)
     = (Ok [AguiToolCompleted ''c'' ''n'' (JObject []), AguiRunFinished], example_called False\<lparr>dec_terminal := True\<rparr>)"
  by (rule ingest_read [OF _ _ _ _ example_read(5)])
    (simp_all add: example_eval run_finished_def check_run_identity_def open_explicit_streams_def)

theorem events_follow_the_protocol_witness:
  "protocol_run example_parse (\<lambda>_. 10) (protocol_start (JObject []))
     [AguiRunStarted, AguiToolStarted ''c'' ''n'' None, AguiToolArguments ''c'' ''{}'',
      AguiToolCompleted ''c'' ''n'' (JObject []), AguiRunFinished]
   = Some (protocol_of (example_called False\<lparr>dec_terminal := True\<rparr>))"
proof -
  have "ingest_all example_parse (\<lambda>_. 10) example_decoder [''start'', ''call'', ''finish'']
      = Ok ([AguiRunStarted, AguiToolStarted ''c'' ''n'' None, AguiToolArguments ''c'' ''{}'',
          AguiToolCompleted ''c'' ''n'' (JObject []), AguiRunFinished], example_called False\<lparr>dec_terminal := True\<rparr>)"
    by (simp add: example_start example_call example_finish)
  from events_follow_the_protocol [OF example_decoder_new this] show ?thesis .
qed

text \<open>
  A chunk starts a tool call again that is known and has completed, where \<open>TOOL_CALL_START\<close> refuses the
  identifier: two completed calls with one identifier leave the decoder.
\<close>

lemma chunk_reopens_a_completed_call:
  "ingest_all example_parse (\<lambda>_. 10) example_decoder [''start'', ''call'', ''stop'', ''call'', ''stop'']
     = Ok ([AguiRunStarted, AguiToolStarted ''c'' ''n'' None, AguiToolArguments ''c'' ''{}'',
         AguiToolCompleted ''c'' ''n'' (JObject []), AguiToolStarted ''c'' ''n'' None, AguiToolArguments ''c'' ''{}'',
         AguiToolCompleted ''c'' ''n'' (JObject [])], example_called False)"
  by (simp add: example_start example_call example_call_again example_stop)

lemma start_refuses_a_known_call:
  "map_of (dec_tools d) i \<noteq> None \<Longrightarrow> required_bounded_string m ''toolCallId'' = Ok i
     \<Longrightarrow> fst (tool_start m (d, out)) \<noteq> Ok ()"
  by (auto simp: tool_start_def step_bind_def step_lift_def Let_def split: sum.splits)

section \<open>The end of the stream\<close>

text \<open>
  After the end of the run nothing more is accepted; the stream is complete exactly when the run has ended,
  and completing it yields nothing that was not handed on before.
\<close>

lemma terminal_ingests_nothing: "dec_terminal d \<Longrightarrow> \<exists>e. ingest parse json_len input d = (Err e, d)"
  by (auto simp: ingest_def)

lemma close_keeps_terminal:
  "close_text_chunk (d, out) = (r, d', out') \<Longrightarrow> dec_terminal d' = dec_terminal d"
  "close_reasoning_chunk (d, out) = (r, d', out') \<Longrightarrow> dec_terminal d' = dec_terminal d"
  by (auto simp: close_text_chunk_def close_reasoning_chunk_def Let_def split: option.splits if_splits)

lemma finish_tool_keeps_terminal: "finish_tool parse i (d, out) = (r, d', out') \<Longrightarrow> dec_terminal d' = dec_terminal d"
  by (auto simp: finish_tool_def split: option.splits)

lemma close_tool_keeps_terminal: "close_tool_chunk parse (d, out) = (r, d', out') \<Longrightarrow> dec_terminal d' = dec_terminal d"
  by (auto simp: close_tool_chunk_def dest: finish_tool_keeps_terminal split: option.splits)

lemma finish_complete:
  assumes "decoder_ok d"
  shows "fst (decoder_finish parse d) = Ok events \<longleftrightarrow> dec_terminal d \<and> events = []"
proof (cases "dec_terminal d")
  case True
  with assms have "dec_started d" "chunks d = (None, None, None)"
    by (auto simp: decoder_ok_def settled_def no_chunks_def)
  then have "close_all_convenience parse (d, []) = (Ok (), d, [])"
    by (simp add: close_all_convenience_def step_bind_def close_text_chunk_def close_tool_chunk_def
        close_reasoning_chunk_def chunks_def)
  with True \<open>dec_started d\<close> show ?thesis by (auto simp: decoder_finish_def)
next
  case False
  have "dec_terminal d' = dec_terminal d" if "close_all_convenience parse (d, []) = (Ok (), d', out)" for d' out
    using that by (auto simp: close_all_convenience_def step_bind_ok
        dest!: close_keeps_terminal close_tool_keeps_terminal)
  with False show ?thesis by (auto simp: decoder_finish_def and_then_ok split: prod.splits)
qed

end
