(* ===== verification/RemoteTypes.thy ===== *)
theory RemoteTypes
  imports AguiDecoder
begin

text \<open>
  Bounded values of the remote agent boundary, \<open>crates/openbot-application/src/provider.rs\<close>: interrupts,
  answers to them, and projections for display. Remote content stays under keys that say so, and nothing
  with a NUL in it or above its bound is made. \<open>json_len\<close> is the length of \<open>serde_json\<close>'s rendering.
\<close>

section \<open>NUL anywhere in a value\<close>

definition stack_size :: "json list \<Rightarrow> nat" where
  "stack_size stack = sum_list (map (\<lambda>v. Suc (size v)) stack)"

lemma stack_size_values: "sum_list (map (\<lambda>v. Suc (size v)) xs) = size_list size xs"
  by (induction xs) simp_all

lemma stack_size_entries:
  "sum_list (map ((\<lambda>v. Suc (size v)) \<circ> snd) m) \<le> size_list (size_prod (\<lambda>x. 0) size) m"
  by (induction m) auto

text \<open>The loop over a stack of values; the top is the head.\<close>

function (sequential) contains_nul_loop :: "json list \<Rightarrow> bool" where
  "contains_nul_loop [] = False"
| "contains_nul_loop (JString s # stack) = (if has_nul s then True else contains_nul_loop stack)"
| "contains_nul_loop (JArray xs # stack) = contains_nul_loop (rev xs @ stack)"
| "contains_nul_loop (JObject m # stack) =
     (if list_ex (\<lambda>(k, _). has_nul k) m then True else contains_nul_loop (rev (map snd m) @ stack))"
| "contains_nul_loop (_ # stack) = contains_nul_loop stack"
  by pat_completeness auto
termination
  by (relation "measure stack_size")
    (auto simp: stack_size_def rev_map [symmetric] stack_size_values less_Suc_eq_le intro: le_SucI stack_size_entries)

definition value_contains_nul :: "json \<Rightarrow> bool" where
  "value_contains_nul v = contains_nul_loop [v]"

text \<open>Every string of a value, the keys included.\<close>

function (sequential) nul_free :: "json \<Rightarrow> bool" where
  "nul_free (JString s) \<longleftrightarrow> \<not> has_nul s"
| "nul_free (JArray xs) \<longleftrightarrow> (\<forall>x\<in>set xs. nul_free x)"
| "nul_free (JObject m) \<longleftrightarrow> (\<forall>e\<in>set m. \<not> has_nul (fst e) \<and> nul_free (snd e))"
| "nul_free _ \<longleftrightarrow> True"
  by pat_completeness auto
termination
  by (relation "measure size") (auto simp: size_list_estimation' less_Suc_eq_le intro!: size_list_estimation')

lemma contains_nul_loop_free: "contains_nul_loop stack \<longleftrightarrow> \<not> (\<forall>v\<in>set stack. nul_free v)"
  by (induction stack rule: contains_nul_loop.induct) (force simp: list_ex_iff)+

lemma value_contains_nul_free: "value_contains_nul v \<longleftrightarrow> \<not> nul_free v"
  by (simp add: value_contains_nul_def contains_nul_loop_free)

section \<open>Interrupts\<close>

datatype remote_projection_error = RemoteInvalid | RemoteTooLarge

definition remote_interrupt_max_items :: nat where "remote_interrupt_max_items = 256"
definition remote_interrupt_label_max_bytes :: nat where "remote_interrupt_label_max_bytes = 256"
definition remote_interrupt_message_max_bytes :: nat where "remote_interrupt_message_max_bytes = 64 * 1024"
definition remote_resume_payload_max_bytes :: nat where "remote_resume_payload_max_bytes = 64 * 1024"
definition remote_projection_max_bytes :: nat where "remote_projection_max_bytes = 1024 * 1024"

text \<open>The input of \<open>ProviderRemoteInterrupt::new\<close> has the fields of \<open>agui_interrupt\<close>.\<close>

record remote_interrupt =
  ri_id :: string
  ri_untrusted_payload :: json

definition has_control :: "string \<Rightarrow> bool" where
  "has_control s \<longleftrightarrow> list_ex is_control (chars s)"

definition some_and :: "'a option \<Rightarrow> ('a \<Rightarrow> bool) \<Rightarrow> bool" where
  "some_and opt p \<longleftrightarrow> (case opt of Some a \<Rightarrow> p a | None \<Rightarrow> False)"

definition opt_entry :: "string \<Rightarrow> json option \<Rightarrow> (string \<times> json) list" where
  "opt_entry k v = (case v of Some w \<Rightarrow> [(k, w)] | None \<Rightarrow> [])"

text \<open>A map built by inserting one entry after the other.\<close>

definition json_map :: "(string \<times> json) list \<Rightarrow> json" where
  "json_map entries = JObject (foldl (\<lambda>m (k, v). bt_put k v m) [] entries)"

definition remote_interrupt_new ::
  "(json \<Rightarrow> nat) \<Rightarrow> agui_interrupt \<Rightarrow> (remote_projection_error, remote_interrupt) result" where
  "remote_interrupt_new json_len i =
     (if list_ex (\<lambda>s. s = [] \<or> length s > remote_interrupt_label_max_bytes \<or> has_control s)
           [interrupt_id i, interrupt_reason i]
         \<or> list_ex (\<lambda>v. some_and v (\<lambda>s. s = [] \<or> has_nul s))
             [interrupt_message i, interrupt_tool_call_id i, interrupt_expires_at i]
         \<or> some_and (interrupt_message i) (\<lambda>s. length s > remote_interrupt_message_max_bytes
             \<or> list_ex (\<lambda>c. is_control c \<and> c \<notin> {10, 13, 9}) (chars s))
         \<or> some_and (interrupt_tool_call_id i) (\<lambda>s. length s > remote_interrupt_label_max_bytes \<or> has_control s)
         \<or> some_and (interrupt_expires_at i) (\<lambda>s. length s > 128 \<or> has_control s)
         \<or> some_and (interrupt_response_schema i) (\<lambda>v. \<not> is_object v \<or> value_contains_nul v)
         \<or> some_and (interrupt_metadata i) (\<lambda>v. \<not> is_object v \<or> value_contains_nul v)
      then Err RemoteInvalid
      else
        let payload = json_map ([(''id'', JString (interrupt_id i)), (''reason'', JString (interrupt_reason i))]
              @ opt_entry ''message'' (map_option JString (interrupt_message i))
              @ opt_entry ''toolCallId'' (map_option JString (interrupt_tool_call_id i))
              @ opt_entry ''responseSchema'' (interrupt_response_schema i)
              @ opt_entry ''expiresAt'' (map_option JString (interrupt_expires_at i))
              @ opt_entry ''metadata'' (interrupt_metadata i))
        in if json_len payload > remote_projection_max_bytes then Err RemoteTooLarge
           else Ok \<lparr>ri_id = interrupt_id i, ri_untrusted_payload = payload\<rparr>)"

record remote_interrupt_batch =
  batch_protocol_run_id :: string
  batch_interrupts :: "remote_interrupt list"

definition remote_interrupt_batch_new ::
  "(json \<Rightarrow> nat) \<Rightarrow> string \<Rightarrow> remote_interrupt list \<Rightarrow> (remote_projection_error, remote_interrupt_batch) result" where
  "remote_interrupt_batch_new json_len run interrupts =
     (if run = [] \<or> has_nul run \<or> length run > 1024 \<or> interrupts = []
         \<or> length interrupts > remote_interrupt_max_items
         \<or> card (set (map ri_id interrupts)) \<noteq> length interrupts
      then Err RemoteInvalid
      else if json_len (JArray (map ri_untrusted_payload interrupts)) > remote_projection_max_bytes
      then Err RemoteTooLarge
      else Ok \<lparr>batch_protocol_run_id = run, batch_interrupts = interrupts\<rparr>)"

section \<open>Answers\<close>

datatype remote_resume_status = ResumeResolved | ResumeCancelled

fun remote_resume_status_str :: "remote_resume_status \<Rightarrow> string" where
  "remote_resume_status_str ResumeResolved = ''resolved''"
| "remote_resume_status_str ResumeCancelled = ''cancelled''"

record remote_resume_entry =
  re_interrupt_id :: string
  re_status :: remote_resume_status
  re_payload :: "json option"

definition remote_resume_entry_new ::
  "(json \<Rightarrow> nat) \<Rightarrow> string \<Rightarrow> remote_resume_status \<Rightarrow> json option \<Rightarrow> (remote_projection_error, remote_resume_entry) result" where
  "remote_resume_entry_new json_len i status payload =
     (if i = [] \<or> length i > remote_interrupt_label_max_bytes \<or> has_control i
         \<or> some_and payload value_contains_nul
      then Err RemoteInvalid
      else if some_and payload (\<lambda>v. json_len v > remote_resume_payload_max_bytes) then Err RemoteTooLarge
      else Ok \<lparr>re_interrupt_id = i, re_status = status, re_payload = payload\<rparr>)"

definition remote_resume_wire_value :: "remote_resume_entry \<Rightarrow> json" where
  "remote_resume_wire_value e =
     json_map ([(''interruptId'', JString (re_interrupt_id e)),
         (''status'', JString (remote_resume_status_str (re_status e)))]
       @ opt_entry ''payload'' (re_payload e))"

record remote_resume =
  rr_parent_protocol_run_id :: string
  rr_protocol_run_id :: string
  rr_entries :: "remote_resume_entry list"
  rr_wire_entries :: "json list"

definition remote_resume_new ::
  "(json \<Rightarrow> nat) \<Rightarrow> string \<Rightarrow> string \<Rightarrow> remote_resume_entry list \<Rightarrow> (remote_projection_error, remote_resume) result" where
  "remote_resume_new json_len parent run entries =
     (if list_ex (\<lambda>s. s = [] \<or> has_nul s) [parent, run] \<or> parent = run \<or> entries = []
         \<or> length entries > remote_interrupt_max_items
         \<or> card (set (map re_interrupt_id entries)) \<noteq> length entries
      then Err RemoteInvalid
      else
        let wire = map remote_resume_wire_value entries
        in if json_len (JArray wire) > remote_projection_max_bytes then Err RemoteTooLarge
           else Ok \<lparr>rr_parent_protocol_run_id = parent, rr_protocol_run_id = run, rr_entries = entries,
             rr_wire_entries = wire\<rparr>)"

section \<open>Projections\<close>

datatype remote_projection_kind =
    ProjectionState | ProjectionMessages | ProjectionActivity | ProjectionStepStarted | ProjectionStepFinished
  | ProjectionToolResult | ProjectionRaw | ProjectionCustom

fun remote_projection_kind_str :: "remote_projection_kind \<Rightarrow> string" where
  "remote_projection_kind_str ProjectionState = ''state''"
| "remote_projection_kind_str ProjectionMessages = ''messages''"
| "remote_projection_kind_str ProjectionActivity = ''activity''"
| "remote_projection_kind_str ProjectionStepStarted = ''step_started''"
| "remote_projection_kind_str ProjectionStepFinished = ''step_finished''"
| "remote_projection_kind_str ProjectionToolResult = ''tool_result''"
| "remote_projection_kind_str ProjectionRaw = ''raw''"
| "remote_projection_kind_str ProjectionCustom = ''custom''"

record remote_projection =
  rp_kind :: remote_projection_kind
  rp_journal_payload :: json
  rp_encoded_len :: nat

text \<open>\<open>json!\<close> of an optional string.\<close>

definition json_opt_str :: "string option \<Rightarrow> json" where
  "json_opt_str s = (case s of Some s \<Rightarrow> JString s | None \<Rightarrow> JNull)"

definition remote_projection_new ::
  "(json \<Rightarrow> nat) \<Rightarrow> remote_projection_kind \<Rightarrow> string option \<Rightarrow> string option \<Rightarrow> json
     \<Rightarrow> (remote_projection_error, remote_projection) result" where
  "remote_projection_new json_len kind untrusted_key untrusted_type untrusted_value =
     (if list_ex (\<lambda>v. some_and v (\<lambda>s. s = [] \<or> has_nul s)) [untrusted_key, untrusted_type]
         \<or> value_contains_nul untrusted_value
      then Err RemoteInvalid
      else
        let payload = json_map
              [(''kind'', JString ''remote_agui_projection''), (''source'', JString ''remote_ag_ui''),
               (''family'', JString (remote_projection_kind_str kind)), (''untrusted'', JBool True),
               (''untrustedKey'', json_opt_str untrusted_key), (''untrustedType'', json_opt_str untrusted_type),
               (''untrustedValue'', untrusted_value)]
        in if json_len payload > remote_projection_max_bytes then Err RemoteTooLarge
           else Ok \<lparr>rp_kind = kind, rp_journal_payload = payload, rp_encoded_len = json_len payload\<rparr>)"

end
