(* ===== verification/AguiInput.thy ===== *)
theory AguiInput
  imports RemoteTypes Content "HOL-Library.Multiset"
begin

text \<open>
  The request to a remote agent, \<open>encode_run_agent_input\<close> of \<open>crates/openbot-agent/src/agui.rs\<close>: the
  conversation with its tool calls paired with their results, the offered tools, and the answers to an
  interrupt. \<open>render\<close> is \<open>serde_json\<close>'s rendering. The check of the content before anything is sent is
  \<open>crates/openbot-application/src/provider/content.rs\<close>.
\<close>

section \<open>Messages and tools\<close>

definition max_agui_run_input_bytes :: nat where "max_agui_run_input_bytes = 8 * 1024 * 1024"

datatype provider_message_role = MessageSystem | MessageUser | MessageAssistant | MessageTool

record provider_tool_call =
  ptc_call_id :: string
  ptc_name :: string
  ptc_arguments :: json

record provider_message =
  pm_role :: provider_message_role
  pm_content :: string
  pm_tool_call_id :: "string option"
  pm_tool_name :: "string option"
  pm_tool_calls :: "provider_tool_call list"

record provider_tool_definition =
  ptd_name :: string
  ptd_description :: string
  ptd_input_schema :: json

section \<open>Encoding the conversation\<close>

text \<open>The calls that wait for their result, by call identifier.\<close>

type_synonym pending_tools = "(string \<times> string) list"

definition project_call ::
  "(json \<Rightarrow> string) \<Rightarrow> pending_tools \<times> json list \<Rightarrow> provider_tool_call
     \<Rightarrow> (agui_protocol_error, pending_tools \<times> json list) result" where
  "project_call render = (\<lambda>(waiting, projected) call.
     and_then (bounded_id (ptc_call_id call)) (\<lambda>_.
     and_then (bounded_id (ptc_name call)) (\<lambda>_.
     if \<not> is_object (ptc_arguments call) \<or> map_of waiting (ptc_call_id call) \<noteq> None
     then Err AguiInvalidSequence
     else Ok (bt_put (ptc_call_id call) (ptc_name call) waiting,
       projected @ [json_map [(''id'', JString (ptc_call_id call)), (''type'', JString ''function''),
         (''function'', json_map [(''name'', JString (ptc_name call)),
            (''arguments'', JString (render (ptc_arguments call)))])]]))))"

definition project_message ::
  "(json \<Rightarrow> string) \<Rightarrow> string \<Rightarrow> pending_tools \<times> json list \<Rightarrow> provider_message
     \<Rightarrow> (agui_protocol_error, pending_tools \<times> json list) result" where
  "project_message render run = (\<lambda>(waiting, projected) m.
     and_then (bounded_string (pm_content m)) (\<lambda>_.
     let message_id = (''id'', JString (''openbot:'' @ run @ '':message:'' @ show_nat (length projected)));
         content = (''content'', JString (pm_content m))
     in case pm_role m of
       MessageSystem \<Rightarrow>
         if waiting \<noteq> [] \<or> pm_tool_calls m \<noteq> [] then Err AguiInvalidSequence
         else Ok (waiting, projected @ [json_map [message_id, (''role'', JString ''system''), content]])
     | MessageUser \<Rightarrow>
         if waiting \<noteq> [] \<or> pm_tool_calls m \<noteq> [] then Err AguiInvalidSequence
         else Ok (waiting, projected @ [json_map [message_id, (''role'', JString ''user''), content]])
     | MessageAssistant \<Rightarrow>
         if waiting \<noteq> [] then Err AguiInvalidSequence
         else
           let entries = [message_id, (''role'', JString ''assistant'')]
             @ (if pm_content m \<noteq> [] then [content] else [])
           in if pm_tool_calls m = [] then Ok (waiting, projected @ [json_map entries])
              else and_then (try_fold (project_call render) (waiting, []) (pm_tool_calls m)) (\<lambda>(waiting, calls).
                Ok (waiting, projected @ [json_map (entries @ [(''toolCalls'', JArray calls)])]))
     | MessageTool \<Rightarrow>
         (case (pm_tool_call_id m, pm_tool_name m) of
            (Some call, Some name) \<Rightarrow>
              if pm_tool_calls m \<noteq> [] \<or> map_of waiting call \<noteq> Some name then Err AguiInvalidSequence
              else Ok (bt_remove call waiting, projected @ [json_map [message_id, (''role'', JString ''tool''), content,
                (''toolCallId'', JString call), (''name'', JString name)]])
          | _ \<Rightarrow> Err AguiInvalidSequence)))"

definition project_tool :: "provider_tool_definition \<Rightarrow> (agui_protocol_error, json) result" where
  "project_tool tool =
     and_then (bounded_id (ptd_name tool)) (\<lambda>_.
     and_then (bounded_string (ptd_description tool)) (\<lambda>_.
     if \<not> is_object (ptd_input_schema tool) then Err AguiInvalidEvent
     else Ok (json_map [(''name'', JString (ptd_name tool)), (''description'', JString (ptd_description tool)),
       (''parameters'', ptd_input_schema tool)])))"

definition encode_run_agent_input_with_resume ::
  "(json \<Rightarrow> string) \<Rightarrow> string \<Rightarrow> string \<Rightarrow> provider_message list \<Rightarrow> provider_tool_definition list \<Rightarrow> json
     \<Rightarrow> string option \<Rightarrow> remote_resume option \<Rightarrow> (agui_protocol_error, string) result" where
  "encode_run_agent_input_with_resume render thread run messages tools forwarded parent resume =
     and_then (bounded_id thread) (\<lambda>_.
     and_then (bounded_id run) (\<lambda>_.
     and_then (case parent of Some p \<Rightarrow> void (bounded_id p) | None \<Rightarrow> Ok ()) (\<lambda>_.
     if some_and resume (\<lambda>r. rr_protocol_run_id r \<noteq> run \<or> Some (rr_parent_protocol_run_id r) \<noteq> parent)
        \<or> (parent \<noteq> None) \<noteq> (resume \<noteq> None)
     then Err AguiInvalidSequence
     else if messages = [] \<or> length messages > max_agui_collection_items \<or> length tools > 256 \<or> \<not> is_object forwarded
     then Err AguiInvalidEvent
     else and_then (try_fold (project_message render run) ([], []) messages) (\<lambda>(waiting, projected).
       if waiting \<noteq> [] then Err AguiInvalidSequence
       else and_then (collect_results project_tool tools) (\<lambda>projected_tools.
         let body = json_map ([(''threadId'', JString thread), (''runId'', JString run), (''state'', JObject []),
               (''messages'', JArray projected), (''tools'', JArray projected_tools), (''context'', JArray []),
               (''forwardedProps'', forwarded)]
             @ opt_entry ''parentRunId'' (map_option JString parent)
             @ opt_entry ''resume'' (map_option (\<lambda>r. JArray (rr_wire_entries r)) resume));
             encoded = render body
         in if length encoded > max_agui_run_input_bytes then Err AguiTooLarge else Ok encoded)))))"

definition encode_run_agent_input ::
  "(json \<Rightarrow> string) \<Rightarrow> string \<Rightarrow> string \<Rightarrow> provider_message list \<Rightarrow> provider_tool_definition list \<Rightarrow> json
     \<Rightarrow> (agui_protocol_error, string) result" where
  "encode_run_agent_input render thread run messages tools forwarded =
     encode_run_agent_input_with_resume render thread run messages tools forwarded None None"

section \<open>Which conversations are accepted\<close>

definition call_entry :: "provider_tool_call \<Rightarrow> string \<times> string" where
  "call_entry call = (ptc_call_id call, ptc_name call)"

definition call_ok :: "provider_tool_call \<Rightarrow> bool" where
  "call_ok call \<longleftrightarrow> is_ok (bounded_id (ptc_call_id call)) \<and> is_ok (bounded_id (ptc_name call)) \<and> is_object (ptc_arguments call)"

text \<open>The result message for a call.\<close>

definition answers_call :: "string \<times> string \<Rightarrow> provider_message \<Rightarrow> bool" where
  "answers_call entry m \<longleftrightarrow> pm_role m = MessageTool \<and> is_ok (bounded_string (pm_content m)) \<and> pm_tool_calls m = []
     \<and> pm_tool_call_id m = Some (fst entry) \<and> pm_tool_name m = Some (snd entry)"

text \<open>
  A conversation whose calls are paired: an assistant turn is followed by exactly one result for each of
  its calls, in any order, before anything else is said.
\<close>

inductive paired :: "provider_message list \<Rightarrow> bool" where
  paired_empty: "paired []"
| paired_said: "pm_role m \<in> {MessageSystem, MessageUser} \<Longrightarrow> is_ok (bounded_string (pm_content m)) \<Longrightarrow> pm_tool_calls m = []
    \<Longrightarrow> paired ms \<Longrightarrow> paired (m # ms)"
| paired_turn: "pm_role m = MessageAssistant \<Longrightarrow> is_ok (bounded_string (pm_content m)) \<Longrightarrow> list_all call_ok (pm_tool_calls m)
    \<Longrightarrow> distinct (map ptc_call_id (pm_tool_calls m)) \<Longrightarrow> list_all2 answers_call entries results
    \<Longrightarrow> mset entries = mset (map call_entry (pm_tool_calls m)) \<Longrightarrow> paired ms \<Longrightarrow> paired (m # results @ ms)"

text \<open>What one message does to the calls that wait.\<close>

definition history_admits :: "pending_tools \<Rightarrow> provider_message \<Rightarrow> pending_tools \<Rightarrow> bool" where
  "history_admits waiting m waiting' \<longleftrightarrow> is_ok (bounded_string (pm_content m)) \<and>
     (case pm_role m of
        MessageSystem \<Rightarrow> waiting = [] \<and> pm_tool_calls m = [] \<and> waiting' = []
      | MessageUser \<Rightarrow> waiting = [] \<and> pm_tool_calls m = [] \<and> waiting' = []
      | MessageAssistant \<Rightarrow> waiting = [] \<and> list_all call_ok (pm_tool_calls m)
          \<and> distinct (map ptc_call_id (pm_tool_calls m))
          \<and> waiting' = foldl (\<lambda>w call. bt_put (ptc_call_id call) (ptc_name call) w) [] (pm_tool_calls m)
      | MessageTool \<Rightarrow> \<exists>entry. answers_call entry m \<and> map_of waiting (fst entry) = Some (snd entry)
          \<and> waiting' = bt_remove (fst entry) waiting)"

lemma is_ok_unit: "is_ok r \<longleftrightarrow> (\<exists>a. r = Ok a)"
  by (cases r) auto

lemma map_of_bt_put': "map_of (bt_put k v m) k' = (if k' = k then Some v else map_of m k')"
  by (simp add: bt_put_def map_of_bt_insert)

lemma project_calls_ok:
  "(\<exists>out. try_fold (project_call render) (waiting, projected) calls = Ok (waiting', out)) \<longleftrightarrow>
     list_all call_ok calls \<and> distinct (map ptc_call_id calls)
     \<and> (\<forall>call\<in>set calls. map_of waiting (ptc_call_id call) = None)
     \<and> waiting' = foldl (\<lambda>w call. bt_put (ptc_call_id call) (ptc_name call) w) waiting calls"
proof (induction calls arbitrary: waiting projected)
  case (Cons call calls)
  have step: "project_call render (waiting, projected) call = Ok (w, out) \<longleftrightarrow>
      call_ok call \<and> map_of waiting (ptc_call_id call) = None \<and> w = bt_put (ptc_call_id call) (ptc_name call) waiting
      \<and> out = snd (projr (project_call render (waiting, projected) call))" for w out
    by (auto simp: project_call_def and_then_ok call_ok_def is_ok_unit split: if_splits)
  show ?case
    unfolding try_fold_Cons_ok using Cons.IH
    by (auto simp: step map_of_bt_put') (metis image_eqI)
qed auto

lemma project_message_ok:
  "(\<exists>out. project_message render run (waiting, projected) m = Ok (waiting', out)) \<longleftrightarrow> history_admits waiting m waiting'"
proof (cases "pm_role m")
  case MessageAssistant
  have "(\<exists>out. try_fold (project_call render) ([], []) (pm_tool_calls m) = Ok (waiting', out)) \<longleftrightarrow>
     list_all call_ok (pm_tool_calls m) \<and> distinct (map ptc_call_id (pm_tool_calls m))
     \<and> waiting' = foldl (\<lambda>w call. bt_put (ptc_call_id call) (ptc_name call) w) [] (pm_tool_calls m)"
    by (simp add: project_calls_ok)
  with MessageAssistant show ?thesis
    by (auto simp: project_message_def history_admits_def and_then_ok is_ok_unit Let_def split: if_splits)
next
  case MessageTool
  then show ?thesis
    by (auto simp: project_message_def history_admits_def answers_call_def and_then_ok is_ok_unit Let_def
        split: if_splits option.splits)
qed (auto simp: project_message_def history_admits_def and_then_ok is_ok_unit Let_def split: if_splits)

primrec history_accepts :: "pending_tools \<Rightarrow> provider_message list \<Rightarrow> bool" where
  "history_accepts waiting [] \<longleftrightarrow> waiting = []"
| "history_accepts waiting (m # ms) \<longleftrightarrow> (\<exists>w. history_admits waiting m w \<and> history_accepts w ms)"

lemma project_messages_ok:
  "(\<exists>out. try_fold (project_message render run) (waiting, projected) ms = Ok ([], out)) \<longleftrightarrow> history_accepts waiting ms"
proof (induction ms arbitrary: waiting projected)
  case (Cons m ms)
  have "(\<exists>out. try_fold (project_message render run) (waiting, projected) (m # ms) = Ok ([], out))
      \<longleftrightarrow> (\<exists>w. (\<exists>out. project_message render run (waiting, projected) m = Ok (w, out)) \<and> history_accepts w ms)"
    unfolding try_fold_Cons_ok using Cons.IH by (metis surj_pair)
  then show ?case by (simp add: project_message_ok)
qed auto

section \<open>Waiting calls as a multiset\<close>

lemma mset_bt_put: "map_of m k = None \<Longrightarrow> mset (bt_put k v m) = add_mset (k, v) (mset m)"
  unfolding bt_put_def
  by (induction k v m rule: bt_insert.induct) (auto split: prod.splits if_splits)

lemma distinct_bt_put: "map_of m k = None \<Longrightarrow> distinct (map fst m) \<Longrightarrow> distinct (map fst (bt_put k v m))"
  using mset_bt_put [of m k v]
  by (metis (mono_tags) distinct.simps(2) list.simps(9) map_of_eq_None_iff mset.simps(2) mset_eq_imp_distinct_iff
      mset_map fst_conv list.set_map)

lemma mset_bt_remove:
  "distinct (map fst m) \<Longrightarrow> map_of m k = Some v \<Longrightarrow> mset m = add_mset (k, v) (mset (bt_remove k m))"
proof (induction m)
  case (Cons e m)
  show ?case
  proof (cases "fst e = k")
    case True
    with Cons.prems have "bt_remove k m = m" by (auto simp: bt_remove_def filter_id_conv image_iff)
    with True Cons.prems show ?thesis by (auto simp: bt_remove_def)
  next
    case False
    with Cons show ?thesis by (cases e) (auto simp: bt_remove_def)
  qed
qed simp

lemma distinct_bt_remove: "distinct (map fst m) \<Longrightarrow> distinct (map fst (bt_remove k m))"
  by (simp add: bt_remove_def distinct_map_filter)

lemma waiting_calls:
  "distinct (map ptc_call_id calls) \<Longrightarrow> \<forall>call\<in>set calls. map_of w (ptc_call_id call) = None \<Longrightarrow> distinct (map fst w) \<Longrightarrow>
   mset (foldl (\<lambda>w call. bt_put (ptc_call_id call) (ptc_name call) w) w calls) = mset w + mset (map call_entry calls)
   \<and> distinct (map fst (foldl (\<lambda>w call. bt_put (ptc_call_id call) (ptc_name call) w) w calls))"
proof (induction calls arbitrary: w)
  case (Cons call calls)
  let ?w = "bt_put (ptc_call_id call) (ptc_name call) w"
  have none: "map_of w (ptc_call_id call) = None" using Cons.prems by simp
  have "\<forall>c\<in>set calls. map_of ?w (ptc_call_id c) = None" using Cons.prems by (auto simp: map_of_bt_put' image_iff)
  with Cons.IH [of ?w] Cons.prems show ?case
    by (simp add: mset_bt_put [OF none] distinct_bt_put [OF none] call_entry_def)
qed simp

lemma accepts_results:
  "list_all2 answers_call entries results \<Longrightarrow> mset entries = mset w \<Longrightarrow> distinct (map fst w) \<Longrightarrow> history_accepts [] ms
     \<Longrightarrow> history_accepts w (results @ ms)"
proof (induction entries results arbitrary: w rule: list_all2_induct)
  case (Cons entry entries m results)
  have "entry \<in> set w" using Cons.prems(1) by (metis list.set_intros(1) mset_eq_setD)
  then have e: "map_of w (fst entry) = Some (snd entry)" using Cons.prems(2) by simp
  have "mset entries = mset (bt_remove (fst entry) w)"
    using mset_bt_remove [OF Cons.prems(2) e] Cons.prems(1) by (cases entry) simp
  then have "history_accepts (bt_remove (fst entry) w) (results @ ms)"
    using Cons.IH Cons.prems distinct_bt_remove by blast
  moreover have "history_admits w m (bt_remove (fst entry) w)"
    using Cons.hyps(1) e by (auto simp: history_admits_def answers_call_def)
  ultimately show ?case by auto
qed simp

lemma paired_accepts: "paired ms \<Longrightarrow> history_accepts [] ms"
proof (induction rule: paired.induct)
  case (paired_said m ms)
  then have "history_admits [] m []" by (auto simp: history_admits_def)
  with paired_said show ?case by auto
next
  case (paired_turn m entries results ms)
  let ?w = "foldl (\<lambda>w call. bt_put (ptc_call_id call) (ptc_name call) w) [] (pm_tool_calls m)"
  have "history_admits [] m ?w" using paired_turn by (simp add: history_admits_def)
  moreover have "history_accepts ?w (results @ ms)"
    using paired_turn waiting_calls [of "pm_tool_calls m" "[]"] by (intro accepts_results) auto
  ultimately show ?case by auto
qed simp

lemma accepts_paired:
  "history_accepts w ms \<Longrightarrow> distinct (map fst w) \<Longrightarrow>
   \<exists>entries results rest. ms = results @ rest \<and> list_all2 answers_call entries results \<and> mset entries = mset w \<and> paired rest"
proof (induction ms arbitrary: w)
  case Nil
  then show ?case by (intro exI [of _ "[]"]) (auto intro: paired_empty)
next
  case (Cons m ms)
  then obtain u where u: "history_admits w m u" "history_accepts u ms" by auto
  show ?case
  proof (cases "pm_role m = MessageTool")
    case True
    with u(1) obtain entry where e: "answers_call entry m" "map_of w (fst entry) = Some (snd entry)"
      "u = bt_remove (fst entry) w"
      by (auto simp: history_admits_def)
    then obtain entries results rest where r: "ms = results @ rest" "list_all2 answers_call entries results"
      "mset entries = mset u" "paired rest"
      using Cons.IH [OF u(2)] Cons.prems(2) distinct_bt_remove by blast
    have "mset (entry # entries) = mset w"
      using mset_bt_remove [OF Cons.prems(2) e(2)] r(3) e(3) by (cases entry) simp
    with r e(1) show ?thesis by (intro exI [of _ "entry # entries"] exI [of _ "m # results"] exI [of _ rest]) simp
  next
    case False
    then have w: "w = []" using u(1) by (auto simp: history_admits_def split: provider_message_role.splits)
    have "paired (m # ms)"
    proof (cases "pm_role m = MessageAssistant")
      case True
      with u(1) have c: "is_ok (bounded_string (pm_content m))" "list_all call_ok (pm_tool_calls m)"
        "distinct (map ptc_call_id (pm_tool_calls m))"
        "u = foldl (\<lambda>w call. bt_put (ptc_call_id call) (ptc_name call) w) [] (pm_tool_calls m)"
        by (auto simp: history_admits_def)
      with waiting_calls [of "pm_tool_calls m" "[]"] Cons.IH [OF u(2)] obtain entries results rest where
        "ms = results @ rest" "list_all2 answers_call entries results"
        "mset entries = mset (map call_entry (pm_tool_calls m))" "paired rest"
        by auto
      with True c show ?thesis by (auto intro: paired_turn)
    next
      case other: False
      with False u(1) have "pm_role m \<in> {MessageSystem, MessageUser}" "is_ok (bounded_string (pm_content m))"
        "pm_tool_calls m = []" "u = []"
        by (cases "pm_role m"; auto simp: history_admits_def)+
      moreover from this Cons.IH [OF u(2)] have "paired ms" by auto
      ultimately show ?thesis by (auto intro: paired_said)
    qed
    with w show ?thesis by (intro exI [of _ "[]"] exI [of _ "[]"] exI [of _ "m # ms"]) simp
  qed
qed

section \<open>What is sent\<close>

definition wire_call :: "(json \<Rightarrow> string) \<Rightarrow> provider_tool_call \<Rightarrow> json" where
  "wire_call render call =
     json_map [(''id'', JString (ptc_call_id call)), (''type'', JString ''function''),
       (''function'', json_map [(''name'', JString (ptc_name call)), (''arguments'', JString (render (ptc_arguments call)))])]"

text \<open>The members a message has besides its identifier, its role and its content.\<close>

definition wire_extra :: "(json \<Rightarrow> string) \<Rightarrow> provider_message \<Rightarrow> (string \<times> json) list" where
  "wire_extra render m =
     (case pm_role m of
        MessageAssistant \<Rightarrow>
          (if pm_tool_calls m = [] then [] else [(''toolCalls'', JArray (map (wire_call render) (pm_tool_calls m)))])
      | MessageTool \<Rightarrow>
          [(''toolCallId'', JString (the (pm_tool_call_id m))), (''name'', JString (the (pm_tool_name m)))]
      | _ \<Rightarrow> [])"

fun role_name :: "provider_message_role \<Rightarrow> string" where
  "role_name MessageSystem = ''system''"
| "role_name MessageUser = ''user''"
| "role_name MessageAssistant = ''assistant''"
| "role_name MessageTool = ''tool''"

definition wire_message :: "(json \<Rightarrow> string) \<Rightarrow> string \<Rightarrow> nat \<Rightarrow> provider_message \<Rightarrow> json" where
  "wire_message render run k m =
     json_map ([(''id'', JString (''openbot:'' @ run @ '':message:'' @ show_nat k)), (''role'', JString (role_name (pm_role m)))]
       @ (if pm_role m = MessageAssistant \<and> pm_content m = [] then [] else [(''content'', JString (pm_content m))])
       @ wire_extra render m)"

definition wire_messages :: "(json \<Rightarrow> string) \<Rightarrow> string \<Rightarrow> provider_message list \<Rightarrow> json list" where
  "wire_messages render run ms = map (\<lambda>k. wire_message render run k (ms ! k)) [0..<length ms]"

definition tool_ok :: "provider_tool_definition \<Rightarrow> bool" where
  "tool_ok tool \<longleftrightarrow> is_ok (bounded_id (ptd_name tool)) \<and> is_ok (bounded_string (ptd_description tool))
     \<and> is_object (ptd_input_schema tool)"

definition wire_tool :: "provider_tool_definition \<Rightarrow> json" where
  "wire_tool tool = json_map [(''name'', JString (ptd_name tool)), (''description'', JString (ptd_description tool)),
     (''parameters'', ptd_input_schema tool)]"

definition wire_body ::
  "(json \<Rightarrow> string) \<Rightarrow> string \<Rightarrow> string \<Rightarrow> provider_message list \<Rightarrow> provider_tool_definition list \<Rightarrow> json
     \<Rightarrow> remote_resume option \<Rightarrow> json" where
  "wire_body render thread run messages tools forwarded resume =
     json_map ([(''threadId'', JString thread), (''runId'', JString run), (''state'', JObject []),
         (''messages'', JArray (wire_messages render run messages)), (''tools'', JArray (map wire_tool tools)),
         (''context'', JArray []), (''forwardedProps'', forwarded)]
       @ (case resume of None \<Rightarrow> []
          | Some r \<Rightarrow> [(''parentRunId'', JString (rr_parent_protocol_run_id r)), (''resume'', JArray (rr_wire_entries r))]))"

text \<open>What is asked of a request besides its conversation: a parent is named exactly for a resumption of it.\<close>

definition request_ok ::
  "string \<Rightarrow> string \<Rightarrow> provider_message list \<Rightarrow> provider_tool_definition list \<Rightarrow> json \<Rightarrow> string option
     \<Rightarrow> remote_resume option \<Rightarrow> bool" where
  "request_ok thread run messages tools forwarded parent resume \<longleftrightarrow>
     is_ok (bounded_id thread) \<and> is_ok (bounded_id run)
     \<and> (case resume of None \<Rightarrow> parent = None
        | Some r \<Rightarrow> rr_protocol_run_id r = run \<and> parent = Some (rr_parent_protocol_run_id r)
            \<and> is_ok (bounded_id (rr_parent_protocol_run_id r)))
     \<and> messages \<noteq> [] \<and> length messages \<le> max_agui_collection_items
     \<and> length tools \<le> 256 \<and> list_all tool_ok tools \<and> is_object forwarded"

lemma project_calls_wire:
  "try_fold (project_call render) (waiting, projected) calls = Ok (waiting', out) \<Longrightarrow>
   out = projected @ map (wire_call render) calls"
proof (induction calls arbitrary: waiting projected)
  case (Cons call calls)
  then obtain w where "project_call render (waiting, projected) call = Ok (w, projected @ [wire_call render call])"
    "try_fold (project_call render) (w, projected @ [wire_call render call]) calls = Ok (waiting', out)"
    unfolding try_fold_Cons_ok by (auto simp: project_call_def and_then_ok wire_call_def split: if_splits)
  with Cons.IH show ?case by fastforce
qed simp

lemma project_message_wire:
  assumes "project_message render run (waiting, projected) m = Ok (waiting', out)"
  shows "out = projected @ [wire_message render run (length projected) m]"
proof (cases "pm_role m")
  case MessageAssistant
  with assms show ?thesis
    by (auto simp: project_message_def and_then_ok Let_def wire_message_def wire_extra_def
        split: if_splits dest!: project_calls_wire)
qed (use assms in \<open>auto simp: project_message_def and_then_ok Let_def wire_message_def wire_extra_def
      split: if_splits option.splits\<close>)

lemma project_messages_wire:
  "try_fold (project_message render run) (waiting, projected) ms = Ok (waiting', out) \<Longrightarrow>
   out = projected @ map (\<lambda>k. wire_message render run (length projected + k) (ms ! k)) [0..<length ms]"
proof (induction ms arbitrary: waiting projected)
  case (Cons m ms)
  then obtain w where w: "try_fold (project_message render run)
      (w, projected @ [wire_message render run (length projected) m]) ms = Ok (waiting', out)"
    unfolding try_fold_Cons_ok using project_message_wire by fastforce
  have "map (\<lambda>k. wire_message render run (length projected + k) ((m # ms) ! k)) [0..<length (m # ms)]
    = wire_message render run (length projected) m
      # map (\<lambda>k. wire_message render run (Suc (length projected) + k) (ms ! k)) [0..<length ms]"
    by (simp add: upt_conv_Cons map_Suc_upt [symmetric] del: upt_Suc)
  with Cons.IH [OF w] show ?case by simp
qed simp

lemma project_tools_wire:
  "collect_results project_tool tools = Ok out \<longleftrightarrow> list_all tool_ok tools \<and> out = map wire_tool tools"
proof -
  have "project_tool tool = Ok v \<longleftrightarrow> tool_ok tool \<and> v = wire_tool tool" for tool v
    by (auto simp: project_tool_def and_then_ok tool_ok_def is_ok_unit wire_tool_def split: if_splits)
  then have "collect_results project_tool tools = Ok out \<longleftrightarrow> list_all2 (\<lambda>tool v. tool_ok tool \<and> v = wire_tool tool) tools out"
    by (simp add: collect_results_ok)
  also have "\<dots> \<longleftrightarrow> list_all tool_ok tools \<and> out = map wire_tool tools"
    by (induction tools arbitrary: out) (auto simp: list_all2_Cons1)
  finally show ?thesis .
qed

lemma paired_iff_accepted:
  "(\<exists>projected. try_fold (project_message render run) ([], []) messages = Ok ([], projected)) \<longleftrightarrow> paired messages"
  using paired_accepts accepts_paired [of "[]" messages] by (auto simp: project_messages_ok)

lemma void_ok: "void r = Ok () \<longleftrightarrow> is_ok r"
  by (cases r) simp_all

lemma conversation_projected:
  "try_fold (project_message render run) ([], []) messages = Ok ([], projected)
     \<longleftrightarrow> paired messages \<and> projected = wire_messages render run messages"
proof
  assume ok: "try_fold (project_message render run) ([], []) messages = Ok ([], projected)"
  then have "paired messages" using paired_iff_accepted by blast
  then show "paired messages \<and> projected = wire_messages render run messages"
    using project_messages_wire [OF ok] by (simp add: wire_messages_def)
next
  assume p: "paired messages \<and> projected = wire_messages render run messages"
  then obtain out where ok: "try_fold (project_message render run) ([], []) messages = Ok ([], out)"
    using paired_iff_accepted by blast
  with p show "try_fold (project_message render run) ([], []) messages = Ok ([], projected)"
    using project_messages_wire [OF ok] by (simp add: wire_messages_def)
qed

text \<open>C7: What may be sent to a remote agent, and what is sent. A request is encoded exactly when its
  identifiers are well formed, a parent run is named for a resumption of that very run and for nothing else,
  its sizes are within their limits, its tools are well formed, and its conversation is well paired: every
  call of an assistant turn, each with an identifier of its own, is answered once by a result that names it,
  before anything else is said, and no call is left unanswered. The body is then the rendering of exactly
  these messages, each once and in order, these tools, and the answers of the resumption, within 8 MiB.\<close>

theorem conversation_encoded_exactly_when_paired:
  "encode_run_agent_input_with_resume render thread run messages tools forwarded parent resume = Ok body \<longleftrightarrow>
     request_ok thread run messages tools forwarded parent resume \<and> paired messages
     \<and> body = render (wire_body render thread run messages tools forwarded resume) \<and> length body \<le> 8 * 1024 * 1024"
proof -
  let ?body = "wire_body render thread run messages tools forwarded resume"
  have resume: "(case parent of Some p \<Rightarrow> void (bounded_id p) | None \<Rightarrow> Ok ()) = Ok ()
      \<and> \<not> (some_and resume (\<lambda>r. rr_protocol_run_id r \<noteq> run \<or> Some (rr_parent_protocol_run_id r) \<noteq> parent)
        \<or> (parent \<noteq> None) \<noteq> (resume \<noteq> None))
    \<longleftrightarrow> (case resume of None \<Rightarrow> parent = None
        | Some r \<Rightarrow> rr_protocol_run_id r = run \<and> parent = Some (rr_parent_protocol_run_id r)
            \<and> is_ok (bounded_id (rr_parent_protocol_run_id r)))"
    by (cases resume; cases parent) (auto simp: some_and_def void_ok)
  have body: "json_map ([(''threadId'', JString thread), (''runId'', JString run), (''state'', JObject []),
        (''messages'', JArray (wire_messages render run messages)), (''tools'', JArray (map wire_tool tools)),
        (''context'', JArray []), (''forwardedProps'', forwarded)]
      @ opt_entry ''parentRunId'' (map_option JString parent)
      @ opt_entry ''resume'' (map_option (\<lambda>r. JArray (rr_wire_entries r)) resume)) = ?body"
    if "case resume of None \<Rightarrow> parent = None
        | Some r \<Rightarrow> rr_protocol_run_id r = run \<and> parent = Some (rr_parent_protocol_run_id r)
            \<and> is_ok (bounded_id (rr_parent_protocol_run_id r))"
    using that by (auto simp: wire_body_def opt_entry_def split: option.splits)
  show ?thesis
    unfolding encode_run_agent_input_with_resume_def and_then_ok if_err_ok Let_def split_paired_Ex prod.case
      project_tools_wire
    using resume body by (auto simp: request_ok_def is_ok_unit conversation_projected max_agui_run_input_bytes_def)
qed

end
