(* ===== verification/RemoteSession.thy ===== *)
theory RemoteSession
  imports AguiProtocol AguiInput Provider
begin

text \<open>
  The session of a remote agent, \<open>crates/openbot-agent/src/remote_provider.rs\<close>: the events of the AG-UI
  decoder become the events of a model provider. What the transport answers, one read after the other, is
  an argument; after the list the stream has ended.
\<close>

section \<open>State\<close>

definition max_remote_projection_events :: nat where "max_remote_projection_events = max_agui_collection_items"
definition max_remote_projection_session_bytes :: nat where "max_remote_projection_session_bytes = 8 * 1024 * 1024"

type_synonym remote_event = "(remote_projection, remote_interrupt_batch) provider_event"

record remote_session =
  rs_decoder :: agui_decoder
  rs_pending :: "remote_event list"
  rs_assistant_messages :: "string set"
  rs_completed_tools :: "(u32 \<times> string \<times> string \<times> json) list"
  rs_remote_tool_results :: "string set"
  rs_offered_tools :: "string list"
  rs_response_id :: string
  rs_protocol_run_id :: string
  rs_projection_count :: nat
  rs_projection_bytes :: nat
  rs_terminal :: bool
  rs_stream_ended :: bool

datatype remote_transport_error =
    DestinationRejected | TransportAuthentication | TransportRateLimited | TransportServerUnavailable
  | TransportUnavailable | TransportInvalidResponse | TransportStreamStalled | TransportCommitUnknown

section \<open>Accepting an event\<close>

definition session_fail :: "provider_failure \<Rightarrow> remote_session \<Rightarrow> remote_session" where
  "session_fail failure s = s\<lparr>rs_pending := [ProviderFailed failure], rs_terminal := True\<rparr>"

definition push_pending :: "remote_event \<Rightarrow> remote_session \<Rightarrow> remote_session" where
  "push_pending event s = s\<lparr>rs_pending := rs_pending s @ [event]\<rparr>"

definition push_projection ::
  "(json \<Rightarrow> nat) \<Rightarrow> remote_projection_kind \<Rightarrow> string option \<Rightarrow> string option \<Rightarrow> json \<Rightarrow> remote_session
     \<Rightarrow> bool \<times> remote_session" where
  "push_projection json_len kind untrusted_key untrusted_type untrusted_value s =
     (case remote_projection_new json_len kind untrusted_key untrusted_type untrusted_value of
        Inl _ \<Rightarrow> (False, session_fail InvalidResponse s)
      | Inr projection \<Rightarrow>
          let next_count = rs_projection_count s + 1;
              next_bytes = rs_projection_bytes s + rp_encoded_len projection
          in if next_count \<ge> 2 ^ 64 \<or> next_bytes \<ge> 2 ^ 64 then (False, session_fail InvalidResponse s)
             else if next_count > max_remote_projection_events \<or> next_bytes > max_remote_projection_session_bytes
             then (False, session_fail InvalidResponse s)
             else (True, push_pending (RemoteProjection projection)
               (s\<lparr>rs_projection_count := next_count, rs_projection_bytes := next_bytes\<rparr>)))"

definition session_project ::
  "(json \<Rightarrow> nat) \<Rightarrow> remote_projection_kind \<Rightarrow> string option \<Rightarrow> string option \<Rightarrow> json \<Rightarrow> remote_session \<Rightarrow> remote_session" where
  "session_project json_len kind untrusted_key untrusted_type untrusted_value s =
     snd (push_projection json_len kind untrusted_key untrusted_type untrusted_value s)"

text \<open>The calls are passed on in order; one that was not offered ends the session instead.\<close>

fun complete_calls :: "(u32 \<times> string \<times> string \<times> json) list \<Rightarrow> remote_session \<Rightarrow> remote_session" where
  "complete_calls [] s = (push_pending ProviderCompleted s)\<lparr>rs_terminal := True\<rparr>"
| "complete_calls ((index, call, name, arguments) # calls) s =
     (if name \<notin> set (rs_offered_tools s) then session_fail InvalidResponse s
      else if call \<in> rs_remote_tool_results s then complete_calls calls s
      else complete_calls calls (push_pending (ToolCallCompleted index call name arguments) s))"

definition session_complete :: "remote_session \<Rightarrow> remote_session" where
  "session_complete s = complete_calls (rs_completed_tools s) s"

definition u32_of_len :: "nat \<Rightarrow> u32" where
  "u32_of_len n = (if n < 2 ^ 32 then of_nat n else - 1)"

definition accept_tool_result ::
  "(json \<Rightarrow> nat) \<Rightarrow> string \<Rightarrow> string \<Rightarrow> string \<Rightarrow> remote_session \<Rightarrow> remote_session" where
  "accept_tool_result json_len message_id call content s =
     (if \<not> list_ex (\<lambda>(_, known, name, _). known = call \<and> name \<in> set (rs_offered_tools s)) (rs_completed_tools s)
         \<or> call \<in> rs_remote_tool_results s
      then session_fail InvalidResponse s
      else case push_projection json_len ProjectionToolResult (Some call) (Some message_id) (JString content) s of
          (True, s) \<Rightarrow> s\<lparr>rs_remote_tool_results := insert call (rs_remote_tool_results s)\<rparr>
        | (False, s) \<Rightarrow> s)"

definition accept_interrupts :: "(json \<Rightarrow> nat) \<Rightarrow> agui_interrupt list \<Rightarrow> remote_session \<Rightarrow> remote_session" where
  "accept_interrupts json_len interrupts s =
     (case and_then (collect_results (remote_interrupt_new json_len) interrupts)
        (remote_interrupt_batch_new json_len (rs_protocol_run_id s)) of
        Inr batch \<Rightarrow> (push_pending (Interrupted batch) s)\<lparr>rs_terminal := True\<rparr>
      | Inl _ \<Rightarrow> session_fail InvalidResponse s)"

definition accept_activity :: "(json \<Rightarrow> nat) \<Rightarrow> string \<Rightarrow> string \<Rightarrow> remote_session \<Rightarrow> remote_session" where
  "accept_activity json_len message_id activity_type s =
     (case activity_content message_id (rs_decoder s) of
        None \<Rightarrow> session_fail InvalidResponse s
      | Some content \<Rightarrow> session_project json_len ProjectionActivity (Some message_id) (Some activity_type) content s)"

fun session_accept :: "(json \<Rightarrow> nat) \<Rightarrow> agui_event \<Rightarrow> remote_session \<Rightarrow> remote_session" where
  "session_accept json_len AguiRunStarted s = push_pending (ResponseStarted (rs_response_id s)) s"
| "session_accept json_len (AguiTextStarted i role _) s =
     (if role = AguiAssistant then s\<lparr>rs_assistant_messages := insert i (rs_assistant_messages s)\<rparr> else s)"
| "session_accept json_len (AguiTextDelta i delta) s =
     (if i \<in> rs_assistant_messages s \<and> delta \<noteq> [] then push_pending (TextDelta 0 delta) s else s)"
| "session_accept json_len (AguiTextEnded i) s =
     s\<lparr>rs_assistant_messages := rs_assistant_messages s - {i}\<rparr>"
| "session_accept json_len (AguiReasoningDelta _ delta) s =
     (if delta \<noteq> [] then push_pending (ReasoningDelta 0 delta) s else s)"
| "session_accept json_len (AguiToolCompleted i name arguments) s =
     s\<lparr>rs_completed_tools := rs_completed_tools s @ [(u32_of_len (length (rs_completed_tools s)), i, name, arguments)]\<rparr>"
| "session_accept json_len (AguiToolResult message_id call content) s = accept_tool_result json_len message_id call content s"
| "session_accept json_len AguiRunFinished s = session_complete s"
| "session_accept json_len (AguiRunInterrupted interrupts) s = accept_interrupts json_len interrupts s"
| "session_accept json_len (AguiRunError _ _) s = session_fail GenerationFailed s"
| "session_accept json_len (AguiStepStarted name) s = session_project json_len ProjectionStepStarted (Some name) None JNull s"
| "session_accept json_len (AguiStepFinished name) s = session_project json_len ProjectionStepFinished (Some name) None JNull s"
| "session_accept json_len (AguiStateSnapshot _) s = session_project json_len ProjectionState None None (dec_state (rs_decoder s)) s"
| "session_accept json_len (AguiStateDelta _) s = session_project json_len ProjectionState None None (dec_state (rs_decoder s)) s"
| "session_accept json_len (AguiMessagesSnapshot messages) s =
     session_project json_len ProjectionMessages None None (JArray messages) s"
| "session_accept json_len (AguiActivitySnapshot i kind _ _) s = accept_activity json_len i kind s"
| "session_accept json_len (AguiActivityDelta i kind _) s = accept_activity json_len i kind s"
| "session_accept json_len (AguiRaw source event) s = session_project json_len ProjectionRaw source None event s"
| "session_accept json_len (AguiCustom name v) s = session_project json_len ProjectionCustom (Some name) None v s"
| "session_accept json_len (AguiToolStarted _ _ _) s = s"
| "session_accept json_len (AguiToolArguments _ _) s = s"
| "session_accept json_len (AguiReasoningStarted _) s = s"
| "session_accept json_len (AguiReasoningMessageStarted _) s = s"
| "session_accept json_len (AguiReasoningMessageEnded _) s = s"
| "session_accept json_len (AguiReasoningEnded _) s = s"
| "session_accept json_len (AguiReasoningEncrypted _ _ _) s = s"

primrec accept_all :: "(json \<Rightarrow> nat) \<Rightarrow> agui_event list \<Rightarrow> remote_session \<Rightarrow> remote_session" where
  "accept_all json_len [] s = s"
| "accept_all json_len (event # events) s =
     (if rs_terminal s then s else accept_all json_len events (session_accept json_len event s))"

section \<open>Reading\<close>

definition receive_data ::
  "(string \<Rightarrow> json option) \<Rightarrow> (json \<Rightarrow> nat) \<Rightarrow> string \<Rightarrow> remote_session \<Rightarrow> remote_session" where
  "receive_data parse json_len data s =
     (case ingest parse json_len data (rs_decoder s) of
        (Inl _, d) \<Rightarrow> session_fail InvalidResponse (s\<lparr>rs_decoder := d\<rparr>)
      | (Inr events, d) \<Rightarrow> accept_all json_len events (s\<lparr>rs_decoder := d\<rparr>))"

definition receive_end :: "(string \<Rightarrow> json option) \<Rightarrow> remote_session \<Rightarrow> remote_session" where
  "receive_end parse s =
     (case decoder_finish parse (rs_decoder s) of
        (Inl _, d) \<Rightarrow> session_fail InvalidResponse (s\<lparr>rs_stream_ended := True, rs_decoder := d\<rparr>)
      | (Inr _, d) \<Rightarrow> s\<lparr>rs_stream_ended := True, rs_decoder := d\<rparr>)"

fun receive_error :: "remote_transport_error \<Rightarrow> remote_session \<Rightarrow> (provider_port_error, remote_session) result" where
  "receive_error TransportStreamStalled s = Ok (session_fail StreamStalled s)"
| "receive_error TransportInvalidResponse s = Ok (session_fail InvalidResponse s)"
| "receive_error DestinationRejected s = Ok (session_fail InvalidResponse s)"
| "receive_error TransportAuthentication s = Ok (session_fail Authentication s)"
| "receive_error TransportRateLimited s = Ok (session_fail (RateLimited None) s)"
| "receive_error TransportServerUnavailable s = Ok (session_fail (ServerUnavailable None) s)"
| "receive_error TransportUnavailable s = Err Unavailable"
| "receive_error TransportCommitUnknown s = Err CommitUnknown"

type_synonym remote_reads = "(remote_transport_error, string) result list"

text \<open>\<open>next_event\<close>: what is pending first, then reads until something is, with the reads that are left.\<close>

function (sequential) session_next ::
  "(string \<Rightarrow> json option) \<Rightarrow> (json \<Rightarrow> nat) \<Rightarrow> remote_session \<Rightarrow> remote_reads
     \<Rightarrow> (provider_port_error, remote_event option) result \<times> remote_session \<times> remote_reads" where
  "session_next parse json_len s reads =
     (case rs_pending s of
        event # pending \<Rightarrow> (Ok (Some event), s\<lparr>rs_pending := pending\<rparr>, reads)
      | [] \<Rightarrow>
          if rs_terminal s \<or> rs_stream_ended s then (Ok None, s, reads)
          else case reads of
              [] \<Rightarrow> session_next parse json_len (receive_end parse s) []
            | Inr data # reads \<Rightarrow> session_next parse json_len (receive_data parse json_len data s) reads
            | Inl e # reads \<Rightarrow>
                (case receive_error e s of
                   Inl failure \<Rightarrow> (Err failure, s, reads)
                 | Inr s \<Rightarrow> session_next parse json_len s reads))"
  by pat_completeness auto
termination
  by (relation "measure (\<lambda>(_, _, s, reads). length reads + (if rs_stream_ended s then 0 else 1))")
    (auto simp: receive_end_def session_fail_def split: sum.splits prod.splits)

section \<open>Starting\<close>

record remote_agui_route =
  route_endpoint :: string
  route_thread_id :: string
  route_local_run_id :: string
  route_protocol_run_id :: string
  route_parent_protocol_run_id :: "string option"
  route_resume :: "remote_resume option"
  route_bot_id :: string
  route_run_assertion :: "string option"
  route_authorization :: "string option"

text \<open>The model a custom route names is all that is read of its binding.\<close>

datatype request_route = RequestPackageOpenAi | RequestManaged | RequestRemoteAgUi remote_agui_route | RequestCustomModel string

record provider_request =
  request_route :: request_route
  request_messages :: "provider_message list"
  request_tools :: "provider_tool_definition list"

definition message_has_secret :: "provider_message \<Rightarrow> bool" where
  "message_has_secret m \<longleftrightarrow> contains_known_secret (pm_content m)
     \<or> some_and (pm_tool_call_id m) contains_known_secret \<or> some_and (pm_tool_name m) contains_known_secret
     \<or> list_ex (\<lambda>call. contains_known_secret (ptc_call_id call) \<or> contains_known_secret (ptc_name call)
         \<or> value_contains_known_secret (ptc_arguments call)) (pm_tool_calls m)"

definition tool_has_secret :: "provider_tool_definition \<Rightarrow> bool" where
  "tool_has_secret t \<longleftrightarrow> contains_known_secret (ptd_name t) \<or> contains_known_secret (ptd_description t)
     \<or> value_contains_known_secret (ptd_input_schema t)"

fun route_has_secret :: "request_route \<Rightarrow> bool" where
  "route_has_secret (RequestRemoteAgUi route) \<longleftrightarrow>
     list_ex contains_known_secret
       [route_thread_id route, route_protocol_run_id route, route_local_run_id route, route_bot_id route]
     \<or> some_and (route_parent_protocol_run_id route) contains_known_secret
     \<or> some_and (route_resume route) (\<lambda>resume. list_ex value_contains_known_secret (rr_wire_entries resume))"
| "route_has_secret (RequestCustomModel model) \<longleftrightarrow> contains_known_secret model"
| "route_has_secret RequestPackageOpenAi \<longleftrightarrow> False"
| "route_has_secret RequestManaged \<longleftrightarrow> False"

definition validate_business_content :: "provider_request \<Rightarrow> (provider_port_error, unit) result" where
  "validate_business_content request =
     (if list_ex message_has_secret (request_messages request) \<or> list_ex tool_has_secret (request_tools request)
         \<or> route_has_secret (request_route request)
      then Err (InvalidRequest ''content_secret'') else Ok ())"

datatype started_session = OneRemoteEvent "remote_event option" | StartedRemote remote_session remote_reads

fun transport_failure :: "remote_transport_error \<Rightarrow> remote_event" where
  "transport_failure DestinationRejected = ProviderFailed InvalidResponse"
| "transport_failure TransportAuthentication = ProviderFailed Authentication"
| "transport_failure TransportRateLimited = ProviderFailed (RateLimited None)"
| "transport_failure TransportServerUnavailable = ProviderFailed (ServerUnavailable None)"
| "transport_failure TransportUnavailable = ProviderFailed (ServerUnavailable None)"
| "transport_failure TransportInvalidResponse = ProviderFailed InvalidResponse"
| "transport_failure TransportStreamStalled = ProviderFailed StreamStalled"
| "transport_failure TransportCommitUnknown = ProviderFailed Transport"

definition forwarded_props :: "remote_agui_route \<Rightarrow> provider_tool_definition list \<Rightarrow> json" where
  "forwarded_props route tools =
     json_map ([(''openbotBotId'', JString (route_bot_id route)),
         (''openbotDeploymentTools'', JArray (map (JString \<circ> ptd_name) tools))]
       @ opt_entry ''openbotRun'' (map_option JString (route_run_assertion route)))"

text \<open>The request that leaves the process: the endpoint, the authorization and the body.\<close>

definition remote_request ::
  "(json \<Rightarrow> string) \<Rightarrow> provider_request \<Rightarrow> (provider_port_error, remote_agui_route \<times> string) result" where
  "remote_request render request =
     and_then (validate_business_content request) (\<lambda>_.
       case request_route request of
         RequestRemoteAgUi route \<Rightarrow>
           if route_run_assertion route = None \<and> request_tools request \<noteq> []
           then Err (InvalidRequest ''remote_tool_assertion'')
           else (case encode_run_agent_input_with_resume render (route_thread_id route) (route_protocol_run_id route)
                 (request_messages request) (request_tools request)
                 (forwarded_props route (request_tools request)) (route_parent_protocol_run_id route)
                 (route_resume route) of
               Inl _ \<Rightarrow> Err (InvalidRequest ''remote_run_input'')
             | Inr body \<Rightarrow> Ok (route, body))
       | _ \<Rightarrow> Err (InvalidRequest ''remote_route''))"

definition remote_session_new ::
  "(json \<Rightarrow> string) \<Rightarrow> remote_agui_route \<Rightarrow> string list \<Rightarrow> (provider_port_error, remote_session) result" where
  "remote_session_new render route offered =
     (case decoder_new (length \<circ> render) (route_thread_id route) (route_protocol_run_id route) (JObject []) of
        Inl _ \<Rightarrow> Err (InvalidRequest ''remote_run_identity'')
      | Inr decoder \<Rightarrow> Ok \<lparr>rs_decoder = decoder, rs_pending = [], rs_assistant_messages = {}, rs_completed_tools = [],
          rs_remote_tool_results = {}, rs_offered_tools = offered,
          rs_response_id = ''remote-agui:'' @ route_protocol_run_id route,
          rs_protocol_run_id = route_protocol_run_id route, rs_projection_count = 0, rs_projection_bytes = 0,
          rs_terminal = False, rs_stream_ended = False\<rparr>)"

definition remote_start ::
  "(json \<Rightarrow> string) \<Rightarrow> (string \<Rightarrow> string option \<Rightarrow> string \<Rightarrow> (remote_transport_error, remote_reads) result)
     \<Rightarrow> provider_request \<Rightarrow> (provider_port_error, started_session) result" where
  "remote_start render transport request =
     and_then (remote_request render request) (\<lambda>(route, body).
       case transport (route_endpoint route) (route_authorization route) body of
         Inr reads \<Rightarrow>
           map_sum id (\<lambda>s. StartedRemote s reads) (remote_session_new render route (map ptd_name (request_tools request)))
       | Inl TransportUnavailable \<Rightarrow> Err Unavailable
       | Inl TransportCommitUnknown \<Rightarrow> Err CommitUnknown
       | Inl e \<Rightarrow> Ok (OneRemoteEvent (Some (transport_failure e))))"

declare session_next.simps [simp del]

section \<open>What a run is told\<close>

text \<open>Everything a session answers until it answers that there is nothing more, and how it stopped.\<close>

definition reads_left :: "remote_session \<Rightarrow> remote_reads \<Rightarrow> nat" where
  "reads_left s reads = length reads + (if rs_stream_ended s then 0 else 1)"

lemma receive_end_ended: "rs_stream_ended (receive_end parse s)"
  by (auto simp: receive_end_def session_fail_def split: sum.splits prod.splits)

lemma session_next_progress:
  "session_next parse json_len s reads = (Ok (Some event), s', reads') \<Longrightarrow>
   reads_left s' reads' < reads_left s reads
   \<or> reads_left s' reads' = reads_left s reads \<and> length (rs_pending s') < length (rs_pending s)"
proof (induction parse json_len s reads rule: session_next.induct)
  case (1 parse json_len s reads)
  show ?case
  proof (cases "rs_pending s")
    case (Cons e pending)
    with 1(4) show ?thesis by (auto simp: session_next.simps [of _ _ s] reads_left_def)
  next
    case Nil
    with 1(4) have open': "\<not> (rs_terminal s \<or> rs_stream_ended s)" by (auto simp: session_next.simps [of _ _ s])
    show ?thesis
    proof (cases reads)
      case Nil': Nil
      with Nil open' 1(4) have "session_next parse json_len (receive_end parse s) [] = (Ok (Some event), s', reads')"
        by (simp add: session_next.simps [of _ _ s])
      with 1(1) [OF Nil open' Nil'] open' Nil' show ?thesis by (auto simp: reads_left_def receive_end_ended)
    next
      case (Cons r rest)
      show ?thesis
      proof (cases r)
        case (Inl e)
        with Cons Nil open' 1(4) obtain t where t: "receive_error e s = Ok t"
          "session_next parse json_len t rest = (Ok (Some event), s', reads')"
          by (auto simp: session_next.simps [of _ _ s] split: sum.splits)
        from 1(2) [OF Nil open' Cons Inl t] Cons open' show ?thesis by (auto simp: reads_left_def split: if_splits)
      next
        case (Inr data)
        with Cons Nil open' 1(4) have
          "session_next parse json_len (receive_data parse json_len data s) rest = (Ok (Some event), s', reads')"
          by (simp add: session_next.simps [of _ _ s])
        from 1(3) [OF Nil open' Cons Inr this] Cons open' show ?thesis by (auto simp: reads_left_def split: if_splits)
      qed
    qed
  qed
qed

function session_events ::
  "(string \<Rightarrow> json option) \<Rightarrow> (json \<Rightarrow> nat) \<Rightarrow> remote_session \<Rightarrow> remote_reads
     \<Rightarrow> remote_event list \<times> provider_port_error option" where
  "session_events parse json_len s reads =
     (case session_next parse json_len s reads of
        (Inl e, _) \<Rightarrow> ([], Some e)
      | (Inr None, _) \<Rightarrow> ([], None)
      | (Inr (Some event), s, reads) \<Rightarrow>
          (let (events, stopped) = session_events parse json_len s reads in (event # events, stopped)))"
  by pat_completeness auto
termination
  by (relation "measures [\<lambda>(_, _, s, reads). reads_left s reads, \<lambda>(_, _, s, _). length (rs_pending s)]")
    (auto dest!: session_next_progress [OF sym])

declare session_events.simps [simp del]

text \<open>Events a run shows, calls it may act on, and how a session closes.\<close>

fun displayed :: "remote_event \<Rightarrow> bool" where
  "displayed (ResponseStarted _) \<longleftrightarrow> True"
| "displayed (TextDelta _ delta) \<longleftrightarrow> delta \<noteq> []"
| "displayed (ReasoningDelta _ delta) \<longleftrightarrow> delta \<noteq> []"
| "displayed (RemoteProjection _) \<longleftrightarrow> True"
| "displayed _ \<longleftrightarrow> False"

fun offered_call :: "string list \<Rightarrow> remote_event \<Rightarrow> bool" where
  "offered_call offered (ToolCallCompleted _ _ name _) \<longleftrightarrow> name \<in> set offered"
| "offered_call offered _ \<longleftrightarrow> False"

inductive session_closing :: "string list \<Rightarrow> remote_event list \<Rightarrow> bool" for offered where
  closing_failed: "session_closing offered [ProviderFailed f]"
| closing_interrupted: "session_closing offered [Interrupted batch]"
| closing_completed: "list_all (offered_call offered) calls \<Longrightarrow> session_closing offered (calls @ [ProviderCompleted])"
| closing_displayed: "displayed event \<Longrightarrow> session_closing offered events \<Longrightarrow> session_closing offered (event # events)"

lemma closing_tail: "session_closing offered (event # events) \<Longrightarrow> events = [] \<or> session_closing offered events"
proof (induction "event # events" arbitrary: event events rule: session_closing.induct)
  case (closing_completed calls)
  then show ?case by (cases calls) (auto intro: session_closing.intros)
qed auto

lemma closing_prefix: "list_all displayed events \<Longrightarrow> session_closing offered rest \<Longrightarrow> session_closing offered (events @ rest)"
  by (induction events) (auto intro: session_closing.intros)

definition projections :: "remote_event list \<Rightarrow> remote_projection list" where
  "projections events = List.map_filter (\<lambda>e. case e of RemoteProjection p \<Rightarrow> Some p | _ \<Rightarrow> None) events"

lemma projections_simps:
  "projections [] = []" "projections (xs @ ys) = projections xs @ projections ys"
  "projections (e # xs) = (case e of RemoteProjection p \<Rightarrow> p # projections xs | _ \<Rightarrow> projections xs)"
  by (auto simp: projections_def map_filter_def split: provider_event.splits)

text \<open>What of the two projection budgets has left the session.\<close>

definition delivered_count :: "remote_session \<Rightarrow> nat" where
  "delivered_count s = rs_projection_count s - length (projections (rs_pending s))"

definition delivered_bytes :: "remote_session \<Rightarrow> nat" where
  "delivered_bytes s = rs_projection_bytes s - sum_list (map rp_encoded_len (projections (rs_pending s)))"

definition budget_ok :: "remote_session \<Rightarrow> bool" where
  "budget_ok s \<longleftrightarrow>
     length (projections (rs_pending s)) \<le> rs_projection_count s
     \<and> rs_projection_count s \<le> max_remote_projection_events
     \<and> sum_list (map rp_encoded_len (projections (rs_pending s))) \<le> rs_projection_bytes s
     \<and> rs_projection_bytes s \<le> max_remote_projection_session_bytes"

text \<open>Between two reads.\<close>

definition pending_ok :: "remote_session \<Rightarrow> bool" where
  "pending_ok s \<longleftrightarrow> budget_ok s
     \<and> (if rs_terminal s then rs_pending s = [] \<or> session_closing (rs_offered_tools s) (rs_pending s)
        else list_all displayed (rs_pending s))"

definition later :: "remote_session \<Rightarrow> remote_session \<Rightarrow> bool" where
  "later s t \<longleftrightarrow> rs_offered_tools t = rs_offered_tools s \<and> rs_decoder t = rs_decoder s
     \<and> rs_stream_ended t = rs_stream_ended s
     \<and> delivered_count s \<le> delivered_count t \<and> delivered_bytes s \<le> delivered_bytes t"

lemma later_refl: "later s s"
  by (simp add: later_def)

lemma later_trans: "later s t \<Longrightarrow> later t u \<Longrightarrow> later s u"
  by (auto simp: later_def)

text \<open>An event accepted by a session that still runs.\<close>

definition accepted_ok :: "remote_session \<Rightarrow> remote_session \<Rightarrow> bool" where
  "accepted_ok s t \<longleftrightarrow> pending_ok t \<and> later s t \<and> (rs_terminal t \<longrightarrow> rs_pending t \<noteq> [])"

lemma session_fail_ok: "pending_ok s \<Longrightarrow> accepted_ok s (session_fail f s) \<and> rs_terminal (session_fail f s)"
  by (auto simp: accepted_ok_def pending_ok_def budget_ok_def later_def session_fail_def delivered_count_def
      delivered_bytes_def projections_simps intro: closing_failed)

lemma push_displayed_ok:
  assumes "pending_ok s" "\<not> rs_terminal s" "displayed event" "\<And>p. event \<noteq> RemoteProjection p"
  shows "accepted_ok s (push_pending event s) \<and> \<not> rs_terminal (push_pending event s)"
  using assms
  by (cases event) (auto simp: accepted_ok_def pending_ok_def budget_ok_def later_def push_pending_def
      delivered_count_def delivered_bytes_def projections_simps)

lemma push_projection_ok:
  assumes "pending_ok s" "\<not> rs_terminal s" "push_projection json_len kind k t v s = (b, u)"
  shows "accepted_ok s u \<and> (rs_terminal u \<longleftrightarrow> \<not> b)"
proof (cases "remote_projection_new json_len kind k t v")
  case (Inl e)
  with assms show ?thesis using session_fail_ok [OF assms(1), of InvalidResponse] by (auto simp: push_projection_def)
next
  case (Inr p)
  show ?thesis
  proof (cases b)
    case False
    with assms(3) Inr have "u = session_fail InvalidResponse s"
      by (auto simp: push_projection_def Let_def split: if_splits)
    with False session_fail_ok [OF assms(1), of InvalidResponse] show ?thesis by simp
  next
    case True
    with assms(3) Inr have "u = push_pending (RemoteProjection p)
        (s\<lparr>rs_projection_count := rs_projection_count s + 1,
           rs_projection_bytes := rs_projection_bytes s + rp_encoded_len p\<rparr>)"
      "rs_projection_count s + 1 \<le> max_remote_projection_events"
      "rs_projection_bytes s + rp_encoded_len p \<le> max_remote_projection_session_bytes"
      by (auto simp: push_projection_def Let_def split: if_splits)
    with True assms(1,2) show ?thesis
      by (auto simp: accepted_ok_def pending_ok_def budget_ok_def later_def push_pending_def delivered_count_def
          delivered_bytes_def projections_simps)
  qed
qed

fun finishing :: "agui_event \<Rightarrow> bool" where
  "finishing AguiRunFinished \<longleftrightarrow> True"
| "finishing (AguiRunInterrupted _) \<longleftrightarrow> True"
| "finishing (AguiRunError _ _) \<longleftrightarrow> True"
| "finishing _ \<longleftrightarrow> False"

lemma project_ok:
  "pending_ok s \<Longrightarrow> \<not> rs_terminal s \<Longrightarrow> accepted_ok s (session_project json_len kind k t v s)"
  unfolding session_project_def by (metis prod.collapse push_projection_ok)

lemma complete_calls_ok:
  assumes "pending_ok s" "\<not> rs_terminal s"
  shows "later s t \<Longrightarrow> budget_ok t \<Longrightarrow> \<not> rs_terminal t \<Longrightarrow> rs_pending t = rs_pending s @ calls
    \<Longrightarrow> list_all (offered_call (rs_offered_tools s)) calls
    \<Longrightarrow> accepted_ok s (complete_calls completed t) \<and> rs_terminal (complete_calls completed t)"
proof (induction completed t arbitrary: calls rule: complete_calls.induct)
  case (1 t)
  have "session_closing (rs_offered_tools s) (rs_pending s @ calls @ [ProviderCompleted])"
    using assms 1 by (intro closing_prefix closing_completed) (auto simp: pending_ok_def)
  with 1 show ?case
    by (auto simp: accepted_ok_def pending_ok_def budget_ok_def later_def push_pending_def delivered_count_def
        delivered_bytes_def projections_simps)
next
  case (2 index call name arguments completed t)
  have offered: "rs_offered_tools t = rs_offered_tools s" using 2(3) by (simp add: later_def)
  show ?case
  proof (cases "name \<notin> set (rs_offered_tools t)")
    case True
    then show ?thesis
      using 2(3,4) by (auto simp: accepted_ok_def pending_ok_def budget_ok_def later_def session_fail_def
          delivered_count_def delivered_bytes_def projections_simps intro: closing_failed)
  next
    case known: False
    show ?thesis
    proof (cases "call \<in> rs_remote_tool_results t")
      case True
      with known 2 show ?thesis by simp
    next
      case False
      let ?e = "ToolCallCompleted index call name arguments"
      have "accepted_ok s (complete_calls completed (push_pending ?e t)) \<and> rs_terminal (complete_calls completed (push_pending ?e t))"
      proof (rule 2(2) [of "calls @ [?e]"])
        show "later s (push_pending ?e t)" "budget_ok (push_pending ?e t)" "\<not> rs_terminal (push_pending ?e t)"
          "rs_pending (push_pending ?e t) = rs_pending s @ calls @ [?e]"
          using 2(3-6) by (auto simp: later_def push_pending_def budget_ok_def delivered_count_def
              delivered_bytes_def projections_simps)
        show "list_all (offered_call (rs_offered_tools s)) (calls @ [?e])" using 2(7) known offered by simp
      qed (use known False in auto)
      with known False show ?thesis by simp
    qed
  qed
qed

lemma session_complete_ok:
  "pending_ok s \<Longrightarrow> \<not> rs_terminal s \<Longrightarrow> accepted_ok s (session_complete s) \<and> rs_terminal (session_complete s)"
  unfolding session_complete_def by (rule complete_calls_ok [where calls = "[]"]) (auto simp: later_refl pending_ok_def)

lemma accept_tool_result_ok:
  assumes "pending_ok s" "\<not> rs_terminal s"
  shows "accepted_ok s (accept_tool_result json_len message_id call content s)"
proof -
  obtain b u where u: "push_projection json_len ProjectionToolResult (Some call) (Some message_id) (JString content) s = (b, u)"
    by fastforce
  have "accepted_ok s u" using push_projection_ok [OF assms u] by blast
  then have "accepted_ok s (u\<lparr>rs_remote_tool_results := results\<rparr>)" for results
    by (auto simp: accepted_ok_def pending_ok_def budget_ok_def later_def delivered_count_def delivered_bytes_def
        split: if_splits)
  with \<open>accepted_ok s u\<close> u session_fail_ok [OF assms(1)] show ?thesis
    by (auto simp: accept_tool_result_def split: bool.splits)
qed

lemma accept_interrupts_ok:
  assumes "pending_ok s" "\<not> rs_terminal s"
  shows "accepted_ok s (accept_interrupts json_len interrupts s) \<and> rs_terminal (accept_interrupts json_len interrupts s)"
proof -
  have "session_closing (rs_offered_tools s) (rs_pending s @ [Interrupted batch])" for batch
    using assms by (intro closing_prefix closing_interrupted) (auto simp: pending_ok_def)
  then have "accepted_ok s ((push_pending (Interrupted batch) s)\<lparr>rs_terminal := True\<rparr>)" for batch
    using assms by (auto simp: accepted_ok_def pending_ok_def budget_ok_def later_def push_pending_def
        delivered_count_def delivered_bytes_def projections_simps)
  with session_fail_ok [OF assms(1)] show ?thesis by (auto simp: accept_interrupts_def split: sum.splits)
qed

lemma accept_activity_ok:
  "pending_ok s \<Longrightarrow> \<not> rs_terminal s \<Longrightarrow> accepted_ok s (accept_activity json_len i kind s)"
  by (auto simp: accept_activity_def project_ok session_fail_ok split: option.splits)

lemma accepted_keeps:
  "pending_ok s \<Longrightarrow> \<not> rs_terminal s \<Longrightarrow> accepted_ok s s"
  "pending_ok s \<Longrightarrow> \<not> rs_terminal s \<Longrightarrow> accepted_ok s (s\<lparr>rs_assistant_messages := ids\<rparr>)"
  "pending_ok s \<Longrightarrow> \<not> rs_terminal s \<Longrightarrow> accepted_ok s (s\<lparr>rs_completed_tools := tools\<rparr>)"
  by (simp_all add: accepted_ok_def pending_ok_def budget_ok_def later_def delivered_count_def delivered_bytes_def)

lemma session_accept_ok:
  assumes "pending_ok s" "\<not> rs_terminal s"
  shows "accepted_ok s (session_accept json_len event s) \<and> (finishing event \<longrightarrow> rs_terminal (session_accept json_len event s))"
  using assms
  by (cases event)
    (auto simp: accepted_keeps push_displayed_ok project_ok session_complete_ok accept_tool_result_ok
      accept_interrupts_ok accept_activity_ok session_fail_ok)

lemma accept_all_ok:
  "pending_ok s \<Longrightarrow> \<not> rs_terminal s \<Longrightarrow>
   accepted_ok s (accept_all json_len events s) \<and> (list_ex finishing events \<longrightarrow> rs_terminal (accept_all json_len events s))"
proof (induction events arbitrary: s)
  case Nil
  then show ?case by (simp add: accepted_keeps)
next
  case (Cons event events)
  let ?t = "session_accept json_len event s"
  have t: "accepted_ok s ?t" "finishing event \<longrightarrow> rs_terminal ?t" using session_accept_ok Cons.prems by blast+
  show ?case
  proof (cases "rs_terminal ?t")
    case True
    then have "accept_all json_len events ?t = ?t" by (cases events) auto
    with True t Cons.prems show ?thesis by simp
  next
    case False
    then have "accepted_ok ?t (accept_all json_len events ?t)
        \<and> (list_ex finishing events \<longrightarrow> rs_terminal (accept_all json_len events ?t))"
      using t(1) by (intro Cons.IH) (simp_all add: accepted_ok_def)
    with t False Cons.prems show ?thesis by (auto simp: accepted_ok_def intro: later_trans)
  qed
qed

section \<open>One answer\<close>

lemma finishing_event:
  "protocol_run parse json_len p events = Some q \<Longrightarrow> \<not> p_finished p \<Longrightarrow> p_finished q \<Longrightarrow> list_ex finishing events"
proof (induction events arbitrary: p)
  case (Cons event events)
  then obtain r where r: "protocol_step parse json_len p event = Some r" "protocol_run parse json_len r events = Some q"
    by (auto simp: bind_eq_Some_conv)
  have "protocol_event parse json_len p event = Some r \<Longrightarrow> \<not> finishing event \<Longrightarrow> p_finished r = p_finished p"
    by (cases event) (auto simp: only_if_def split: if_splits option.splits sum.splits prod.splits)
  then have "finishing event \<or> \<not> p_finished r"
    using r(1) Cons.prems(2) by (auto simp: protocol_step_def only_if_some split: if_splits)
  with Cons r(2) show ?case by auto
qed simp

definition session_ok :: "remote_session \<Rightarrow> bool" where
  "session_ok s \<longleftrightarrow> pending_ok s
     \<and> (rs_terminal s \<or> decoder_ok (rs_decoder s) \<and> \<not> dec_terminal (rs_decoder s) \<and> \<not> rs_stream_ended s)"

text \<open>A later session of the same run.\<close>

definition follows :: "remote_session \<Rightarrow> remote_session \<Rightarrow> bool" where
  "follows s t \<longleftrightarrow> session_ok t \<and> rs_offered_tools t = rs_offered_tools s
     \<and> delivered_count s \<le> delivered_count t \<and> delivered_bytes s \<le> delivered_bytes t
     \<and> (rs_terminal t \<longrightarrow> rs_pending t \<noteq> [])"

lemma follows_failed: "session_ok s \<Longrightarrow> follows s (session_fail f s)"
  using session_fail_ok [of s f]
  by (auto simp: session_ok_def follows_def accepted_ok_def later_def)

lemma follows_with:
  "follows (s\<lparr>rs_decoder := d\<rparr>) t \<longleftrightarrow> follows s t"
  "follows (s\<lparr>rs_stream_ended := b\<rparr>) t \<longleftrightarrow> follows s t"
  by (simp_all add: follows_def delivered_count_def delivered_bytes_def)

lemma pending_ok_with:
  "pending_ok (s\<lparr>rs_decoder := d\<rparr>) \<longleftrightarrow> pending_ok s"
  "pending_ok (s\<lparr>rs_stream_ended := b\<rparr>) \<longleftrightarrow> pending_ok s"
  by (simp_all add: pending_ok_def budget_ok_def)

lemma fail_follows: "pending_ok s \<Longrightarrow> follows s (session_fail f s)"
  using session_fail_ok [of s f] by (auto simp: session_ok_def follows_def accepted_ok_def later_def)

lemma receive_data_ok:
  assumes "session_ok s" "\<not> rs_terminal s"
  shows "follows s (receive_data parse json_len data s)"
proof -
  obtain r d where i: "ingest parse json_len data (rs_decoder s) = (r, d)" by fastforce
  show ?thesis
  proof (cases r)
    case (Inl e)
    with i assms show ?thesis
      using fail_follows [of "s\<lparr>rs_decoder := d\<rparr>" InvalidResponse]
      by (simp add: receive_data_def follows_with pending_ok_with session_ok_def)
  next
    case (Inr events)
    let ?s = "s\<lparr>rs_decoder := d\<rparr>"
    have run: "protocol_run parse json_len (protocol_of (rs_decoder s)) events = Some (protocol_of d)" "decoder_ok d"
      using ingest_ok i Inr assms by (auto simp: session_ok_def)
    have a: "accepted_ok ?s (accept_all json_len events ?s)"
      "list_ex finishing events \<longrightarrow> rs_terminal (accept_all json_len events ?s)"
      using accept_all_ok [of ?s json_len events] assms by (auto simp: session_ok_def pending_ok_with)
    have "dec_terminal d \<Longrightarrow> list_ex finishing events"
      using finishing_event [OF run(1)] assms by (auto simp: protocol_of_def session_ok_def)
    with a run(2) assms have "follows ?s (accept_all json_len events ?s)"
      by (auto simp: follows_def session_ok_def accepted_ok_def later_def)
    with i Inr show ?thesis by (simp add: receive_data_def follows_with)
  qed
qed

lemma receive_end_ok:
  assumes "session_ok s" "\<not> rs_terminal s"
  shows "follows s (receive_end parse s) \<and> rs_terminal (receive_end parse s)"
proof -
  obtain r d where f: "decoder_finish parse (rs_decoder s) = (r, d)" by fastforce
  then have "r \<noteq> Ok events" for events
    using finish_complete [of "rs_decoder s" parse events] assms by (auto simp: session_ok_def)
  then obtain e where "r = Err e" by (cases r) auto
  with f assms show ?thesis
    using fail_follows [of "s\<lparr>rs_stream_ended := True, rs_decoder := d\<rparr>" InvalidResponse]
    by (simp add: receive_end_def follows_with pending_ok_with session_ok_def session_fail_def)
qed

lemma receive_error_ok: "session_ok s \<Longrightarrow> receive_error e s = Ok t \<Longrightarrow> follows s t"
  by (cases e) (auto simp: follows_failed)

text \<open>What one answer says, by the session it leaves.\<close>

definition answers_ok :: "remote_session \<Rightarrow> (provider_port_error, remote_event option) result \<Rightarrow> remote_session \<Rightarrow> bool" where
  "answers_ok s r t \<longleftrightarrow>
     (case r of
        Inr (Some event) \<Rightarrow>
          session_ok t \<and> rs_offered_tools t = rs_offered_tools s
          \<and> (if rs_terminal t then session_closing (rs_offered_tools s) (event # rs_pending t) else displayed event)
          \<and> (rs_terminal s \<longrightarrow> rs_terminal t \<and> rs_pending s = event # rs_pending t)
          \<and> delivered_count s + length (projections [event]) \<le> delivered_count t
          \<and> delivered_bytes s + sum_list (map rp_encoded_len (projections [event])) \<le> delivered_bytes t
      | Inr None \<Rightarrow> rs_terminal s \<and> rs_pending s = []
      | Inl _ \<Rightarrow> \<not> rs_terminal s)"

lemma projections_Cons: "projections (e # xs) = projections [e] @ projections xs"
  by (simp add: projections_simps split: provider_event.splits)

lemma answers_pop:
  assumes "session_ok s" "rs_pending s = event # rest"
  shows "answers_ok s (Ok (Some event)) (s\<lparr>rs_pending := rest\<rparr>)"
proof -
  have b: "budget_ok s" using assms(1) by (simp add: session_ok_def pending_ok_def)
  show ?thesis
  proof (cases "rs_terminal s")
    case True
    then have "session_closing (rs_offered_tools s) (event # rest)" using assms by (simp add: session_ok_def pending_ok_def)
    moreover from this have "rest = [] \<or> session_closing (rs_offered_tools s) rest" by (rule closing_tail)
    ultimately show ?thesis
      using True assms b
      by (auto simp: answers_ok_def session_ok_def pending_ok_def budget_ok_def delivered_count_def
          delivered_bytes_def projections_Cons [of event rest])
  next
    case False
    with assms b show ?thesis
      by (auto simp: answers_ok_def session_ok_def pending_ok_def budget_ok_def delivered_count_def
          delivered_bytes_def projections_Cons [of event rest])
  qed
qed

lemma answers_follow: "\<not> rs_terminal s \<Longrightarrow> follows s t \<Longrightarrow> answers_ok t r u \<Longrightarrow> answers_ok s r u"
  by (auto simp: answers_ok_def follows_def split: sum.splits option.splits)

lemma session_next_ok:
  "session_next parse json_len s reads = (r, t, reads') \<Longrightarrow> session_ok s \<Longrightarrow> answers_ok s r t"
proof (induction parse json_len s reads rule: session_next.induct)
  case (1 parse json_len s reads)
  note step = 1(4) [unfolded session_next.simps [of parse json_len s reads]]
  show ?case
  proof (cases "rs_pending s")
    case (Cons event rest)
    with step 1(5) answers_pop show ?thesis by auto
  next
    case Nil
    show ?thesis
    proof (cases "rs_terminal s \<or> rs_stream_ended s")
      case True
      with step Nil 1(5) show ?thesis by (auto simp: answers_ok_def session_ok_def)
    next
      case open': False
      then have live: "\<not> rs_terminal s" by simp
      show ?thesis
      proof (cases reads)
        case Nil': Nil
        with step Nil open' have "session_next parse json_len (receive_end parse s) [] = (r, t, reads')" by simp
        from 1(1) [OF Nil open' Nil' this] receive_end_ok [OF 1(5) live, of parse] live show ?thesis
          by (auto simp: follows_def intro: answers_follow)
      next
        case (Cons read rest)
        show ?thesis
        proof (cases read)
          case (Inl e)
          show ?thesis
          proof (cases "receive_error e s")
            case err: (Inl f)
            with step Nil open' Cons Inl live show ?thesis by (auto simp: answers_ok_def)
          next
            case ok: (Inr u)
            with step Nil open' Cons Inl have "session_next parse json_len u rest = (r, t, reads')" by simp
            from 1(2) [OF Nil open' Cons Inl ok this] receive_error_ok [OF 1(5) ok] live show ?thesis
              by (auto simp: follows_def intro: answers_follow)
          qed
        next
          case (Inr data)
          with step Nil open' Cons have
            "session_next parse json_len (receive_data parse json_len data s) rest = (r, t, reads')" by simp
          from 1(3) [OF Nil open' Cons Inr this] receive_data_ok [OF 1(5) live, of parse json_len data] live show ?thesis
            by (auto simp: follows_def intro: answers_follow)
        qed
      qed
    qed
  qed
qed

section \<open>The whole session\<close>

lemma session_new_ok:
  "remote_session_new render route offered = Ok s \<Longrightarrow>
   session_ok s \<and> rs_offered_tools s = offered \<and> \<not> rs_terminal s \<and> delivered_count s = 0 \<and> delivered_bytes s = 0"
  using decoder_new_ok [of "length \<circ> render" "route_thread_id route" "route_protocol_run_id route" "JObject []"]
  by (auto simp: remote_session_new_def decoder_new_def and_then_ok session_ok_def pending_ok_def budget_ok_def
      projections_simps delivered_count_def delivered_bytes_def split: sum.splits)

lemma delivered_bound:
  "session_ok s \<Longrightarrow> delivered_count s \<le> max_remote_projection_events
     \<and> delivered_bytes s \<le> max_remote_projection_session_bytes"
  by (auto simp: session_ok_def pending_ok_def budget_ok_def delivered_count_def delivered_bytes_def)

lemma session_events_ok:
  "session_events parse json_len s reads = (events, stopped) \<Longrightarrow> session_ok s \<Longrightarrow>
   (if rs_terminal s then events = rs_pending s \<and> stopped = None
    else if stopped = None then session_closing (rs_offered_tools s) events else list_all displayed events)
   \<and> delivered_count s + length (projections events) \<le> max_remote_projection_events
   \<and> delivered_bytes s + sum_list (map rp_encoded_len (projections events)) \<le> max_remote_projection_session_bytes"
proof (induction parse json_len s reads arbitrary: events rule: session_events.induct)
  case (1 parse json_len s reads)
  obtain r t reads' where n: "session_next parse json_len s reads = (r, t, reads')" by (metis surj_pair)
  note a = session_next_ok [OF n 1(3)]
  consider (err) e where "r = Err e" | (none) "r = Ok None" | (some) event where "r = Ok (Some event)"
    by (cases r; cases "projr r") auto
  then show ?case
  proof cases
    case (err e)
    with n a 1(2) delivered_bound [OF \<open>session_ok s\<close>] show ?thesis
      by (auto simp: session_events.simps [of parse json_len s] answers_ok_def projections_simps)
  next
    case none
    with n a \<open>session_events parse json_len s reads = _\<close> delivered_bound [OF \<open>session_ok s\<close>] show ?thesis
      by (auto simp: session_events.simps [of parse json_len s] answers_ok_def projections_simps)
  next
    case (some event)
    obtain rest where rest: "session_events parse json_len t reads' = (rest, stopped)" "events = event # rest"
      using \<open>session_events parse json_len s reads = _\<close> n some
      by (auto simp: session_events.simps [of parse json_len s] split: prod.splits)
    have t: "session_ok t" "rs_offered_tools t = rs_offered_tools s"
      using a some by (auto simp: answers_ok_def)
    have ih: "(if rs_terminal t then rest = rs_pending t \<and> stopped = None
        else if stopped = None then session_closing (rs_offered_tools t) rest else list_all displayed rest)
      \<and> delivered_count t + length (projections rest) \<le> max_remote_projection_events
      \<and> delivered_bytes t + sum_list (map rp_encoded_len (projections rest)) \<le> max_remote_projection_session_bytes"
      using "1.IH" [OF n [symmetric] some refl refl rest(1) t(1)] .
    with a some rest(2) t show ?thesis
      by (auto simp: answers_ok_def projections_Cons [of event rest] split: if_splits intro: closing_displayed)
  qed
qed

section \<open>What was told, by what was decoded\<close>

text \<open>The AG-UI events that the decoder reads off the transport, up to the first fault.\<close>

fun decoded ::
  "(string \<Rightarrow> json option) \<Rightarrow> (json \<Rightarrow> nat) \<Rightarrow> agui_decoder \<Rightarrow> remote_reads \<Rightarrow> agui_event list" where
  "decoded parse json_len d [] = []"
| "decoded parse json_len d (Inl e # reads) = []"
| "decoded parse json_len d (Inr data # reads) =
     (case ingest parse json_len data d of
        (Inl _, _) \<Rightarrow> []
      | (Inr events, d) \<Rightarrow> events @ decoded parse json_len d reads)"

text \<open>What of it is shown: the text of the messages an assistant has open, and the reasoning.\<close>

fun speaking :: "string set \<Rightarrow> agui_event \<Rightarrow> string set" where
  "speaking ids (AguiTextStarted i role _) = (if role = AguiAssistant then insert i ids else ids)"
| "speaking ids (AguiTextEnded i) = ids - {i}"
| "speaking ids _ = ids"

fun showing :: "string \<Rightarrow> string set \<Rightarrow> agui_event \<Rightarrow> remote_event list" where
  "showing response ids AguiRunStarted = [ResponseStarted response]"
| "showing response ids (AguiTextDelta i delta) = (if i \<in> ids \<and> delta \<noteq> [] then [TextDelta 0 delta] else [])"
| "showing response ids (AguiReasoningDelta _ delta) = (if delta \<noteq> [] then [ReasoningDelta 0 delta] else [])"
| "showing response ids _ = []"

primrec shown :: "string \<Rightarrow> string set \<Rightarrow> agui_event list \<Rightarrow> remote_event list" where
  "shown response ids [] = []"
| "shown response ids (event # events) = showing response ids event @ shown response (speaking ids event) events"

lemma shown_append:
  "shown response ids (xs @ ys) = shown response ids xs @ shown response (foldl speaking ids xs) ys"
  by (induction xs arbitrary: ids) simp_all

text \<open>The calls that were completed, numbered, and those the remote side has answered itself.\<close>

definition calls_made :: "agui_event list \<Rightarrow> (string \<times> string \<times> json) list" where
  "calls_made events =
     List.map_filter (\<lambda>e. case e of AguiToolCompleted i name arguments \<Rightarrow> Some (i, name, arguments) | _ \<Rightarrow> None) events"

definition answered_remotely :: "agui_event list \<Rightarrow> string set" where
  "answered_remotely events = {i. \<exists>message content. AguiToolResult message i content \<in> set events}"

definition numbered :: "(string \<times> string \<times> json) list \<Rightarrow> (u32 \<times> string \<times> string \<times> json) list" where
  "numbered calls = map (\<lambda>k. (u32_of_len k, calls ! k)) [0..<length calls]"

definition handed_on :: "agui_event list \<Rightarrow> remote_event list" where
  "handed_on events =
     map (\<lambda>(k, i, name, arguments). ToolCallCompleted k i name arguments)
       (filter (\<lambda>(k, i, name, arguments). i \<notin> answered_remotely events) (numbered (calls_made events)))"

definition calls_offered :: "string list \<Rightarrow> agui_event list \<Rightarrow> bool" where
  "calls_offered offered events \<longleftrightarrow> (\<forall>(i, name, arguments)\<in>set (calls_made events). name \<in> set offered)"

definition spoken :: "remote_event list \<Rightarrow> remote_event list" where
  "spoken events = filter (\<lambda>e. case e of RemoteProjection _ \<Rightarrow> False | _ \<Rightarrow> True) events"

definition run_interrupts ::
  "(json \<Rightarrow> nat) \<Rightarrow> string \<Rightarrow> agui_interrupt list \<Rightarrow> (remote_projection_error, remote_interrupt_batch) result" where
  "run_interrupts json_len run interrupts =
     and_then (collect_results (remote_interrupt_new json_len) interrupts) (remote_interrupt_batch_new json_len run)"

text \<open>What is shown as a projection.\<close>

fun projected :: "agui_event \<Rightarrow> bool" where
  "projected (AguiStepStarted _) \<longleftrightarrow> True"
| "projected (AguiStepFinished _) \<longleftrightarrow> True"
| "projected (AguiStateSnapshot _) \<longleftrightarrow> True"
| "projected (AguiStateDelta _) \<longleftrightarrow> True"
| "projected (AguiMessagesSnapshot _) \<longleftrightarrow> True"
| "projected (AguiActivitySnapshot _ _ _ _) \<longleftrightarrow> True"
| "projected (AguiActivityDelta _ _ _) \<longleftrightarrow> True"
| "projected (AguiRaw _ _) \<longleftrightarrow> True"
| "projected (AguiCustom _ _) \<longleftrightarrow> True"
| "projected _ \<longleftrightarrow> False"

text \<open>
  How a session may have closed on the events \<open>evs\<close>, with \<open>left\<close> decoded after them: all it said follows
  from \<open>evs\<close>. It has failed because nothing more could be decoded, or at an event that may fail: one that is
  projected, the end of a run with a call of a tool not offered, an interrupt that is not well formed, or an
  error that the agent reports. Or it waits for a human, or it has completed.
\<close>

fun may_fail ::
  "(json \<Rightarrow> nat) \<Rightarrow> string \<Rightarrow> string list \<Rightarrow> agui_event list \<Rightarrow> agui_event \<Rightarrow> provider_failure \<Rightarrow> bool" where
  "may_fail json_len run offered evs AguiRunFinished failure \<longleftrightarrow> \<not> calls_offered offered evs"
| "may_fail json_len run offered evs (AguiRunInterrupted interrupts) failure \<longleftrightarrow>
     \<not> is_ok (run_interrupts json_len run interrupts)"
| "may_fail json_len run offered evs (AguiRunError _ _) failure \<longleftrightarrow> failure = GenerationFailed"
| "may_fail json_len run offered evs (AguiToolResult _ _ _) failure \<longleftrightarrow> True"
| "may_fail json_len run offered evs e failure \<longleftrightarrow> projected e"

inductive closed_after ::
  "(json \<Rightarrow> nat) \<Rightarrow> string \<Rightarrow> string \<Rightarrow> string list \<Rightarrow> agui_event list \<Rightarrow> agui_event list \<Rightarrow> remote_event list \<Rightarrow> bool"
  for json_len response run offered where
  after_failure:
    "said @ unsaid = shown response {} evs
     \<Longrightarrow> (if evs \<noteq> [] \<and> finishing (last evs) then may_fail json_len run offered evs (last evs) failure
          else left = [] \<or> evs \<noteq> [] \<and> may_fail json_len run offered evs (last evs) failure)
     \<Longrightarrow> closed_after json_len response run offered evs left (said @ [ProviderFailed failure])"
| after_interrupts:
    "evs \<noteq> [] \<Longrightarrow> last evs = AguiRunInterrupted interrupts
     \<Longrightarrow> run_interrupts json_len run interrupts = Ok batch
     \<Longrightarrow> closed_after json_len response run offered evs left (shown response {} evs @ [Interrupted batch])"
| after_finish:
    "evs \<noteq> [] \<Longrightarrow> last evs = AguiRunFinished \<Longrightarrow> calls_offered offered evs
     \<Longrightarrow> closed_after json_len response run offered evs left
       (shown response {} evs @ handed_on evs @ [ProviderCompleted])"

text \<open>A session between two answers: what was delivered (\<open>said\<close>) and what is pending come from \<open>evs\<close>.\<close>

definition tells ::
  "(json \<Rightarrow> nat) \<Rightarrow> string \<Rightarrow> string \<Rightarrow> string list \<Rightarrow> agui_event list \<Rightarrow> agui_event list
     \<Rightarrow> remote_event list \<Rightarrow> remote_session \<Rightarrow> bool" where
  "tells json_len response run offered evs left said s \<longleftrightarrow>
     (if rs_terminal s then closed_after json_len response run offered evs left (said @ spoken (rs_pending s))
      else said @ spoken (rs_pending s) = shown response {} evs
        \<and> rs_assistant_messages s = foldl speaking {} evs
        \<and> rs_completed_tools s = numbered (calls_made evs)
        \<and> rs_remote_tool_results s = answered_remotely evs
        \<and> rs_offered_tools s = offered \<and> rs_response_id s = response \<and> rs_protocol_run_id s = run
        \<and> \<not> list_ex finishing evs)"

lemma spoken_simps [simp]:
  "spoken [] = []" "spoken (xs @ ys) = spoken xs @ spoken ys"
  "spoken (e # xs) = (case e of RemoteProjection p \<Rightarrow> spoken xs | _ \<Rightarrow> e # spoken xs)"
  by (simp_all add: spoken_def split: provider_event.splits)

lemma calls_made_snoc:
  "calls_made (evs @ [e]) = calls_made evs
     @ (case e of AguiToolCompleted i name arguments \<Rightarrow> [(i, name, arguments)] | _ \<Rightarrow> [])"
  by (simp add: calls_made_def map_filter_def split: agui_event.splits)

lemma numbered_snoc: "numbered (calls @ [c]) = numbered calls @ [(u32_of_len (length calls), c)]"
  by (simp add: numbered_def nth_append)

lemma length_numbered [simp]: "length (numbered calls) = length calls"
  by (simp add: numbered_def)

lemma answered_snoc:
  "answered_remotely (evs @ [e]) =
     answered_remotely evs \<union> (case e of AguiToolResult message i content \<Rightarrow> {i} | _ \<Rightarrow> {})"
  by (auto simp: answered_remotely_def split: agui_event.splits)

lemma snd_numbered: "snd ` set (numbered calls) = set calls"
  by (force simp: numbered_def in_set_conv_nth)

text \<open>Completing hands on the calls that were not answered remotely, or fails for one not offered.\<close>

definition all_offered :: "string list \<Rightarrow> (u32 \<times> string \<times> string \<times> json) list \<Rightarrow> bool" where
  "all_offered offered completed \<longleftrightarrow> list_all (\<lambda>(k, i, name, arguments). name \<in> set offered) completed"

lemma complete_calls_offered:
  "all_offered (rs_offered_tools s) completed \<Longrightarrow>
   complete_calls completed s = s\<lparr>rs_pending := rs_pending s
       @ map (\<lambda>(k, i, name, arguments). ToolCallCompleted k i name arguments)
           (filter (\<lambda>(k, i, name, arguments). i \<notin> rs_remote_tool_results s) completed)
       @ [ProviderCompleted], rs_terminal := True\<rparr>"
  by (induction completed s rule: complete_calls.induct) (simp_all add: push_pending_def all_offered_def)

lemma complete_calls_refused:
  "\<not> all_offered (rs_offered_tools s) completed \<Longrightarrow>
   rs_pending (complete_calls completed s) = [ProviderFailed InvalidResponse]"
  by (induction completed s rule: complete_calls.induct)
    (simp_all add: push_pending_def session_fail_def all_offered_def)

lemma complete_calls_terminal: "rs_terminal (complete_calls completed s)"
  by (induction completed s rule: complete_calls.induct) (simp_all add: session_fail_def)

lemma all_offered_numbered: "all_offered offered (numbered (calls_made evs)) \<longleftrightarrow> calls_offered offered evs"
proof -
  have "all_offered offered (numbered (calls_made evs))
      \<longleftrightarrow> (\<forall>(i, name, arguments)\<in>snd ` set (numbered (calls_made evs)). name \<in> set offered)"
    by (auto simp: all_offered_def list_all_iff)
  then show ?thesis by (simp add: calls_offered_def snd_numbered)
qed

lemma spoken_calls:
  "spoken (map (\<lambda>(k, i, name, arguments). ToolCallCompleted k i name arguments) calls)
    = map (\<lambda>(k, i, name, arguments). ToolCallCompleted k i name arguments) calls"
  by (induction calls) auto

text \<open>A failure is a way to close, unless the run has ended in another way.\<close>

lemma tells_failed:
  assumes "tells json_len response run offered evs left said s" "\<not> rs_terminal s"
  shows "projected e \<or> (\<exists>message call content. e = AguiToolResult message call content)
      \<Longrightarrow> tells json_len response run offered (evs @ [e]) left' said (session_fail f s)"
    and "tells json_len response run offered evs [] said (session_fail f s)"
proof -
  have told: "said @ spoken (rs_pending s) = shown response {} evs" using assms by (simp add: tells_def)
  then have "said @ (spoken (rs_pending s) @ showing response (foldl speaking {} evs) e) = shown response {} (evs @ [e])"
    by (simp add: shown_append flip: append_assoc)
  then show "tells json_len response run offered (evs @ [e]) left' said (session_fail f s)"
    if "projected e \<or> (\<exists>message call content. e = AguiToolResult message call content)"
    using that by (cases e) (auto simp: tells_def session_fail_def intro!: after_failure)
  have "evs \<noteq> [] \<Longrightarrow> \<not> finishing (last evs)" using assms by (auto simp: tells_def list_ex_iff)
  with told show "tells json_len response run offered evs [] said (session_fail f s)"
    by (auto simp: tells_def session_fail_def intro!: after_failure)
qed

lemma tells_projection:
  assumes "tells json_len response run offered evs left said s" "\<not> rs_terminal s"
    and "projected e \<or> (\<exists>message call content. e = AguiToolResult message call content)"
    and "push_projection json_len kind k t v s = (b, u)"
  shows "if b then u = s\<lparr>rs_pending := rs_pending u, rs_projection_count := rs_projection_count u,
             rs_projection_bytes := rs_projection_bytes u\<rparr> \<and> spoken (rs_pending u) = spoken (rs_pending s)
         else tells json_len response run offered (evs @ [e]) left' said u"
  using assms(4) tells_failed(1) [OF assms(1-3), of left']
  by (auto simp: push_projection_def push_pending_def Let_def split: sum.splits if_splits)

lemma tells_project:
  assumes "tells json_len response run offered evs left said s" "\<not> rs_terminal s" "projected e"
  shows "tells json_len response run offered (evs @ [e]) left' said (session_project json_len kind k t v s)"
proof -
  obtain b u where u: "push_projection json_len kind k t v s = (b, u)" by fastforce
  note p = tells_projection [OF assms(1,2) disjI1 [OF assms(3)] u, of left']
  show ?thesis
  proof (cases b)
    case True
    with p have u': "u = s\<lparr>rs_pending := rs_pending u,
        rs_projection_count := rs_projection_count u, rs_projection_bytes := rs_projection_bytes u\<rparr>"
      "spoken (rs_pending u) = spoken (rs_pending s)" by simp_all
    have "tells json_len response run offered (evs @ [e]) left' said (s\<lparr>rs_pending := rs_pending u,
        rs_projection_count := rs_projection_count u, rs_projection_bytes := rs_projection_bytes u\<rparr>)"
      using assms u'(2) by (cases e) (simp_all add: tells_def shown_append calls_made_snoc answered_snoc)
    with u u'(1) show ?thesis by (simp add: session_project_def)
  qed (use p u in \<open>simp add: session_project_def\<close>)
qed

lemma tells_tool_result:
  assumes "tells json_len response run offered evs left said s" "\<not> rs_terminal s"
  shows "tells json_len response run offered (evs @ [AguiToolResult message call content]) left' said
    (accept_tool_result json_len message call content s)"
proof -
  let ?e = "AguiToolResult message call content"
  obtain b u where u: "push_projection json_len ProjectionToolResult (Some call) (Some message) (JString content) s = (b, u)"
    by fastforce
  have e: "projected ?e \<or> (\<exists>message call content. ?e = AguiToolResult message call content)" by simp
  note p = tells_projection [OF assms e u, of left'] and f = tells_failed(1) [OF assms e, of left']
  show ?thesis
  proof (cases b)
    case True
    with p have u': "u = s\<lparr>rs_pending := rs_pending u, rs_projection_count := rs_projection_count u,
        rs_projection_bytes := rs_projection_bytes u\<rparr>" "spoken (rs_pending u) = spoken (rs_pending s)" by simp_all
    have "tells json_len response run offered (evs @ [?e]) left' said
      (s\<lparr>rs_pending := rs_pending u, rs_projection_count := rs_projection_count u,
         rs_projection_bytes := rs_projection_bytes u, rs_remote_tool_results := insert call (rs_remote_tool_results s)\<rparr>)"
      using assms u'(2) by (simp add: tells_def shown_append calls_made_snoc answered_snoc)
    moreover have "u\<lparr>rs_remote_tool_results := insert call (rs_remote_tool_results u)\<rparr>
      = s\<lparr>rs_pending := rs_pending u, rs_projection_count := rs_projection_count u,
         rs_projection_bytes := rs_projection_bytes u, rs_remote_tool_results := insert call (rs_remote_tool_results s)\<rparr>"
      using arg_cong [OF u'(1), of "\<lambda>s. s\<lparr>rs_remote_tool_results := insert call (rs_remote_tool_results s)\<rparr>"] by simp
    ultimately show ?thesis
      using True u f by (simp add: accept_tool_result_def)
  qed (use p u f in \<open>simp add: accept_tool_result_def\<close>)
qed

lemma tells_finished:
  assumes "tells json_len response run offered evs left said s" "\<not> rs_terminal s"
  shows "tells json_len response run offered (evs @ [AguiRunFinished]) left' said (session_complete s)"
proof -
  let ?evs = "evs @ [AguiRunFinished]"
  have told: "said @ spoken (rs_pending s) = shown response {} evs"
    and completed: "rs_completed_tools s = numbered (calls_made ?evs)"
    and results: "rs_remote_tool_results s = answered_remotely ?evs" and off: "rs_offered_tools s = offered"
    using assms by (simp_all add: tells_def calls_made_snoc answered_snoc)
  have same: "shown response {} ?evs = shown response {} evs" by (simp add: shown_append)
  show ?thesis
  proof (cases "calls_offered offered ?evs")
    case True
    then have all: "all_offered (rs_offered_tools s) (rs_completed_tools s)"
      by (simp add: completed off all_offered_numbered)
    have "session_complete s = s\<lparr>rs_pending := rs_pending s @ handed_on ?evs @ [ProviderCompleted], rs_terminal := True\<rparr>"
      using complete_calls_offered [OF all] by (simp add: session_complete_def handed_on_def completed results)
    moreover have "spoken (handed_on ?evs) = handed_on ?evs" by (simp add: handed_on_def spoken_calls)
    ultimately have "said @ spoken (rs_pending (session_complete s)) = shown response {} ?evs @ handed_on ?evs @ [ProviderCompleted]"
      "rs_terminal (session_complete s)" using told same by simp_all
    moreover have "closed_after json_len response run offered ?evs left'
        (shown response {} ?evs @ handed_on ?evs @ [ProviderCompleted])"
      using True by (intro after_finish) simp_all
    ultimately show ?thesis by (simp add: tells_def)
  next
    case False
    then have none: "\<not> all_offered (rs_offered_tools s) (rs_completed_tools s)"
      by (simp add: completed off all_offered_numbered)
    have "closed_after json_len response run offered ?evs left' (said @ [ProviderFailed InvalidResponse])"
      using told same False by (intro after_failure [where unsaid = "spoken (rs_pending s)"]) simp_all
    then show ?thesis
      using complete_calls_refused [OF none] by (simp add: tells_def session_complete_def complete_calls_terminal)
  qed
qed

lemma tells_interrupted:
  assumes "tells json_len response run offered evs left said s" "\<not> rs_terminal s"
  shows "tells json_len response run offered (evs @ [AguiRunInterrupted interrupts]) left' said (accept_interrupts json_len interrupts s)"
proof -
  let ?evs = "evs @ [AguiRunInterrupted interrupts]"
  have told: "said @ spoken (rs_pending s) = shown response {} ?evs" and run: "rs_protocol_run_id s = run"
    using assms by (simp_all add: tells_def shown_append)
  show ?thesis
  proof (cases "run_interrupts json_len run interrupts")
    case (Inl e)
    have "closed_after json_len response run offered ?evs left' (said @ [ProviderFailed InvalidResponse])"
      using told Inl by (intro after_failure) (simp_all add: is_ok_iff)
    with Inl run show ?thesis by (simp add: tells_def accept_interrupts_def run_interrupts_def session_fail_def)
  next
    case (Inr batch)
    have "closed_after json_len response run offered ?evs left' (shown response {} ?evs @ [Interrupted batch])"
      using Inr by (intro after_interrupts) simp_all
    with Inr run told show ?thesis
      by (simp add: tells_def accept_interrupts_def run_interrupts_def push_pending_def flip: append_assoc)
  qed
qed

lemma tells_error:
  assumes "tells json_len response run offered evs left said s" "\<not> rs_terminal s"
  shows "tells json_len response run offered (evs @ [AguiRunError code message]) left' said (session_fail GenerationFailed s)"
proof -
  have "said @ spoken (rs_pending s) = shown response {} (evs @ [AguiRunError code message])"
    using assms by (simp add: tells_def shown_append)
  then show ?thesis by (auto simp: tells_def session_fail_def intro!: after_failure)
qed

lemma tells_activity:
  "tells json_len response run offered evs left said s \<Longrightarrow> \<not> rs_terminal s \<Longrightarrow> projected e \<Longrightarrow>
   tells json_len response run offered (evs @ [e]) left' said (accept_activity json_len i kind s)"
  using tells_failed(1) [of json_len response run offered evs left said s e left']
  by (cases e) (auto simp: accept_activity_def tells_project split: option.splits)

lemma tells_accept:
  assumes "tells json_len response run offered evs left said s" "\<not> rs_terminal s"
  shows "tells json_len response run offered (evs @ [e]) left' said (session_accept json_len e s)"
  using assms
  by (cases e)
    (simp_all add: tells_project tells_tool_result tells_finished tells_interrupted tells_error tells_activity,
     auto simp: tells_def shown_append calls_made_snoc answered_snoc numbered_snoc push_pending_def)

lemma tells_accept_all:
  "tells json_len response run offered evs (events @ rest) said s \<Longrightarrow>
   \<exists>new left. events @ rest = new @ left
     \<and> tells json_len response run offered (evs @ new) left said (accept_all json_len events s)
     \<and> (\<not> rs_terminal (accept_all json_len events s) \<longrightarrow> left = rest)"
proof (induction events arbitrary: evs s)
  case (Cons e events)
  show ?case
  proof (cases "rs_terminal s")
    case True
    with Cons.prems show ?thesis by (intro exI [of _ "[]"] exI [of _ "(e # events) @ rest"]) simp
  next
    case False
    from Cons.IH [OF tells_accept [OF Cons.prems False, of e]]
    obtain new left where "events @ rest = new @ left"
      "tells json_len response run offered ((evs @ [e]) @ new) left said (accept_all json_len events (session_accept json_len e s))"
      "\<not> rs_terminal (accept_all json_len events (session_accept json_len e s)) \<longrightarrow> left = rest" by blast
    with False show ?thesis by (intro exI [of _ "e # new"] exI [of _ left]) simp
  qed
qed (intro exI [of _ "[]"] exI [of _ rest], simp)

lemma tells_with [simp]:
  "tells json_len response run offered evs left said (s\<lparr>rs_decoder := d\<rparr>) \<longleftrightarrow> tells json_len response run offered evs left said s"
  "tells json_len response run offered evs left said (s\<lparr>rs_stream_ended := b\<rparr>) \<longleftrightarrow> tells json_len response run offered evs left said s"
  by (simp_all add: tells_def)

lemma projection_decoder: "push_projection json_len kind k t v s = (b, u) \<Longrightarrow> rs_decoder u = rs_decoder s"
  by (auto simp: push_projection_def session_fail_def push_pending_def Let_def split: sum.splits if_splits)

lemma project_decoder: "rs_decoder (session_project json_len kind k t v s) = rs_decoder s"
  unfolding session_project_def by (metis prod.collapse projection_decoder)

lemma complete_calls_decoder: "rs_decoder (complete_calls completed s) = rs_decoder s"
  by (induction completed s rule: complete_calls.induct) (simp_all add: session_fail_def push_pending_def)

lemma accept_decoder: "rs_decoder (session_accept json_len e s) = rs_decoder s"
  by (cases e)
    (auto simp: session_complete_def complete_calls_decoder project_decoder accept_tool_result_def accept_interrupts_def
      accept_activity_def session_fail_def push_pending_def split: sum.splits prod.splits bool.splits option.splits
      dest: projection_decoder)

lemma accept_all_decoder: "rs_decoder (accept_all json_len events s) = rs_decoder s"
  by (induction events arbitrary: s) (simp_all add: accept_decoder)

text \<open>Where a session stands in all the events that its reads are decoded to.\<close>

definition stands ::
  "(string \<Rightarrow> json option) \<Rightarrow> (json \<Rightarrow> nat) \<Rightarrow> string \<Rightarrow> string \<Rightarrow> string list \<Rightarrow> agui_event list \<Rightarrow> remote_event list
     \<Rightarrow> remote_session \<Rightarrow> remote_reads \<Rightarrow> bool" where
  "stands parse json_len response run offered all said s reads \<longleftrightarrow>
     (\<exists>evs left. all = evs @ left \<and> tells json_len response run offered evs left said s
       \<and> (\<not> rs_terminal s \<longrightarrow> left = decoded parse json_len (rs_decoder s) reads))"

lemma stands_failed:
  assumes "stands parse json_len response run offered all said s reads" "\<not> rs_terminal s"
    and "decoded parse json_len (rs_decoder s) reads = []"
  shows "stands parse json_len response run offered all said (session_fail f s) reads'"
proof -
  have "tells json_len response run offered all [] said s" using assms by (auto simp: stands_def)
  then have "tells json_len response run offered all [] said (session_fail f s)" using assms(2) by (rule tells_failed(2))
  then show ?thesis by (auto simp: stands_def session_fail_def)
qed

lemma stands_with:
  "rs_terminal s \<Longrightarrow> stands parse json_len response run offered all said (s\<lparr>rs_decoder := d\<rparr>) reads
     = stands parse json_len response run offered all said s reads"
  "stands parse json_len response run offered all said (s\<lparr>rs_stream_ended := b\<rparr>) reads
     = stands parse json_len response run offered all said s reads"
  by (simp_all add: stands_def)

lemma session_fail_with:
  "session_fail f (s\<lparr>rs_decoder := d\<rparr>) = (session_fail f s)\<lparr>rs_decoder := d\<rparr>"
  "session_fail f (s\<lparr>rs_stream_ended := b\<rparr>) = (session_fail f s)\<lparr>rs_stream_ended := b\<rparr>"
  "rs_terminal (session_fail f s)"
  by (simp_all add: session_fail_def)

lemma stands_receive_data:
  assumes "stands parse json_len response run offered all said s (Ok data # reads)" "\<not> rs_terminal s"
  shows "stands parse json_len response run offered all said (receive_data parse json_len data s) reads"
proof -
  obtain r d where i: "ingest parse json_len data (rs_decoder s) = (r, d)" by fastforce
  show ?thesis
  proof (cases r)
    case (Inl e)
    with i have "decoded parse json_len (rs_decoder s) (Ok data # reads) = []" by simp
    from stands_failed [OF assms this] i Inl show ?thesis
      by (simp add: receive_data_def session_fail_with stands_with)
  next
    case (Inr events)
    let ?s = "s\<lparr>rs_decoder := d\<rparr>"
    obtain evs where "all = evs @ events @ decoded parse json_len d reads"
      "tells json_len response run offered evs (events @ decoded parse json_len d reads) said ?s"
      using assms i Inr by (auto simp: stands_def)
    moreover from tells_accept_all [OF this(2)] obtain new left where
      "events @ decoded parse json_len d reads = new @ left"
      "tells json_len response run offered (evs @ new) left said (accept_all json_len events ?s)"
      "\<not> rs_terminal (accept_all json_len events ?s) \<longrightarrow> left = decoded parse json_len d reads" by blast
    ultimately have "stands parse json_len response run offered all said (accept_all json_len events ?s) reads"
      unfolding stands_def by (intro exI [of _ "evs @ new"] exI [of _ left]) (simp add: accept_all_decoder)
    with i Inr show ?thesis by (simp add: receive_data_def)
  qed
qed

lemma stands_receive_end:
  assumes "stands parse json_len response run offered all said s []" "\<not> rs_terminal s" "session_ok s"
  shows "stands parse json_len response run offered all said (receive_end parse s) []"
proof -
  have d: "decoded parse json_len (rs_decoder s) [] = []" by simp
  obtain r d where f: "decoder_finish parse (rs_decoder s) = (r, d)" by fastforce
  have "rs_terminal (receive_end parse s)" using receive_end_ok [OF assms(3,2)] by blast
  then obtain e where "r = Err e" using f assms(2) by (cases r) (auto simp: receive_end_def)
  with f stands_failed [OF assms(1,2) d] show ?thesis
    by (simp add: receive_end_def session_fail_with stands_with)
qed

lemma stands_receive_error:
  assumes "stands parse json_len response run offered all said s (Err e # reads)" "\<not> rs_terminal s"
    and "receive_error e s = Ok t"
  shows "stands parse json_len response run offered all said t reads"
  using stands_failed [OF assms(1,2)] assms(3) by (cases e) auto

text \<open>One answer, and all of them.\<close>

definition answer_told ::
  "(string \<Rightarrow> json option) \<Rightarrow> (json \<Rightarrow> nat) \<Rightarrow> string \<Rightarrow> string \<Rightarrow> string list \<Rightarrow> agui_event list \<Rightarrow> remote_event list
     \<Rightarrow> (provider_port_error, remote_event option) result \<times> remote_session \<times> remote_reads \<Rightarrow> bool" where
  "answer_told parse json_len response run offered all said answer \<longleftrightarrow>
     (case answer of
        (Inr (Some event), t, reads) \<Rightarrow> stands parse json_len response run offered all (said @ spoken [event]) t reads
      | (Inr None, _) \<Rightarrow> \<exists>evs left. all = evs @ left \<and> closed_after json_len response run offered evs left said
      | (Inl _, _) \<Rightarrow> said = shown response {} all)"

lemma answer_popped:
  assumes "stands parse json_len response run offered all said s reads" "rs_pending s = event # rest"
  shows "stands parse json_len response run offered all (said @ spoken [event]) (s\<lparr>rs_pending := rest\<rparr>) reads"
proof -
  have "spoken (rs_pending s) = spoken [event] @ spoken rest" using assms(2) spoken_simps(2) [of "[event]" rest] by simp
  then have "tells json_len response run offered evs left said s
      \<Longrightarrow> tells json_len response run offered evs left (said @ spoken [event]) (s\<lparr>rs_pending := rest\<rparr>)" for evs left
    by (cases "rs_terminal s") (simp_all add: tells_def del: spoken_simps(3))
  with assms(1) show ?thesis by (auto simp: stands_def simp del: spoken_simps(3))
qed

lemma session_next_told:
  "session_ok s \<Longrightarrow> stands parse json_len response run offered all said s reads \<Longrightarrow>
   answer_told parse json_len response run offered all said (session_next parse json_len s reads)"
proof (induction parse json_len s reads rule: session_next.induct)
  case (1 parse json_len s reads)
  note step = session_next.simps [of parse json_len s reads]
  show ?case
  proof (cases "rs_pending s")
    case (Cons event rest)
    with answer_popped [OF 1(5) Cons] show ?thesis by (simp add: step answer_told_def del: spoken_simps(3))
  next
    case Nil
    show ?thesis
    proof (cases "rs_terminal s \<or> rs_stream_ended s")
      case True
      then have "rs_terminal s" using 1(4) by (auto simp: session_ok_def)
      with 1(5) Nil True show ?thesis by (auto simp: step answer_told_def stands_def tells_def)
    next
      case open': False
      then have live: "\<not> rs_terminal s" by simp
      show ?thesis
      proof (cases reads)
        case Nil': Nil
        have "session_ok (receive_end parse s)" using receive_end_ok [OF 1(4) live] by (simp add: follows_def)
        from 1(1) [OF Nil open' Nil' this] stands_receive_end [OF _ live 1(4)] 1(5) Nil Nil' open' show ?thesis
          unfolding step by simp
      next
        case (Cons read rest)
        show ?thesis
        proof (cases read)
          case (Inl e)
          show ?thesis
          proof (cases "receive_error e s")
            case (Inl f)
            with 1(5) Nil open' Cons \<open>read = Inl e\<close> show ?thesis
              unfolding step by (auto simp: answer_told_def stands_def tells_def)
          next
            case ok: (Inr t)
            have "session_ok t" using receive_error_ok [OF 1(4) ok] by (simp add: follows_def)
            from 1(2) [OF Nil open' Cons Inl ok this] stands_receive_error [OF _ live ok] 1(5) Nil open' Cons Inl ok
            show ?thesis unfolding step by simp
          qed
        next
          case (Inr data)
          have "session_ok (receive_data parse json_len data s)" using receive_data_ok [OF 1(4) live] by (simp add: follows_def)
          from 1(3) [OF Nil open' Cons Inr this] stands_receive_data [OF _ live] 1(5) Nil open' Cons Inr
          show ?thesis unfolding step by simp
        qed
      qed
    qed
  qed
qed

lemma session_events_told:
  "session_events parse json_len s reads = (events, stopped) \<Longrightarrow> session_ok s \<Longrightarrow>
   stands parse json_len response run offered all said s reads \<Longrightarrow>
   if stopped = None
   then \<exists>evs left. all = evs @ left \<and> closed_after json_len response run offered evs left (said @ spoken events)
   else said @ spoken events = shown response {} all"
proof (induction parse json_len s reads arbitrary: events said rule: session_events.induct)
  case (1 parse json_len s reads)
  obtain r t reads' where n: "session_next parse json_len s reads = (r, t, reads')" by (metis surj_pair)
  note told = session_next_told [OF 1(3,4), unfolded n]
  note events = 1(2) [unfolded session_events.simps [of parse json_len s reads] n]
  consider (err) e where "r = Err e" | (none) "r = Ok None" | (some) event where "r = Ok (Some event)"
    by (cases r; cases "projr r") auto
  then show ?case
  proof cases
    case (err e)
    with told events show ?thesis by (auto simp: answer_told_def)
  next
    case none
    with told events show ?thesis by (auto simp: answer_told_def)
  next
    case (some event)
    obtain rest where rest: "session_events parse json_len t reads' = (rest, stopped)" "events = event # rest"
      using events some by (auto split: prod.splits)
    have t: "session_ok t" using session_next_ok [OF n 1(3)] some by (auto simp: answers_ok_def)
    have "stands parse json_len response run offered all (said @ spoken [event]) t reads'"
      using told some by (simp add: answer_told_def del: spoken_simps(3))
    from "1.IH" [OF n [symmetric] some refl refl rest(1) t this]
    show ?thesis using rest(2) spoken_simps(2) [of "[event]" rest] by (auto simp del: spoken_simps(2,3) split: if_splits)
  qed
qed

lemma decoded_run:
  "decoder_ok d \<Longrightarrow> protocol_run parse json_len (protocol_of d) (decoded parse json_len d reads) \<noteq> None"
proof (induction parse json_len d reads rule: decoded.induct)
  case (3 parse json_len d data reads)
  obtain r d' where i: "ingest parse json_len data d = (r, d')" by fastforce
  show ?case
  proof (cases r)
    case (Inr events)
    with i 3(2) have "protocol_run parse json_len (protocol_of d) events = Some (protocol_of d')" "decoder_ok d'"
      using ingest_ok [of parse json_len data d events d'] by simp_all
    with i Inr 3(1) show ?thesis by (simp add: protocol_run_append)
  qed (use i in simp)
qed simp_all

lemma new_session_tells:
  "remote_session_new render route offered = Ok s \<Longrightarrow>
   stands parse json_len (''remote-agui:'' @ route_protocol_run_id route) (route_protocol_run_id route) offered
     (decoded parse json_len (rs_decoder s) reads) [] s reads
   \<and> decoder_ok (rs_decoder s) \<and> protocol_of (rs_decoder s) = protocol_start (JObject [])"
  using decoder_new_ok [of "length \<circ> render" "route_thread_id route" "route_protocol_run_id route" "JObject []"]
  by (auto simp: remote_session_new_def stands_def tells_def calls_made_def map_filter_def numbered_def
      answered_remotely_def split: sum.splits)

text \<open>C5: What a run is told by a remote agent. Whatever the agent sends, what is decoded from it follows the
  AG-UI protocol, and the session speaks for a first part of these events, in their order: the opening of the
  response, the text of the messages an assistant has open, and the reasoning. Then it closes once. It completes
  when that part ends by finishing the run and every call made in it was of an offered tool, and hands on, just
  before, the calls made that the remote side has not answered itself. It waits for a human when the part ends by
  interrupting the run, with the batch of its interrupts. Otherwise it fails, handing on no call: at a run that
  finishes with a call not offered, at an interrupt that is not well formed, as a failed generation at an error
  the agent reports, at an event that is shown as a projection, or when nothing more can be decoded. Nothing
  follows. A session that its transport breaks off has spoken for all of the events and handed on no call. At
  most 4096 projections, of 8 MiB together, are shown beside.\<close>

theorem remote_session_closes_once:
  assumes "remote_session_new render route offered = Ok s"
    and "session_events parse (length \<circ> render) s reads = (events, stopped)"
    and "all = decoded parse (length \<circ> render) (rs_decoder s) reads"
    and "response = ''remote-agui:'' @ route_protocol_run_id route"
  shows "protocol_run parse (length \<circ> render) (protocol_start (JObject [])) all \<noteq> None
    \<and> (if stopped = None
       then session_closing offered events
         \<and> (\<exists>evs left. all = evs @ left
           \<and> closed_after (length \<circ> render) response (route_protocol_run_id route) offered evs left (spoken events))
       else list_all displayed events \<and> spoken events = shown response {} all)
    \<and> length (projections events) \<le> 4096
    \<and> sum_list (map rp_encoded_len (projections events)) \<le> 8 * 1024 * 1024"
proof -
  note new = session_new_ok [OF assms(1)] and told = new_session_tells [OF assms(1), of parse "length \<circ> render" reads]
  have "protocol_run parse (length \<circ> render) (protocol_start (JObject [])) all \<noteq> None"
    using decoded_run [of "rs_decoder s"] told assms(3) by metis
  moreover have "if stopped = None then \<exists>evs left. all = evs @ left
      \<and> closed_after (length \<circ> render) response (route_protocol_run_id route) offered evs left ([] @ spoken events)
    else [] @ spoken events = shown response {} all"
    by (rule session_events_told [OF assms(2)]) (use new told assms(3,4) in simp_all)
  ultimately show ?thesis
    using new session_events_ok [OF assms(2)]
    by (auto simp: max_remote_projection_events_def max_agui_collection_items_def max_remote_projection_session_bytes_def
        split: if_splits)
qed

definition example_route :: remote_agui_route where
  "example_route = \<lparr>route_endpoint = ''e'', route_thread_id = ''t'', route_local_run_id = ''r'',
     route_protocol_run_id = ''r'', route_parent_protocol_run_id = None, route_resume = None, route_bot_id = ''b'',
     route_run_assertion = None, route_authorization = None\<rparr>"

definition example_session :: "agui_decoder \<Rightarrow> remote_session" where
  "example_session d = \<lparr>rs_decoder = d, rs_pending = [], rs_assistant_messages = {}, rs_completed_tools = [],
     rs_remote_tool_results = {}, rs_offered_tools = [''n''], rs_response_id = ''remote-agui:r'',
     rs_protocol_run_id = ''r'', rs_projection_count = 0, rs_projection_bytes = 0, rs_terminal = False,
     rs_stream_ended = False\<rparr>"

theorem remote_session_closes_once_witness:
  "\<exists>evs left. decoded example_parse (\<lambda>_. 10) example_decoder [Ok ''start'', Ok ''call'', Ok ''finish''] = evs @ left
    \<and> closed_after (\<lambda>_. 10) ''remote-agui:r'' ''r'' [''n''] evs left
      [ResponseStarted ''remote-agui:r'', ToolCallCompleted 0 ''c'' ''n'' (JObject []), ProviderCompleted]"
proof -
  let ?render = "\<lambda>_. ''xxxxxxxxxx''"
  have len: "length \<circ> ?render = (\<lambda>_. 10)" by (simp add: fun_eq_iff)
  have new: "remote_session_new ?render example_route [''n''] = Ok (example_session example_decoder)"
    using example_decoder_new unfolding remote_session_new_def len
    by (simp add: example_route_def example_session_def)
  have "session_events example_parse (length \<circ> ?render) (example_session example_decoder)
      [Ok ''start'', Ok ''call'', Ok ''finish'']
    = ([ResponseStarted ''remote-agui:r'', ToolCallCompleted 0 ''c'' ''n'' (JObject []), ProviderCompleted], None)"
    unfolding len
    by (simp add: session_events.simps session_next.simps receive_data_def example_start example_call example_finish
        example_session_def push_pending_def session_complete_def u32_of_len_def)
  from remote_session_closes_once [OF new this refl refl]
  show ?thesis unfolding len by (auto simp: example_route_def example_session_def)
qed

text \<open>No known secret leaves with a request. The transport is asked only for a body made of messages,
  tools and identifiers in which no known secret was found.\<close>

theorem secret_never_reaches_the_transport:
  assumes "route_has_secret (request_route request) \<or> list_ex message_has_secret (request_messages request)
      \<or> list_ex tool_has_secret (request_tools request)"
  shows "remote_start render transport request = Err (InvalidRequest ''content_secret'')"
  using assms by (auto simp: remote_start_def remote_request_def validate_business_content_def)

end
