(* ===== verification/OidcDirectory.thy ===== *)
theory OidcDirectory
  imports StdModel
begin

text \<open>
  Where a sign-in is sent: \<open>crates/openbot-infra/src/auth/oidc/\<close>, its modules \<open>error.rs\<close>, \<open>email.rs\<close>,
  \<open>ratelimit.rs\<close>, \<open>provider.rs\<close>, \<open>routing.rs\<close> and \<open>preauth.rs\<close>. An issuer is the string it was written as;
  parsing a URL and the canonical form of a UUID are parameters. A set of domains is the list its
  iterator yields. Times are nanoseconds.
\<close>

section \<open>Errors\<close>

datatype oidc_error =
    TransportUnavailable | MetadataStatusNotOk | MetadataContentTypeInvalid | MetadataTooLarge
  | MetadataMalformed | MetadataEndpointRejected | IssuerNotHttps | IssuerNotBare | IssuerMismatch
  | JwksKeyNotFound | JwksRefreshRateLimited | RedirectUriNotCanonical | RedirectUriSchemeNotAllowed
  | RedirectUriNotBare | RedirectUriMismatch | PkceMethodNotS256 | AttemptUnknown | AttemptExpired
  | AttemptProviderMismatch | AttemptStoreFull | TokenEndpointMissing | TokenExchangeRejected
  | ProviderResponseInvalid | IdTokenMissing | IdTokenMalformed | IdTokenRejected | EmailClaimMissing
  | TenantNotAllowed | EntraTenantMalformed | GroupMappingMismatch | GroupClaimRejected
  | ProviderUnknown | ProviderIdMalformed | ProviderIdConflict | DomainMalformed | DomainConflict

section \<open>Addresses and their domains\<close>

datatype email_domain = EmailDomain (domain_str: string)

definition is_ascii :: "string \<Rightarrow> bool" where
  "is_ascii s \<longleftrightarrow> list_all (\<lambda>c. (of_char c :: nat) < 128) s"

definition ends_with :: "string \<Rightarrow> char \<Rightarrow> bool" where
  "ends_with s c \<longleftrightarrow> s \<noteq> [] \<and> last s = c"

definition domain_char :: "char \<Rightarrow> bool" where
  "domain_char c \<longleftrightarrow> is_ascii_alphanumeric c \<or> c = CHR ''.'' \<or> c = CHR ''-''"

definition email_domain_parse :: "string \<Rightarrow> (oidc_error, email_domain) result" where
  "email_domain_parse raw =
     (let trimmed = trim raw in
      if trimmed = [] \<or> \<not> is_ascii trimmed then Err DomainMalformed
      else (let lowered = to_ascii_lowercase trimmed in
      if \<not> list_all domain_char lowered then Err DomainMalformed
      else if starts_with lowered ''.'' \<or> ends_with lowered (CHR ''.'') \<or> starts_with lowered ''-''
        \<or> ends_with lowered (CHR ''-'') \<or> contains_str lowered ''..'' then Err DomainMalformed
      else Ok (EmailDomain lowered)))"

definition domain_of :: "string \<Rightarrow> email_domain option" where
  "domain_of email =
     (let trimmed = trim email in
      case rfind_char (CHR ''@'') trimmed of
        None \<Rightarrow> None
      | Some at \<Rightarrow>
          (let local_part = take at trimmed; domain = drop (Suc at) trimmed in
           if local_part = [] \<or> domain = [] then None
           else if list_ex is_whitespace (chars local_part) \<or> list_ex is_whitespace (chars domain) then None
           else (case email_domain_parse domain of Inl _ \<Rightarrow> None | Inr d \<Rightarrow> Some d)))"

definition claim_looks_like_an_address :: "string \<Rightarrow> bool" where
  "claim_looks_like_an_address v \<longleftrightarrow> CHR ''@'' \<in> set v"

section \<open>Rate limits\<close>

record rate_limit_counter =
  window_started_at :: instant
  window_count :: u32

record rate_limit_decision =
  rate_allowed :: bool
  rate_counter :: rate_limit_counter

record rate_limit_policy =
  max_per_window :: u32
  rate_window :: duration

definition u32_saturating_inc :: "u32 \<Rightarrow> u32" where
  "u32_saturating_inc n = (if n = - 1 then n else n + 1)"

definition rate_evaluate ::
  "rate_limit_policy \<Rightarrow> rate_limit_counter option \<Rightarrow> instant \<Rightarrow> rate_limit_decision" where
  "rate_evaluate policy prior now =
     (if rate_window policy \<le> 0
      then \<lparr>rate_allowed = False,
            rate_counter = \<lparr>window_started_at = now, window_count = u32_saturating_inc (max_per_window policy)\<rparr>\<rparr>
      else
        (let same_window = (case prior of
               Some c \<Rightarrow> if now \<ge> window_started_at c \<and> now - window_started_at c < rate_window policy
                         then Some c else None
             | None \<Rightarrow> None);
             (started, used) = (case same_window of
               Some c \<Rightarrow> (window_started_at c, window_count c)
             | None \<Rightarrow> (now, 0));
             n = u32_saturating_inc used
         in \<lparr>rate_allowed = (n \<le> max_per_window policy),
             rate_counter = \<lparr>window_started_at = started, window_count = n\<rparr>\<rparr>))"

section \<open>Providers\<close>

datatype provider_id = ProviderId (provider_id_str: string)

definition provider_id_parse :: "string \<Rightarrow> (oidc_error, provider_id) result" where
  "provider_id_parse raw =
     (if raw = [] \<or> length raw > 64 then Err ProviderIdMalformed
      else if \<not> is_ascii_lowercase (hd raw) \<and> \<not> is_ascii_digit (hd raw) then Err ProviderIdMalformed
      else if \<not> list_all (\<lambda>c. is_ascii_lowercase c \<or> is_ascii_digit c \<or> c = CHR ''-'' \<or> c = CHR ''_'') (tl raw)
      then Err ProviderIdMalformed
      else Ok (ProviderId raw))"

text \<open>What the code reads of a parsed URL.\<close>

record url_view =
  url_cannot_be_a_base :: bool
  url_host :: "string option"
  url_scheme :: string
  url_query :: "string option"
  url_fragment :: "string option"
  url_username :: string
  url_password :: "string option"
  url_text :: string

definition google_issuer :: string where
  "google_issuer = ''https://accounts.google.com''"

definition microsoft_consumer_tenant_id :: string where
  "microsoft_consumer_tenant_id = ''9188040d-6c67-4c5b-b112-36a304b66dad''"

datatype entra_tenant_policy = IssuerScoped | TenantIndependent bool | AllowList "string list"

text \<open>\<open>uuid s\<close> is the hyphenated form of the UUID that \<open>s\<close> parses as.\<close>

definition tenants_accept :: "(string \<Rightarrow> string option) \<Rightarrow> entra_tenant_policy \<Rightarrow> string option \<Rightarrow> bool" where
  "tenants_accept uuid policy tid =
     (case policy of
        IssuerScoped \<Rightarrow> True
      | AllowList allowed \<Rightarrow> (case tid of None \<Rightarrow> False | Some t \<Rightarrow> t \<in> set allowed)
      | TenantIndependent allow_personal \<Rightarrow>
          (case tid of
             None \<Rightarrow> False
           | Some tenant \<Rightarrow>
               (case uuid tenant of
                  None \<Rightarrow> False
                | Some canonical \<Rightarrow>
                    canonical = tenant \<and> (allow_personal \<or> tenant \<noteq> microsoft_consumer_tenant_id))))"

fun tenant_independent :: "entra_tenant_policy \<Rightarrow> bool" where
  "tenant_independent (TenantIndependent _) = True"
| "tenant_independent _ = False"

datatype provider_kind =
    Google
  | Entra (entra_authority: string) (entra_issuer: string) (entra_tenants: entra_tenant_policy)
  | DeploymentOwned string

fun kind_issuer :: "provider_kind \<Rightarrow> string" where
  "kind_issuer Google = google_issuer"
| "kind_issuer (Entra authority issuer tenants) = issuer"
| "kind_issuer (DeploymentOwned issuer) = issuer"

fun kind_discovery_issuer :: "provider_kind \<Rightarrow> string" where
  "kind_discovery_issuer (Entra authority issuer tenants) = authority"
| "kind_discovery_issuer kind = kind_issuer kind"

datatype provider_origin = EnvironmentConfigured | DynamicallyRegistered

record oidc_provider_config =
  config_id :: provider_id
  config_kind :: provider_kind
  config_origin :: provider_origin
  config_client_id :: string
  config_redirect_uri :: string
  config_domains :: "email_domain list"
  config_registered_by :: "string option"

definition with_entra_token_issuer ::
  "oidc_provider_config \<Rightarrow> string \<Rightarrow> (oidc_error, oidc_provider_config) result" where
  "with_entra_token_issuer c issuer =
     (case config_kind c of
        Entra authority _ tenants \<Rightarrow> Ok (c\<lparr>config_kind := Entra authority issuer tenants\<rparr>)
      | _ \<Rightarrow> Err IdTokenRejected)"

definition parse_issuer :: "(string \<Rightarrow> url_view option) \<Rightarrow> string \<Rightarrow> (oidc_error, string) result" where
  "parse_issuer parse_url raw =
     (case parse_url raw of
        None \<Rightarrow> Err IssuerNotBare
      | Some url \<Rightarrow>
          if url_cannot_be_a_base url \<or> url_host url = None then Err IssuerNotBare
          else if url_scheme url \<noteq> ''https'' then Err IssuerNotHttps
          else if url_query url \<noteq> None \<or> url_fragment url \<noteq> None \<or> url_username url \<noteq> []
            \<or> url_password url \<noteq> None then Err IssuerNotBare
          else Ok raw)"

record provider_registry =
  by_id :: "(string \<times> oidc_provider_config) list"
  by_domain :: "(string \<times> provider_id) list"

fun add_domains ::
  "provider_id \<Rightarrow> email_domain list \<Rightarrow> (string \<times> provider_id) list \<Rightarrow> (oidc_error, (string \<times> provider_id) list) result" where
  "add_domains owner [] m = Ok m"
| "add_domains owner (domain # domains) m =
     (if map_of m (domain_str domain) \<noteq> None then Err DomainConflict
      else add_domains owner domains (fst (bt_insert (domain_str domain) owner m)))"

definition add_config ::
  "provider_registry \<Rightarrow> oidc_provider_config \<Rightarrow> (oidc_error, provider_registry) result" where
  "add_config r c =
     and_then (add_domains (config_id c) (config_domains c) (by_domain r)) (\<lambda>domains.
     let (ids, old) = bt_insert (provider_id_str (config_id c)) c (by_id r) in
     if old \<noteq> None then Err ProviderIdConflict
     else Ok \<lparr>by_id = ids, by_domain = domains\<rparr>)"

definition registry_build :: "oidc_provider_config list \<Rightarrow> (oidc_error, provider_registry) result" where
  "registry_build configs = try_fold add_config \<lparr>by_id = [], by_domain = []\<rparr> configs"

definition registry_by_id :: "provider_registry \<Rightarrow> provider_id \<Rightarrow> oidc_provider_config option" where
  "registry_by_id r pid = map_of (by_id r) (provider_id_str pid)"

definition registry_by_domain :: "provider_registry \<Rightarrow> email_domain \<Rightarrow> oidc_provider_config option" where
  "registry_by_domain r domain =
     (case map_of (by_domain r) (domain_str domain) of None \<Rightarrow> None | Some pid \<Rightarrow> registry_by_id r pid)"

section \<open>Routing and what is shown before a sign-in\<close>

datatype uniform_routing_response = UniformRoutingResponse

record email_routing_outcome =
  outcome_response :: uniform_routing_response
  outcome_next :: "provider_id option"
  outcome_counter :: rate_limit_counter

definition route_email ::
  "provider_registry \<Rightarrow> string \<Rightarrow> rate_limit_policy \<Rightarrow> rate_limit_counter option \<Rightarrow> instant \<Rightarrow> email_routing_outcome" where
  "route_email registry email policy prior now =
     (let decision = rate_evaluate policy prior now;
          target = (if rate_allowed decision
            then (case domain_of email of
                    None \<Rightarrow> None
                  | Some domain \<Rightarrow> map_option config_id (registry_by_domain registry domain))
            else None)
      in \<lparr>outcome_response = UniformRoutingResponse, outcome_next = target,
          outcome_counter = rate_counter decision\<rparr>)"

record pre_auth_surface =
  surface_provider_ids :: "string list"
  enterprise_sso_available :: bool

definition pre_auth_project :: "provider_registry \<Rightarrow> pre_auth_surface" where
  "pre_auth_project registry =
     (let configs = map snd (by_id registry) in
      \<lparr>surface_provider_ids =
         map (provider_id_str \<circ> config_id) (filter (\<lambda>c. config_origin c = EnvironmentConfigured) configs),
       enterprise_sso_available = list_ex (\<lambda>c. config_origin c = DynamicallyRegistered) configs\<rparr>)"

section \<open>A limit holds in every interval\<close>

text \<open>A client calls at the given times; each call meets the counter the one before left.\<close>

primrec rate_run :: "rate_limit_policy \<Rightarrow> rate_limit_counter option \<Rightarrow> instant list \<Rightarrow> bool list" where
  "rate_run policy prior [] = []"
| "rate_run policy prior (now # clock) =
     (let d = rate_evaluate policy prior now
      in rate_allowed d # rate_run policy (Some (rate_counter d)) clock)"

definition allowed_between :: "instant \<Rightarrow> instant \<Rightarrow> instant list \<Rightarrow> bool list \<Rightarrow> nat" where
  "allowed_between a b clock answers =
     length (filter (\<lambda>(now, ok). ok \<and> a \<le> now \<and> now < b) (zip clock answers))"

lemma allowed_between_Nil [simp]: "allowed_between a b [] answers = 0"
  by (simp add: allowed_between_def)

lemma allowed_between_Cons [simp]:
  "allowed_between a b (now # clock) (ok # answers) =
     (if ok \<and> a \<le> now \<and> now < b then 1 else 0) + allowed_between a b clock answers"
  by (simp add: allowed_between_def)

lemma allowed_after: "\<forall>now\<in>set clock. b \<le> now \<Longrightarrow> allowed_between a b clock answers = 0"
  by (auto simp: allowed_between_def filter_empty_conv dest!: set_zip_leftD)

lemma unat_u32_saturating_inc:
  "unat (u32_saturating_inc n) = (if n = - 1 then unat n else Suc (unat n))"
  using unatSuc [of n] by (auto simp: u32_saturating_inc_def add.commute eq_neg_iff_add_eq_0)

lemma below_u32_max [simp]: "unat (m :: u32) \<le> unat (- 1 :: u32)" "\<not> unat (- 1 :: u32) < unat (m :: u32)"
  by (simp_all flip: word_le_nat_alt word_less_nat_alt)

lemma inc_within:
  assumes "m \<noteq> - 1"
  shows "u32_saturating_inc n \<le> m \<longleftrightarrow> unat n < unat m"
proof -
  have "unat m < unat (- 1 :: u32)" using assms
    by (metis word_less_nat_alt word_order.not_eq_extremum)
  then show ?thesis by (auto simp: word_le_nat_alt unat_u32_saturating_inc)
qed

text \<open>What a counter still admits.\<close>

definition room :: "rate_limit_policy \<Rightarrow> rate_limit_counter \<Rightarrow> nat" where
  "room policy c = unat (max_per_window policy) - unat (window_count c)"

lemma rate_in_window:
  assumes "0 < rate_window policy" "max_per_window policy \<noteq> - 1"
    and "window_started_at c \<le> now" "now < window_started_at c + rate_window policy"
  defines "d \<equiv> rate_evaluate policy (Some c) now"
  shows "window_started_at (rate_counter d) = window_started_at c"
    "(if rate_allowed d then 1 else 0) + room policy (rate_counter d) \<le> room policy c"
  using assms(1-4) unfolding d_def
  by (auto simp: rate_evaluate_def Let_def room_def inc_within unat_u32_saturating_inc)

lemma rate_new_window:
  assumes "0 < rate_window policy" "max_per_window policy \<noteq> - 1"
    and "\<And>c. prior = Some c \<Longrightarrow> now < window_started_at c \<or> window_started_at c + rate_window policy \<le> now"
  defines "d \<equiv> rate_evaluate policy prior now"
  shows "window_started_at (rate_counter d) = now"
    "(if rate_allowed d then 1 else 0) + room policy (rate_counter d) \<le> unat (max_per_window policy)"
proof -
  have "rate_evaluate policy prior now =
      \<lparr>rate_allowed = (u32_saturating_inc 0 \<le> max_per_window policy),
       rate_counter = \<lparr>window_started_at = now, window_count = u32_saturating_inc 0\<rparr>\<rparr>"
    using assms(1,3) by (force simp: rate_evaluate_def Let_def split: option.splits)
  then show "window_started_at (rate_counter d) = now"
    "(if rate_allowed d then 1 else 0) + room policy (rate_counter d) \<le> unat (max_per_window policy)"
    using assms(2) by (auto simp: d_def room_def inc_within unat_u32_saturating_inc)
qed

text \<open>A window that began inside the interval reaches beyond it.\<close>

lemma allowed_in_one_window:
  assumes "0 < rate_window policy" "max_per_window policy \<noteq> - 1"
  shows "sorted clock \<Longrightarrow> \<forall>now\<in>set clock. window_started_at c \<le> now \<Longrightarrow> a \<le> window_started_at c \<Longrightarrow>
    allowed_between a (a + rate_window policy) clock (rate_run policy (Some c) clock) \<le> room policy c"
proof (induction clock arbitrary: c)
  case (Cons now clock)
  show ?case
  proof (cases "now < a + rate_window policy")
    case True
    then have w: "window_started_at c \<le> now" "now < window_started_at c + rate_window policy"
      using Cons.prems by auto
    note d = rate_in_window [OF assms w]
    have "allowed_between a (a + rate_window policy) clock
        (rate_run policy (Some (rate_counter (rate_evaluate policy (Some c) now))) clock)
        \<le> room policy (rate_counter (rate_evaluate policy (Some c) now))"
      using Cons.prems by (intro Cons.IH) (auto simp: d(1))
    then show ?thesis using d(2) by (auto simp: Let_def split: if_splits)
  next
    case False
    then have "\<forall>t\<in>set (now # clock). a + rate_window policy \<le> t" using Cons.prems(1) by auto
    from allowed_after [OF this] show ?thesis by simp
  qed
qed simp

lemma allowed_in_two_windows:
  assumes "0 < rate_window policy" "max_per_window policy \<noteq> - 1"
  shows "sorted clock \<Longrightarrow> \<forall>now\<in>set clock. a \<le> now \<Longrightarrow>
    allowed_between a (a + rate_window policy) clock (rate_run policy prior clock)
      \<le> (case prior of None \<Rightarrow> 0 | Some c \<Rightarrow> room policy c) + unat (max_per_window policy)"
proof (induction clock arbitrary: prior)
  case (Cons now clock)
  let ?d = "rate_evaluate policy prior now"
  show ?case
  proof (cases "\<exists>c. prior = Some c \<and> window_started_at c \<le> now \<and> now < window_started_at c + rate_window policy")
    case True
    then obtain c where c: "prior = Some c" "window_started_at c \<le> now" "now < window_started_at c + rate_window policy"
      by blast
    have "allowed_between a (a + rate_window policy) clock (rate_run policy (Some (rate_counter ?d)) clock)
        \<le> room policy (rate_counter ?d) + unat (max_per_window policy)"
      using Cons.IH [of "Some (rate_counter ?d)"] Cons.prems by simp
    then show ?thesis using rate_in_window(2) [OF assms c(2,3)] c(1) by (auto simp: Let_def split: if_splits)
  next
    case False
    then have new: "\<And>c. prior = Some c \<Longrightarrow> now < window_started_at c \<or> window_started_at c + rate_window policy \<le> now"
      by fastforce
    note d = rate_new_window [of policy prior now, OF assms new]
    have "allowed_between a (a + rate_window policy) clock (rate_run policy (Some (rate_counter ?d)) clock)
        \<le> room policy (rate_counter ?d)"
      using Cons.prems by (intro allowed_in_one_window assms) (auto simp: d(1))
    then show ?thesis using d(2) by (auto simp: Let_def split: if_splits)
  qed
qed simp

text \<open>C10: A rate limit holds in every interval as long as its window, wherever the interval begins and
  whatever the stored counter says: of calls at times that never go back, at most twice the limit are
  allowed in it. (A fixed window admits the limit at its end and again at the beginning of the next.)
  A limit of 2^32 - 1 is no limit, since the count saturates there.\<close>

theorem rate_limit_holds_in_every_interval:
  assumes "sorted clock" "max_per_window policy \<noteq> - 1"
  shows "allowed_between a (a + rate_window policy) clock (rate_run policy prior clock)
    \<le> 2 * unat (max_per_window policy)"
proof (cases "0 < rate_window policy")
  case True
  from assms(1) show ?thesis
  proof (induction clock arbitrary: prior)
    case (Cons now clock)
    show ?case
    proof (cases "a \<le> now")
      case True
      have "(case prior of None \<Rightarrow> 0 | Some c \<Rightarrow> room policy c) \<le> unat (max_per_window policy)"
        by (simp add: room_def split: option.split)
      moreover have "\<forall>t\<in>set (now # clock). a \<le> t" using Cons.prems True by auto
      from allowed_in_two_windows [OF \<open>0 < rate_window policy\<close> assms(2) Cons.prems this]
      have "allowed_between a (a + rate_window policy) (now # clock) (rate_run policy prior (now # clock))
        \<le> (case prior of None \<Rightarrow> 0 | Some c \<Rightarrow> room policy c) + unat (max_per_window policy)" .
      ultimately show ?thesis by linarith
    next
      case False
      then show ?thesis using Cons by (simp add: Let_def)
    qed
  qed simp
next
  case False
  then have "allowed_between a (a + rate_window policy) clock (rate_run policy prior clock) = 0"
    by (auto simp: allowed_between_def filter_empty_conv)
  then show ?thesis by simp
qed

theorem rate_limit_holds_in_every_interval_witness:
  "rate_run \<lparr>max_per_window = 1, rate_window = 10\<rparr> None [9, 10, 19, 20] = [True, False, True, False]
   \<and> allowed_between 9 (9 + rate_window \<lparr>max_per_window = 1, rate_window = 10\<rparr>) [9, 10, 19, 20]
       (rate_run \<lparr>max_per_window = 1, rate_window = 10\<rparr> None [9, 10, 19, 20]) \<le> 2 * unat (1 :: u32)"
  using rate_limit_holds_in_every_interval [of "[9, 10, 19, 20]" "\<lparr>max_per_window = 1, rate_window = 10\<rparr>" 9 None]
  by (simp add: rate_evaluate_def u32_saturating_inc_def Let_def word_le_nat_alt)

section \<open>The registry sends a domain to its one owner\<close>

lemma bt_insert_grows:
  assumes "bt_ok m"
  shows "bt_ok (fst (bt_insert k v m))" "map_of (fst (bt_insert k v m)) = (map_of m)(k \<mapsto> v)"
    "snd (bt_insert k v m) = map_of m k"
  using assms by (rule bt_insert_ok bt_insert_lookup bt_insert_old)+

text \<open>The entries that a list of configurations brings.\<close>

definition domain_entries :: "oidc_provider_config list \<Rightarrow> (string \<times> provider_id) list" where
  "domain_entries configs = concat (map (\<lambda>c. map (\<lambda>d. (domain_str d, config_id c)) (config_domains c)) configs)"

definition id_entries :: "oidc_provider_config list \<Rightarrow> (string \<times> oidc_provider_config) list" where
  "id_entries configs = map (\<lambda>c. (provider_id_str (config_id c), c)) configs"

text \<open>A sorted map that holds exactly the given entries, whose keys are distinct.\<close>

definition holds_entries :: "(string \<times> 'v) list \<Rightarrow> (string \<times> 'v) list \<Rightarrow> bool" where
  "holds_entries m entries \<longleftrightarrow> bt_ok m \<and> distinct (map fst entries) \<and> map_of m = map_of entries"

lemma holds_entries_lookup: "holds_entries m entries \<Longrightarrow> map_of m k = Some v \<longleftrightarrow> (k, v) \<in> set entries"
  by (simp add: holds_entries_def)

lemma holds_entries_none: "holds_entries m entries \<Longrightarrow> map_of m k = None \<longleftrightarrow> k \<notin> fst ` set entries"
  by (simp add: holds_entries_def map_of_eq_None_iff)

lemma map_of_snoc:
  assumes "k \<notin> fst ` set entries"
  shows "map_of (entries @ [(k, v)]) = (map_of entries)(k \<mapsto> v)"
proof -
  from assms have "map_of entries k = None" by (simp add: map_of_eq_None_iff)
  then show ?thesis by (auto simp: fun_eq_iff map_add_def split: option.split)
qed

lemma holds_entries_insert:
  assumes "holds_entries m entries" "k \<notin> fst ` set entries"
  shows "holds_entries (fst (bt_insert k v m)) (entries @ [(k, v)])"
  using assms map_of_snoc [OF assms(2)] by (auto simp: holds_entries_def bt_insert_grows)

lemma add_domains_ok:
  fixes owner :: provider_id
  assumes "holds_entries m entries"
  defines "new \<equiv> \<lambda>domains. map (\<lambda>d. (domain_str d, owner)) domains"
  shows "(case add_domains owner domains m of
      Inl e \<Rightarrow> e = DomainConflict \<and> \<not> distinct (map fst (entries @ new domains))
    | Inr m' \<Rightarrow> holds_entries m' (entries @ new domains))"
  using assms(1)
proof (induction domains arbitrary: m entries)
  case (Cons d domains)
  show ?case
  proof (cases "domain_str d \<in> fst ` set entries")
    case True
    then have "map_of m (domain_str d) \<noteq> None" using holds_entries_none [OF Cons.prems] by blast
    then show ?thesis using True by (auto simp: new_def)
  next
    case False
    then have "map_of m (domain_str d) = None" using holds_entries_none [OF Cons.prems] by blast
    with Cons.IH [OF holds_entries_insert [OF Cons.prems False, of owner]] show ?thesis
      by (simp add: new_def split: sum.splits)
  qed
qed (simp add: new_def)

lemma entries_append:
  "id_entries (xs @ ys) = id_entries xs @ id_entries ys"
  "domain_entries (xs @ ys) = domain_entries xs @ domain_entries ys"
  by (simp_all add: id_entries_def domain_entries_def)

definition registry_holds :: "provider_registry \<Rightarrow> oidc_provider_config list \<Rightarrow> bool" where
  "registry_holds r configs \<longleftrightarrow>
     holds_entries (by_id r) (id_entries configs) \<and> holds_entries (by_domain r) (domain_entries configs)"

lemma add_config_ok:
  assumes "registry_holds r configs"
  shows "(case add_config r c of
      Inl e \<Rightarrow> \<not> (distinct (map fst (id_entries (configs @ [c]))) \<and> distinct (map fst (domain_entries (configs @ [c]))))
    | Inr r' \<Rightarrow> registry_holds r' (configs @ [c]))"
proof -
  let ?new = "map (\<lambda>d. (domain_str d, config_id c)) (config_domains c)"
  have ds: "domain_entries (configs @ [c]) = domain_entries configs @ ?new" by (simp add: domain_entries_def)
  have ids_of: "id_entries (configs @ [c]) = id_entries configs @ [(provider_id_str (config_id c), c)]"
    by (simp add: id_entries_def)
  have i: "holds_entries (by_id r) (id_entries configs)" and d: "holds_entries (by_domain r) (domain_entries configs)"
    using assms by (simp_all add: registry_holds_def)
  show ?thesis
  proof (cases "add_domains (config_id c) (config_domains c) (by_domain r)")
    case (Inl e)
    then show ?thesis using add_domains_ok [OF d, of "config_id c" "config_domains c"] by (simp add: add_config_def ds)
  next
    case (Inr m)
    then have m: "holds_entries m (domain_entries (configs @ [c]))"
      using add_domains_ok [OF d, of "config_id c" "config_domains c"] by (simp add: ds)
    obtain ids old where b: "bt_insert (provider_id_str (config_id c)) c (by_id r) = (ids, old)" by (rule prod.exhaust)
    have ids: "ids = fst (bt_insert (provider_id_str (config_id c)) c (by_id r))" by (simp add: b)
    have old: "old = map_of (by_id r) (provider_id_str (config_id c))"
      using bt_insert_old [of "by_id r" "provider_id_str (config_id c)" c] i unfolding b
      by (simp add: holds_entries_def)
    have ac: "add_config r c =
        (if old \<noteq> None then Err ProviderIdConflict else Ok \<lparr>by_id = ids, by_domain = m\<rparr>)"
      by (simp add: add_config_def Inr b)
    show ?thesis
    proof (cases "provider_id_str (config_id c) \<in> fst ` set (id_entries configs)")
      case True
      then have "old \<noteq> None" using holds_entries_none [OF i, of "provider_id_str (config_id c)"] old by simp
      moreover have "\<not> distinct (map fst (id_entries (configs @ [c])))" using True by (simp add: ids_of)
      ultimately show ?thesis by (simp add: ac)
    next
      case False
      then have "old = None" using holds_entries_none [OF i, of "provider_id_str (config_id c)"] old by simp
      moreover have "holds_entries ids (id_entries (configs @ [c]))"
        unfolding ids ids_of by (rule holds_entries_insert [OF i False])
      ultimately show ?thesis using m by (simp add: ac registry_holds_def)
    qed
  qed
qed

lemma registry_build_from:
  assumes "registry_holds r pre"
  shows "(case try_fold add_config r configs of
      Inl e \<Rightarrow> \<not> (distinct (map fst (id_entries (pre @ configs))) \<and> distinct (map fst (domain_entries (pre @ configs))))
    | Inr r' \<Rightarrow> registry_holds r' (pre @ configs))"
  using assms
proof (induction configs arbitrary: r pre)
  case (Cons c configs)
  note a = add_config_ok [OF Cons.prems, of c]
  show ?case
  proof (cases "add_config r c")
    case (Inl e)
    have "distinct (map fst (id_entries ((pre @ [c]) @ configs))) \<Longrightarrow> distinct (map fst (id_entries (pre @ [c])))"
      "distinct (map fst (domain_entries ((pre @ [c]) @ configs))) \<Longrightarrow> distinct (map fst (domain_entries (pre @ [c])))"
      unfolding entries_append(1) [of "pre @ [c]"] entries_append(2) [of "pre @ [c]"] map_append distinct_append by blast+
    then show ?thesis using a Inl by auto
  next
    case (Inr r')
    then have "registry_holds r' (pre @ [c])" using a by simp
    from Cons.IH [OF this] show ?thesis using Inr by (simp split: sum.splits)
  qed
qed simp

lemma registry_build_holds:
  "(case registry_build configs of
      Inl e \<Rightarrow> \<not> (distinct (map fst (id_entries configs)) \<and> distinct (map fst (domain_entries configs)))
    | Inr r \<Rightarrow> registry_holds r configs)"
  using registry_build_from [of "\<lparr>by_id = [], by_domain = []\<rparr>" "[]" configs]
  by (simp add: registry_build_def registry_holds_def holds_entries_def id_entries_def domain_entries_def bt_ok_def
      split: sum.splits)

lemma fst_id_entries: "map fst (id_entries configs) = map provider_id_str (map config_id configs)"
  by (simp add: id_entries_def)

lemma distinct_config_ids [simp]:
  "distinct (map (provider_id_str \<circ> config_id) configs) \<longleftrightarrow> distinct (map config_id configs)"
  by (auto simp: distinct_map inj_on_def intro: provider_id.expand)

lemma fst_domain_entries: "map fst (domain_entries configs) = map domain_str (concat (map config_domains configs))"
  by (simp add: domain_entries_def map_concat comp_def)

lemma distinct_provider_ids: "distinct (map provider_id_str ids) \<longleftrightarrow> distinct ids"
  by (simp add: distinct_map inj_on_def provider_id.expand)

lemma distinct_domain_strs: "distinct (map domain_str domains) \<longleftrightarrow> distinct domains"
  by (simp add: distinct_map inj_on_def email_domain.expand)

lemma registry_holds_by_domain:
  assumes "registry_holds r configs"
  shows "registry_by_domain r d = Some c \<longleftrightarrow> c \<in> set configs \<and> d \<in> set (config_domains c)"
proof -
  have ids: "registry_by_id r i = Some c \<longleftrightarrow> c \<in> set configs \<and> config_id c = i" for i c
    using holds_entries_lookup [of "by_id r" "id_entries configs" "provider_id_str i" c] assms
    by (auto simp: registry_by_id_def registry_holds_def id_entries_def intro: provider_id.expand)
  have "distinct (map fst (domain_entries configs))" and doms:
    "map_of (by_domain r) (domain_str d) = Some i \<longleftrightarrow> (\<exists>c\<in>set configs. d \<in> set (config_domains c) \<and> config_id c = i)" for i
    using holds_entries_lookup [of "by_domain r" "domain_entries configs" "domain_str d" i] assms
    by (auto simp: registry_holds_def holds_entries_def domain_entries_def dest: email_domain.expand)
  have "distinct (map config_id configs)"
    using assms by (simp add: registry_holds_def holds_entries_def fst_id_entries distinct_provider_ids)
  then have inj: "c \<in> set configs \<Longrightarrow> c' \<in> set configs \<Longrightarrow> config_id c = config_id c' \<Longrightarrow> c = c'" for c c'
    by (auto simp: distinct_map dest: inj_onD)
  have "c \<in> set configs \<and> d \<in> set (config_domains c)" if "registry_by_domain r d = Some c"
  proof -
    from that obtain i where i: "map_of (by_domain r) (domain_str d) = Some i" "registry_by_id r i = Some c"
      by (auto simp: registry_by_domain_def split: option.splits)
    with doms [of i] ids [of i c] inj show ?thesis by blast
  qed
  moreover have "registry_by_domain r d = Some c" if "c \<in> set configs" "d \<in> set (config_domains c)"
  proof -
    have "map_of (by_domain r) (domain_str d) = Some (config_id c)" using doms that by blast
    moreover have "registry_by_id r (config_id c) = Some c" using ids that by blast
    ultimately show ?thesis by (simp add: registry_by_domain_def)
  qed
  ultimately show ?thesis by blast
qed

text \<open>C11: Providers are configured without ambiguity, and an address is sent to the one provider that owns
  its domain. A registry is built exactly when no two providers share an identifier and no domain is
  listed twice. Then an allowed request is sent to the provider that lists the domain of its address, a
  request over the limit is sent nowhere, and two providers listing one domain are the same provider.\<close>

theorem address_goes_to_the_owner_of_its_domain:
  "(is_ok (registry_build configs) \<longleftrightarrow>
      distinct (map config_id configs) \<and> distinct (concat (map config_domains configs)))
   \<and> (registry_build configs = Ok registry \<longrightarrow>
      (outcome_next (route_email registry email policy prior now) = Some pid \<longleftrightarrow>
        rate_allowed (rate_evaluate policy prior now) \<and>
        (\<exists>c\<in>set configs. \<exists>d\<in>set (config_domains c). config_id c = pid \<and> domain_of email = Some d)) \<and>
      (\<forall>c\<in>set configs. \<forall>c'\<in>set configs. set (config_domains c) \<inter> set (config_domains c') \<noteq> {} \<longrightarrow> c = c'))"
proof (cases "registry_build configs")
  case (Inl e)
  then show ?thesis
    using registry_build_holds [of configs, unfolded fst_id_entries fst_domain_entries
        distinct_provider_ids distinct_domain_strs] by simp
next
  case (Inr r)
  then have r: "registry_holds r configs" using registry_build_holds [of configs] by simp
  then have "distinct (map config_id configs)" "distinct (concat (map config_domains configs))"
    by (simp_all add: registry_holds_def holds_entries_def fst_id_entries fst_domain_entries
        distinct_provider_ids distinct_domain_strs)
  moreover note d = registry_holds_by_domain [OF r]
  have "c = c'" if "c \<in> set configs" "c' \<in> set configs" "set (config_domains c) \<inter> set (config_domains c') \<noteq> {}" for c c'
  proof -
    from that(3) obtain e where "e \<in> set (config_domains c)" "e \<in> set (config_domains c')" by blast
    with that d [of e c] d [of e c'] show ?thesis by simp
  qed
  moreover have "outcome_next (route_email r email policy prior now) = Some pid \<longleftrightarrow>
        rate_allowed (rate_evaluate policy prior now) \<and>
        (\<exists>c\<in>set configs. \<exists>d\<in>set (config_domains c). config_id c = pid \<and> domain_of email = Some d)"
    by (cases "domain_of email") (auto simp: route_email_def Let_def d)
  moreover have "is_ok (registry_build configs)" "registry_build configs = Ok registry \<longleftrightarrow> registry = r"
    using Inr by auto
  ultimately show ?thesis by (intro conjI impI ballI) auto
qed

text \<open>Two providers and an address of the second.\<close>

definition example_provider :: "string \<Rightarrow> string \<Rightarrow> oidc_provider_config" where
  "example_provider pid domain =
     \<lparr>config_id = ProviderId pid, config_kind = Google, config_origin = DynamicallyRegistered, config_client_id = ''c'',
      config_redirect_uri = ''r'', config_domains = [EmailDomain domain], config_registered_by = None\<rparr>"

theorem address_goes_to_the_owner_of_its_domain_witness:
  "registry_build [example_provider ''a'' ''x.com'', example_provider ''b'' ''y.com''] =
     Ok \<lparr>by_id = [(''a'', example_provider ''a'' ''x.com''), (''b'', example_provider ''b'' ''y.com'')],
         by_domain = [(''x.com'', ProviderId ''a''), (''y.com'', ProviderId ''b'')]\<rparr>
   \<and> outcome_next (route_email
        \<lparr>by_id = [(''a'', example_provider ''a'' ''x.com''), (''b'', example_provider ''b'' ''y.com'')],
         by_domain = [(''x.com'', ProviderId ''a''), (''y.com'', ProviderId ''b'')]\<rparr>
        ''me@y.com'' \<lparr>max_per_window = 1, rate_window = 10\<rparr> None 0) = Some (ProviderId ''b'')"
proof -
  let ?configs = "[example_provider ''a'' ''x.com'', example_provider ''b'' ''y.com'']"
  let ?r = "\<lparr>by_id = [(''a'', example_provider ''a'' ''x.com''), (''b'', example_provider ''b'' ''y.com'')],
         by_domain = [(''x.com'', ProviderId ''a''), (''y.com'', ProviderId ''b'')]\<rparr>"
  let ?policy = "\<lparr>max_per_window = 1, rate_window = 10\<rparr>"
  have r: "registry_build ?configs = Ok ?r"
    by (simp add: registry_build_def add_config_def example_provider_def)
  have d: "domain_of ''me@y.com'' = Some (EmailDomain ''y.com'')"
    by (simp add: domain_of_def trim_def trim_matches_def chars_def email_domain_parse_def is_ascii_def
        is_whitespace_def to_ascii_lowercase_def to_ascii_lower_def domain_char_def ends_with_def
        starts_with_def is_ascii_alphanumeric_def is_ascii_digit_def is_ascii_lowercase_def is_ascii_uppercase_def)
  have a: "rate_allowed (rate_evaluate ?policy None 0)"
    by (simp add: rate_evaluate_def u32_saturating_inc_def)
  show ?thesis
    using address_goes_to_the_owner_of_its_domain [of ?configs ?r "''me@y.com''" ?policy None 0 "ProviderId ''b''"] r d a
    by (simp add: example_provider_def)
qed

end
