(* ===== verification/OidcLogin.thy ===== *)
theory OidcLogin
  imports OidcDirectory IdentityGroups "HOL-Library.Multiset"
begin

text \<open>
  A sign-in at an external provider, from the attempt to the identity:
  \<open>crates/openbot-infra/src/auth/oidc/\<close>, its modules \<open>redirect.rs\<close>, \<open>attempt.rs\<close>, \<open>transport.rs\<close>, \<open>jwks.rs\<close>,
  \<open>token.rs\<close>, \<open>claims.rs\<close>, \<open>configured.rs\<close> and \<open>coordinator.rs\<close>. What these modules call of other
  libraries is a field of \<open>oidc_library\<close>; what the network and the stores answer is an argument.
\<close>

section \<open>Redirect URIs\<close>

definition https_only :: "string list" where "https_only = [''https'']"
definition https_or_http :: "string list" where "https_or_http = [''https'', ''http'']"

definition redirect_parse ::
  "(string \<Rightarrow> url_view option) \<Rightarrow> string \<Rightarrow> string list \<Rightarrow> (oidc_error, string) result" where
  "redirect_parse parse_url raw allowed_schemes =
     (case parse_url raw of
        None \<Rightarrow> Err RedirectUriNotCanonical
      | Some url \<Rightarrow>
          if url_cannot_be_a_base url \<or> url_host url = None then Err RedirectUriNotBare
          else if url_scheme url \<notin> set allowed_schemes then Err RedirectUriSchemeNotAllowed
          else if url_fragment url \<noteq> None \<or> url_username url \<noteq> [] \<or> url_password url \<noteq> None
          then Err RedirectUriNotBare
          else if url_text url \<noteq> raw then Err RedirectUriNotCanonical
          else Ok raw)"

definition assert_exact_match :: "string \<Rightarrow> string \<Rightarrow> (oidc_error, unit) result" where
  "assert_exact_match registered received = (if registered = received then Ok () else Err RedirectUriMismatch)"

section \<open>Login attempts\<close>

definition pkce_method_s256 :: string where "pkce_method_s256 = ''S256''"

record s256_pkce =
  pkce_challenge :: string
  pkce_verifier :: string

definition pkce_from_parts :: "string \<Rightarrow> string \<Rightarrow> string \<Rightarrow> (oidc_error, s256_pkce) result" where
  "pkce_from_parts challenge method verifier =
     (if method \<noteq> pkce_method_s256 then Err PkceMethodNotS256
      else Ok \<lparr>pkce_challenge = challenge, pkce_verifier = verifier\<rparr>)"

record login_attempt =
  la_provider :: provider_id
  la_state :: string
  la_nonce :: string
  la_pkce :: s256_pkce
  la_redirect_uri :: string
  la_expires_at :: instant

record callback_login_attempt =
  cb_provider :: provider_id
  cb_nonce :: string
  cb_verifier :: string
  cb_redirect_uri :: string

text \<open>The three random values are arguments.\<close>

definition login_attempt_begin ::
  "string \<Rightarrow> string \<Rightarrow> s256_pkce \<Rightarrow> provider_id \<Rightarrow> string \<Rightarrow> instant \<Rightarrow> duration \<Rightarrow> login_attempt" where
  "login_attempt_begin state nonce pkce provider redirect_uri now ttl =
     \<lparr>la_provider = provider, la_state = state, la_nonce = nonce, la_pkce = pkce,
      la_redirect_uri = redirect_uri, la_expires_at = now + ttl\<rparr>"

definition attempt_expired :: "login_attempt \<Rightarrow> instant \<Rightarrow> bool" where
  "attempt_expired a now \<longleftrightarrow> now \<ge> la_expires_at a"

record attempt_store =
  by_state :: "(string \<times> login_attempt) list"
  store_capacity :: nat

definition store_with_capacity :: "nat \<Rightarrow> attempt_store" where
  "store_with_capacity capacity = \<lparr>by_state = [], store_capacity = capacity\<rparr>"

definition sweep_expired :: "instant \<Rightarrow> attempt_store \<Rightarrow> nat \<times> attempt_store" where
  "sweep_expired now s =
     (let kept = filter (\<lambda>(_, a). \<not> attempt_expired a now) (by_state s)
      in (length (by_state s) - length kept, s\<lparr>by_state := kept\<rparr>))"

definition without_state :: "string \<Rightarrow> (string \<times> login_attempt) list \<Rightarrow> (string \<times> login_attempt) list" where
  "without_state state m = filter (\<lambda>(k, _). k \<noteq> state) m"

definition store_insert :: "login_attempt \<Rightarrow> instant \<Rightarrow> attempt_store \<Rightarrow> (oidc_error, unit) result \<times> attempt_store" where
  "store_insert a now s =
     (let s = (if length (by_state s) \<ge> store_capacity s then snd (sweep_expired now s) else s) in
      if length (by_state s) \<ge> store_capacity s then (Err AttemptStoreFull, s)
      else (Ok (), s\<lparr>by_state := (la_state a, a) # without_state (la_state a) (by_state s)\<rparr>))"

definition store_consume ::
  "string \<Rightarrow> provider_id \<Rightarrow> instant \<Rightarrow> attempt_store \<Rightarrow> (oidc_error, login_attempt) result \<times> attempt_store" where
  "store_consume state provider now s =
     (case map_of (by_state s) state of
        None \<Rightarrow> (Err AttemptUnknown, s)
      | Some a \<Rightarrow>
          (let s = s\<lparr>by_state := without_state state (by_state s)\<rparr> in
           if attempt_expired a now then (Err AttemptExpired, s)
           else if la_provider a \<noteq> provider then (Err AttemptProviderMismatch, s)
           else (Ok a, s)))"

section \<open>Libraries\<close>

record id_token_claims =
  claim_issuer :: string
  claim_subject :: string
  claim_email :: "string option"
  claim_preferred_username :: "string option"
  claim_upn :: "string option"
  claim_tid :: "string option"

record 'k id_token_verifier =
  ver_client_id :: string
  ver_client_secret :: "string option"
  ver_issuer :: string
  ver_keys :: "'k list"
  ver_algs :: "string list"
  ver_now :: instant

text \<open>
  URL parsing, the canonical form of a UUID, Base64, JSON and the two readers that serde derives for a
  header with a key id, \<open>openidconnect\<close>'s token parser and verifier, the \<open>chrono\<close> range, UTF-8 validity and
  Unicode lower-casing.
\<close>

record ('k, 't) oidc_library =
  lib_url :: "string \<Rightarrow> url_view option"
  lib_uuid :: "string \<Rightarrow> string option"
  lib_base64 :: "string \<Rightarrow> string option"
  lib_json :: "string \<Rightarrow> json option"
  lib_kid :: "string \<Rightarrow> string option option"
  lib_token :: "string \<Rightarrow> 't option"
  lib_claims :: "'k id_token_verifier \<Rightarrow> string \<Rightarrow> 't \<Rightarrow> id_token_claims option"
  lib_time_ok :: "instant \<Rightarrow> bool"
  lib_utf8 :: "string \<Rightarrow> bool"
  lib_lower :: "string \<Rightarrow> string"

section \<open>Signing keys\<close>

record metadata_response =
  md_status :: u16
  md_content_type :: "string option"
  md_body :: string

definition essence_is_one_of :: "string \<Rightarrow> string list \<Rightarrow> bool" where
  "essence_is_one_of content_type allowed_essences =
     (let essence = to_ascii_lowercase (trim (hd (split_char (CHR '';'') content_type)))
      in list_ex (\<lambda>allowed. essence = to_ascii_lowercase allowed) allowed_essences)"

definition json_essences :: "string list" where
  "json_essences = [''application/json'', ''application/jwk-set+json'']"

definition into_json_body :: "metadata_response \<Rightarrow> nat \<Rightarrow> string list \<Rightarrow> (oidc_error, string) result" where
  "into_json_body response max_body_bytes allowed_essences =
     (if md_status response \<noteq> 200 then Err MetadataStatusNotOk
      else if length (md_body response) > max_body_bytes then Err MetadataTooLarge
      else (case md_content_type response of
              None \<Rightarrow> Err MetadataContentTypeInvalid
            | Some content_type \<Rightarrow>
                if \<not> essence_is_one_of content_type allowed_essences then Err MetadataContentTypeInvalid
                else Ok (md_body response)))"

definition allows_refresh :: "duration \<Rightarrow> instant option \<Rightarrow> instant \<Rightarrow> bool" where
  "allows_refresh cooldown last_fetch now =
     (case last_fetch of
        None \<Rightarrow> True
      | Some last_at \<Rightarrow> if cooldown \<le> 0 then True else now \<ge> last_at \<and> now - last_at \<ge> cooldown)"

text \<open>A key is its identifier, if it has one, and what a verifier uses of it.\<close>

record 'k jwks_cache =
  cached_keys :: "(string option \<times> 'k) list"
  last_fetch_at :: "instant option"
  key_issuers :: "(string \<times> string) list"

definition cache_contains :: "'k jwks_cache \<Rightarrow> string option \<Rightarrow> bool" where
  "cache_contains cache kid =
     (case kid of None \<Rightarrow> cached_keys cache \<noteq> [] | Some k \<Rightarrow> list_ex (\<lambda>(i, _). i = Some k) (cached_keys cache))"

definition bad_label :: "nat \<Rightarrow> string \<Rightarrow> bool" where
  "bad_label limit s \<longleftrightarrow> s = [] \<or> length s > limit \<or> list_ex is_control (chars s)"

fun parse_key_issuers_loop ::
  "(string option \<times> string option) list \<Rightarrow> string set \<Rightarrow> (string \<times> string) list
     \<Rightarrow> (oidc_error, (string \<times> string) list) result" where
  "parse_key_issuers_loop [] seen issuers = Ok issuers"
| "parse_key_issuers_loop ((None, _) # keys) seen issuers = parse_key_issuers_loop keys seen issuers"
| "parse_key_issuers_loop ((Some kid, issuer) # keys) seen issuers =
     (if bad_label 256 kid then Err MetadataMalformed
      else if kid \<in> seen then Err MetadataMalformed
      else (case issuer of
              None \<Rightarrow> parse_key_issuers_loop keys (insert kid seen) issuers
            | Some iss \<Rightarrow>
                if bad_label 2048 iss then Err MetadataMalformed
                else parse_key_issuers_loop keys (insert kid seen) (fst (bt_insert kid iss issuers))))"

text \<open>
  What a refresh finds: whether the address of the key set parses, what the transport answers (\<open>None\<close>: it
  is unavailable), and the two readings of the body, as keys and as pairs of key and issuer.
\<close>

record 'k key_source =
  src_url_ok :: bool
  src_answer :: "metadata_response option"
  src_keys :: "string \<Rightarrow> (string option \<times> 'k) list option"
  src_issuers :: "string \<Rightarrow> (string option \<times> string option) list option"

definition jwks_refresh ::
  "'k key_source \<Rightarrow> nat \<Rightarrow> instant \<Rightarrow> 'k jwks_cache \<Rightarrow> (oidc_error, unit) result \<times> 'k jwks_cache" where
  "jwks_refresh src max_bytes now cache =
     (let cache = cache\<lparr>last_fetch_at := Some now\<rparr>;
          found = (if \<not> src_url_ok src then Err MetadataMalformed
            else and_then (ok_or TransportUnavailable (src_answer src)) (\<lambda>response.
                 and_then (into_json_body response max_bytes json_essences) (\<lambda>body.
                 and_then (ok_or MetadataMalformed (src_keys src body)) (\<lambda>keys.
                 and_then (ok_or MetadataMalformed (src_issuers src body)) (\<lambda>raw.
                 and_then (parse_key_issuers_loop raw {} []) (\<lambda>issuers. Ok (keys, issuers)))))))
      in (case found of
            Inl e \<Rightarrow> (Err e, cache)
          | Inr (keys, issuers) \<Rightarrow> (Ok (), cache\<lparr>cached_keys := keys, key_issuers := issuers\<rparr>)))"

definition key_set_for ::
  "string option \<Rightarrow> 'k key_source \<Rightarrow> nat \<Rightarrow> duration \<Rightarrow> instant \<Rightarrow> 'k jwks_cache
     \<Rightarrow> (oidc_error, (string option \<times> 'k) list) result \<times> 'k jwks_cache" where
  "key_set_for kid src max_bytes cooldown now cache =
     (if cache_contains cache kid then (Ok (cached_keys cache), cache)
      else if \<not> allows_refresh cooldown (last_fetch_at cache) now then (Err JwksRefreshRateLimited, cache)
      else (case jwks_refresh src max_bytes now cache of
              (Inl e, cache) \<Rightarrow> (Err e, cache)
            | (Inr _, cache) \<Rightarrow>
                if cache_contains cache kid then (Ok (cached_keys cache), cache)
                else (Err JwksKeyNotFound, cache)))"

section \<open>Tokens and claims\<close>

definition max_jose_header_bytes :: nat where "max_jose_header_bytes = 8 * 1024"
definition max_kid_bytes :: nat where "max_kid_bytes = 256"
definition max_verified_claims_bytes :: nat where "max_verified_claims_bytes = 256 * 1024"

text \<open>The three segments of a token.\<close>

definition token_segments :: "string \<Rightarrow> (oidc_error, string \<times> string \<times> string) result" where
  "token_segments raw =
     (case split_char (CHR ''.'') raw of
        [header, payload, signature] \<Rightarrow> Ok (header, payload, signature)
      | _ \<Rightarrow> Err IdTokenMalformed)"

definition untrusted_key_id :: "('k, 't) oidc_library \<Rightarrow> string \<Rightarrow> (oidc_error, string option) result" where
  "untrusted_key_id lib raw =
     and_then (token_segments raw) (\<lambda>(header, payload, signature).
     if header = [] \<or> payload = [] \<or> signature = [] then Err IdTokenMalformed
     else if length header > max_jose_header_bytes * 2 then Err IdTokenMalformed
     else and_then (ok_or IdTokenMalformed (lib_base64 lib header)) (\<lambda>decoded.
     if length decoded > max_jose_header_bytes then Err IdTokenMalformed
     else (case lib_kid lib decoded of
             None \<Rightarrow> Err IdTokenMalformed
           | Some None \<Rightarrow> Ok None
           | Some (Some kid) \<Rightarrow> if bad_label max_kid_bytes kid then Err IdTokenMalformed else Ok (Some kid))))"

definition verified_payload_json :: "('k, 't) oidc_library \<Rightarrow> string \<Rightarrow> (oidc_error, json) result" where
  "verified_payload_json lib raw =
     and_then (token_segments raw) (\<lambda>(header, payload, signature).
     if length payload > max_verified_claims_bytes * 2 then Err IdTokenMalformed
     else and_then (ok_or IdTokenMalformed (lib_base64 lib payload)) (\<lambda>decoded.
     if length decoded > max_verified_claims_bytes then Err IdTokenMalformed
     else ok_or IdTokenMalformed (lib_json lib decoded)))"

record verified_identity =
  vi_issuer :: string
  vi_subject :: string
  vi_email :: string
  vi_groups :: "group_name set"
  vi_group_normalization :: group_normalization
  vi_group_claim_present :: bool

definition default_id_token_signing_algs :: "string list" where
  "default_id_token_signing_algs = [''RS256'']"

definition build_verifier_at ::
  "('k, 't) oidc_library \<Rightarrow> oidc_provider_config \<Rightarrow> string option \<Rightarrow> 'k list \<Rightarrow> string list \<Rightarrow> instant
     \<Rightarrow> (oidc_error, 'k id_token_verifier) result" where
  "build_verifier_at lib provider client_secret keys allowed_algs now =
     (if \<not> lib_time_ok lib now then Err IdTokenRejected
      else Ok \<lparr>ver_client_id = config_client_id provider, ver_client_secret = client_secret,
               ver_issuer = kind_issuer (config_kind provider), ver_keys = keys,
               ver_algs = filter (\<lambda>a. a \<noteq> ''none'') allowed_algs, ver_now = now\<rparr>)"

definition resolve_directory_email :: "id_token_claims \<Rightarrow> (oidc_error, string) result" where
  "resolve_directory_email claims =
     ok_or EmailClaimMissing
       (List.find claim_looks_like_an_address
         (List.map_filter id [claim_email claims, claim_upn claims, claim_preferred_username claims]))"

definition tenant_refused :: "('k, 't) oidc_library \<Rightarrow> provider_kind \<Rightarrow> id_token_claims \<Rightarrow> bool" where
  "tenant_refused lib kind claims =
     (case kind of
        Entra _ _ tenants \<Rightarrow> \<not> tenants_accept (lib_uuid lib) tenants (claim_tid claims)
      | _ \<Rightarrow> False)"

definition verify_with_group_mapping ::
  "('k, 't) oidc_library \<Rightarrow> string \<Rightarrow> 'k id_token_verifier \<Rightarrow> oidc_provider_config \<Rightarrow> string
     \<Rightarrow> idp_group_mapping option \<Rightarrow> (oidc_error, verified_identity) result" where
  "verify_with_group_mapping lib raw verifier provider nonce group_mapping =
     and_then (ok_or IdTokenMalformed (lib_token lib raw)) (\<lambda>token.
     and_then (ok_or IdTokenRejected (lib_claims lib verifier nonce token)) (\<lambda>claims.
     if tenant_refused lib (config_kind provider) claims then Err TenantNotAllowed
     else and_then (resolve_directory_email claims) (\<lambda>email.
     and_then
       (case group_mapping of
          None \<Rightarrow> Ok ({}, Exact, False)
        | Some mapping \<Rightarrow>
            if provider_str (mapping_provider mapping) \<noteq> provider_id_str (config_id provider)
            then Err GroupMappingMismatch
            else and_then (verified_payload_json lib raw) (\<lambda>payload.
              case resolve_group_claims (lib_lower lib) payload mapping of
                Inl _ \<Rightarrow> Err GroupClaimRejected
              | Inr resolved \<Rightarrow> Ok (claimed_groups resolved, mapping_normalization mapping, claim_present resolved)))
       (\<lambda>(groups, normalization, present).
     Ok \<lparr>vi_issuer = claim_issuer claims, vi_subject = claim_subject claims, vi_email = email,
         vi_groups = groups, vi_group_normalization = normalization, vi_group_claim_present = present\<rparr>))))"

text \<open>The derived reader takes the two fields from an object, or from an array of exactly two.\<close>

definition entra_issuer_claims :: "json \<Rightarrow> (string \<times> string) option" where
  "entra_issuer_claims payload =
     (case payload of
        JObject m \<Rightarrow>
          (case (map_of m ''iss'', map_of m ''tid'') of
             (Some (JString iss), Some (JString tid)) \<Rightarrow> Some (iss, tid)
           | _ \<Rightarrow> None)
      | JArray [JString iss, JString tid] \<Rightarrow> Some (iss, tid)
      | _ \<Rightarrow> None)"

fun substitute_first :: "string list \<Rightarrow> string \<Rightarrow> string \<Rightarrow> string option" where
  "substitute_first [] template tenant = None"
| "substitute_first (marker # markers) template tenant =
     (case split_once marker (to_ascii_lowercase template) of
        Some (before, _) \<Rightarrow>
          Some (take (length before) template @ tenant @ drop (length before + length marker) template)
      | None \<Rightarrow> substitute_first markers template tenant)"

definition substitute_tenant_template :: "string \<Rightarrow> string \<Rightarrow> string option" where
  "substitute_tenant_template template tenant =
     substitute_first [''{tenantid}'', ''%7btenantid%7d''] template tenant"

definition tenant_issuer :: "string \<Rightarrow> string \<Rightarrow> string" where
  "tenant_issuer template tenant =
     (case substitute_tenant_template template tenant of Some s \<Rightarrow> s | None \<Rightarrow> template)"

definition validate_entra_token_issuer ::
  "('k, 't) oidc_library \<Rightarrow> string \<Rightarrow> oidc_provider_config \<Rightarrow> string \<Rightarrow> (oidc_error, string) result" where
  "validate_entra_token_issuer lib raw provider signing_key_issuer =
     (case config_kind provider of
        Entra _ issuer tenants \<Rightarrow>
          and_then (verified_payload_json lib raw) (\<lambda>payload.
          and_then (ok_or IdTokenRejected (entra_issuer_claims payload)) (\<lambda>(iss, tid).
          if \<not> tenants_accept (lib_uuid lib) tenants (Some tid) then Err TenantNotAllowed
          else if lib_uuid lib tid \<noteq> Some tid then Err IdTokenRejected
          else if tenant_issuer issuer tid \<noteq> iss then Err IdTokenRejected
          else if tenant_issuer signing_key_issuer tid \<noteq> iss then Err IdTokenRejected
          else (case parse_issuer (lib_url lib) iss of Inl _ \<Rightarrow> Err IdTokenRejected | Inr i \<Rightarrow> Ok i)))
      | _ \<Rightarrow> Err IdTokenRejected)"

section \<open>Configured providers\<close>

record oauth_client =
  oauth_client_id :: string
  oauth_client_secret :: string

record oidc_auth_config =
  auth_public_url :: string
  auth_google :: "oauth_client option"
  auth_microsoft :: "(oauth_client \<times> string) option"
  auth_okta :: "(oauth_client \<times> string) option"

definition microsoft_authority_origin :: string where
  "microsoft_authority_origin = ''https://login.microsoftonline.com''"

definition microsoft_issuer_template :: string where
  "microsoft_issuer_template = ''https://login.microsoftonline.com/{tenantid}/v2.0''"

definition trim_end_slashes :: "string \<Rightarrow> string" where
  "trim_end_slashes s = rev (dropWhile (\<lambda>c. c = CHR ''/'') (rev s))"

definition validate_public_base :: "(string \<Rightarrow> url_view option) \<Rightarrow> string \<Rightarrow> (oidc_error, unit) result" where
  "validate_public_base parse_url raw =
     (case parse_url raw of
        None \<Rightarrow> Err RedirectUriNotCanonical
      | Some url \<Rightarrow>
          if url_scheme url \<notin> {''http'', ''https''} \<or> url_host url = None \<or> url_query url \<noteq> None
            \<or> url_fragment url \<noteq> None \<or> url_username url \<noteq> [] \<or> url_password url \<noteq> None
            \<or> trim_end_slashes (url_text url) \<noteq> trim_end_slashes raw
          then Err RedirectUriNotCanonical else Ok ())"

definition microsoft_url :: "string \<Rightarrow> string" where
  "microsoft_url segment = microsoft_authority_origin @ ''/'' @ segment @ ''/v2.0''"

definition entra_kind :: "('k, 't) oidc_library \<Rightarrow> string \<Rightarrow> (oidc_error, provider_kind) result" where
  "entra_kind lib tenant =
     and_then
       (if tenant = ''common'' then Ok (''common'', microsoft_issuer_template, TenantIndependent True)
        else if tenant = ''organizations''
        then Ok (''organizations'', microsoft_issuer_template, TenantIndependent False)
        else if tenant = ''consumers''
        then Ok (''consumers'', microsoft_url microsoft_consumer_tenant_id, AllowList [microsoft_consumer_tenant_id])
        else (case lib_uuid lib tenant of
                None \<Rightarrow> Err EntraTenantMalformed
              | Some canonical \<Rightarrow>
                  if canonical \<noteq> tenant then Err EntraTenantMalformed
                  else Ok (canonical, microsoft_url canonical, AllowList [canonical])))
       (\<lambda>(segment, issuer, policy).
     and_then (parse_issuer (lib_url lib) (microsoft_url segment)) (\<lambda>authority.
     and_then (parse_issuer (lib_url lib) issuer) (\<lambda>issuer. Ok (Entra authority issuer policy))))"

definition configured_provider ::
  "('k, 't) oidc_library \<Rightarrow> string \<Rightarrow> provider_kind \<Rightarrow> oauth_client \<Rightarrow> string
     \<Rightarrow> (oidc_error, oidc_provider_config \<times> string) result" where
  "configured_provider lib pid kind client public_url =
     (let callback = trim_end_slashes public_url @ ''/api/auth/oidc/'' @ pid @ ''/callback'' in
      and_then (provider_id_parse pid) (\<lambda>provider.
      and_then (redirect_parse (lib_url lib) callback https_or_http) (\<lambda>redirect.
      Ok (\<lparr>config_id = provider, config_kind = kind, config_origin = EnvironmentConfigured,
           config_client_id = oauth_client_id client, config_redirect_uri = redirect,
           config_domains = [], config_registered_by = None\<rparr>, oauth_client_secret client))))"

text \<open>Pushing a provider where the configuration has one.\<close>

definition when_configured ::
  "'c option \<Rightarrow> ('c \<Rightarrow> (oidc_error, 'p) result) \<Rightarrow> 'p list \<Rightarrow> (oidc_error, 'p list) result" where
  "when_configured present f providers =
     (case present of None \<Rightarrow> Ok providers | Some c \<Rightarrow> and_then (f c) (\<lambda>p. Ok (providers @ [p])))"

definition configured_oidc_providers ::
  "('k, 't) oidc_library \<Rightarrow> oidc_auth_config \<Rightarrow> (oidc_error, (oidc_provider_config \<times> string) list) result" where
  "configured_oidc_providers lib auth =
     and_then (validate_public_base (lib_url lib) (auth_public_url auth)) (\<lambda>_.
     and_then (when_configured (auth_google auth)
       (\<lambda>client. configured_provider lib ''google'' Google client (auth_public_url auth)) []) (\<lambda>providers.
     and_then (when_configured (auth_microsoft auth)
       (\<lambda>(client, tenant). and_then (entra_kind lib tenant) (\<lambda>kind.
          configured_provider lib ''microsoft'' kind client (auth_public_url auth))) providers) (\<lambda>providers.
     when_configured (auth_okta auth)
       (\<lambda>(client, issuer). and_then (parse_issuer (lib_url lib) issuer) (\<lambda>issuer.
          configured_provider lib ''okta'' (DeploymentOwned issuer) client (auth_public_url auth))) providers)))"

section \<open>The coordinator\<close>

datatype attempt_store_error =
  AttemptDependencyUnavailable | AttemptCorrupt | StoredUnknown | StoredExpired | StoredProviderMismatch | StoredFull

datatype rate_limit_store_error = RateLimitDependencyUnavailable | RateLimitCorrupt

datatype session_issue_error =
  SessionDependencyUnavailable | SessionAccessRevoked | SessionIdentityConflict | SessionCorrupt | SessionRandomUnavailable

datatype oidc_login_error =
    LoginProtocol oidc_error
  | LoginAttemptStore attempt_store_error
  | LoginSession session_issue_error
  | LoginRateLimitStore rate_limit_store_error
  | LoginRateLimited

definition default_attempt_ttl :: duration where "default_attempt_ttl = 10 * 60 * 1000000000"
definition default_jwks_cooldown :: duration where "default_jwks_cooldown = 60 * 1000000000"
definition default_metadata_max_bytes :: nat where "default_metadata_max_bytes = 256 * 1024"
definition max_authorization_code_bytes :: nat where "max_authorization_code_bytes = 8 * 1024"

record 'k provider_runtime =
  rt_config :: oidc_provider_config
  rt_client_secret :: "string option"
  rt_token_endpoint :: "string option"
  rt_jwks :: "'k jwks_cache"
  rt_group_mapping :: "idp_group_mapping option"

definition protocol :: "(oidc_error, 'a) result \<Rightarrow> (oidc_login_error, 'a) result" where
  "protocol r = (case r of Inl e \<Rightarrow> Err (LoginProtocol e) | Inr a \<Rightarrow> Ok a)"

definition materialize_client_secret ::
  "('k, 't) oidc_library \<Rightarrow> string option \<Rightarrow> (oidc_error, string option) result" where
  "materialize_client_secret lib secret =
     (case secret of
        None \<Rightarrow> Ok None
      | Some bytes \<Rightarrow> if lib_utf8 lib bytes then Ok (Some bytes) else Err TokenExchangeRejected)"

definition bind_entra_token_issuer ::
  "('k, 't) oidc_library \<Rightarrow> oidc_provider_config \<Rightarrow> string \<Rightarrow> string option \<Rightarrow> (oidc_error, oidc_provider_config) result" where
  "bind_entra_token_issuer lib provider raw signing_key_issuer =
     (case config_kind provider of
        Entra _ _ tenants \<Rightarrow>
          if \<not> tenant_independent tenants then Ok provider
          else and_then (ok_or IdTokenRejected signing_key_issuer) (\<lambda>key_issuer.
               and_then (validate_entra_token_issuer lib raw provider key_issuer) (\<lambda>concrete.
               with_entra_token_issuer provider concrete))
      | _ \<Rightarrow> Ok provider)"

text \<open>
  What is outside during a callback: whether a client for the token endpoint can be made, the exchange of
  a code under its verifier and the client's secret, the key source, and the issuing of a session.
\<close>

record ('k, 's) callback_world =
  world_http_ok :: "string \<Rightarrow> bool"
  world_exchange :: "string \<Rightarrow> string \<Rightarrow> string option \<Rightarrow> (oidc_error, string) result"
  world_keys :: "'k key_source"
  world_issue :: "verified_identity \<Rightarrow> oidc_provider_config \<Rightarrow> (session_issue_error, 's) result"

text \<open>From the token to the session, with the keys found for it; before it, from the code to the token. What
  these steps answer with \<open>?\<close> is an \<open>OidcError\<close>, which becomes \<open>Protocol\<close>.\<close>

definition accept_token ::
  "('k, 't) oidc_library \<Rightarrow> ('k, 's) callback_world \<Rightarrow> 'k provider_runtime \<Rightarrow> string option \<Rightarrow> string \<Rightarrow> string
     \<Rightarrow> 'k list \<Rightarrow> string option \<Rightarrow> instant \<Rightarrow> (oidc_login_error, 's) result" where
  "accept_token lib world runtime client_secret nonce raw keys key_issuer now =
     and_then (protocol (bind_entra_token_issuer lib (rt_config runtime) raw key_issuer)) (\<lambda>verified_provider.
     and_then (protocol (build_verifier_at lib verified_provider client_secret keys
                default_id_token_signing_algs now)) (\<lambda>verifier.
     and_then (protocol (verify_with_group_mapping lib raw verifier verified_provider nonce
                (rt_group_mapping runtime))) (\<lambda>identity.
     case world_issue world identity verified_provider of
       Inl e \<Rightarrow> Err (LoginSession e)
     | Inr session \<Rightarrow> Ok session)))"

definition fetch_token ::
  "('k, 't) oidc_library \<Rightarrow> ('k, 's) callback_world \<Rightarrow> 'k provider_runtime \<Rightarrow> callback_login_attempt
     \<Rightarrow> string \<Rightarrow> string \<Rightarrow> (oidc_error, string option \<times> string \<times> string option) result" where
  "fetch_token lib world runtime attempt code received =
     and_then (assert_exact_match (cb_redirect_uri attempt) received) (\<lambda>_.
     and_then (assert_exact_match (config_redirect_uri (rt_config runtime)) received) (\<lambda>_.
     if code = [] \<or> length code > max_authorization_code_bytes \<or> \<not> is_ascii code then Err TokenExchangeRejected
     else and_then (ok_or TokenEndpointMissing (rt_token_endpoint runtime)) (\<lambda>endpoint.
     if \<not> world_http_ok world endpoint then Err MetadataEndpointRejected
     else and_then (materialize_client_secret lib (rt_client_secret runtime)) (\<lambda>client_secret.
     and_then (world_exchange world code (cb_verifier attempt) client_secret) (\<lambda>raw.
     and_then (untrusted_key_id lib raw) (\<lambda>kid. Ok (client_secret, raw, kid)))))))"

definition finish_callback ::
  "('k, 't) oidc_library \<Rightarrow> ('k, 's) callback_world \<Rightarrow> 'k provider_runtime \<Rightarrow> callback_login_attempt
     \<Rightarrow> string \<Rightarrow> string \<Rightarrow> instant \<Rightarrow> (oidc_login_error, 's) result \<times> 'k provider_runtime" where
  "finish_callback lib world runtime attempt code received now =
     (case fetch_token lib world runtime attempt code received of
        Inl e \<Rightarrow> (Err (LoginProtocol e), runtime)
      | Inr (client_secret, raw, kid) \<Rightarrow>
          (case key_set_for kid (world_keys world) default_metadata_max_bytes default_jwks_cooldown now
                  (rt_jwks runtime) of
             (Inl e, cache) \<Rightarrow> (Err (LoginProtocol e), runtime\<lparr>rt_jwks := cache\<rparr>)
           | (Inr keys, cache) \<Rightarrow>
               (accept_token lib world runtime client_secret (cb_nonce attempt) raw (map snd keys)
                  (case kid of None \<Rightarrow> None | Some k \<Rightarrow> map_of (key_issuers cache) k) now,
                runtime\<lparr>rt_jwks := cache\<rparr>)))"

text \<open>The first half: the caller's rate limit, then the attempt, which is used up.\<close>

definition begin_callback ::
  "(rate_limit_store_error, rate_limit_decision) result \<Rightarrow> (attempt_store_error, callback_login_attempt) result
     \<Rightarrow> (oidc_login_error, callback_login_attempt) result" where
  "begin_callback limited consumed =
     (case limited of
        Inl e \<Rightarrow> Err (LoginRateLimitStore e)
      | Inr decision \<Rightarrow>
          if \<not> rate_allowed decision then Err LoginRateLimited
          else (case consumed of Inl e \<Rightarrow> Err (LoginAttemptStore e) | Inr attempt \<Rightarrow> Ok attempt))"

section \<open>An attempt is redeemed once\<close>

datatype store_call =
  InsertAttempt login_attempt instant | ConsumeAttempt string provider_id instant | SweepAttempts instant

fun store_do :: "store_call \<Rightarrow> attempt_store \<Rightarrow> attempt_store" where
  "store_do (InsertAttempt a now) s = snd (store_insert a now s)"
| "store_do (ConsumeAttempt state provider now) s = snd (store_consume state provider now s)"
| "store_do (SweepAttempts now) s = snd (sweep_expired now s)"

fun taken_in :: "store_call \<Rightarrow> attempt_store \<Rightarrow> login_attempt list" where
  "taken_in (InsertAttempt a now) s = (if is_ok (fst (store_insert a now s)) then [a] else [])"
| "taken_in _ s = []"

fun handed_out :: "store_call \<Rightarrow> attempt_store \<Rightarrow> login_attempt list" where
  "handed_out (ConsumeAttempt state provider now) s =
     (case fst (store_consume state provider now s) of Inr a \<Rightarrow> [a] | Inl _ \<Rightarrow> [])"
| "handed_out _ s = []"

definition store_ok :: "attempt_store \<Rightarrow> bool" where
  "store_ok s \<longleftrightarrow> length (by_state s) \<le> store_capacity s \<and> (\<forall>(state, a)\<in>set (by_state s). la_state a = state)"

lemma store_capacity_kept: "store_capacity (store_do c s) = store_capacity s"
  by (cases c) (simp_all add: store_insert_def store_consume_def sweep_expired_def Let_def split: option.splits)

lemma without_state_small: "length (without_state state m) \<le> length m" "set (without_state state m) \<subseteq> set m"
  by (auto simp: without_state_def)

lemma sweep_ok: "store_ok s \<Longrightarrow> store_ok (snd (sweep_expired now s))"
  by (auto simp: store_ok_def sweep_expired_def Let_def intro: le_trans [OF length_filter_le])

lemma insert_fits:
  assumes "store_ok s" "length (by_state s) < store_capacity s"
  shows "store_ok (s\<lparr>by_state := (la_state a, a) # without_state (la_state a) (by_state s)\<rparr>)"
proof -
  have "length (without_state (la_state a) (by_state s)) < store_capacity s"
    using without_state_small(1) [of "la_state a" "by_state s"] assms(2) by simp
  then show ?thesis using assms(1) without_state_small(2) [of "la_state a" "by_state s"]
    by (auto simp: store_ok_def Suc_le_eq)
qed

lemma store_do_ok:
  assumes "store_ok s"
  shows "store_ok (store_do c s)"
proof (cases c)
  case (InsertAttempt a now)
  let ?s = "if length (by_state s) \<ge> store_capacity s then snd (sweep_expired now s) else s"
  have "store_ok ?s" using assms sweep_ok by simp
  then show ?thesis using insert_fits [of ?s a] InsertAttempt
    by (auto simp: store_insert_def Let_def)
next
  case (ConsumeAttempt state provider now)
  have "store_ok (s\<lparr>by_state := without_state state (by_state s)\<rparr>)"
    using assms without_state_small [of state "by_state s"] by (auto simp: store_ok_def)
  then show ?thesis using assms ConsumeAttempt by (auto simp: store_consume_def Let_def split: option.splits)
next
  case (SweepAttempts now)
  then show ?thesis using assms sweep_ok by simp
qed

interpretation attempts: guarded_machine "\<lambda>s c. Ok (store_do c s) :: (oidc_error, attempt_store) result" store_ok
  by unfold_locales (auto dest: store_do_ok)

text \<open>What a sequence of calls took in and handed out; a hand-out is recorded with its call.\<close>

primrec all_taken_in :: "store_call list \<Rightarrow> attempt_store \<Rightarrow> login_attempt list" where
  "all_taken_in [] s = []"
| "all_taken_in (c # cs) s = taken_in c s @ all_taken_in cs (store_do c s)"

primrec all_handed_out :: "store_call list \<Rightarrow> attempt_store \<Rightarrow> (store_call \<times> login_attempt) list" where
  "all_handed_out [] s = []"
| "all_handed_out (c # cs) s = map (Pair c) (handed_out c s) @ all_handed_out cs (store_do c s)"

definition rightly_handed_out :: "store_call \<times> login_attempt \<Rightarrow> bool" where
  "rightly_handed_out = (\<lambda>(c, a). \<exists>now. c = ConsumeAttempt (la_state a) (la_provider a) now \<and> now < la_expires_at a)"

abbreviation stored :: "attempt_store \<Rightarrow> login_attempt multiset" where
  "stored s \<equiv> mset (map snd (by_state s))"

lemma stored_sweep: "stored (snd (sweep_expired now s)) \<subseteq># stored s"
  by (simp add: sweep_expired_def Let_def image_mset_subseteq_mono multiset_filter_subset)

lemma stored_without: "mset (map snd (without_state state m)) \<subseteq># mset (map snd m)"
  by (simp add: without_state_def image_mset_subseteq_mono multiset_filter_subset)

lemma take_out:
  assumes "map_of m state = Some a"
  shows "add_mset a (mset (map snd (without_state state m))) \<subseteq># mset (map snd m)"
proof -
  have "(state, a) \<in># mset m" using map_of_SomeD [OF assms] by simp
  then have "add_mset (state, a) (filter_mset (\<lambda>(k, _). k \<noteq> state) (mset m)) \<subseteq># mset m"
    by (auto simp: subseteq_mset_def Suc_le_eq count_greater_zero_iff simp del: set_mset_mset)
  from image_mset_subseteq_mono [OF this, of snd] show ?thesis by (simp add: without_state_def)
qed

lemma step_conserves:
  "mset (handed_out c s) + stored (store_do c s) \<subseteq># mset (taken_in c s) + stored s"
proof (cases c)
  case (InsertAttempt a now)
  let ?s = "if length (by_state s) \<ge> store_capacity s then snd (sweep_expired now s) else s"
  have "stored ?s \<subseteq># stored s" using stored_sweep by simp
  moreover have "mset (map snd (without_state (la_state a) (by_state ?s))) \<subseteq># stored ?s" by (rule stored_without)
  ultimately show ?thesis using InsertAttempt subset_mset.order_trans
    by (auto simp: store_insert_def Let_def)
next
  case (ConsumeAttempt state provider now)
  then show ?thesis using take_out [of "by_state s" state] stored_without [of state "by_state s"]
    by (auto simp: store_consume_def Let_def split: option.splits)
next
  case (SweepAttempts now)
  then show ?thesis using stored_sweep by simp
qed

lemma step_rightly:
  assumes "store_ok s" "a \<in> set (handed_out c s)"
  shows "rightly_handed_out (c, a)"
  using assms
  by (cases c) (auto simp: store_consume_def Let_def rightly_handed_out_def store_ok_def attempt_expired_def
      dest!: map_of_SomeD split: option.splits if_splits)

text \<open>C8: A sign-in attempt is redeemed at most once. However attempts are stored, redeemed and swept, those
  handed out and those still stored are among the attempts that were stored, each as often as it was
  stored; an attempt is handed out only for its own state and its own provider and before it expires;
  and the store never holds more than its capacity.\<close>

theorem attempt_redeemed_once:
  fixes calls :: "store_call list" and capacity :: nat
  defines "s \<equiv> store_with_capacity capacity"
  shows "mset (map snd (all_handed_out calls s)) + stored (attempts.run_events s calls) \<subseteq># mset (all_taken_in calls s)
    \<and> list_all rightly_handed_out (all_handed_out calls s)
    \<and> length (by_state (attempts.run_events s calls)) \<le> capacity"
proof -
  have conserved: "mset (map snd (all_handed_out cs s)) + stored (attempts.run_events s cs)
      \<subseteq># mset (all_taken_in cs s) + stored s" for cs s
  proof (induction cs arbitrary: s)
    case (Cons c cs)
    from subset_mset.add_mono [OF Cons.IH [of "store_do c s"] step_conserves [of c s]]
    show ?case by (simp add: comp_def ac_simps)
  qed simp
  have rightly: "list_all rightly_handed_out (all_handed_out cs s)" if "store_ok s" for cs s
    using that
  proof (induction cs arbitrary: s)
    case (Cons c cs)
    from Cons.IH [OF store_do_ok [OF Cons.prems, of c]] step_rightly [OF Cons.prems, of _ c]
    show ?case by (auto simp: list_all_iff)
  qed simp
  have ok: "store_ok s" by (simp add: s_def store_ok_def store_with_capacity_def)
  have cap: "store_capacity (attempts.run_events s calls) = capacity"
    by (rule attempts.run_events_preserves [of "\<lambda>t. store_capacity t = capacity"])
      (auto simp: store_capacity_kept s_def store_with_capacity_def)
  show ?thesis
    using conserved [of calls s] rightly [OF ok] attempts.run_events_inv [OF ok, of calls] cap
    by (auto simp: store_ok_def s_def store_with_capacity_def)
qed

section \<open>Keys are not fetched more often than allowed\<close>

text \<open>The times at which a sequence of look-ups reaches for the key set.\<close>

primrec key_fetches ::
  "duration \<Rightarrow> nat \<Rightarrow> (string option \<times> 'k key_source \<times> instant) list \<Rightarrow> 'k jwks_cache \<Rightarrow> instant list" where
  "key_fetches cooldown limit [] cache = []"
| "key_fetches cooldown limit (c # cs) cache =
     (case c of (kid, src, now) \<Rightarrow>
       (if cache_contains cache kid \<or> \<not> allows_refresh cooldown (last_fetch_at cache) now then [] else [now])
       @ key_fetches cooldown limit cs (snd (key_set_for kid src limit cooldown now cache)))"

lemma key_set_for_last_fetch:
  "last_fetch_at (snd (key_set_for kid src limit cooldown now cache)) =
     (if cache_contains cache kid \<or> \<not> allows_refresh cooldown (last_fetch_at cache) now then last_fetch_at cache
      else Some now)"
proof -
  have "last_fetch_at (snd (jwks_refresh src limit now cache)) = Some now"
    by (simp add: jwks_refresh_def Let_def split: sum.split)
  then show ?thesis by (auto simp: key_set_for_def split: prod.split sum.split)
qed

lemma fetches_after:
  assumes "0 < cooldown"
  shows "sorted_wrt (\<lambda>a b. b - a \<ge> cooldown) (key_fetches cooldown limit calls cache)
    \<and> (\<forall>t\<in>set (key_fetches cooldown limit calls cache). \<forall>l. last_fetch_at cache = Some l \<longrightarrow> t - l \<ge> cooldown)"
proof (induction calls arbitrary: cache)
  case (Cons c calls)
  obtain kid src now where c: "c = (kid, src, now)" by (cases c)
  let ?next = "snd (key_set_for kid src limit cooldown now cache)"
  note IH = Cons.IH [of ?next] and l = key_set_for_last_fetch [of kid src limit cooldown now cache]
  show ?case
  proof (cases "cache_contains cache kid \<or> \<not> allows_refresh cooldown (last_fetch_at cache) now")
    case True
    then show ?thesis using IH l by (simp add: c)
  next
    case False
    then have n: "last_fetch_at ?next = Some now" using l by simp
    have later: "t - now \<ge> cooldown" if "t \<in> set (key_fetches cooldown limit calls ?next)" for t
      using IH n that by blast
    have first: "now - l \<ge> cooldown" if "last_fetch_at cache = Some l" for l
      using False assms that by (simp add: allows_refresh_def)
    have "t - l \<ge> cooldown" if "t \<in> set (key_fetches cooldown limit calls ?next)" "last_fetch_at cache = Some l" for t l
      using later [OF that(1)] first [OF that(2)] assms by linarith
    then show ?thesis using IH False first later by (auto simp: c)
  qed
qed simp

text \<open>An unknown key cannot be used to hammer a provider: fetches are at least the cool-down apart, also
  when they fail and whatever the clock does in between.\<close>

lemma key_fetches_are_spaced:
  "0 < cooldown \<Longrightarrow> sorted_wrt (\<lambda>a b. b - a \<ge> cooldown) (key_fetches cooldown limit calls cache)"
  using fetches_after by blast

section \<open>A session belongs to its attempt and to a trusted issuer\<close>

lemma protocol_ok [simp]: "protocol r = Ok a \<longleftrightarrow> r = Ok a"
  by (simp add: protocol_def split: sum.split)

lemma session_error_ok [simp]:
  "(case r of Inl e \<Rightarrow> Err (f e) | Inr a \<Rightarrow> Ok a) = Ok b \<longleftrightarrow> r = Ok b"
  by (simp split: sum.split)

lemma assert_exact_match_ok [simp]: "assert_exact_match a b = Ok u \<longleftrightarrow> a = b"
  by (simp add: assert_exact_match_def)

text \<open>Which issuers a provider stands for.\<close>

definition issuer_trusted :: "('k, 't) oidc_library \<Rightarrow> provider_kind \<Rightarrow> string \<Rightarrow> bool" where
  "issuer_trusted lib kind issuer \<longleftrightarrow>
     (case kind of
        Google \<Rightarrow> issuer = google_issuer
      | DeploymentOwned i \<Rightarrow> issuer = i
      | Entra _ i tenants \<Rightarrow>
          if tenant_independent tenants
          then \<exists>tid. tenants_accept (lib_uuid lib) tenants (Some tid) \<and> issuer = tenant_issuer i tid
          else issuer = i)"

lemma bound_issuer_trusted:
  assumes "bind_entra_token_issuer lib provider raw key_issuer = Ok bound"
  shows "config_id bound = config_id provider \<and> config_client_id bound = config_client_id provider
    \<and> issuer_trusted lib (config_kind provider) (kind_issuer (config_kind bound))
    \<and> (\<forall>authority issuer tenants. config_kind provider = Entra authority issuer tenants \<longrightarrow>
        (\<exists>issuer'. config_kind bound = Entra authority issuer' tenants))"
proof (cases "config_kind provider")
  case (Entra authority issuer tenants)
  show ?thesis
  proof (cases "tenant_independent tenants")
    case True
    then obtain k concrete where c: "validate_entra_token_issuer lib raw provider k = Ok concrete"
      "with_entra_token_issuer provider concrete = Ok bound"
      using assms Entra by (auto simp: bind_entra_token_issuer_def and_then_ok ok_or_ok)
    from c(1) Entra obtain tid where "tenants_accept (lib_uuid lib) tenants (Some tid)" "concrete = tenant_issuer issuer tid"
      by (auto simp: validate_entra_token_issuer_def and_then_ok ok_or_ok parse_issuer_def if_err_ok
          split: sum.splits prod.splits option.splits if_splits)
    then show ?thesis using c(2) Entra True
      by (auto simp: with_entra_token_issuer_def issuer_trusted_def)
  qed (use assms Entra in \<open>simp add: bind_entra_token_issuer_def issuer_trusted_def\<close>)
qed (use assms in \<open>simp_all add: bind_entra_token_issuer_def issuer_trusted_def\<close>)

lemma verified_identity_claims:
  assumes "verify_with_group_mapping lib raw verifier provider nonce mapping = Ok identity"
  obtains token claims where
    "lib_token lib raw = Some token" "lib_claims lib verifier nonce token = Some claims"
    "vi_issuer identity = claim_issuer claims" "vi_subject identity = claim_subject claims"
    "\<not> tenant_refused lib (config_kind provider) claims"
  using assms unfolding verify_with_group_mapping_def
  by (auto simp: and_then_ok ok_or_ok if_err_ok)

text \<open>What a token must have been for the session it led to.\<close>

definition token_admits ::
  "('k, 't) oidc_library \<Rightarrow> oidc_provider_config \<Rightarrow> string \<Rightarrow> string \<Rightarrow> instant \<Rightarrow> verified_identity \<Rightarrow> bool" where
  "token_admits lib provider nonce raw now identity \<longleftrightarrow>
     (\<exists>token verifier claims. lib_token lib raw = Some token \<and> lib_claims lib verifier nonce token = Some claims
       \<and> ver_client_id verifier = config_client_id provider \<and> ver_now verifier = now
       \<and> ver_algs verifier = default_id_token_signing_algs
       \<and> vi_issuer identity = claim_issuer claims \<and> vi_subject identity = claim_subject claims
       \<and> \<not> tenant_refused lib (config_kind provider) claims)"

lemma accepted_token:
  assumes law: "\<And>verifier nonce token claims. lib_claims lib verifier nonce token = Some claims \<Longrightarrow>
      claim_issuer claims = ver_issuer verifier"
    and "accept_token lib world runtime secret nonce raw keys key_issuer now = Ok session"
  shows "\<exists>identity provider. world_issue world identity provider = Ok session
    \<and> config_id provider = config_id (rt_config runtime)
    \<and> issuer_trusted lib (config_kind (rt_config runtime)) (vi_issuer identity)
    \<and> token_admits lib (rt_config runtime) nonce raw now identity"
proof -
  from assms(2) obtain provider verifier identity where
    p: "bind_entra_token_issuer lib (rt_config runtime) raw key_issuer = Ok provider" and
    v: "build_verifier_at lib provider secret keys default_id_token_signing_algs now = Ok verifier" and
    i: "verify_with_group_mapping lib raw verifier provider nonce (rt_group_mapping runtime) = Ok identity" and
    s: "world_issue world identity provider = Ok session"
    unfolding accept_token_def by (auto simp: and_then_ok)
  note b = bound_issuer_trusted [OF p]
  obtain token claims where c: "lib_token lib raw = Some token" "lib_claims lib verifier nonce token = Some claims"
    "vi_issuer identity = claim_issuer claims" "vi_subject identity = claim_subject claims"
    "\<not> tenant_refused lib (config_kind provider) claims"
    by (rule verified_identity_claims [OF i])
  have ver: "ver_client_id verifier = config_client_id provider" "ver_now verifier = now"
    "ver_algs verifier = default_id_token_signing_algs" "ver_issuer verifier = kind_issuer (config_kind provider)"
    using v by (auto simp: build_verifier_at_def default_id_token_signing_algs_def split: if_splits)
  have "\<not> tenant_refused lib (config_kind (rt_config runtime)) claims"
    using b c(5) by (auto simp: tenant_refused_def split: provider_kind.splits)
  then have "token_admits lib (rt_config runtime) nonce raw now identity"
    unfolding token_admits_def using c ver b
    by (intro exI [of _ token] exI [of _ verifier] exI [of _ claims]) simp
  then show ?thesis using s b law [OF c(2)] c(3) ver(4) by metis
qed

text \<open>C9: A session is issued for the attempt that was begun, and for an issuer that is trusted. When a
  callback ends in a session, it arrived at exactly the redirect URI of its attempt and of the provider;
  the code was exchanged under the attempt's verifier; the identity in the session was verified from the
  token of that exchange against the attempt's nonce, for the provider's own client and at the present
  instant; and its issuer is one the provider stands for: a fixed issuer, or for a provider of many
  tenants the issuer of a tenant it admits. The hypothesis is what the verifier of \<open>openidconnect\<close>
  promises: verified claims are of the issuer that was asked for.\<close>

theorem session_belongs_to_its_attempt:
  assumes law: "\<And>verifier nonce token claims. lib_claims lib verifier nonce token = Some claims \<Longrightarrow>
      claim_issuer claims = ver_issuer verifier"
    and ended: "finish_callback lib world runtime attempt code received now = (Ok session, runtime')"
  shows "received = cb_redirect_uri attempt \<and> received = config_redirect_uri (rt_config runtime)
    \<and> code \<noteq> [] \<and> length code \<le> max_authorization_code_bytes
    \<and> (\<exists>raw identity provider.
        world_exchange world code (cb_verifier attempt) (rt_client_secret runtime) = Ok raw
      \<and> token_admits lib (rt_config runtime) (cb_nonce attempt) raw now identity
      \<and> issuer_trusted lib (config_kind (rt_config runtime)) (vi_issuer identity)
      \<and> config_id provider = config_id (rt_config runtime)
      \<and> world_issue world identity provider = Ok session)"
proof -
  from ended obtain client_secret raw kid keys key_issuer where
    token: "fetch_token lib world runtime attempt code received = Ok (client_secret, raw, kid)" and
    accepted: "accept_token lib world runtime client_secret (cb_nonce attempt) raw keys key_issuer now = Ok session"
    unfolding finish_callback_def by (auto split: sum.splits prod.splits)
  from token have before: "received = cb_redirect_uri attempt" "received = config_redirect_uri (rt_config runtime)"
      "code \<noteq> []" "length code \<le> max_authorization_code_bytes"
      "materialize_client_secret lib (rt_client_secret runtime) = Ok client_secret"
      "world_exchange world code (cb_verifier attempt) client_secret = Ok raw"
    unfolding fetch_token_def by (auto simp: and_then_ok if_err_ok ok_or_ok)
  have "client_secret = rt_client_secret runtime"
    using before(5) by (auto simp: materialize_client_secret_def split: option.splits if_splits)
  moreover have "\<exists>identity provider. world_issue world identity provider = Ok session
      \<and> config_id provider = config_id (rt_config runtime)
      \<and> issuer_trusted lib (config_kind (rt_config runtime)) (vi_issuer identity)
      \<and> token_admits lib (rt_config runtime) (cb_nonce attempt) raw now identity"
    using law accepted by (rule accepted_token)
  ultimately show ?thesis using before by blast
qed

text \<open>A library and a world in which a callback succeeds: a verifier that confirms what it is asked.\<close>

definition example_library :: "(unit, string) oidc_library" where
  "example_library =
     \<lparr>lib_url = (\<lambda>_. None), lib_uuid = (\<lambda>_. None), lib_base64 = Some, lib_json = (\<lambda>_. None),
      lib_kid = (\<lambda>_. Some None), lib_token = Some,
      lib_claims = (\<lambda>verifier nonce token. Some
        \<lparr>claim_issuer = ver_issuer verifier, claim_subject = ''sub'', claim_email = Some ''a@b'',
         claim_preferred_username = None, claim_upn = None, claim_tid = None\<rparr>),
      lib_time_ok = (\<lambda>_. True), lib_utf8 = (\<lambda>_. True), lib_lower = (\<lambda>s. s)\<rparr>"

definition example_world :: "(unit, string) callback_world" where
  "example_world =
     \<lparr>world_http_ok = (\<lambda>_. True), world_exchange = (\<lambda>_ _ _. Ok ''h.p.s''),
      world_keys = \<lparr>src_url_ok = True,
        src_answer = Some \<lparr>md_status = 200, md_content_type = Some ''application/json'', md_body = ''{}''\<rparr>,
        src_keys = (\<lambda>_. Some [(None, ())]), src_issuers = (\<lambda>_. Some [])\<rparr>,
      world_issue = (\<lambda>identity _. Ok (vi_issuer identity))\<rparr>"

definition example_runtime :: "(string option \<times> unit) list \<Rightarrow> instant option \<Rightarrow> unit provider_runtime" where
  "example_runtime keys fetched =
     \<lparr>rt_config = (example_provider ''google'' ''b'')\<lparr>config_redirect_uri := ''https://bot/cb''\<rparr>,
      rt_client_secret = None, rt_token_endpoint = Some ''t'',
      rt_jwks = \<lparr>cached_keys = keys, last_fetch_at = fetched, key_issuers = []\<rparr>, rt_group_mapping = None\<rparr>"

definition example_attempt :: callback_login_attempt where
  "example_attempt = \<lparr>cb_provider = ProviderId ''google'', cb_nonce = ''n'', cb_verifier = ''v'',
      cb_redirect_uri = ''https://bot/cb''\<rparr>"

theorem session_belongs_to_its_attempt_witness:
  "finish_callback example_library example_world (example_runtime [] None) example_attempt ''code'' ''https://bot/cb'' 7
     = (Ok google_issuer, example_runtime [(None, ())] (Some 7))
   \<and> (\<exists>raw identity provider.
        world_exchange example_world ''code'' ''v'' None = Ok raw
      \<and> token_admits example_library (rt_config (example_runtime [] None)) ''n'' raw 7 identity
      \<and> issuer_trusted example_library Google (vi_issuer identity)
      \<and> config_id provider = ProviderId ''google''
      \<and> world_issue example_world identity provider = Ok google_issuer)"
proof -
  have law: "lib_claims example_library verifier nonce token = Some claims \<Longrightarrow> claim_issuer claims = ver_issuer verifier"
    for verifier nonce token claims
    by (auto simp: example_library_def)
  have essence: "essence_is_one_of ''application/json'' json_essences"
    by (simp add: essence_is_one_of_def json_essences_def trim_def trim_matches_def is_whitespace_def)
  have address: "claim_looks_like_an_address ''a@b''" by (simp add: claim_looks_like_an_address_def)
  have fetch: "fetch_token example_library example_world (example_runtime [] None) example_attempt ''code'' ''https://bot/cb''
      = Ok (None, ''h.p.s'', None)"
    by (simp add: fetch_token_def example_library_def example_world_def example_runtime_def example_attempt_def
        example_provider_def assert_exact_match_def max_authorization_code_bytes_def is_ascii_def
        materialize_client_secret_def untrusted_key_id_def token_segments_def max_jose_header_bytes_def)
  have keys: "key_set_for None (world_keys example_world) default_metadata_max_bytes default_jwks_cooldown 7
      (rt_jwks (example_runtime [] None))
      = (Ok [(None, ())], \<lparr>cached_keys = [(None, ())], last_fetch_at = Some 7, key_issuers = []\<rparr>)"
    using essence by (simp add: key_set_for_def cache_contains_def allows_refresh_def jwks_refresh_def into_json_body_def
        default_metadata_max_bytes_def example_world_def example_runtime_def)
  have accept: "accept_token example_library example_world (example_runtime [] None) None ''n'' ''h.p.s'' [()] None 7
      = Ok google_issuer"
    using address by (simp add: accept_token_def bind_entra_token_issuer_def
        build_verifier_at_def verify_with_group_mapping_def tenant_refused_def resolve_directory_email_def
        map_filter_def example_library_def example_world_def example_runtime_def example_provider_def protocol_def)
  have nonce: "cb_nonce example_attempt = ''n''" by (simp add: example_attempt_def)
  have ended: "finish_callback example_library example_world (example_runtime [] None) example_attempt ''code''
      ''https://bot/cb'' 7 = (Ok google_issuer, example_runtime [(None, ())] (Some 7))"
    unfolding finish_callback_def fetch by (simp add: keys accept nonce) (simp add: example_runtime_def)
  from session_belongs_to_its_attempt [OF law ended] ended show ?thesis
    by (simp add: example_runtime_def example_provider_def example_attempt_def)
qed

section \<open>The configured tenant decides who is admitted\<close>

text \<open>What the Microsoft setting means: every tenant, every tenant but the one of personal accounts, only
  that one, or the one that is named.\<close>

lemma configured_tenant_admits:
  assumes "entra_kind lib tenant = Ok (Entra authority issuer tenants)"
  shows "tenants_accept uuid tenants tid \<longleftrightarrow>
    (\<exists>t. tid = Some t \<and>
      (if tenant = ''common'' then uuid t = Some t
       else if tenant = ''organizations'' then uuid t = Some t \<and> t \<noteq> microsoft_consumer_tenant_id
       else if tenant = ''consumers'' then t = microsoft_consumer_tenant_id
       else t = tenant))"
proof -
  have "tenants = (if tenant = ''common'' then TenantIndependent True
      else if tenant = ''organizations'' then TenantIndependent False
      else if tenant = ''consumers'' then AllowList [microsoft_consumer_tenant_id] else AllowList [tenant])"
    using assms by (auto simp: entra_kind_def and_then_ok split: if_splits option.splits)
  then show ?thesis
    by (cases tid; cases "uuid (the tid)") (auto simp: tenants_accept_def)
qed

end
