(* ===== verification/Spec2Isabelle.thy ===== *)
theory Spec2Isabelle
  imports AuditRetention AuditCheckpoint ToolPipeline AgentReducer RunThread Session VaultRotation VaultCanary IdentityGroups Policy BackupPostRestore RuntimeCapabilities SignedTokens Memory Routing UpgradePreflight Artifact Control Chunk Provider Budget Recovery Content JsonPatch RemoteSession OidcLogin
begin

text \<open>
  wrokbot: a verification development for the core of the product.

  1. The program and its parts. wrokbot is a Rust workspace. The crate \<open>crates/openbot-domain\<close> holds the
  decisions of the product as pure code: state machines, plans, checks and canonical encodings, with no
  I/O. \<open>crates/openbot-contracts\<close> has the identifiers and wire types they share. Around them,
  \<open>crates/openbot-application\<close> has the use cases over ports, \<open>crates/openbot-agent\<close> the agent loop,
  \<open>crates/openbot-computer\<close> browser and computer control, \<open>crates/openbot-infra\<close> PostgreSQL and HTTP
  adapters, and \<open>crates/openbot-server\<close>, \<open>crates/openbot-desktop\<close> and \<open>crates/wrokbot-ui\<close> the hosts and
  the interface. This development models every module of the domain crate but the CEL interpreter it
  calls, with the contract types these modules read, and the modules of the surrounding crates that
  carry logic of their own: the control of the browser, semantic chunks, provider retries and routing,
  the run cost budget, the sign-in at an external OpenID Connect provider, and the remote agents: the
  decoder of their AG-UI events, the encoder of what they are sent, and the session in between. How the parts interact: a tool call goes through metadata, policy, approval, a durable
  decision and a single-use capability before it runs, and its outcome becomes an audit payload; an
  audit payload becomes an event, a row of the hash chain, and the chain is checkpointed and closed
  under retention; an identity is resolved to a role and an authorization generation, which sessions
  and human leases are bound to; secrets are sealed under associated data that name them, and backups
  are inventoried, restored and followed by a plan that revives nothing of a live session.

  2. Theories, by the files they model (under \<open>crates/openbot-domain/src\<close> unless another crate is named).

  \<^item> \<open>Prelude\<close>: results, bytes, words with checked and saturating arithmetic, and the interfaces below.
    \<open>StdModel\<close>: what the source uses of the standard library (UTF-8 scalars, trimming, ASCII case,
    splitting, \<open>BTreeMap\<close>, decimal integers, JSON values). \<open>FlatJson\<close>: what is relied on of
    \<open>serde_json\<close> where the code writes an object by hand and reads it back.
  \<^item> Audit: \<open>Canonical\<close> (\<open>audit/hash.rs\<close>: digests, the canonical writer), \<open>AuditPayload\<close>
    (\<open>audit/payload.rs\<close>), \<open>AuditEvent\<close> (\<open>audit/event.rs\<close>), \<open>AuditChain\<close> (\<open>audit/chain.rs\<close>),
    \<open>AuditCheckpoint\<close> and \<open>AuditRetention\<close> (\<open>audit/checkpoint.rs\<close>, \<open>audit/retention.rs\<close>).
  \<^item> Tools: \<open>ToolMetadata\<close> (\<open>tool/metadata.rs\<close>, \<open>tool/commit.rs\<close>), \<open>ToolArgs\<close> (\<open>tool/args.rs\<close>),
    \<open>ToolApproval\<close> (\<open>tool/approval.rs\<close>), \<open>ToolPipeline\<close> (\<open>tool/pipeline.rs\<close>, whose typestates are one
    record each and whose consuming methods are functions between them).
  \<^item> Agent and runs: \<open>AgentReducer\<close> (\<open>agent.rs\<close>), \<open>RunThread\<close> (\<open>thread.rs\<close>, \<open>run.rs\<close>), \<open>Memory\<close>
    (\<open>memory.rs\<close>), \<open>Routing\<close> (\<open>routing.rs\<close>), \<open>RuntimeCapabilities\<close> (\<open>runtime_capabilities.rs\<close>),
    \<open>Content\<close> (\<open>content_governance.rs\<close>, \<open>components.rs\<close>, \<open>channel.rs\<close>), \<open>Artifact\<close> (\<open>artifact.rs\<close>,
    \<open>artifact_cleanup.rs\<close>).
  \<^item> Identity: \<open>Identity\<close> (\<open>identity/email.rs\<close>, \<open>generation.rs\<close>, \<open>roles.rs\<close>), \<open>Revocation\<close>
    (\<open>identity/revocation.rs\<close>), \<open>Session\<close> and \<open>Origin\<close> (\<open>identity/session.rs\<close>), \<open>IdentityGroups\<close>
    (\<open>identity/groups.rs\<close>), \<open>SignedTokens\<close> (\<open>identity/signed_value.rs\<close>, \<open>remote_callback.rs\<close>).
  \<^item> Sign-in (\<open>openbot-infra/src/auth/oidc/\<close>): \<open>OidcDirectory\<close> (\<open>error.rs\<close>, \<open>email.rs\<close>, \<open>ratelimit.rs\<close>,
    \<open>provider.rs\<close>, \<open>routing.rs\<close>, \<open>preauth.rs\<close>: which provider an address is sent to, and how often) and
    \<open>OidcLogin\<close> (\<open>redirect.rs\<close>, \<open>attempt.rs\<close>, \<open>transport.rs\<close>, \<open>jwks.rs\<close>, \<open>token.rs\<close>, \<open>claims.rs\<close>,
    \<open>configured.rs\<close>, \<open>coordinator.rs\<close>: from the attempt to the identity it ends in).
  \<^item> Vault: \<open>VaultBinding\<close>, \<open>VaultAead\<close>, \<open>VaultRotation\<close>, \<open>VaultCanary\<close> (\<open>vault/*.rs\<close>).
  \<^item> Policies: \<open>PolicyGuard\<close> (\<open>policy/cel/guard.rs\<close>) and \<open>Policy\<close> (the rest of \<open>policy/\<close>).
  \<^item> Backups and upgrades: \<open>BackupInventory\<close>, \<open>BackupPlan\<close>, \<open>BackupPostRestore\<close>
    (\<open>backup/inventory.rs\<close>, \<open>plan.rs\<close>, \<open>post_restore.rs\<close>), \<open>Recovery\<close> (\<open>backup/recovery_wrap.rs\<close>,
    \<open>recovery_chunks.rs\<close>), \<open>UpgradePreflight\<close> (\<open>upgrade_preflight.rs\<close>).
  \<^item> Other crates: \<open>Control\<close> (\<open>openbot-computer/src/control.rs\<close>), \<open>Chunk\<close>
    (\<open>openbot-application/src/chunk.rs\<close>), \<open>Provider\<close> (\<open>openbot-agent/src/retry.rs\<close>,
    \<open>provider_router.rs\<close>), \<open>Budget\<close> (\<open>openbot-application/src/run_cost_budget.rs\<close>, on the canonical
    decimals of \<open>Decimal\<close>).
  \<^item> Remote agents: \<open>JsonPatch\<close> and \<open>AguiDecoder\<close> (\<open>openbot-agent/src/agui.rs\<close>: RFC 6902 patches, and the
    decoder, one definition per event type, composed by \<open>event_handler\<close>, \<open>ingest_step\<close> and \<open>ingest\<close>),
    \<open>AguiProtocol\<close> (the reference protocol over the emitted events and the proof that the decoder
    refines it), \<open>RemoteTypes\<close> (interrupts, resumes and projections of \<open>openbot-application/src/provider.rs\<close>),
    \<open>AguiInput\<close> (\<open>encode_run_agent_input_with_resume\<close>), \<open>RemoteSession\<close> (\<open>openbot-agent/src/remote_provider.rs\<close>,
    \<open>openbot-application/src/provider/content.rs\<close>). A handler of the decoder is a function from the decoder
    to a result, the decoder it leaves and the events it adds, so a half-done event leaves its traces as
    in the code. The transport of a session is the list of what it will answer.

  3. How code is rendered. A struct is a record, an enum a datatype, a \<open>Result\<close> the sum \<open>('e, 'a) result\<close>
  with \<open>Ok\<close> and \<open>Err\<close>, \<open>?\<close> is \<open>and_then\<close>, early returns are branches in the order of the code. A method on
  \<open>&mut self\<close> returns the state it leaves, also where it answers an error. Machine integers are words of
  their width; \<open>usize\<close> has 64 bits where overflow matters and is a natural number where it only counts
  the elements of a list; instants and durations are nanoseconds. A string is the list of its UTF-8
  bytes, and character tests decode scalars. Loops over slices are folds or recursion; \<open>try_fold\<close> is the
  loop that stops at its first error. A loop that need not shorten its input (\<open>Chunk\<close>) is a
  \<open>while_option\<close>, with termination proved; the retry loop (\<open>Provider\<close>) is a function whose measure is
  the number of retries left; a session is read until its transport has nothing more, on the measure of
  the reads left. No definition uses fuel.

  4. Interfaces. Five locales of \<open>Prelude\<close> and one of \<open>VaultRotation\<close> state the contracts that components
  rely on; their lemmas are proved once and used through interpretations on the definitions of the model.
  \<^item> \<open>prefix_code\<close>, with \<open>fixed_code\<close> as a sublocale: of two encodings followed by anything, equal bytes come
    from equal values and equal rests. Interpreted for every canonical encoder of the audit records, for
    tool arguments, associated data of the vault and of recovery chunks, and policy versions.
  \<^item> \<open>guarded_machine\<close>, extended by \<open>bounded_machine\<close>: operations that may refuse, with an invariant, and
    with a measure that every accepted step lowers. Interpreted for threads, runs, the agent, accounts, sessions,
    credential rotations, memories, clean-up fences, browser control and the store of login attempts.
  \<^item> \<open>refinement\<close>: a program whose steps, seen through an abstraction, are exactly those of a specification.
    Interpreted for the typed chain of a vault migration and the custody of the secret it moves.
  \<^item> \<open>saturating_counter\<close>: authorization generations, fencing tokens and credential versions never wrap.

  5. What the lemmas show. Encoders are injective and digests identify what they were taken of, up to an
  explicit collision of the hash. The audit chain is verified exactly when it is linked, its first break
  is reported, and closing a prefix under retention keeps the rest verifiable. A tool call starts exactly
  when everything that must allow it does. State machines (runs, agent, memories, sessions,
  control, fences) keep their invariants over every sequence of calls, and their final states are final.
  Planners and validators (restore, post-restore, upgrade, runtime capabilities, recovery streams,
  quotas) accept exactly the inputs of a declarative description, which is stated beside each of them.
  Counters and sums never wrap where the code relies on it. Texts that are stored are read back
  (cost caps, fences, envelopes, digests). Whatever a remote agent sends, the events taken from it follow
  the protocol (what is opened is closed, nothing follows the end), a patch touches nothing but the
  places it names, and a session closes once: calls are handed on only of a run that finished, each of an
  offered tool, and a failed run ends in its error. What is sent to a remote agent is encoded exactly when
  the request is within its limits and every call is paired with its result. A login attempt is redeemed
  once, a session belongs to the attempt, the redirect URI and the issuer it was asked for, an address goes
  to the one provider that owns its domain, and no interval of a window's length lets through more than
  twice the limit of a rate. A migrated secret is the one its legacy envelope held, read back from the new
  column before the old one is given up.

  6. Parameters and hypotheses. Code that is not in the repository is an argument: SHA-256, HMAC, AES-GCM,
  Base64, \<open>serde_json\<close>, Unicode lower-casing, URL and UUID parsing, the \<open>openidconnect\<close> library, the CEL
  compiler and interpreter (with the thread it is run on), stores and providers behind traits. A theorem that relies on one says so in its hypotheses (a cipher opens what it sealed and under
  no other associated data; a decoder inverts its encoder), and its witness instantiates it.

  7. Bounds that are proved rather than assumed: eight tool steps of an agent run, 32 artifacts and 16 GiB
  of a workspace, 8 KiB chunks, 32 recovery chunks of 4 MiB in all, sixteen components and eight pending
  actions of an upgrade, the delays of provider retries, and the 4096 projections and 8 MiB of a remote session.

  8. Not modelled, and why. The CEL interpreter is a library. Of the domain crate only accessors of
  private fields, \<open>Debug\<close> and \<open>Display\<close> redaction, zeroization and \<open>Drop\<close> are left out, whose effect is not
  visible in values. The other crates are I/O: SQL and its transactions (the rest of \<open>openbot-infra\<close>), HTTP and
  WebSocket handlers (\<open>openbot-server\<close>), process supervision, windows and keychains (\<open>openbot-desktop\<close> and
  the platform crates), rendering (\<open>wrokbot-ui\<close>, \<open>apps\<close>), asynchronous orchestration over ports (the rest of
  \<open>openbot-application\<close>, \<open>openbot-agent\<close> and \<open>openbot-computer\<close>), wire records without behaviour (the rest
  of \<open>openbot-contracts\<close>) and test support (\<open>openbot-testkit\<close>). Their correctness rests on databases,
  clocks, networks and operating systems that no definition here could state faithfully.
\<close>

end
